(* ===== verification/Prelude.thy ===== *)
theory Prelude
  imports Main "HOL-Library.Char_ord" "HOL-Library.List_Lexorder" "HOL-Library.Multiset"
begin

text \<open>
  Shared vocabulary of the development: byte strings, 64-bit signed arithmetic, Go maps
  with an explicit iteration order, and the list facts that several components use.

  \<^item> A Go \<open>string\<close> or \<open>[]byte\<close> is a HOL \<open>string\<close>, a list of 8-bit characters, ordered
    bytewise (\<open>HOL-Library.Char_ord\<close> and \<open>HOL-Library.List_Lexorder\<close>), as Go compares strings.
  \<^item> A Go \<open>int\<close> or \<open>int64\<close> is an \<open>int\<close>; \<open>wrap64\<close> is applied where the arithmetic of the
    source can leave the 64-bit range.
  \<^item> A Go map is an association list with distinct keys. Its order stands for the iteration
    order, which Go leaves unspecified: statements about loops over a map are either about
    every such list or up to permutation.
\<close>

type_synonym bytes = string

named_theorems gomap_simps \<open>rewrite rules for Go maps as association lists\<close>
named_theorems wrap_simps \<open>rewrite rules for 64-bit wrap-around\<close>

subsection \<open>Signed 64-bit arithmetic\<close>

definition wrap64 :: "int \<Rightarrow> int" where
  "wrap64 x = signed_take_bit 63 x"

definition int64_ok :: "int \<Rightarrow> bool" where
  "int64_ok x \<longleftrightarrow> - (2 ^ 63) \<le> x \<and> x < 2 ^ 63"

lemma wrap64_ok [wrap_simps]: "int64_ok x \<Longrightarrow> wrap64 x = x"
  by (simp add: wrap64_def int64_ok_def signed_take_bit_int_eq_self)

lemma wrap64_range: "int64_ok (wrap64 x)"
  unfolding wrap64_def int64_ok_def
  using signed_take_bit_int_less_exp [of 63 x] signed_take_bit_int_greater_eq_minus_exp [of 63 x]
  by simp

subsection \<open>Go maps as association lists\<close>

type_synonym ('k, 'v) gomap = "('k \<times> 'v) list"

text \<open>\<open>m[k]\<close> with its presence flag.\<close>

definition gm_get :: "('k, 'v) gomap \<Rightarrow> 'k \<Rightarrow> 'v option" where
  "gm_get m k = map_of m k"

text \<open>\<open>m[k] = v\<close>: an existing entry keeps its place, a new one is appended.\<close>

fun gm_set :: "('k, 'v) gomap \<Rightarrow> 'k \<Rightarrow> 'v \<Rightarrow> ('k, 'v) gomap" where
  "gm_set [] k v = [(k, v)]"
| "gm_set ((k', v') # m) k v = (if k' = k then (k, v) # m else (k', v') # gm_set m k v)"

text \<open>\<open>delete(m, k)\<close>.\<close>

definition gm_delete :: "('k, 'v) gomap \<Rightarrow> 'k \<Rightarrow> ('k, 'v) gomap" where
  "gm_delete m k = filter (\<lambda>e. fst e \<noteq> k) m"

definition gm_keys :: "('k, 'v) gomap \<Rightarrow> 'k list" where
  "gm_keys m = map fst m"

definition gm_ok :: "('k, 'v) gomap \<Rightarrow> bool" where
  "gm_ok m \<longleftrightarrow> distinct (map fst m)"

lemma gm_get_Nil [simp]: "gm_get [] k = None"
  by (simp add: gm_get_def)

lemma gm_get_set [simp, gomap_simps]:
  "gm_get (gm_set m k v) k' = (if k' = k then Some v else gm_get m k')"
  by (induction m) (auto simp: gm_get_def)

lemma gm_get_delete [simp, gomap_simps]:
  "gm_get (gm_delete m k) k' = (if k' = k then None else gm_get m k')"
  by (induction m) (auto simp: gm_get_def gm_delete_def)

lemma set_keys_gm_set [simp, gomap_simps]: "fst ` set (gm_set m k v) = insert k (fst ` set m)"
proof (induction m)
  case Nil
  then show ?case by simp
next
  case (Cons e m)
  then show ?case
    by (cases e; cases "fst e = k") (simp_all add: insert_commute)
qed

lemma gm_ok_Nil [simp]: "gm_ok []"
  by (simp add: gm_ok_def)

lemma gm_ok_set [simp, intro]: "gm_ok m \<Longrightarrow> gm_ok (gm_set m k v)"
  unfolding gm_ok_def
proof (induction m)
  case Nil
  then show ?case by simp
next
  case (Cons e m)
  then show ?case
    by (cases e) auto
qed

lemma gm_ok_delete [simp, intro]: "gm_ok m \<Longrightarrow> gm_ok (gm_delete m k)"
  by (auto simp: gm_ok_def gm_delete_def distinct_map inj_on_def)

lemma gm_get_mem: "gm_get m k = Some v \<Longrightarrow> (k, v) \<in> set m"
  by (simp add: gm_get_def map_of_SomeD)

lemma gm_get_iff: "gm_ok m \<Longrightarrow> gm_get m k = Some v \<longleftrightarrow> (k, v) \<in> set m"
  by (simp add: gm_get_def gm_ok_def map_of_eq_Some_iff)

lemma gm_get_None_iff: "gm_get m k = None \<longleftrightarrow> k \<notin> fst ` set m"
  by (simp add: gm_get_def map_of_eq_None_iff)

lemma set_gm_set_subset: "set (gm_set m k v) \<subseteq> insert (k, v) (set m)"
  by (induction m) (auto split: if_splits)

lemma set_gm_delete: "set (gm_delete m k) = {e \<in> set m. fst e \<noteq> k}"
  by (auto simp: gm_delete_def)

subsection \<open>Sorted lists\<close>

lemma sorted_le_last: "sorted xs \<Longrightarrow> x \<in> set xs \<Longrightarrow> x \<le> last xs"
  by (induction xs) auto

end
