(* ===== verification/GoStrings.thy ===== *)
theory GoStrings
  imports Prelude "HOL-Library.Sublist"
begin

text \<open>
  The parts of Go's standard library on strings that the modelled code calls: \<open>strings.TrimSpace\<close>,
  \<open>Trim\<close>, \<open>TrimLeft\<close>, \<open>TrimRight\<close>, \<open>HasPrefix\<close>, \<open>HasSuffix\<close>, \<open>Index\<close>, \<open>LastIndex\<close>, \<open>ToLower\<close>,
  \<open>ToUpper\<close>, \<open>EqualFold\<close>, and decimal printing and scanning of \<open>fmt\<close> and \<open>strconv\<close>.

  Case mapping of a string that holds a byte outside ASCII goes through the Unicode tables of
  the \<open>unicode\<close> package. Those tables are a parameter, the record \<open>unicode\<close>; on ASCII strings
  the functions below compute and do not consult it, which is also how Go takes its fast path.
\<close>

named_theorems gostring_simps \<open>rewrite rules for the string library\<close>

subsection \<open>Prefixes, suffixes, positions\<close>

definition HasPrefix :: "string \<Rightarrow> string \<Rightarrow> bool" where
  "HasPrefix s p \<longleftrightarrow> take (length p) s = p"

definition HasSuffix :: "string \<Rightarrow> string \<Rightarrow> bool" where
  "HasSuffix s p \<longleftrightarrow> HasPrefix (rev s) (rev p)"

lemma HasPrefix_iff [gostring_simps]: "HasPrefix s p \<longleftrightarrow> prefix p s"
  unfolding HasPrefix_def by (metis append_eq_conv_conj append_take_drop_id prefix_def)

lemma HasSuffix_iff [gostring_simps]: "HasSuffix s p \<longleftrightarrow> suffix p s"
  by (simp add: HasSuffix_def HasPrefix_iff suffix_to_prefix)

text \<open>\<open>strings.Index\<close> and \<open>strings.LastIndex\<close>; \<open>None\<close> stands for the result \<open>-1\<close>.\<close>

fun Index :: "string \<Rightarrow> string \<Rightarrow> nat option" where
  "Index [] p = (if p = [] then Some 0 else None)"
| "Index (c # s) p = (if HasPrefix (c # s) p then Some 0 else map_option Suc (Index s p))"

fun LastIndex :: "string \<Rightarrow> string \<Rightarrow> nat option" where
  "LastIndex [] p = (if p = [] then Some 0 else None)"
| "LastIndex (c # s) p =
     (case LastIndex s p of
        Some i \<Rightarrow> Some (Suc i)
      | None \<Rightarrow> if HasPrefix (c # s) p then Some 0 else None)"

definition Contains :: "string \<Rightarrow> string \<Rightarrow> bool" where
  "Contains s p \<longleftrightarrow> Index s p \<noteq> None"

lemma LastIndex_char_None: "c \<notin> set s \<Longrightarrow> LastIndex s [c] = None"
  by (induction s) (auto simp: HasPrefix_def)

lemma LastIndex_char:
  assumes "c \<notin> set b"
  shows "LastIndex (a @ c # b) [c] = Some (length a)"
proof (induction a)
  case Nil
  show ?case using LastIndex_char_None [OF assms] by (simp add: HasPrefix_def)
next
  case (Cons x a)
  then show ?case by simp
qed

lemma LastIndex_bound: "LastIndex s [c] = Some i \<Longrightarrow> i < length s"
  by (induction s arbitrary: i) (auto simp: split: option.splits if_splits)

subsection \<open>Trimming\<close>

text \<open>The UTF-8 encodings of the code points for which \<open>unicode.IsSpace\<close> holds.\<close>

definition space_encodings :: "string list" where
  "space_encodings =
     [[CHR 0x09], [CHR 0x0A], [CHR 0x0B], [CHR 0x0C], [CHR 0x0D], [CHR 0x20],
      [CHR 0xC2, CHR 0x85], [CHR 0xC2, CHR 0xA0], [CHR 0xE1, CHR 0x9A, CHR 0x80],
      [CHR 0xE2, CHR 0x80, CHR 0x80], [CHR 0xE2, CHR 0x80, CHR 0x81], [CHR 0xE2, CHR 0x80, CHR 0x82],
      [CHR 0xE2, CHR 0x80, CHR 0x83], [CHR 0xE2, CHR 0x80, CHR 0x84], [CHR 0xE2, CHR 0x80, CHR 0x85],
      [CHR 0xE2, CHR 0x80, CHR 0x86], [CHR 0xE2, CHR 0x80, CHR 0x87], [CHR 0xE2, CHR 0x80, CHR 0x88],
      [CHR 0xE2, CHR 0x80, CHR 0x89], [CHR 0xE2, CHR 0x80, CHR 0x8A], [CHR 0xE2, CHR 0x80, CHR 0xA8],
      [CHR 0xE2, CHR 0x80, CHR 0xA9], [CHR 0xE2, CHR 0x80, CHR 0xAF], [CHR 0xE2, CHR 0x81, CHR 0x9F],
      [CHR 0xE3, CHR 0x80, CHR 0x80]]"

text \<open>Strip from the front as long as one of the non-empty patterns is there.\<close>

function strip_front :: "string list \<Rightarrow> string \<Rightarrow> string" where
  "strip_front ps s =
     (case find (\<lambda>p. p \<noteq> [] \<and> HasPrefix s p) ps of
        None \<Rightarrow> s
      | Some p \<Rightarrow> strip_front ps (drop (length p) s))"
  by pat_completeness auto
termination
proof (relation "measure (\<lambda>(ps, s). length s)")
  show "wf (measure (\<lambda>(ps :: string list, s :: string). length s))" by simp
next
  fix ps s p
  assume "find (\<lambda>p. p \<noteq> [] \<and> HasPrefix s p) ps = Some p"
  then have "p \<noteq> []" and "HasPrefix s p" by (auto simp: find_Some_iff)
  then have "0 < length p" and "0 < length s" by (auto simp: HasPrefix_def)
  then show "((ps, drop (length p) s), (ps, s)) \<in> measure (\<lambda>(ps, s). length s)" by simp
qed

declare strip_front.simps [simp del]

definition TrimSpace :: "string \<Rightarrow> string" where
  "TrimSpace s = rev (strip_front (map rev space_encodings) (rev (strip_front space_encodings s)))"

definition TrimLeft :: "char \<Rightarrow> string \<Rightarrow> string" where
  "TrimLeft c s = dropWhile (\<lambda>x. x = c) s"

definition TrimRight :: "char \<Rightarrow> string \<Rightarrow> string" where
  "TrimRight c s = rev (dropWhile (\<lambda>x. x = c) (rev s))"

definition Trim :: "char \<Rightarrow> string \<Rightarrow> string" where
  "Trim c s = TrimRight c (TrimLeft c s)"

definition no_front :: "string list \<Rightarrow> string \<Rightarrow> bool" where
  "no_front ps s \<longleftrightarrow> (\<forall>p \<in> set ps. p \<noteq> [] \<longrightarrow> \<not> prefix p s)"

lemma find_no_front: "find (\<lambda>p. p \<noteq> [] \<and> HasPrefix s p) ps = None \<longleftrightarrow> no_front ps s"
  by (auto simp: find_None_iff no_front_def HasPrefix_iff)

lemma strip_front_id: "no_front ps s \<Longrightarrow> strip_front ps s = s"
  using find_no_front [of s ps] by (simp add: strip_front.simps [of ps s])

lemma strip_front_no_front: "no_front ps (strip_front ps s)"
proof (induction ps s rule: strip_front.induct)
  case (1 ps s)
  show ?case
  proof (cases "find (\<lambda>p. p \<noteq> [] \<and> HasPrefix s p) ps")
    case None
    then have "no_front ps s" by (simp only: find_no_front)
    then show ?thesis by (simp add: strip_front_id)
  next
    case (Some p)
    with "1.IH" show ?thesis by (simp add: strip_front.simps [of ps s])
  qed
qed

lemma strip_front_suffix: "suffix (strip_front ps s) s"
proof (induction ps s rule: strip_front.induct)
  case (1 ps s)
  show ?case
  proof (cases "find (\<lambda>p. p \<noteq> [] \<and> HasPrefix s p) ps")
    case None
    then show ?thesis by (simp add: strip_front.simps [of ps s])
  next
    case (Some p)
    with "1.IH" have "suffix (strip_front ps s) (drop (length p) s)"
      by (simp add: strip_front.simps [of ps s])
    then show ?thesis using suffix_drop suffix_order.trans by blast
  qed
qed

lemma no_front_prefix: "no_front ps s \<Longrightarrow> prefix t s \<Longrightarrow> no_front ps t"
  unfolding no_front_def using prefix_order.trans by blast

lemma TrimSpace_ends:
  "no_front space_encodings (TrimSpace s)"
  "no_front (map rev space_encodings) (rev (TrimSpace s))"
proof -
  let ?l = "strip_front space_encodings s"
  have "suffix (strip_front (map rev space_encodings) (rev ?l)) (rev ?l)"
    by (rule strip_front_suffix)
  then have "prefix (TrimSpace s) ?l"
    by (metis TrimSpace_def rev_rev_ident suffix_to_prefix)
  then show "no_front space_encodings (TrimSpace s)"
    using no_front_prefix strip_front_no_front by blast
  show "no_front (map rev space_encodings) (rev (TrimSpace s))"
    by (simp add: TrimSpace_def strip_front_no_front)
qed

lemma TrimSpace_id:
  "no_front space_encodings s \<Longrightarrow> no_front (map rev space_encodings) (rev s) \<Longrightarrow> TrimSpace s = s"
  by (simp add: TrimSpace_def strip_front_id)

lemma TrimSpace_idem [simp, gostring_simps]: "TrimSpace (TrimSpace s) = TrimSpace s"
  by (rule TrimSpace_id [OF TrimSpace_ends])

lemma TrimSpace_Nil [simp, gostring_simps]: "TrimSpace [] = []"
  by (rule TrimSpace_id) (auto simp: no_front_def)

subsection \<open>Case mapping\<close>

record unicode =
  u_lower :: "string \<Rightarrow> string"
  u_upper :: "string \<Rightarrow> string"
  u_fold :: "string \<Rightarrow> string \<Rightarrow> bool"

definition code :: "char \<Rightarrow> nat" where
  "code c = of_char c"

definition is_ascii :: "string \<Rightarrow> bool" where
  "is_ascii s \<longleftrightarrow> list_all (\<lambda>c. code c < 128) s"

definition ascii_lower :: "char \<Rightarrow> char" where
  "ascii_lower c = (if 65 \<le> code c \<and> code c \<le> 90 then char_of (code c + 32) else c)"

definition ascii_upper :: "char \<Rightarrow> char" where
  "ascii_upper c = (if 97 \<le> code c \<and> code c \<le> 122 then char_of (code c - 32) else c)"

definition ToLower :: "unicode \<Rightarrow> string \<Rightarrow> string" where
  "ToLower U s = (if is_ascii s then map ascii_lower s else u_lower U s)"

definition ToUpper :: "unicode \<Rightarrow> string \<Rightarrow> string" where
  "ToUpper U s = (if is_ascii s then map ascii_upper s else u_upper U s)"

definition EqualFold :: "unicode \<Rightarrow> string \<Rightarrow> string \<Rightarrow> bool" where
  "EqualFold U s t \<longleftrightarrow>
     (if is_ascii s \<and> is_ascii t then map ascii_lower s = map ascii_lower t else u_fold U s t)"

definition lower_fixed :: "string \<Rightarrow> bool" where
  "lower_fixed s \<longleftrightarrow> list_all (\<lambda>c. code c < 128 \<and> \<not> (65 \<le> code c \<and> code c \<le> 90)) s"

lemma lower_fixed_append [simp]: "lower_fixed (s @ t) \<longleftrightarrow> lower_fixed s \<and> lower_fixed t"
  by (simp add: lower_fixed_def)

lemma lower_fixed_Cons [simp]:
  "lower_fixed (c # t) \<longleftrightarrow> (code c < 128 \<and> \<not> (65 \<le> code c \<and> code c \<le> 90)) \<and> lower_fixed t"
  by (simp add: lower_fixed_def)

lemma lower_fixed_Nil [simp]: "lower_fixed []"
  by (simp add: lower_fixed_def)

lemma ToLower_fixed [gostring_simps]: "lower_fixed s \<Longrightarrow> ToLower U s = s"
  by (auto simp: lower_fixed_def ToLower_def is_ascii_def list_all_iff ascii_lower_def
      intro!: map_idI)

subsection \<open>Decimal numbers\<close>

fun dec_digits :: "nat \<Rightarrow> string" where
  "dec_digits n = (if n < 10 then [char_of (48 + n)] else dec_digits (n div 10) @ [char_of (48 + n mod 10)])"

declare dec_digits.simps [simp del]

text \<open>\<open>fmt.Sprintf("%d", z)\<close> and \<open>strconv.Itoa(z)\<close>; the width variant is \<open>"%0<w>d"\<close>, where the
  sign counts as one of the \<open>w\<close> places.\<close>

definition Itoa :: "int \<Rightarrow> string" where
  "Itoa z = (if z < 0 then CHR ''-'' # dec_digits (nat (- z)) else dec_digits (nat z))"

definition pad_zeros :: "nat \<Rightarrow> string \<Rightarrow> string" where
  "pad_zeros w s = replicate (w - length s) CHR ''0'' @ s"

definition Sprintf_0d :: "nat \<Rightarrow> int \<Rightarrow> string" where
  "Sprintf_0d w z = (if z < 0 then CHR ''-'' # pad_zeros (w - 1) (dec_digits (nat (- z)))
                     else pad_zeros w (dec_digits (nat z)))"

definition is_digit :: "char \<Rightarrow> bool" where
  "is_digit c \<longleftrightarrow> 48 \<le> code c \<and> code c \<le> 57"

definition digits_val :: "string \<Rightarrow> nat" where
  "digits_val ds = foldl (\<lambda>acc c. 10 * acc + (code c - 48)) 0 ds"

text \<open>\<open>fmt.Sscanf(s, "%d", &h)\<close> into a fresh \<open>int64\<close>: blanks are skipped, an optional sign and
  a run of digits are read, anything after them is ignored; \<open>h\<close> stays 0 when there is no
  digit or the number does not fit.\<close>

definition Sscanf_d :: "string \<Rightarrow> int" where
  "Sscanf_d s =
     (let t = dropWhile (\<lambda>c. c \<in> {CHR 0x20, CHR 0x09, CHR 0x0B, CHR 0x0C, CHR 0x0D}) s;
          neg = (t \<noteq> [] \<and> hd t = CHR ''-'');
          u = (if t \<noteq> [] \<and> (hd t = CHR ''-'' \<or> hd t = CHR ''+'') then tl t else t);
          ds = takeWhile is_digit u;
          z = (if neg then - int (digits_val ds) else int (digits_val ds))
      in if ds \<noteq> [] \<and> int64_ok z then z else 0)"

text \<open>The same scan with its error: \<open>None\<close> when no number was read.\<close>

definition Sscan_int :: "string \<Rightarrow> int option" where
  "Sscan_int s =
     (let t = dropWhile (\<lambda>c. c \<in> {CHR 0x20, CHR 0x09, CHR 0x0B, CHR 0x0C, CHR 0x0D}) s;
          neg = (t \<noteq> [] \<and> hd t = CHR ''-'');
          u = (if t \<noteq> [] \<and> (hd t = CHR ''-'' \<or> hd t = CHR ''+'') then tl t else t);
          ds = takeWhile is_digit u;
          z = (if neg then - int (digits_val ds) else int (digits_val ds))
      in if ds \<noteq> [] \<and> int64_ok z then Some z else None)"

text \<open>\<open>strconv.Atoi\<close>: an optional sign and one or more digits, nothing else, within 64 bits.\<close>

definition Atoi :: "string \<Rightarrow> int option" where
  "Atoi s =
     (let neg = (s \<noteq> [] \<and> hd s = CHR ''-'');
          ds = (if s \<noteq> [] \<and> (hd s = CHR ''-'' \<or> hd s = CHR ''+'') then tl s else s);
          z = (if neg then - int (digits_val ds) else int (digits_val ds))
      in if ds \<noteq> [] \<and> list_all is_digit ds \<and> int64_ok z then Some z else None)"

text \<open>The number that \<open>strconv.ParseInt(s, 10, 64)\<close> returns, also beside an error: 0 for text that is no number, the nearest bound when
  it is out of range.\<close>

definition ParseInt_value :: "string \<Rightarrow> int" where
  "ParseInt_value s =
     (let neg = (s \<noteq> [] \<and> hd s = CHR ''-'');
          ds = (if s \<noteq> [] \<and> (hd s = CHR ''-'' \<or> hd s = CHR ''+'') then tl s else s);
          z = (if neg then - int (digits_val ds) else int (digits_val ds))
      in if ds \<noteq> [] \<and> list_all is_digit ds then max (- (2 ^ 63)) (min (2 ^ 63 - 1) z) else 0)"

lemma code_char_of [simp]: "n < 256 \<Longrightarrow> code (char_of n) = n"
  by (simp add: code_def)

lemma char_of_code [simp]: "char_of (code c) = c"
  by (simp add: code_def)

lemma code_lt_256: "code c < 256"
  by (simp add: code_def)

lemma dec_digits_nonempty: "dec_digits n \<noteq> []"
  by (subst dec_digits.simps) simp

lemma dec_digits_digit: "c \<in> set (dec_digits n) \<Longrightarrow> is_digit c"
proof (induction n rule: dec_digits.induct)
  case (1 n)
  show ?case
  proof (cases "n < 10")
    case True
    with "1.prems" show ?thesis
      by (auto simp: dec_digits.simps [of n] is_digit_def)
  next
    case False
    have "is_digit (char_of (48 + n mod 10))"
      by (simp add: is_digit_def code_char_of)
    with "1" False show ?thesis
      by (auto simp: dec_digits.simps [of n])
  qed
qed

lemma digits_val_append: "digits_val (ds @ [c]) = 10 * digits_val ds + (code c - 48)"
  by (simp add: digits_val_def)

lemma digits_val_dec_digits: "digits_val (dec_digits n) = n"
proof (induction n rule: dec_digits.induct)
  case (1 n)
  show ?case
  proof (cases "n < 10")
    case True
    then show ?thesis by (simp add: dec_digits.simps [of n] digits_val_def)
  next
    case False
    with "1.IH" have "digits_val (dec_digits (n div 10)) = n div 10" by simp
    with False show ?thesis
      by (simp add: dec_digits.simps [of n] digits_val_append)
  qed
qed

lemma Sscanf_Itoa:
  assumes "0 \<le> z" and "int64_ok z"
  shows "Sscanf_d (Itoa z) = z"
proof -
  let ?d = "dec_digits (nat z)"
  have dig: "\<forall>c \<in> set ?d. is_digit c" using dec_digits_digit by blast
  have ne: "?d \<noteq> []" by (rule dec_digits_nonempty)
  then have hd: "is_digit (hd ?d)" using dig by simp
  have blank: "\<not> is_digit c" if "c \<in> {CHR 0x20, CHR 0x09, CHR 0x0B, CHR 0x0C, CHR 0x0D}" for c
    using that by (auto simp: is_digit_def code_def)
  have dw: "dropWhile (\<lambda>c. c \<in> {CHR 0x20, CHR 0x09, CHR 0x0B, CHR 0x0C, CHR 0x0D}) ?d = ?d"
    using ne hd blank by (cases ?d) auto
  have sign: "hd ?d \<noteq> CHR ''-''" "hd ?d \<noteq> CHR ''+''"
    using hd by (auto simp: is_digit_def code_def)
  have tw: "takeWhile is_digit ?d = ?d" using dig by (simp add: takeWhile_eq_all_conv)
  from assms(1) have itoa: "Itoa z = ?d" by (simp add: Itoa_def)
  show ?thesis
    unfolding Sscanf_d_def itoa dw Let_def
    using assms sign ne by (simp add: tw digits_val_dec_digits)
qed

lemma Sscanf_Itoa_int:
  assumes "int64_ok z"
  shows "Sscanf_d (Itoa z) = z"
proof (cases "0 \<le> z")
  case False
  let ?d = "dec_digits (nat (- z))"
  have tw: "takeWhile is_digit ?d = ?d" using dec_digits_digit by (auto simp: takeWhile_eq_all_conv)
  have "Itoa z = CHR ''-'' # ?d" using False by (simp add: Itoa_def)
  then show ?thesis
    using assms False dec_digits_nonempty by (simp add: Sscanf_d_def Let_def tw digits_val_dec_digits)
qed (rule Sscanf_Itoa [OF _ assms])

subsection \<open>Trimming strings without spaces\<close>

lemma no_front_chars:
  assumes "\<forall>c \<in> set s. Q c" and "list_all (\<lambda>p. p = [] \<or> \<not> Q (hd p)) ps"
  shows "no_front ps s"
  unfolding no_front_def
proof (intro ballI impI notI)
  fix p assume p: "p \<in> set ps" "p \<noteq> []" "prefix p s"
  then have "hd p \<in> set s" by (metis list.set_sel(1) prefix_def Un_iff set_append)
  with assms p show False by (auto simp: list_all_iff)
qed

definition graphic :: "char \<Rightarrow> bool" where
  "graphic c \<longleftrightarrow> 33 \<le> code c \<and> code c \<le> 126"

lemma TrimSpace_graphic: "list_all graphic s \<Longrightarrow> TrimSpace s = s"
proof (rule TrimSpace_id)
  assume s: "list_all graphic s"
  show "no_front space_encodings s"
    by (rule no_front_chars [where Q = graphic]) (use s in \<open>simp add: list_all_iff\<close>, code_simp)
  show "no_front (map rev space_encodings) (rev s)"
    by (rule no_front_chars [where Q = graphic]) (use s in \<open>simp add: list_all_iff\<close>, code_simp)
qed

end
