(* ===== verification/IdAddress.thy ===== *)
theory IdAddress
  imports GoStrings "HOL-Library.Word"
begin

unbundle bit_operations_syntax

text \<open>
  The ID address codec of \<open>pkg/idaddress/idaddress.go\<close>: \<open>convertBits\<close>, the BCH checksum
  (\<open>polymod\<close>, \<open>createChecksum\<close>, \<open>verifyChecksum\<close>), \<open>validateDataLength\<close>, \<open>EncodeIDAddress\<close>
  and \<open>DecodeIDAddress\<close>. A byte is an \<open>8 word\<close>, a Go \<open>int\<close> a \<open>64 word\<close>; \<open>range\<close> over a string
  runs over UTF-8 decoded runes, as in Go.
\<close>

type_synonym byte = "8 word"
type_synonym goint = "64 word"

subsection \<open>Iterating over the runes of a string\<close>

definition cont_byte :: "nat \<Rightarrow> nat \<Rightarrow> string \<Rightarrow> nat \<Rightarrow> bool" where
  "cont_byte lo hi s i \<longleftrightarrow> i < length s \<and> lo \<le> code (s ! i) \<and> code (s ! i) \<le> hi"

definition six :: "string \<Rightarrow> nat \<Rightarrow> nat" where
  "six s i = code (s ! i) mod 64"

text \<open>\<open>utf8.DecodeRuneInString\<close>: the rune and its width; an invalid sequence gives U+FFFD, width 1.\<close>

definition decode_rune :: "string \<Rightarrow> nat \<times> nat" where
  "decode_rune s =
     (case s of [] \<Rightarrow> (0xFFFD, 0) | c # _ \<Rightarrow>
        (let b = code c;
             lo = (if b = 0xE0 then 0xA0 else if b = 0xF0 then 0x90 else 0x80);
             hi = (if b = 0xED then 0x9F else if b = 0xF4 then 0x8F else 0xBF)
         in if b < 0x80 then (b, 1)
            else if 0xC2 \<le> b \<and> b \<le> 0xDF \<and> cont_byte lo hi s 1
              then (b mod 32 * 64 + six s 1, 2)
            else if 0xE0 \<le> b \<and> b \<le> 0xEF \<and> cont_byte lo hi s 1 \<and> cont_byte 0x80 0xBF s 2
              then (b mod 16 * 4096 + six s 1 * 64 + six s 2, 3)
            else if 0xF0 \<le> b \<and> b \<le> 0xF4 \<and> cont_byte lo hi s 1 \<and> cont_byte 0x80 0xBF s 2
                    \<and> cont_byte 0x80 0xBF s 3
              then (b mod 8 * 262144 + six s 1 * 4096 + six s 2 * 64 + six s 3, 4)
            else (0xFFFD, 1)))"

text \<open>\<open>for i, c := range s\<close>: the runes of \<open>s\<close> with their widths, in order.\<close>

function runes :: "string \<Rightarrow> (nat \<times> nat) list" where
  "runes s = (if s = [] then [] else (let (r, k) = decode_rune s in (r, k) # runes (drop (max 1 k) s)))"
  by pat_completeness auto
termination
  by (relation "measure length") auto

declare runes.simps [simp del]

lemma decode_rune_ascii: "code c < 128 \<Longrightarrow> decode_rune (c # s) = (code c, 1)"
  by (simp add: decode_rune_def Let_def)

lemma runes_ascii: "list_all (\<lambda>c. code c < 128) s \<Longrightarrow> runes s = map (\<lambda>c. (code c, 1)) s"
  by (induction s) (simp_all add: runes.simps [of "_ # _"] runes.simps [of "[]"] decode_rune_ascii)

subsection \<open>Errors, versions, character set\<close>

datatype id_error =
    InvalidVersion byte
  | InvalidHRP
  | SeparatorNotFound
  | InvalidAddressFormat
  | InvalidVersionChar string
  | AddressTooShort
  | InvalidCharacter nat
  | ChecksumFailed
  | InvalidDataType
  | InvalidDataValue
  | InvalidPadding
  | InvalidDataLength byte nat nat
  | MultisigTooShort
  | MultisigParameters nat nat
  | MultisigDataLength nat nat
  | UnknownVersion byte

definition HRP :: string where "HRP = ''id''"

definition Separator :: string where "Separator = ''1''"

definition ChecksumLength :: nat where "ChecksumLength = 6"

definition VersionP2PKH :: byte where "VersionP2PKH = 0"
definition VersionP2SH :: byte where "VersionP2SH = 1"
definition VersionP2WPKH :: byte where "VersionP2WPKH = 2"
definition VersionP2WSH :: byte where "VersionP2WSH = 3"
definition VersionP2MS :: byte where "VersionP2MS = 4"
definition VersionP2TR :: byte where "VersionP2TR = 5"

lemmas version_defs = VersionP2PKH_def VersionP2SH_def VersionP2WPKH_def VersionP2WSH_def
  VersionP2MS_def VersionP2TR_def

definition VersionChar :: "(byte, string) gomap" where
  "VersionChar = [(VersionP2PKH, ''q''), (VersionP2SH, ''p''), (VersionP2WPKH, ''z''),
                  (VersionP2WSH, ''r''), (VersionP2MS, ''y''), (VersionP2TR, ''t'')]"

definition CharVersion :: "(string, byte) gomap" where
  "CharVersion = [(''q'', VersionP2PKH), (''p'', VersionP2SH), (''z'', VersionP2WPKH),
                  (''r'', VersionP2WSH), (''y'', VersionP2MS), (''t'', VersionP2TR)]"

definition Charset :: string where
  "Charset = ''qpzry9x8gf2tvdw0s3jn54khce6mua7l''"

text \<open>The \<open>init\<close> function fills the map from each character of \<open>Charset\<close> to its index.\<close>

definition CharsetMap :: "(char, goint) gomap" where
  "CharsetMap = zip Charset (map of_nat [0..<32])"

record AddressInfo =
  ai_Version :: byte
  ai_Data :: "byte list"
  ai_Address :: string

subsection \<open>Bit regrouping\<close>

text \<open>The argument of \<open>convertBits\<close> has the dynamic type \<open>[]byte\<close>, \<open>[]int\<close> or another one.\<close>

datatype slice = ByteSlice "byte list" | IntSlice "goint list" | OtherSlice

definition intSliceToBytes :: "goint list \<Rightarrow> byte list" where
  "intSliceToBytes = map ucast"

text \<open>The inner loop \<open>for bits >= toBits\<close>; \<open>toBits\<close> is positive in every call.\<close>

function emit_bits :: "nat \<Rightarrow> goint \<Rightarrow> nat \<Rightarrow> goint \<Rightarrow> goint list \<times> nat" where
  "emit_bits toB maxv bits acc =
     (if 0 < toB \<and> toB \<le> bits then
        (let bits' = bits - toB; (out, rest) = emit_bits toB maxv bits' acc
         in ((signed_drop_bit bits' acc AND maxv) # out, rest))
      else ([], bits))"
  by pat_completeness auto
termination
  by (relation "measure (\<lambda>(toB, maxv, bits, acc). bits)") auto

declare emit_bits.simps [simp del]

text \<open>
  The outer loop. \<open>m\<close> is the mask put on the accumulator (\<open>maxAcc\<close> in \<open>convertBits\<close>, all ones
  in \<open>convertBits8to5\<close>, which does not mask it); \<open>chk\<close> says whether values are range-checked
  (\<open>convertBits\<close> only). The result is \<open>ret\<close>, \<open>acc\<close> and \<open>bits\<close>.
\<close>

fun regroup :: "bool \<Rightarrow> goint \<Rightarrow> nat \<Rightarrow> nat \<Rightarrow> byte list \<Rightarrow> goint \<Rightarrow> nat \<Rightarrow> (goint list \<times> goint \<times> nat) option" where
  "regroup chk m fromB toB [] acc bits = Some ([], acc, bits)"
| "regroup chk m fromB toB (v # vs) acc bits =
     (if chk \<and> signed_drop_bit fromB (ucast v :: goint) \<noteq> 0 then None
      else
        (let acc1 = (push_bit fromB acc OR ucast v) AND m;
             (out, bits1) = emit_bits toB (mask toB) (bits + fromB) acc1
         in case regroup chk m fromB toB vs acc1 bits1 of
              None \<Rightarrow> None
            | Some (out', acc2, bits2) \<Rightarrow> Some (out @ out', acc2, bits2)))"

definition finish_bits :: "nat \<Rightarrow> nat \<Rightarrow> bool \<Rightarrow> goint list \<times> goint \<times> nat \<Rightarrow> id_error + goint list" where
  "finish_bits fromB toB pad r =
     (let (ret, acc, bits) = r; last = push_bit (toB - bits) acc AND mask toB
      in if pad then Inr (if 0 < bits then ret @ [last] else ret)
         else if fromB \<le> bits \<or> last \<noteq> 0 then Inl InvalidPadding
         else Inr ret)"

definition convertBits :: "slice \<Rightarrow> nat \<Rightarrow> nat \<Rightarrow> bool \<Rightarrow> id_error + goint list" where
  "convertBits d fromB toB pad =
     (let run = (\<lambda>bs. case regroup True (mask (fromB + toB - 1)) fromB toB bs 0 0 of
                        None \<Rightarrow> Inl InvalidDataValue
                      | Some r \<Rightarrow> finish_bits fromB toB pad r)
      in case d of
           ByteSlice bs \<Rightarrow> run bs
         | IntSlice is \<Rightarrow> run (intSliceToBytes is)
         | OtherSlice \<Rightarrow> Inl InvalidDataType)"

subsection \<open>Checksum\<close>

definition gen :: "goint list" where
  "gen = [0x3b6a57b2, 0x26508e6d, 0x1ea119fa, 0x3d4233dd, 0x2a1462b3]"

definition polymod_step :: "goint \<Rightarrow> goint \<Rightarrow> goint" where
  "polymod_step chk v =
     (let top = signed_drop_bit 25 chk
      in foldl (\<lambda>c i. if signed_drop_bit i top AND 1 = 1 then c XOR gen ! i else c)
           (push_bit 5 (chk AND 0x1ffffff) XOR v) [0..<5])"

definition polymod :: "goint list \<Rightarrow> goint" where
  "polymod values = foldl polymod_step 1 values"

definition hrpExpand :: "string \<Rightarrow> goint list" where
  "hrpExpand hrp =
     concat (map (\<lambda>(c, k). of_nat (c div 32) # replicate (k - 1) 0) (runes hrp)) @ [0] @
     concat (map (\<lambda>(c, k). of_nat (c mod 32) # replicate (k - 1) 0) (runes hrp))"

definition checksum_digits :: "goint \<Rightarrow> goint list" where
  "checksum_digits m = map (\<lambda>i. signed_drop_bit (5 * (5 - i)) m AND 31) [0..<6]"

definition createChecksum :: "goint list \<Rightarrow> goint list \<Rightarrow> goint list" where
  "createChecksum hrpx d = checksum_digits (polymod (hrpx @ d @ [0, 0, 0, 0, 0, 0]) XOR 1)"

definition verifyChecksum :: "goint list \<Rightarrow> goint list \<Rightarrow> bool" where
  "verifyChecksum hrpx d \<longleftrightarrow> polymod (hrpx @ d) = 1"

subsection \<open>Data length, encoding, decoding\<close>

definition validateDataLength :: "byte \<Rightarrow> byte list \<Rightarrow> id_error option" where
  "validateDataLength version d =
     (if version = VersionP2PKH \<or> version = VersionP2SH \<or> version = VersionP2WPKH then
        (if length d \<noteq> 20 then Some (InvalidDataLength version 20 (length d)) else None)
      else if version = VersionP2WSH then
        (if length d \<noteq> 32 then Some (InvalidDataLength version 32 (length d)) else None)
      else if version = VersionP2TR then
        (if length d \<noteq> 32 then Some (InvalidDataLength version 32 (length d)) else None)
      else if version = VersionP2MS then
        (if length d < 2 then Some MultisigTooShort
         else
           (let m = unat (d ! 0); n = unat (d ! 1)
            in if m = 0 \<or> n = 0 \<or> n < m \<or> 15 < n then Some (MultisigParameters m n)
               else if length d \<noteq> 2 + n * 33 then Some (MultisigDataLength (2 + n * 33) (length d))
               else None))
      else Some (UnknownVersion version))"

definition EncodeIDAddress :: "byte \<Rightarrow> byte list \<Rightarrow> id_error + string" where
  "EncodeIDAddress version d =
     (case gm_get VersionChar version of
        None \<Rightarrow> Inl (InvalidVersion version)
      | Some versionChar \<Rightarrow>
          (case validateDataLength version d of
             Some e \<Rightarrow> Inl e
           | None \<Rightarrow>
               (case convertBits (ByteSlice d) 8 5 True of
                  Inl e \<Rightarrow> Inl e
                | Inr converted \<Rightarrow>
                    (let hrpWithVersion = HRP @ versionChar;
                         checksum = createChecksum (hrpExpand hrpWithVersion) converted;
                         encoded = map (\<lambda>v. Charset ! unat v) (converted @ checksum)
                     in Inr (hrpWithVersion @ Separator @ encoded)))))"

text \<open>
  The base32 loop of \<open>DecodeIDAddress\<close>: \<open>decoded[i]\<close> is set at the byte index of each rune, so a
  rune of width \<open>k\<close> leaves \<open>k - 1\<close> zero entries behind it; the rune is cut to its low byte before
  it is looked up.
\<close>

fun decode_base32 :: "(nat \<times> nat) list \<Rightarrow> id_error + goint list" where
  "decode_base32 [] = Inr []"
| "decode_base32 ((c, k) # rs) =
     (case gm_get CharsetMap (char_of (c mod 256)) of
        None \<Rightarrow> Inl (InvalidCharacter c)
      | Some v \<Rightarrow>
          (case decode_base32 rs of
             Inl e \<Rightarrow> Inl e
           | Inr vs \<Rightarrow> Inr (v # replicate (k - 1) 0 @ vs)))"

definition DecodeIDAddress :: "unicode \<Rightarrow> string \<Rightarrow> id_error + AddressInfo" where
  "DecodeIDAddress U addr0 =
     (let addr = ToLower U addr0
      in if \<not> HasPrefix addr HRP then Inl InvalidHRP
         else case LastIndex addr Separator of
           None \<Rightarrow> Inl SeparatorNotFound
         | Some sepIndex \<Rightarrow>
             (if sepIndex < length HRP + 1 then Inl InvalidAddressFormat
              else
                (let versionChar = drop (length HRP) (take sepIndex addr)
                 in case gm_get CharVersion versionChar of
                      None \<Rightarrow> Inl (InvalidVersionChar versionChar)
                    | Some version \<Rightarrow>
                        (let dataStr = drop (sepIndex + 1) addr
                         in if length dataStr < ChecksumLength then Inl AddressTooShort
                            else case decode_base32 (runes dataStr) of
                              Inl e \<Rightarrow> Inl e
                            | Inr decoded \<Rightarrow>
                                (if \<not> verifyChecksum (hrpExpand (HRP @ versionChar)) decoded
                                 then Inl ChecksumFailed
                                 else case convertBits (IntSlice (take (length decoded - ChecksumLength) decoded)) 5 8 False of
                                   Inl e \<Rightarrow> Inl e
                                 | Inr convertedInts \<Rightarrow>
                                     (let converted = intSliceToBytes convertedInts
                                      in case validateDataLength version converted of
                                           Some e \<Rightarrow> Inl e
                                         | None \<Rightarrow> Inr \<lparr>ai_Version = version, ai_Data = converted,
                                                       ai_Address = addr\<rparr>))))))"

definition ValidateIDAddress :: "unicode \<Rightarrow> string \<Rightarrow> bool" where
  "ValidateIDAddress U addr \<longleftrightarrow> (case DecodeIDAddress U addr of Inl _ \<Rightarrow> False | Inr _ \<Rightarrow> True)"

definition GetAddressType :: "byte \<Rightarrow> string" where
  "GetAddressType version =
     (if version = VersionP2PKH then ''Pay-to-PubKey-Hash''
      else if version = VersionP2SH then ''Pay-to-Script-Hash''
      else if version = VersionP2WPKH then ''Pay-to-Witness-PubKey-Hash''
      else if version = VersionP2WSH then ''Pay-to-Witness-Script-Hash''
      else if version = VersionP2MS then ''Pay-to-Multisig''
      else if version = VersionP2TR then ''Pay-to-Taproot''
      else ''Unknown'')"

end
