(* ===== verification/IdAddress_Codec.thy ===== *)
theory IdAddress_Codec
  imports IdAddress
begin

unbundle bit_operations_syntax

text \<open>
  Correctness of the ID address codec.

  \<^item> Bit strings: \<open>bits_of n w\<close> is the big-endian spelling of the low \<open>n\<close> bits of a word. The
    loop of \<open>convertBits\<close> keeps "emitted groups followed by the pending bits" equal to "input
    groups so far" (\<open>regroup_spec\<close>), from which both directions and the round trip follow.
  \<^item> Checksum: \<open>polymod\<close> is linear over exclusive or (\<open>polymod_fold_xor\<close>). Appending the digits
    that \<open>createChecksum\<close> computes makes it come out as the target constant
    (\<open>polymod_checksum\<close>), and its one-step map has a trivial kernel, so a change of one symbol
    is always seen (\<open>polymod_substitution\<close>).
  \<^item> The properties of \<open>EncodeIDAddress\<close> and \<open>DecodeIDAddress\<close> at the end.
\<close>

subsection \<open>Bit strings\<close>

definition bits_of :: "nat \<Rightarrow> 'a::len word \<Rightarrow> bool list" where
  "bits_of n w = map (bit w) (rev [0..<n])"

lemma length_bits_of [simp]: "length (bits_of n w) = n"
  by (simp add: bits_of_def)

lemma bits_of_0 [simp]: "bits_of 0 w = []"
  by (simp add: bits_of_def)

lemma nth_bits_of: "i < n \<Longrightarrow> bits_of n w ! i = bit w (n - Suc i)"
  by (simp add: bits_of_def rev_nth)

lemma bits_of_eqI:
  assumes "length xs = n" and "\<And>i. i < n \<Longrightarrow> xs ! i = bit w (n - Suc i)"
  shows "xs = bits_of n w"
  using assms by (intro nth_equalityI) (simp_all add: nth_bits_of)

lemma bits_of_append: "bits_of (m + n) w = map (bit w) (rev [n..<n + m]) @ bits_of n w"
  unfolding bits_of_def by (simp add: add.commute [of m n] upt_add_eq_append [of 0 n m])

lemma emit_bits_spec:
  fixes acc :: goint
  assumes "0 < toB" and "toB \<le> bits \<Longrightarrow> bits \<le> 63"
    and "emit_bits toB (mask toB) bits acc = (out, rest)"
  shows "concat (map (bits_of toB) out) @ bits_of rest acc = bits_of bits acc \<and> rest < toB
    \<and> (\<forall>v \<in> set out. v AND mask toB = v)"
  using assms
proof (induction toB "mask toB :: goint" bits acc arbitrary: out rest rule: emit_bits.induct)
  case (1 toB bits acc)
  show ?case
  proof (cases "toB \<le> bits")
    case False
    with "1.prems" show ?thesis by (auto simp: emit_bits.simps [of toB _ bits])
  next
    case True
    let ?b = "bits - toB"
    obtain out' rest' where rec: "emit_bits toB (mask toB) ?b acc = (out', rest')"
      by fastforce
    with True "1.prems"(1,3) have out: "out = (signed_drop_bit ?b acc AND mask toB) # out'" "rest = rest'"
      by (auto simp: emit_bits.simps [of toB _ bits] Let_def)
    have "concat (map (bits_of toB) out') @ bits_of rest' acc = bits_of ?b acc \<and> rest' < toB
      \<and> (\<forall>v \<in> set out'. v AND mask toB = v)"
      using "1.hyps" [OF _ _ _ _ rec] True "1.prems" rec by auto
    moreover have "bits_of toB (signed_drop_bit ?b acc AND mask toB) = map (bit acc) (rev [?b..<bits])"
    proof (rule bits_of_eqI [symmetric])
      show "length (map (bit acc) (rev [?b..<bits])) = toB" using True by simp
      fix i assume "i < toB"
      then show "map (bit acc) (rev [?b..<bits]) ! i = bit (signed_drop_bit ?b acc AND mask toB) (toB - Suc i)"
        using True "1.prems"(1,2)
        by (auto simp: rev_nth bit_and_iff bit_mask_iff bit_signed_drop_bit_iff Suc_diff_Suc)
    qed
    moreover have "bits_of bits acc = map (bit acc) (rev [?b..<bits]) @ bits_of ?b acc"
      using bits_of_append [of toB ?b acc] True by simp
    ultimately show ?thesis using out by (auto simp: and.assoc)
  qed
qed


definition small :: "nat \<Rightarrow> byte \<Rightarrow> bool" where
  "small n v \<longleftrightarrow> (\<forall>i \<ge> n. \<not> bit v i)"

lemma small_shift: "small n v \<Longrightarrow> n \<le> 63 \<Longrightarrow> signed_drop_bit n (ucast v :: goint) = 0"
  by (rule bit_word_eqI) (auto simp: small_def bit_signed_drop_bit_iff bit_ucast_iff)

lemma bits_of_shift:
  fixes acc :: goint
  assumes "small fromB v" and "bits + fromB \<le> 63" and "\<And>i. i < bits + fromB \<Longrightarrow> bit m i"
  shows "bits_of (bits + fromB) ((push_bit fromB acc OR ucast v) AND m) = bits_of bits acc @ bits_of fromB v"
proof (rule bits_of_eqI [symmetric])
  show "length (bits_of bits acc @ bits_of fromB v) = bits + fromB" by simp
  fix i assume i: "i < bits + fromB"
  show "(bits_of bits acc @ bits_of fromB v) ! i =
      bit ((push_bit fromB acc OR ucast v) AND m) (bits + fromB - Suc i)"
  proof (cases "i < bits")
    case True
    then have "fromB \<le> bits + fromB - Suc i" and "bits + fromB - Suc i - fromB = bits - Suc i" by auto
    then show ?thesis using assms True
      by (auto simp: nth_append nth_bits_of bit_or_iff bit_and_iff bit_push_bit_iff bit_ucast_iff small_def)
  next
    case False
    then have "bits + fromB - Suc i < fromB" using i by auto
    moreover have "fromB - Suc (i - bits) = bits + fromB - Suc i" using False i by auto
    moreover have "i - bits < fromB" using False i by auto
    ultimately show ?thesis using assms False
      by (auto simp: nth_append nth_bits_of bit_or_iff bit_and_iff bit_push_bit_iff bit_ucast_iff)
  qed
qed

lemma regroup_spec:
  fixes acc m :: goint
  assumes "0 < toB" and "fromB + toB \<le> 63" and "\<And>i. i < fromB + toB - 1 \<Longrightarrow> bit m i"
  shows "bits < toB \<Longrightarrow> \<forall>v \<in> set vs. small fromB v \<Longrightarrow>
    \<exists>out acc2 bits2. regroup chk m fromB toB vs acc bits = Some (out, acc2, bits2)
      \<and> concat (map (bits_of toB) out) @ bits_of bits2 acc2 = bits_of bits acc @ concat (map (bits_of fromB) vs)
      \<and> bits2 < toB \<and> (\<forall>v \<in> set out. v AND mask toB = v)"
proof (induction vs arbitrary: acc bits)
  case Nil
  then show ?case by simp
next
  case (Cons v vs)
  let ?acc1 = "(push_bit fromB acc OR ucast v) AND m"
  obtain out bits1 where e: "emit_bits toB (mask toB) (bits + fromB) ?acc1 = (out, bits1)"
    by fastforce
  have E: "concat (map (bits_of toB) out) @ bits_of bits1 ?acc1 = bits_of (bits + fromB) ?acc1
      \<and> bits1 < toB \<and> (\<forall>v \<in> set out. v AND mask toB = v)"
    using emit_bits_spec [OF _ _ e] assms(1,2) Cons.prems(1) by auto
  have S: "bits_of (bits + fromB) ?acc1 = bits_of bits acc @ bits_of fromB v"
    using Cons.prems assms by (intro bits_of_shift) auto
  obtain out' acc2 bits2 where R: "regroup chk m fromB toB vs ?acc1 bits1 = Some (out', acc2, bits2)"
      "concat (map (bits_of toB) out') @ bits_of bits2 acc2 = bits_of bits1 ?acc1 @ concat (map (bits_of fromB) vs)"
      "bits2 < toB" "\<forall>v \<in> set out'. v AND mask toB = v"
    using Cons.IH [of bits1 ?acc1] E Cons.prems by auto
  have "signed_drop_bit fromB (ucast v :: goint) = 0"
    using Cons.prems(2) assms by (intro small_shift) auto
  then have "regroup chk m fromB toB (v # vs) acc bits = Some (out @ out', acc2, bits2)"
    using e R(1) by (simp add: Let_def)
  moreover have "concat (map (bits_of toB) (out @ out')) @ bits_of bits2 acc2
      = bits_of bits acc @ concat (map (bits_of fromB) (v # vs))"
  proof -
    have "concat (map (bits_of toB) (out @ out')) @ bits_of bits2 acc2
        = concat (map (bits_of toB) out) @ (bits_of bits1 ?acc1 @ concat (map (bits_of fromB) vs))"
      by (simp add: R(2))
    also have "\<dots> = (concat (map (bits_of toB) out) @ bits_of bits1 ?acc1) @ concat (map (bits_of fromB) vs)"
      by (simp only: append.assoc)
    also have "\<dots> = bits_of bits acc @ concat (map (bits_of fromB) (v # vs))"
      by (simp only: conjunct1 [OF E] S append.assoc list.map concat.simps)
    finally show ?thesis .
  qed
  ultimately show ?case using E R(3,4) by auto
qed

lemma finish_last_bits:
  fixes acc :: goint
  assumes "bits \<le> toB" and "toB \<le> 63"
  shows "bits_of toB (push_bit (toB - bits) acc AND mask toB) = bits_of bits acc @ replicate (toB - bits) False"
proof (rule bits_of_eqI [symmetric])
  show "length (bits_of bits acc @ replicate (toB - bits) False) = toB" using assms by simp
  fix i assume i: "i < toB"
  then show "(bits_of bits acc @ replicate (toB - bits) False) ! i =
      bit (push_bit (toB - bits) acc AND mask toB) (toB - Suc i)"
    using assms
    by (cases "i < bits")
      (auto simp: nth_append nth_bits_of bit_and_iff bit_push_bit_iff bit_mask_iff Suc_diff_Suc
        intro!: arg_cong [where f = "bit acc"])
qed

lemma finish_last_zero:
  fixes acc :: goint
  assumes "bits \<le> toB" and "toB \<le> 63" and "bits_of bits acc = replicate bits False"
  shows "push_bit (toB - bits) acc AND mask toB = 0"
proof (rule bit_word_eqI)
  fix n assume "n < LENGTH(64)"
  have B: "bits_of toB (push_bit (toB - bits) acc AND mask toB) = replicate toB False"
    using finish_last_bits [OF assms(1,2), of acc] assms by (simp flip: replicate_add)
  show "bit (push_bit (toB - bits) acc AND mask toB) n = bit 0 n"
  proof (cases "n < toB")
    case True
    then have "bits_of toB (push_bit (toB - bits) acc AND mask toB) ! (toB - Suc n) = False"
      by (subst B) simp
    with True show ?thesis by (simp add: nth_bits_of)
  next
    case False
    then show ?thesis by (simp add: bit_and_iff bit_mask_iff)
  qed
qed

text \<open>A list of equally long chunks is determined by their concatenation.\<close>

lemma concat_chunks_inj:
  assumes "0 < n" and "\<forall>c \<in> set xs. length c = n" and "\<forall>c \<in> set ys. length c = n"
    and "concat xs = concat ys"
  shows "xs = ys"
  using assms
proof (induction xs arbitrary: ys)
  case Nil
  then have "\<forall>c \<in> set ys. c = []" by simp
  with Nil have "set ys = {}" by (metis ex_in_conv less_irrefl list.size(3))
  then show ?case by simp
next
  case (Cons x xs)
  then have "x \<noteq> []" by (metis less_irrefl list.set_intros(1) list.size(3))
  with Cons.prems(4) obtain y ys' where ys: "ys = y # ys'"
    by (cases ys) simp_all
  with Cons.prems have "x @ concat xs = y @ concat ys'" and "length x = length y" by simp_all
  then have "x = y" and "concat xs = concat ys'" by simp_all
  with Cons.IH [of ys'] Cons.prems ys show ?case by simp
qed

lemma length_concat_bits [simp]: "length (concat (map (bits_of n) xs)) = n * length xs"
  by (induction xs) auto

lemma bits_of_inj_byte: "bits_of 8 (v :: byte) = bits_of 8 w \<Longrightarrow> v = w"
proof (rule bit_word_eqI)
  fix n assume "bits_of 8 v = bits_of 8 w" and "n < LENGTH(8)"
  then show "bit v n = bit w n"
    using nth_bits_of [of "7 - n" 8 v] nth_bits_of [of "7 - n" 8 w] by simp
qed

lemma bits_of_ucast: "n \<le> 8 \<Longrightarrow> bits_of n (ucast (v :: goint) :: byte) = bits_of n v"
  by (simp add: bits_of_def bit_ucast_iff)

lemma small_8 [simp]: "small 8 v"
  unfolding small_def using bit_imp_le_length [of v] by fastforce

lemma masked_eq_zero_bits:
  fixes v :: goint
  assumes "v AND mask n = v" and "n \<le> i"
  shows "\<not> bit v i"
proof -
  have "bit v i = bit (v AND mask n) i" by (simp only: assms(1))
  with assms(2) show ?thesis by (simp add: bit_and_iff bit_mask_iff)
qed

lemma small_ucast_masked: "v AND mask n = v \<Longrightarrow> small n (ucast (v :: goint))"
  using masked_eq_zero_bits [of v n] by (auto simp: small_def bit_ucast_iff)

lemma concat_bits_ucast:
  "n \<le> 8 \<Longrightarrow> concat (map (bits_of n) (map ucast (es :: goint list) :: byte list)) = concat (map (bits_of n) es)"
  by (induction es) (simp_all add: bits_of_ucast)

lemma pad_bits:
  assumes "regroup chk m 8 5 d 0 0 = Some (out, acc, bits)" and "bits < 5"
    and "concat (map (bits_of 5) out) @ bits_of bits acc = concat (map (bits_of 8) d)"
  shows "concat (map (bits_of 5) (if 0 < bits then out @ [push_bit (5 - bits) acc AND mask 5] else out))
     = concat (map (bits_of 8) d) @ replicate (if 0 < bits then 5 - bits else 0) False"
proof (cases "0 < bits")
  case True
  then show ?thesis
    using assms(2,3) finish_last_bits [of bits 5 acc] by simp
next
  case False
  then show ?thesis using assms(3) by simp
qed

text \<open>Padding to 5-bit groups: the groups spell the input bits followed by fewer than five zeros.\<close>

lemma regroup_8_5:
  fixes m :: goint
  assumes "\<And>i. i < 12 \<Longrightarrow> bit m i"
  shows "\<exists>out acc bits e z. regroup chk m 8 5 d 0 0 = Some (out, acc, bits)
    \<and> finish_bits 8 5 True (out, acc, bits) = Inr e \<and> z < 5
    \<and> concat (map (bits_of 5) e) = concat (map (bits_of 8) d) @ replicate z False
    \<and> (\<forall>v \<in> set e. v AND mask 5 = v)"
proof -
  obtain out acc bits where R: "regroup chk m 8 5 d 0 0 = Some (out, acc, bits)"
      "concat (map (bits_of 5) out) @ bits_of bits acc = concat (map (bits_of 8) d)"
      "bits < 5" "\<forall>v \<in> set out. v AND mask 5 = v"
    using regroup_spec [of 5 8 m 0 d chk 0] assms by auto
  let ?e = "if 0 < bits then out @ [push_bit (5 - bits) acc AND mask 5] else out"
  have "finish_bits 8 5 True (out, acc, bits) = Inr ?e"
    by (simp add: finish_bits_def Let_def)
  moreover have "\<forall>v \<in> set ?e. v AND mask 5 = v"
    using R(4) by (auto simp: and.assoc)
  moreover have "(if 0 < bits then 5 - bits else 0) < 5" by simp
  ultimately show ?thesis using R(1) pad_bits [OF R(1,3,2)] by blast
qed

lemma regroup_5_8:
  fixes m :: goint and d :: "byte list"
  assumes m: "\<And>i. i < 12 \<Longrightarrow> bit m i" and e: "\<forall>v \<in> set vs. small 5 v"
    and bits: "concat (map (bits_of 5) vs) = concat (map (bits_of 8) d) @ replicate z False" and z: "z < 5"
  shows "\<exists>out acc bits. regroup chk m 5 8 vs 0 0 = Some (out, acc, bits)
    \<and> finish_bits 5 8 False (out, acc, bits) = Inr out \<and> map ucast out = d"
proof -
  obtain out acc b where R: "regroup chk m 5 8 vs 0 0 = Some (out, acc, b)"
      "concat (map (bits_of 8) out) @ bits_of b acc = concat (map (bits_of 5) vs)" "b < 8"
    using regroup_spec [of 8 5 m 0 vs chk 0] m e by auto
  have "8 * length out + b = 8 * length d + z"
    using arg_cong [OF R(2), of length] bits by simp
  then have b: "b = z" and len: "length out = length d"
    using R(3) z by presburger+
  have eq: "concat (map (bits_of 8) out) @ bits_of b acc = concat (map (bits_of 8) d) @ replicate z False"
    using R(2) bits by simp
  then have c: "concat (map (bits_of 8) out) = concat (map (bits_of 8) d)" and l: "bits_of b acc = replicate z False"
    using len by (simp_all add: append_eq_append_conv)
  have "map (bits_of 8) (map ucast out :: byte list) = map (bits_of 8) d"
    using c by (intro concat_chunks_inj [of 8]) (auto simp: concat_bits_ucast [simplified] bits_of_ucast comp_def)
  then have "map ucast out = d"
    using bits_of_inj_byte by (metis (no_types, lifting) inj_onI inj_on_map_eq_map)
  moreover have "finish_bits 5 8 False (out, acc, b) = Inr out"
    using finish_last_zero [of b 8 acc] l b z by (simp add: finish_bits_def Let_def)
  ultimately show ?thesis using R(1) by blast
qed

lemma bit_mask_12: "i < 12 \<Longrightarrow> bit (mask 12 :: goint) i"
  by (simp add: bit_mask_iff)

lemma convertBits_roundtrip:
  obtains e where "convertBits (ByteSlice d) 8 5 True = Inr e" and "\<forall>v \<in> set e. v AND mask 5 = v"
    and "\<exists>r. convertBits (IntSlice e) 5 8 False = Inr r \<and> intSliceToBytes r = d"
proof -
  obtain out acc bits e z where A: "regroup True (mask 12) 8 5 d 0 0 = Some (out, acc, bits)"
      "finish_bits 8 5 True (out, acc, bits) = Inr e" "z < 5"
      "concat (map (bits_of 5) e) = concat (map (bits_of 8) d) @ replicate z False"
      "\<forall>v \<in> set e. v AND mask 5 = v"
    using regroup_8_5 [of "mask 12" True d] bit_mask_12 by blast
  have "\<exists>out acc bits. regroup True (mask 12) 5 8 (map ucast e) 0 0 = Some (out, acc, bits)
      \<and> finish_bits 5 8 False (out, acc, bits) = Inr out \<and> map ucast out = d"
    using A small_ucast_masked bit_mask_12
    by (intro regroup_5_8 [where z = z]) (auto simp: concat_bits_ucast simp del: map_map)
  then have "\<exists>r. convertBits (IntSlice e) 5 8 False = Inr r \<and> intSliceToBytes r = d"
    by (auto simp: convertBits_def intSliceToBytes_def Let_def)
  moreover have "convertBits (ByteSlice d) 8 5 True = Inr e"
    using A by (simp add: convertBits_def Let_def)
  ultimately show ?thesis using A(5) that by blast
qed

subsection \<open>The checksum is linear\<close>

definition gen_mix :: "goint \<Rightarrow> goint" where
  "gen_mix x = (if bit x 25 then gen ! 0 else 0) XOR (if bit x 26 then gen ! 1 else 0)
     XOR (if bit x 27 then gen ! 2 else 0) XOR (if bit x 28 then gen ! 3 else 0)
     XOR (if bit x 29 then gen ! 4 else 0)"

definition low_shift :: "goint \<Rightarrow> goint" where
  "low_shift x = push_bit 5 (x AND mask 25)"

lemma top_bit: "i < 5 \<Longrightarrow> signed_drop_bit i (signed_drop_bit 25 (x :: goint)) AND 1 = 1 \<longleftrightarrow> bit x (25 + i)"
  by (simp add: and_one_eq odd_iff_mod_2_eq_one [symmetric] bit_iff_odd [of _ 0, simplified, symmetric] bit_signed_drop_bit_iff add.commute)

lemma polymod_step_eq: "polymod_step x v = low_shift x XOR v XOR gen_mix x"
proof -
  have m: "(0x1ffffff :: goint) = mask 25" by (simp add: mask_eq_exp_minus_1)
  have u: "[0..<5] = [0, 1, 2, 3, 4 :: nat]" by (simp add: upt_rec)
  show ?thesis
    unfolding polymod_step_def low_shift_def gen_mix_def Let_def u m
    using top_bit [of 0 x] top_bit [of 1 x] top_bit [of 2 x] top_bit [of 3 x] top_bit [of 4 x]
    by (simp add: xor.assoc xor.left_commute xor.commute)
qed


lemma xor_if: "(if p \<noteq> q then g else 0) = (if p then g else 0) XOR (if q then g else (0 :: goint))"
  by simp

lemma gen_mix_xor: "gen_mix (x XOR y) = gen_mix x XOR gen_mix y"
  unfolding gen_mix_def bit_xor_iff by (simp only: xor_if xor.assoc xor.left_commute xor.commute)

lemma low_shift_xor: "low_shift (x XOR y) = low_shift x XOR low_shift y"
  by (rule bit_word_eqI) (auto simp: low_shift_def bit_simps)

lemma polymod_step_xor: "polymod_step (x XOR y) (u XOR v) = polymod_step x u XOR polymod_step y v"
  by (simp only: polymod_step_eq gen_mix_xor low_shift_xor xor.assoc xor.left_commute xor.commute)

lemma polymod_fold_xor:
  "length us = length vs \<Longrightarrow>
    foldl polymod_step (x XOR y) (map2 (XOR) us vs) = foldl polymod_step x us XOR foldl polymod_step y vs"
  by (induction us vs arbitrary: x y rule: list_induct2) (simp_all add: polymod_step_xor)

lemma polymod_fold_zeros:
  "foldl polymod_step x vs = foldl polymod_step x (replicate (length vs) 0) XOR foldl polymod_step 0 vs"
proof -
  have "map2 (XOR) (replicate (length vs) 0) vs = vs"
    by (induction vs) simp_all
  then show ?thesis using polymod_fold_xor [of "replicate (length vs) 0" vs x 0] by simp
qed

lemma xor_eq_0_iff: "x XOR y = 0 \<longleftrightarrow> x = (y :: goint)"
  by (auto simp: bit_eq_iff bit_xor_iff)

lemma xor_eq_self_iff: "x XOR y = x \<longleftrightarrow> y = (0 :: goint)"
  by (auto simp: bit_eq_iff bit_xor_iff)

lemma map2_xor_zeros: "map2 (XOR) vs (replicate (length vs) 0) = (vs :: goint list)"
  by (induction vs) simp_all

definition below :: "nat \<Rightarrow> goint \<Rightarrow> bool" where
  "below n x \<longleftrightarrow> (\<forall>i \<ge> n. \<not> bit x i)"

lemma below_mask: "below n x \<longleftrightarrow> x AND mask n = x"
proof
  assume "below n x"
  then show "x AND mask n = x"
    by (intro bit_word_eqI) (auto simp: below_def bit_and_iff bit_mask_iff not_le [symmetric])
next
  assume "x AND mask n = x"
  then show "below n x" using masked_eq_zero_bits by (auto simp: below_def)
qed

lemma below_xor: "below n x \<Longrightarrow> below n y \<Longrightarrow> below n (x XOR y)"
  by (simp add: below_def bit_xor_iff)

lemma below_mono: "below m x \<Longrightarrow> m \<le> n \<Longrightarrow> below n x"
  by (simp add: below_def)

lemma below_gen_mix: "below 30 (gen_mix x)"
proof -
  have "below 30 (gen ! 0)" "below 30 (gen ! 1)" "below 30 (gen ! 2)" "below 30 (gen ! 3)" "below 30 (gen ! 4)" "below 30 0"
    by (simp_all add: below_mask gen_def mask_eq_exp_minus_1)
  then show ?thesis unfolding gen_mix_def by (auto intro!: below_xor)
qed

lemma below_low_shift: "below 30 (low_shift x)"
  by (auto simp: below_def low_shift_def bit_simps)

lemma below_step: "below 30 v \<Longrightarrow> below 30 (polymod_step x v)"
  unfolding polymod_step_eq by (intro below_xor below_gen_mix below_low_shift)

lemma below_fold: "below 30 x \<Longrightarrow> \<forall>v \<in> set vs. below 30 v \<Longrightarrow> below 30 (foldl polymod_step x vs)"
  by (induction vs arbitrary: x) (auto intro: below_step)

lemma below_polymod: "\<forall>v \<in> set vs. below 30 v \<Longrightarrow> below 30 (polymod vs)"
  unfolding polymod_def by (rule below_fold) (auto simp: below_mask mask_eq_exp_minus_1)

text \<open>As long as the state has at most 25 bits, a step only appends the new digit.\<close>

lemma step_small:
  assumes "below 25 x"
  shows "polymod_step x v = push_bit 5 x XOR v"
proof -
  have "gen_mix x = 0" using assms by (simp add: gen_mix_def below_def)
  moreover have "low_shift x = push_bit 5 x"
    using assms by (simp only: low_shift_def below_mask)
  ultimately show ?thesis by (simp add: polymod_step_eq)
qed

lemma digit_step:
  assumes "below 30 m"
  shows "polymod_step (drop_bit (k + 5) m) (signed_drop_bit k m AND 31) = drop_bit k m"
proof -
  have b: "below 25 (drop_bit (k + 5) m)"
    using assms by (simp add: below_def bit_drop_bit_eq)
  have m: "(31 :: goint) = mask 5" by (simp add: mask_eq_exp_minus_1)
  show ?thesis
    unfolding step_small [OF b] m
  proof (rule bit_word_eqI)
    fix n assume n: "n < LENGTH(64)"
    show "bit (push_bit 5 (drop_bit (k + 5) m) XOR (signed_drop_bit k m AND mask 5)) n = bit (drop_bit k m) n"
      using assms n
      by (cases "n < 5") (auto simp: below_def bit_xor_iff bit_and_iff bit_mask_iff bit_push_bit_iff
          bit_drop_bit_eq bit_signed_drop_bit_iff add.commute add.left_commute)
  qed
qed

lemma fold_checksum_digits:
  assumes "below 30 m"
  shows "foldl polymod_step 0 (checksum_digits m) = m"
proof -
  have "drop_bit 30 m = 0"
    using assms by (intro bit_word_eqI) (simp add: below_def bit_drop_bit_eq)
  moreover have "checksum_digits m = map (\<lambda>k. signed_drop_bit k m AND 31) [25, 20, 15, 10, 5, 0]"
    by (simp add: checksum_digits_def upt_rec)
  ultimately show ?thesis
    using digit_step [OF assms, of 25] digit_step [OF assms, of 20] digit_step [OF assms, of 15]
      digit_step [OF assms, of 10] digit_step [OF assms, of 5] digit_step [OF assms, of 0]
    by simp
qed

text \<open>Appending the digits of \<open>polymod (xs @ 0\<^sup>6) XOR c\<close> makes the checksum come out as \<open>c\<close>.\<close>

lemma polymod_checksum:
  assumes "\<forall>v \<in> set xs. below 30 v" and "below 30 c"
  shows "polymod (xs @ checksum_digits (polymod (xs @ [0, 0, 0, 0, 0, 0]) XOR c)) = c"
proof -
  let ?p = "polymod (xs @ [0, 0, 0, 0, 0, 0])"
  have "below 30 ?p"
    using assms(1) by (intro below_polymod) (auto simp: below_def)
  then have b: "below 30 (?p XOR c)" using assms(2) by (rule below_xor)
  have len: "replicate (length (checksum_digits (?p XOR c))) 0 = [0, 0, 0, 0, 0, 0 :: goint]"
    by (simp add: checksum_digits_def numeral_eq_Suc)
  have "polymod (xs @ checksum_digits (?p XOR c)) = foldl polymod_step (polymod xs) (checksum_digits (?p XOR c))"
    by (simp add: polymod_def)
  also have "\<dots> = foldl polymod_step (polymod xs) [0, 0, 0, 0, 0, 0] XOR (?p XOR c)"
    using polymod_fold_zeros [of "polymod xs" "checksum_digits (?p XOR c)"]
    by (simp only: len fold_checksum_digits [OF b])
  also have "foldl polymod_step (polymod xs) [0, 0, 0, 0, 0, 0] = ?p" by (simp add: polymod_def)
  finally show ?thesis by (simp flip: xor.assoc)
qed

subsection \<open>Single substitutions are detected\<close>

lemma gen_low_bits:
  "bit (gen_mix x) 0 \<longleftrightarrow> (bit x 26 \<noteq> (bit x 28 \<noteq> bit x 29))"
  "bit (gen_mix x) 1 \<longleftrightarrow> (bit x 25 \<noteq> (bit x 27 \<noteq> bit x 29))"
  "bit (gen_mix x) 2 \<longleftrightarrow> (bit x 26 \<noteq> bit x 28)"
  "bit (gen_mix x) 3 \<longleftrightarrow> (bit x 26 \<noteq> (bit x 27 \<noteq> bit x 28))"
  "bit (gen_mix x) 4 \<longleftrightarrow> (bit x 25 \<noteq> (bit x 27 \<noteq> (bit x 28 \<noteq> bit x 29)))"
  by (auto simp: gen_mix_def gen_def bit_xor_iff)

lemma step_zero_kernel:
  assumes "below 30 x" and "polymod_step x 0 = 0"
  shows "x = 0"
proof -
  have eq: "low_shift x = gen_mix x"
    using assms(2) by (simp add: polymod_step_eq xor_eq_0_iff)
  have low: "\<not> bit (low_shift x) i" if "i < 5" for i
    using that by (simp add: low_shift_def bit_simps)
  have top: "\<not> bit x 25" "\<not> bit x 26" "\<not> bit x 27" "\<not> bit x 28" "\<not> bit x 29"
    using low [of 0] low [of 1] low [of 2] low [of 3] low [of 4] gen_low_bits [of x] eq by auto
  then have "gen_mix x = 0" by (simp add: gen_mix_def)
  with eq have ls: "low_shift x = 0" by simp
  show ?thesis
  proof (rule bit_word_eqI)
    fix n assume n: "n < LENGTH(64)"
    have "\<not> bit x n" if "n < 25"
      using arg_cong [OF ls, of "\<lambda>w. bit w (n + 5)"] that by (simp add: low_shift_def bit_simps)
    moreover have "\<not> bit x n" if "25 \<le> n" "n < 30"
    proof -
      have "n \<in> {25, 26, 27, 28, 29}" using that by auto
      with top show ?thesis by auto
    qed
    ultimately show "bit x n = bit 0 n" using assms(1) by (cases "n < 25"; cases "n < 30") (auto simp: below_def)
  qed
qed

lemma fold_zeros_nonzero:
  "below 30 x \<Longrightarrow> x \<noteq> 0 \<Longrightarrow> foldl polymod_step x (replicate k 0) \<noteq> 0"
proof (induction k arbitrary: x)
  case 0
  then show ?case by simp
next
  case (Suc k)
  have "polymod_step x 0 \<noteq> 0" using Suc.prems step_zero_kernel by blast
  moreover have "below 30 (polymod_step x 0)" by (rule below_step) (simp add: below_def)
  ultimately show ?case using Suc.IH by simp
qed

lemma polymod_substitution:
  assumes "below 30 a" and "below 30 b" and "a \<noteq> b"
  shows "polymod (pre @ a # post) \<noteq> polymod (pre @ b # post)"
proof -
  let ?s = "polymod pre"
  have st: "polymod_step ?s a = polymod_step ?s b XOR (a XOR b)"
    by (simp add: polymod_step_eq xor.assoc xor.left_commute xor.commute)
  have ab: "below 30 (a XOR b)" "a XOR b \<noteq> 0"
    using assms by (auto intro: below_xor simp: xor_eq_0_iff)
  have "polymod (pre @ a # post) = foldl polymod_step (polymod_step ?s b XOR (a XOR b)) (map2 (XOR) post (replicate (length post) 0))"
    by (simp add: polymod_def st [unfolded polymod_def] map2_xor_zeros)
  also have "\<dots> = foldl polymod_step (polymod_step ?s b) post XOR foldl polymod_step (a XOR b) (replicate (length post) 0)"
    by (rule polymod_fold_xor) simp
  also have "foldl polymod_step (polymod_step ?s b) post = polymod (pre @ b # post)"
    by (simp add: polymod_def)
  finally show ?thesis
    using fold_zeros_nonzero [OF ab, of "length post"] by (simp add: xor_eq_self_iff)
qed

definition charset_ok :: "nat \<Rightarrow> bool" where
  "charset_ok n \<longleftrightarrow> (let c = Charset ! n in
     code c < 128 \<and> \<not> (65 \<le> code c \<and> code c \<le> 90) \<and> c \<noteq> CHR ''1'' \<and> gm_get CharsetMap c = Some (of_nat n))"

lemma charset_ok_32: "n < 32 \<Longrightarrow> charset_ok n"
proof -
  have "list_all charset_ok [0..<32]" by code_simp
  then show "n < 32 \<Longrightarrow> charset_ok n" by (simp add: list_all_iff)
qed

definition five_bit :: "goint \<Rightarrow> bool" where
  "five_bit v \<longleftrightarrow> v AND mask 5 = v"

lemma five_bit_unat: "five_bit v \<Longrightarrow> unat v < 32"
proof -
  assume "five_bit v"
  then have "v = take_bit 5 v" by (simp add: five_bit_def take_bit_eq_mask)
  then have "unat v = unat (take_bit 5 v)" by simp
  also have "\<dots> < 2 ^ 5" by (simp only: unsigned_take_bit_eq take_bit_nat_less_exp)
  finally show "unat v < 32" by simp
qed

lemma charset_char:
  assumes "five_bit v"
  shows "code (Charset ! unat v) < 128" "\<not> (65 \<le> code (Charset ! unat v) \<and> code (Charset ! unat v) \<le> 90)"
    "Charset ! unat v \<noteq> CHR ''1''" "gm_get CharsetMap (Charset ! unat v) = Some v"
  using charset_ok_32 [OF five_bit_unat [OF assms]] by (simp_all add: charset_ok_def Let_def)

definition encode_chars :: "goint list \<Rightarrow> string" where
  "encode_chars vs = map (\<lambda>v. Charset ! unat v) vs"

lemma encode_chars_ascii: "\<forall>v \<in> set vs. five_bit v \<Longrightarrow> list_all (\<lambda>c. code c < 128) (encode_chars vs)"
  by (simp add: encode_chars_def list_all_iff charset_char)

lemma encode_chars_lower: "\<forall>v \<in> set vs. five_bit v \<Longrightarrow> lower_fixed (encode_chars vs)"
  by (simp add: encode_chars_def lower_fixed_def list_all_iff) (metis charset_char(1,2))

lemma encode_chars_no_sep: "\<forall>v \<in> set vs. five_bit v \<Longrightarrow> CHR ''1'' \<notin> set (encode_chars vs)"
  by (auto simp: encode_chars_def dest!: bspec charset_char(3))

lemma decode_base32_encode:
  assumes "\<forall>v \<in> set vs. five_bit v"
  shows "decode_base32 (runes (encode_chars vs)) = Inr vs"
proof -
  have "decode_base32 (map (\<lambda>c. (code c, 1)) (encode_chars vs)) = Inr vs"
    using assms by (induction vs) (simp_all add: encode_chars_def charset_char code_lt_256)
  then show ?thesis using runes_ascii [OF encode_chars_ascii [OF assms]] by simp
qed

lemma checksum_digits_five_bit: "v \<in> set (checksum_digits m) \<Longrightarrow> five_bit v"
proof -
  have m: "(31 :: goint) = mask 5" by (simp add: mask_eq_exp_minus_1)
  show "v \<in> set (checksum_digits m) \<Longrightarrow> five_bit v"
    unfolding checksum_digits_def m by (auto simp: five_bit_def and.assoc)
qed

lemma length_checksum_digits [simp]: "length (checksum_digits m) = 6"
  by (simp add: checksum_digits_def)

lemma five_bit_below: "five_bit v \<Longrightarrow> below 30 v"
  unfolding five_bit_def below_mask [symmetric] by (rule below_mono) auto

lemma below_of_nat: "n < 2 ^ k \<Longrightarrow> below k (of_nat n)"
  unfolding below_mask by (simp add: take_bit_eq_mask [symmetric] take_bit_of_nat unsigned_of_nat) 
   (metis take_bit_nat_eq_self take_bit_of_nat)

lemma hrpExpand_below:
  assumes "list_all (\<lambda>c. code c < 128) hrp"
  shows "\<forall>v \<in> set (hrpExpand hrp). below 30 v"
proof -
  have "below 30 (of_nat (code c div 32))" "below 30 (of_nat (code c mod 32))" for c
    using code_lt_256 [of c] by (intro below_of_nat; simp)+
  moreover have "below 30 (0 :: goint)" by (simp add: below_def)
  ultimately show ?thesis by (auto simp: hrpExpand_def runes_ascii [OF assms])
qed

lemma verify_createChecksum:
  assumes "list_all (\<lambda>c. code c < 128) hrp" and "\<forall>v \<in> set vs. five_bit v"
  shows "verifyChecksum (hrpExpand hrp) (vs @ createChecksum (hrpExpand hrp) vs)"
proof -
  have "\<forall>v \<in> set (hrpExpand hrp @ vs). below 30 v"
    using hrpExpand_below [OF assms(1)] assms(2) five_bit_below by auto
  moreover have "below 30 1" by (simp add: below_mask mask_eq_exp_minus_1)
  ultimately show ?thesis
    using polymod_checksum [of "hrpExpand hrp @ vs" 1]
    by (simp add: verifyChecksum_def createChecksum_def)
qed

lemma VersionChar_cases:
  assumes "gm_get VersionChar version = Some vc"
  shows "gm_get CharVersion vc = Some version \<and> length vc = 1 \<and> lower_fixed vc"
  using assms
  by (auto simp: VersionChar_def CharVersion_def gm_get_def version_defs code_def split: if_splits)

lemma EncodeIDAddress_cases:
  assumes "EncodeIDAddress version d = Inr addr"
  obtains vc e where "gm_get VersionChar version = Some vc" and "validateDataLength version d = None"
    and "\<forall>v \<in> set e. five_bit v"
    and "\<exists>r. convertBits (IntSlice e) 5 8 False = Inr r \<and> intSliceToBytes r = d"
    and "addr = (HRP @ vc) @ Separator @ encode_chars (e @ createChecksum (hrpExpand (HRP @ vc)) e)"
proof -
  obtain vc where vc: "gm_get VersionChar version = Some vc" "validateDataLength version d = None"
    using assms by (auto simp: EncodeIDAddress_def split: option.splits)
  obtain e where e: "convertBits (ByteSlice d) 8 5 True = Inr e" "\<forall>v \<in> set e. five_bit v"
      "\<exists>r. convertBits (IntSlice e) 5 8 False = Inr r \<and> intSliceToBytes r = d"
    using convertBits_roundtrip [of d] unfolding five_bit_def by blast
  have "addr = (HRP @ vc) @ Separator @ encode_chars (e @ createChecksum (hrpExpand (HRP @ vc)) e)"
    using assms vc e(1) by (simp add: EncodeIDAddress_def Let_def encode_chars_def)
  with vc e that show thesis by blast
qed

text \<open>What decoding does with a well-formed spelling of five-bit values.\<close>

lemma decode_spelled:
  assumes vc: "gm_get VersionChar version = Some vc" and five: "\<forall>v \<in> set vs. five_bit v" and long: "6 \<le> length vs"
    and addr: "addr = (HRP @ vc) @ Separator @ encode_chars vs"
  shows "DecodeIDAddress U addr =
    (if \<not> verifyChecksum (hrpExpand (HRP @ vc)) vs then Inl ChecksumFailed
     else case convertBits (IntSlice (take (length vs - 6) vs)) 5 8 False of
       Inl e \<Rightarrow> Inl e
     | Inr r \<Rightarrow> (case validateDataLength version (intSliceToBytes r) of
           Some e \<Rightarrow> Inl e
         | None \<Rightarrow> Inr \<lparr>ai_Version = version, ai_Data = intSliceToBytes r, ai_Address = addr\<rparr>))"
proof -
  have V: "gm_get CharVersion vc = Some version" "length vc = 1" "lower_fixed vc"
    using VersionChar_cases [OF vc] by auto
  have low: "lower_fixed addr"
    using V(3) encode_chars_lower [OF five] by (simp add: addr HRP_def Separator_def code_def)
  have sep: "LastIndex addr Separator = Some 3"
    using LastIndex_char [OF encode_chars_no_sep [OF five], of "HRP @ vc"] V(2)
    by (simp add: addr HRP_def Separator_def)
  have pre: "HasPrefix addr HRP" by (simp add: addr HRP_def HasPrefix_def)
  have vch: "drop (length HRP) (take 3 addr) = vc"
    using V(2) by (simp add: addr HRP_def)
  have str: "drop (3 + 1) addr = encode_chars vs"
    using V(2) by (simp add: addr HRP_def Separator_def)
  have len: "\<not> length (encode_chars vs) < ChecksumLength"
    using long by (simp add: encode_chars_def ChecksumLength_def)
  have hrp: "\<not> 3 < length HRP + 1" by (simp add: HRP_def)
  show ?thesis
    unfolding DecodeIDAddress_def Let_def ToLower_fixed [OF low]
    using pre len
    by (simp only: sep vch str V(1) hrp decode_base32_encode [OF five] ChecksumLength_def option.case sum.case
        if_False not_True_eq_False simp_thms)
qed

lemma decode_encoded:
  assumes vc: "gm_get VersionChar version = Some vc" and len: "validateDataLength version d = None"
    and e: "\<forall>v \<in> set e. five_bit v"
    and r: "\<exists>r. convertBits (IntSlice e) 5 8 False = Inr r \<and> intSliceToBytes r = d"
    and addr: "addr = (HRP @ vc) @ Separator @ encode_chars (e @ createChecksum (hrpExpand (HRP @ vc)) e)"
  shows "DecodeIDAddress U addr = Inr \<lparr>ai_Version = version, ai_Data = d, ai_Address = addr\<rparr>"
proof -
  let ?cs = "createChecksum (hrpExpand (HRP @ vc)) e"
  have five: "\<forall>v \<in> set (e @ ?cs). five_bit v"
    using e checksum_digits_five_bit by (auto simp: createChecksum_def)
  have lc: "length ?cs = 6" by (simp add: createChecksum_def)
  have asc: "list_all (\<lambda>c. code c < 128) (HRP @ vc)"
    using VersionChar_cases [OF vc] by (auto simp: HRP_def code_def lower_fixed_def list_all_iff)
  show ?thesis
    using decode_spelled [OF vc five _ addr] lc r len verify_createChecksum [OF asc e] by auto
qed

lemma Charset_five_bit: "c \<in> set Charset \<Longrightarrow> \<exists>v. five_bit v \<and> Charset ! unat v = c"
proof -
  assume "c \<in> set Charset"
  then obtain n where "n < length Charset" and "Charset ! n = c" by (auto simp: in_set_conv_nth)
  moreover have "length Charset = 32" by (simp add: Charset_def)
  ultimately have n: "n < 32" "Charset ! n = c" by auto
  then have "five_bit (of_nat n)" and "unat (of_nat n :: goint) = n"
    using below_of_nat [of n 5] by (simp_all add: five_bit_def below_mask unsigned_of_nat take_bit_nat_eq_self)
  with n show ?thesis by metis
qed

lemma encode_chars_split:
  assumes "encode_chars vs = pre @ c # post"
  obtains us a ws where "vs = us @ a # ws" and "encode_chars us = pre" and "Charset ! unat a = c" and "encode_chars ws = post"
  using assms unfolding encode_chars_def by (auto simp: map_eq_append_conv map_eq_Cons_conv)

lemma Decode_Encode:
  assumes "EncodeIDAddress version d = Inr addr"
  shows "DecodeIDAddress U addr = Inr \<lparr>ai_Version = version, ai_Data = d, ai_Address = addr\<rparr>"
  using EncodeIDAddress_cases [OF assms] decode_encoded by metis

lemma Encode_defined:
  "(\<exists>addr. EncodeIDAddress version d = Inr addr) \<longleftrightarrow> validateDataLength version d = None"
proof -
  obtain e where e: "convertBits (ByteSlice d) 8 5 True = Inr e"
    using convertBits_roundtrip [of d] by blast
  have "gm_get VersionChar version \<noteq> None" if "validateDataLength version d = None"
    using that by (auto simp: validateDataLength_def VersionChar_def gm_get_def split: if_splits)
  then show ?thesis using e
    by (cases "validateDataLength version d") (auto simp: EncodeIDAddress_def Let_def split: option.splits)
qed

subsection \<open>Properties\<close>

text \<open>C1: decoding what \<open>EncodeIDAddress\<close> produced returns the version and the payload it was given,
  whatever the Unicode tables are.\<close>

lemma id_roundtrip:
  assumes "EncodeIDAddress version d = Inr addr"
  shows "DecodeIDAddress U addr = Inr \<lparr>ai_Version = version, ai_Data = d, ai_Address = addr\<rparr>"
  using assms by (rule Decode_Encode)

text \<open>C2: replacing one character of the data part (payload or checksum) of an encoded address
  by another character of the alphabet is always rejected with a checksum error.\<close>

lemma id_substitution_detected:
  assumes enc: "EncodeIDAddress version d = Inr (pre @ c # post)" and data: "4 \<le> length pre"
    and c': "c' \<in> set Charset" "c' \<noteq> c"
  shows "DecodeIDAddress U (pre @ c' # post) = Inl ChecksumFailed"
proof -
  obtain vc e where vc: "gm_get VersionChar version = Some vc" and e: "\<forall>v \<in> set e. five_bit v"
    and addr: "pre @ c # post = (HRP @ vc) @ Separator @ encode_chars (e @ createChecksum (hrpExpand (HRP @ vc)) e)"
    using EncodeIDAddress_cases [OF enc] by metis
  let ?vs = "e @ createChecksum (hrpExpand (HRP @ vc)) e"
  let ?head = "(HRP @ vc) @ Separator"
  have V: "length vc = 1" "lower_fixed vc" using VersionChar_cases [OF vc] by auto
  then have h: "length ?head = 4" by (simp add: HRP_def Separator_def)
  have five: "\<forall>v \<in> set ?vs. five_bit v"
    using e checksum_digits_five_bit by (auto simp: createChecksum_def)
  obtain pre' where pre: "pre = ?head @ pre'" and sp: "encode_chars ?vs = pre' @ c # post"
  proof -
    have eq: "pre @ c # post = ?head @ encode_chars ?vs" using addr by simp
    have "take 4 (pre @ c # post) = ?head" unfolding eq using h by simp
    then have "take 4 pre = ?head" using data by simp
    then have "pre = ?head @ drop 4 pre" by (metis append_take_drop_id)
    moreover have "drop 4 (pre @ c # post) = encode_chars ?vs" unfolding eq using h by simp
    then have "encode_chars ?vs = drop 4 pre @ c # post" using data by simp
    ultimately show thesis using that by blast
  qed
  obtain us a ws where vs: "?vs = us @ a # ws" "encode_chars us = pre'" "Charset ! unat a = c" "encode_chars ws = post"
    using encode_chars_split [OF sp] by metis
  obtain b where b: "five_bit b" "Charset ! unat b = c'" using Charset_five_bit [OF c'(1)] by blast
  have ab: "a \<noteq> b" using vs(3) b(2) c'(2) by auto
  have five': "\<forall>v \<in> set (us @ b # ws). five_bit v" using five b(1) unfolding vs(1) by auto
  have asc: "list_all (\<lambda>c. code c < 128) (HRP @ vc)"
    using V(2) by (auto simp: HRP_def code_def lower_fixed_def list_all_iff)
  have "polymod (hrpExpand (HRP @ vc) @ us @ a # ws) = 1"
    using verify_createChecksum [OF asc e] unfolding verifyChecksum_def vs(1) .
  moreover have "polymod ((hrpExpand (HRP @ vc) @ us) @ a # ws) \<noteq> polymod ((hrpExpand (HRP @ vc) @ us) @ b # ws)"
    using five b(1) ab unfolding vs(1) by (intro polymod_substitution) (auto intro: five_bit_below)
  ultimately have bad: "\<not> verifyChecksum (hrpExpand (HRP @ vc)) (us @ b # ws)"
    by (simp add: verifyChecksum_def)
  have "pre @ c' # post = (HRP @ vc) @ Separator @ encode_chars (us @ b # ws)"
    using pre vs(2,4) b(2) by (simp add: encode_chars_def)
  moreover have "6 \<le> length (us @ b # ws)"
    using arg_cong [OF vs(1), of length] by (simp add: createChecksum_def)
  ultimately show ?thesis using decode_spelled [OF vc five'] bad by simp
qed

text \<open>\<open>EncodeIDAddress\<close> succeeds exactly on the payloads that \<open>validateDataLength\<close> accepts.\<close>

lemma id_encode_defined:
  "(\<exists>addr. EncodeIDAddress version d = Inr addr) \<longleftrightarrow> validateDataLength version d = None"
  by (rule Encode_defined)

text \<open>C13: whatever string \<open>DecodeIDAddress\<close> accepts, the result is well formed: the version is one of the six versions, the payload
  has the length of that version (for multisig, two count bytes \<open>m\<close> and \<open>n\<close> with \<open>1 \<le> m \<le> n \<le> 15\<close> and 33 bytes for each key), and it has a
  canonical spelling that encodes to and decodes from exactly this version and payload.\<close>

lemma id_decoded_well_formed:
  assumes "DecodeIDAddress U s = Inr info"
  shows "(ai_Version info \<in> {VersionP2PKH, VersionP2SH, VersionP2WPKH} \<and> length (ai_Data info) = 20
      \<or> ai_Version info \<in> {VersionP2WSH, VersionP2TR} \<and> length (ai_Data info) = 32
      \<or> ai_Version info = VersionP2MS \<and> 2 \<le> length (ai_Data info)
          \<and> (let m = unat (ai_Data info ! 0); n = unat (ai_Data info ! 1) in 1 \<le> m \<and> m \<le> n \<and> n \<le> 15 \<and> length (ai_Data info) = 2 + 33 * n))
    \<and> (\<exists>addr. EncodeIDAddress (ai_Version info) (ai_Data info) = Inr addr
          \<and> DecodeIDAddress U' addr = Inr \<lparr>ai_Version = ai_Version info, ai_Data = ai_Data info, ai_Address = addr\<rparr>)"
proof -
  have ok: "validateDataLength (ai_Version info) (ai_Data info) = None"
    using assms by (auto simp: DecodeIDAddress_def Let_def split: if_splits option.splits sum.splits)
  then obtain addr where "EncodeIDAddress (ai_Version info) (ai_Data info) = Inr addr"
    using Encode_defined by blast
  moreover note Decode_Encode [OF this, of U']
  moreover note ok [unfolded validateDataLength_def]
  ultimately show ?thesis by (auto simp: Let_def not_less split: if_splits)
qed

text \<open>A Unicode table that leaves non-ASCII strings alone, for concrete runs.\<close>

definition plain_unicode :: unicode where
  "plain_unicode = \<lparr>u_lower = (\<lambda>s. s), u_upper = (\<lambda>s. s), u_fold = (=)\<rparr>"

lemma zero_hash_address:
  "EncodeIDAddress 0 (replicate 20 0) = Inr ''idq1qqqqqqqqqqqqqqqqqqqqqqqqqqqqqqqqd0crxj''"
  by code_simp

theorem id_roundtrip_witness:
  "DecodeIDAddress plain_unicode ''idq1qqqqqqqqqqqqqqqqqqqqqqqqqqqqqqqqd0crxj''
     = Inr \<lparr>ai_Version = 0, ai_Data = replicate 20 0, ai_Address = ''idq1qqqqqqqqqqqqqqqqqqqqqqqqqqqqqqqqd0crxj''\<rparr>"
  by (rule id_roundtrip [OF zero_hash_address])

theorem id_substitution_detected_witness:
  "DecodeIDAddress plain_unicode (''idq1'' @ CHR ''p'' # ''qqqqqqqqqqqqqqqqqqqqqqqqqqqqqqqd0crxj'') = Inl ChecksumFailed"
proof (rule id_substitution_detected [where c = "CHR ''q''"])
  show "EncodeIDAddress 0 (replicate 20 0) = Inr (''idq1'' @ CHR ''q'' # ''qqqqqqqqqqqqqqqqqqqqqqqqqqqqqqqd0crxj'')"
    using zero_hash_address by simp
qed (simp_all add: Charset_def)

theorem id_decoded_well_formed_witness:
  "\<exists>addr. EncodeIDAddress 0 (replicate 20 0) = Inr addr
     \<and> DecodeIDAddress plain_unicode addr = Inr \<lparr>ai_Version = 0, ai_Data = replicate 20 0, ai_Address = addr\<rparr>"
  using id_decoded_well_formed [OF Decode_Encode [OF zero_hash_address, of plain_unicode], of plain_unicode] by simp

text \<open>
  An address with the character U+0171 in it. Its UTF-8 encoding has two bytes; the low byte
  of the code point is the letter \<open>q\<close>.
\<close>

definition latin_alias :: string where
  "latin_alias = ''idq1'' @ [CHR 0xC5, CHR 0xB1] @ replicate 30 CHR ''q'' @ ''d0crxj''"

lemma ToLower_latin_alias:
  assumes "u_lower U latin_alias = latin_alias"
  shows "ToLower U latin_alias = latin_alias"
proof -
  have "\<not> is_ascii latin_alias" by code_simp
  with assms show ?thesis by (simp add: ToLower_def)
qed

text \<open>\<open>DecodeIDAddress\<close> accepts a string that is not an encoded address: the base32 loop cuts
  each rune to its low byte, so an address with a non-ASCII letter decodes to the payload of
  the all-zero hash although \<open>EncodeIDAddress\<close> never produces it. The hypothesis says that the
  letter is its own lower case.\<close>

lemma id_non_ascii_alias:
  assumes "u_lower U latin_alias = latin_alias"
  shows "DecodeIDAddress U latin_alias = Inr \<lparr>ai_Version = 0, ai_Data = replicate 20 0, ai_Address = latin_alias\<rparr>
     \<and> EncodeIDAddress 0 (replicate 20 0) \<noteq> Inr latin_alias"
proof
  have "DecodeIDAddress plain_unicode latin_alias = Inr \<lparr>ai_Version = 0, ai_Data = replicate 20 0, ai_Address = latin_alias\<rparr>"
    by code_simp
  moreover have "ToLower plain_unicode latin_alias = latin_alias"
    by (rule ToLower_latin_alias) (simp add: plain_unicode_def)
  ultimately show "DecodeIDAddress U latin_alias = Inr \<lparr>ai_Version = 0, ai_Data = replicate 20 0, ai_Address = latin_alias\<rparr>"
    by (simp only: DecodeIDAddress_def ToLower_latin_alias [OF assms])
  show "EncodeIDAddress 0 (replicate 20 0) \<noteq> Inr latin_alias"
    unfolding zero_hash_address latin_alias_def by simp
qed

theorem id_non_ascii_alias_witness:
  "DecodeIDAddress plain_unicode latin_alias = Inr \<lparr>ai_Version = 0, ai_Data = replicate 20 0, ai_Address = latin_alias\<rparr>
     \<and> EncodeIDAddress 0 (replicate 20 0) \<noteq> Inr latin_alias"
  by (rule id_non_ascii_alias) (simp add: plain_unicode_def)

end
