(* ===== verification/Converter.thy ===== *)
theory Converter
  imports IdAddress_Codec Sha256
begin

unbundle bit_operations_syntax

text \<open>
  Address conversion, \<open>pkg/idaddress/converter.go\<close>: Bech32 and Bech32m, Base58Check, the
  conversions between chain addresses and ID addresses, and the \<open>GlobalMetaId\<close> functions of
  \<open>idaddress.go\<close> built on them. The Base58 digits come from the package
  \<open>btcutil/base58\<close>, which is a parameter (record \<open>base58\<close>); what the code relies on is that
  decoding inverts encoding (\<open>base58_ok\<close>).
\<close>

record base58 =
  b58_Decode :: "string \<Rightarrow> byte list"
  b58_Encode :: "byte list \<Rightarrow> string"

definition base58_ok :: "base58 \<Rightarrow> bool" where
  "base58_ok B \<longleftrightarrow> (\<forall>bs. b58_Decode B (b58_Encode B bs) = bs)"

datatype conv_error =
    IdError id_error
  | InvalidBase58
  | DecodedTooShort
  | Base58Checksum
  | Bech32Format
  | Bech32Character
  | Bech32Checksum
  | Bech32DataLength
  | WitnessProgramLength
  | WitnessV0NeedsBech32
  | WitnessV1NeedsBech32m
  | UnsupportedFormat string
  | UnsupportedVersionByte byte
  | UnsupportedNetwork string
  | WitnessV0Length nat
  | TaprootLength nat
  | UnsupportedWitnessVersion byte
  | ProgramDataLength byte nat
  | CannotConvert byte
  | EmptyGlobalMetaId
  | UnsupportedGlobalMetaId string
  | IndexPanic

subsection \<open>Bech32\<close>

definition bech32Charset :: string where
  "bech32Charset = ''qpzry9x8gf2tvdw0s3jn54khce6mua7l''"

text \<open>\<open>bech32CharsetMap\<close> is keyed by runes.\<close>

definition bech32CharsetMap :: "(nat, goint) gomap" where
  "bech32CharsetMap = zip (map code bech32Charset) (map of_nat [0..<32])"

datatype Bech32Encoding = Bech32 | Bech32m

definition bech32HrpExpand :: "string \<Rightarrow> goint list" where
  "bech32HrpExpand hrp =
     map (\<lambda>(c, k). of_nat (c div 32)) (runes hrp) @ [0] @ map (\<lambda>(c, k). of_nat (c mod 32)) (runes hrp)"

definition bech32Const :: goint where "bech32Const = 1"
definition bech32mConst :: goint where "bech32mConst = 0x2bc830a3"

definition bech32VerifyChecksum :: "string \<Rightarrow> goint list \<Rightarrow> Bech32Encoding \<Rightarrow> bool" where
  "bech32VerifyChecksum hrp d enc \<longleftrightarrow>
     (let p = polymod (bech32HrpExpand hrp @ d)
      in if enc = Bech32 then p = bech32Const else p = bech32mConst)"

text \<open>No range check and no mask on the accumulator, which wraps at 64 bits.\<close>

definition convertBits8to5 :: "byte list \<Rightarrow> nat \<Rightarrow> nat \<Rightarrow> bool \<Rightarrow> id_error + byte list" where
  "convertBits8to5 d fromB toB pad =
     (case regroup False (- 1) fromB toB d 0 0 of
        None \<Rightarrow> Inl InvalidDataValue
      | Some r \<Rightarrow> (case finish_bits fromB toB pad r of Inl e \<Rightarrow> Inl e | Inr ret \<Rightarrow> Inr (map ucast ret)))"

definition toByteArray :: "goint list \<Rightarrow> byte list" where
  "toByteArray = map ucast"

fun bech32_values :: "(nat \<times> nat) list \<Rightarrow> goint list option" where
  "bech32_values [] = Some []"
| "bech32_values ((c, k) # rs) =
     (case gm_get bech32CharsetMap c of
        None \<Rightarrow> None
      | Some v \<Rightarrow> map_option (\<lambda>vs. v # vs) (bech32_values rs))"

definition Bech32Decode :: "unicode \<Rightarrow> string \<Rightarrow> conv_error + (string \<times> byte \<times> byte list \<times> Bech32Encoding)" where
  "Bech32Decode U addr0 =
     (let addr = ToLower U addr0
      in case LastIndex addr ''1'' of
           None \<Rightarrow> Inl Bech32Format
         | Some pos \<Rightarrow>
             (if pos < 1 \<or> length addr < pos + 7 \<or> 90 < length addr then Inl Bech32Format
              else
                (let hrp = take pos addr
                 in case bech32_values (runes (drop (pos + 1) addr)) of
                      None \<Rightarrow> Inl Bech32Character
                    | Some decoded0 \<Rightarrow>
                        (let enc = (if bech32VerifyChecksum hrp decoded0 Bech32m then Bech32m else Bech32)
                         in if enc = Bech32 \<and> \<not> bech32VerifyChecksum hrp decoded0 Bech32 then Inl Bech32Checksum
                            else
                              (case take (length decoded0 - 6) decoded0 of
                                 [] \<Rightarrow> Inl Bech32DataLength
                               | v # rest \<Rightarrow>
                                   (let version = ucast v :: byte
                                    in case convertBits8to5 (toByteArray rest) 5 8 False of
                                         Inl e \<Rightarrow> Inl (IdError e)
                                       | Inr prog \<Rightarrow>
                                           (if length prog < 2 \<or> 40 < length prog then Inl WitnessProgramLength
                                            else if version = 0 \<and> enc \<noteq> Bech32 then Inl WitnessV0NeedsBech32
                                            else if version \<noteq> 0 \<and> enc \<noteq> Bech32m then Inl WitnessV1NeedsBech32m
                                            else Inr (hrp, version, prog, enc))))))))"

definition Bech32Encode :: "string \<Rightarrow> byte \<Rightarrow> byte list \<Rightarrow> conv_error + string" where
  "Bech32Encode hrp version prog =
     (let enc = (if version \<noteq> 0 then Bech32m else Bech32)
      in if length prog < 2 \<or> 40 < length prog then Inl WitnessProgramLength
         else case convertBits8to5 prog 8 5 True of
           Inl e \<Rightarrow> Inl (IdError e)
         | Inr converted \<Rightarrow>
             (let d = ucast version # map ucast converted;
                  poly = polymod (bech32HrpExpand hrp @ d @ [0, 0, 0, 0, 0, 0])
                    XOR (if enc = Bech32 then bech32Const else bech32mConst);
                  full = d @ checksum_digits poly
              in if list_all (\<lambda>v. unat v < length bech32Charset) full
                 then Inr (hrp @ ''1'' @ map (\<lambda>v. bech32Charset ! unat v) full)
                 else Inl IndexPanic))"

subsection \<open>Base58Check\<close>

definition doubleSHA256 :: "byte list \<Rightarrow> byte list" where
  "doubleSHA256 d = Sum256 (Sum256 d)"

definition Base58Decode :: "base58 \<Rightarrow> string \<Rightarrow> conv_error + byte list" where
  "Base58Decode B input =
     (let decoded = b58_Decode B input
      in if length decoded = 0 \<and> 0 < length input then Inl InvalidBase58 else Inr decoded)"

definition Base58CheckDecode :: "base58 \<Rightarrow> string \<Rightarrow> conv_error + (byte \<times> byte list)" where
  "Base58CheckDecode B input =
     (case Base58Decode B input of
        Inl e \<Rightarrow> Inl e
      | Inr decoded \<Rightarrow>
          (if length decoded < 5 then Inl DecodedTooShort
           else
             (let d = take (length decoded - 4) decoded; checksum = drop (length decoded - 4) decoded
              in if checksum \<noteq> take 4 (doubleSHA256 d) then Inl Base58Checksum
                 else Inr (hd d, tl d))))"

definition Base58CheckEncode :: "base58 \<Rightarrow> byte \<Rightarrow> byte list \<Rightarrow> string" where
  "Base58CheckEncode B version payload =
     (let d = version # payload in b58_Encode B (d @ take 4 (doubleSHA256 d)))"

subsection \<open>Conversions\<close>

definition lift_id :: "id_error + 'a \<Rightarrow> conv_error + 'a" where
  "lift_id r = (case r of Inl e \<Rightarrow> Inl (IdError e) | Inr x \<Rightarrow> Inr x)"

definition convertFromLegacyAddress :: "byte \<Rightarrow> byte list \<Rightarrow> conv_error + string" where
  "convertFromLegacyAddress version payload =
     (if version = 0x00 then lift_id (EncodeIDAddress VersionP2PKH payload)
      else if version = 0x05 then lift_id (EncodeIDAddress VersionP2SH payload)
      else if version = 0x6F then lift_id (EncodeIDAddress VersionP2PKH payload)
      else if version = 0xC4 then lift_id (EncodeIDAddress VersionP2SH payload)
      else if version = 0x1E then lift_id (EncodeIDAddress VersionP2PKH payload)
      else if version = 0x16 then lift_id (EncodeIDAddress VersionP2SH payload)
      else Inl (UnsupportedVersionByte version))"

definition convertFromSegWitAddress :: "string \<Rightarrow> byte \<Rightarrow> byte list \<Rightarrow> conv_error + string" where
  "convertFromSegWitAddress hrp witnessVersion prog =
     (if hrp \<noteq> ''bc'' \<and> hrp \<noteq> ''tb'' then Inl (UnsupportedNetwork hrp)
      else if witnessVersion = 0 then
        (if length prog = 20 then lift_id (EncodeIDAddress VersionP2WPKH prog)
         else if length prog = 32 then lift_id (EncodeIDAddress VersionP2WSH prog)
         else Inl (WitnessV0Length (length prog)))
      else if witnessVersion = 1 then
        (if length prog = 32 then lift_id (EncodeIDAddress VersionP2TR prog)
         else Inl (TaprootLength (length prog)))
      else Inl (UnsupportedWitnessVersion witnessVersion))"

definition ConvertFromBitcoin :: "unicode \<Rightarrow> base58 \<Rightarrow> string \<Rightarrow> conv_error + string" where
  "ConvertFromBitcoin U B bitcoinAddr =
     (case Base58CheckDecode B bitcoinAddr of
        Inr (version, payload) \<Rightarrow> convertFromLegacyAddress version payload
      | Inl _ \<Rightarrow>
          (case Bech32Decode U bitcoinAddr of
             Inr (hrp, witnessVersion, prog, _) \<Rightarrow> convertFromSegWitAddress hrp witnessVersion prog
           | Inl _ \<Rightarrow> Inl (UnsupportedFormat bitcoinAddr)))"

definition ConvertToBitcoin :: "unicode \<Rightarrow> base58 \<Rightarrow> string \<Rightarrow> string \<Rightarrow> conv_error + string" where
  "ConvertToBitcoin U B idAddr network =
     (case DecodeIDAddress U idAddr of
        Inl e \<Rightarrow> Inl (IdError e)
      | Inr info \<Rightarrow>
          (let hrp = (if network = ''testnet'' then ''tb'' else ''bc''); v = ai_Version info; d = ai_Data info
           in if v = VersionP2PKH then
                Inr (Base58CheckEncode B (if network = ''mainnet'' then 0x00 else 0x6F) d)
              else if v = VersionP2SH then
                Inr (Base58CheckEncode B (if network = ''mainnet'' then 0x05 else 0xC4) d)
              else if v = VersionP2WPKH then
                (if length d \<noteq> 20 then Inl (ProgramDataLength v (length d)) else Bech32Encode hrp 0 d)
              else if v = VersionP2WSH then
                (if length d \<noteq> 32 then Inl (ProgramDataLength v (length d)) else Bech32Encode hrp 0 d)
              else if v = VersionP2TR then
                (if length d \<noteq> 32 then Inl (ProgramDataLength v (length d)) else Bech32Encode hrp 1 d)
              else Inl (CannotConvert v)))"

definition ConvertToDogecoin :: "unicode \<Rightarrow> base58 \<Rightarrow> string \<Rightarrow> conv_error + string" where
  "ConvertToDogecoin U B idAddr =
     (case DecodeIDAddress U idAddr of
        Inl e \<Rightarrow> Inl (IdError e)
      | Inr info \<Rightarrow>
          (if ai_Version info = VersionP2PKH then Inr (Base58CheckEncode B 0x1E (ai_Data info))
           else if ai_Version info = VersionP2SH then Inr (Base58CheckEncode B 0x16 (ai_Data info))
           else Inl (CannotConvert (ai_Version info))))"

record BitcoinAddress =
  ba_Type :: string
  ba_Network :: string
  ba_Data :: "byte list"

definition ParseBitcoinAddress :: "base58 \<Rightarrow> string \<Rightarrow> conv_error + BitcoinAddress" where
  "ParseBitcoinAddress B addr =
     (case Base58CheckDecode B addr of
        Inl e \<Rightarrow> Inl e
      | Inr (version, payload) \<Rightarrow>
          (let mk = (\<lambda>t n. Inr \<lparr>ba_Type = t, ba_Network = n, ba_Data = payload\<rparr>)
           in if version = 0x00 then mk ''P2PKH'' ''mainnet''
              else if version = 0x05 then mk ''P2SH'' ''mainnet''
              else if version = 0x6F then mk ''P2PKH'' ''testnet''
              else if version = 0xC4 then mk ''P2SH'' ''testnet''
              else if version = 0x1E then mk ''P2PKH'' ''dogecoin''
              else if version = 0x16 then mk ''P2SH'' ''dogecoin''
              else Inl (UnsupportedVersionByte version)))"

record AddressConverter =
  ac_defaultNetwork :: string

definition AddressConverter_ToID :: "unicode \<Rightarrow> base58 \<Rightarrow> AddressConverter \<Rightarrow> string \<Rightarrow> conv_error + string" where
  "AddressConverter_ToID U B ac addr = ConvertFromBitcoin U B addr"

definition AddressConverter_FromID ::
    "unicode \<Rightarrow> base58 \<Rightarrow> AddressConverter \<Rightarrow> string \<Rightarrow> string \<Rightarrow> conv_error + string" where
  "AddressConverter_FromID U B ac idAddr network0 =
     (let network = (if network0 = '''' then ac_defaultNetwork ac else network0)
      in if network = ''bitcoin'' \<or> network = ''mainnet'' \<or> network = ''testnet''
         then ConvertToBitcoin U B idAddr network
         else if network = ''dogecoin'' then ConvertToDogecoin U B idAddr
         else Inl (UnsupportedNetwork network))"

definition AddressConverter_Batch ::
    "unicode \<Rightarrow> base58 \<Rightarrow> AddressConverter \<Rightarrow> string list \<Rightarrow> (conv_error + string) list" where
  "AddressConverter_Batch U B ac addrs = map (AddressConverter_ToID U B ac) addrs"

definition EncodeGlobalMetaId :: "unicode \<Rightarrow> base58 \<Rightarrow> string \<Rightarrow> string \<Rightarrow> string" where
  "EncodeGlobalMetaId U B metaid chainName =
     (if metaid = '''' \<or> metaid = ''errorAddr'' then ''''
      else case ConvertFromBitcoin U B metaid of Inl _ \<Rightarrow> '''' | Inr idAddr \<Rightarrow> idAddr)"

definition DecodeGlobalMetaId :: "unicode \<Rightarrow> base58 \<Rightarrow> string \<Rightarrow> conv_error + (string \<times> string)" where
  "DecodeGlobalMetaId U B globalMetaId =
     (if globalMetaId = '''' then Inl EmptyGlobalMetaId
      else case ConvertToBitcoin U B globalMetaId ''mainnet'' of
        Inr addr \<Rightarrow> Inr (addr, ''btc'')
      | Inl _ \<Rightarrow>
          (case ConvertToBitcoin U B globalMetaId ''testnet'' of
             Inr addr \<Rightarrow> Inr (addr, ''btc'')
           | Inl _ \<Rightarrow>
               (case ConvertToDogecoin U B globalMetaId of
                  Inr addr \<Rightarrow> Inr (addr, ''doge'')
                | Inl _ \<Rightarrow> Inl (UnsupportedGlobalMetaId globalMetaId))))"

subsection \<open>Base58Check round trip\<close>

lemma Base58Check_roundtrip:
  assumes "base58_ok B"
  shows "Base58CheckDecode B (Base58CheckEncode B version payload) = Inr (version, payload)"
proof -
  let ?d = "version # payload"
  let ?full = "?d @ take 4 (doubleSHA256 ?d)"
  have dec: "b58_Decode B (b58_Encode B ?full) = ?full"
    using assms by (simp add: base58_ok_def)
  have len: "length ?full = length ?d + 4" by (simp add: doubleSHA256_def)
  moreover have "length ?full - 4 = length ?d" using len by simp
  moreover have "\<not> length ?full < 5" using len by simp
  ultimately show ?thesis
    unfolding Base58CheckDecode_def Base58CheckEncode_def Base58Decode_def Let_def dec
    by simp
qed

subsection \<open>Bech32 round trip\<close>

lemma bech32Charset_eq: "bech32Charset = Charset"
  by (simp add: bech32Charset_def Charset_def)

lemma bech32CharsetMap_code: "gm_get bech32CharsetMap (code c) = gm_get CharsetMap c"
proof -
  have "inj code" unfolding code_def by (rule inj_onI) (metis char_of_char)
  then have "map_of (zip (map code cs) vs) (code c) = map_of (zip cs vs) c" for cs :: string and vs :: "goint list"
    by (induction cs arbitrary: vs) (auto simp: inj_eq split: list.splits, case_tac vs, auto simp: inj_eq)
  then show ?thesis by (simp add: bech32CharsetMap_def CharsetMap_def gm_get_def bech32Charset_eq)
qed

lemma bech32_values_encode:
  assumes "\<forall>v \<in> set vs. five_bit v"
  shows "bech32_values (runes (encode_chars vs)) = Some vs"
proof -
  have "bech32_values (map (\<lambda>c. (code c, 1)) (encode_chars vs)) = Some vs"
    using assms by (induction vs) (simp_all add: encode_chars_def charset_char bech32CharsetMap_code)
  then show ?thesis using runes_ascii [OF encode_chars_ascii [OF assms]] by simp
qed

lemma bech32HrpExpand_below:
  assumes "list_all (\<lambda>c. code c < 128) hrp"
  shows "\<forall>v \<in> set (bech32HrpExpand hrp). below 30 v"
proof -
  have "below 30 (of_nat (code c div 32))" "below 30 (of_nat (code c mod 32))" for c
    using code_lt_256 [of c] by (intro below_of_nat; simp)+
  moreover have "below 30 (0 :: goint)" by (simp add: below_def)
  ultimately show ?thesis by (auto simp: bech32HrpExpand_def runes_ascii [OF assms])
qed

lemma five_bit_byte_ucast: "five_bit v \<Longrightarrow> ucast (ucast v :: byte) = v"
proof (rule bit_word_eqI)
  fix n assume "five_bit v" and "n < LENGTH(64)"
  then show "bit (ucast (ucast v :: byte) :: goint) n = bit v n"
    using masked_eq_zero_bits [of v 5 n] by (cases "n < 8") (simp_all add: five_bit_def bit_ucast_iff)
qed

lemma convertBits8to5_roundtrip:
  obtains e where "convertBits8to5 d 8 5 True = Inr (map ucast e)" and "\<forall>v \<in> set e. five_bit v"
    and "convertBits8to5 (toByteArray e) 5 8 False = Inr d" and "5 * length e < 8 * length d + 5"
proof -
  have m: "bit (- 1 :: goint) i" if "i < 12" for i using that by simp
  obtain out acc bits e z where A: "regroup False (- 1) 8 5 d 0 0 = Some (out, acc, bits)"
      "finish_bits 8 5 True (out, acc, bits) = Inr e" "z < 5"
      "concat (map (bits_of 5) e) = concat (map (bits_of 8) d) @ replicate z False"
      "\<forall>v \<in> set e. v AND mask 5 = v"
    using regroup_8_5 [of "- 1" False d] m by blast
  have "\<exists>out acc bits. regroup False (- 1) 5 8 (map ucast e) 0 0 = Some (out, acc, bits)
      \<and> finish_bits 5 8 False (out, acc, bits) = Inr out \<and> map ucast out = d"
    using A small_ucast_masked m
    by (intro regroup_5_8 [where z = z]) (auto simp: concat_bits_ucast simp del: map_map)
  then have "convertBits8to5 (toByteArray e) 5 8 False = Inr d"
    by (auto simp: convertBits8to5_def toByteArray_def)
  moreover have "convertBits8to5 d 8 5 True = Inr (map ucast e)"
    using A by (simp add: convertBits8to5_def)
  moreover have "5 * length e < 8 * length d + 5"
    using arg_cong [OF A(4), of length] A(3) by simp
  ultimately show ?thesis using A(5) that unfolding five_bit_def by blast
qed

lemma byte_small_five_bit: "small 5 (v :: byte) \<Longrightarrow> five_bit (ucast v)"
  unfolding five_bit_def below_mask [symmetric] by (auto simp: small_def below_def bit_ucast_iff)

lemma bech32_roundtrip:
  assumes enc: "Bech32Encode hrp version prog = Inr addr"
    and hrp: "lower_fixed hrp" "hrp \<noteq> []" "length hrp \<le> 18" and ver: "small 5 version"
  shows "Bech32Decode U addr = Inr (hrp, version, prog, if version \<noteq> 0 then Bech32m else Bech32)"
proof -
  let ?enc = "if version \<noteq> 0 then Bech32m else Bech32"
  let ?c = "if ?enc = Bech32 then bech32Const else bech32mConst"
  have len: "2 \<le> length prog" "length prog \<le> 40"
    using enc by (auto simp: Bech32Encode_def Let_def split: if_splits)
  obtain e where e: "convertBits8to5 prog 8 5 True = Inr (map ucast e)" "\<forall>v \<in> set e. five_bit v"
      "convertBits8to5 (toByteArray e) 5 8 False = Inr prog" "5 * length e < 8 * length prog + 5"
    by (rule convertBits8to5_roundtrip [of prog])
  have ue: "map ucast (map ucast e :: byte list) = e"
    using e(2) by (induction e) (simp_all add: five_bit_byte_ucast)
  let ?d = "ucast version # e"
  let ?cs = "checksum_digits (polymod (bech32HrpExpand hrp @ ?d @ [0, 0, 0, 0, 0, 0]) XOR ?c)"
  let ?vs = "?d @ ?cs"
  have fd: "\<forall>v \<in> set ?d. five_bit v" using e(2) byte_small_five_bit [OF ver] by simp
  have five: "\<forall>v \<in> set ?vs. five_bit v"
    using fd checksum_digits_five_bit by auto
  have addr: "addr = hrp @ CHR ''1'' # encode_chars ?vs"
    using enc e(1) len ue by (auto simp: Bech32Encode_def Let_def encode_chars_def bech32Charset_eq split: if_splits)
  have asc: "list_all (\<lambda>c. code c < 128) hrp" using hrp(1) by (auto simp: lower_fixed_def list_all_iff)
  have low: "lower_fixed addr"
    using hrp(1) encode_chars_lower [OF five] by (simp add: addr code_def)
  have pos: "LastIndex addr ''1'' = Some (length hrp)"
    using LastIndex_char [OF encode_chars_no_sep [OF five], of hrp] by (simp add: addr)
  have "5 * length e < 325" using e(4) len by simp
  then have total: "length addr \<le> 90" "\<not> length addr < length hrp + 7" "0 < length hrp"
    using hrp(2,3) by (simp_all add: addr encode_chars_def)
  have tk: "take (length hrp) addr = hrp" "drop (length hrp + 1) addr = encode_chars ?vs" by (simp_all add: addr)
  have below_c: "below 30 ?c" by (simp add: bech32Const_def bech32mConst_def below_mask mask_eq_exp_minus_1)
  have poly: "polymod (bech32HrpExpand hrp @ ?vs) = ?c"
  proof -
    have "\<forall>v \<in> set (bech32HrpExpand hrp @ ?d). below 30 v"
      using bech32HrpExpand_below [OF asc] fd five_bit_below by auto
    from polymod_checksum [OF this below_c] show ?thesis by (simp only: append.assoc)
  qed
  have cneq: "bech32Const \<noteq> bech32mConst" by (simp add: bech32Const_def bech32mConst_def)
  have ver_back: "ucast (ucast version :: goint) = version"
    by (rule bit_word_eqI) (simp add: bit_ucast_iff)
  have tv: "take (length ?vs - 6) ?vs = ?d" by simp
  show ?thesis
    unfolding Bech32Decode_def Let_def ToLower_fixed [OF low] pos option.case tk bech32_values_encode [OF five] tv
      bech32VerifyChecksum_def poly list.case e(3) sum.case ver_back
    using total len cneq by auto
qed


lemma Bech32Encode_defined:
  assumes "2 \<le> length prog" and "length prog \<le> 40" and ver: "small 5 version"
  shows "\<exists>addr. Bech32Encode hrp version prog = Inr addr"
proof -
  obtain e where e: "convertBits8to5 prog 8 5 True = Inr (map ucast e)" "\<forall>v \<in> set e. five_bit v"
    by (rule convertBits8to5_roundtrip [of prog])
  have ue: "map ucast (map ucast e :: byte list) = e"
    using e(2) by (induction e) (simp_all add: five_bit_byte_ucast)
  have "length bech32Charset = 32" by (simp add: bech32Charset_def)
  then have "list_all (\<lambda>v. unat v < length bech32Charset) (ucast version # e @ checksum_digits m)" for m
    using e(2) byte_small_five_bit [OF ver] checksum_digits_five_bit by (auto simp: list_all_iff intro: five_bit_unat)
  note digits = this
  show ?thesis
    unfolding Bech32Encode_def Let_def e(1) sum.case ue append_Cons
    using assms(1,2) digits by simp
qed

lemma length_by_version:
  "validateDataLength VersionP2PKH d = None \<Longrightarrow> length d = 20"
  "validateDataLength VersionP2SH d = None \<Longrightarrow> length d = 20"
  "validateDataLength VersionP2WPKH d = None \<Longrightarrow> length d = 20"
  "validateDataLength VersionP2WSH d = None \<Longrightarrow> length d = 32"
  "validateDataLength VersionP2TR d = None \<Longrightarrow> length d = 32"
  by (auto simp: validateDataLength_def version_defs split: if_splits)

lemma EncodeIDAddress_version:
  assumes "EncodeIDAddress version d = Inr addr"
  shows "version \<in> {VersionP2PKH, VersionP2SH, VersionP2WPKH, VersionP2WSH, VersionP2MS, VersionP2TR}"
    and "validateDataLength version d = None"
  using assms by (auto simp: EncodeIDAddress_def validateDataLength_def split: option.splits if_splits)

lemma small_01: "small 5 (0 :: byte)" "small 5 (1 :: byte)"
  by (simp_all add: small_def bit_1_iff)

definition chain_address :: "base58 \<Rightarrow> string \<Rightarrow> byte \<Rightarrow> byte list \<Rightarrow> conv_error + string" where
  "chain_address B network v d =
     (let hrp = (if network = ''testnet'' then ''tb'' else ''bc'')
      in if v = VersionP2PKH then Inr (Base58CheckEncode B (if network = ''mainnet'' then 0x00 else 0x6F) d)
         else if v = VersionP2SH then Inr (Base58CheckEncode B (if network = ''mainnet'' then 0x05 else 0xC4) d)
         else Bech32Encode hrp (if v = VersionP2TR then 1 else 0) d)"

lemma ConvertToBitcoin_encoded:
  assumes "EncodeIDAddress version d = Inr addr" and "version \<noteq> VersionP2MS"
  shows "ConvertToBitcoin U B addr network = chain_address B network version d"
proof -
  have v: "version \<in> {VersionP2PKH, VersionP2SH, VersionP2WPKH, VersionP2WSH, VersionP2TR}"
    using EncodeIDAddress_version [OF assms(1)] assms(2) by auto
  note len = EncodeIDAddress_version(2) [OF assms(1)]
  show ?thesis
    unfolding ConvertToBitcoin_def Decode_Encode [OF assms(1)] chain_address_def
    using v length_by_version(3-5) len by (auto simp: Let_def version_defs)
qed

lemma ConvertFromBitcoin_legacy:
  assumes "base58_ok B"
  shows "ConvertFromBitcoin U B (Base58CheckEncode B version payload) = convertFromLegacyAddress version payload"
  by (simp add: ConvertFromBitcoin_def Base58Check_roundtrip [OF assms])

lemma legacy_version_byte:
  assumes enc: "EncodeIDAddress version d = Inr addr"
  shows "version = VersionP2PKH \<Longrightarrow> chain_address B network version d
      = Inr (Base58CheckEncode B (if network = ''mainnet'' then 0x00 else 0x6F) d)
    \<and> convertFromLegacyAddress (if network = ''mainnet'' then 0x00 else 0x6F) d = Inr addr"
    and "version = VersionP2SH \<Longrightarrow> chain_address B network version d
      = Inr (Base58CheckEncode B (if network = ''mainnet'' then 0x05 else 0xC4) d)
    \<and> convertFromLegacyAddress (if network = ''mainnet'' then 0x05 else 0xC4) d = Inr addr"
  using enc by (simp_all add: chain_address_def convertFromLegacyAddress_def lift_id_def version_defs)

lemma hrp_ok: "lower_fixed (if t then ''tb'' else ''bc'')" "(if t then ''tb'' else ''bc'') \<noteq> ''''"
    "length (if t then ''tb'' else ''bc'') \<le> 18"
  by (simp_all add: code_def)

lemma chain_address_segwit:
  assumes enc: "EncodeIDAddress version d = Inr addr" and v: "version \<in> {VersionP2WPKH, VersionP2WSH, VersionP2TR}"
  obtains b where "chain_address B network version d = Inr b"
    and "\<And>e. Base58CheckDecode B b = Inl e \<Longrightarrow> ConvertFromBitcoin U B b = Inr addr"
proof -
  let ?hrp = "if network = ''testnet'' then ''tb'' else ''bc''"
  let ?w = "if version = VersionP2TR then 1 else 0 :: byte"
  have len: "(version = VersionP2WPKH \<longrightarrow> length d = 20) \<and> (version = VersionP2WSH \<longrightarrow> length d = 32) \<and> (version = VersionP2TR \<longrightarrow> length d = 32)"
    using EncodeIDAddress_version(2) [OF enc] length_by_version by blast
  then have "2 \<le> length d" "length d \<le> 40" using v by auto
  moreover have w: "small 5 ?w" using small_01 by simp
  ultimately obtain b where b: "Bech32Encode ?hrp ?w d = Inr b" using Bech32Encode_defined by blast
  have ca: "chain_address B network version d = Inr b"
    using b v by (auto simp: chain_address_def version_defs)
  have dec: "Bech32Decode U b = Inr (?hrp, ?w, d, if ?w \<noteq> 0 then Bech32m else Bech32)"
    by (rule bech32_roundtrip [OF b hrp_ok w])
  have "ConvertFromBitcoin U B b = Inr addr" if "Base58CheckDecode B b = Inl e" for e
    unfolding ConvertFromBitcoin_def that dec
    using v len enc by (auto simp: convertFromSegWitAddress_def version_defs lift_id_def)
  with ca that show thesis by blast
qed

lemma ConvertToDogecoin_mainnet:
  assumes "ConvertToDogecoin U B g = Inr addr"
  shows "\<exists>addr'. ConvertToBitcoin U B g ''mainnet'' = Inr addr'"
  using assms by (auto simp: ConvertToDogecoin_def ConvertToBitcoin_def Let_def split: sum.splits if_splits)

text \<open>A Base58 package for concrete runs: it spells each byte as one character.\<close>

definition plain_base58 :: base58 where
  "plain_base58 = \<lparr>b58_Decode = map (\<lambda>c. of_nat (code c)), b58_Encode = map (\<lambda>b. char_of (unat b))\<rparr>"

lemma plain_base58_ok: "base58_ok plain_base58"
proof -
  have "of_nat (code (char_of (unat b))) = b" for b :: byte
    using unsigned_less [of b, where 'a = nat] by (simp add: code_def)
  then show ?thesis by (simp add: base58_ok_def plain_base58_def comp_def)
qed

lemma zero_program_bech32:
  "Bech32Encode ''bc'' 0 (replicate 20 0) = Inr ''bc1qqqqqqqqqqqqqqqqqqqqqqqqqqqqqqqqq9e75rs''"
  by code_simp

subsection \<open>Properties\<close>

text \<open>C40: an ID address of any single-key or witness type converts to a chain address on every
  network, and converting that address back returns the same ID address. For the witness
  types the address must not happen to be a valid Base58Check string, which
  \<open>ConvertFromBitcoin\<close> tries first.\<close>

lemma chain_roundtrip:
  assumes "base58_ok B" and enc: "EncodeIDAddress version d = Inr addr" and "version \<noteq> VersionP2MS"
  shows "\<exists>b. ConvertToBitcoin U B addr network = Inr b
    \<and> (version = VersionP2PKH \<or> version = VersionP2SH \<or> (\<exists>e. Base58CheckDecode B b = Inl e)
       \<longrightarrow> ConvertFromBitcoin U B b = Inr addr)"
proof (cases "version = VersionP2PKH \<or> version = VersionP2SH")
  case True
  then have "\<exists>vb. chain_address B network version d = Inr (Base58CheckEncode B vb d) \<and> convertFromLegacyAddress vb d = Inr addr"
    using legacy_version_byte [OF enc] by metis
  then show ?thesis
    using ConvertToBitcoin_encoded [OF enc assms(3)] ConvertFromBitcoin_legacy [OF assms(1)] by auto
next
  case False
  then have "version \<in> {VersionP2WPKH, VersionP2WSH, VersionP2TR}"
    using EncodeIDAddress_version(1) [OF enc] assms(3) by auto
  then show ?thesis
    using chain_address_segwit [OF enc] ConvertToBitcoin_encoded [OF enc assms(3)] False by metis
qed

theorem chain_roundtrip_witness:
  "\<exists>b. ConvertToBitcoin plain_unicode plain_base58 ''idq1qqqqqqqqqqqqqqqqqqqqqqqqqqqqqqqqd0crxj'' ''mainnet'' = Inr b
    \<and> (VersionP2PKH = VersionP2PKH \<or> VersionP2PKH = VersionP2SH \<or> (\<exists>e. Base58CheckDecode plain_base58 b = Inl e)
       \<longrightarrow> ConvertFromBitcoin plain_unicode plain_base58 b = Inr ''idq1qqqqqqqqqqqqqqqqqqqqqqqqqqqqqqqqd0crxj'')"
  by (rule chain_roundtrip [OF plain_base58_ok, where d = "replicate 20 0"])
    (use zero_hash_address in \<open>simp_all add: version_defs\<close>)

text \<open>Bech32 and Bech32m decode what they encode, for every lower-case human-readable part
  of at most 18 characters.\<close>

lemma bech32_encode_decode:
  assumes "Bech32Encode hrp version prog = Inr addr" and "lower_fixed hrp" and "hrp \<noteq> []"
    and "length hrp \<le> 18" and "small 5 version"
  shows "Bech32Decode U addr = Inr (hrp, version, prog, if version \<noteq> 0 then Bech32m else Bech32)"
  using assms by (rule bech32_roundtrip)

theorem bech32_encode_decode_witness:
  "Bech32Decode plain_unicode ''bc1qqqqqqqqqqqqqqqqqqqqqqqqqqqqqqqqq9e75rs''
     = Inr (''bc'', 0, replicate 20 0, if (0 :: byte) \<noteq> 0 then Bech32m else Bech32)"
  by (rule bech32_encode_decode [OF zero_program_bech32]) (simp_all add: small_01 code_def)

text \<open>\<open>DecodeGlobalMetaId\<close> never reports the chain \<open>doge\<close>: whatever converts to Dogecoin has
  already been converted to a Bitcoin mainnet address.\<close>

lemma global_id_never_doge: "DecodeGlobalMetaId U B g \<noteq> Inr (addr, ''doge'')"
  using ConvertToDogecoin_mainnet [of U B g]
  by (auto simp: DecodeGlobalMetaId_def split: sum.splits if_splits)

text \<open>A Dogecoin address does not survive the trip through its \<open>GlobalMetaId\<close>: it comes back as
  the Bitcoin mainnet address of the same hash.\<close>

lemma doge_address_becomes_btc:
  assumes "base58_ok B" and "length h = 20" and "Base58CheckEncode B 0x1E h \<notin> {'''', ''errorAddr''}"
  shows "DecodeGlobalMetaId U B (EncodeGlobalMetaId U B (Base58CheckEncode B 0x1E h) ''doge'')
    = Inr (Base58CheckEncode B 0x00 h, ''btc'')"
proof -
  obtain a where a: "EncodeIDAddress VersionP2PKH h = Inr a"
    using Encode_defined [of VersionP2PKH h] assms(2) by (auto simp: validateDataLength_def)
  have ne: "a \<noteq> ''''" using EncodeIDAddress_cases [OF a] by (metis HRP_def append_is_Nil_conv list.distinct(1))
  have "EncodeGlobalMetaId U B (Base58CheckEncode B 0x1E h) ''doge'' = a"
    using assms(3) a by (simp add: EncodeGlobalMetaId_def ConvertFromBitcoin_legacy [OF assms(1)]
        convertFromLegacyAddress_def lift_id_def)
  moreover have "ConvertToBitcoin U B a ''mainnet'' = Inr (Base58CheckEncode B 0x00 h)"
    using ConvertToBitcoin_encoded [OF a] by (simp add: chain_address_def version_defs)
  ultimately show ?thesis using ne by (simp add: DecodeGlobalMetaId_def)
qed

theorem doge_address_becomes_btc_witness:
  "DecodeGlobalMetaId plain_unicode plain_base58
     (EncodeGlobalMetaId plain_unicode plain_base58 (Base58CheckEncode plain_base58 0x1E (replicate 20 0)) ''doge'')
    = Inr (Base58CheckEncode plain_base58 0x00 (replicate 20 0), ''btc'')"
proof (rule doge_address_becomes_btc [OF plain_base58_ok])
  have "length (Base58CheckEncode plain_base58 0x1E (replicate 20 0)) = 25"
    by (simp add: Base58CheckEncode_def plain_base58_def doubleSHA256_def Let_def)
  then show "Base58CheckEncode plain_base58 0x1E (replicate 20 0) \<notin> {'''', ''errorAddr''}" by auto
qed simp

text \<open>Asking the address converter for the network \<open>bitcoin\<close> yields a testnet address: only
  the name \<open>mainnet\<close> selects the mainnet version byte.\<close>

lemma converter_bitcoin_is_testnet:
  assumes "EncodeIDAddress VersionP2PKH d = Inr addr"
  shows "AddressConverter_FromID U B ac addr ''bitcoin'' = Inr (Base58CheckEncode B 0x6F d)"
  using ConvertToBitcoin_encoded [OF assms]
  by (simp add: AddressConverter_FromID_def Let_def chain_address_def version_defs)

theorem converter_bitcoin_is_testnet_witness:
  "AddressConverter_FromID plain_unicode plain_base58 \<lparr>ac_defaultNetwork = ''bitcoin''\<rparr>
     ''idq1qqqqqqqqqqqqqqqqqqqqqqqqqqqqqqqqd0crxj'' ''bitcoin''
   = Inr (Base58CheckEncode plain_base58 0x6F (replicate 20 0))"
  by (rule converter_bitcoin_is_testnet) (use zero_hash_address in \<open>simp add: version_defs\<close>)

end
