(* ===== verification/Presence.thy ===== *)
theory Presence
  imports GoStrings "HOL-Library.Product_Lexorder"
begin

text \<open>
  The data types of \<open>internal/presence/types.go\<close> that the socket server and the federation share,
  and the readings of \<open>time.Time\<close> and of slice expressions both use. Instants are nanoseconds since
  the Unix epoch.
\<close>

record OnlineEntry =
  oe_MetaId :: string
  oe_Type :: string
  oe_ConnectedAt :: int
  oe_LastSeenAt :: int
  oe_SourceNodeIds :: "string list"
  oe_Sources :: int

record Snapshot =
  sn_Protocol :: string
  sn_Version :: string
  sn_NodeID :: string
  sn_GeneratedAt :: int
  sn_TTLSeconds :: int
  sn_Sequence :: nat
  sn_Items :: "OnlineEntry list"
  sn_Signature :: string

record GlobalStats =
  gs_TotalConnections :: nat
  gs_UniqueMetaIds :: nat
  gs_Nodes :: nat

text \<open>The interface \<open>presence.GlobalReader\<close>. The results are \<open>None\<close> when the call panics.\<close>

record GlobalReader =
  gr_Enabled :: bool
  gr_DefaultScope :: string
  gr_OnlineList :: "OnlineEntry list \<Rightarrow> int \<Rightarrow> int \<Rightarrow> OnlineEntry list option"
  gr_Stats :: "OnlineEntry list \<Rightarrow> GlobalStats"

text \<open>The zero \<open>time.Time\<close> is the year 1; \<open>UnixMilli\<close> rounds towards minus infinity.\<close>

definition zero_time :: int where "zero_time = - 62135596800 * 1000000000"

definition UnixMilli :: "int \<Rightarrow> int" where "UnixMilli t = t div 1000000"

text \<open>\<open>time.Time.Sub\<close> saturates at the bounds of \<open>time.Duration\<close>.\<close>

definition time_Sub :: "int \<Rightarrow> int \<Rightarrow> int" where
  "time_Sub a b = max (- (2 ^ 63)) (min (2 ^ 63 - 1) (a - b))"

text \<open>\<open>xs[a:b]\<close>; out of range it panics.\<close>

definition slice_of :: "'a list \<Rightarrow> int \<Rightarrow> int \<Rightarrow> 'a list option" where
  "slice_of xs a b = (if 0 \<le> a \<and> a \<le> b \<and> b \<le> int (length xs) then Some (drop (nat a) (take (nat b) xs)) else None)"

definition page_of :: "int \<Rightarrow> int \<Rightarrow> 'a list \<Rightarrow> 'a list" where
  "page_of page sz xs = take (nat sz) (drop (nat ((page - 1) * sz)) xs)"

lemma page_arith:
  fixes page sz :: int
  assumes "1 \<le> page" and "1 \<le> sz" and "page * sz < 2 ^ 63"
  shows "wrap64 (page - 1) = page - 1" "wrap64 ((page - 1) * sz) = (page - 1) * sz"
    "wrap64 ((page - 1) * sz + sz) = (page - 1) * sz + sz" "0 \<le> (page - 1) * sz"
proof -
  let ?s = "(page - 1) * sz"
  show pos: "0 \<le> ?s" using assms(1,2) by simp
  have s: "?s + sz = page * sz" by (simp add: algebra_simps)
  have "page \<le> page * sz" using assms(1,2) by (simp add: mult_le_cancel_left1)
  then have "int64_ok (page - 1)" "int64_ok ?s" "int64_ok (?s + sz)"
    unfolding int64_ok_def using assms s pos by linarith+
  then show "wrap64 (page - 1) = page - 1" "wrap64 ?s = ?s" "wrap64 (?s + sz) = ?s + sz"
    by (simp_all add: wrap64_ok)
qed

text \<open>The slice arithmetic of a page, once the multiplication has not wrapped.\<close>

lemma page_slice:
  assumes "1 \<le> page" and "1 \<le> sz" and "page * sz < 2 ^ 63" and "\<not> int (length xs) \<le> (page - 1) * sz"
  shows "slice_of xs ((page - 1) * sz)
      (if int (length xs) < (page - 1) * sz + sz then int (length xs) else (page - 1) * sz + sz)
    = Some (page_of page sz xs)"
proof -
  let ?s = "(page - 1) * sz"
  have pos: "0 \<le> ?s" by (rule page_arith(4) [OF assms(1-3)])
  have "drop (nat ?s) (take (nat (?s + sz)) xs) = take (nat sz) (drop (nat ?s) xs)"
    using pos assms(2) by (simp add: drop_take nat_add_distrib)
  moreover have "drop (nat ?s) xs = take (nat sz) (drop (nat ?s) xs)" if "int (length xs) < ?s + sz"
    using that pos assms(2) by (simp add: nat_le_iff)
  ultimately show ?thesis using assms(2,4) pos by (auto simp: slice_of_def page_of_def)
qed

lemma page_empty: "1 \<le> sz \<Longrightarrow> 0 \<le> (page - 1) * sz \<Longrightarrow> int (length xs) \<le> (page - 1) * sz \<Longrightarrow> page_of page sz xs = []"
  by (simp add: page_of_def nat_le_iff le_nat_iff)

lemma page_body:
  assumes "1 \<le> page" and "1 \<le> sz" and "page * sz < 2 ^ 63"
  shows "(if int (length xs) \<le> (page - 1) * sz then Some [] else slice_of xs ((page - 1) * sz)
      (if int (length xs) < (page - 1) * sz + sz then int (length xs) else (page - 1) * sz + sz))
    = Some (page_of page sz xs)"
proof (cases "int (length xs) \<le> (page - 1) * sz")
  case True
  then show ?thesis using page_empty [OF assms(2) page_arith(4) [OF assms] True] by simp
next
  case False
  then show ?thesis using page_slice [OF assms False] by (simp only: if_False)
qed

lemma slice_of_Some: "slice_of xs a b = Some ys \<Longrightarrow> set ys \<subseteq> set xs"
  by (auto simp: slice_of_def split: if_splits dest: in_set_dropD in_set_takeD)

text \<open>What the socket server relies on of a reader: a page that the arithmetic can address is
  delivered, and is no longer than asked for.\<close>

locale global_reader =
  fixes R :: GlobalReader
  assumes list_page: "1 \<le> page \<Longrightarrow> 1 \<le> sz \<Longrightarrow> page * sz < 2 ^ 63
    \<Longrightarrow> \<exists>items. gr_OnlineList R local page sz = Some items \<and> int (length items) \<le> sz"

end
