(* ===== verification/SocketManager.thy ===== *)
theory SocketManager
  imports Presence
begin

text \<open>
  Connection tracking, \<open>internal/socket/manager.go\<close>, and the connection handler of
  \<open>internal/socket/server.go\<close> that drives it.

  A \<open>*TrackedConnection\<close> is a record with an address \<open>tc_ptr\<close>: pointers are compared by address,
  and \<open>UpdatePing\<close> writes through it. A \<open>*sio.Socket\<close> is a number. Instants are nanoseconds; the
  zero \<open>time.Time\<close> is \<open>zero_time\<close>. The result type \<open>'a option\<close> of the operations that take the
  mutex says whether they return: \<open>None\<close> is a caller that waits for a lock which its own call
  chain holds.

  \<open>Socket.Disconnect\<close> belongs to the socket.io library and is the parameter \<open>D\<close>. What the code
  relies on, and the comment of \<open>Add\<close> documents, is \<open>sync_disconnect\<close>: it runs the registered
  \<open>disconnect\<close> handler before it returns, at most once per socket.
\<close>

definition ConnTypePC :: string where "ConnTypePC = ''pc''"
definition ConnTypeApp :: string where "ConnTypeApp = ''app''"

record TrackedConnection =
  tc_ptr :: nat
  tc_MetaId :: string
  tc_ConnType :: string
  tc_Socket :: nat
  tc_ConnectedAt :: int
  tc_LastPing :: int

record ConnectionManager =
  cm_locked :: bool
  cm_connections :: "(string, TrackedConnection list) gomap"
  cm_maxPC :: int
  cm_maxApp :: int
  cm_next :: nat

text \<open>The manager with the \<open>disconnect\<close> handlers that \<open>onConnection\<close> has registered, one per socket.\<close>

record hub =
  hb_manager :: ConnectionManager
  hb_handlers :: "(nat, string \<times> TrackedConnection) gomap"

type_synonym disconnect = "nat \<Rightarrow> hub \<Rightarrow> hub option"

definition NewConnectionManager :: "int \<Rightarrow> int \<Rightarrow> ConnectionManager" where
  "NewConnectionManager maxPC maxApp =
     \<lparr>cm_locked = False, cm_connections = [], cm_maxPC = maxPC, cm_maxApp = maxApp, cm_next = 0\<rparr>"

definition conns_in :: "(string, TrackedConnection list) gomap \<Rightarrow> string \<Rightarrow> TrackedConnection list" where
  "conns_in C metaId = (case gm_get C metaId of None \<Rightarrow> [] | Some cs \<Rightarrow> cs)"

definition conns_of :: "ConnectionManager \<Rightarrow> string \<Rightarrow> TrackedConnection list" where
  "conns_of m metaId = conns_in (cm_connections m) metaId"

definition mu_Lock :: "hub \<Rightarrow> hub option" where
  "mu_Lock h = (if cm_locked (hb_manager h) then None else Some (h\<lparr>hb_manager := (hb_manager h)\<lparr>cm_locked := True\<rparr>\<rparr>))"

definition mu_Unlock :: "hub \<Rightarrow> hub" where
  "mu_Unlock h = h\<lparr>hb_manager := (hb_manager h)\<lparr>cm_locked := False\<rparr>\<rparr>"

subsection \<open>Add and Remove\<close>

fun remove_first :: "('a \<Rightarrow> bool) \<Rightarrow> 'a list \<Rightarrow> 'a list" where
  "remove_first P [] = []"
| "remove_first P (x # xs) = (if P x then xs else x # remove_first P xs)"

definition ConnectionManager_removeLocked :: "string \<Rightarrow> TrackedConnection \<Rightarrow> ConnectionManager \<Rightarrow> ConnectionManager" where
  "ConnectionManager_removeLocked metaId tc m =
     (let conns = conns_of m metaId;
          m1 = (if list_ex (\<lambda>c. tc_ptr c = tc_ptr tc) conns
                then m\<lparr>cm_connections := gm_set (cm_connections m) metaId (remove_first (\<lambda>c. tc_ptr c = tc_ptr tc) conns)\<rparr>
                else m)
      in if length (conns_of m1 metaId) = 0 then m1\<lparr>cm_connections := gm_delete (cm_connections m1) metaId\<rparr> else m1)"

definition ConnectionManager_Remove :: "string \<Rightarrow> TrackedConnection \<Rightarrow> hub \<Rightarrow> hub option" where
  "ConnectionManager_Remove metaId tc h =
     map_option (\<lambda>h1. mu_Unlock (h1\<lparr>hb_manager := ConnectionManager_removeLocked metaId tc (hb_manager h1)\<rparr>)) (mu_Lock h)"

definition device_limit :: "ConnectionManager \<Rightarrow> string \<Rightarrow> int" where
  "device_limit m connType = (if connType = ConnTypeApp then cm_maxApp m else cm_maxPC m)"

definition oldest_of :: "TrackedConnection \<Rightarrow> TrackedConnection list \<Rightarrow> TrackedConnection" where
  "oldest_of c0 cs = foldl (\<lambda>oldest c. if tc_ConnectedAt c < tc_ConnectedAt oldest then c else oldest) c0 cs"

text \<open>
  The critical section of \<open>Add\<close>: the new connection and the evicted one. With a limit of zero or
  less and no connection of the type, \<open>sameType[0]\<close> is out of range; the mutex then stays locked.
\<close>

definition add_locked ::
    "string \<Rightarrow> string \<Rightarrow> nat \<Rightarrow> int \<Rightarrow> int \<Rightarrow> ConnectionManager
     \<Rightarrow> (ConnectionManager \<times> TrackedConnection \<times> TrackedConnection option) option" where
  "add_locked metaId connType sock now1 now2 m =
     (let tc = \<lparr>tc_ptr = cm_next m, tc_MetaId = metaId, tc_ConnType = connType, tc_Socket = sock,
               tc_ConnectedAt = now1, tc_LastPing = now2\<rparr>;
          m0 = m\<lparr>cm_next := cm_next m + 1\<rparr>;
          sameType = filter (\<lambda>c. tc_ConnType c = connType) (conns_of m0 metaId);
          append_tc = (\<lambda>m'. m'\<lparr>cm_connections := gm_set (cm_connections m') metaId (conns_of m' metaId @ [tc])\<rparr>)
      in if device_limit m connType \<le> int (length sameType) then
           (case sameType of
              [] \<Rightarrow> None
            | c # cs \<Rightarrow>
                (let oldest = oldest_of c sameType
                 in Some (append_tc (ConnectionManager_removeLocked metaId oldest m0), tc, Some oldest)))
         else Some (append_tc m0, tc, None))"

definition ConnectionManager_Add ::
    "disconnect \<Rightarrow> string \<Rightarrow> string \<Rightarrow> nat \<Rightarrow> int \<Rightarrow> int \<Rightarrow> hub \<Rightarrow> (TrackedConnection \<times> hub) option" where
  "ConnectionManager_Add D metaId connType sock now1 now2 h =
     (case mu_Lock h of
        None \<Rightarrow> None
      | Some h1 \<Rightarrow>
          (case add_locked metaId connType sock now1 now2 (hb_manager h1) of
             None \<Rightarrow> None
           | Some (m, tc, toDisconnect) \<Rightarrow>
               (let h2 = mu_Unlock (h1\<lparr>hb_manager := m\<rparr>)
                in case toDisconnect of
                     None \<Rightarrow> Some (tc, h2)
                   | Some old \<Rightarrow> map_option (\<lambda>h3. (tc, h3)) (D (tc_Socket old) h2))))"

subsection \<open>Queries\<close>

definition all_conns :: "ConnectionManager \<Rightarrow> TrackedConnection list" where
  "all_conns m = concat (map snd (cm_connections m))"

definition ConnectionManager_CountByType :: "string \<Rightarrow> string \<Rightarrow> ConnectionManager \<Rightarrow> nat" where
  "ConnectionManager_CountByType metaId connType m =
     length (filter (\<lambda>c. tc_ConnType c = connType) (conns_of m metaId))"

definition ConnectionManager_FindBySocket :: "nat \<Rightarrow> ConnectionManager \<Rightarrow> TrackedConnection option" where
  "ConnectionManager_FindBySocket sock m = find (\<lambda>c. tc_Socket c = sock) (all_conns m)"

definition ConnectionManager_UpdatePing :: "TrackedConnection \<Rightarrow> int \<Rightarrow> ConnectionManager \<Rightarrow> ConnectionManager" where
  "ConnectionManager_UpdatePing tc now m =
     m\<lparr>cm_connections := map (\<lambda>(k, cs). (k, map (\<lambda>c. if tc_ptr c = tc_ptr tc then c\<lparr>tc_LastPing := now\<rparr> else c) cs))
        (cm_connections m)\<rparr>"

definition ConnectionManager_TotalConnections :: "ConnectionManager \<Rightarrow> nat" where
  "ConnectionManager_TotalConnections m = foldl (\<lambda>total e. total + length (snd e)) 0 (cm_connections m)"

definition unixMilliOrZero :: "int \<Rightarrow> int" where
  "unixMilliOrZero t = (if t = zero_time then 0 else UnixMilli t)"

definition onlineListEntry :: "TrackedConnection \<Rightarrow> OnlineEntry" where
  "onlineListEntry c = \<lparr>oe_MetaId = tc_MetaId c, oe_Type = tc_ConnType c, oe_ConnectedAt = unixMilliOrZero (tc_ConnectedAt c),
     oe_LastSeenAt = 0, oe_SourceNodeIds = [], oe_Sources = 0\<rparr>"

definition ConnectionManager_onlineListEntriesLocked :: "ConnectionManager \<Rightarrow> OnlineEntry list" where
  "ConnectionManager_onlineListEntriesLocked m = map onlineListEntry (all_conns m)"

definition ConnectionManager_onlineEntriesLocked :: "ConnectionManager \<Rightarrow> OnlineEntry list" where
  "ConnectionManager_onlineEntriesLocked m =
     map (\<lambda>c. (onlineListEntry c)\<lparr>oe_LastSeenAt := unixMilliOrZero (tc_LastPing c)\<rparr>) (all_conns m)"

definition ConnectionManager_OnlineEntries :: "ConnectionManager \<Rightarrow> OnlineEntry list" where
  "ConnectionManager_OnlineEntries m = ConnectionManager_onlineEntriesLocked m"

definition ConnectionManager_OnlineList :: "int \<Rightarrow> int \<Rightarrow> ConnectionManager \<Rightarrow> OnlineEntry list option" where
  "ConnectionManager_OnlineList page sz m =
     (let entries = ConnectionManager_onlineListEntriesLocked m;
          start0 = wrap64 (wrap64 (page - 1) * sz);
          start = (if start0 < 0 then 0 else start0);
          len = int (length entries)
      in if len \<le> start then Some []
         else (let end0 = wrap64 (start + sz); end = (if len < end0 then len else end0) in slice_of entries start end))"

definition ConnectionManager_FindStaleConnections :: "int \<Rightarrow> int \<Rightarrow> ConnectionManager \<Rightarrow> TrackedConnection list" where
  "ConnectionManager_FindStaleConnections timeout now m =
     filter (\<lambda>c. timeout < time_Sub now (tc_LastPing c)) (all_conns m)"

fun disconnect_each :: "disconnect \<Rightarrow> TrackedConnection list \<Rightarrow> hub \<Rightarrow> hub option" where
  "disconnect_each D [] h = Some h"
| "disconnect_each D (c # cs) h = (case D (tc_Socket c) h of None \<Rightarrow> None | Some h1 \<Rightarrow> disconnect_each D cs h1)"

text \<open>\<open>DisconnectAll\<close> holds the mutex over its loop.\<close>

fun disconnect_groups :: "disconnect \<Rightarrow> (string \<times> TrackedConnection list) list \<Rightarrow> hub \<Rightarrow> hub option" where
  "disconnect_groups D [] h = Some h"
| "disconnect_groups D ((metaId, conns) # gs) h =
     (case disconnect_each D conns h of
        None \<Rightarrow> None
      | Some h1 \<Rightarrow>
          disconnect_groups D gs
            (h1\<lparr>hb_manager := (hb_manager h1)\<lparr>cm_connections := gm_delete (cm_connections (hb_manager h1)) metaId\<rparr>\<rparr>))"

definition ConnectionManager_DisconnectAll :: "disconnect \<Rightarrow> hub \<Rightarrow> hub option" where
  "ConnectionManager_DisconnectAll D h =
     (case mu_Lock h of
        None \<Rightarrow> None
      | Some h1 \<Rightarrow> map_option mu_Unlock (disconnect_groups D (cm_connections (hb_manager h1)) h1))"

subsection \<open>The connection handler\<close>

text \<open>\<open>query\<close> is the handshake query, a map from names to value lists.\<close>

definition query_first :: "(string, string list) gomap \<Rightarrow> string \<Rightarrow> string option" where
  "query_first query k = (case gm_get query k of Some (v # vs) \<Rightarrow> Some v | _ \<Rightarrow> None)"

definition handshake_type :: "(string, string list) gomap \<Rightarrow> string" where
  "handshake_type query =
     (case query_first query ''type'' of None \<Rightarrow> ConnTypePC | Some v \<Rightarrow> if v = ''app'' then ConnTypeApp else ConnTypePC)"

definition Server_onConnection ::
    "disconnect \<Rightarrow> nat \<Rightarrow> (string, string list) gomap \<Rightarrow> int \<Rightarrow> int \<Rightarrow> hub \<Rightarrow> hub option" where
  "Server_onConnection D sock query now1 now2 h =
     (let metaId = (case query_first query ''metaid'' of None \<Rightarrow> '''' | Some v \<Rightarrow> v)
      in if metaId = '''' then D sock h
         else
           (case ConnectionManager_Add D metaId (handshake_type query) sock now1 now2 h of
              None \<Rightarrow> None
            | Some (tc, h1) \<Rightarrow> Some (h1\<lparr>hb_handlers := gm_set (hb_handlers h1) sock (metaId, tc)\<rparr>)))"

text \<open>One tick of the cleanup goroutine of \<open>StartTimeoutCleanup\<close>.\<close>

definition cleanup_tick :: "disconnect \<Rightarrow> int \<Rightarrow> hub \<Rightarrow> hub option" where
  "cleanup_tick D now h =
     disconnect_each D (ConnectionManager_FindStaleConnections (35 * 1000000000) now (hb_manager h)) h"

text \<open>The events of a running server: a client connects, pings, goes away, or the cleanup runs.\<close>

datatype hub_event =
    Connect nat "(string, string list) gomap" int int
  | Ping nat int
  | Leave nat
  | Cleanup int

fun hub_step :: "disconnect \<Rightarrow> hub_event \<Rightarrow> hub \<Rightarrow> hub option" where
  "hub_step D (Connect sock query now1 now2) h = Server_onConnection D sock query now1 now2 h"
| "hub_step D (Ping sock now) h =
     (case gm_get (hb_handlers h) sock of
        None \<Rightarrow> Some h
      | Some (metaId, tc) \<Rightarrow>
          map_option (\<lambda>h1. mu_Unlock (h1\<lparr>hb_manager := ConnectionManager_UpdatePing tc now (hb_manager h1)\<rparr>)) (mu_Lock h))"
| "hub_step D (Leave sock) h = D sock h"
| "hub_step D (Cleanup now) h = cleanup_tick D now h"

fun hub_run :: "disconnect \<Rightarrow> hub_event list \<Rightarrow> hub \<Rightarrow> hub option" where
  "hub_run D [] h = Some h"
| "hub_run D (e # es) h = (case hub_step D e h of None \<Rightarrow> None | Some h1 \<Rightarrow> hub_run D es h1)"

definition new_hub :: "int \<Rightarrow> int \<Rightarrow> hub" where
  "new_hub maxPC maxApp = \<lparr>hb_manager = NewConnectionManager maxPC maxApp, hb_handlers = []\<rparr>"

definition sync_disconnect :: "disconnect \<Rightarrow> bool" where
  "sync_disconnect D \<longleftrightarrow>
     (\<forall>sock h. D sock h =
        (case gm_get (hb_handlers h) sock of
           None \<Rightarrow> Some h
         | Some (metaId, tc) \<Rightarrow>
             ConnectionManager_Remove metaId tc (h\<lparr>hb_handlers := gm_delete (hb_handlers h) sock\<rparr>)))"

subsection \<open>Lookups after removal and insertion\<close>

lemma conns_in_simps [simp]:
  "conns_in (gm_set C k cs) k' = (if k' = k then cs else conns_in C k')"
  "conns_in (gm_delete C k) k' = (if k' = k then [] else conns_in C k')"
  by (simp_all add: conns_in_def)

lemma conns_of_simps [simp]:
  "conns_of (m\<lparr>cm_connections := C\<rparr>) k = conns_in C k"
  "conns_of (m\<lparr>cm_next := n\<rparr>) k = conns_of m k"
  "conns_of (m\<lparr>cm_locked := b\<rparr>) k = conns_of m k"
  by (simp_all add: conns_of_def)

lemma conns_in_of [simp]: "conns_in (cm_connections m) k = conns_of m k"
  by (simp add: conns_of_def)

lemma remove_first_id: "\<not> list_ex P xs \<Longrightarrow> remove_first P xs = xs"
  by (induction xs) auto

lemma remove_first_subset: "set (remove_first P xs) \<subseteq> set xs"
  by (induction xs) auto

lemma remove_first_distinct: "distinct (map f xs) \<Longrightarrow> distinct (map f (remove_first P xs))"
  by (induction xs) (use remove_first_subset in \<open>fastforce+\<close>)

lemma remove_first_gone:
  "distinct (map f xs) \<Longrightarrow> c \<in> set (remove_first (\<lambda>x. f x = y) xs) \<longleftrightarrow> c \<in> set xs \<and> f c \<noteq> y"
  by (induction xs) (auto simp: image_iff)

lemma remove_first_count:
  assumes "distinct (map f xs)" and "x \<in> set xs" and "Q x"
  shows "Suc (length (filter Q (remove_first (\<lambda>z. f z = f x) xs))) = length (filter Q xs)"
  using assms
proof (induction xs)
  case Nil
  then show ?case by simp
next
  case (Cons z zs)
  then show ?case by (cases "f z = f x") (auto simp: image_iff)
qed

lemma remove_first_count_le: "length (filter Q (remove_first P xs)) \<le> length (filter Q xs)"
  by (induction xs) auto

lemma conns_of_removeLocked:
  "conns_of (ConnectionManager_removeLocked k tc m) k'
     = (if k' = k then remove_first (\<lambda>c. tc_ptr c = tc_ptr tc) (conns_of m k) else conns_of m k')"
  by (auto simp: ConnectionManager_removeLocked_def Let_def remove_first_id)

lemma removeLocked_fields [simp]:
  "cm_locked (ConnectionManager_removeLocked k tc m) = cm_locked m"
  "cm_maxPC (ConnectionManager_removeLocked k tc m) = cm_maxPC m"
  "cm_maxApp (ConnectionManager_removeLocked k tc m) = cm_maxApp m"
  "cm_next (ConnectionManager_removeLocked k tc m) = cm_next m"
  by (simp_all add: ConnectionManager_removeLocked_def Let_def)

subsection \<open>The invariant of the manager\<close>

definition conns_ok :: "ConnectionManager \<Rightarrow> string \<Rightarrow> TrackedConnection list \<Rightarrow> bool" where
  "conns_ok m k cs \<longleftrightarrow> distinct (map tc_ptr cs) \<and> (\<forall>c \<in> set cs. tc_MetaId c = k \<and> tc_ptr c < cm_next m)
     \<and> (\<forall>t. int (length (filter (\<lambda>c. tc_ConnType c = t) cs)) \<le> device_limit m t)"

definition mgr_ok :: "ConnectionManager \<Rightarrow> bool" where
  "mgr_ok m \<longleftrightarrow> gm_ok (cm_connections m) \<and> (\<forall>(k, cs) \<in> set (cm_connections m). cs \<noteq> [])
     \<and> (\<forall>k. conns_ok m k (conns_of m k))"

lemma device_limit_cong:
  "cm_maxPC m' = cm_maxPC m \<Longrightarrow> cm_maxApp m' = cm_maxApp m \<Longrightarrow> device_limit m' t = device_limit m t"
  by (simp add: device_limit_def)

lemma conns_ok_cong:
  assumes "cm_maxPC m' = cm_maxPC m" and "cm_maxApp m' = cm_maxApp m" and "cm_next m' = cm_next m"
  shows "conns_ok m' k cs \<longleftrightarrow> conns_ok m k cs"
  using assms(3) by (simp add: conns_ok_def device_limit_cong [OF assms(1,2)])

lemma conns_ok_removed:
  assumes "conns_ok m k cs" and "cm_maxPC m' = cm_maxPC m" "cm_maxApp m' = cm_maxApp m" "cm_next m' = cm_next m"
  shows "conns_ok m' k (remove_first P cs)"
  unfolding conns_ok_def
proof (intro conjI allI)
  show "distinct (map tc_ptr (remove_first P cs))"
    using assms(1) by (simp add: conns_ok_def remove_first_distinct)
  show "\<forall>c \<in> set (remove_first P cs). tc_MetaId c = k \<and> tc_ptr c < cm_next m'"
    using assms remove_first_subset [of P cs] by (auto simp: conns_ok_def)
  fix t
  have "int (length (filter (\<lambda>c. tc_ConnType c = t) cs)) \<le> device_limit m' t"
    using assms by (simp add: conns_ok_def device_limit_cong [OF assms(2,3)])
  with remove_first_count_le [of "\<lambda>c. tc_ConnType c = t" P cs]
  show "int (length (filter (\<lambda>c. tc_ConnType c = t) (remove_first P cs))) \<le> device_limit m' t" by linarith
qed

lemma gm_set_nonempty: "\<forall>(k, cs) \<in> set m. cs \<noteq> [] \<Longrightarrow> v \<noteq> [] \<Longrightarrow> \<forall>(k, cs) \<in> set (gm_set m k' v). cs \<noteq> []"
  by (induction m) (auto split: if_splits)

lemma removeLocked_nonempty:
  assumes "gm_ok (cm_connections m)" and "\<forall>(k, cs) \<in> set (cm_connections m). cs \<noteq> []"
  shows "gm_ok (cm_connections (ConnectionManager_removeLocked k tc m))
    \<and> (\<forall>(k', cs) \<in> set (cm_connections (ConnectionManager_removeLocked k tc m)). cs \<noteq> [])"
proof -
  define m1 where "m1 = (if list_ex (\<lambda>c. tc_ptr c = tc_ptr tc) (conns_of m k)
      then m\<lparr>cm_connections := gm_set (cm_connections m) k (remove_first (\<lambda>c. tc_ptr c = tc_ptr tc) (conns_of m k))\<rparr> else m)"
  have g: "gm_ok (cm_connections m1)" using assms(1) by (simp add: m1_def)
  have ne: "cs \<noteq> []" if "(k', cs) \<in> set (cm_connections m1)" "k' \<noteq> k \<or> conns_of m1 k \<noteq> []" for k' cs
  proof (cases "k' = k")
    case True
    then have "conns_of m1 k = cs" using that(1) g by (simp add: conns_of_def conns_in_def gm_get_iff [OF g, symmetric] del: conns_in_of)
    with that True show ?thesis by simp
  next
    case False
    then have "(k', cs) \<in> set (cm_connections m)"
      using that(1) set_gm_set_subset by (fastforce simp: m1_def split: if_splits)
    with assms(2) show ?thesis by auto
  qed
  show ?thesis
    unfolding ConnectionManager_removeLocked_def Let_def m1_def [symmetric]
    using g ne by (auto simp: set_gm_delete)
qed

lemma mgr_ok_removeLocked:
  assumes "mgr_ok m" shows "mgr_ok (ConnectionManager_removeLocked k tc m)"
proof -
  have ok: "conns_ok m k' (conns_of m k')" for k' using assms by (simp add: mgr_ok_def)
  have "conns_ok (ConnectionManager_removeLocked k tc m) k' (conns_of (ConnectionManager_removeLocked k tc m) k')" for k'
    using conns_ok_removed [OF ok [of k]] ok [of k']
    by (simp add: conns_of_removeLocked conns_ok_cong [of "ConnectionManager_removeLocked k tc m" m])
  moreover have "gm_ok (cm_connections m)" "\<forall>(k, cs) \<in> set (cm_connections m). cs \<noteq> []"
    using assms by (simp_all add: mgr_ok_def)
  ultimately show ?thesis using removeLocked_nonempty [of m k tc] by (simp add: mgr_ok_def)
qed


subsection \<open>Adding a connection\<close>

lemma oldest_of_min:
  "oldest_of c0 cs \<in> insert c0 (set cs)
   \<and> (\<forall>c \<in> insert c0 (set cs). tc_ConnectedAt (oldest_of c0 cs) \<le> tc_ConnectedAt c)"
proof (induction cs arbitrary: c0)
  case Nil
  then show ?case by (simp add: oldest_of_def)
next
  case (Cons c cs)
  let ?c1 = "if tc_ConnectedAt c < tc_ConnectedAt c0 then c else c0"
  have "oldest_of c0 (c # cs) = oldest_of ?c1 cs" by (simp add: oldest_of_def)
  with Cons.IH [of ?c1] show ?case by (auto split: if_splits)
qed

definition after_eviction :: "TrackedConnection option \<Rightarrow> TrackedConnection list \<Rightarrow> TrackedConnection list" where
  "after_eviction ev cs = (case ev of None \<Rightarrow> cs | Some old \<Rightarrow> remove_first (\<lambda>c. tc_ptr c = tc_ptr old) cs)"

text \<open>What the critical section of \<open>Add\<close> promises.\<close>

definition add_spec ::
    "string \<Rightarrow> string \<Rightarrow> nat \<Rightarrow> int \<Rightarrow> int \<Rightarrow> ConnectionManager
     \<Rightarrow> ConnectionManager \<times> TrackedConnection \<times> TrackedConnection option \<Rightarrow> bool" where
  "add_spec metaId connType sock now1 now2 m r \<longleftrightarrow>
     (let (m', tc, ev) = r; cs = conns_of m metaId; same = filter (\<lambda>c. tc_ConnType c = connType) cs
      in tc = \<lparr>tc_ptr = cm_next m, tc_MetaId = metaId, tc_ConnType = connType, tc_Socket = sock,
               tc_ConnectedAt = now1, tc_LastPing = now2\<rparr>
       \<and> (\<forall>k. conns_of m' k = (if k = metaId then after_eviction ev cs @ [tc] else conns_of m k))
       \<and> (case ev of
            None \<Rightarrow> int (length same) < device_limit m connType
          | Some old \<Rightarrow> device_limit m connType \<le> int (length same) \<and> old \<in> set same
              \<and> (\<forall>c \<in> set same. tc_ConnectedAt old \<le> tc_ConnectedAt c))
       \<and> cm_locked m' = cm_locked m \<and> cm_maxPC m' = cm_maxPC m \<and> cm_maxApp m' = cm_maxApp m \<and> cm_next m' = cm_next m + 1)"

lemma add_locked_spec:
  assumes "1 \<le> device_limit m connType"
  shows "\<exists>r. add_locked metaId connType sock now1 now2 m = Some r \<and> add_spec metaId connType sock now1 now2 m r"
proof -
  let ?same = "filter (\<lambda>c. tc_ConnType c = connType) (conns_of m metaId)"
  show ?thesis
  proof (cases "device_limit m connType \<le> int (length ?same)")
    case False
    then show ?thesis
      by (auto simp: add_locked_def add_spec_def Let_def after_eviction_def)
  next
    case True
    then obtain c cs where cs: "?same = c # cs" using assms by (cases ?same) auto
    then show ?thesis using True oldest_of_min [of c ?same]
      by (auto simp: add_locked_def add_spec_def Let_def after_eviction_def conns_of_removeLocked)
  qed
qed

lemma add_spec_count:
  assumes "add_spec k t sock n1 n2 m (m', tc, ev)" and ok: "conns_ok m k (conns_of m k)"
  shows "int (length (filter (\<lambda>c. tc_ConnType c = t') (after_eviction ev (conns_of m k) @ [tc]))) \<le> device_limit m t'"
proof -
  have d: "distinct (map tc_ptr (conns_of m k))" using ok by (simp add: conns_ok_def)
  have lim: "int (length (filter (\<lambda>c. tc_ConnType c = t') (conns_of m k))) \<le> device_limit m t'"
    using ok by (simp add: conns_ok_def)
  show ?thesis
  proof (cases ev)
    case None
    then show ?thesis using assms(1) lim by (auto simp: add_spec_def Let_def after_eviction_def)
  next
    case (Some old)
    then have old: "old \<in> set (conns_of m k)" "tc_ConnType old = t" "tc_ConnType tc = t"
      using assms(1) by (auto simp: add_spec_def Let_def)
    show ?thesis
    proof (cases "t' = t")
      case True
      then show ?thesis
        using remove_first_count [OF d old(1), of "\<lambda>c. tc_ConnType c = t"] lim old Some
        by (simp add: after_eviction_def)
    next
      case False
      then show ?thesis
        using remove_first_count_le [of "\<lambda>c. tc_ConnType c = t'"  "\<lambda>c. tc_ptr c = tc_ptr old" "conns_of m k"] lim old Some
        by (simp add: after_eviction_def)
    qed
  qed
qed

lemma add_spec_conns_ok:
  assumes sp: "add_spec k t sock n1 n2 m (m', tc, ev)" and ok: "\<forall>k. conns_ok m k (conns_of m k)"
  shows "conns_ok m' k' (conns_of m' k')"
proof -
  have f: "cm_maxPC m' = cm_maxPC m" "cm_maxApp m' = cm_maxApp m" "cm_next m' = cm_next m + 1"
    "tc_ptr tc = cm_next m" "tc_MetaId tc = k" using sp by (simp_all add: add_spec_def Let_def)
  have c: "conns_of m' k' = (if k' = k then after_eviction ev (conns_of m k) @ [tc] else conns_of m k')"
    using sp by (simp add: add_spec_def Let_def)
  have sub: "set (after_eviction ev cs) \<subseteq> set cs" for cs
    using remove_first_subset by (fastforce simp: after_eviction_def split: option.splits)
  have dist: "distinct (map tc_ptr (after_eviction ev (conns_of m k)))"
    using ok by (auto simp: after_eviction_def conns_ok_def remove_first_distinct split: option.split)
  have old: "conns_ok m k' (conns_of m k')" using ok by blast
  show ?thesis
  proof (cases "k' = k")
    case True
    have lt: "\<forall>c \<in> set (after_eviction ev (conns_of m k)). tc_MetaId c = k \<and> tc_ptr c < cm_next m"
      using old sub True unfolding conns_ok_def by blast
    then show ?thesis
      using dist add_spec_count [OF sp] ok f unfolding c conns_ok_def device_limit_cong [OF f(1,2)]
      by (auto simp: True)
  next
    case False
    then show ?thesis using old f unfolding c conns_ok_def device_limit_cong [OF f(1,2)] by auto
  qed
qed

lemma add_locked_wf:
  assumes "add_locked k t sock n1 n2 m = Some (m', tc, ev)"
    and "gm_ok (cm_connections m)" and "\<forall>(k, cs) \<in> set (cm_connections m). cs \<noteq> []"
  shows "gm_ok (cm_connections m') \<and> (\<forall>(k, cs) \<in> set (cm_connections m'). cs \<noteq> [])"
proof -
  obtain m1 where m1: "gm_ok (cm_connections m1)" "\<forall>(k, cs) \<in> set (cm_connections m1). cs \<noteq> []"
    and m': "m' = m1\<lparr>cm_connections := gm_set (cm_connections m1) k (conns_of m1 k @ [tc])\<rparr>"
  proof (cases ev)
    case None
    then show ?thesis using that [of "m\<lparr>cm_next := cm_next m + 1\<rparr>"] assms
      by (auto simp: add_locked_def Let_def split: if_splits list.splits)
  next
    case (Some old)
    let ?m1 = "ConnectionManager_removeLocked k old (m\<lparr>cm_next := cm_next m + 1\<rparr>)"
    show ?thesis
      using that [of ?m1] removeLocked_nonempty [of "m\<lparr>cm_next := cm_next m + 1\<rparr>" k old] assms Some
      by (auto simp: add_locked_def Let_def split: if_splits list.splits)
  qed
  then show ?thesis using gm_set_nonempty [OF m1(2), of "conns_of m1 k @ [tc]" k] by simp
qed

lemma mgr_ok_add:
  assumes "mgr_ok m" and "1 \<le> device_limit m t"
  obtains m' tc ev where "add_locked k t sock n1 n2 m = Some (m', tc, ev)"
    and "add_spec k t sock n1 n2 m (m', tc, ev)" and "mgr_ok m'"
proof -
  obtain m' tc ev where a: "add_locked k t sock n1 n2 m = Some (m', tc, ev)"
    and sp: "add_spec k t sock n1 n2 m (m', tc, ev)"
    using add_locked_spec [OF assms(2)] by (metis prod_cases3)
  have "mgr_ok m'"
    using add_locked_wf [OF a] add_spec_conns_ok [OF sp] assms(1) unfolding mgr_ok_def by blast
  with a sp that show thesis by blast
qed

subsection \<open>The hub\<close>

lemma removeLocked_locked [simp]:
  "ConnectionManager_removeLocked k tc (m\<lparr>cm_locked := b\<rparr>) = (ConnectionManager_removeLocked k tc m)\<lparr>cm_locked := b\<rparr>"
  by (simp add: ConnectionManager_removeLocked_def Let_def)

lemma mgr_ok_locked [simp]: "mgr_ok (m\<lparr>cm_locked := b\<rparr>) \<longleftrightarrow> mgr_ok m"
  by (simp add: mgr_ok_def conns_ok_def device_limit_def)

lemma locked_same [simp]: "\<not> cm_locked m \<Longrightarrow> m\<lparr>cm_locked := False\<rparr> = m"
  by simp

definition hub_ok :: "hub \<Rightarrow> bool" where
  "hub_ok h \<longleftrightarrow> mgr_ok (hb_manager h) \<and> \<not> cm_locked (hb_manager h)"

lemma Remove_eq:
  "\<not> cm_locked (hb_manager h)
   \<Longrightarrow> ConnectionManager_Remove k tc h = Some (h\<lparr>hb_manager := ConnectionManager_removeLocked k tc (hb_manager h)\<rparr>)"
  by (simp add: ConnectionManager_Remove_def mu_Lock_def mu_Unlock_def)

lemma Disconnect_eq:
  assumes "sync_disconnect D" and "\<not> cm_locked (hb_manager h)"
  shows "D s h = Some (case gm_get (hb_handlers h) s of
      None \<Rightarrow> h
    | Some (k, tc) \<Rightarrow> h\<lparr>hb_manager := ConnectionManager_removeLocked k tc (hb_manager h),
                        hb_handlers := gm_delete (hb_handlers h) s\<rparr>)"
  using assms by (auto simp: sync_disconnect_def Remove_eq split: option.split)

text \<open>Every tracked connection has its \<open>disconnect\<close> handler registered on its socket.\<close>

definition handled :: "hub \<Rightarrow> bool" where
  "handled h \<longleftrightarrow> (\<forall>k. \<forall>c \<in> set (conns_of (hb_manager h) k).
     \<exists>tc. gm_get (hb_handlers h) (tc_Socket c) = Some (k, tc) \<and> tc_ptr tc = tc_ptr c)"

definition limits_of :: "hub \<Rightarrow> int \<times> int" where
  "limits_of h = (cm_maxPC (hb_manager h), cm_maxApp (hb_manager h))"

lemma conns_of_distinct: "mgr_ok m \<Longrightarrow> distinct (map tc_ptr (conns_of m k))"
  by (simp add: mgr_ok_def conns_ok_def)

lemma handled_removed:
  assumes ok: "mgr_ok (hb_manager h)" and hd: "handled h" and s: "gm_get (hb_handlers h) s = Some (k, tc)"
  shows "handled (h\<lparr>hb_manager := ConnectionManager_removeLocked k tc (hb_manager h),
                    hb_handlers := gm_delete (hb_handlers h) s\<rparr>)"
  unfolding handled_def
proof (intro allI ballI)
  fix k' c
  assume c: "c \<in> set (conns_of (hb_manager (h\<lparr>hb_manager := ConnectionManager_removeLocked k tc (hb_manager h),
                    hb_handlers := gm_delete (hb_handlers h) s\<rparr>)) k')"
  then have mem: "c \<in> set (conns_of (hb_manager h) k')" and ne: "k' = k \<longrightarrow> tc_ptr c \<noteq> tc_ptr tc"
    using remove_first_gone [OF conns_of_distinct [OF ok, of k]] by (auto simp: conns_of_removeLocked split: if_splits)
  from hd mem obtain tc' where tc': "gm_get (hb_handlers h) (tc_Socket c) = Some (k', tc')" "tc_ptr tc' = tc_ptr c"
    by (auto simp: handled_def)
  with ne s have "tc_Socket c \<noteq> s" by auto
  with tc' show "\<exists>tca. gm_get (hb_handlers (h\<lparr>hb_manager := ConnectionManager_removeLocked k tc (hb_manager h),
      hb_handlers := gm_delete (hb_handlers h) s\<rparr>)) (tc_Socket c) = Some (k', tca) \<and> tc_ptr tca = tc_ptr c"
    by simp
qed

lemma Disconnect_ok:
  assumes "sync_disconnect D" and "hub_ok h"
  obtains h' where "D s h = Some h'" and "hub_ok h'" and "handled h \<Longrightarrow> handled h'"
    and "limits_of h' = limits_of h" and "gm_keys (hb_handlers h') = filter (\<lambda>x. x \<noteq> s) (gm_keys (hb_handlers h))"
proof -
  have u: "\<not> cm_locked (hb_manager h)" "mgr_ok (hb_manager h)" using assms(2) by (simp_all add: hub_ok_def)
  have keys: "gm_keys (gm_delete m s) = filter (\<lambda>x. x \<noteq> s) (gm_keys m)" for m :: "(nat, string \<times> TrackedConnection) gomap"
    by (induction m) (auto simp: gm_keys_def gm_delete_def)
  show thesis
  proof (cases "gm_get (hb_handlers h) s")
    case None
    then have "filter (\<lambda>x. x \<noteq> s) (gm_keys (hb_handlers h)) = gm_keys (hb_handlers h)"
      by (auto simp: gm_get_None_iff gm_keys_def filter_id_conv)
    with None show ?thesis using that [of h] Disconnect_eq [OF assms(1) u(1), of s] assms(2) by simp
  next
    case (Some p)
    obtain k tc where p: "p = (k, tc)" by (cases p)
    show ?thesis
      by (rule that [OF Disconnect_eq [OF assms(1) u(1), of s]])
        (use u Some p handled_removed [OF u(2)] mgr_ok_removeLocked keys in \<open>auto simp: hub_ok_def limits_of_def\<close>)
  qed
qed

definition handler_socks :: "hub \<Rightarrow> nat set" where
  "handler_socks h = set (gm_keys (hb_handlers h))"

lemma disconnect_each_ok:
  assumes "sync_disconnect D" and "hub_ok h"
  shows "\<exists>h'. disconnect_each D cs h = Some h' \<and> hub_ok h' \<and> (handled h \<longrightarrow> handled h')
    \<and> limits_of h' = limits_of h \<and> handler_socks h' \<subseteq> handler_socks h"
  using assms(2)
proof (induction cs arbitrary: h)
  case Nil
  then show ?case by simp
next
  case (Cons c cs)
  obtain h1 where h1: "D (tc_Socket c) h = Some h1" "hub_ok h1" "handled h \<Longrightarrow> handled h1" "limits_of h1 = limits_of h"
    "handler_socks h1 \<subseteq> handler_socks h"
    by (rule Disconnect_ok [OF assms(1) Cons.prems, of "tc_Socket c"]) (auto simp: handler_socks_def)
  from Cons.IH [OF h1(2)] h1 show ?case by auto
qed

text \<open>The state of the hub after \<open>Add\<close> for a metaid.\<close>

definition added_hub :: "hub \<Rightarrow> ConnectionManager \<Rightarrow> hub" where
  "added_hub h m' = h\<lparr>hb_manager := m'\<lparr>cm_locked := False\<rparr>\<rparr>"

lemma add_locked_locked:
  "add_locked k t sock n1 n2 (m\<lparr>cm_locked := b\<rparr>)
     = map_option (\<lambda>(m', r). (m'\<lparr>cm_locked := b\<rparr>, r)) (add_locked k t sock n1 n2 m)"
proof -
  have c: "ConnectionManager_removeLocked k old (m\<lparr>cm_locked := b, cm_next := n\<rparr>)
      = (ConnectionManager_removeLocked k old (m\<lparr>cm_next := n\<rparr>))\<lparr>cm_locked := b\<rparr>" for old n
    by (simp add: ConnectionManager_removeLocked_def Let_def)
  show ?thesis
    by (auto simp: add_locked_def Let_def c device_limit_def split: list.split)
qed

lemma handled_added:
  assumes hd: "handled h" and fresh: "tc_Socket tc \<notin> handler_socks h"
    and conns: "\<And>k' c. c \<in> set (conns_of (hb_manager h') k') \<Longrightarrow> (k' = k \<and> c = tc) \<or>
      (c \<in> set (conns_of (hb_manager h) k') \<and> gm_get (hb_handlers h') (tc_Socket c) = gm_get (hb_handlers h) (tc_Socket c))"
  shows "handled (h'\<lparr>hb_handlers := gm_set (hb_handlers h') (tc_Socket tc) (k, tc)\<rparr>)"
  unfolding handled_def
proof (intro allI ballI)
  fix k' c
  assume "c \<in> set (conns_of (hb_manager (h'\<lparr>hb_handlers := gm_set (hb_handlers h') (tc_Socket tc) (k, tc)\<rparr>)) k')"
  then have cm: "c \<in> set (conns_of (hb_manager h') k')" by simp
  show "\<exists>tc'. gm_get (hb_handlers (h'\<lparr>hb_handlers := gm_set (hb_handlers h') (tc_Socket tc) (k, tc)\<rparr>)) (tc_Socket c)
      = Some (k', tc') \<and> tc_ptr tc' = tc_ptr c"
  proof (cases "k' = k \<and> c = tc")
    case False
    then have c: "c \<in> set (conns_of (hb_manager h) k')"
      "gm_get (hb_handlers h') (tc_Socket c) = gm_get (hb_handlers h) (tc_Socket c)" using conns [OF cm] by auto
    then obtain tc' where tc': "gm_get (hb_handlers h) (tc_Socket c) = Some (k', tc')" "tc_ptr tc' = tc_ptr c"
      using hd by (auto simp: handled_def)
    then have "tc_Socket c \<noteq> tc_Socket tc"
      using fresh gm_get_mem [of "hb_handlers h" "tc_Socket c"] by (force simp: handler_socks_def gm_keys_def)
    with tc' c(2) show ?thesis by auto
  qed simp
qed

text \<open>What \<open>Add\<close> does to a hub whose tracked connections all have their handler.\<close>

definition add_result :: "string \<Rightarrow> TrackedConnection \<Rightarrow> TrackedConnection option \<Rightarrow> hub \<Rightarrow> hub \<Rightarrow> bool" where
  "add_result k tc ev h h' \<longleftrightarrow>
     (\<forall>k'. conns_of (hb_manager h') k'
        = (if k' = k then after_eviction ev (conns_of (hb_manager h) k) @ [tc] else conns_of (hb_manager h) k'))
   \<and> hb_handlers h' = (case ev of None \<Rightarrow> hb_handlers h | Some old \<Rightarrow> gm_delete (hb_handlers h) (tc_Socket old))"

lemma handled_add_result:
  assumes "add_result k tc ev h h'" and hd: "handled h" and "tc_Socket tc \<notin> handler_socks h"
    and ok: "mgr_ok (hb_manager h)" and old: "\<And>x. ev = Some x \<Longrightarrow> x \<in> set (conns_of (hb_manager h) k)"
  shows "handled (h'\<lparr>hb_handlers := gm_set (hb_handlers h') (tc_Socket tc) (k, tc)\<rparr>)"
proof (rule handled_added [OF hd assms(3)])
  fix k' c
  assume c: "c \<in> set (conns_of (hb_manager h') k')"
  show "(k' = k \<and> c = tc) \<or> (c \<in> set (conns_of (hb_manager h) k')
      \<and> gm_get (hb_handlers h') (tc_Socket c) = gm_get (hb_handlers h) (tc_Socket c))"
  proof (cases ev)
    case None
    then show ?thesis using c assms(1) by (auto simp: add_result_def after_eviction_def split: if_splits)
  next
    case (Some x)
    have x: "x \<in> set (conns_of (hb_manager h) k)" using old [OF Some] .
    have "c \<in> set (conns_of (hb_manager h) k') \<and> \<not> (k' = k \<and> tc_ptr c = tc_ptr x)" if "\<not> (k' = k \<and> c = tc)"
      using c assms(1) that Some remove_first_gone [OF conns_of_distinct [OF ok, of k], of c "tc_ptr x"]
      by (auto simp: add_result_def after_eviction_def split: if_splits)
    moreover have "tc_Socket c \<noteq> tc_Socket x"
      if "c \<in> set (conns_of (hb_manager h) k')" "\<not> (k' = k \<and> tc_ptr c = tc_ptr x)"
      using hd x that unfolding handled_def by (metis Pair_inject option.inject)
    ultimately show ?thesis using assms(1) Some by (auto simp: add_result_def)
  qed
qed

lemma Add_ok:
  assumes D: "sync_disconnect D" and ok: "hub_ok h" and lim: "1 \<le> device_limit (hb_manager h) t"
  obtains m' tc ev h' where
    "add_spec k t sock n1 n2 (hb_manager h) (m', tc, ev)"
    and "ConnectionManager_Add D k t sock n1 n2 h = Some (tc, h')"
    and "hub_ok h'" and "limits_of h' = limits_of h" and "handler_socks h' \<subseteq> handler_socks h"
    and "handled h \<Longrightarrow> add_result k tc ev h h'"
proof -
  have u: "\<not> cm_locked (hb_manager h)" "mgr_ok (hb_manager h)" using ok by (simp_all add: hub_ok_def)
  obtain m' tc ev where a: "add_locked k t sock n1 n2 (hb_manager h) = Some (m', tc, ev)"
    and sp: "add_spec k t sock n1 n2 (hb_manager h) (m', tc, ev)" and ok': "mgr_ok m'"
    using mgr_ok_add [OF u(2) lim] by metis
  let ?h2 = "h\<lparr>hb_manager := m'\<rparr>"
  have f: "\<not> cm_locked m'" "cm_maxPC m' = cm_maxPC (hb_manager h)" "cm_maxApp m' = cm_maxApp (hb_manager h)"
    using sp u(1) by (simp_all add: add_spec_def Let_def)
  have h2: "hub_ok ?h2" using ok' f by (simp add: hub_ok_def)
  have add: "ConnectionManager_Add D k t sock n1 n2 h =
      (case ev of None \<Rightarrow> Some (tc, ?h2) | Some old \<Rightarrow> map_option (\<lambda>h3. (tc, h3)) (D (tc_Socket old) ?h2))"
    using a f(1) u(1) by (simp add: ConnectionManager_Add_def mu_Lock_def mu_Unlock_def add_locked_locked Let_def)
  have conns: "conns_of m' k' = (if k' = k then after_eviction ev (conns_of (hb_manager h) k) @ [tc] else conns_of (hb_manager h) k')" for k'
    using sp by (simp add: add_spec_def Let_def)
  show thesis
  proof (cases ev)
    case None
    show ?thesis
      by (rule that [OF sp, of ?h2]) (use None add h2 f conns in \<open>auto simp: limits_of_def handler_socks_def add_result_def\<close>)
  next
    case (Some old)
    have old: "old \<in> set (conns_of (hb_manager h) k)" "tc_ptr tc = cm_next (hb_manager h)"
      using sp Some by (auto simp: add_spec_def Let_def)
    then have lt: "tc_ptr old \<noteq> tc_ptr tc" using u(2) unfolding mgr_ok_def conns_ok_def by (metis less_irrefl)
    obtain h' where h': "D (tc_Socket old) ?h2 = Some h'" "hub_ok h'" "limits_of h' = limits_of ?h2"
      "handler_socks h' \<subseteq> handler_socks ?h2"
      by (rule Disconnect_ok [OF D h2, of "tc_Socket old"]) (auto simp: handler_socks_def)
    have "add_result k tc ev h h'" if hd: "handled h"
    proof -
      obtain tc' where tc': "gm_get (hb_handlers h) (tc_Socket old) = Some (k, tc')" "tc_ptr tc' = tc_ptr old"
        using hd old(1) unfolding handled_def by blast
      have "\<not> list_ex (\<lambda>c. tc_ptr c = tc_ptr old) (after_eviction ev (conns_of (hb_manager h) k) @ [tc])"
        using remove_first_gone [OF conns_of_distinct [OF u(2), of k], of _ "tc_ptr old"] lt Some
        by (auto simp: list_ex_iff after_eviction_def)
      then show ?thesis using Disconnect_eq [OF D, of ?h2 "tc_Socket old"] f(1) tc' h'(1) Some conns
        by (auto simp: add_result_def conns_of_removeLocked remove_first_id)
    qed
    with that [OF sp, of h'] h' add Some f show ?thesis by (auto simp: limits_of_def handler_socks_def)
  qed
qed

fun connect_socks :: "hub_event list \<Rightarrow> nat list" where
  "connect_socks [] = []"
| "connect_socks (Connect sock query now1 now2 # es) = sock # connect_socks es"
| "connect_socks (e # es) = connect_socks es"

definition pinged :: "TrackedConnection \<Rightarrow> int \<Rightarrow> TrackedConnection \<Rightarrow> TrackedConnection" where
  "pinged tc now c = (if tc_ptr c = tc_ptr tc then c\<lparr>tc_LastPing := now\<rparr> else c)"

lemma pinged_simps [simp]:
  "tc_ptr (pinged tc now c) = tc_ptr c" "tc_MetaId (pinged tc now c) = tc_MetaId c"
  "tc_ConnType (pinged tc now c) = tc_ConnType c" "tc_Socket (pinged tc now c) = tc_Socket c"
  by (simp_all add: pinged_def)

lemma UpdatePing_eq:
  "ConnectionManager_UpdatePing tc now m
     = m\<lparr>cm_connections := map (\<lambda>(k, cs). (k, map (pinged tc now) cs)) (cm_connections m)\<rparr>"
  by (simp add: ConnectionManager_UpdatePing_def pinged_def [abs_def])

lemma UpdatePing_conns: "conns_of (ConnectionManager_UpdatePing tc now m) k = map (pinged tc now) (conns_of m k)"
proof -
  have "map_of (map (\<lambda>(k, cs). (k, f cs)) C) k = map_option f (map_of C k)" for f :: "TrackedConnection list \<Rightarrow> TrackedConnection list" and C :: "(string, TrackedConnection list) gomap"
    by (induction C) auto
  then have "conns_in (map (\<lambda>(k, cs). (k, map (pinged tc now) cs)) C) k = map (pinged tc now) (conns_in C k)" for C
    by (simp add: conns_in_def gm_get_def split: option.split)
  then show ?thesis by (simp add: UpdatePing_eq)
qed

lemma UpdatePing_ok: "mgr_ok m \<Longrightarrow> mgr_ok (ConnectionManager_UpdatePing tc now m)"
proof -
  assume ok: "mgr_ok m"
  have cnt: "length (filter (\<lambda>c. tc_ConnType c = t) (map (pinged tc now) cs)) = length (filter (\<lambda>c. tc_ConnType c = t) cs)" for t cs
    by (induction cs) auto
  have lim: "device_limit (ConnectionManager_UpdatePing tc now m) t = device_limit m t" for t
    by (simp add: device_limit_def UpdatePing_eq)
  have nx: "cm_next (ConnectionManager_UpdatePing tc now m) = cm_next m" by (simp add: UpdatePing_eq)
  have "conns_ok (ConnectionManager_UpdatePing tc now m) k (map (pinged tc now) cs) \<longleftrightarrow> conns_ok m k cs" for k cs
    unfolding conns_ok_def cnt lim nx by (simp add: comp_def)
  moreover have "gm_ok (cm_connections (ConnectionManager_UpdatePing tc now m))"
    using ok by (simp add: mgr_ok_def gm_ok_def UpdatePing_eq comp_def case_prod_unfold)
  moreover have "\<forall>(k, cs) \<in> set (cm_connections (ConnectionManager_UpdatePing tc now m)). cs \<noteq> []"
    using ok by (auto simp: mgr_ok_def UpdatePing_eq)
  ultimately show ?thesis using ok by (simp add: mgr_ok_def UpdatePing_conns)
qed

lemma ping_step_ok:
  assumes "hub_ok h"
  shows "\<exists>h'. hub_step D (Ping s now) h = Some h' \<and> hub_ok h' \<and> limits_of h' = limits_of h
    \<and> (handled h \<longrightarrow> handled h') \<and> handler_socks h' = handler_socks h"
proof (cases "gm_get (hb_handlers h) s")
  case None
  then show ?thesis using assms by simp
next
  case (Some p)
  obtain k tc where p: "p = (k, tc)" by (cases p)
  let ?m = "ConnectionManager_UpdatePing tc now (hb_manager h)"
  have l: "ConnectionManager_UpdatePing tc now (m\<lparr>cm_locked := b\<rparr>) = (ConnectionManager_UpdatePing tc now m)\<lparr>cm_locked := b\<rparr>" for m b
    by (simp add: ConnectionManager_UpdatePing_def)
  have u: "\<not> cm_locked ?m" "cm_maxPC ?m = cm_maxPC (hb_manager h)" "cm_maxApp ?m = cm_maxApp (hb_manager h)"
    using assms by (simp_all add: hub_ok_def ConnectionManager_UpdatePing_def)
  have "hub_step D (Ping s now) h = Some (h\<lparr>hb_manager := ?m\<rparr>)"
    using Some p assms u(1) by (simp add: mu_Lock_def mu_Unlock_def hub_ok_def l)
  moreover have "hub_ok (h\<lparr>hb_manager := ?m\<rparr>)" using assms UpdatePing_ok u(1) by (simp add: hub_ok_def)
  moreover have "handled h \<Longrightarrow> handled (h\<lparr>hb_manager := ?m\<rparr>)"
    by (auto simp: handled_def UpdatePing_conns)
  ultimately show ?thesis using u by (simp add: limits_of_def handler_socks_def)
qed

lemma connect_step_ok:
  assumes D: "sync_disconnect D" and ok: "hub_ok h" and lim: "1 \<le> cm_maxPC (hb_manager h)" "1 \<le> cm_maxApp (hb_manager h)"
  shows "\<exists>h'. hub_step D (Connect s q n1 n2) h = Some h' \<and> hub_ok h' \<and> limits_of h' = limits_of h
    \<and> (handled h \<longrightarrow> s \<notin> handler_socks h \<longrightarrow> handled h') \<and> handler_socks h' \<subseteq> insert s (handler_socks h)"
proof (cases "(case query_first q ''metaid'' of None \<Rightarrow> '''' | Some v \<Rightarrow> v) = ''''")
  case True
  obtain h' where "D s h = Some h'" "hub_ok h'" "handled h \<Longrightarrow> handled h'" "limits_of h' = limits_of h"
      "handler_socks h' \<subseteq> handler_socks h"
    by (rule Disconnect_ok [OF D ok, of s]) (auto simp: handler_socks_def)
  with True show ?thesis by (auto simp: Server_onConnection_def Let_def)
next
  case False
  let ?k = "case query_first q ''metaid'' of None \<Rightarrow> '''' | Some v \<Rightarrow> v"
  have "1 \<le> device_limit (hb_manager h) (handshake_type q)" using lim by (simp add: device_limit_def)
  then obtain m' tc ev h' where
    sp: "add_spec ?k (handshake_type q) s n1 n2 (hb_manager h) (m', tc, ev)"
    and A: "ConnectionManager_Add D ?k (handshake_type q) s n1 n2 h = Some (tc, h')"
      "hub_ok h'" "limits_of h' = limits_of h" "handler_socks h' \<subseteq> handler_socks h"
      "handled h \<Longrightarrow> add_result ?k tc ev h h'"
    by (rule Add_ok [OF D ok, where k = ?k and sock = s and ?n1.0 = n1 and ?n2.0 = n2]) metis
  let ?h' = "h'\<lparr>hb_handlers := gm_set (hb_handlers h') s (?k, tc)\<rparr>"
  have sock: "tc_Socket tc = s" "\<And>x. ev = Some x \<Longrightarrow> x \<in> set (conns_of (hb_manager h) ?k)"
    using sp by (auto simp: add_spec_def Let_def)
  have "hub_step D (Connect s q n1 n2) h = Some ?h'"
    using False A(1) by (simp add: Server_onConnection_def Let_def)
  moreover have "handled ?h'" if "handled h" "s \<notin> handler_socks h"
    using handled_add_result [OF A(5) [OF that(1)] that(1) _ _ sock(2)] sock(1) that(2) ok by (simp add: hub_ok_def)
  ultimately show ?thesis using A by (auto simp: hub_ok_def limits_of_def handler_socks_def gm_keys_def)
qed

lemma hub_step_ok:
  assumes D: "sync_disconnect D" and ok: "hub_ok h" and lim: "1 \<le> cm_maxPC (hb_manager h)" "1 \<le> cm_maxApp (hb_manager h)"
  shows "\<exists>h'. hub_step D e h = Some h' \<and> hub_ok h' \<and> limits_of h' = limits_of h
    \<and> (handled h \<longrightarrow> set (connect_socks [e]) \<inter> handler_socks h = {} \<longrightarrow> handled h')
    \<and> handler_socks h' \<subseteq> set (connect_socks [e]) \<union> handler_socks h"
proof (cases e)
  case (Connect s q n1 n2)
  then show ?thesis using connect_step_ok [OF D ok lim, of s q n1 n2] by auto
next
  case (Ping s now)
  then show ?thesis using ping_step_ok [OF ok, of D s now] by auto
next
  case (Leave s)
  obtain h' where "D s h = Some h'" "hub_ok h'" "handled h \<Longrightarrow> handled h'" "limits_of h' = limits_of h"
      "handler_socks h' \<subseteq> handler_socks h"
    by (rule Disconnect_ok [OF D ok, of s]) (auto simp: handler_socks_def)
  with Leave show ?thesis by auto
next
  case (Cleanup now)
  then show ?thesis using disconnect_each_ok [OF D ok] by (auto simp: cleanup_tick_def)
qed

lemma connect_socks_Cons: "connect_socks (e # es) = connect_socks [e] @ connect_socks es"
  by (cases e) simp_all

lemma hub_run_ok:
  assumes D: "sync_disconnect D" and "hub_ok h" and "1 \<le> cm_maxPC (hb_manager h)" and "1 \<le> cm_maxApp (hb_manager h)"
  shows "\<exists>h'. hub_run D es h = Some h' \<and> hub_ok h' \<and> limits_of h' = limits_of h
    \<and> (handled h \<longrightarrow> distinct (connect_socks es) \<longrightarrow> set (connect_socks es) \<inter> handler_socks h = {} \<longrightarrow> handled h')"
  using assms(2-)
proof (induction es arbitrary: h)
  case Nil
  then show ?case by simp
next
  case (Cons e es)
  obtain h1 where h1: "hub_step D e h = Some h1" "hub_ok h1" "limits_of h1 = limits_of h"
    "handled h \<longrightarrow> set (connect_socks [e]) \<inter> handler_socks h = {} \<longrightarrow> handled h1"
    "handler_socks h1 \<subseteq> set (connect_socks [e]) \<union> handler_socks h"
    using hub_step_ok [OF D Cons.prems] by blast
  then have "1 \<le> cm_maxPC (hb_manager h1)" "1 \<le> cm_maxApp (hb_manager h1)"
    using Cons.prems(2,3) by (simp_all add: limits_of_def)
  from Cons.IH [OF h1(2) this] obtain h2 where h2: "hub_run D es h1 = Some h2" "hub_ok h2" "limits_of h2 = limits_of h1"
    "handled h1 \<longrightarrow> distinct (connect_socks es) \<longrightarrow> set (connect_socks es) \<inter> handler_socks h1 = {} \<longrightarrow> handled h2" by blast
  have "handled h2" if "handled h" "distinct (connect_socks (e # es))" "set (connect_socks (e # es)) \<inter> handler_socks h = {}"
  proof -
    have d: "distinct (connect_socks es)" "set (connect_socks [e]) \<inter> set (connect_socks es) = {}"
      "set (connect_socks [e]) \<inter> handler_socks h = {}" "set (connect_socks es) \<inter> handler_socks h = {}"
      using that(2,3) by (auto simp: connect_socks_Cons [of e es])
    then show ?thesis using h1(4,5) h2(4) that(1) by blast
  qed
  with h1 h2 show ?case by simp
qed

lemma new_hub_ok: "hub_ok (new_hub p a)" if "1 \<le> p" "1 \<le> a"
  using that by (auto simp: hub_ok_def new_hub_def NewConnectionManager_def mgr_ok_def conns_ok_def conns_of_def
      conns_in_def device_limit_def simp del: conns_in_of)

lemma new_hub_handled: "handled (new_hub p a)" "handler_socks (new_hub p a) = {}"
  by (simp_all add: handled_def new_hub_def NewConnectionManager_def conns_of_def conns_in_def
      handler_socks_def gm_keys_def del: conns_in_of)

lemma reachable_ok:
  assumes "sync_disconnect D" and "1 \<le> p" and "1 \<le> a"
  shows "\<exists>h. hub_run D es (new_hub p a) = Some h \<and> hub_ok h \<and> limits_of h = (p, a)
    \<and> (distinct (connect_socks es) \<longrightarrow> handled h)"
  using hub_run_ok [OF assms(1) new_hub_ok [OF assms(2,3)], of es] assms(2,3) new_hub_handled [of p a]
  by (simp add: limits_of_def new_hub_def NewConnectionManager_def)

lemma DisconnectAll_blocks:
  assumes D: "sync_disconnect D" and ok: "hub_ok h" and hd: "handled h" and ne: "all_conns (hb_manager h) \<noteq> []"
  shows "ConnectionManager_DisconnectAll D h = None"
proof -
  let ?l = "h\<lparr>hb_manager := (hb_manager h)\<lparr>cm_locked := True\<rparr>\<rparr>"
  have u: "mgr_ok (hb_manager h)" "\<not> cm_locked (hb_manager h)" using ok by (simp_all add: hub_ok_def)
  obtain k c cs gs where g: "cm_connections (hb_manager h) = (k, c # cs) # gs"
    using ne u(1) by (cases "cm_connections (hb_manager h)") (auto simp: all_conns_def mgr_ok_def neq_Nil_conv)
  then have "c \<in> set (conns_of (hb_manager h) k)" by (simp add: conns_of_def conns_in_def gm_get_def del: conns_in_of)
  then obtain tc where "gm_get (hb_handlers h) (tc_Socket c) = Some (k, tc)" using hd by (auto simp: handled_def)
  then have "D (tc_Socket c) ?l = None"
    using D by (simp add: sync_disconnect_def ConnectionManager_Remove_def mu_Lock_def)
  then show ?thesis using u(2) g by (simp add: ConnectionManager_DisconnectAll_def mu_Lock_def)
qed

text \<open>A disconnect that behaves as documented, for concrete runs.\<close>

definition direct_disconnect :: disconnect where
  "direct_disconnect sock h =
     (case gm_get (hb_handlers h) sock of
        None \<Rightarrow> Some h
      | Some (metaId, tc) \<Rightarrow>
          ConnectionManager_Remove metaId tc (h\<lparr>hb_handlers := gm_delete (hb_handlers h) sock\<rparr>))"

lemma direct_disconnect_sync: "sync_disconnect direct_disconnect"
  by (simp add: sync_disconnect_def direct_disconnect_def)

definition two_apps :: "hub_event list" where
  "two_apps = [Connect 1 [(''metaid'', [''alice'']), (''type'', [''app''])] 10 10,
               Connect 2 [(''metaid'', [''alice'']), (''type'', [''app''])] 20 20]"

lemma OnlineList_page:
  assumes "1 \<le> page" and "1 \<le> sz" and "page * sz < 2 ^ 63"
  shows "ConnectionManager_OnlineList page sz m = Some (page_of page sz (ConnectionManager_onlineListEntriesLocked m))"
  unfolding ConnectionManager_OnlineList_def Let_def page_arith(1,2,3) [OF assms]
    if_not_P [OF page_arith(4) [OF assms, folded linorder_not_less]] by (rule page_body [OF assms])

subsection \<open>Properties\<close>

text \<open>C5: with positive limits, no sequence of connects, pings, disconnects and cleanup ticks makes the
  server wait on its own mutex, and afterwards no user has more connections of a type than the
  limit of that type.\<close>

lemma device_limits_hold:
  assumes "sync_disconnect D" and "1 \<le> maxPC" and "1 \<le> maxApp"
  shows "\<exists>h. hub_run D es (new_hub maxPC maxApp) = Some h
    \<and> int (ConnectionManager_CountByType metaId ConnTypePC (hb_manager h)) \<le> maxPC
    \<and> int (ConnectionManager_CountByType metaId ConnTypeApp (hb_manager h)) \<le> maxApp"
proof -
  obtain h where h: "hub_run D es (new_hub maxPC maxApp) = Some h" "mgr_ok (hb_manager h)" "limits_of h = (maxPC, maxApp)"
    using reachable_ok [OF assms] unfolding hub_ok_def by blast
  then have "int (ConnectionManager_CountByType metaId t (hb_manager h)) \<le> device_limit (hb_manager h) t" for t
    by (simp add: mgr_ok_def conns_ok_def ConnectionManager_CountByType_def)
  from this [of ConnTypePC] this [of ConnTypeApp] h show ?thesis
    by (simp add: device_limit_def limits_of_def ConnTypePC_def ConnTypeApp_def)
qed

theorem device_limits_hold_witness:
  "\<exists>h. hub_run direct_disconnect two_apps (new_hub 3 1) = Some h
    \<and> int (ConnectionManager_CountByType ''alice'' ConnTypePC (hb_manager h)) \<le> 3
    \<and> int (ConnectionManager_CountByType ''alice'' ConnTypeApp (hb_manager h)) \<le> 1"
  by (rule device_limits_hold [OF direct_disconnect_sync]) simp_all

text \<open>A user at the limit of a connection type who connects once more, on a fresh socket, loses
  exactly the connection of that type that was opened first; the new connection is tracked, and
  every other connection of every user is untouched.\<close>

lemma connect_evicts_oldest:
  assumes "sync_disconnect D" and "1 \<le> maxPC" and "1 \<le> maxApp"
    and "hub_run D es (new_hub maxPC maxApp) = Some h" and "distinct (connect_socks es)"
    and "query_first query ''metaid'' = Some metaId" and "metaId \<noteq> []"
    and "ConnectionManager_CountByType metaId (handshake_type query) (hb_manager h)
      = nat (device_limit (hb_manager h) (handshake_type query))"
  shows "\<exists>h' tc old. Server_onConnection D sock query now1 now2 h = Some h'
    \<and> tc_ConnectedAt tc = now1 \<and> tc_ConnType tc = handshake_type query \<and> tc_Socket tc = sock
    \<and> old \<in> set (conns_of (hb_manager h) metaId) \<and> tc_ConnType old = handshake_type query
    \<and> (\<forall>c \<in> set (conns_of (hb_manager h) metaId). tc_ConnType c = handshake_type query \<longrightarrow> tc_ConnectedAt old \<le> tc_ConnectedAt c)
    \<and> (\<forall>k. conns_of (hb_manager h') k =
         (if k = metaId then remove_first (\<lambda>c. tc_ptr c = tc_ptr old) (conns_of (hb_manager h) metaId) @ [tc]
          else conns_of (hb_manager h) k))"
proof -
  let ?t = "handshake_type query"
  have h: "hub_ok h" "limits_of h = (maxPC, maxApp)" "handled h"
    using reachable_ok [OF assms(1,2,3), of es] assms(4,5) by auto
  have lim: "1 \<le> device_limit (hb_manager h) ?t" using h(2) assms(2,3) by (simp add: device_limit_def limits_of_def)
  obtain m' tc ev h' where sp: "add_spec metaId ?t sock now1 now2 (hb_manager h) (m', tc, ev)"
    and A: "ConnectionManager_Add D metaId ?t sock now1 now2 h = Some (tc, h')" "add_result metaId tc ev h h'"
    using Add_ok [OF assms(1) h(1) lim, of metaId sock now1 now2] h(3) by metis
  have "device_limit (hb_manager h) ?t \<le> int (length (filter (\<lambda>c. tc_ConnType c = ?t) (conns_of (hb_manager h) metaId)))"
    using assms(8) lim by (simp add: ConnectionManager_CountByType_def)
  then obtain old where ev: "ev = Some old" using sp by (auto simp: add_spec_def Let_def split: option.splits)
  have "Server_onConnection D sock query now1 now2 h = Some (h'\<lparr>hb_handlers := gm_set (hb_handlers h') sock (metaId, tc)\<rparr>)"
    using A(1) assms(6,7) by (simp add: Server_onConnection_def Let_def)
  with sp A(2) ev show ?thesis
    by (intro exI [of _ "h'\<lparr>hb_handlers := gm_set (hb_handlers h') sock (metaId, tc)\<rparr>"] exI [of _ tc] exI [of _ old])
      (auto simp: add_spec_def Let_def add_result_def after_eviction_def)
qed

definition one_app_hub :: hub where
  "one_app_hub = the (hub_run direct_disconnect [hd two_apps] (new_hub 3 1))"

theorem connect_evicts_oldest_witness:
  "\<exists>h' tc old. Server_onConnection direct_disconnect 2 [(''metaid'', [''alice'']), (''type'', [''app''])] 20 20 one_app_hub = Some h'
    \<and> tc_ConnectedAt tc = 20 \<and> tc_ConnType tc = handshake_type [(''metaid'', [''alice'']), (''type'', [''app''])] \<and> tc_Socket tc = 2
    \<and> old \<in> set (conns_of (hb_manager one_app_hub) ''alice'') \<and> tc_ConnType old = handshake_type [(''metaid'', [''alice'']), (''type'', [''app''])]
    \<and> (\<forall>c \<in> set (conns_of (hb_manager one_app_hub) ''alice''). tc_ConnType c = handshake_type [(''metaid'', [''alice'']), (''type'', [''app''])] \<longrightarrow> tc_ConnectedAt old \<le> tc_ConnectedAt c)
    \<and> (\<forall>k. conns_of (hb_manager h') k =
         (if k = ''alice'' then remove_first (\<lambda>c. tc_ptr c = tc_ptr old) (conns_of (hb_manager one_app_hub) ''alice'') @ [tc]
          else conns_of (hb_manager one_app_hub) k))"
  by (rule connect_evicts_oldest [OF direct_disconnect_sync, of 3 1 "[hd two_apps]"]) code_simp+

text \<open>C39: \<open>DisconnectAll\<close>, which \<open>Shutdown\<close> calls, never returns while a connection is tracked: it
  holds the manager's mutex while it disconnects a socket, and the socket's \<open>disconnect\<close> handler
  takes the same mutex. \<open>Add\<close> avoids this by disconnecting after it has unlocked.\<close>

lemma disconnect_all_blocks:
  assumes "sync_disconnect D" and "1 \<le> maxPC" and "1 \<le> maxApp"
    and "hub_run D es (new_hub maxPC maxApp) = Some h" and "distinct (connect_socks es)"
    and "0 < ConnectionManager_TotalConnections (hb_manager h)"
  shows "ConnectionManager_DisconnectAll D h = None"
proof -
  have h: "hub_ok h" "handled h" using reachable_ok [OF assms(1,2,3), of es] assms(4,5) by auto
  have "foldl (\<lambda>total e. total + length (snd e)) n C = n + length (concat (map snd C))" for n and C :: "(string, TrackedConnection list) gomap"
    by (induction C arbitrary: n) auto
  then have "all_conns (hb_manager h) \<noteq> []"
    using assms(6) by (auto simp: ConnectionManager_TotalConnections_def all_conns_def)
  then show ?thesis by (rule DisconnectAll_blocks [OF assms(1) h])
qed

theorem disconnect_all_blocks_witness: "ConnectionManager_DisconnectAll direct_disconnect one_app_hub = None"
  by (rule disconnect_all_blocks [OF direct_disconnect_sync, of 3 1 "[hd two_apps]"]) code_simp+

text \<open>Page \<open>n\<close> of the local online list holds the entries from \<open>(n - 1) * size\<close> on, at most \<open>size\<close> of
  them, whenever \<open>page * size\<close> fits in 64 bits.\<close>

lemma online_list_page:
  assumes "1 \<le> page" and "1 \<le> sz" and "page * sz < 2 ^ 63"
  shows "ConnectionManager_OnlineList page sz m = Some (page_of page sz (ConnectionManager_onlineListEntriesLocked m))"
  using assms by (rule OnlineList_page)

theorem online_list_page_witness:
  "ConnectionManager_OnlineList 1 20 (hb_manager one_app_hub)
    = Some (page_of 1 20 (ConnectionManager_onlineListEntriesLocked (hb_manager one_app_hub)))"
  by (rule online_list_page) simp_all

end
