(* ===== verification/FedStore.thy ===== *)
theory FedStore
  imports Presence
begin

text \<open>
  The federation store, \<open>internal/federation/store.go\<close>: accepted peers, their last presence snapshot,
  and the merged global presence list.

  The methods are modelled on a non-nil receiver (on \<open>nil\<close> each returns its empty result). The
  clock is the argument \<open>now\<close>. \<open>cloneRegistryNode\<close> and \<open>cloneSnapshot\<close> copy slices so that callers
  cannot write into the store; on HOL values a copy is the value itself. The maps \<open>peers\<close>, \<open>snapshots\<close> and
  \<open>entriesByKey\<close> are lists whose order stands for Go's iteration order.
\<close>

definition defaultLocalNodeID :: string where "defaultLocalNodeID = ''local''"

record RegistryNode =
  rn_Protocol :: string
  rn_Version :: string
  rn_NodeID :: string
  rn_Network :: string
  rn_PublicBaseURL :: string
  rn_SocketURL :: string
  rn_PresenceURL :: string
  rn_PublicKey :: string
  rn_Capabilities :: "string list"
  rn_PublishedAt :: int
  rn_ValidUntil :: int

record Store =
  fs_localNodeID :: string
  fs_enabled :: bool
  fs_defaultScope :: string
  fs_peers :: "(string, RegistryNode) gomap"
  fs_snapshots :: "(string, Snapshot) gomap"

definition WithStoreEnabled :: "bool \<Rightarrow> Store \<Rightarrow> Store" where
  "WithStoreEnabled b s = s\<lparr>fs_enabled := b\<rparr>"

definition WithStoreDefaultScope :: "string \<Rightarrow> Store \<Rightarrow> Store" where
  "WithStoreDefaultScope scope s = (if scope = ''local'' \<or> scope = ''global'' then s\<lparr>fs_defaultScope := scope\<rparr> else s)"

definition NewStore :: "string \<Rightarrow> (Store \<Rightarrow> Store) list \<Rightarrow> Store" where
  "NewStore localNodeID opts =
     (let s = foldl (\<lambda>s opt. opt s)
          \<lparr>fs_localNodeID = (if localNodeID = '''' then defaultLocalNodeID else localNodeID),
           fs_enabled = True, fs_defaultScope = ''global'', fs_peers = [], fs_snapshots = []\<rparr> opts
      in if fs_defaultScope s \<noteq> ''local'' \<and> fs_defaultScope s \<noteq> ''global'' then s\<lparr>fs_defaultScope := ''global''\<rparr> else s)"

definition Store_DefaultScope :: "Store \<Rightarrow> string" where
  "Store_DefaultScope s = (if fs_defaultScope s = '''' then ''local'' else if fs_defaultScope s \<noteq> ''global'' then ''local'' else ''global'')"

definition Store_UpsertPeer :: "RegistryNode \<Rightarrow> Store \<Rightarrow> Store" where
  "Store_UpsertPeer peer s =
     (if rn_NodeID peer = '''' then s else s\<lparr>fs_peers := gm_set (fs_peers s) (rn_NodeID peer) peer\<rparr>)"

definition Store_RemovePeer :: "string \<Rightarrow> Store \<Rightarrow> Store" where
  "Store_RemovePeer nodeID s =
     (if nodeID = '''' then s
      else s\<lparr>fs_peers := gm_delete (fs_peers s) nodeID, fs_snapshots := gm_delete (fs_snapshots s) nodeID\<rparr>)"

definition Store_Peer :: "string \<Rightarrow> Store \<Rightarrow> RegistryNode option" where
  "Store_Peer nodeID s = (if nodeID = '''' then None else gm_get (fs_peers s) nodeID)"

definition peerExpired :: "RegistryNode \<Rightarrow> int \<Rightarrow> bool" where
  "peerExpired peer now \<longleftrightarrow> 0 < rn_ValidUntil peer \<and> rn_ValidUntil peer < UnixMilli now"

text \<open>\<open>sort.Slice\<close> by node ID: the entries of the map have distinct keys, so the result is unique.\<close>

definition Store_ActivePeers :: "int \<Rightarrow> Store \<Rightarrow> RegistryNode list" where
  "Store_ActivePeers now s = sort_key rn_NodeID (filter (\<lambda>p. \<not> peerExpired p now) (map snd (fs_peers s)))"

definition Store_UpsertSnapshot :: "Snapshot \<Rightarrow> Store \<Rightarrow> Store" where
  "Store_UpsertSnapshot snapshot s =
     (if sn_NodeID snapshot = '''' then s
      else s\<lparr>fs_snapshots := gm_set (fs_snapshots s) (sn_NodeID snapshot) snapshot\<rparr>)"

definition Store_Snapshot :: "string \<Rightarrow> Store \<Rightarrow> Snapshot option" where
  "Store_Snapshot nodeID s = (if nodeID = '''' then None else gm_get (fs_snapshots s) nodeID)"

definition snapshotExpired :: "Snapshot \<Rightarrow> int \<Rightarrow> bool" where
  "snapshotExpired snapshot now \<longleftrightarrow>
     wrap64 (sn_GeneratedAt snapshot + wrap64 (sn_TTLSeconds snapshot * 1000)) < UnixMilli now"

definition Store_activeSnapshots :: "int \<Rightarrow> Store \<Rightarrow> Snapshot list" where
  "Store_activeSnapshots now s =
     sort_key sn_NodeID (map snd (filter
       (\<lambda>(nodeID, snapshot).
          nodeID \<noteq> fs_localNodeID s
        \<and> (case gm_get (fs_peers s) nodeID of None \<Rightarrow> False | Some peer \<Rightarrow> \<not> peerExpired peer now)
        \<and> \<not> snapshotExpired snapshot now) (fs_snapshots s)))"

subsection \<open>Aggregation\<close>

record aggregateEntry =
  ag_entry :: OnlineEntry
  ag_sourceSeen :: "string list"
  ag_sourceCount :: int

record aggregateResult =
  ar_items :: "OnlineEntry list"
  ar_totalConnections :: nat
  ar_uniqueMetaIds :: nat

definition set_add :: "'a \<Rightarrow> 'a list \<Rightarrow> 'a list" where
  "set_add x xs = (if x \<in> set xs then xs else xs @ [x])"

definition agg_key :: "OnlineEntry \<Rightarrow> string" where
  "agg_key item = oe_MetaId item @ [CHR 0x00] @ oe_Type item"

definition merge_observation :: "OnlineEntry \<Rightarrow> string \<Rightarrow> aggregateEntry \<Rightarrow> aggregateEntry" where
  "merge_observation item nodeID a =
     (let e = ag_entry a;
          e1 = (if oe_ConnectedAt item \<noteq> 0 \<and> (oe_ConnectedAt e = 0 \<or> oe_ConnectedAt item < oe_ConnectedAt e)
                then e\<lparr>oe_ConnectedAt := oe_ConnectedAt item\<rparr> else e);
          e2 = (if oe_LastSeenAt e1 < oe_LastSeenAt item then e1\<lparr>oe_LastSeenAt := oe_LastSeenAt item\<rparr> else e1)
      in \<lparr>ag_entry = e2, ag_sourceSeen = set_add nodeID (ag_sourceSeen a), ag_sourceCount = ag_sourceCount a + 1\<rparr>)"

definition new_aggregate :: "OnlineEntry \<Rightarrow> string \<Rightarrow> aggregateEntry" where
  "new_aggregate item nodeID =
     \<lparr>ag_entry = \<lparr>oe_MetaId = oe_MetaId item, oe_Type = oe_Type item, oe_ConnectedAt = oe_ConnectedAt item,
        oe_LastSeenAt = oe_LastSeenAt item, oe_SourceNodeIds = [], oe_Sources = 0\<rparr>,
      ag_sourceSeen = [nodeID], ag_sourceCount = 1\<rparr>"

definition addAggregateObservation ::
    "(string, aggregateEntry) gomap \<Rightarrow> OnlineEntry \<Rightarrow> string \<Rightarrow> (string, aggregateEntry) gomap" where
  "addAggregateObservation entriesByKey item nodeID0 =
     (let nodeID = (if nodeID0 = '''' then defaultLocalNodeID else nodeID0); key = agg_key item
      in case gm_get entriesByKey key of
           None \<Rightarrow> gm_set entriesByKey key (new_aggregate item nodeID)
         | Some a \<Rightarrow> gm_set entriesByKey key (merge_observation item nodeID a))"

definition sortedSourceNodeIDs :: "string list \<Rightarrow> string list" where
  "sortedSourceNodeIDs sourceSeen = sort sourceSeen"

text \<open>The order of \<open>sort.SliceStable\<close>: newest first, then metaid, then type. \<open>sort_key\<close> is stable.\<close>

definition presence_rank :: "OnlineEntry \<Rightarrow> int \<times> string \<times> string" where
  "presence_rank e = (- oe_LastSeenAt e, oe_MetaId e, oe_Type e)"

definition finish_aggregate :: "aggregateEntry \<Rightarrow> OnlineEntry" where
  "finish_aggregate a =
     (ag_entry a)\<lparr>oe_Sources := ag_sourceCount a, oe_SourceNodeIds := sortedSourceNodeIDs (ag_sourceSeen a)\<rparr>"

definition observations :: "OnlineEntry list \<Rightarrow> Snapshot list \<Rightarrow> string \<Rightarrow> (OnlineEntry \<times> string) list" where
  "observations local snapshots localNodeID =
     map (\<lambda>item. (item, localNodeID)) local @ concat (map (\<lambda>sn. map (\<lambda>item. (item, sn_NodeID sn)) (sn_Items sn)) snapshots)"

definition aggregatePresence :: "OnlineEntry list \<Rightarrow> Snapshot list \<Rightarrow> string \<Rightarrow> aggregateResult" where
  "aggregatePresence local snapshots localNodeID0 =
     (let localNodeID = (if localNodeID0 = '''' then defaultLocalNodeID else localNodeID0);
          obs = observations local snapshots localNodeID;
          entriesByKey = foldl (\<lambda>m (item, node). addAggregateObservation m item node) [] obs;
          uniqueMetaIds = foldl (\<lambda>u (item, node). set_add (oe_MetaId item) u) [] obs
      in \<lparr>ar_items = sort_key presence_rank (map (\<lambda>(k, a). finish_aggregate a) entriesByKey),
          ar_totalConnections = length obs,
          ar_uniqueMetaIds = length uniqueMetaIds\<rparr>)"

definition paginatePresence :: "OnlineEntry list \<Rightarrow> int \<Rightarrow> int \<Rightarrow> OnlineEntry list option" where
  "paginatePresence items page0 size0 =
     (let page = (if page0 < 1 then 1 else page0);
          sz = (if size0 < 1 then 20 else size0);
          start = wrap64 (wrap64 (page - 1) * sz);
          len = int (length items)
      in if len \<le> start then Some []
         else (let end0 = wrap64 (start + sz) in slice_of items start (if len < end0 then len else end0)))"

definition Store_GlobalOnline :: "OnlineEntry list \<Rightarrow> int \<Rightarrow> Store \<Rightarrow> OnlineEntry list" where
  "Store_GlobalOnline local now s = ar_items (aggregatePresence local (Store_activeSnapshots now s) (fs_localNodeID s))"

definition Store_OnlineList :: "OnlineEntry list \<Rightarrow> int \<Rightarrow> int \<Rightarrow> int \<Rightarrow> Store \<Rightarrow> OnlineEntry list option" where
  "Store_OnlineList local page sz now s = paginatePresence (Store_GlobalOnline local now s) page sz"

definition Store_StatsAt :: "OnlineEntry list \<Rightarrow> int \<Rightarrow> Store \<Rightarrow> GlobalStats" where
  "Store_StatsAt local now s =
     (let snapshots = Store_activeSnapshots now s; result = aggregatePresence local snapshots (fs_localNodeID s)
      in \<lparr>gs_TotalConnections = ar_totalConnections result, gs_UniqueMetaIds = ar_uniqueMetaIds result,
          gs_Nodes = 1 + length snapshots\<rparr>)"

text \<open>The store as the \<open>presence.GlobalReader\<close> of the socket server, read at the instant \<open>now\<close>.\<close>

definition Store_reader :: "int \<Rightarrow> Store \<Rightarrow> GlobalReader" where
  "Store_reader now s =
     \<lparr>gr_Enabled = fs_enabled s, gr_DefaultScope = Store_DefaultScope s,
      gr_OnlineList = (\<lambda>local page sz. Store_OnlineList local page sz now s),
      gr_Stats = (\<lambda>local. Store_StatsAt local now s)\<rparr>"

subsection \<open>What the aggregation computes\<close>

definition norm_node :: "string \<Rightarrow> string" where
  "norm_node n = (if n = '''' then defaultLocalNodeID else n)"

text \<open>The smallest non-zero time stamp, or zero.\<close>

definition earliest :: "int list \<Rightarrow> int" where
  "earliest ts = (let nz = filter (\<lambda>t. t \<noteq> 0) ts in if nz = [] then 0 else Min (set nz))"

definition latest :: "int list \<Rightarrow> int" where
  "latest ts = Max (set ts)"

definition obs_of :: "string \<Rightarrow> (OnlineEntry \<times> string) list \<Rightarrow> (OnlineEntry \<times> string) list" where
  "obs_of k obs = filter (\<lambda>(item, node). agg_key item = k) obs"

text \<open>The merged entry of a non-empty list of observations of one key.\<close>

definition merged_entry :: "(OnlineEntry \<times> string) list \<Rightarrow> OnlineEntry" where
  "merged_entry os =
     \<lparr>oe_MetaId = oe_MetaId (fst (hd os)), oe_Type = oe_Type (fst (hd os)),
      oe_ConnectedAt = earliest (map (oe_ConnectedAt \<circ> fst) os),
      oe_LastSeenAt = latest (map (oe_LastSeenAt \<circ> fst) os),
      oe_SourceNodeIds = sorted_list_of_set (set (map (norm_node \<circ> snd) os)),
      oe_Sources = int (length os)\<rparr>"

lemma earliest_snoc:
  "earliest (ts @ [t]) = (if t \<noteq> 0 \<and> (earliest ts = 0 \<or> t < earliest ts) then t else earliest ts)"
proof (cases "filter (\<lambda>t. t \<noteq> 0) ts = []")
  case True
  then show ?thesis by (simp add: earliest_def Let_def)
next
  case False
  then have "Min (set (filter (\<lambda>t. t \<noteq> 0) ts)) \<in> set (filter (\<lambda>t. t \<noteq> 0) ts)" by (metis Min_in List.finite_set set_empty)
  then have nz: "earliest ts \<noteq> 0" "earliest ts = Min (set (filter (\<lambda>t. t \<noteq> 0) ts))"
    using False by (auto simp: earliest_def Let_def)
  let ?S = "set (filter (\<lambda>t. t \<noteq> 0) ts)"
  have "Min (insert t ?S) = min t (Min ?S)" using False by (intro Min_insert) (simp_all del: set_filter)
  then have "earliest (ts @ [t]) = (if t = 0 then earliest ts else min t (earliest ts))"
    unfolding nz(2) by (simp add: earliest_def Let_def False del: set_filter)
  with nz(1) show ?thesis by (auto simp: min_def)
qed

lemma latest_snoc: "ts \<noteq> [] \<Longrightarrow> latest (ts @ [t]) = (if latest ts < t then t else latest ts)"
proof -
  assume "ts \<noteq> []"
  then have "latest (ts @ [t]) = max t (latest ts)" by (simp add: latest_def)
  then show ?thesis by (simp add: max_def)
qed

definition agg_state :: "(OnlineEntry \<times> string) list \<Rightarrow> aggregateEntry \<Rightarrow> bool" where
  "agg_state os a \<longleftrightarrow> ag_entry a = (merged_entry os)\<lparr>oe_SourceNodeIds := [], oe_Sources := 0\<rparr>
     \<and> distinct (ag_sourceSeen a) \<and> set (ag_sourceSeen a) = set (map (norm_node \<circ> snd) os)
     \<and> ag_sourceCount a = int (length os)"

lemma agg_state_new: "agg_state [(item, n)] (new_aggregate item (norm_node n))"
  by (simp add: agg_state_def new_aggregate_def merged_entry_def earliest_def latest_def)

lemma agg_state_merge:
  assumes "agg_state os a" and "os \<noteq> []"
  shows "agg_state (os @ [(item, n)]) (merge_observation item (norm_node n) a)"
proof -
  have e: "ag_entry a = (merged_entry os)\<lparr>oe_SourceNodeIds := [], oe_Sources := 0\<rparr>"
    using assms(1) by (simp add: agg_state_def)
  have "ag_entry (merge_observation item (norm_node n) a)
      = (merged_entry (os @ [(item, n)]))\<lparr>oe_SourceNodeIds := [], oe_Sources := 0\<rparr>"
    using assms(2) by (simp add: merged_entry_def merge_observation_def Let_def e earliest_snoc latest_snoc)
  with assms(1) show ?thesis by (auto simp: agg_state_def merge_observation_def Let_def set_add_def)
qed

lemma finish_agg_state: "agg_state os a \<Longrightarrow> finish_aggregate a = merged_entry os"
proof -
  assume a: "agg_state os a"
  then have "sort (ag_sourceSeen a) = sorted_list_of_set (set (map (norm_node \<circ> snd) os))"
    unfolding agg_state_def by (metis sorted_list_of_set_sort_remdups distinct_remdups_id)
  with a show ?thesis by (simp add: finish_aggregate_def sortedSourceNodeIDs_def agg_state_def merged_entry_def)
qed

definition agg_map :: "(OnlineEntry \<times> string) list \<Rightarrow> (string, aggregateEntry) gomap" where
  "agg_map obs = foldl (\<lambda>m (item, node). addAggregateObservation m item node) [] obs"

lemma agg_map_snoc: "agg_map (obs @ [(item, node)]) = addAggregateObservation (agg_map obs) item node"
  by (simp add: agg_map_def)

lemma obs_of_snoc: "obs_of k (obs @ [(item, n)]) = (if agg_key item = k then obs_of k obs @ [(item, n)] else obs_of k obs)"
  by (simp add: obs_of_def)

lemma agg_map_get:
  "(obs_of k obs = [] \<longrightarrow> gm_get (agg_map obs) k = None)
   \<and> (obs_of k obs \<noteq> [] \<longrightarrow> (\<exists>a. gm_get (agg_map obs) k = Some a \<and> agg_state (obs_of k obs) a))"
proof (induction obs rule: rev_induct)
  case Nil
  then show ?case by (simp add: agg_map_def obs_of_def)
next
  case (snoc o1 obs)
  obtain item n where o1: "o1 = (item, n)" by (cases o1)
  show ?case
  proof (cases "agg_key item = k")
    case True
    then show ?thesis using snoc agg_state_new [of item n] agg_state_merge [of "obs_of k obs" _ item n]
      unfolding o1 agg_map_snoc obs_of_snoc
      by (cases "obs_of k obs = []")
        (auto simp: addAggregateObservation_def Let_def norm_node_def)
  next
    case False
    then show ?thesis using snoc unfolding o1 agg_map_snoc obs_of_snoc
      by (auto simp: addAggregateObservation_def Let_def split: option.splits)
  qed
qed

lemma agg_map_ok: "gm_ok (agg_map obs)"
proof (induction obs rule: rev_induct)
  case (snoc o1 obs)
  then show ?case by (cases o1) (simp add: agg_map_snoc addAggregateObservation_def Let_def split: option.split)
qed (simp add: agg_map_def)

lemma obs_of_nonempty: "obs_of k obs \<noteq> [] \<longleftrightarrow> k \<in> agg_key ` fst ` set obs"
  by (force simp: obs_of_def filter_empty_conv image_iff)

lemma agg_map_entries:
  "(\<lambda>(k, a). (k, finish_aggregate a)) ` set (agg_map obs)
     = (\<lambda>k. (k, merged_entry (obs_of k obs))) ` agg_key ` fst ` set obs"
proof (intro set_eqI iffI)
  fix x assume "x \<in> (\<lambda>(k, a). (k, finish_aggregate a)) ` set (agg_map obs)"
  then obtain k a where ka: "(k, a) \<in> set (agg_map obs)" and x: "x = (k, finish_aggregate a)" by auto
  then have g: "gm_get (agg_map obs) k = Some a" by (simp add: gm_get_iff [OF agg_map_ok])
  then have ne: "obs_of k obs \<noteq> []" and st: "agg_state (obs_of k obs) a" using agg_map_get [of k obs] by auto
  then show "x \<in> (\<lambda>k. (k, merged_entry (obs_of k obs))) ` agg_key ` fst ` set obs"
    using x finish_agg_state [OF st] by (auto simp: obs_of_nonempty)
next
  fix x assume "x \<in> (\<lambda>k. (k, merged_entry (obs_of k obs))) ` agg_key ` fst ` set obs"
  then obtain k where k: "k \<in> agg_key ` fst ` set obs" and x: "x = (k, merged_entry (obs_of k obs))" by auto
  then obtain a where a: "gm_get (agg_map obs) k = Some a" "agg_state (obs_of k obs) a"
    using agg_map_get [of k obs] by (auto simp: obs_of_nonempty)
  then show "x \<in> (\<lambda>(k, a). (k, finish_aggregate a)) ` set (agg_map obs)"
    using x gm_get_mem [OF a(1)] finish_agg_state [OF a(2)] by (force simp: image_iff)
qed

definition all_observations :: "OnlineEntry list \<Rightarrow> Snapshot list \<Rightarrow> string \<Rightarrow> (OnlineEntry \<times> string) list" where
  "all_observations local snapshots localNodeID = observations local snapshots (norm_node localNodeID)"

lemma aggregatePresence_items:
  "ar_items (aggregatePresence local snapshots n)
     = sort_key presence_rank (map (\<lambda>(k, a). finish_aggregate a) (agg_map (all_observations local snapshots n)))"
  by (simp add: aggregatePresence_def Let_def agg_map_def all_observations_def norm_node_def)

lemma agg_key_inj:
  assumes "CHR 0x00 \<notin> set (oe_MetaId a)" and "CHR 0x00 \<notin> set (oe_MetaId b)" and "agg_key a = agg_key b"
  shows "oe_MetaId a = oe_MetaId b \<and> oe_Type a = oe_Type b"
proof -
  have tw: "takeWhile (\<lambda>c. c \<noteq> CHR 0x00) (xs @ CHR 0x00 # ys) = xs" if "CHR 0x00 \<notin> set xs" for xs ys :: string
    using that by (subst takeWhile_append2) auto
  have "oe_MetaId a = oe_MetaId b"
    using tw [OF assms(1), of "oe_Type a"] tw [OF assms(2), of "oe_Type b"] assms(3) by (simp add: agg_key_def)
  then show ?thesis using assms(3) by (simp add: agg_key_def)
qed

definition nul_free :: "(OnlineEntry \<times> string) list \<Rightarrow> bool" where
  "nul_free obs \<longleftrightarrow> list_all (\<lambda>(item, n). CHR 0x00 \<notin> set (oe_MetaId item)) obs"

lemma agg_items_eq:
  "set (ar_items (aggregatePresence local snapshots n))
     = (\<lambda>k. merged_entry (obs_of k (all_observations local snapshots n)))
         ` agg_key ` fst ` set (all_observations local snapshots n)"
proof -
  let ?obs = "all_observations local snapshots n"
  have "set (ar_items (aggregatePresence local snapshots n))
      = snd ` (\<lambda>(k, a). (k, finish_aggregate a)) ` set (agg_map ?obs)"
    by (simp add: aggregatePresence_items image_image case_prod_unfold)
  then show ?thesis unfolding agg_map_entries by (simp add: image_image)
qed

lemma agg_items_length:
  "length (ar_items (aggregatePresence local snapshots n)) = card (agg_key ` fst ` set (all_observations local snapshots n))"
proof -
  let ?obs = "all_observations local snapshots n"
  have "fst ` set (agg_map ?obs) = fst ` (\<lambda>(k, a). (k, finish_aggregate a)) ` set (agg_map ?obs)"
    by (simp add: image_image case_prod_unfold)
  then have "fst ` set (agg_map ?obs) = agg_key ` fst ` set ?obs" unfolding agg_map_entries by (simp add: image_image)
  moreover have "length (agg_map ?obs) = card (fst ` set (agg_map ?obs))"
    using agg_map_ok [of ?obs] by (metis gm_ok_def distinct_card length_map set_map)
  ultimately show ?thesis by (simp add: aggregatePresence_items)
qed

lemma merged_entry_mset:
  assumes m: "mset os = mset os'" and ne: "os \<noteq> []"
    and same: "\<forall>x \<in> set os. \<forall>y \<in> set os. oe_MetaId (fst x) = oe_MetaId (fst y) \<and> oe_Type (fst x) = oe_Type (fst y)"
  shows "merged_entry os = merged_entry os'"
proof -
  have s: "set os = set os'" using m by (metis set_mset_mset)
  have ne': "os' \<noteq> []" using ne s by auto
  have h: "hd os \<in> set os" "hd os' \<in> set os" using ne ne' unfolding s by simp_all (simp add: ne s [symmetric])
  note hd = bspec [OF bspec [OF same h(1)] h(2)]
  have e: "earliest (map (oe_ConnectedAt \<circ> fst) os) = earliest (map (oe_ConnectedAt \<circ> fst) os')"
    using s by (simp add: earliest_def Let_def filter_empty_conv)
  have l: "latest (map (oe_LastSeenAt \<circ> fst) os) = latest (map (oe_LastSeenAt \<circ> fst) os')"
    using s by (simp add: latest_def)
  have "length os = length os'" using m by (metis size_mset)
  then show ?thesis by (simp add: merged_entry_def hd e l s)
qed

lemma obs_of_same:
  assumes "nul_free obs" and "x \<in> set (obs_of k obs)" and "y \<in> set (obs_of k obs)"
  shows "oe_MetaId (fst x) = oe_MetaId (fst y) \<and> oe_Type (fst x) = oe_Type (fst y)"
  by (rule agg_key_inj) (use assms in \<open>auto simp: obs_of_def nul_free_def list_all_iff\<close>)

lemma obs_of_mset: "mset obs = mset obs' \<Longrightarrow> mset (obs_of k obs) = mset (obs_of k obs')"
  by (simp add: obs_of_def)

lemma merged_rank_inj:
  assumes "nul_free obs" and "k \<in> agg_key ` fst ` set obs" and "k' \<in> agg_key ` fst ` set obs"
    and "presence_rank (merged_entry (obs_of k obs)) = presence_rank (merged_entry (obs_of k' obs))"
  shows "k = k'"
proof -
  have "hd (obs_of k obs) \<in> set (obs_of k obs)" "hd (obs_of k' obs) \<in> set (obs_of k' obs)"
    using assms(2,3) obs_of_nonempty by (metis list.set_sel(1))+
  then have "agg_key (fst (hd (obs_of k obs))) = k" "agg_key (fst (hd (obs_of k' obs))) = k'"
    by (auto simp: obs_of_def)
  with assms(4) show ?thesis by (simp add: presence_rank_def merged_entry_def agg_key_def)
qed

lemma agg_items_perm:
  assumes m: "mset obs = mset obs'" and nf: "nul_free obs"
  shows "sort_key presence_rank (map (\<lambda>(k, a). finish_aggregate a) (agg_map obs))
       = sort_key presence_rank (map (\<lambda>(k, a). finish_aggregate a) (agg_map obs'))"
proof -
  let ?it = "\<lambda>obs. map (\<lambda>(k, a). finish_aggregate a) (agg_map obs)"
  let ?pr = "\<lambda>obs. map (\<lambda>(k, a). (k, finish_aggregate a)) (agg_map obs)"
  have s: "set obs = set obs'" using m by (metis set_mset_mset)
  have "merged_entry (obs_of k obs) = merged_entry (obs_of k obs')" if "k \<in> agg_key ` fst ` set obs" for k
  proof (rule merged_entry_mset [OF obs_of_mset [OF m]])
    show "obs_of k obs \<noteq> []" using that by (simp add: obs_of_nonempty)
  qed (use obs_of_same [OF nf] in blast)
  then have eq: "set (?pr obs) = set (?pr obs')" unfolding set_map agg_map_entries s by (intro image_cong) (simp_all add: s)
  have d: "distinct (?pr o1)" for o1
  proof -
    have "distinct (map fst (?pr o1))" using agg_map_ok [of o1] by (simp add: gm_ok_def comp_def case_prod_unfold)
    then show ?thesis using distinct_map [of fst] by blast
  qed
  have "mset (?pr obs) = mset (?pr obs')" using eq d set_eq_iff_mset_eq_distinct by blast
  then have "image_mset snd (mset (?pr obs)) = image_mset snd (mset (?pr obs'))" by simp
  then have mi: "mset (?it obs) = mset (?it obs')" by (simp add: image_mset.compositionality comp_def case_prod_unfold flip: mset_map)
  have it: "set (?it obs) = (\<lambda>k. merged_entry (obs_of k obs)) ` agg_key ` fst ` set obs"
  proof -
    have "set (?it obs) = snd ` (\<lambda>(k, a). (k, finish_aggregate a)) ` set (agg_map obs)"
      by (simp add: image_image case_prod_unfold)
    then show ?thesis unfolding agg_map_entries by (simp add: image_image)
  qed
  have inj: "inj_on presence_rank (set (?it obs))"
    unfolding it
  proof (rule inj_onI)
    fix x y
    assume "x \<in> (\<lambda>k. merged_entry (obs_of k obs)) ` agg_key ` fst ` set obs"
      and "y \<in> (\<lambda>k. merged_entry (obs_of k obs)) ` agg_key ` fst ` set obs" and eq: "presence_rank x = presence_rank y"
    then obtain k k' where k: "k \<in> agg_key ` fst ` set obs" "k' \<in> agg_key ` fst ` set obs"
      "x = merged_entry (obs_of k obs)" "y = merged_entry (obs_of k' obs)" by blast
    then show "x = y" using merged_rank_inj [OF nf k(1,2)] eq by simp
  qed
  show ?thesis by (rule sort_key_eq_sort_key [OF mi inj])
qed

subsection \<open>The invariant of the store\<close>

definition store_ok :: "Store \<Rightarrow> bool" where
  "store_ok s \<longleftrightarrow> gm_ok (fs_peers s) \<and> gm_ok (fs_snapshots s)
     \<and> (\<forall>(k, p) \<in> set (fs_peers s). rn_NodeID p = k \<and> k \<noteq> '''')
     \<and> (\<forall>(k, sn) \<in> set (fs_snapshots s). sn_NodeID sn = k \<and> k \<noteq> '''')"

datatype fed_op = FUpsertPeer RegistryNode | FRemovePeer string | FUpsertSnapshot Snapshot

fun fed_step :: "fed_op \<Rightarrow> Store \<Rightarrow> Store" where
  "fed_step (FUpsertPeer p) s = Store_UpsertPeer p s"
| "fed_step (FRemovePeer n) s = Store_RemovePeer n s"
| "fed_step (FUpsertSnapshot sn) s = Store_UpsertSnapshot sn s"

definition fed_run :: "fed_op list \<Rightarrow> Store \<Rightarrow> Store" where
  "fed_run ops s = foldl (\<lambda>s op. fed_step op s) s ops"

lemma fed_step_ok: "store_ok s \<Longrightarrow> store_ok (fed_step op s)"
proof (cases op)
  case (FUpsertPeer p)
  then show "store_ok s \<Longrightarrow> ?thesis" using set_gm_set_subset [of "fs_peers s" "rn_NodeID p" p]
    by (auto simp: store_ok_def Store_UpsertPeer_def)
next
  case (FRemovePeer n)
  then show "store_ok s \<Longrightarrow> ?thesis"
    by (auto simp: set_gm_delete store_ok_def Store_RemovePeer_def)
next
  case (FUpsertSnapshot sn)
  then show "store_ok s \<Longrightarrow> ?thesis" using set_gm_set_subset [of "fs_snapshots s" "sn_NodeID sn" sn]
    by (auto simp: store_ok_def Store_UpsertSnapshot_def)
qed

lemma fed_run_ok: "store_ok s \<Longrightarrow> store_ok (fed_run ops s)"
  by (induction ops arbitrary: s) (simp_all add: fed_run_def fed_step_ok)

lemma store_ok_new: "store_ok (NewStore n [])"
  by (simp add: store_ok_def NewStore_def)

text \<open>When a snapshot of a node counts: it is stored, its peer is known and alive, it is fresh.\<close>

definition live_snapshot :: "int \<Rightarrow> Store \<Rightarrow> string \<Rightarrow> Snapshot \<Rightarrow> bool" where
  "live_snapshot now s nodeID sn \<longleftrightarrow> nodeID \<noteq> fs_localNodeID s \<and> Store_Snapshot nodeID s = Some sn
     \<and> (\<exists>peer. Store_Peer nodeID s = Some peer \<and> \<not> peerExpired peer now) \<and> \<not> snapshotExpired sn now"

lemma activeSnapshots_set:
  assumes "store_ok s"
  shows "set (Store_activeSnapshots now s) = {sn. live_snapshot now s (sn_NodeID sn) sn}"
proof -
  have g: "gm_ok (fs_snapshots s)" using assms by (simp add: store_ok_def)
  have "sn \<in> set (Store_activeSnapshots now s) \<longleftrightarrow> live_snapshot now s (sn_NodeID sn) sn" for sn
  proof
    assume "sn \<in> set (Store_activeSnapshots now s)"
    then obtain k peer where k: "(k, sn) \<in> set (fs_snapshots s)" "k \<noteq> fs_localNodeID s" "gm_get (fs_peers s) k = Some peer"
      "\<not> peerExpired peer now" "\<not> snapshotExpired sn now"
      by (auto simp: Store_activeSnapshots_def split: option.splits)
    then have "sn_NodeID sn = k" "k \<noteq> ''''" using assms by (auto simp: store_ok_def)
    with k show "live_snapshot now s (sn_NodeID sn) sn"
      by (simp add: live_snapshot_def Store_Snapshot_def Store_Peer_def gm_get_iff [OF g])
  next
    assume l: "live_snapshot now s (sn_NodeID sn) sn"
    then have "(sn_NodeID sn, sn) \<in> set (fs_snapshots s)"
      by (auto simp: live_snapshot_def Store_Snapshot_def gm_get_iff [OF g] split: if_splits)
    with l show "sn \<in> set (Store_activeSnapshots now s)"
      by (force simp: Store_activeSnapshots_def live_snapshot_def Store_Peer_def image_iff split: if_splits option.splits)
  qed
  then show ?thesis by blast
qed

lemma merged_sources: "os \<noteq> [] \<Longrightarrow> set (oe_SourceNodeIds (merged_entry os)) = norm_node ` snd ` set os"
  by (simp add: merged_entry_def image_image comp_def)

lemma paginate_page:
  assumes "1 \<le> page" and "1 \<le> sz" and "page * sz < 2 ^ 63"
  shows "paginatePresence items page sz = Some (page_of page sz items)"
proof -
  have "\<not> page < 1" "\<not> sz < 1" using assms by simp_all
  then show ?thesis
    unfolding paginatePresence_def Let_def if_False if_not_P [OF \<open>\<not> page < 1\<close>] if_not_P [OF \<open>\<not> sz < 1\<close>]
      page_arith(1,2,3) [OF assms] by (intro page_body [OF assms])
qed

interpretation store_reader: global_reader "Store_reader now s" for now s
proof
  fix page sz :: int and local
  assume a: "1 \<le> page" "1 \<le> sz" "page * sz < 2 ^ 63"
  show "\<exists>items. gr_OnlineList (Store_reader now s) local page sz = Some items \<and> int (length items) \<le> sz"
    using paginate_page [OF a] a(2) by (simp add: Store_reader_def Store_OnlineList_def page_of_def)
qed

lemma unique_count:
  "length (foldl (\<lambda>u (item, node). set_add (oe_MetaId item) u) [] obs) = card (oe_MetaId ` fst ` set obs)"
proof -
  have "distinct (foldl (\<lambda>u (item, node). set_add (oe_MetaId item) u) [] obs)
      \<and> set (foldl (\<lambda>u (item, node). set_add (oe_MetaId item) u) [] obs) = oe_MetaId ` fst ` set obs"
  proof (induction obs rule: rev_induct)
    case (snoc o1 obs)
    then show ?case by (cases o1) (auto simp: set_add_def)
  qed simp
  then show ?thesis using distinct_card by metis
qed

lemma observations_items:
  "fst ` set (observations local snapshots n) = set local \<union> (\<Union>sn \<in> set snapshots. set (sn_Items sn))"
  "length (observations local snapshots n) = length local + sum_list (map (length \<circ> sn_Items) snapshots)"
  by (simp_all add: observations_def image_Un image_image image_UN length_concat comp_def)

definition entry_of :: "string \<Rightarrow> string \<Rightarrow> int \<Rightarrow> int \<Rightarrow> OnlineEntry" where
  "entry_of m t c l = \<lparr>oe_MetaId = m, oe_Type = t, oe_ConnectedAt = c, oe_LastSeenAt = l, oe_SourceNodeIds = [], oe_Sources = 0\<rparr>"

subsection \<open>Properties\<close>

text \<open>C14: the global presence list has exactly one entry per observed key (metaid and type). The entry
  carries the earliest non-zero connection time, the latest sighting, the number of observations and
  the sorted node IDs that made them; the list is sorted by last sighting, newest first.\<close>

lemma global_presence_entries:
  "set (ar_items (aggregatePresence local snapshots n))
     = (\<lambda>k. merged_entry (obs_of k (all_observations local snapshots n)))
         ` agg_key ` fst ` set (all_observations local snapshots n)
   \<and> length (ar_items (aggregatePresence local snapshots n))
     = card (agg_key ` fst ` set (all_observations local snapshots n))
   \<and> sorted (map presence_rank (ar_items (aggregatePresence local snapshots n)))"
  using agg_items_eq agg_items_length by (simp add: aggregatePresence_items)

text \<open>The merged list and the statistics do not depend on the order in which the connection manager
  lists the local connections, which is the iteration order of a Go map and differs from call to
  call. The metaids must not contain a NUL character, the separator of the merge key.\<close>

lemma aggregate_order_independent:
  assumes "mset local = mset local'" and "nul_free (all_observations local snapshots n)"
  shows "aggregatePresence local snapshots n = aggregatePresence local' snapshots n"
proof -
  have m: "mset (all_observations local snapshots n) = mset (all_observations local' snapshots n)"
    using assms(1) by (simp add: all_observations_def observations_def)
  have "set (all_observations local snapshots n) = set (all_observations local' snapshots n)"
    using m by (metis set_mset_mset)
  moreover have "length (all_observations local snapshots n) = length (all_observations local' snapshots n)"
    using m by (metis size_mset)
  ultimately show ?thesis using agg_items_perm [OF m assms(2)]
    unfolding aggregatePresence_def Let_def unique_count agg_map_def all_observations_def norm_node_def by simp
qed

theorem aggregate_order_independent_witness:
  "aggregatePresence [entry_of ''a'' ''pc'' 5 9, entry_of ''b'' ''app'' 3 4, entry_of ''a'' ''pc'' 2 7] [] ''n1''
   = aggregatePresence [entry_of ''a'' ''pc'' 2 7, entry_of ''a'' ''pc'' 5 9, entry_of ''b'' ''app'' 3 4] [] ''n1''"
  by (rule aggregate_order_independent) (simp, code_simp)

text \<open>C16: in a store built by the store's operations, every source named in the global list is the local
  node or a peer that is registered, not expired, and whose stored snapshot has not expired: a
  removed or expired peer contributes nothing.\<close>

lemma global_sources_live:
  assumes "s = fed_run ops (NewStore localID [])" and "e \<in> set (Store_GlobalOnline local now s)"
    and "src \<in> set (oe_SourceNodeIds e)"
  shows "src = fs_localNodeID s \<or> (\<exists>sn. live_snapshot now s src sn)"
proof -
  have ok: "store_ok s" using assms(1) fed_run_ok store_ok_new by simp
  have ln: "norm_node (fs_localNodeID s) = fs_localNodeID s"
  proof -
    have "fs_localNodeID (fed_run ops s0) = fs_localNodeID s0" for s0
    proof (induction ops arbitrary: s0)
      case (Cons op ops)
      then show ?case by (cases op) (simp_all add: fed_run_def Store_UpsertPeer_def Store_RemovePeer_def Store_UpsertSnapshot_def)
    qed (simp add: fed_run_def)
    then show ?thesis using assms(1) by (simp add: NewStore_def norm_node_def defaultLocalNodeID_def)
  qed
  let ?obs = "all_observations local (Store_activeSnapshots now s) (fs_localNodeID s)"
  obtain k where k: "k \<in> agg_key ` fst ` set ?obs" "e = merged_entry (obs_of k ?obs)"
    using assms(2) by (auto simp: Store_GlobalOnline_def agg_items_eq)
  have "src \<in> norm_node ` snd ` set (obs_of k ?obs)"
    using merged_sources [of "obs_of k ?obs"] k assms(3) by (simp add: obs_of_nonempty)
  then obtain item node where on: "(item, node) \<in> set ?obs" "src = norm_node node" by (auto simp: obs_of_def)
  then have "node = fs_localNodeID s \<or> (\<exists>sn \<in> set (Store_activeSnapshots now s). node = sn_NodeID sn)"
    using ln by (auto simp: all_observations_def observations_def)
  then show ?thesis
  proof
    assume "node = fs_localNodeID s"
    then show ?thesis using on(2) ln by simp
  next
    assume "\<exists>sn \<in> set (Store_activeSnapshots now s). node = sn_NodeID sn"
    then obtain sn where sn: "live_snapshot now s node sn" using activeSnapshots_set [OF ok] by auto
    then have "src = node" using on(2) by (auto simp: live_snapshot_def Store_Snapshot_def norm_node_def split: if_splits)
    with sn show ?thesis by blast
  qed
qed

definition demo_snapshot :: Snapshot where
  "demo_snapshot = \<lparr>sn_Protocol = [], sn_Version = [], sn_NodeID = ''n2'', sn_GeneratedAt = 1000, sn_TTLSeconds = 60,
     sn_Sequence = 1, sn_Items = [entry_of ''a'' ''pc'' 5 9], sn_Signature = []\<rparr>"

definition demo_peer :: RegistryNode where
  "demo_peer = \<lparr>rn_Protocol = [], rn_Version = [], rn_NodeID = ''n2'', rn_Network = [], rn_PublicBaseURL = [],
     rn_SocketURL = [], rn_PresenceURL = [], rn_PublicKey = [], rn_Capabilities = [], rn_PublishedAt = 0, rn_ValidUntil = 0\<rparr>"

definition demo_store :: Store where
  "demo_store = fed_run [FUpsertPeer demo_peer, FUpsertSnapshot demo_snapshot] (NewStore ''n1'' [])"

theorem global_sources_live_witness:
  "''n2'' = fs_localNodeID demo_store \<or> (\<exists>sn. live_snapshot 2000000000 demo_store ''n2'' sn)"
  by (rule global_sources_live [OF demo_store_def,
        of "merged_entry (obs_of (agg_key (entry_of ''a'' ''pc'' 5 9)) [(entry_of ''a'' ''pc'' 5 9, ''n2'')])" "[]"]) code_simp+

text \<open>A page of the global list holds the right slice when \<open>page * size\<close> fits in 64 bits.\<close>

lemma global_list_page:
  assumes "1 \<le> page" and "1 \<le> sz" and "page * sz < 2 ^ 63"
  shows "Store_OnlineList local page sz now s = Some (page_of page sz (Store_GlobalOnline local now s))"
  using paginate_page [OF assms] by (simp add: Store_OnlineList_def)

theorem global_list_page_witness:
  "Store_OnlineList [] 1 20 2000000000 demo_store = Some (page_of 1 20 (Store_GlobalOnline [] 2000000000 demo_store))"
  by (rule global_list_page) simp_all

text \<open>Beyond that the multiplication wraps: for the largest page number and the page size 100 the start
  index is \<open>-200\<close>, and the slice expression panics whatever the list holds. The HTTP handler accepts both
  numbers from the query string.\<close>

lemma global_list_page_overflow: "Store_OnlineList local (2 ^ 63 - 1) 100 now s = None"
proof -
  have "wrap64 (wrap64 (2 ^ 63 - 1 - 1) * 100) = - 200" by (simp add: wrap64_def signed_take_bit_eq_take_bit_minus take_bit_eq_mod)
  then show ?thesis by (simp add: Store_OnlineList_def paginatePresence_def Let_def slice_of_def)
qed

text \<open>The statistics count every local and live remote entry, each distinct metaid once, and one node
  per live snapshot besides the local one.\<close>

lemma stats_counts:
  "Store_StatsAt local now s =
    \<lparr>gs_TotalConnections = length local + sum_list (map (length \<circ> sn_Items) (Store_activeSnapshots now s)),
     gs_UniqueMetaIds = card (oe_MetaId ` (set local \<union> (\<Union>sn \<in> set (Store_activeSnapshots now s). set (sn_Items sn)))),
     gs_Nodes = 1 + length (Store_activeSnapshots now s)\<rparr>"
  by (simp add: Store_StatsAt_def aggregatePresence_def Let_def unique_count observations_items)

end
