(* ===== verification/Aggregators.thy ===== *)
theory Aggregators
  imports GoStrings
begin

text \<open>
  The contract between the indexer, the business modules and the socket layer,
  \<open>internal/aggregator/aggregator.go\<close>: pins, notify events, the aggregator interface and the registry that
  hands every pin to every aggregator.

  An aggregator is a record of functions on the state \<open>'s\<close> of the process (its databases and caches); a
  handler gives an error or an optional event. The payload of an event is of any type \<open>'p\<close>.
\<close>

record PinInscription =
  pi_Id :: string
  pi_Number :: int
  pi_Path :: string
  pi_OriginalPath :: string
  pi_Operation :: string
  pi_ContentBody :: bytes
  pi_ContentSummary :: string
  pi_ContentType :: string
  pi_Creator :: string
  pi_CreateAddress :: string
  pi_CreateMetaId :: string
  pi_MetaId :: string
  pi_GlobalMetaId :: string
  pi_Address :: string
  pi_ChainName :: string
  pi_GenesisTransaction :: string
  pi_GenesisHeight :: int
  pi_Timestamp :: int
  pi_Output :: string
  pi_IsTransfered :: bool
  pi_OriginalId :: string
  pi_Host :: string

record 'p NotifyEvent =
  ne_Type :: string
  ne_MetaId :: string
  ne_GlobalMetaId :: string
  ne_TargetIds :: "string list"
  ne_GroupId :: string
  ne_Payload :: 'p

record ('s, 'p) Aggregator =
  ag_Name :: string
  ag_Init :: "'s \<Rightarrow> string option \<times> 's"
  ag_HandleBlockPin :: "PinInscription \<Rightarrow> 's \<Rightarrow> (string + 'p NotifyEvent option) \<times> 's"
  ag_HandleMempoolPin :: "PinInscription \<Rightarrow> 's \<Rightarrow> (string + 'p NotifyEvent option) \<times> 's"

type_synonym ('s, 'p) Registry = "('s, 'p) Aggregator list"

definition Registry_Register :: "('s, 'p) Aggregator \<Rightarrow> ('s, 'p) Registry \<times> 's \<Rightarrow> string option \<times> ('s, 'p) Registry \<times> 's" where
  "Registry_Register a rs =
     (let (r, s) = rs
      in case ag_Init a s of (Some e, s1) \<Rightarrow> (Some e, r, s1) | (None, s1) \<Rightarrow> (None, r @ [a], s1))"

text \<open>The loop both routing functions share: a failing handler is skipped, its changes stay.\<close>

fun route_pin ::
    "(PinInscription \<Rightarrow> 's \<Rightarrow> (string + 'p NotifyEvent option) \<times> 's) list \<Rightarrow> PinInscription \<Rightarrow> 's \<Rightarrow> 'p NotifyEvent list \<times> 's" where
  "route_pin [] pin s = ([], s)"
| "route_pin (f # fs) pin s =
     (case f pin s of
        (Inl e, s1) \<Rightarrow> route_pin fs pin s1
      | (Inr None, s1) \<Rightarrow> route_pin fs pin s1
      | (Inr (Some evt), s1) \<Rightarrow> (let (events, s2) = route_pin fs pin s1 in (evt # events, s2)))"

definition Registry_RouteBlockPin :: "('s, 'p) Registry \<Rightarrow> PinInscription \<Rightarrow> 's \<Rightarrow> 'p NotifyEvent list \<times> 's" where
  "Registry_RouteBlockPin r pin s = route_pin (map ag_HandleBlockPin r) pin s"

definition Registry_RouteMempoolPin :: "('s, 'p) Registry \<Rightarrow> PinInscription \<Rightarrow> 's \<Rightarrow> 'p NotifyEvent list \<times> 's" where
  "Registry_RouteMempoolPin r pin s = route_pin (map ag_HandleMempoolPin r) pin s"

subsection \<open>HTTP answers\<close>

text \<open>The two JSON shapes of \<open>internal/api/response.go\<close> that the modules use; a query parameter is absent or a string.\<close>

datatype 'd api_answer = Answer int 'd | Failure int string

definition RespSuccess :: "'d \<Rightarrow> 'd api_answer" where
  "RespSuccess d = Answer 0 d"

definition RespErr :: "int \<Rightarrow> string \<Rightarrow> 'd api_answer" where
  "RespErr c message = Failure (if c = 0 then 1 else c) message"

definition DefaultQuery :: "string \<Rightarrow> string option \<Rightarrow> string" where
  "DefaultQuery d v = (case v of None \<Rightarrow> d | Some t \<Rightarrow> t)"

subsection \<open>Every handler runs\<close>

lemma route_pin_state: "snd (route_pin fs pin s) = fold (\<lambda>f s. snd (f pin s)) fs s"
proof (induction fs arbitrary: s)
  case (Cons f fs)
  obtain res s1 where "f pin s = (res, s1)" by (cases "f pin s")
  then show ?case using Cons.IH [of s1] by (simp add: Let_def split_def split: sum.split option.split)
qed simp

lemma route_pin_inv:
  assumes "\<And>f s. f \<in> set fs \<Longrightarrow> I s \<Longrightarrow> I (snd (f pin s))" and "I s"
  shows "I (snd (route_pin fs pin s))"
  unfolding route_pin_state using assms by (induction fs arbitrary: s) auto

subsection \<open>Collecting identities\<close>

text \<open>The closure \<open>add\<close> that the socket server and the chat modules share: identities are trimmed, blank ones are
  dropped, and of several that agree up to case the first stays. The state is the list so far with the keys seen.\<close>

definition add_target :: "unicode \<Rightarrow> string \<Rightarrow> string list \<times> string list \<Rightarrow> string list \<times> string list" where
  "add_target U id0 st =
     (let (targets, seen) = st; id1 = TrimSpace id0
      in if id1 = '''' then st
         else if ToLower U id1 \<in> set seen then st
         else (targets @ [id1], seen @ [ToLower U id1]))"

definition targets_ok :: "unicode \<Rightarrow> string list \<Rightarrow> string list \<times> string list \<Rightarrow> bool" where
  "targets_ok U ids st \<longleftrightarrow>
     snd st = map (ToLower U) (fst st) \<and> distinct (snd st)
   \<and> set (fst st) \<subseteq> TrimSpace ` set ids - {''''}
   \<and> (\<forall>i \<in> set ids. TrimSpace i \<noteq> '''' \<longrightarrow> ToLower U (TrimSpace i) \<in> set (snd st))"

lemma targets_ok_Nil: "targets_ok U [] ([], [])"
  by (simp add: targets_ok_def)

lemma targets_ok_add: "targets_ok U ids st \<Longrightarrow> targets_ok U (ids @ [i]) (add_target U i st)"
  by (cases st) (auto simp: targets_ok_def add_target_def Let_def)

lemma targets_ok_fold: "targets_ok U ids (foldl (\<lambda>st i. add_target U i st) ([], []) ids)"
  by (induction ids rule: rev_induct) (simp_all add: targets_ok_Nil targets_ok_add)

lemma targets_ok_empty: "targets_ok U ids st \<Longrightarrow> fst st = [] \<longleftrightarrow> (\<forall>i \<in> set ids. TrimSpace i = '''')"
  by (cases st; cases "fst st") (auto simp: targets_ok_def)

end
