(* ===== verification/SocketServer.thy ===== *)
theory SocketServer
  imports SocketManager FedStore Aggregators
begin

text \<open>
  The push and presence side of the socket server: \<open>internal/socket/server.go\<close> (routing of notify events),
  \<open>internal/socket/presence.go\<close> (HTTP presence answers) and \<open>internal/socket/profile.go\<close> (profiles of
  presence rows).

  A socket of the default namespace is a number with its handshake query; the rooms a socket has
  joined are the library's. An HTTP handler is a function from the query parameters (absent or a string)
  to the \<open>data\<close> member of its JSON answer; \<open>None\<close> is a panic. \<open>url.Parse\<close> is the parameter \<open>url_path\<close>, the path
  of a URL that parses. The profile service is the record \<open>ProfileLookup\<close>.
\<close>

subsection \<open>Notify events\<close>

record 'p PushEnvelope =
  pe_M :: string
  pe_C :: int
  pe_D :: 'p

record io_namespace =
  ns_sockets :: "(nat \<times> (string, string list) gomap) list"
  ns_rooms :: "nat \<Rightarrow> string list"
  ns_RoomBroadcastEnabled :: bool

definition notifyEventTargetIds :: "unicode \<Rightarrow> 'p NotifyEvent \<Rightarrow> string list" where
  "notifyEventTargetIds U evt =
     (let st = foldl (\<lambda>st i. add_target U i st) ([], []) (ne_TargetIds evt)
      in if fst st = [] then fst (add_target U (ne_GlobalMetaId evt) (add_target U (ne_MetaId evt) st)) else fst st)"

text \<open>Each emission is a socket and the envelope it gets, in order.\<close>

definition Server_SendToUser :: "io_namespace \<Rightarrow> string \<Rightarrow> 'p PushEnvelope \<Rightarrow> (nat \<times> 'p PushEnvelope) list" where
  "Server_SendToUser ns metaId msg =
     map (\<lambda>(sock, query). (sock, msg)) (filter (\<lambda>(sock, query). query_first query ''metaid'' = Some metaId) (ns_sockets ns))"

definition Server_SendToUsers :: "io_namespace \<Rightarrow> string list \<Rightarrow> 'p PushEnvelope \<Rightarrow> (nat \<times> 'p PushEnvelope) list" where
  "Server_SendToUsers ns metaIds msg = concat (map (\<lambda>metaId. Server_SendToUser ns metaId msg) metaIds)"

definition Server_BroadcastToRoom :: "io_namespace \<Rightarrow> string \<Rightarrow> 'p PushEnvelope \<Rightarrow> (nat \<times> 'p PushEnvelope) list" where
  "Server_BroadcastToRoom ns room msg =
     (if ns_RoomBroadcastEnabled ns
      then map (\<lambda>(sock, query). (sock, msg)) (filter (\<lambda>(sock, query). room \<in> set (ns_rooms ns sock)) (ns_sockets ns))
      else [])"

definition Server_routeNotifyEvent :: "unicode \<Rightarrow> io_namespace \<Rightarrow> 'p NotifyEvent option \<Rightarrow> (nat \<times> 'p PushEnvelope) list" where
  "Server_routeNotifyEvent U ns evt0 =
     (case evt0 of
        None \<Rightarrow> []
      | Some evt \<Rightarrow>
          (let envelope = \<lparr>pe_M = ne_Type evt, pe_C = 0, pe_D = ne_Payload evt\<rparr>;
               users = concat (map (\<lambda>targetId. Server_SendToUser ns targetId envelope) (notifyEventTargetIds U evt));
               room = (if ne_GroupId evt \<noteq> '''' then Server_BroadcastToRoom ns (''group:'' @ ne_GroupId evt) envelope else [])
           in if ne_Type evt = ''WS_SERVER_NOTIFY_GROUP_CHAT'' then users @ room
              else if ne_Type evt = ''WS_SERVER_NOTIFY_PRIVATE_CHAT'' then users
              else if ne_Type evt = ''WS_SERVER_NOTIFY_GROUP_ROLE'' then users @ room
              else []))"

subsection \<open>Profiles\<close>

record ProfileSnapshot =
  pr_GlobalMetaId :: string
  pr_MetaId :: string
  pr_Address :: string
  pr_Name :: string
  pr_Avatar :: string
  pr_AvatarId :: string
  pr_AvatarUrl :: string
  pr_ChatPublicKey :: string

text \<open>The row type of the socket package: a presence entry with an optional profile.\<close>

record SocketEntry = OnlineEntry +
  oe_UserInfo :: "ProfileSnapshot option"

text \<open>A lookup gives an error, or a pointer that may be nil.\<close>

record ProfileLookup =
  lk_LookupByMetaId :: "string \<Rightarrow> string + ProfileSnapshot option"
  lk_LookupByGlobalMetaId :: "string \<Rightarrow> string + ProfileSnapshot option"
  lk_LookupByAddress :: "string \<Rightarrow> string + ProfileSnapshot option"

definition onlineEntryFromPresence :: "OnlineEntry \<Rightarrow> SocketEntry" where
  "onlineEntryFromPresence entry =
     \<lparr>oe_MetaId = oe_MetaId entry, oe_Type = oe_Type entry, oe_ConnectedAt = oe_ConnectedAt entry, oe_LastSeenAt = oe_LastSeenAt entry,
      oe_SourceNodeIds = oe_SourceNodeIds entry, oe_Sources = oe_Sources entry, oe_UserInfo = None\<rparr>"

definition isHTTPURL :: "unicode \<Rightarrow> string \<Rightarrow> bool" where
  "isHTTPURL U raw = (let lower = ToLower U (TrimSpace raw) in HasPrefix lower ''http://'' \<or> HasPrefix lower ''https://'')"

fun firstNonEmptyString :: "string list \<Rightarrow> string" where
  "firstNonEmptyString [] = ''''"
| "firstNonEmptyString (v # vs) = (if TrimSpace v \<noteq> '''' then TrimSpace v else firstNonEmptyString vs)"

text \<open>The part after the last slash.\<close>

definition last_segment :: "string \<Rightarrow> string" where
  "last_segment s = rev (takeWhile (\<lambda>c. c \<noteq> CHR ''/'') (rev s))"

definition trim_prefix :: "string \<Rightarrow> string \<Rightarrow> string" where
  "trim_prefix s p = (if HasPrefix s p then drop (length p) s else s)"

definition avatarIDFromReference :: "unicode \<Rightarrow> (string \<Rightarrow> string option) \<Rightarrow> string \<Rightarrow> string" where
  "avatarIDFromReference U url_path avatar0 =
     (let avatar = TrimSpace avatar0; lower = ToLower U avatar
      in if avatar = '''' \<or> avatar = ''/content/'' then ''''
         else if HasPrefix avatar ''/content/'' then Trim CHR ''/'' (trim_prefix avatar ''/content/'')
         else if HasPrefix lower ''metafile://'' then Trim CHR ''/'' (trim_prefix avatar ''metafile://'')
         else if HasPrefix lower ''metafile:'' then Trim CHR ''/'' (trim_prefix avatar ''metafile:'')
         else if isHTTPURL U avatar then
           (case url_path avatar of None \<Rightarrow> '''' | Some path \<Rightarrow> TrimSpace (last_segment (Trim CHR ''/'' path)))
         else '''')"

definition resolveProfileAvatarURL :: "unicode \<Rightarrow> (string \<Rightarrow> string option) \<Rightarrow> string \<Rightarrow> string \<Rightarrow> string \<Rightarrow> string" where
  "resolveProfileAvatarURL U url_path profileAssetBaseURL avatar0 avatarID0 =
     (let avatar = TrimSpace avatar0; avatarID = firstNonEmptyString [avatarID0, avatarIDFromReference U url_path avatar]
      in if avatarID \<noteq> '''' \<and> profileAssetBaseURL \<noteq> '''' then profileAssetBaseURL @ ''/'' @ TrimLeft CHR ''/'' avatarID
         else if isHTTPURL U avatar then avatar else '''')"

fun first_profile :: "string \<Rightarrow> string list \<Rightarrow> (string \<times> (string \<Rightarrow> string + ProfileSnapshot option)) list \<Rightarrow> ProfileSnapshot option" where
  "first_profile i seen [] = None"
| "first_profile i seen ((key, fn) # lookups) =
     (if key \<in> set seen then first_profile i seen lookups
      else case fn i of Inr (Some profile) \<Rightarrow> Some profile | _ \<Rightarrow> first_profile i (key # seen) lookups)"

definition lookupPresenceProfile :: "unicode \<Rightarrow> ProfileLookup option \<Rightarrow> string \<Rightarrow> ProfileSnapshot option" where
  "lookupPresenceProfile U profileLookup id0 =
     (let i = TrimSpace id0
      in if i = '''' then None
         else case profileLookup of
           None \<Rightarrow> None
         | Some L \<Rightarrow>
             (let byMetaId = (''metaid:'' @ i, lk_LookupByMetaId L);
                  byGlobal = (''globalmetaid:'' @ i, lk_LookupByGlobalMetaId L);
                  byAddress = (''address:'' @ i, lk_LookupByAddress L)
              in first_profile i [] (if HasPrefix (ToLower U i) ''idq'' then [byGlobal, byMetaId, byAddress] else [byMetaId, byGlobal, byAddress])))"

text \<open>What the presence side of a server is configured with.\<close>

record presence_server =
  sv_unicode :: unicode
  sv_url_path :: "string \<Rightarrow> string option"
  sv_profileLookup :: "ProfileLookup option"
  sv_profileAssetBaseURL :: string
  sv_globalReader :: "GlobalReader option"
  sv_manager :: ConnectionManager

definition hydrate_entry :: "presence_server \<Rightarrow> SocketEntry \<Rightarrow> SocketEntry" where
  "hydrate_entry s item =
     (if oe_Type item \<noteq> ConnTypeApp then item
      else case lookupPresenceProfile (sv_unicode s) (sv_profileLookup s) (oe_MetaId item) of
        None \<Rightarrow> item
      | Some profile \<Rightarrow>
          item\<lparr>oe_UserInfo := Some (profile\<lparr>pr_AvatarUrl := resolveProfileAvatarURL (sv_unicode s) (sv_url_path s)
             (sv_profileAssetBaseURL s) (pr_Avatar profile) (pr_AvatarId profile)\<rparr>)\<rparr>)"

definition hydrateOnlineEntries :: "presence_server \<Rightarrow> SocketEntry list \<Rightarrow> SocketEntry list" where
  "hydrateOnlineEntries s items = (case sv_profileLookup s of None \<Rightarrow> items | Some _ \<Rightarrow> map (hydrate_entry s) items)"

subsection \<open>Presence answers\<close>

definition default_global :: "presence_server \<Rightarrow> bool" where
  "default_global s =
     (case sv_globalReader s of
        None \<Rightarrow> False
      | Some reader \<Rightarrow> gr_Enabled reader \<and> ToLower (sv_unicode s) (TrimSpace (gr_DefaultScope reader)) = ''global'')"

definition resolvePresenceScope :: "presence_server \<Rightarrow> string option \<Rightarrow> string" where
  "resolvePresenceScope s scope =
     (let requested = ToLower (sv_unicode s) (TrimSpace (case scope of None \<Rightarrow> '''' | Some v \<Rightarrow> v))
      in if requested = ''local'' \<or> requested = ''global'' then requested
         else if requested = '''' \<and> default_global s then ''global''
         else ''local'')"

definition global_for :: "presence_server \<Rightarrow> string \<Rightarrow> GlobalReader option" where
  "global_for s scope =
     (case sv_globalReader s of None \<Rightarrow> None | Some reader \<Rightarrow> if scope = ''global'' \<and> gr_Enabled reader then Some reader else None)"

datatype stats_data = LocalStats nat | GlobalStatsData GlobalStats

definition HandleOnlineStats :: "presence_server \<Rightarrow> string option \<Rightarrow> stats_data" where
  "HandleOnlineStats s scope =
     (case global_for s (resolvePresenceScope s scope) of
        Some reader \<Rightarrow> GlobalStatsData (gr_Stats reader (ConnectionManager_OnlineEntries (sv_manager s)))
      | None \<Rightarrow> LocalStats (ConnectionManager_TotalConnections (sv_manager s)))"

definition query_page :: "string option \<Rightarrow> int" where
  "query_page v = (case Atoi (case v of None \<Rightarrow> ''1'' | Some t \<Rightarrow> t) of None \<Rightarrow> 1 | Some page \<Rightarrow> if page < 1 then 1 else page)"

definition query_size :: "string option \<Rightarrow> int" where
  "query_size v =
     (let sz = (case Atoi (case v of None \<Rightarrow> ''20'' | Some t \<Rightarrow> t) of None \<Rightarrow> 20 | Some sz \<Rightarrow> if sz < 1 then 20 else sz)
      in if 100 < sz then 100 else sz)"

definition list_items :: "presence_server \<Rightarrow> string \<Rightarrow> int \<Rightarrow> int \<Rightarrow> SocketEntry list option" where
  "list_items s scope page sz =
     map_option (hydrateOnlineEntries s \<circ> map onlineEntryFromPresence)
       (case global_for s scope of
          Some reader \<Rightarrow> gr_OnlineList reader (ConnectionManager_OnlineEntries (sv_manager s)) page sz
        | None \<Rightarrow> ConnectionManager_OnlineList page sz (sv_manager s))"

definition HandleOnlineList :: "presence_server \<Rightarrow> string option \<Rightarrow> string option \<Rightarrow> string option \<Rightarrow> SocketEntry list option" where
  "HandleOnlineList s pageStr sizeStr scope = list_items s (resolvePresenceScope s scope) (query_page pageStr) (query_size sizeStr)"

definition onlineItemsForIDChat :: "presence_server \<Rightarrow> int \<Rightarrow> SocketEntry list option" where
  "onlineItemsForIDChat s sz = list_items s (if default_global s then ''global'' else ''local'') 1 sz"

record idchat_row =
  ir_globalMetaId :: string
  ir_lastSeenAt :: int
  ir_lastSeenAgoSeconds :: int
  ir_deviceCount :: int
  ir_userInfo :: "ProfileSnapshot option"

record idchat_online =
  io_total :: nat
  io_cursor :: string
  io_size :: int
  io_onlineWindowSeconds :: int
  io_list :: "idchat_row list"

definition idchat_row_of :: "int \<Rightarrow> SocketEntry \<Rightarrow> idchat_row" where
  "idchat_row_of now item =
     (let lastSeenAt = (if oe_LastSeenAt item = 0 then oe_ConnectedAt item else oe_LastSeenAt item)
      in \<lparr>ir_globalMetaId = (case oe_UserInfo item of None \<Rightarrow> oe_MetaId item
              | Some u \<Rightarrow> if pr_GlobalMetaId u \<noteq> '''' then pr_GlobalMetaId u else oe_MetaId item),
          ir_lastSeenAt = lastSeenAt,
          ir_lastSeenAgoSeconds = (if 0 < lastSeenAt \<and> lastSeenAt < now then (now - lastSeenAt) div 1000 else 0),
          ir_deviceCount = 1, ir_userInfo = oe_UserInfo item\<rparr>)"

definition HandleIdchatOnlineUsers :: "presence_server \<Rightarrow> int \<Rightarrow> string option \<Rightarrow> string option \<Rightarrow> idchat_online option" where
  "HandleIdchatOnlineUsers s now sizeStr cursor =
     map_option (\<lambda>items. \<lparr>io_total = length items, io_cursor = (case cursor of None \<Rightarrow> '''' | Some c \<Rightarrow> c), io_size = query_size sizeStr,
         io_onlineWindowSeconds = 35, io_list = map (idchat_row_of now) items\<rparr>)
       (onlineItemsForIDChat s (query_size sizeStr))"

definition HandleIdchatUserOnline :: "presence_server \<Rightarrow> string option \<Rightarrow> string option \<Rightarrow> bool" where
  "HandleIdchatUserOnline s metaIdQ globalMetaIdQ =
     (let q = (\<lambda>v. TrimSpace (case v of None \<Rightarrow> '''' | Some t \<Rightarrow> t));
          metaId = (if q metaIdQ = '''' then q globalMetaIdQ else q metaIdQ)
      in metaId \<noteq> '''' \<and> list_ex (\<lambda>entry. oe_MetaId entry = metaId) (ConnectionManager_OnlineEntries (sv_manager s)))"

datatype snapshot_answer = NotFound | ServiceUnavailable | SnapshotOK Snapshot

definition HandlePresenceSnapshot :: "(string + Snapshot option) option \<Rightarrow> snapshot_answer" where
  "HandlePresenceSnapshot provided =
     (case provided of None \<Rightarrow> NotFound | Some (Inr (Some snapshot)) \<Rightarrow> SnapshotOK snapshot | Some _ \<Rightarrow> ServiceUnavailable)"

subsection \<open>Targets of an event\<close>

text \<open>The identities an event is meant for.\<close>

definition meant_ids :: "'p NotifyEvent \<Rightarrow> string list" where
  "meant_ids evt = (if \<forall>i \<in> set (ne_TargetIds evt). TrimSpace i = '''' then [ne_MetaId evt, ne_GlobalMetaId evt] else ne_TargetIds evt)"

lemma notify_targets:
  "\<exists>seen. targets_ok U (meant_ids evt) (notifyEventTargetIds U evt, seen)"
proof -
  define st where "st = foldl (\<lambda>st i. add_target U i st) ([], []) (ne_TargetIds evt)"
  have ok: "targets_ok U (ne_TargetIds evt) st" by (simp add: st_def targets_ok_fold)
  show ?thesis
  proof (cases "fst st = []")
    case True
    then have blank: "\<forall>i \<in> set (ne_TargetIds evt). TrimSpace i = ''''" using targets_ok_empty [OF ok] by simp
    have "st = ([], [])" using True ok by (cases st) (auto simp: targets_ok_def)
    then have "targets_ok U [ne_MetaId evt, ne_GlobalMetaId evt] (add_target U (ne_GlobalMetaId evt) (add_target U (ne_MetaId evt) st))"
      using targets_ok_add [OF targets_ok_add [OF targets_ok_Nil]] by simp
    moreover have "notifyEventTargetIds U evt = fst (add_target U (ne_GlobalMetaId evt) (add_target U (ne_MetaId evt) st))"
      using True by (simp add: notifyEventTargetIds_def Let_def flip: st_def)
    moreover have "meant_ids evt = [ne_MetaId evt, ne_GlobalMetaId evt]" using blank by (simp add: meant_ids_def)
    ultimately show ?thesis by (metis prod.collapse)
  next
    case False
    then have "\<not> (\<forall>i \<in> set (ne_TargetIds evt). TrimSpace i = '''')" using targets_ok_empty [OF ok] by simp
    then have "meant_ids evt = ne_TargetIds evt" unfolding meant_ids_def by (rule if_not_P)
    moreover have "notifyEventTargetIds U evt = fst st" using False by (simp add: notifyEventTargetIds_def Let_def flip: st_def)
    ultimately show ?thesis using ok by (metis prod.collapse)
  qed
qed

lemma notify_targets_distinct: "distinct (notifyEventTargetIds U evt)"
  using notify_targets [of U evt] by (auto simp: targets_ok_def distinct_map)

subsection \<open>Who receives a push\<close>

lemma SendToUser_socks:
  "map fst (Server_SendToUser ns metaId msg) = map fst (filter (\<lambda>(sock, query). query_first query ''metaid'' = Some metaId) (ns_sockets ns))"
  by (simp add: Server_SendToUser_def comp_def split_def)

lemma SendToUser_set:
  "set (map fst (Server_SendToUser ns metaId msg)) = {sock. \<exists>query. (sock, query) \<in> set (ns_sockets ns) \<and> query_first query ''metaid'' = Some metaId}"
  unfolding SendToUser_socks by (auto simp: image_iff)

lemma send_users_distinct:
  assumes "distinct (map fst (ns_sockets ns))" and "distinct ids"
  shows "distinct (concat (map (\<lambda>i. map fst (Server_SendToUser ns i msg)) ids))"
  using assms(2)
proof (induction ids)
  case (Cons i ids)
  have inj: "q = q'" if "(sock, q) \<in> set (ns_sockets ns)" "(sock, q') \<in> set (ns_sockets ns)" for sock q q'
    using assms(1) that by (rule eq_key_imp_eq_value)
  have "distinct (map fst (Server_SendToUser ns i msg))"
    unfolding SendToUser_socks using assms(1) by (simp add: distinct_map_filter)
  then show ?case using Cons inj by (fastforce simp: SendToUser_socks)
qed simp

lemma route_private:
  assumes "ne_Type evt = ''WS_SERVER_NOTIFY_PRIVATE_CHAT''"
  shows "map fst (Server_routeNotifyEvent U ns (Some evt))
    = concat (map (\<lambda>i. map fst (Server_SendToUser ns i \<lparr>pe_M = ne_Type evt, pe_C = 0, pe_D = ne_Payload evt\<rparr>)) (notifyEventTargetIds U evt))"
  using assms by (simp add: Server_routeNotifyEvent_def Let_def map_concat comp_def)

subsection \<open>Pages\<close>

lemma query_page_pos: "1 \<le> query_page v"
  by (simp add: query_page_def split: option.split)

lemma query_size_range: "1 \<le> query_size v \<and> query_size v \<le> 100"
  by (simp add: query_size_def Let_def split: option.split)

lemma hydrate_length [simp]: "length (hydrateOnlineEntries s items) = length items"
  by (simp add: hydrateOnlineEntries_def split: option.split)

context global_reader
begin

text \<open>A server whose reader keeps the contract answers every page the arithmetic can address.\<close>

lemma list_items_global:
  assumes "sv_globalReader s = Some R" and "1 \<le> page" "1 \<le> sz" "page * sz < 2 ^ 63" and "global_for s scope \<noteq> None"
  shows "\<exists>items. list_items s scope page sz = Some items \<and> int (length items) \<le> sz"
proof -
  have "global_for s scope = Some R" using assms(1,5) by (auto simp: global_for_def split: if_splits)
  then show ?thesis using list_page [OF assms(2-4), of "ConnectionManager_OnlineEntries (sv_manager s)"]
    by (auto simp: list_items_def)
qed

end

lemma list_items_local:
  assumes "1 \<le> page" "1 \<le> sz" "page * sz < 2 ^ 63" and "global_for s scope = None"
  shows "\<exists>items. list_items s scope page sz = Some items \<and> int (length items) \<le> sz"
proof -
  let ?es = "ConnectionManager_onlineListEntriesLocked (sv_manager s)"
  have "ConnectionManager_OnlineList page sz (sv_manager s) = Some (page_of page sz ?es)"
    by (rule OnlineList_page [OF assms(1-3)])
  then show ?thesis using assms(2,4) by (simp add: list_items_def page_of_def)
qed

lemma list_items_answers:
  assumes "sv_globalReader s = None \<or> sv_globalReader s = Some (Store_reader now st)"
    and "1 \<le> page" "1 \<le> sz" "page * sz < 2 ^ 63"
  shows "\<exists>items. list_items s scope page sz = Some items \<and> int (length items) \<le> sz"
proof (cases "global_for s scope")
  case None
  then show ?thesis by (rule list_items_local [OF assms(2-4)])
next
  case (Some R)
  then have "sv_globalReader s = Some (Store_reader now st)" using assms(1) by (auto simp: global_for_def)
  then show ?thesis using store_reader.list_items_global [OF _ assms(2-4)] Some by blast
qed

definition demo_server :: presence_server where
  "demo_server = \<lparr>sv_unicode = \<lparr>u_lower = (\<lambda>s. s), u_upper = (\<lambda>s. s), u_fold = (=)\<rparr>, sv_url_path = (\<lambda>s. None), sv_profileLookup = None,
     sv_profileAssetBaseURL = '''', sv_globalReader = Some (Store_reader 0 demo_store), sv_manager = hb_manager one_app_hub\<rparr>"

definition demo_event :: "nat NotifyEvent" where
  "demo_event = \<lparr>ne_Type = ''WS_SERVER_NOTIFY_PRIVATE_CHAT'', ne_MetaId = '''', ne_GlobalMetaId = '''', ne_TargetIds = [''alice'', ''bob''],
     ne_GroupId = '''', ne_Payload = 7\<rparr>"

definition demo_namespace :: io_namespace where
  "demo_namespace = \<lparr>ns_sockets = [(1, [(''metaid'', [''alice''])]), (2, [(''metaid'', [''carol''])])], ns_rooms = (\<lambda>s. []), ns_RoomBroadcastEnabled = True\<rparr>"

lemma max_page_Atoi: "Atoi ''9223372036854775807'' = Some (2 ^ 63 - 1)"
  by (simp add: Atoi_def digits_val_def is_digit_def code_def int64_ok_def)

lemma max_page_query: "query_page (Some ''9223372036854775807'') = 2 ^ 63 - 1" "query_size (Some ''100'') = 100"
  by (simp_all add: query_page_def query_size_def max_page_Atoi) (simp add: Atoi_def digits_val_def is_digit_def code_def int64_ok_def)

lemma max_page_wraps: "wrap64 (wrap64 (2 ^ 63 - 1 - 1) * 100) = - 200"
  by (simp add: wrap64_def signed_take_bit_eq_take_bit_minus take_bit_eq_mod)

subsection \<open>Properties\<close>

text \<open>The targets of an event are its target IDs, or its metaid and global metaid when no target ID is given: trimmed,
  never blank, no two equal up to case, and every non-blank identity is represented up to case.\<close>

lemma notify_targets_exact:
  "distinct (map (ToLower U) (notifyEventTargetIds U evt))
   \<and> set (notifyEventTargetIds U evt) \<subseteq> TrimSpace ` set (meant_ids evt) - {''''}
   \<and> ToLower U ` (TrimSpace ` set (meant_ids evt) - {''''}) = ToLower U ` set (notifyEventTargetIds U evt)"
  using notify_targets [of U evt] by (auto simp: targets_ok_def)

text \<open>A private-chat event reaches every connected socket whose handshake identity is one of the targets, once, and no
  other socket.\<close>

lemma private_push_once:
  assumes "distinct (map fst (ns_sockets ns))" and "ne_Type evt = ''WS_SERVER_NOTIFY_PRIVATE_CHAT''"
  shows "distinct (map fst (Server_routeNotifyEvent U ns (Some evt)))
    \<and> fst ` set (Server_routeNotifyEvent U ns (Some evt))
      = {sock. \<exists>query t. (sock, query) \<in> set (ns_sockets ns) \<and> t \<in> set (notifyEventTargetIds U evt) \<and> query_first query ''metaid'' = Some t}"
proof
  show "distinct (map fst (Server_routeNotifyEvent U ns (Some evt)))"
    unfolding route_private [OF assms(2)] by (rule send_users_distinct [OF assms(1) notify_targets_distinct])
  have "fst ` set (Server_routeNotifyEvent U ns (Some evt)) = set (map fst (Server_routeNotifyEvent U ns (Some evt)))" by simp
  then show "fst ` set (Server_routeNotifyEvent U ns (Some evt))
      = {sock. \<exists>query t. (sock, query) \<in> set (ns_sockets ns) \<and> t \<in> set (notifyEventTargetIds U evt) \<and> query_first query ''metaid'' = Some t}"
    unfolding route_private [OF assms(2)] by (simp add: SendToUser_set [simplified]) blast
qed

theorem private_push_once_witness:
  "distinct (map fst (Server_routeNotifyEvent (sv_unicode demo_server) demo_namespace (Some demo_event)))"
  by (rule conjunct1 [OF private_push_once]) (simp_all add: demo_namespace_def demo_event_def)

text \<open>C38: the online list answers every page whose last row has a 64-bit index, with at most the asked number of
  rows and never more than 100, in both scopes.\<close>

lemma online_list_answers:
  assumes "sv_globalReader s = None \<or> sv_globalReader s = Some (Store_reader now st)" and "query_page pageStr * 100 < 2 ^ 63"
  shows "\<exists>items. HandleOnlineList s pageStr sizeStr scope = Some items \<and> int (length items) \<le> query_size sizeStr \<and> query_size sizeStr \<le> 100"
proof -
  have "query_page pageStr * query_size sizeStr \<le> query_page pageStr * 100"
    using query_page_pos [of pageStr] query_size_range [of sizeStr] by (intro mult_left_mono) auto
  then show ?thesis
    using list_items_answers [OF assms(1) query_page_pos, of "query_size sizeStr" pageStr] query_size_range [of sizeStr] assms(2)
    by (auto simp: HandleOnlineList_def)
qed

theorem online_list_answers_witness:
  "\<exists>items. HandleOnlineList demo_server (Some ''1'') None (Some ''global'') = Some items
     \<and> int (length items) \<le> query_size None \<and> query_size None \<le> 100"
proof (rule online_list_answers)
  show "sv_globalReader demo_server = None \<or> sv_globalReader demo_server = Some (Store_reader 0 demo_store)" by (simp add: demo_server_def)
  show "query_page (Some ''1'') * 100 < 2 ^ 63" by (simp add: query_page_def Atoi_def digits_val_def is_digit_def code_def int64_ok_def)
qed

text \<open>Beyond that the page arithmetic wraps. For the largest page number and the page size 100 the global list panics
  whatever it holds, and the local list answers with its first page.\<close>

lemma page_query_overflow:
  "Store_OnlineList local (2 ^ 63 - 1) 100 now st = None
   \<and> HandleOnlineList (s\<lparr>sv_globalReader := Some (Store_reader now st\<lparr>gr_Enabled := True\<rparr>)\<rparr>) (Some ''9223372036854775807'') (Some ''100'') (Some ''global'') = None
   \<and> ConnectionManager_OnlineList (2 ^ 63 - 1) 100 m = Some (take 100 (ConnectionManager_onlineListEntriesLocked m))"
proof (intro conjI)
  show g: "Store_OnlineList local (2 ^ 63 - 1) 100 now st = None" for local
    unfolding Store_OnlineList_def paginatePresence_def Let_def using max_page_wraps by (simp add: slice_of_def)
  have t: "TrimSpace ''global'' = ''global''" by (auto intro!: TrimSpace_graphic simp: graphic_def code_def)
  show "HandleOnlineList (s\<lparr>sv_globalReader := Some (Store_reader now st\<lparr>gr_Enabled := True\<rparr>)\<rparr>) (Some ''9223372036854775807'') (Some ''100'') (Some ''global'') = None"
    unfolding HandleOnlineList_def max_page_query list_items_def
    using g by (simp add: resolvePresenceScope_def t ToLower_fixed code_def global_for_def Store_reader_def)
  show "ConnectionManager_OnlineList (2 ^ 63 - 1) 100 m = Some (take 100 (ConnectionManager_onlineListEntriesLocked m))"
    unfolding ConnectionManager_OnlineList_def Let_def using max_page_wraps
    by (auto simp: slice_of_def wrap64_ok int64_ok_def)
qed

text \<open>The idchat online list always answers: it asks for the first page only, and gives at most the asked number of
  rows. Every row shows its connection time when no ping was recorded.\<close>

lemma idchat_users_answer:
  assumes "sv_globalReader s = None \<or> sv_globalReader s = Some (Store_reader now st)"
  shows "\<exists>r. HandleIdchatOnlineUsers s t sizeStr cursor = Some r \<and> io_total r = length (io_list r) \<and> int (io_total r) \<le> io_size r
    \<and> (\<forall>row \<in> set (io_list r). 0 \<le> ir_lastSeenAgoSeconds row)"
proof -
  obtain items where items: "onlineItemsForIDChat s (query_size sizeStr) = Some items" "int (length items) \<le> query_size sizeStr"
    using list_items_answers [OF assms, of 1 "query_size sizeStr"] query_size_range [of sizeStr]
    by (auto simp: onlineItemsForIDChat_def)
  have "0 \<le> ir_lastSeenAgoSeconds (idchat_row_of t item)" for item
    by (auto simp: idchat_row_of_def Let_def intro!: pos_imp_zdiv_nonneg_iff [THEN iffD2])
  then show ?thesis using items by (auto simp: HandleIdchatOnlineUsers_def)
qed

text \<open>A user is reported online exactly when a connection of that identity is tracked.\<close>

lemma user_online_iff:
  assumes "TrimSpace m = m" and "m \<noteq> ''''"
  shows "HandleIdchatUserOnline s (Some m) g \<longleftrightarrow> (\<exists>c \<in> set (all_conns (sv_manager s)). tc_MetaId c = m)"
  using assms
  by (simp add: HandleIdchatUserOnline_def Let_def list_ex_iff ConnectionManager_OnlineEntries_def
      ConnectionManager_onlineEntriesLocked_def onlineListEntry_def)

end
