(* ===== verification/FedCrypto.thy ===== *)
theory FedCrypto
  imports FedStore Sha256
begin

text \<open>
  Signed presence snapshots: \<open>internal/federation/signature.go\<close> and \<open>snapshot.go\<close>.

  The elliptic-curve and address code of \<open>btcec\<close>, \<open>bsvec\<close> and \<open>bsvutil\<close> is the parameter
  \<open>crypto\<close>; \<open>crypto_ok\<close> says what the code relies on: a public key derived from a valid private
  key serialises to 33 bytes that parse back, and a signature made with the private key parses
  and verifies. \<open>encoding/json\<close> works by reflection over the struct types; its results on the
  types of this package are the parameter \<open>json_codec\<close>. Errors are the text of the error value.
\<close>

type_synonym 'a res = "string + 'a"

record crypto =
  ec_PubKey :: "bytes \<Rightarrow> bytes"
  ec_Sign :: "bytes \<Rightarrow> byte list \<Rightarrow> bytes"
  ec_ParsePubKey :: "bytes \<Rightarrow> bytes option"
  ec_ParseDERSignature :: "bytes \<Rightarrow> bytes option"
  ec_Verify :: "bytes \<Rightarrow> byte list \<Rightarrow> bytes \<Rightarrow> bool"
  ec_N :: nat
  bsv_LegacyAddress :: "string \<Rightarrow> bytes \<Rightarrow> string"

record RegistryPayload =
  rp_Protocol :: string
  rp_Version :: string
  rp_NodeID :: string
  rp_Network :: string
  rp_PublicBaseURL :: string
  rp_SocketURL :: string
  rp_PresenceURL :: string
  rp_PublicKey :: string
  rp_Capabilities :: "string list"
  rp_PublishedAt :: int
  rp_ValidUntil :: int

record signableSnapshot =
  ss_Protocol :: string
  ss_Version :: string
  ss_NodeID :: string
  ss_GeneratedAt :: int
  ss_TTLSeconds :: int
  ss_Sequence :: nat
  ss_Items :: "OnlineEntry list"

record json_codec =
  js_MarshalSignable :: "signableSnapshot \<Rightarrow> bytes res"
  js_UnmarshalSnapshot :: "bytes \<Rightarrow> Snapshot res"
  js_MarshalPayload :: "RegistryPayload \<Rightarrow> bytes res"
  js_UnmarshalPayload :: "bytes \<Rightarrow> RegistryPayload res"

definition ProtocolNode :: string where "ProtocolNode = ''metaso-p2p-node''"
definition ProtocolPresence :: string where "ProtocolPresence = ''metaso-p2p-presence''"
definition RegistryPath :: string where "RegistryPath = ''/protocols/metaso-p2p-node''"
definition PresencePath :: string where "PresencePath = ''/.well-known/metaso-p2p/presence''"
definition Version :: string where "Version = ''1.0.0''"

subsection \<open>Hexadecimal, \<open>encoding/hex\<close>\<close>

definition hex_digit :: "nat \<Rightarrow> char" where
  "hex_digit n = (if n < 10 then char_of (48 + n) else char_of (87 + n))"

definition hex_value :: "char \<Rightarrow> nat option" where
  "hex_value c =
     (let n = code c
      in if 48 \<le> n \<and> n \<le> 57 then Some (n - 48)
         else if 97 \<le> n \<and> n \<le> 102 then Some (n - 87)
         else if 65 \<le> n \<and> n \<le> 70 then Some (n - 55)
         else None)"

definition hex_EncodeToString :: "bytes \<Rightarrow> string" where
  "hex_EncodeToString bs = concat (map (\<lambda>b. [hex_digit (code b div 16), hex_digit (code b mod 16)]) bs)"

fun hex_DecodeString :: "string \<Rightarrow> bytes option" where
  "hex_DecodeString [] = Some []"
| "hex_DecodeString [c] = None"
| "hex_DecodeString (a # b # s) =
     (case (hex_value a, hex_value b) of
        (Some x, Some y) \<Rightarrow> map_option (\<lambda>r. char_of (16 * x + y) # r) (hex_DecodeString s)
      | _ \<Rightarrow> None)"

definition byte_words :: "bytes \<Rightarrow> byte list" where
  "byte_words s = map (\<lambda>c. word_of_nat (code c)) s"

definition big_endian :: "bytes \<Rightarrow> nat" where
  "big_endian s = foldl (\<lambda>n c. 256 * n + code c) 0 s"

subsection \<open>Signatures\<close>

definition decodeHexField :: "string \<Rightarrow> string \<Rightarrow> bytes res" where
  "decodeHexField v name =
     (let trimmed = TrimSpace v
      in if trimmed = '''' then Inl (name @ '' is required'')
         else case hex_DecodeString trimmed of None \<Rightarrow> Inl (''decode '' @ name @ '' hex'') | Some d \<Rightarrow> Inr d)"

definition parsePrivateKeyHex :: "crypto \<Rightarrow> string \<Rightarrow> bytes res" where
  "parsePrivateKeyHex C privateKeyHex =
     (case decodeHexField privateKeyHex ''private key'' of
        Inl e \<Rightarrow> Inl e
      | Inr decoded \<Rightarrow>
          (if length decoded \<noteq> 32 then Inl ''private key must be 32 bytes''
           else if big_endian decoded = 0 then Inl ''private key must be greater than zero''
           else if ec_N C \<le> big_endian decoded then Inl ''private key must be less than the secp256k1 group order''
           else Inr decoded))"

definition parsePublicKeyHex :: "crypto \<Rightarrow> string \<Rightarrow> bytes res" where
  "parsePublicKeyHex C publicKeyHex =
     (case decodeHexField publicKeyHex ''public key'' of
        Inl e \<Rightarrow> Inl e
      | Inr decoded \<Rightarrow>
          (if length decoded \<noteq> 33 then Inl ''public key must be compressed 33 bytes''
           else if hd decoded \<noteq> CHR 0x02 \<and> hd decoded \<noteq> CHR 0x03
             then Inl ''public key must use compressed secp256k1 prefix 0x02 or 0x03''
           else case ec_ParsePubKey C decoded of None \<Rightarrow> Inl ''parse public key'' | Some pk \<Rightarrow> Inr pk))"

definition parseDERSignatureHex :: "crypto \<Rightarrow> string \<Rightarrow> bytes res" where
  "parseDERSignatureHex C signatureHex =
     (case decodeHexField signatureHex ''signature'' of
        Inl e \<Rightarrow> Inl e
      | Inr decoded \<Rightarrow> (case ec_ParseDERSignature C decoded of None \<Rightarrow> Inl ''parse signature'' | Some sg \<Rightarrow> Inr sg))"

definition CanonicalSnapshotPayload :: "json_codec \<Rightarrow> Snapshot \<Rightarrow> bytes res" where
  "CanonicalSnapshotPayload J sn =
     js_MarshalSignable J
       \<lparr>ss_Protocol = sn_Protocol sn, ss_Version = sn_Version sn, ss_NodeID = sn_NodeID sn,
        ss_GeneratedAt = sn_GeneratedAt sn, ss_TTLSeconds = sn_TTLSeconds sn, ss_Sequence = sn_Sequence sn,
        ss_Items = sn_Items sn\<rparr>"

definition SignSnapshot :: "crypto \<Rightarrow> json_codec \<Rightarrow> Snapshot \<Rightarrow> string \<Rightarrow> string res" where
  "SignSnapshot C J sn privateKeyHex =
     (case CanonicalSnapshotPayload J sn of
        Inl e \<Rightarrow> Inl e
      | Inr payload \<Rightarrow>
          (case parsePrivateKeyHex C privateKeyHex of
             Inl e \<Rightarrow> Inl e
           | Inr privateKey \<Rightarrow> Inr (hex_EncodeToString (ec_Sign C privateKey (Sum256 (byte_words payload))))))"

definition VerifySnapshot :: "crypto \<Rightarrow> json_codec \<Rightarrow> Snapshot \<Rightarrow> string \<Rightarrow> string \<Rightarrow> unit res" where
  "VerifySnapshot C J sn expectedNodeID publicKeyHex =
     (if sn_NodeID sn \<noteq> expectedNodeID then Inl ''snapshot nodeId does not match expected node''
      else case parseDERSignatureHex C (sn_Signature sn) of
        Inl e \<Rightarrow> Inl e
      | Inr sg \<Rightarrow>
          (case parsePublicKeyHex C publicKeyHex of
             Inl e \<Rightarrow> Inl e
           | Inr publicKey \<Rightarrow>
               (case CanonicalSnapshotPayload J sn of
                  Inl e \<Rightarrow> Inl e
                | Inr payload \<Rightarrow>
                    (if \<not> ec_Verify C sg (Sum256 (byte_words payload)) publicKey
                     then Inl ''snapshot signature verification failed'' else Inr ()))))"

subsection \<open>The snapshot builder\<close>

text \<open>\<open>sb_nextSeq\<close> is a \<open>uint64\<close>; \<open>nextSequence\<close> is the default sequence generator.\<close>

record SnapshotBuilder =
  sb_nodeID :: string
  sb_ttlSeconds :: int
  sb_privateKey :: string
  sb_nextSeq :: nat

definition NewSnapshotBuilder :: "string \<Rightarrow> int \<Rightarrow> string \<Rightarrow> SnapshotBuilder" where
  "NewSnapshotBuilder nodeID ttlSeconds privateKeyHex =
     \<lparr>sb_nodeID = nodeID, sb_ttlSeconds = ttlSeconds, sb_privateKey = privateKeyHex, sb_nextSeq = 0\<rparr>"

definition nextSequence :: "SnapshotBuilder \<Rightarrow> nat \<times> SnapshotBuilder" where
  "nextSequence b = (let n = (sb_nextSeq b + 1) mod 2 ^ 64 in (n, b\<lparr>sb_nextSeq := n\<rparr>))"

definition snapshot_rank :: "OnlineEntry \<Rightarrow> string \<times> string \<times> int \<times> int" where
  "snapshot_rank e = (oe_MetaId e, oe_Type e, oe_ConnectedAt e, oe_LastSeenAt e)"

definition SnapshotBuilder_Snapshot ::
    "crypto \<Rightarrow> json_codec \<Rightarrow> OnlineEntry list \<Rightarrow> int \<Rightarrow> SnapshotBuilder \<Rightarrow> Snapshot res \<times> SnapshotBuilder" where
  "SnapshotBuilder_Snapshot C J entries now b =
     (let items = sort_key snapshot_rank entries;
          (sq, b1) = nextSequence b;
          snapshot = \<lparr>sn_Protocol = ProtocolPresence, sn_Version = Version, sn_NodeID = sb_nodeID b,
            sn_GeneratedAt = UnixMilli now, sn_TTLSeconds = sb_ttlSeconds b, sn_Sequence = sq, sn_Items = items, sn_Signature = ''''\<rparr>
      in if sb_privateKey b \<noteq> '''' then
           (case SignSnapshot C J snapshot (sb_privateKey b) of
              Inl e \<Rightarrow> (Inl (''sign federation snapshot: '' @ e), b1)
            | Inr sg \<Rightarrow> (Inr (snapshot\<lparr>sn_Signature := sg\<rparr>), b1))
         else (Inr snapshot, b1))"

definition servicePresenceTTLSeconds :: "int \<Rightarrow> int" where
  "servicePresenceTTLSeconds ttl =
     (if ttl \<le> 0 then 0
      else (let seconds0 = ttl div 1000000000;
                seconds = (if ttl mod 1000000000 \<noteq> 0 then seconds0 + 1 else seconds0)
            in if seconds \<le> 0 then 1 else seconds))"

subsection \<open>What the code relies on\<close>

definition crypto_ok :: "crypto \<Rightarrow> bool" where
  "crypto_ok C \<longleftrightarrow>
     (\<forall>k. length k = 32 \<longrightarrow> 0 < big_endian k \<longrightarrow> big_endian k < ec_N C \<longrightarrow>
        length (ec_PubKey C k) = 33 \<and> hd (ec_PubKey C k) \<in> {CHR 0x02, CHR 0x03}
      \<and> ec_ParsePubKey C (ec_PubKey C k) = Some (ec_PubKey C k)
      \<and> (\<forall>h. ec_Sign C k h \<noteq> [] \<and> (\<exists>sg. ec_ParseDERSignature C (ec_Sign C k h) = Some sg \<and> ec_Verify C sg h (ec_PubKey C k))))"

subsection \<open>Hexadecimal fields\<close>

lemma hex_digit_code: "n < 16 \<Longrightarrow> code (hex_digit n) = (if n < 10 then 48 + n else 87 + n)"
  by (simp add: hex_digit_def)

lemma hex_value_digit: "n < 16 \<Longrightarrow> hex_value (hex_digit n) = Some n"
  by (auto simp: hex_value_def hex_digit_code Let_def)

lemma hex_roundtrip: "hex_DecodeString (hex_EncodeToString bs) = Some bs"
proof (induction bs)
  case Nil
  then show ?case by (simp add: hex_EncodeToString_def)
next
  case (Cons b bs)
  have "code b < 256" by (simp add: code_def)
  then have "code b div 16 < 16" by simp
  moreover have "char_of (16 * (code b div 16) + code b mod 16) = b"
    unfolding mult_div_mod_eq by (simp add: code_def)
  ultimately show ?case using Cons by (simp add: hex_EncodeToString_def hex_value_digit)
qed

definition hex_char :: "char \<Rightarrow> bool" where
  "hex_char c \<longleftrightarrow> 48 \<le> code c \<and> code c \<le> 102"

lemma hex_encode_chars: "c \<in> set (hex_EncodeToString bs) \<Longrightarrow> hex_char c"
proof -
  have "hex_char (hex_digit n)" if "n < 16" for n using that by (auto simp: hex_char_def hex_digit_code)
  moreover have "code b div 16 < 16" for b
  proof -
    have "code b < 256" by (simp add: code_def)
    then show ?thesis by simp
  qed
  ultimately show "c \<in> set (hex_EncodeToString bs) \<Longrightarrow> hex_char c" by (auto simp: hex_EncodeToString_def)
qed

lemma TrimSpace_hex: "TrimSpace (hex_EncodeToString bs) = hex_EncodeToString bs"
  by (rule TrimSpace_graphic) (use hex_encode_chars in \<open>force simp: list_all_iff hex_char_def graphic_def\<close>)

lemma decodeHexField_encode: "bs \<noteq> [] \<Longrightarrow> decodeHexField (hex_EncodeToString bs) name = Inr bs"
proof -
  assume "bs \<noteq> []"
  then have "hex_EncodeToString bs \<noteq> []" by (cases bs) (simp_all add: hex_EncodeToString_def)
  then show ?thesis by (simp add: decodeHexField_def Let_def TrimSpace_hex hex_roundtrip)
qed

subsection \<open>Signing and verifying\<close>

lemma parsePrivateKeyHex_ok:
  assumes "parsePrivateKeyHex C s = Inr k"
  shows "length k = 32" and "0 < big_endian k" and "big_endian k < ec_N C"
  using assms by (auto simp: parsePrivateKeyHex_def split: sum.splits if_splits)

lemma parsePublicKeyHex_PubKey:
  assumes "crypto_ok C" and "parsePrivateKeyHex C s = Inr k"
  shows "parsePublicKeyHex C (hex_EncodeToString (ec_PubKey C k)) = Inr (ec_PubKey C k)"
proof -
  have k: "length (ec_PubKey C k) = 33" "hd (ec_PubKey C k) \<in> {CHR 0x02, CHR 0x03}"
    "ec_ParsePubKey C (ec_PubKey C k) = Some (ec_PubKey C k)"
    using assms(1) parsePrivateKeyHex_ok [OF assms(2)] by (auto simp: crypto_ok_def)
  then have "ec_PubKey C k \<noteq> []" by auto
  with k show ?thesis by (auto simp: parsePublicKeyHex_def decodeHexField_encode)
qed

lemma verify_signed:
  assumes C: "crypto_ok C" and key: "parsePrivateKeyHex C s = Inr k" and "SignSnapshot C J sn s = Inr sg"
  shows "VerifySnapshot C J (sn\<lparr>sn_Signature := sg\<rparr>) (sn_NodeID sn) (hex_EncodeToString (ec_PubKey C k)) = Inr ()"
proof -
  obtain payload where p: "CanonicalSnapshotPayload J sn = Inr payload"
    and sg: "sg = hex_EncodeToString (ec_Sign C k (Sum256 (byte_words payload)))"
    using assms(3) key by (auto simp: SignSnapshot_def split: sum.splits)
  let ?h = "Sum256 (byte_words payload)"
  obtain v where v: "ec_ParseDERSignature C (ec_Sign C k ?h) = Some v" "ec_Verify C v ?h (ec_PubKey C k)" "ec_Sign C k ?h \<noteq> []"
    using C parsePrivateKeyHex_ok [OF key] unfolding crypto_ok_def by metis
  have "CanonicalSnapshotPayload J (sn\<lparr>sn_Signature := sg\<rparr>) = Inr payload"
    using p by (simp add: CanonicalSnapshotPayload_def)
  with v parsePublicKeyHex_PubKey [OF C key] show ?thesis
    by (simp add: VerifySnapshot_def parseDERSignatureHex_def sg decodeHexField_encode)
qed

lemma Snapshot_cases:
  assumes "SnapshotBuilder_Snapshot C J entries now b = (Inr sn, b')"
  obtains sn0 where "sn_NodeID sn0 = sb_nodeID b" and "sn_Items sn0 = sort_key snapshot_rank entries"
    and "sn_Sequence sn0 = (sb_nextSeq b + 1) mod 2 ^ 64" and "sn_Protocol sn0 = ProtocolPresence" and "sn_Version sn0 = Version"
    and "sn_GeneratedAt sn0 = UnixMilli now" and "sn_TTLSeconds sn0 = sb_ttlSeconds b"
    and "b' = b\<lparr>sb_nextSeq := (sb_nextSeq b + 1) mod 2 ^ 64\<rparr>"
    and "sb_privateKey b = [] \<Longrightarrow> sn = sn0"
    and "sb_privateKey b \<noteq> [] \<Longrightarrow> \<exists>sg. SignSnapshot C J sn0 (sb_privateKey b) = Inr sg \<and> sn = sn0\<lparr>sn_Signature := sg\<rparr>"
proof
  let ?sn0 = "\<lparr>sn_Protocol = ProtocolPresence, sn_Version = Version, sn_NodeID = sb_nodeID b,
            sn_GeneratedAt = UnixMilli now, sn_TTLSeconds = sb_ttlSeconds b, sn_Sequence = (sb_nextSeq b + 1) mod 2 ^ 64,
            sn_Items = sort_key snapshot_rank entries, sn_Signature = ''''\<rparr>"
  show "sn_NodeID ?sn0 = sb_nodeID b" "sn_Items ?sn0 = sort_key snapshot_rank entries"
    "sn_Sequence ?sn0 = (sb_nextSeq b + 1) mod 2 ^ 64" "sn_Protocol ?sn0 = ProtocolPresence" "sn_Version ?sn0 = Version"
    "sn_GeneratedAt ?sn0 = UnixMilli now" "sn_TTLSeconds ?sn0 = sb_ttlSeconds b" by simp_all
  show "b' = b\<lparr>sb_nextSeq := (sb_nextSeq b + 1) mod 2 ^ 64\<rparr>"
    using assms by (auto simp: SnapshotBuilder_Snapshot_def nextSequence_def Let_def split: sum.splits if_splits)
  show "sb_privateKey b = [] \<Longrightarrow> sn = ?sn0"
    using assms by (auto simp: SnapshotBuilder_Snapshot_def nextSequence_def Let_def)
  show "sb_privateKey b \<noteq> [] \<Longrightarrow> \<exists>sg. SignSnapshot C J ?sn0 (sb_privateKey b) = Inr sg \<and> sn = ?sn0\<lparr>sn_Signature := sg\<rparr>"
    using assms by (auto simp: SnapshotBuilder_Snapshot_def nextSequence_def Let_def split: sum.splits)
qed

lemma snapshot_fields:
  assumes "SnapshotBuilder_Snapshot C J entries now b = (Inr sn, b')"
  shows "sn_NodeID sn = sb_nodeID b" and "sn_Sequence sn = (sb_nextSeq b + 1) mod 2 ^ 64" and "sn_Protocol sn = ProtocolPresence"
    and "sn_Version sn = Version" and "sn_GeneratedAt sn = UnixMilli now" and "sn_TTLSeconds sn = sb_ttlSeconds b"
    and "sn_Items sn = sort_key snapshot_rank entries"
proof -
  obtain sn0 where sn0: "sn_NodeID sn0 = sb_nodeID b" "sn_Sequence sn0 = (sb_nextSeq b + 1) mod 2 ^ 64"
    "sn_Protocol sn0 = ProtocolPresence" "sn_Version sn0 = Version" "sn_GeneratedAt sn0 = UnixMilli now"
    "sn_TTLSeconds sn0 = sb_ttlSeconds b" "sn_Items sn0 = sort_key snapshot_rank entries" "\<exists>sg. sn = sn0\<lparr>sn_Signature := sg\<rparr>"
    by (rule Snapshot_cases [OF assms]) (metis Snapshot.surjective Snapshot.update_convs(8))
  then show "sn_NodeID sn = sb_nodeID b" "sn_Sequence sn = (sb_nextSeq b + 1) mod 2 ^ 64" "sn_Protocol sn = ProtocolPresence"
    "sn_Version sn = Version" "sn_GeneratedAt sn = UnixMilli now" "sn_TTLSeconds sn = sb_ttlSeconds b"
    "sn_Items sn = sort_key snapshot_rank entries" by auto
qed

lemma snapshot_verifies:
  assumes "crypto_ok C" and "parsePrivateKeyHex C (sb_privateKey b) = Inr k"
    and "SnapshotBuilder_Snapshot C J entries now b = (Inr sn, b')"
  shows "VerifySnapshot C J sn (sb_nodeID b) (hex_EncodeToString (ec_PubKey C k)) = Inr ()"
proof -
  have ne: "sb_privateKey b \<noteq> []" using assms(2) by (auto simp: parsePrivateKeyHex_def decodeHexField_def)
  show ?thesis
    by (rule Snapshot_cases [OF assms(3)]) (use ne verify_signed [OF assms(1,2)] in metis)
qed

text \<open>A cryptosystem for concrete runs: the public key is the private key with a prefix byte, and a
  signature is the digest.\<close>

definition toy_crypto :: crypto where
  "toy_crypto = \<lparr>ec_PubKey = (\<lambda>k. CHR 0x02 # k), ec_Sign = (\<lambda>k h. map (\<lambda>w. char_of (unat w)) (0 # h)),
     ec_ParsePubKey = Some, ec_ParseDERSignature = Some,
     ec_Verify = (\<lambda>sg h pk. sg = map (\<lambda>w. char_of (unat w)) (0 # h)), ec_N = 2 ^ 256,
     bsv_LegacyAddress = (\<lambda>net pk. [last pk])\<rparr>"

lemma toy_crypto_ok: "crypto_ok toy_crypto"
  by (simp add: crypto_ok_def toy_crypto_def)

definition plain_json :: json_codec where
  "plain_json = \<lparr>js_MarshalSignable = (\<lambda>s. Inr (ss_NodeID s)), js_UnmarshalSnapshot = (\<lambda>b. Inl ''no input''),
     js_MarshalPayload = (\<lambda>p. Inr (rp_NodeID p)), js_UnmarshalPayload = (\<lambda>b. Inl ''no input'')\<rparr>"

definition one_key :: bytes where
  "one_key = replicate 31 (CHR 0x00) @ [CHR 0x01]"

definition demo_key :: string where
  "demo_key = hex_EncodeToString one_key"

lemma one_key_value: "big_endian one_key = 1"
proof -
  have "foldl (\<lambda>n c. 256 * n + code c) 0 (replicate k (CHR 0x00)) = 0" for k
    by (induction k) (simp_all add: code_def)
  then show ?thesis by (simp add: big_endian_def one_key_def code_def)
qed

lemma demo_key_parse: "parsePrivateKeyHex toy_crypto demo_key = Inr one_key"
  using one_key_value
  by (simp add: parsePrivateKeyHex_def demo_key_def decodeHexField_encode one_key_def toy_crypto_def)

lemma demo_key_nonempty: "demo_key \<noteq> []"
  by (simp add: demo_key_def one_key_def hex_EncodeToString_def)

subsection \<open>Properties\<close>

text \<open>A snapshot that the builder signs with its node key is accepted by \<open>VerifySnapshot\<close> under the
  node's ID and the hexadecimal public key of that node key.\<close>

lemma built_snapshot_verifies:
  assumes "crypto_ok C" and "parsePrivateKeyHex C (sb_privateKey b) = Inr k"
    and "SnapshotBuilder_Snapshot C J entries now b = (Inr sn, b')"
  shows "VerifySnapshot C J sn (sb_nodeID b) (hex_EncodeToString (ec_PubKey C k)) = Inr ()"
  using assms by (rule snapshot_verifies)

definition demo_builder :: SnapshotBuilder where
  "demo_builder = NewSnapshotBuilder ''mvc:n1'' 60 demo_key"

theorem built_snapshot_verifies_witness:
  "VerifySnapshot toy_crypto plain_json
     (projr (fst (SnapshotBuilder_Snapshot toy_crypto plain_json [entry_of ''a'' ''pc'' 5 9] 1000000 demo_builder)))
     (sb_nodeID demo_builder) (hex_EncodeToString (ec_PubKey toy_crypto one_key)) = Inr ()"
  by (rule built_snapshot_verifies [OF toy_crypto_ok,
        where b' = "snd (SnapshotBuilder_Snapshot toy_crypto plain_json [entry_of ''a'' ''pc'' 5 9] 1000000 demo_builder)"
          and entries = "[entry_of ''a'' ''pc'' 5 9]" and now = 1000000])
    (simp_all add: demo_builder_def NewSnapshotBuilder_def demo_key_parse SnapshotBuilder_Snapshot_def nextSequence_def
      SignSnapshot_def CanonicalSnapshotPayload_def plain_json_def Let_def demo_key_nonempty)

text \<open>The snapshot of a node does not depend on the order in which the connection manager lists the
  connections, so two requests in the same state cover the same bytes; and it lists every
  connection exactly once.\<close>

lemma snapshot_order_independent:
  assumes "mset entries = mset entries'" and "\<forall>e \<in> set entries. oe_SourceNodeIds e = [] \<and> oe_Sources e = 0"
  shows "SnapshotBuilder_Snapshot C J entries now b = SnapshotBuilder_Snapshot C J entries' now b
    \<and> (\<forall>sn b'. SnapshotBuilder_Snapshot C J entries now b = (Inr sn, b') \<longrightarrow> mset (sn_Items sn) = mset entries)"
proof
  have "inj_on snapshot_rank (set entries)"
    using assms(2) by (auto simp: inj_on_def snapshot_rank_def)
  then have eq: "sort_key snapshot_rank entries = sort_key snapshot_rank entries'"
    by (rule sort_key_eq_sort_key [OF assms(1)])
  then show "SnapshotBuilder_Snapshot C J entries now b = SnapshotBuilder_Snapshot C J entries' now b"
    by (simp add: SnapshotBuilder_Snapshot_def)
  show "\<forall>sn b'. SnapshotBuilder_Snapshot C J entries now b = (Inr sn, b') \<longrightarrow> mset (sn_Items sn) = mset entries"
  proof (intro allI impI)
    fix sn b' assume "SnapshotBuilder_Snapshot C J entries now b = (Inr sn, b')"
    then show "mset (sn_Items sn) = mset entries"
      using snapshot_fields(7) by simp
  qed
qed

theorem snapshot_order_independent_witness:
  "SnapshotBuilder_Snapshot toy_crypto plain_json [entry_of ''a'' ''pc'' 5 9, entry_of ''b'' ''pc'' 5 9] 0 demo_builder
     = SnapshotBuilder_Snapshot toy_crypto plain_json [entry_of ''b'' ''pc'' 5 9, entry_of ''a'' ''pc'' 5 9] 0 demo_builder"
  by (rule conjunct1 [OF snapshot_order_independent]) (simp_all add: entry_of_def)

text \<open>The advertised time to live is the configured one rounded up to whole seconds.\<close>

lemma ttl_rounds_up:
  assumes "0 < ttl"
  shows "ttl \<le> servicePresenceTTLSeconds ttl * 1000000000 \<and> servicePresenceTTLSeconds ttl * 1000000000 < ttl + 1000000000"
proof -
  define q r where "q = ttl div 1000000000" and "r = ttl mod 1000000000"
  then have "ttl = 1000000000 * q + r" "0 \<le> r" "r < 1000000000" by simp_all
  with assms show ?thesis
    unfolding servicePresenceTTLSeconds_def Let_def q_def [symmetric] r_def [symmetric] by (cases "r = 0") auto
qed

theorem ttl_rounds_up_witness:
  "(1500000000 :: int) \<le> servicePresenceTTLSeconds 1500000000 * 1000000000
   \<and> servicePresenceTTLSeconds 1500000000 * 1000000000 < 1500000000 + 1000000000"
  by (rule ttl_rounds_up) simp

end
