(* ===== verification/FedDiscovery.thy ===== *)
theory FedDiscovery
  imports FedCrypto
begin

text \<open>
  Peer discovery, \<open>internal/federation/discovery.go\<close>: registry pins fetched from the MANAPI service are
  turned into candidates, the newest candidate per node wins, and the result is applied to the
  store. The network and path normalisation of \<open>publisher.go\<close> and \<open>mvc_tx.go\<close> that discovery
  uses is here too.

  Parameters: \<open>url.Parse\<close>, \<open>URL.String\<close> and \<open>net.ParseIP\<close> through the record \<open>net_api\<close>; the HTTP exchange as the
  value \<open>http_result\<close>; the decoded MANAPI envelope through \<open>decode_list\<close>. The store is present, as
  in the service that builds the discovery.
\<close>

record url =
  u_Scheme :: string
  u_Host :: string
  u_Hostname :: string
  u_Path :: string
  u_RawQuery :: string
  u_Fragment :: string

record net_api =
  url_Parse :: "string \<Rightarrow> url option"
  url_String :: "url \<Rightarrow> string"
  ip_IsLoopback :: "string \<Rightarrow> bool"

record RegistryPin =
  pin_ID :: string
  pin_Operation :: string
  pin_ChainName :: string
  pin_Timestamp :: int
  pin_ContentBody :: bytes
  pin_ContentSummary :: string

record registryDiscoveryCandidate =
  cd_pin :: RegistryPin
  cd_node :: RegistryNode
  cd_remove :: bool

record Discovery =
  ds_manapiBaseURL :: string
  ds_registryPath :: string
  ds_size :: int
  ds_selfNodeID :: string
  ds_network :: string
  ds_allowInsecureHTTP :: bool
  ds_maxPeers :: int

text \<open>The environment a discovery runs in.\<close>

record fed_env =
  fe_U :: unicode
  fe_N :: net_api
  fe_C :: crypto
  fe_J :: json_codec

subsection \<open>Networks and paths\<close>

definition normalizePublisherNetwork :: "unicode \<Rightarrow> string \<Rightarrow> string res" where
  "normalizePublisherNetwork U network =
     (let n = ToLower U (TrimSpace network)
      in if n \<in> {'''', ''mvc-mainnet'', ''mainnet'', ''mvc'', ''livenet'', ''0''} then Inr ''mvc-mainnet''
         else if n \<in> {''mvc-testnet'', ''testnet'', ''testnet3'', ''1''} then Inr ''mvc-testnet''
         else if n \<in> {''mvc-regtest'', ''regtest'', ''regression'', ''2''} then Inr ''mvc-regtest''
         else Inl ''unsupported publisher network'')"

definition normalizedPublisherPath :: "string \<Rightarrow> string \<Rightarrow> string" where
  "normalizedPublisherPath pathValue0 defaultPath =
     (let pathValue = TrimSpace pathValue0
      in if pathValue = '''' then defaultPath
         else if \<not> HasPrefix pathValue ''/'' then ''/'' @ pathValue else pathValue)"

text \<open>The chain parameters by name.\<close>

definition mvcRegistryNetParams :: "unicode \<Rightarrow> string \<Rightarrow> string res" where
  "mvcRegistryNetParams U net =
     (let n = ToLower U (TrimSpace net)
      in if n \<in> {'''', ''mvc-mainnet'', ''mainnet'', ''mvc'', ''0''} then Inr ''mainnet''
         else if n \<in> {''mvc-testnet'', ''testnet'', ''testnet3'', ''1''} then Inr ''testnet3''
         else if n \<in> {''mvc-regtest'', ''regtest'', ''regression'', ''2''} then Inr ''regtest''
         else Inl ''unsupported MVC network'')"

definition mvcAddressFromPublicKey :: "unicode \<Rightarrow> crypto \<Rightarrow> string \<Rightarrow> string \<Rightarrow> string res" where
  "mvcAddressFromPublicKey U C publicKeyHex network =
     (case parsePublicKeyHex C publicKeyHex of
        Inl e \<Rightarrow> Inl e
      | Inr publicKey \<Rightarrow>
          (case mvcRegistryNetParams U network of
             Inl e \<Rightarrow> Inl e
           | Inr params \<Rightarrow> Inr (bsv_LegacyAddress C params publicKey)))"

definition NewDiscovery :: "unicode \<Rightarrow> string \<Rightarrow> string \<Rightarrow> int \<Rightarrow> string \<Rightarrow> string \<Rightarrow> bool \<Rightarrow> int \<Rightarrow> Discovery res" where
  "NewDiscovery U manapiBaseURL0 registryPath size0 selfNodeID network0 allowInsecureHTTP maxPeers =
     (let manapiBaseURL = TrimSpace manapiBaseURL0
      in if manapiBaseURL = '''' then Inl ''federation discovery requires MANAPI base URL''
         else if \<not> Contains manapiBaseURL ''{protocol-path}'' \<or> \<not> Contains manapiBaseURL ''{size}''
           then Inl ''MANAPI base URL requires {protocol-path} and {size} placeholders''
         else case normalizePublisherNetwork U network0 of
           Inl e \<Rightarrow> Inl (''normalize discovery network: '' @ e)
         | Inr network \<Rightarrow>
             Inr \<lparr>ds_manapiBaseURL = manapiBaseURL, ds_registryPath = normalizedPublisherPath registryPath RegistryPath,
                  ds_size = (if size0 \<le> 0 then 100 else size0), ds_selfNodeID = TrimSpace selfNodeID, ds_network = network,
                  ds_allowInsecureHTTP = allowInsecureHTTP, ds_maxPeers = maxPeers\<rparr>)"

subsection \<open>From a pin to a candidate\<close>

definition discoveryPinContent :: "RegistryPin \<Rightarrow> bytes" where
  "discoveryPinContent pin =
     (let content = TrimSpace (pin_ContentBody pin)
      in if content \<noteq> '''' then content else TrimSpace (pin_ContentSummary pin))"

definition registryNodeFromPin :: "json_codec \<Rightarrow> RegistryPin \<Rightarrow> RegistryNode option" where
  "registryNodeFromPin J pin =
     (let content = discoveryPinContent pin
      in if content = '''' then None
         else case js_UnmarshalPayload J content of
           Inl _ \<Rightarrow> None
         | Inr p \<Rightarrow>
             Some \<lparr>rn_Protocol = TrimSpace (rp_Protocol p), rn_Version = TrimSpace (rp_Version p),
                   rn_NodeID = TrimSpace (rp_NodeID p), rn_Network = TrimSpace (rp_Network p),
                   rn_PublicBaseURL = TrimSpace (rp_PublicBaseURL p), rn_SocketURL = TrimSpace (rp_SocketURL p),
                   rn_PresenceURL = TrimSpace (rp_PresenceURL p), rn_PublicKey = TrimSpace (rp_PublicKey p),
                   rn_Capabilities = rp_Capabilities p, rn_PublishedAt = rp_PublishedAt p, rn_ValidUntil = rp_ValidUntil p\<rparr>)"

definition publisherPresenceCapability :: string where "publisherPresenceCapability = ''presence-v1''"

definition registryCapabilitiesInclude :: "unicode \<Rightarrow> string list \<Rightarrow> string \<Rightarrow> bool" where
  "registryCapabilitiesInclude U capabilities capability = list_ex (\<lambda>item. EqualFold U (TrimSpace item) capability) capabilities"

definition bracket :: "char \<Rightarrow> bool" where "bracket c \<longleftrightarrow> c = CHR ''['' \<or> c = CHR '']''"

definition discoveryIsLoopbackHost :: "unicode \<Rightarrow> net_api \<Rightarrow> string \<Rightarrow> bool" where
  "discoveryIsLoopbackHost U N host0 =
     (let host = rev (dropWhile bracket (rev (dropWhile bracket (ToLower U (TrimSpace host0)))))
      in host = ''localhost'' \<or> ip_IsLoopback N host)"

definition discoveryPresenceURLAllowed :: "unicode \<Rightarrow> net_api \<Rightarrow> string \<Rightarrow> bool \<Rightarrow> bool" where
  "discoveryPresenceURLAllowed U N raw allowInsecureHTTP =
     (case url_Parse N (TrimSpace raw) of
        None \<Rightarrow> False
      | Some parsed \<Rightarrow>
          (if u_Scheme parsed = '''' \<or> u_Host parsed = '''' then False
           else if ToLower U (u_Scheme parsed) = ''https'' then True
           else if ToLower U (u_Scheme parsed) = ''http''
             then allowInsecureHTTP \<or> discoveryIsLoopbackHost U N (u_Hostname parsed)
           else False))"

definition acceptRegistryNode :: "fed_env \<Rightarrow> Discovery \<Rightarrow> RegistryNode \<Rightarrow> bool" where
  "acceptRegistryNode E d node =
     (if rn_Protocol node \<noteq> ProtocolNode then False
      else if TrimSpace (rn_Version node) = '''' then False
      else if TrimSpace (rn_Network node) = '''' then False
      else if TrimSpace (rn_PresenceURL node) = '''' then False
      else if TrimSpace (rn_PublicKey node) = '''' then False
      else case mvcAddressFromPublicKey (fe_U E) (fe_C E) (rn_PublicKey node) (ds_network d) of
        Inl _ \<Rightarrow> False
      | Inr expectedAddress \<Rightarrow>
          (if TrimSpace (rn_NodeID node) \<noteq> ''mvc:'' @ expectedAddress then False
           else if \<not> registryCapabilitiesInclude (fe_U E) (rn_Capabilities node) publisherPresenceCapability then False
           else discoveryPresenceURLAllowed (fe_U E) (fe_N E) (rn_PresenceURL node) (ds_allowInsecureHTTP d)))"

definition candidateFromPin :: "fed_env \<Rightarrow> Discovery \<Rightarrow> int \<Rightarrow> RegistryPin \<Rightarrow> registryDiscoveryCandidate option" where
  "candidateFromPin E d now pin =
     (let operation = ToLower (fe_U E) (TrimSpace (pin_Operation pin))
      in if \<not> EqualFold (fe_U E) (TrimSpace (pin_ChainName pin)) ''mvc'' then None
         else if operation \<noteq> ''create'' \<and> operation \<noteq> ''modify'' \<and> operation \<noteq> ''revoke'' then None
         else case registryNodeFromPin (fe_J E) pin of
           None \<Rightarrow> None
         | Some node0 \<Rightarrow>
             (if TrimSpace (rn_NodeID node0) = '''' then None
              else
                (let node = node0\<lparr>rn_NodeID := TrimSpace (rn_NodeID node0)\<rparr>
                 in if ds_selfNodeID d \<noteq> '''' \<and> rn_NodeID node = ds_selfNodeID d then None
                    else if ds_network d \<noteq> '''' \<and> \<not> EqualFold (fe_U E) (TrimSpace (rn_Network node)) (ds_network d) then None
                    else if \<not> acceptRegistryNode E d node then None
                    else if operation = ''revoke'' then Some \<lparr>cd_pin = pin, cd_node = node, cd_remove = True\<rparr>
                    else if peerExpired node now then Some \<lparr>cd_pin = pin, cd_node = node, cd_remove = True\<rparr>
                    else Some \<lparr>cd_pin = pin, cd_node = node, cd_remove = False\<rparr>)))"

definition discoveryCandidateNewer :: "registryDiscoveryCandidate \<Rightarrow> registryDiscoveryCandidate \<Rightarrow> bool" where
  "discoveryCandidateNewer candidate existing =
     (if pin_Timestamp (cd_pin candidate) \<noteq> pin_Timestamp (cd_pin existing)
      then pin_Timestamp (cd_pin existing) < pin_Timestamp (cd_pin candidate)
      else if rn_PublishedAt (cd_node candidate) \<noteq> rn_PublishedAt (cd_node existing)
      then rn_PublishedAt (cd_node existing) < rn_PublishedAt (cd_node candidate)
      else pin_ID (cd_pin existing) < pin_ID (cd_pin candidate))"

subsection \<open>One discovery round\<close>

datatype http_result = HttpError string | HttpResponse int bytes

record manapiPathListResponse =
  mp_Code :: int
  mp_Message :: string
  mp_List :: "RegistryPin list"

definition fetchRegistryPins :: "(bytes \<Rightarrow> manapiPathListResponse res) \<Rightarrow> http_result \<Rightarrow> RegistryPin list res" where
  "fetchRegistryPins decode_list resp =
     (case resp of
        HttpError e \<Rightarrow> Inl (''fetch MANAPI registry pins: '' @ e)
      | HttpResponse status body \<Rightarrow>
          (if status < 200 \<or> 300 \<le> status then Inl ''MANAPI registry discovery returned an HTTP error''
           else case decode_list body of
             Inl e \<Rightarrow> Inl (''decode MANAPI registry discovery response: '' @ e)
           | Inr envelope \<Rightarrow>
               (if mp_Code envelope \<noteq> 1 then Inl (''MANAPI registry discovery failed: '' @ mp_Message envelope)
                else Inr (map (\<lambda>pin. pin\<lparr>pin_ID := TrimSpace (pin_ID pin), pin_Operation := TrimSpace (pin_Operation pin),
                                         pin_ChainName := TrimSpace (pin_ChainName pin),
                                         pin_ContentSummary := TrimSpace (pin_ContentSummary pin)\<rparr>) (mp_List envelope)))))"

definition add_candidate ::
    "(string, registryDiscoveryCandidate) gomap \<Rightarrow> registryDiscoveryCandidate \<Rightarrow> (string, registryDiscoveryCandidate) gomap" where
  "add_candidate m candidate =
     (case gm_get m (rn_NodeID (cd_node candidate)) of
        None \<Rightarrow> gm_set m (rn_NodeID (cd_node candidate)) candidate
      | Some existing \<Rightarrow>
          if discoveryCandidateNewer candidate existing then gm_set m (rn_NodeID (cd_node candidate)) candidate else m)"

fun collect_candidates :: "(RegistryPin \<Rightarrow> registryDiscoveryCandidate option) \<Rightarrow> RegistryPin list \<Rightarrow> registryDiscoveryCandidate list" where
  "collect_candidates f [] = []"
| "collect_candidates f (pin # pins) = (case f pin of None \<Rightarrow> collect_candidates f pins | Some c \<Rightarrow> c # collect_candidates f pins)"

definition Discovery_apply ::
    "Discovery \<Rightarrow> (string, registryDiscoveryCandidate) gomap \<Rightarrow> Store \<Rightarrow> RegistryNode list \<times> Store" where
  "Discovery_apply d candidates s =
     (let nodeIDs = sort (gm_keys candidates);
          winners = map (\<lambda>k. (k, the (gm_get candidates k))) nodeIDs;
          s1 = foldl (\<lambda>s (k, c). if cd_remove c then Store_RemovePeer k s else s) s winners;
          accepted0 = map (cd_node \<circ> snd) (filter (\<lambda>(k, c). \<not> cd_remove c) winners);
          accepted = (if 0 < ds_maxPeers d \<and> ds_maxPeers d < int (length accepted0) then take (nat (ds_maxPeers d)) accepted0 else accepted0)
      in (accepted, foldl (\<lambda>s peer. Store_UpsertPeer peer s) s1 accepted))"

definition Discovery_DiscoverOnce ::
    "fed_env \<Rightarrow> Discovery \<Rightarrow> RegistryPin list res \<Rightarrow> int \<Rightarrow> Store \<Rightarrow> RegistryNode list res \<times> Store" where
  "Discovery_DiscoverOnce E d fetched now s =
     (case fetched of
        Inl e \<Rightarrow> (Inl e, s)
      | Inr pins \<Rightarrow>
          (let candidates = foldl add_candidate [] (collect_candidates (candidateFromPin E d now) pins);
               (accepted, s') = Discovery_apply d candidates s
           in (Inr accepted, s')))"

subsection \<open>The newest candidate wins\<close>

abbreviation node_of :: "registryDiscoveryCandidate \<Rightarrow> string" where
  "node_of c \<equiv> rn_NodeID (cd_node c)"

definition cand_rank :: "registryDiscoveryCandidate \<Rightarrow> int \<times> int \<times> string" where
  "cand_rank c = (pin_Timestamp (cd_pin c), rn_PublishedAt (cd_node c), pin_ID (cd_pin c))"

lemma newer_rank: "discoveryCandidateNewer c e \<longleftrightarrow> cand_rank e < cand_rank c"
  by (auto simp: discoveryCandidateNewer_def cand_rank_def less_prod_def)

definition winner_of :: "registryDiscoveryCandidate list \<Rightarrow> registryDiscoveryCandidate \<Rightarrow> bool" where
  "winner_of cs c \<longleftrightarrow> c \<in> set cs \<and> (\<forall>c' \<in> set cs. node_of c' = node_of c \<longrightarrow> cand_rank c' \<le> cand_rank c)"

lemma add_candidates:
  defines "m cs \<equiv> foldl add_candidate [] cs"
  shows "gm_ok (m cs) \<and> set (gm_keys (m cs)) = node_of ` set cs
    \<and> (\<forall>k c. gm_get (m cs) k = Some c \<longrightarrow> node_of c = k \<and> winner_of cs c)"
proof (induction cs rule: rev_induct)
  case Nil
  then show ?case by (simp add: m_def gm_keys_def)
next
  case (snoc x cs)
  have step: "m (cs @ [x]) = add_candidate (m cs) x" by (simp add: m_def)
  have ok: "gm_ok (m cs)" and keys: "set (gm_keys (m cs)) = node_of ` set cs"
    and win: "\<And>k c. gm_get (m cs) k = Some c \<Longrightarrow> node_of c = k \<and> winner_of cs c" using snoc by auto
  have none: "gm_get (m cs) k = None \<longleftrightarrow> k \<notin> node_of ` set cs" for k
    using keys by (simp add: gm_get_None_iff gm_keys_def)
  have "node_of c = k \<and> winner_of (cs @ [x]) c" if c: "gm_get (m (cs @ [x])) k = Some c" for k c
  proof (cases "k = node_of x")
    case False
    then have "gm_get (m cs) k = Some c"
      using c by (auto simp: step add_candidate_def split: option.splits if_splits)
    then show ?thesis using win [of k c] False by (auto simp: winner_of_def)
  next
    case True
    show ?thesis
    proof (cases "gm_get (m cs) k")
      case None
      then have "c = x" using c True by (simp add: step add_candidate_def)
      then show ?thesis using None none [of k] True by (auto simp: winner_of_def) (metis image_eqI)
    next
      case (Some e)
      then have e: "node_of e = k" "winner_of cs e" using win by auto
      show ?thesis
      proof (cases "cand_rank e < cand_rank x")
        case lt: True
        then have "c = x" using c True Some by (simp add: step add_candidate_def newer_rank)
        then show ?thesis using e lt True by (auto simp: winner_of_def intro: order_trans less_imp_le)
      next
        case False
        then have "c = e" using c True Some by (simp add: step add_candidate_def newer_rank)
        then show ?thesis using e False True by (auto simp: winner_of_def)
      qed
    qed
  qed
  moreover have "gm_ok (m (cs @ [x]))" using ok by (simp add: step add_candidate_def split: option.split)
  moreover have "set (gm_keys (m (cs @ [x]))) = node_of ` set (cs @ [x])"
    using keys none [of "node_of x"] by (auto simp: step add_candidate_def gm_keys_def split: option.splits)
  ultimately show ?case by blast
qed

lemma collect_candidates_set: "c \<in> set (collect_candidates f pins) \<longleftrightarrow> (\<exists>pin \<in> set pins. f pin = Some c)"
  by (induction pins) (auto split: option.splits)

lemma candidateFromPin_ok:
  assumes "candidateFromPin E d now pin = Some c"
  shows "cd_pin c = pin" and "node_of c \<noteq> ''''" and "acceptRegistryNode E d (cd_node c)"
    and "ds_selfNodeID d \<noteq> '''' \<Longrightarrow> node_of c \<noteq> ds_selfNodeID d"
    and "\<not> cd_remove c \<Longrightarrow> \<not> peerExpired (cd_node c) now"
    and "\<not> cd_remove c \<Longrightarrow> ToLower (fe_U E) (TrimSpace (pin_Operation pin)) \<noteq> ''revoke''"
  using assms by (auto simp: candidateFromPin_def Let_def split: if_splits option.splits)

subsection \<open>The effect on the store\<close>

lemma remove_fold:
  "fs_peers (foldl (\<lambda>s (k, c). if cd_remove c then Store_RemovePeer k s else s) s ws)
     = fold (\<lambda>(k, c) m. if cd_remove c \<and> k \<noteq> '''' then gm_delete m k else m) ws (fs_peers s)"
  by (induction ws arbitrary: s) (auto simp: Store_RemovePeer_def split: prod.splits)

lemma remove_fold_get:
  "gm_get (fold (\<lambda>(k, c) m. if cd_remove c \<and> k \<noteq> '''' then gm_delete m k else m) ws m) k
     = (if k \<noteq> '''' \<and> (\<exists>c. (k, c) \<in> set ws \<and> cd_remove c) then None else gm_get m k)"
  by (induction ws arbitrary: m) auto

lemma upsert_fold_get:
  assumes "\<forall>p \<in> set ps. rn_NodeID p \<noteq> ''''" and "distinct (map rn_NodeID ps)"
  shows "gm_get (fs_peers (foldl (\<lambda>s peer. Store_UpsertPeer peer s) s ps)) k
     = (case find (\<lambda>p. rn_NodeID p = k) ps of Some p \<Rightarrow> Some p | None \<Rightarrow> gm_get (fs_peers s) k)"
  using assms
proof (induction ps arbitrary: s)
  case (Cons p ps)
  have "find (\<lambda>q. rn_NodeID q = k) ps = None" if "rn_NodeID p = k"
    using Cons.prems(2) that by (auto simp: find_None_iff image_iff)
  with Cons show ?case by (auto simp: Store_UpsertPeer_def split: option.split)
qed simp

lemma find_unique: "distinct (map f xs) \<Longrightarrow> x \<in> set xs \<Longrightarrow> find (\<lambda>y. f y = f x) xs = Some x"
  by (induction xs) (auto simp: image_iff)

lemma winners_list:
  fixes m :: "(string, registryDiscoveryCandidate) gomap"
  assumes ok: "gm_ok m" and nodes: "\<And>k c. gm_get m k = Some c \<Longrightarrow> node_of c = k"
  defines "ws \<equiv> map (\<lambda>k. (k, the (gm_get m k))) (sort (gm_keys m))"
  shows "(k, c) \<in> set ws \<longleftrightarrow> gm_get m k = Some c" and "sorted_wrt (<) (map fst ws)"
    and "map rn_NodeID (map (cd_node \<circ> snd) (filter Q ws)) = map fst (filter Q ws)"
proof -
  have keys: "k \<in> set (gm_keys m) \<longleftrightarrow> gm_get m k \<noteq> None" for k
    using gm_get_None_iff [of m k] by (auto simp: gm_keys_def)
  show 1: "(k, c) \<in> set ws \<longleftrightarrow> gm_get m k = Some c" for k c
    using keys [of k] by (auto simp: ws_def)
  show "sorted_wrt (<) (map fst ws)" using ok by (simp add: ws_def comp_def strict_sorted_iff gm_keys_def gm_ok_def)
  have "rn_NodeID (cd_node (snd w)) = fst w" if "w \<in> set ws" for w
    using that 1 [of "fst w" "snd w"] nodes by simp
  then show "map rn_NodeID (map (cd_node \<circ> snd) (filter Q ws)) = map fst (filter Q ws)" by simp
qed

definition round_candidates :: "fed_env \<Rightarrow> Discovery \<Rightarrow> int \<Rightarrow> RegistryPin list \<Rightarrow> registryDiscoveryCandidate list" where
  "round_candidates E d now pins = collect_candidates (candidateFromPin E d now) pins"

text \<open>What one round promises: the accepted peers and the peers known afterwards.\<close>

definition round_spec ::
    "registryDiscoveryCandidate list \<Rightarrow> Discovery \<Rightarrow> RegistryNode list \<Rightarrow> Store \<Rightarrow> Store \<Rightarrow> bool" where
  "round_spec cs d accepted s s' \<longleftrightarrow>
     (\<forall>p \<in> set accepted. \<exists>c. winner_of cs c \<and> cd_node c = p \<and> \<not> cd_remove c)
   \<and> sorted_wrt (<) (map rn_NodeID accepted)
   \<and> (0 < ds_maxPeers d \<longrightarrow> int (length accepted) \<le> ds_maxPeers d)
   \<and> (\<forall>p \<in> set accepted. Store_Peer (rn_NodeID p) s' = Some p)
   \<and> (\<forall>k. k \<in> node_of ` set cs \<longrightarrow> ds_maxPeers d \<le> 0 \<longrightarrow> (\<forall>c. winner_of cs c \<and> node_of c = k \<longrightarrow> \<not> cd_remove c)
        \<longrightarrow> k \<in> rn_NodeID ` set accepted)
   \<and> (\<forall>k. k \<in> node_of ` set cs \<longrightarrow> (\<forall>c. winner_of cs c \<and> node_of c = k \<longrightarrow> cd_remove c) \<longrightarrow> Store_Peer k s' = None)
   \<and> (\<forall>k. k \<notin> node_of ` set cs \<longrightarrow> Store_Peer k s' = Store_Peer k s)"

lemma discover_round:
  assumes ne: "\<forall>c \<in> set cs. node_of c \<noteq> ''''"
    and ap: "Discovery_apply d (foldl add_candidate [] cs) s = (accepted, s')"
  shows "round_spec cs d accepted s s'"
proof -
  define m where "m = foldl add_candidate [] cs"
  have ok: "gm_ok m" and keys: "set (gm_keys m) = node_of ` set cs"
    and win: "\<And>k c. gm_get m k = Some c \<Longrightarrow> node_of c = k \<and> winner_of cs c"
    using add_candidates [of cs] unfolding m_def by blast+
  define ws where "ws = map (\<lambda>k. (k, the (gm_get m k))) (sort (gm_keys m))"
  have mem: "(k, c) \<in> set ws \<longleftrightarrow> gm_get m k = Some c" and srt: "sorted_wrt (<) (map fst ws)"
    and ids: "map rn_NodeID (map (cd_node \<circ> snd) (filter Q ws)) = map fst (filter Q ws)" for k c Q
    using winners_list [OF ok, folded ws_def] win by blast+
  define acc0 where "acc0 = map (cd_node \<circ> snd) (filter (\<lambda>(k, c). \<not> cd_remove c) ws)"
  have acc: "accepted = (if 0 < ds_maxPeers d \<and> ds_maxPeers d < int (length acc0) then take (nat (ds_maxPeers d)) acc0 else acc0)"
    and s': "s' = foldl (\<lambda>s peer. Store_UpsertPeer peer s) (foldl (\<lambda>s (k, c). if cd_remove c then Store_RemovePeer k s else s) s ws) accepted"
    using ap unfolding Discovery_apply_def Let_def m_def [symmetric] ws_def [symmetric] acc0_def [symmetric] by auto
  have sub: "set accepted \<subseteq> set acc0" using acc by (auto dest: in_set_takeD)
  have "sorted_wrt (<) (map rn_NodeID acc0)"
    using srt unfolding acc0_def ids by (simp add: sorted_wrt_map sorted_wrt_filter)
  then have sa: "sorted_wrt (<) (map rn_NodeID accepted)" using acc by (auto simp: sorted_wrt_take take_map [symmetric])
  have wacc: "\<exists>c. gm_get m (rn_NodeID p) = Some c \<and> cd_node c = p \<and> \<not> cd_remove c" if pa: "p \<in> set accepted" for p
  proof -
    have "p \<in> set acc0" using pa sub by blast
    then obtain k c where "(k, c) \<in> set ws" "\<not> cd_remove c" "p = cd_node c" by (auto simp: acc0_def)
    then show ?thesis using mem [of k c] win [of k c] by auto
  qed
  have peer: "Store_Peer k s' = (case find (\<lambda>p. rn_NodeID p = k) accepted of Some p \<Rightarrow> Some p
      | None \<Rightarrow> if \<exists>c. gm_get m k = Some c \<and> cd_remove c then None else Store_Peer k s)" if "k \<noteq> ''''" for k
  proof -
    have nep: "\<forall>p \<in> set accepted. rn_NodeID p \<noteq> ''''" using wacc win ne by (metis winner_of_def)
    let ?s1 = "foldl (\<lambda>s (k, c). if cd_remove c then Store_RemovePeer k s else s) s ws"
    have "distinct (map rn_NodeID accepted)" using sa by (simp add: strict_sorted_iff)
    then have "gm_get (fs_peers s') k = (case find (\<lambda>p. rn_NodeID p = k) accepted of Some p \<Rightarrow> Some p | None \<Rightarrow> gm_get (fs_peers ?s1) k)"
      unfolding s' by (rule upsert_fold_get [OF nep])
    moreover have "gm_get (fs_peers ?s1) k = (if \<exists>c. gm_get m k = Some c \<and> cd_remove c then None else gm_get (fs_peers s) k)"
      using that by (simp add: remove_fold remove_fold_get mem)
    ultimately show ?thesis using that
      by (cases "find (\<lambda>p. rn_NodeID p = k) accepted") (simp_all add: Store_Peer_def, blast)
  qed
  show ?thesis unfolding round_spec_def
  proof (intro conjI ballI allI impI)
    fix p assume p: "p \<in> set accepted"
    show "\<exists>c. winner_of cs c \<and> cd_node c = p \<and> \<not> cd_remove c" using wacc [OF p] win by blast
    obtain c where c: "gm_get m (rn_NodeID p) = Some c" using wacc [OF p] by blast
    then have "rn_NodeID p \<noteq> ''''" using win ne by (metis winner_of_def)
    moreover have "find (\<lambda>q. rn_NodeID q = rn_NodeID p) accepted = Some p"
      using find_unique [of rn_NodeID, OF _ p] sa by (simp add: strict_sorted_iff)
    ultimately show "Store_Peer (rn_NodeID p) s' = Some p" using peer by simp
  next
    fix k assume k: "k \<in> node_of ` set cs" and lim: "ds_maxPeers d \<le> 0" and live: "\<forall>c. winner_of cs c \<and> node_of c = k \<longrightarrow> \<not> cd_remove c"
    obtain c where c: "gm_get m k = Some c" using k keys gm_get_None_iff [of m k] by (auto simp: gm_keys_def)
    then have "cd_node c \<in> set accepted" using live win [OF c] lim mem [of k c] by (force simp: acc acc0_def)
    then show "k \<in> rn_NodeID ` set accepted" using win [OF c] by blast
  next
    fix k assume k: "k \<in> node_of ` set cs" and rm: "\<forall>c. winner_of cs c \<and> node_of c = k \<longrightarrow> cd_remove c"
    then have kne: "k \<noteq> ''''" using ne by auto
    obtain c where c: "gm_get m k = Some c" using k keys gm_get_None_iff [of m k] by (auto simp: gm_keys_def)
    then have "cd_remove c" using rm win by blast
    moreover have "find (\<lambda>p. rn_NodeID p = k) accepted = None"
      using wacc c \<open>cd_remove c\<close> by (force simp: find_None_iff)
    ultimately show "Store_Peer k s' = None" using peer [OF kne] c by simp
  next
    fix k assume k: "k \<notin> node_of ` set cs"
    have none: "gm_get m k = None" using k keys gm_get_None_iff [of m k] by (auto simp: gm_keys_def)
    have "find (\<lambda>p. rn_NodeID p = k) accepted = None" using wacc none by (force simp: find_None_iff)
    then show "Store_Peer k s' = Store_Peer k s" using peer [of k] none by (cases "k = ''''") (simp_all add: Store_Peer_def)
  qed (use sa acc in \<open>auto split: if_splits\<close>)
qed

lemma DiscoverOnce_round:
  assumes "Discovery_DiscoverOnce E d (Inr pins) now s = (Inr accepted, s')"
  shows "round_spec (round_candidates E d now pins) d accepted s s'"
proof (rule discover_round)
  show "\<forall>c \<in> set (round_candidates E d now pins). node_of c \<noteq> ''''"
    using candidateFromPin_ok(2) by (auto simp: round_candidates_def collect_candidates_set)
  show "Discovery_apply d (foldl add_candidate [] (round_candidates E d now pins)) s = (accepted, s')"
    using assms by (simp add: Discovery_DiscoverOnce_def round_candidates_def Let_def split: prod.splits)
qed

lemma revoke_copy_candidate:
  assumes "candidateFromPin E d now pin = Some c"
  shows "candidateFromPin E d now (pin\<lparr>pin_ID := i, pin_Operation := ''revoke'', pin_Timestamp := t\<rparr>)
    = Some \<lparr>cd_pin = pin\<lparr>pin_ID := i, pin_Operation := ''revoke'', pin_Timestamp := t\<rparr>, cd_node = cd_node c, cd_remove = True\<rparr>"
proof -
  have op: "ToLower (fe_U E) (TrimSpace ''revoke'') = ''revoke''"
    by (simp add: ToLower_fixed TrimSpace_graphic graphic_def code_def)
  have content: "registryNodeFromPin J (pin\<lparr>pin_ID := i, pin_Operation := ''revoke'', pin_Timestamp := t\<rparr>) = registryNodeFromPin J pin" for J
  proof -
    have "discoveryPinContent (pin\<lparr>pin_ID := i, pin_Operation := ''revoke'', pin_Timestamp := t\<rparr>) = discoveryPinContent pin"
      by (simp add: discoveryPinContent_def Let_def)
    then show ?thesis by (simp add: registryNodeFromPin_def)
  qed
  show ?thesis using assms
    by (auto simp: candidateFromPin_def Let_def op content split: if_splits option.splits)
qed

text \<open>A registry for concrete runs: a pin whose content is one character announces the node that owns
  the toy key built from that character.\<close>

definition toy_payload :: "char \<Rightarrow> RegistryPayload" where
  "toy_payload c =
     \<lparr>rp_Protocol = ProtocolNode, rp_Version = Version, rp_NodeID = ''mvc:'' @ [c], rp_Network = ''mvc-mainnet'',
      rp_PublicBaseURL = [], rp_SocketURL = [], rp_PresenceURL = ''https://n'',
      rp_PublicKey = hex_EncodeToString (CHR 0x02 # replicate 32 c), rp_Capabilities = [''presence-v1''],
      rp_PublishedAt = 0, rp_ValidUntil = 0\<rparr>"

definition toy_env :: fed_env where
  "toy_env = \<lparr>fe_U = \<lparr>u_lower = (\<lambda>s. s), u_upper = (\<lambda>s. s), u_fold = (=)\<rparr>,
     fe_N = \<lparr>url_Parse = (\<lambda>s. Some \<lparr>u_Scheme = ''https'', u_Host = ''n'', u_Hostname = ''n'', u_Path = '''', u_RawQuery = '''', u_Fragment = ''''\<rparr>),
       url_String = (\<lambda>u. u_Scheme u @ ''://'' @ u_Host u @ u_Path u), ip_IsLoopback = (\<lambda>s. False)\<rparr>,
     fe_C = toy_crypto,
     fe_J = plain_json\<lparr>js_UnmarshalPayload := (\<lambda>b. case b of [c] \<Rightarrow> Inr (toy_payload c) | _ \<Rightarrow> Inl ''bad'')\<rparr>\<rparr>"

definition toy_discovery :: "int \<Rightarrow> Discovery" where
  "toy_discovery mp = \<lparr>ds_manapiBaseURL = [], ds_registryPath = [], ds_size = 100, ds_selfNodeID = ''me'', ds_network = ''mvc-mainnet'',
     ds_allowInsecureHTTP = False, ds_maxPeers = mp\<rparr>"

definition toy_pin :: "string \<Rightarrow> string \<Rightarrow> int \<Rightarrow> char \<Rightarrow> RegistryPin" where
  "toy_pin i operation t c = \<lparr>pin_ID = i, pin_Operation = operation, pin_ChainName = ''mvc'', pin_Timestamp = t,
     pin_ContentBody = [c], pin_ContentSummary = []\<rparr>"

definition toy_round :: "int \<Rightarrow> RegistryPin list \<Rightarrow> Store \<Rightarrow> RegistryNode list res \<times> Store" where
  "toy_round mp pins s = Discovery_DiscoverOnce toy_env (toy_discovery mp) (Inr pins) 0 s"

lemma toy_public_key:
  "parsePublicKeyHex toy_crypto (hex_EncodeToString (CHR 0x02 # replicate 32 c)) = Inr (CHR 0x02 # replicate 32 c)"
  by (simp add: parsePublicKeyHex_def decodeHexField_encode toy_crypto_def)

lemma toy_address:
  "mvcAddressFromPublicKey U toy_crypto (hex_EncodeToString (CHR 0x02 # replicate 32 c)) ''mvc-mainnet'' = Inr [c]"
  unfolding mvcAddressFromPublicKey_def toy_public_key
  by (simp add: mvcRegistryNetParams_def TrimSpace_graphic graphic_def code_def ToLower_fixed toy_crypto_def)

text \<open>The node announced by the toy payload.\<close>

definition toy_node :: "char \<Rightarrow> RegistryNode" where
  "toy_node c =
     \<lparr>rn_Protocol = ProtocolNode, rn_Version = Version, rn_NodeID = ''mvc:'' @ [c], rn_Network = ''mvc-mainnet'',
      rn_PublicBaseURL = [], rn_SocketURL = [], rn_PresenceURL = ''https://n'',
      rn_PublicKey = hex_EncodeToString (CHR 0x02 # replicate 32 c), rn_Capabilities = [''presence-v1''],
      rn_PublishedAt = 0, rn_ValidUntil = 0\<rparr>"

lemma toy_registryNode:
  assumes "graphic c"
  shows "registryNodeFromPin (fe_J toy_env) (toy_pin i operation t c) = Some (toy_node c)"
proof -
  have "TrimSpace [c] = [c]" "TrimSpace ''metaso-p2p-node'' = ''metaso-p2p-node''" "TrimSpace ''1.0.0'' = ''1.0.0''"
    "TrimSpace [CHR ''m'', CHR ''v'', CHR ''c'', CHR '':'', c] = [CHR ''m'', CHR ''v'', CHR ''c'', CHR '':'', c]"
    "TrimSpace ''mvc-mainnet'' = ''mvc-mainnet''" "TrimSpace ''https://n'' = ''https://n''"
    using assms by (auto intro!: TrimSpace_graphic simp: graphic_def code_def)
  then show ?thesis
    by (simp add: registryNodeFromPin_def discoveryPinContent_def Let_def toy_pin_def toy_env_def toy_payload_def toy_node_def
        TrimSpace_hex ProtocolNode_def Version_def)
qed

lemma toy_maxPeers [simp]: "ds_maxPeers (toy_discovery mp) = mp"
  by (simp add: toy_discovery_def)

lemma toy_node_id [simp]: "rn_NodeID (toy_node c) = ''mvc:'' @ [c]"
  by (simp add: toy_node_def)

lemma toy_accept:
  assumes "graphic c"
  shows "acceptRegistryNode toy_env (toy_discovery mp) (toy_node c)"
proof -
  have t: "TrimSpace ''1.0.0'' = ''1.0.0''" "TrimSpace ''mvc-mainnet'' = ''mvc-mainnet''" "TrimSpace ''https://n'' = ''https://n''"
    "TrimSpace ''presence-v1'' = ''presence-v1''" "TrimSpace (''mvc:'' @ [c]) = ''mvc:'' @ [c]"
    using assms by (auto intro!: TrimSpace_graphic simp: graphic_def code_def)
  have f: "EqualFold U ''presence-v1'' ''presence-v1''" "ToLower U ''https'' = ''https''" for U
    by (simp_all add: EqualFold_def is_ascii_def ToLower_fixed code_def)
  have k: "hex_EncodeToString (CHR 0x02 # replicate 32 c) \<noteq> []" by (simp add: hex_EncodeToString_def)
  show ?thesis
    unfolding acceptRegistryNode_def
    by (simp add: toy_node_def toy_discovery_def toy_env_def toy_address Version_def t [simplified] f k TrimSpace_hex
        registryCapabilitiesInclude_def publisherPresenceCapability_def discoveryPresenceURLAllowed_def)
qed

lemma toy_candidate:
  assumes "graphic c" and "operation = ''create'' \<or> operation = ''revoke''"
  shows "candidateFromPin toy_env (toy_discovery mp) 0 (toy_pin i operation t c)
    = Some \<lparr>cd_pin = toy_pin i operation t c, cd_node = toy_node c, cd_remove = (operation = ''revoke'')\<rparr>"
proof -
  have t: "TrimSpace ''mvc'' = ''mvc''" "TrimSpace ''mvc-mainnet'' = ''mvc-mainnet''" "TrimSpace operation = operation"
    "TrimSpace (''mvc:'' @ [c]) = ''mvc:'' @ [c]"
    using assms by (auto intro!: TrimSpace_graphic simp: graphic_def code_def)
  have f: "EqualFold U ''mvc'' ''mvc''" "EqualFold U ''mvc-mainnet'' ''mvc-mainnet''" "ToLower U operation = operation" for U
    using assms(2) by (auto simp: EqualFold_def is_ascii_def ToLower_fixed code_def)
  have n: "(toy_node c)\<lparr>rn_NodeID := ''mvc:'' @ [c]\<rparr> = toy_node c" by (simp add: toy_node_def)
  have a: "pin_ChainName (toy_pin i operation t c) = ''mvc''" "pin_Operation (toy_pin i operation t c) = operation"
    "rn_NodeID (toy_node c) = ''mvc:'' @ [c]" "rn_Network (toy_node c) = ''mvc-mainnet''"
    "ds_selfNodeID (toy_discovery mp) = ''me''" "ds_network (toy_discovery mp) = ''mvc-mainnet''" "\<not> peerExpired (toy_node c) 0"
    by (simp_all add: toy_pin_def toy_node_def toy_discovery_def peerExpired_def)
  show ?thesis
    unfolding candidateFromPin_def Let_def a(1-6) t f(3) toy_registryNode [OF assms(1)] option.case n
    using toy_accept [OF assms(1)] assms(2) f(1,2) a(7) by auto
qed

lemma toy_graphic: "graphic CHR ''a''" "graphic CHR ''b''"
  by (simp_all add: graphic_def code_def)

subsection \<open>Properties\<close>

text \<open>C32: a discovery round accepts only nodes whose newest valid pin (by time stamp, publication time and
  pin ID) is a live announcement; the accepted list is sorted by node ID without duplicates and within
  the peer limit. Afterwards the store holds every accepted peer, no longer holds a node whose
  newest pin revokes it or has expired, and is unchanged for nodes without a valid pin. Without a
  limit every node whose newest pin is a live announcement is accepted.\<close>

lemma discovery_newest_wins:
  assumes "Discovery_DiscoverOnce E d (Inr pins) now s = (Inr accepted, s')"
  shows "round_spec (round_candidates E d now pins) d accepted s s'"
  using assms by (rule DiscoverOnce_round)

theorem discovery_newest_wins_witness:
  "round_spec (round_candidates toy_env (toy_discovery 0) 0
       [toy_pin ''1'' ''create'' 5 CHR ''a'', toy_pin ''2'' ''create'' 6 CHR ''b'', toy_pin ''3'' ''revoke'' 9 CHR ''b''])
     (toy_discovery 0) (projr (fst (toy_round 0 [toy_pin ''1'' ''create'' 5 CHR ''a'', toy_pin ''2'' ''create'' 6 CHR ''b'',
       toy_pin ''3'' ''revoke'' 9 CHR ''b''] demo_store))) demo_store
     (snd (toy_round 0 [toy_pin ''1'' ''create'' 5 CHR ''a'', toy_pin ''2'' ''create'' 6 CHR ''b'',
       toy_pin ''3'' ''revoke'' 9 CHR ''b''] demo_store))"
  by (rule discovery_newest_wins) (simp add: toy_round_def Discovery_DiscoverOnce_def Let_def split: prod.split)

text \<open>Every accepted node passes the registry checks, which include that its ID is the address of its
  public key; it is not the local node and has not expired.\<close>

lemma discovery_accepts_valid:
  assumes "Discovery_DiscoverOnce E d (Inr pins) now s = (Inr accepted, s')" and "p \<in> set accepted"
  shows "acceptRegistryNode E d p \<and> \<not> peerExpired p now \<and> (ds_selfNodeID d \<noteq> '''' \<longrightarrow> rn_NodeID p \<noteq> ds_selfNodeID d)"
proof -
  obtain c where "winner_of (round_candidates E d now pins) c" "cd_node c = p" "\<not> cd_remove c"
    using DiscoverOnce_round [OF assms(1)] assms(2) unfolding round_spec_def by blast
  then obtain pin where "candidateFromPin E d now pin = Some c"
    by (auto simp: winner_of_def round_candidates_def collect_candidates_set)
  from candidateFromPin_ok [OF this] \<open>cd_node c = p\<close> \<open>\<not> cd_remove c\<close> show ?thesis by auto
qed

definition toy_accepted :: "RegistryNode list res \<times> Store" where
  "toy_accepted = toy_round 0 [toy_pin ''1'' ''create'' 5 CHR ''a''] demo_store"

theorem discovery_accepts_valid_witness:
  "acceptRegistryNode toy_env (toy_discovery 0) (hd (projr (fst toy_accepted))) \<and> \<not> peerExpired (hd (projr (fst toy_accepted))) 0"
proof -
  have "Discovery_DiscoverOnce toy_env (toy_discovery 0) (Inr [toy_pin ''1'' ''create'' 5 CHR ''a'']) 0 demo_store
    = (Inr (projr (fst toy_accepted)), snd toy_accepted)"
    by (simp add: toy_accepted_def toy_round_def Discovery_DiscoverOnce_def Let_def split: prod.split)
  moreover have "length (projr (fst toy_accepted)) = 1"
    by (simp add: toy_accepted_def toy_round_def Discovery_DiscoverOnce_def toy_candidate toy_graphic add_candidate_def Discovery_apply_def
        gm_keys_def Let_def gm_get_def)
  then have "hd (projr (fst toy_accepted)) \<in> set (projr (fst toy_accepted))" by (intro hd_in_set) auto
  ultimately show ?thesis using discovery_accepts_valid by blast
qed

text \<open>A registry pin carries no proof of who published it. Whoever copies the content of a node's
  announcement into a \<open>revoke\<close> pin with a later time stamp makes every other node drop that peer.\<close>

lemma copied_pin_revokes:
  assumes "Discovery_DiscoverOnce E d (Inr (pins @ [pin\<lparr>pin_ID := i, pin_Operation := ''revoke'', pin_Timestamp := t\<rparr>])) now s = (Inr accepted, s')"
    and "candidateFromPin E d now pin = Some c" and "\<forall>q \<in> set pins. pin_Timestamp q < t"
  shows "Store_Peer (rn_NodeID (cd_node c)) s' = None"
proof -
  let ?pin = "pin\<lparr>pin_ID := i, pin_Operation := ''revoke'', pin_Timestamp := t\<rparr>"
  let ?r = "\<lparr>cd_pin = ?pin, cd_node = cd_node c, cd_remove = True\<rparr>"
  let ?cs = "round_candidates E d now (pins @ [?pin])"
  have r: "?r \<in> set ?cs"
    using revoke_copy_candidate [OF assms(2), of t i] by (auto simp: round_candidates_def collect_candidates_set)
  have older: "x = ?r \<or> cand_rank x < cand_rank ?r" if x: "x \<in> set ?cs" for x
  proof -
    obtain q where q: "q \<in> set (pins @ [?pin])" "candidateFromPin E d now q = Some x"
      using x by (auto simp: round_candidates_def collect_candidates_set)
    have "cd_pin x = q" by (rule candidateFromPin_ok(1) [OF q(2)])
    then show ?thesis using q assms(3) revoke_copy_candidate [OF assms(2), of t i]
      by (cases "q = ?pin") (auto simp: cand_rank_def less_prod_def)
  qed
  have "cd_remove x" if "winner_of ?cs x" "node_of x = node_of ?r" for x
    using that older [of x] r unfolding winner_of_def by fastforce
  moreover have "node_of ?r \<in> node_of ` set ?cs" using r by (rule imageI)
  ultimately show ?thesis using DiscoverOnce_round [OF assms(1)] unfolding round_spec_def by auto
qed

theorem copied_pin_revokes_witness:
  "Store_Peer (rn_NodeID (cd_node (the (candidateFromPin toy_env (toy_discovery 0) 0 (toy_pin ''1'' ''create'' 5 CHR ''a'')))))
     (snd (toy_round 0 ([toy_pin ''1'' ''create'' 5 CHR ''a''] @ [(toy_pin ''1'' ''create'' 5 CHR ''a'')\<lparr>pin_ID := ''x'', pin_Operation := ''revoke'', pin_Timestamp := 9\<rparr>]) demo_store)) = None"
proof (rule copied_pin_revokes)
  show "Discovery_DiscoverOnce toy_env (toy_discovery 0) (Inr ([toy_pin ''1'' ''create'' 5 CHR ''a''] @ [(toy_pin ''1'' ''create'' 5 CHR ''a'')\<lparr>pin_ID := ''x'', pin_Operation := ''revoke'', pin_Timestamp := 9\<rparr>])) 0 demo_store
    = (Inr (projr (fst (toy_round 0 ([toy_pin ''1'' ''create'' 5 CHR ''a''] @ [(toy_pin ''1'' ''create'' 5 CHR ''a'')\<lparr>pin_ID := ''x'', pin_Operation := ''revoke'', pin_Timestamp := 9\<rparr>]) demo_store))),
       snd (toy_round 0 ([toy_pin ''1'' ''create'' 5 CHR ''a''] @ [(toy_pin ''1'' ''create'' 5 CHR ''a'')\<lparr>pin_ID := ''x'', pin_Operation := ''revoke'', pin_Timestamp := 9\<rparr>]) demo_store))"
    by (simp add: toy_round_def Discovery_DiscoverOnce_def Let_def split: prod.split)
  show "candidateFromPin toy_env (toy_discovery 0) 0 (toy_pin ''1'' ''create'' 5 CHR ''a'')
    = Some (the (candidateFromPin toy_env (toy_discovery 0) 0 (toy_pin ''1'' ''create'' 5 CHR ''a'')))"
    by (simp add: toy_candidate toy_graphic)
  show "\<forall>q \<in> set [toy_pin ''1'' ''create'' 5 CHR ''a'']. pin_Timestamp q < 9" by (simp add: toy_pin_def)
qed

text \<open>The peer limit bounds what one round accepts, not what the store holds: with a limit of one, two
  rounds leave two peers in the store.\<close>

lemma max_peers_not_enforced:
  "ds_maxPeers (toy_discovery 1) = 1
   \<and> length (Store_ActivePeers 0 (snd (toy_round 1 [toy_pin ''1'' ''create'' 5 CHR ''a'', toy_pin ''2'' ''create'' 6 CHR ''b'']
        (snd (toy_round 1 [toy_pin ''2'' ''create'' 6 CHR ''b''] (NewStore ''me'' [])))))) = 2"
proof -
  have r1: "toy_round 1 [toy_pin ''2'' ''create'' 6 CHR ''b''] (NewStore ''me'' [])
      = (Inr [toy_node CHR ''b''], (NewStore ''me'' [])\<lparr>fs_peers := [(''mvc:b'', toy_node CHR ''b'')]\<rparr>)"
    by (simp add: toy_round_def Discovery_DiscoverOnce_def toy_candidate toy_graphic add_candidate_def Discovery_apply_def
        gm_keys_def Let_def gm_get_def Store_UpsertPeer_def NewStore_def)
  show ?thesis
    unfolding r1 snd_conv
    by (simp add: toy_round_def Discovery_DiscoverOnce_def toy_candidate toy_graphic add_candidate_def Discovery_apply_def
        gm_keys_def Let_def gm_get_def Store_UpsertPeer_def NewStore_def Store_ActivePeers_def peerExpired_def toy_node_def)
qed

end
