(* ===== verification/FedPuller.thy ===== *)
theory FedPuller
  imports FedDiscovery
begin

text \<open>
  The snapshot puller, \<open>internal/federation/puller.go\<close>: fetch the presence snapshot of every active peer,
  validate it, store it, and back off from peers that fail.

  The HTTP exchange with a peer is the function \<open>fetch\<close>; the readings of the clock while one peer is
  handled are the record \<open>pull_times\<close>. Durations and instants are nanoseconds.
\<close>

record pullerPeerFailure =
  pf_count :: int
  pf_nextEligiblePullAt :: int

record Puller =
  pl_selfNodeID :: string
  pl_maxSnapshotBytes :: int
  pl_backoffBase :: int
  pl_backoffMax :: int
  pl_failures :: "(string, pullerPeerFailure) gomap"

record pull_times =
  pt_peer :: int
  pt_validate :: int
  pt_failure :: int

definition NewPuller :: "Store \<Rightarrow> string \<Rightarrow> int \<Rightarrow> int \<Rightarrow> int \<Rightarrow> Puller" where
  "NewPuller store selfNodeID0 maxBytes base0 max0 =
     (let self1 = TrimSpace selfNodeID0;
          self2 = (if self1 = '''' then fs_localNodeID store else self1);
          base = (if base0 \<le> 0 then 1000000000 else base0);
          max1 = (if max0 \<le> 0 then 60 * 1000000000 else max0)
      in \<lparr>pl_selfNodeID = (if self2 = '''' then defaultLocalNodeID else self2),
          pl_maxSnapshotBytes = (if maxBytes \<le> 0 then 2 ^ 20 else maxBytes),
          pl_backoffBase = base, pl_backoffMax = (if max1 < base then base else max1), pl_failures = []\<rparr>)"

text \<open>\<open>io.LimitReader\<close> with one byte more than the limit, then \<open>io.ReadAll\<close>.\<close>

definition decodeSnapshot :: "json_codec \<Rightarrow> Puller \<Rightarrow> bytes \<Rightarrow> Snapshot res" where
  "decodeSnapshot J p body =
     (let raw = take (nat (pl_maxSnapshotBytes p + 1)) body
      in if pl_maxSnapshotBytes p < int (length raw) then Inl ''presence snapshot body exceeds the limit''
         else case js_UnmarshalSnapshot J raw of Inl e \<Rightarrow> Inl (''decode presence snapshot: '' @ e) | Inr sn \<Rightarrow> Inr sn)"

definition validateSnapshot :: "fed_env \<Rightarrow> Store \<Rightarrow> Snapshot \<Rightarrow> RegistryNode \<Rightarrow> int \<Rightarrow> unit res" where
  "validateSnapshot E s snapshot peer now =
     (if sn_Protocol snapshot \<noteq> ProtocolPresence then Inl ''unsupported presence snapshot protocol''
      else if TrimSpace (sn_Version snapshot) \<noteq> Version then Inl ''unsupported presence snapshot version''
      else if sn_GeneratedAt snapshot \<le> 0 then Inl ''presence snapshot generatedAt is required''
      else if sn_TTLSeconds snapshot \<le> 0 then Inl ''presence snapshot ttlSeconds must be positive''
      else if snapshotExpired snapshot now then Inl ''stale presence snapshot''
      else case VerifySnapshot (fe_C E) (fe_J E) snapshot (rn_NodeID peer) (rn_PublicKey peer) of
        Inl e \<Rightarrow> Inl e
      | Inr _ \<Rightarrow>
          (case Store_Snapshot (rn_NodeID peer) s of
             None \<Rightarrow> Inr ()
           | Some lst \<Rightarrow>
               (if \<not> snapshotExpired lst now \<and> sn_Sequence snapshot \<le> sn_Sequence lst
                then Inl ''presence snapshot sequence is not greater than last accepted'' else Inr ())))"

definition pullPeer :: "fed_env \<Rightarrow> Puller \<Rightarrow> (RegistryNode \<Rightarrow> http_result) \<Rightarrow> int \<Rightarrow> RegistryNode \<Rightarrow> Store \<Rightarrow> unit res \<times> Store" where
  "pullPeer E p fetch now peer s =
     (if TrimSpace (rn_PresenceURL peer) = '''' then (Inl ''peer presenceUrl is required'', s)
      else case fetch peer of
        HttpError e \<Rightarrow> (Inl (''fetch presence snapshot: '' @ e), s)
      | HttpResponse status body \<Rightarrow>
          (if status < 200 \<or> 300 \<le> status then (Inl ''presence snapshot returned an HTTP error'', s)
           else case decodeSnapshot (fe_J E) p body of
             Inl e \<Rightarrow> (Inl e, s)
           | Inr snapshot \<Rightarrow>
               (case validateSnapshot E s snapshot peer now of
                  Inl e \<Rightarrow> (Inl e, s)
                | Inr _ \<Rightarrow> (Inr (), Store_UpsertSnapshot snapshot s))))"

subsection \<open>Backoff\<close>

fun backoff_loop :: "nat \<Rightarrow> int \<Rightarrow> int \<Rightarrow> int" where
  "backoff_loop 0 delay mx = delay"
| "backoff_loop (Suc n) delay mx =
     (if delay < mx then (if mx div 2 < delay then mx else backoff_loop n (delay * 2) mx) else delay)"

definition backoffDelay :: "Puller \<Rightarrow> int \<Rightarrow> int" where
  "backoffDelay p failureCount =
     (let delay = backoff_loop (nat (failureCount - 1)) (pl_backoffBase p) (pl_backoffMax p)
      in if pl_backoffMax p < delay then pl_backoffMax p else delay)"

definition peerEligible :: "string \<Rightarrow> int \<Rightarrow> Puller \<Rightarrow> bool" where
  "peerEligible nodeID now p =
     (case gm_get (pl_failures p) nodeID of
        None \<Rightarrow> True
      | Some failure \<Rightarrow> pf_nextEligiblePullAt failure = zero_time \<or> pf_nextEligiblePullAt failure \<le> now)"

definition recordFailure :: "string \<Rightarrow> int \<Rightarrow> Puller \<Rightarrow> Puller" where
  "recordFailure nodeID now p =
     (let failure = (case gm_get (pl_failures p) nodeID of None \<Rightarrow> \<lparr>pf_count = 0, pf_nextEligiblePullAt = zero_time\<rparr> | Some f \<Rightarrow> f);
          cnt = pf_count failure + 1
      in p\<lparr>pl_failures := gm_set (pl_failures p) nodeID \<lparr>pf_count = cnt, pf_nextEligiblePullAt = now + backoffDelay p cnt\<rparr>\<rparr>)"

definition clearFailure :: "string \<Rightarrow> Puller \<Rightarrow> Puller" where
  "clearFailure nodeID p = p\<lparr>pl_failures := gm_delete (pl_failures p) nodeID\<rparr>"

definition pull_one ::
    "fed_env \<Rightarrow> (RegistryNode \<Rightarrow> http_result) \<Rightarrow> (RegistryNode \<Rightarrow> pull_times) \<Rightarrow> RegistryNode
     \<Rightarrow> string list \<times> Puller \<times> Store \<Rightarrow> string list \<times> Puller \<times> Store" where
  "pull_one E fetch clk peer st =
     (let (errs, p, s) = st; t = clk peer
      in if rn_NodeID peer = '''' \<or> rn_NodeID peer = pl_selfNodeID p then st
         else if peerExpired peer (pt_peer t) \<or> \<not> peerEligible (rn_NodeID peer) (pt_peer t) p then st
         else case pullPeer E p fetch (pt_validate t) peer s of
           (Inl e, s1) \<Rightarrow> (errs @ [''pull presence snapshot for '' @ rn_NodeID peer @ '': '' @ e], recordFailure (rn_NodeID peer) (pt_failure t) p, s1)
         | (Inr _, s1) \<Rightarrow> (errs, clearFailure (rn_NodeID peer) p, s1))"

definition Puller_PullOnce ::
    "fed_env \<Rightarrow> (RegistryNode \<Rightarrow> http_result) \<Rightarrow> (RegistryNode \<Rightarrow> pull_times) \<Rightarrow> int \<Rightarrow> Puller \<times> Store
     \<Rightarrow> string list \<times> Puller \<times> Store" where
  "Puller_PullOnce E fetch clk now ps =
     foldl (\<lambda>st peer. pull_one E fetch clk peer st) ([], fst ps, snd ps) (Store_ActivePeers now (snd ps))"

subsection \<open>Backoff doubles up to the maximum\<close>

lemma backoff_loop_min:
  assumes "0 < delay" and "delay \<le> mx"
  shows "backoff_loop n delay mx = min (delay * 2 ^ n) mx"
  using assms
proof (induction n arbitrary: delay)
  case 0
  then show ?case by simp
next
  case (Suc n)
  have big: "mx \<le> delay * 2 ^ Suc n" if "mx \<le> 2 * delay"
  proof -
    have "2 * delay * 1 \<le> 2 * delay * 2 ^ n" using Suc.prems(1) by (intro mult_left_mono) simp_all
    with that show ?thesis by (simp add: algebra_simps)
  qed
  show ?case
  proof (cases "delay < mx")
    case True
    show ?thesis
    proof (cases "mx div 2 < delay")
      case True
      then have "mx \<le> 2 * delay" by linarith
      then show ?thesis using True \<open>delay < mx\<close> big by (simp add: min_def)
    next
      case False
      then have "delay * 2 \<le> mx" by linarith
      then show ?thesis using Suc.IH [of "delay * 2"] Suc.prems False \<open>delay < mx\<close> by (simp add: algebra_simps)
    qed
  next
    case False
    then show ?thesis using Suc.prems big by (simp add: min_def)
  qed
qed

definition puller_ok :: "Puller \<Rightarrow> bool" where
  "puller_ok p \<longleftrightarrow> 0 < pl_backoffBase p \<and> pl_backoffBase p \<le> pl_backoffMax p"

lemma NewPuller_ok: "puller_ok (NewPuller s n b base mx)"
  by (simp add: puller_ok_def NewPuller_def Let_def)

lemma backoffDelay_min:
  assumes "puller_ok p" and "1 \<le> n"
  shows "backoffDelay p n = min (pl_backoffBase p * 2 ^ nat (n - 1)) (pl_backoffMax p)"
  using backoff_loop_min [of "pl_backoffBase p" "pl_backoffMax p" "nat (n - 1)"] assms
  by (simp add: backoffDelay_def puller_ok_def Let_def)

subsection \<open>What a successful pull stores\<close>

text \<open>The conditions under which a snapshot of a peer may replace the stored one.\<close>

definition acceptable :: "fed_env \<Rightarrow> Store \<Rightarrow> RegistryNode \<Rightarrow> int \<Rightarrow> Snapshot \<Rightarrow> bool" where
  "acceptable E s peer now sn \<longleftrightarrow>
     sn_Protocol sn = ProtocolPresence \<and> TrimSpace (sn_Version sn) = Version \<and> 0 < sn_GeneratedAt sn \<and> 0 < sn_TTLSeconds sn
   \<and> \<not> snapshotExpired sn now
   \<and> VerifySnapshot (fe_C E) (fe_J E) sn (rn_NodeID peer) (rn_PublicKey peer) = Inr ()
   \<and> (\<forall>lst. Store_Snapshot (rn_NodeID peer) s = Some lst \<longrightarrow> \<not> snapshotExpired lst now \<longrightarrow> sn_Sequence lst < sn_Sequence sn)"

lemma validate_acceptable: "validateSnapshot E s sn peer now = Inr () \<longleftrightarrow> acceptable E s peer now sn"
  by (auto simp: validateSnapshot_def acceptable_def split: sum.splits option.splits)

lemma acceptable_node: "acceptable E s peer now sn \<Longrightarrow> sn_NodeID sn = rn_NodeID peer"
  by (auto simp: acceptable_def VerifySnapshot_def split: if_splits)

lemma pullPeer_cases:
  "(\<exists>e. pullPeer E p fetch now peer s = (Inl e, s))
   \<or> (\<exists>status body sn. fetch peer = HttpResponse status body \<and> 200 \<le> status \<and> status < 300
        \<and> decodeSnapshot (fe_J E) p body = Inr sn \<and> acceptable E s peer now sn
        \<and> pullPeer E p fetch now peer s = (Inr (), Store_UpsertSnapshot sn s))"
proof (cases "validateSnapshot E s (projr (decodeSnapshot (fe_J E) p (case fetch peer of HttpResponse st b \<Rightarrow> b | _ \<Rightarrow> []))) peer now")
  case (Inl e)
  then show ?thesis by (auto simp: pullPeer_def split: http_result.splits sum.splits)
next
  case (Inr u)
  then show ?thesis
    by (auto simp: pullPeer_def validate_acceptable [symmetric] split: http_result.splits sum.splits)
qed

lemma Snapshot_Upsert:
  "sn_NodeID sn \<noteq> '''' \<Longrightarrow> Store_Snapshot n (Store_UpsertSnapshot sn s) = (if n = sn_NodeID sn then Some sn else Store_Snapshot n s)"
  by (simp add: Store_Snapshot_def Store_UpsertSnapshot_def)

text \<open>How one pulled peer changes the stored snapshot of a node.\<close>

definition genuine_update :: "fed_env \<Rightarrow> (RegistryNode \<Rightarrow> pull_times) \<Rightarrow> RegistryNode list \<Rightarrow> string \<Rightarrow> Store \<Rightarrow> Store \<Rightarrow> bool" where
  "genuine_update E clk peers n s s' \<longleftrightarrow>
     Store_Snapshot n s' = Store_Snapshot n s
   \<or> (\<exists>peer \<in> set peers. \<exists>sn. rn_NodeID peer = n \<and> Store_Snapshot n s' = Some sn \<and> acceptable E s peer (pt_validate (clk peer)) sn)"

lemma pull_one_effect:
  assumes "pull_one E fetch clk peer (errs, p, s) = (errs', p', s')"
  shows "(n \<noteq> rn_NodeID peer \<longrightarrow> Store_Snapshot n s' = Store_Snapshot n s) \<and> genuine_update E clk [peer] n s s'"
proof (cases "rn_NodeID peer = '''' \<or> rn_NodeID peer = pl_selfNodeID p
    \<or> peerExpired peer (pt_peer (clk peer)) \<or> \<not> peerEligible (rn_NodeID peer) (pt_peer (clk peer)) p")
  case True
  then have "s' = s" using assms by (auto simp: pull_one_def Let_def split: if_splits)
  then show ?thesis by (simp add: genuine_update_def)
next
  case False
  from pullPeer_cases [of E p fetch "pt_validate (clk peer)" peer s] show ?thesis
  proof
    assume "\<exists>e. pullPeer E p fetch (pt_validate (clk peer)) peer s = (Inl e, s)"
    then have "s' = s" using assms False by (auto simp: pull_one_def Let_def)
    then show ?thesis by (simp add: genuine_update_def)
  next
    assume "\<exists>status body sn. fetch peer = HttpResponse status body \<and> 200 \<le> status \<and> status < 300
        \<and> decodeSnapshot (fe_J E) p body = Inr sn \<and> acceptable E s peer (pt_validate (clk peer)) sn
        \<and> pullPeer E p fetch (pt_validate (clk peer)) peer s = (Inr (), Store_UpsertSnapshot sn s)"
    then obtain sn where sn: "acceptable E s peer (pt_validate (clk peer)) sn" "s' = Store_UpsertSnapshot sn s"
      using assms False by (auto simp: pull_one_def Let_def)
    have "sn_NodeID sn = rn_NodeID peer" by (rule acceptable_node [OF sn(1)])
    with sn False show ?thesis by (simp add: genuine_update_def Snapshot_Upsert)
  qed
qed

lemma acceptable_cong: "Store_Snapshot (rn_NodeID peer) s1 = Store_Snapshot (rn_NodeID peer) s \<Longrightarrow> acceptable E s1 peer now sn \<longleftrightarrow> acceptable E s peer now sn"
  by (simp add: acceptable_def)

lemma pull_fold_effect:
  assumes "distinct (map rn_NodeID peers)"
    and "foldl (\<lambda>st peer. pull_one E fetch clk peer st) (errs, p, s) peers = (errs', p', s')"
  shows "(n \<notin> rn_NodeID ` set peers \<longrightarrow> Store_Snapshot n s' = Store_Snapshot n s) \<and> genuine_update E clk peers n s s'"
  using assms
proof (induction peers arbitrary: errs p s)
  case Nil
  then show ?case by (simp add: genuine_update_def)
next
  case (Cons peer peers)
  obtain errs1 p1 s1 where one: "pull_one E fetch clk peer (errs, p, s) = (errs1, p1, s1)" by (metis prod_cases3)
  have rest: "(n \<notin> rn_NodeID ` set peers \<longrightarrow> Store_Snapshot n s' = Store_Snapshot n s1) \<and> genuine_update E clk peers n s1 s'"
    using Cons.IH [of errs1 p1 s1] Cons.prems one by simp
  note eff = pull_one_effect [OF one, of n]
  show ?case
  proof (cases "n = rn_NodeID peer")
    case True
    then have "n \<notin> rn_NodeID ` set peers" using Cons.prems(1) by auto
    then have "Store_Snapshot n s' = Store_Snapshot n s1" using rest by blast
    with eff True show ?thesis by (auto simp: genuine_update_def)
  next
    case False
    then have same: "Store_Snapshot n s1 = Store_Snapshot n s" using eff by blast
    have "genuine_update E clk peers n s s'"
      using rest acceptable_cong [of _ s1 s] same unfolding genuine_update_def by metis
    then have "genuine_update E clk (peer # peers) n s s'" unfolding genuine_update_def by auto
    with rest same False show ?thesis by simp
  qed
qed

lemma ActivePeers_distinct: "store_ok s \<Longrightarrow> distinct (map rn_NodeID (Store_ActivePeers now s))"
proof -
  assume ok: "store_ok s"
  have e: "map rn_NodeID (map snd (fs_peers s)) = map fst (fs_peers s)" using ok by (auto simp: store_ok_def)
  have "distinct (map rn_NodeID (map snd (fs_peers s)))"
    unfolding e using ok by (simp add: store_ok_def gm_ok_def)
  then have d: "distinct (map rn_NodeID (filter Q (map snd (fs_peers s))))" for Q by (rule distinct_map_filter)
  have "mset (map rn_NodeID (Store_ActivePeers now s)) = mset (map rn_NodeID (filter (\<lambda>p. \<not> peerExpired p now) (map snd (fs_peers s))))"
    by (simp add: Store_ActivePeers_def)
  then show ?thesis using d mset_eq_imp_distinct_iff by blast
qed

subsection \<open>Properties\<close>

text \<open>The delay after the \<open>n\<close>-th failure in a row is the base delay doubled \<open>n - 1\<close> times, capped at
  the maximum.\<close>

lemma backoff_doubles:
  assumes "puller_ok p" and "1 \<le> n"
  shows "backoffDelay p n = min (pl_backoffBase p * 2 ^ nat (n - 1)) (pl_backoffMax p)"
  using assms by (rule backoffDelay_min)

theorem backoff_doubles_witness:
  "backoffDelay (NewPuller demo_store [] 0 0 0) 4
     = min (pl_backoffBase (NewPuller demo_store [] 0 0 0) * 2 ^ nat (4 - 1)) (pl_backoffMax (NewPuller demo_store [] 0 0 0))"
  by (rule backoff_doubles [OF NewPuller_ok]) simp

text \<open>A peer that has just failed for the \<open>n\<close>-th time in a row is left alone until its delay is over,
  and is eligible again from that instant on.\<close>

lemma failed_peer_waits:
  assumes "puller_ok p" and "gm_get (pl_failures p) nodeID = Some f" and "0 \<le> pf_count f" and "0 \<le> now"
  shows "peerEligible nodeID t (recordFailure nodeID now p)
     \<longleftrightarrow> now + min (pl_backoffBase p * 2 ^ nat (pf_count f)) (pl_backoffMax p) \<le> t"
proof -
  have "backoffDelay p (pf_count f + 1) = min (pl_backoffBase p * 2 ^ nat (pf_count f)) (pl_backoffMax p)"
    using backoffDelay_min [OF assms(1), of "pf_count f + 1"] assms(3) by simp
  moreover have "0 \<le> min (pl_backoffBase p * 2 ^ nat (pf_count f)) (pl_backoffMax p)"
    using assms(1) by (simp add: puller_ok_def)
  ultimately show ?thesis
    using assms(2,4) by (auto simp: peerEligible_def recordFailure_def Let_def zero_time_def)
qed

theorem failed_peer_waits_witness:
  "peerEligible ''n2'' 5 (recordFailure ''n2'' 7 (recordFailure ''n2'' 1 (NewPuller demo_store [] 0 0 0)))
     \<longleftrightarrow> 7 + min (pl_backoffBase (recordFailure ''n2'' 1 (NewPuller demo_store [] 0 0 0)) * 2 ^ nat (pf_count \<lparr>pf_count = 1, pf_nextEligiblePullAt = 1000000001\<rparr>))
        (pl_backoffMax (recordFailure ''n2'' 1 (NewPuller demo_store [] 0 0 0))) \<le> 5"
  by (rule failed_peer_waits) (simp_all add: puller_ok_def recordFailure_def NewPuller_def Let_def backoffDelay_def gm_get_def)

text \<open>C17: a pull round changes the stored snapshot of a node only to one that is fresh, names that node,
  verifies under the public key of the registered peer, and has a higher sequence number than the
  stored one unless that one has expired: an older snapshot cannot be replayed.\<close>

lemma pull_stores_genuine:
  assumes "store_ok s" and "Puller_PullOnce E fetch clk now (p, s) = (errs, p', s')"
  shows "Store_Snapshot n s' = Store_Snapshot n s
    \<or> (\<exists>peer \<in> set (Store_ActivePeers now s). \<exists>sn. rn_NodeID peer = n \<and> Store_Snapshot n s' = Some sn
         \<and> acceptable E s peer (pt_validate (clk peer)) sn)"
proof -
  have "genuine_update E clk (Store_ActivePeers now s) n s s'"
    by (rule conjunct2 [OF pull_fold_effect [OF ActivePeers_distinct [OF assms(1)]]])
      (use assms(2) in \<open>simp add: Puller_PullOnce_def\<close>)
  then show ?thesis by (simp only: genuine_update_def)
qed

theorem pull_stores_genuine_witness:
  "Store_Snapshot ''n2'' (snd (snd (Puller_PullOnce toy_env (\<lambda>_. HttpError ''down'') (\<lambda>_. \<lparr>pt_peer = 0, pt_validate = 0, pt_failure = 0\<rparr>) 0
       (NewPuller demo_store [] 0 0 0, demo_store)))) = Store_Snapshot ''n2'' demo_store
    \<or> (\<exists>peer \<in> set (Store_ActivePeers 0 demo_store). \<exists>sn. rn_NodeID peer = ''n2''
        \<and> Store_Snapshot ''n2'' (snd (snd (Puller_PullOnce toy_env (\<lambda>_. HttpError ''down'') (\<lambda>_. \<lparr>pt_peer = 0, pt_validate = 0, pt_failure = 0\<rparr>) 0
            (NewPuller demo_store [] 0 0 0, demo_store)))) = Some sn
        \<and> acceptable toy_env demo_store peer (pt_validate ((\<lambda>_. \<lparr>pt_peer = 0, pt_validate = 0, pt_failure = 0\<rparr>) peer)) sn)"
  by (rule pull_stores_genuine [where clk = "\<lambda>_. \<lparr>pt_peer = 0, pt_validate = 0, pt_failure = 0\<rparr>"])
    (simp_all add: demo_store_def fed_run_ok store_ok_new prod_eq_iff)


definition demo_sent :: Snapshot where
  "demo_sent = projr (fst (SnapshotBuilder_Snapshot toy_crypto plain_json [] 1000000 demo_builder))"

definition demo_env :: fed_env where
  "demo_env = toy_env\<lparr>fe_J := plain_json\<lparr>js_UnmarshalSnapshot := (\<lambda>b. Inr demo_sent)\<rparr>\<rparr>"

lemma demo_built:
  "SnapshotBuilder_Snapshot (fe_C demo_env) (fe_J demo_env) [] 1000000 demo_builder = (Inr demo_sent, demo_builder\<lparr>sb_nextSeq := 1\<rparr>)"
  by (simp add: demo_sent_def demo_env_def toy_env_def SnapshotBuilder_Snapshot_def nextSequence_def SignSnapshot_def
      CanonicalSnapshotPayload_def plain_json_def demo_builder_def NewSnapshotBuilder_def demo_key_parse demo_key_nonempty Let_def)

lemma demo_sent_fresh: "\<not> snapshotExpired demo_sent 0"
  using snapshot_fields(5,6) [OF demo_built]
  by (simp add: snapshotExpired_def UnixMilli_def demo_builder_def NewSnapshotBuilder_def wrap64_ok int64_ok_def)

definition demo_target :: RegistryNode where
  "demo_target = demo_peer\<lparr>rn_NodeID := ''mvc:n1'', rn_PublicKey := hex_EncodeToString (ec_PubKey toy_crypto one_key), rn_PresenceURL := ''u''\<rparr>"


text \<open>A node that restarts counts its snapshots from one again, so a peer rejects the first snapshot
  after the restart as long as the last one it accepted before is still fresh.\<close>

lemma restarted_node_rejected:
  assumes "SnapshotBuilder_Snapshot (fe_C E) (fe_J E) entries now0 (NewSnapshotBuilder nodeID ttl key) = (Inr sn, b')"
    and "Store_Snapshot (rn_NodeID peer) s = Some lst" and "1 \<le> sn_Sequence lst" and "\<not> snapshotExpired lst now"
  shows "\<exists>e. validateSnapshot E s sn peer now = Inl e"
proof -
  have "sn_Sequence sn = 1"
    using snapshot_fields(2) [OF assms(1)] by (simp add: NewSnapshotBuilder_def)
  then have "\<not> acceptable E s peer now sn" using assms(2-4) by (auto simp: acceptable_def)
  then show ?thesis using validate_acceptable [of E s sn peer now]
    by (cases "validateSnapshot E s sn peer now") (auto simp: old.unit.exhaust)
qed

theorem restarted_node_rejected_witness:
  "\<exists>e. validateSnapshot demo_env (Store_UpsertSnapshot (demo_sent\<lparr>sn_Sequence := 7\<rparr>) demo_store) demo_sent demo_target 0 = Inl e"
proof (rule restarted_node_rejected)
  show "SnapshotBuilder_Snapshot (fe_C demo_env) (fe_J demo_env) [] 1000000 (NewSnapshotBuilder ''mvc:n1'' 60 demo_key)
      = (Inr demo_sent, demo_builder\<lparr>sb_nextSeq := 1\<rparr>)"
    using demo_built by (simp only: demo_builder_def)
  show "Store_Snapshot (rn_NodeID demo_target) (Store_UpsertSnapshot (demo_sent\<lparr>sn_Sequence := 7\<rparr>) demo_store) = Some (demo_sent\<lparr>sn_Sequence := 7\<rparr>)"
    using snapshot_fields(1) [OF demo_built]
    by (subst Snapshot_Upsert) (simp_all add: demo_target_def demo_builder_def NewSnapshotBuilder_def)
  show "\<not> snapshotExpired (demo_sent\<lparr>sn_Sequence := 7\<rparr>) 0"
    using demo_sent_fresh by (simp add: snapshotExpired_def)
qed simp

end
