(* ===== verification/ChainRaw.thy ===== *)
theory ChainRaw
  imports FedCrypto
begin

text \<open>
  Raw bytes of two chains: the transaction parser behind the transaction hash of MVC (\<open>internal/chain/mvc/indexer.go\<close>) and the block
  parser of Dogecoin (\<open>internal/chain/dogecoin/dogecoin.go\<close>).

  A result of type \<open>(string + 'a) option\<close> is \<open>None\<close> for a panic (a slice expression out of range) and \<open>Some (Inl e)\<close> for an error.
  \<open>wire.MsgTx\<close> is a record of what the code looks at; its methods are the parameter \<open>wire_lib\<close>. A length in a \<open>make\<close> is only a hint and left out.
\<close>

subsection \<open>Slices and little-endian numbers\<close>

definition go_bind :: "(string + 'a) option \<Rightarrow> ('a \<Rightarrow> (string + 'b) option) \<Rightarrow> (string + 'b) option" where
  "go_bind m f = (case m of None \<Rightarrow> None | Some (Inl e) \<Rightarrow> Some (Inl e) | Some (Inr x) \<Rightarrow> f x)"

text \<open>\<open>raw[lo:hi]\<close> and \<open>raw[lo:]\<close>.\<close>

definition go_slice :: "bytes \<Rightarrow> int \<Rightarrow> int \<Rightarrow> (string + bytes) option" where
  "go_slice raw lo hi = (if 0 \<le> lo \<and> lo \<le> hi \<and> hi \<le> int (length raw) then Some (Inr (take (nat (hi - lo)) (drop (nat lo) raw))) else None)"

definition go_from :: "bytes \<Rightarrow> int \<Rightarrow> (string + bytes) option" where
  "go_from raw lo = go_slice raw lo (int (length raw))"

fun le_value :: "bytes \<Rightarrow> nat" where
  "le_value [] = 0"
| "le_value (c # cs) = code c + 256 * le_value cs"

definition le_bytes :: "nat \<Rightarrow> nat \<Rightarrow> bytes" where
  "le_bytes k n = map (\<lambda>i. char_of (n div 256 ^ i mod 256)) [0..<k]"

subsection \<open>The transaction parser of MVC\<close>

definition decodeMVCVarInt :: "bytes \<Rightarrow> string + int \<times> int" where
  "decodeMVCVarInt buf =
     (if buf = [] then Inl ''invalid transaction data length''
      else if code (hd buf) = 253 then
        (if length buf < 3 then Inl ''invalid transaction data length'' else Inr (int (le_value (take 2 (drop 1 buf))), 3))
      else if code (hd buf) = 254 then
        (if length buf < 5 then Inl ''invalid transaction data length'' else Inr (int (le_value (take 4 (drop 1 buf))), 5))
      else if code (hd buf) = 255 then
        (if length buf < 9 then Inl ''invalid transaction data length''
         else (let v = le_value (take 8 (drop 1 buf)) in if 2 ^ 63 - 1 < v then Inl ''varint too large'' else Inr (int v, 9)))
      else Inr (int (code (hd buf)), 1))"

definition mvc_varint_at :: "bytes \<Rightarrow> int \<Rightarrow> (string + int \<times> int) option" where
  "mvc_varint_at raw index = go_bind (go_from raw index) (\<lambda>buf. Some (decodeMVCVarInt buf))"

record mvcRawTxIn =
  in_txid :: bytes
  in_vout :: bytes
  in_scriptSig :: bytes
  in_sequence :: bytes

record mvcRawTxOut =
  out_amount :: bytes
  out_script :: bytes

record mvcRawTx =
  rt_version :: bytes
  rt_inputs :: "mvcRawTxIn list"
  rt_outputs :: "mvcRawTxOut list"
  rt_lockTime :: bytes

text \<open>The loops over the inputs and the outputs; the result has the index after them.\<close>

fun mvc_inputs :: "bytes \<Rightarrow> nat \<Rightarrow> int \<Rightarrow> mvcRawTxIn list \<Rightarrow> (string + mvcRawTxIn list \<times> int) option" where
  "mvc_inputs raw 0 index inputs = Some (Inr (inputs, index))"
| "mvc_inputs raw (Suc n) index inputs =
     (if int (length raw) < wrap64 (index + 36) then Some (Inl ''invalid transaction data length'')
      else
        go_bind (go_slice raw index (index + 32)) (\<lambda>txid.
        go_bind (go_slice raw (index + 32) (index + 36)) (\<lambda>vout.
        go_bind (mvc_varint_at raw (index + 36)) (\<lambda>(scriptLen, sz).
          (let i = index + 36 + sz; j = wrap64 (i + scriptLen)
           in if int (length raw) < wrap64 (j + 4) then Some (Inl ''invalid transaction data length'')
              else
                go_bind (go_slice raw i j) (\<lambda>scriptSig.
                go_bind (go_slice raw j (wrap64 (j + 4))) (\<lambda>sequence.
                  mvc_inputs raw n (wrap64 (j + 4))
                    (inputs @ [\<lparr>in_txid = txid, in_vout = vout, in_scriptSig = scriptSig, in_sequence = sequence\<rparr>]))))))))"

fun mvc_outputs :: "bytes \<Rightarrow> nat \<Rightarrow> int \<Rightarrow> mvcRawTxOut list \<Rightarrow> (string + mvcRawTxOut list \<times> int) option" where
  "mvc_outputs raw 0 index outputs = Some (Inr (outputs, index))"
| "mvc_outputs raw (Suc n) index outputs =
     (if int (length raw) < wrap64 (index + 8) then Some (Inl ''invalid transaction data length'')
      else
        go_bind (go_slice raw index (index + 8)) (\<lambda>amount.
        go_bind (mvc_varint_at raw (index + 8)) (\<lambda>(scriptLen, sz).
          (let i = index + 8 + sz; j = wrap64 (i + scriptLen)
           in if int (length raw) < j then Some (Inl ''invalid transaction data length'')
              else
                go_bind (go_slice raw i j) (\<lambda>script.
                  mvc_outputs raw n j (outputs @ [\<lparr>out_amount = amount, out_script = script\<rparr>]))))))"

definition parseMVCMetaIDRawTx :: "bytes \<Rightarrow> (string + mvcRawTx) option" where
  "parseMVCMetaIDRawTx raw =
     (if length raw < 10 then Some (Inl ''invalid transaction data'')
      else
        go_bind (go_slice raw 0 4) (\<lambda>version.
        go_bind (mvc_varint_at raw 4) (\<lambda>(inCount, n).
          if inCount = 0 then Some (Inl ''invalid transaction data'')
          else
            go_bind (mvc_inputs raw (nat inCount) (4 + n) []) (\<lambda>(inputs, index1).
            go_bind (mvc_varint_at raw index1) (\<lambda>(outCount, n).
              if outCount = 0 then Some (Inl ''invalid transaction data'')
              else
                go_bind (mvc_outputs raw (nat outCount) (index1 + n) []) (\<lambda>(outputs, index2).
                  if wrap64 (index2 + 4) \<noteq> int (length raw) then Some (Inl ''invalid transaction data length'')
                  else
                    go_bind (go_slice raw index2 (wrap64 (index2 + 4))) (\<lambda>lockTime.
                      Some (Inr \<lparr>rt_version = version, rt_inputs = inputs, rt_outputs = outputs, rt_lockTime = lockTime\<rparr>))))))))"

subsection \<open>The transaction hash of MVC\<close>

record wire_in =
  wi_Hash :: string
  wi_Index :: nat
  wi_Witness :: "bytes list"

record wire_tx =
  wt_Version :: int
  wt_TxIn :: "wire_in list"
  wt_TxOut :: "bytes list"

record wire_lib =
  wl_TxHash :: "wire_tx \<Rightarrow> string"
  wl_Serialize :: "wire_tx \<Rightarrow> string + bytes"
  wl_ExtractPkScriptAddrs :: "bytes \<Rightarrow> string \<times> string list"
  wl_Tokens :: "bytes \<Rightarrow> (nat \<times> bytes option) list \<times> bool"
  wl_BtcDecode :: "bool \<Rightarrow> bytes \<Rightarrow> (wire_tx \<times> bytes) option"

definition uint32LittleEndian :: "nat \<Rightarrow> bytes" where
  "uint32LittleEndian v = le_bytes 4 v"

definition word_string :: "byte list \<Rightarrow> bytes" where
  "word_string ws = map (\<lambda>w. char_of (unat w)) ws"

definition sha256Bytes :: "bytes \<Rightarrow> bytes" where
  "sha256Bytes d = word_string (Sum256 (byte_words d))"

definition doubleSHA256ReversedHex :: "bytes \<Rightarrow> string" where
  "doubleSHA256ReversedHex d = hex_EncodeToString (rev (sha256Bytes (sha256Bytes d)))"

text \<open>The preimage of the hash: the counts and three digests, so that scripts enter only through their digests.\<close>

definition mvc_preimage :: "mvcRawTx \<Rightarrow> bytes" where
  "mvc_preimage parsed =
     (let inputBytes = concat (map (\<lambda>i. in_txid i @ in_vout i @ in_sequence i) (rt_inputs parsed));
          inputScriptHashes = concat (map (\<lambda>i. sha256Bytes (in_scriptSig i)) (rt_inputs parsed));
          outputBytes = concat (map (\<lambda>out. out_amount out @ sha256Bytes (out_script out)) (rt_outputs parsed))
      in rt_version parsed @ rt_lockTime parsed @ uint32LittleEndian (length (rt_inputs parsed)) @ uint32LittleEndian (length (rt_outputs parsed))
         @ sha256Bytes inputBytes @ sha256Bytes inputScriptHashes @ sha256Bytes outputBytes)"

definition mvcMetaIDTxHash :: "wire_lib \<Rightarrow> wire_tx \<Rightarrow> (string + string) option" where
  "mvcMetaIDTxHash L tx =
     (if wt_Version tx < 10 then Some (Inr (wl_TxHash L tx))
      else case wl_Serialize L tx of
        Inl e \<Rightarrow> Some (Inl e)
      | Inr raw \<Rightarrow> go_bind (parseMVCMetaIDRawTx raw) (\<lambda>parsed. Some (Inr (doubleSHA256ReversedHex (mvc_preimage parsed)))))"

subsection \<open>The block parser of Dogecoin\<close>

definition readDogeVarInt :: "bytes \<Rightarrow> string + nat \<times> nat" where
  "readDogeVarInt d =
     (if d = [] then Inl ''empty varint''
      else if code (hd d) = 255 then (if length d < 9 then Inl ''short uint64 varint'' else Inr (le_value (take 8 (drop 1 d)), 9))
      else if code (hd d) = 254 then (if length d < 5 then Inl ''short uint32 varint'' else Inr (le_value (take 4 (drop 1 d)), 5))
      else if code (hd d) = 253 then (if length d < 3 then Inl ''short uint16 varint'' else Inr (le_value (take 2 (drop 1 d)), 3))
      else Inr (code (hd d), 1))"

text \<open>Every offset below has been checked against the length, so \<open>blockBytes[offset:]\<close> is in range.\<close>

definition skipDogeHashBranch :: "bytes \<Rightarrow> nat \<Rightarrow> string \<Rightarrow> string + nat" where
  "skipDogeHashBranch blockBytes offset name =
     (case readDogeVarInt (drop offset blockBytes) of
        Inl e \<Rightarrow> Inl (''read '' @ name @ '' branch count: '' @ e)
      | Inr (cnt, n) \<Rightarrow>
          (if 256 < cnt then Inl (name @ '' branch count implausibly large: '' @ Itoa (int cnt))
           else if length blockBytes < offset + n + cnt * 32
                then Inl (''auxpow block too short for '' @ name @ '' branch at offset '' @ Itoa (int (offset + n)))
                else Inr (offset + n + cnt * 32)))"

definition need_bytes :: "bytes \<Rightarrow> nat \<Rightarrow> nat \<Rightarrow> string \<Rightarrow> (nat \<Rightarrow> string + 'a) \<Rightarrow> string + 'a" where
  "need_bytes blockBytes offset n what f =
     (if length blockBytes < offset + n then Inl (''auxpow block too short for '' @ what @ '' at offset '' @ Itoa (int offset)) else f (offset + n))"

text \<open>The coinbase transaction is read with witness data, and again without when that fails; the new offset is after it.\<close>

definition skipDogeAuxPoW :: "wire_lib \<Rightarrow> bytes \<Rightarrow> nat \<Rightarrow> string + nat" where
  "skipDogeAuxPoW L blockBytes offset =
     (case (case wl_BtcDecode L True (drop offset blockBytes) of None \<Rightarrow> wl_BtcDecode L False (drop offset blockBytes) | Some r \<Rightarrow> Some r) of
        None \<Rightarrow> Inl ''parse auxpow coinbase''
      | Some (coinbaseTx, rest) \<Rightarrow>
          need_bytes blockBytes (offset + (length (drop offset blockBytes) - length rest)) 32 ''block hash'' (\<lambda>offset.
            (case skipDogeHashBranch blockBytes offset ''merkle'' of
               Inl e \<Rightarrow> Inl e
             | Inr offset \<Rightarrow>
                 need_bytes blockBytes offset 4 ''merkle index'' (\<lambda>offset.
                   (case skipDogeHashBranch blockBytes offset ''aux merkle'' of
                      Inl e \<Rightarrow> Inl e
                    | Inr offset \<Rightarrow>
                        need_bytes blockBytes offset 4 ''aux merkle index'' (\<lambda>offset.
                          need_bytes blockBytes offset 80 ''parent header'' Inr))))))"

fun decode_txs :: "wire_lib \<Rightarrow> nat \<Rightarrow> bytes \<Rightarrow> wire_tx list \<Rightarrow> string + wire_tx list" where
  "decode_txs L 0 reader txs = Inr txs"
| "decode_txs L (Suc n) reader txs =
     (case wl_BtcDecode L False reader of
        None \<Rightarrow> Inl (''parse tx '' @ Itoa (int (length txs)))
      | Some (tx, rest) \<Rightarrow> decode_txs L n rest (txs @ [tx]))"

text \<open>\<open>version & 0x100\<close> is bit 8 of the first four bytes. A transaction count other than the expected one is only logged.\<close>

definition parseDogeBlockTransactions :: "wire_lib \<Rightarrow> bytes \<Rightarrow> string + wire_tx list" where
  "parseDogeBlockTransactions L blockBytes =
     (if length blockBytes < 80 then Inl (''block too short: '' @ Itoa (int (length blockBytes)) @ '' bytes'')
      else
        (case (if odd (le_value (take 4 blockBytes) div 256) then skipDogeAuxPoW L blockBytes 80 else Inr 80) of
           Inl e \<Rightarrow> Inl e
         | Inr offset \<Rightarrow>
             (case readDogeVarInt (drop offset blockBytes) of
                Inl e \<Rightarrow> Inl (''read tx count: '' @ e)
              | Inr (txCount, n) \<Rightarrow> decode_txs L txCount (drop (offset + n) blockBytes) [])))"

subsection \<open>Numbers and slices\<close>

lemma le_bytes_length [simp]: "length (le_bytes k n) = k"
  by (simp add: le_bytes_def)

lemma le_value_bytes: "le_value (le_bytes k n) = n mod 256 ^ k"
proof (induction k arbitrary: n)
  case (Suc k)
  have "le_bytes (Suc k) n = char_of (n mod 256) # le_bytes k (n div 256)"
    unfolding le_bytes_def by (simp only: upt_conv_Cons [OF zero_less_Suc] list.map map_Suc_upt [symmetric] map_map)
      (simp add: comp_def div_mult2_eq)
  moreover have "code (char_of m) = m mod 256" for m :: nat by (simp add: code_def)
  ultimately show ?case using Suc by (simp add: mod_mult2_eq)
qed (simp add: le_bytes_def)

text \<open>The variable-length integers of the Bitcoin wire format.\<close>

definition var_int :: "nat \<Rightarrow> bytes" where
  "var_int n =
     (if n < 253 then [char_of n] else if n < 2 ^ 16 then char_of (253 :: nat) # le_bytes 2 n
      else if n < 2 ^ 32 then char_of (254 :: nat) # le_bytes 4 n else char_of (255 :: nat) # le_bytes 8 n)"

lemma var_int_cases:
  assumes "n < 2 ^ 64"
  shows "readDogeVarInt (var_int n @ rest) = Inr (n, length (var_int n))"
  using assms le_value_bytes [of 2 n] le_value_bytes [of 4 n] le_value_bytes [of 8 n]
  by (auto simp: readDogeVarInt_def var_int_def)

lemma decodeMVCVarInt_eq:
  "decodeMVCVarInt buf = (case readDogeVarInt buf of Inl e \<Rightarrow> Inl ''invalid transaction data length''
     | Inr (n, k) \<Rightarrow> if 2 ^ 63 - 1 < n then Inl ''varint too large'' else Inr (int n, int k))"
proof -
  have b: "le_value bs < 256 ^ length bs" for bs
  proof (induction bs)
    case (Cons c bs)
    then show ?case using code_lt_256 [of c] by simp
  qed simp
  show ?thesis using b [of "take 2 (drop 1 buf)"] b [of "take 4 (drop 1 buf)"] code_lt_256 [of "hd buf"]
    by (auto simp: decodeMVCVarInt_def readDogeVarInt_def Let_def)
qed

lemma go_slice_eq: "raw = pre @ x @ post \<Longrightarrow> lo = int (length pre) \<Longrightarrow> hi = lo + int (length x) \<Longrightarrow> go_slice raw lo hi = Some (Inr x)"
  by (simp add: go_slice_def)

lemma mvc_varint_at_eq:
  assumes "raw = pre @ var_int n @ post" and "index = int (length pre)" and "n < 2 ^ 63"
  shows "mvc_varint_at raw index = Some (Inr (int n, int (length (var_int n))))"
proof -
  have "go_from raw index = Some (Inr (var_int n @ post))"
    unfolding go_from_def by (rule go_slice_eq [where pre = pre and post = "[]"]) (simp_all add: assms(1,2))
  then show ?thesis using var_int_cases [of n post] assms(3) by (simp add: mvc_varint_at_def go_bind_def decodeMVCVarInt_eq)
qed

lemma wrap64_nat: "n < 2 ^ 63 \<Longrightarrow> wrap64 (int n) = int n"
  by (rule wrap64_ok) (simp add: int64_ok_def)

lemma go_bind_Inr [simp]: "go_bind (Some (Inr x)) f = f x"
  by (simp add: go_bind_def)

lemma go_bind_Inl [simp]: "go_bind (Some (Inl e)) f = Some (Inl e)"
  by (simp add: go_bind_def)

subsection \<open>The wire format\<close>

definition in_bytes :: "mvcRawTxIn \<Rightarrow> bytes" where
  "in_bytes i = in_txid i @ in_vout i @ var_int (length (in_scriptSig i)) @ in_scriptSig i @ in_sequence i"

definition out_bytes :: "mvcRawTxOut \<Rightarrow> bytes" where
  "out_bytes out = out_amount out @ var_int (length (out_script out)) @ out_script out"

definition tx_bytes :: "mvcRawTx \<Rightarrow> bytes" where
  "tx_bytes t = rt_version t @ var_int (length (rt_inputs t)) @ concat (map in_bytes (rt_inputs t))
     @ var_int (length (rt_outputs t)) @ concat (map out_bytes (rt_outputs t)) @ rt_lockTime t"

definition in_ok :: "mvcRawTxIn \<Rightarrow> bool" where
  "in_ok i \<longleftrightarrow> length (in_txid i) = 32 \<and> length (in_vout i) = 4 \<and> length (in_sequence i) = 4"

definition raw_tx_ok :: "mvcRawTx \<Rightarrow> bool" where
  "raw_tx_ok t \<longleftrightarrow> length (rt_version t) = 4 \<and> length (rt_lockTime t) = 4 \<and> rt_inputs t \<noteq> [] \<and> rt_outputs t \<noteq> []
     \<and> list_all in_ok (rt_inputs t) \<and> list_all (\<lambda>out. length (out_amount out) = 8) (rt_outputs t) \<and> length (tx_bytes t) < 2 ^ 63"

lemma var_int_pos: "0 < length (var_int n)"
  by (simp add: var_int_def)

lemma mvc_inputs_eq:
  assumes "list_all in_ok ins" and "raw = pre @ concat (map in_bytes ins) @ post" and "index = int (length pre)" and "length raw < 2 ^ 63"
  shows "mvc_inputs raw (length ins) index acc = Some (Inr (acc @ ins, int (length (pre @ concat (map in_bytes ins)))))"
  using assms
proof (induction ins arbitrary: pre index acc)
  case (Cons i ins)
  let ?v = "var_int (length (in_scriptSig i))" and ?rest = "concat (map in_bytes ins) @ post"
  have raw: "raw = pre @ in_txid i @ in_vout i @ ?v @ in_scriptSig i @ in_sequence i @ ?rest"
    using Cons.prems(2) by (simp add: in_bytes_def [of i])
  have len: "length (in_txid i) = 32" "length (in_vout i) = 4" "length (in_sequence i) = 4" using Cons.prems(1) by (simp_all add: in_ok_def)
  define p where "p = pre @ in_txid i @ in_vout i @ ?v"
  define q where "q = p @ in_scriptSig i"
  have b: "length pre + 36 \<le> length raw" "length q + 4 \<le> length raw" "length (in_scriptSig i) < 2 ^ 63"
    using Cons.prems(4) len unfolding q_def p_def raw by simp_all
  have w: "wrap64 (index + 36) = index + 36" "wrap64 (int (length q)) = int (length q)" "wrap64 (int (length q) + 4) = int (length q + 4)"
    using wrap64_nat [of "length pre + 36"] wrap64_nat [of "length q"] wrap64_nat [of "length q + 4"] b Cons.prems(3,4) by simp_all
  have s: "go_slice raw index (index + 32) = Some (Inr (in_txid i))" "go_slice raw (index + 32) (index + 36) = Some (Inr (in_vout i))"
    "mvc_varint_at raw (index + 36) = Some (Inr (int (length (in_scriptSig i)), int (length ?v)))"
    "go_slice raw (int (length p)) (int (length q)) = Some (Inr (in_scriptSig i))"
    "go_slice raw (int (length q)) (int (length q + 4)) = Some (Inr (in_sequence i))"
    subgoal by (rule go_slice_eq [OF raw Cons.prems(3)]) (simp add: len)
    subgoal by (rule go_slice_eq [of raw "pre @ in_txid i" _ "?v @ in_scriptSig i @ in_sequence i @ ?rest"]) (simp_all add: raw Cons.prems(3) len)
    subgoal by (rule mvc_varint_at_eq [of raw "pre @ in_txid i @ in_vout i" _ "in_scriptSig i @ in_sequence i @ ?rest"]) (use b(3) in \<open>simp_all add: raw Cons.prems(3) len\<close>)
    subgoal by (rule go_slice_eq [of raw p _ "in_sequence i @ ?rest"]) (simp_all add: raw p_def q_def)
    subgoal by (rule go_slice_eq [of raw q _ ?rest]) (simp_all add: raw p_def q_def len)
    done
  have i: "index + 36 + int (length ?v) = int (length p)" "int (length p) + int (length (in_scriptSig i)) = int (length q)"
    using Cons.prems(3) len by (simp_all add: p_def q_def)
  have n: "\<not> int (length raw) < index + 36" "\<not> int (length raw) < int (length q + 4)" using b Cons.prems(3) by simp_all
  have e: "\<lparr>in_txid = in_txid i, in_vout = in_vout i, in_scriptSig = in_scriptSig i, in_sequence = in_sequence i\<rparr> = i" by simp
  have "mvc_inputs raw (length (i # ins)) index acc = mvc_inputs raw (length ins) (int (length q + 4)) (acc @ [i])"
    using n by (simp add: s i w e Let_def del: of_nat_add)
  also have "\<dots> = Some (Inr ((acc @ [i]) @ ins, int (length ((q @ in_sequence i) @ concat (map in_bytes ins)))))"
    by (rule Cons.IH) (use Cons.prems(1,4) len in \<open>simp_all add: raw p_def q_def\<close>)
  finally show ?case by (simp add: in_bytes_def [of i] p_def q_def)
qed simp

lemma mvc_outputs_eq:
  assumes "list_all (\<lambda>out. length (out_amount out) = 8) outs" and "raw = pre @ concat (map out_bytes outs) @ post" and "index = int (length pre)"
    and "length raw < 2 ^ 63"
  shows "mvc_outputs raw (length outs) index acc = Some (Inr (acc @ outs, int (length (pre @ concat (map out_bytes outs)))))"
  using assms
proof (induction outs arbitrary: pre index acc)
  case (Cons x outs)
  let ?v = "var_int (length (out_script x))" and ?rest = "concat (map out_bytes outs) @ post"
  have raw: "raw = pre @ out_amount x @ ?v @ out_script x @ ?rest" using Cons.prems(2) by (simp add: out_bytes_def [of x])
  have len: "length (out_amount x) = 8" using Cons.prems(1) by simp
  define p where "p = pre @ out_amount x @ ?v"
  define q where "q = p @ out_script x"
  have b: "length pre + 8 \<le> length raw" "length q \<le> length raw" "length (out_script x) < 2 ^ 63"
    using Cons.prems(4) len unfolding q_def p_def raw by simp_all
  have w: "wrap64 (index + 8) = index + 8" "wrap64 (int (length q)) = int (length q)"
    using wrap64_nat [of "length pre + 8"] wrap64_nat [of "length q"] b Cons.prems(3,4) by simp_all
  have s: "go_slice raw index (index + 8) = Some (Inr (out_amount x))"
    "mvc_varint_at raw (index + 8) = Some (Inr (int (length (out_script x)), int (length ?v)))"
    "go_slice raw (int (length p)) (int (length q)) = Some (Inr (out_script x))"
    subgoal by (rule go_slice_eq [OF raw Cons.prems(3)]) (simp add: len)
    subgoal by (rule mvc_varint_at_eq [of raw "pre @ out_amount x" _ "out_script x @ ?rest"]) (use b(3) in \<open>simp_all add: raw Cons.prems(3) len\<close>)
    subgoal by (rule go_slice_eq [of raw p _ ?rest]) (simp_all add: raw p_def q_def)
    done
  have i: "index + 8 + int (length ?v) = int (length p)" "int (length p) + int (length (out_script x)) = int (length q)"
    using Cons.prems(3) len by (simp_all add: p_def q_def)
  have n: "\<not> int (length raw) < index + 8" "\<not> int (length raw) < int (length q)" using b Cons.prems(3) by simp_all
  have e: "\<lparr>out_amount = out_amount x, out_script = out_script x\<rparr> = x" by simp
  have "mvc_outputs raw (length (x # outs)) index acc = mvc_outputs raw (length outs) (int (length q)) (acc @ [x])"
    using n by (simp add: s i w e Let_def del: of_nat_less_iff)
  also have "\<dots> = Some (Inr ((acc @ [x]) @ outs, int (length (q @ concat (map out_bytes outs)))))"
    by (rule Cons.IH) (use Cons.prems(1,4) in \<open>simp_all add: raw p_def q_def\<close>)
  finally show ?case by (simp add: out_bytes_def [of x] p_def q_def)
qed simp

lemma parse_tx_bytes:
  assumes "raw_tx_ok t"
  shows "parseMVCMetaIDRawTx (tx_bytes t) = Some (Inr t)"
proof -
  let ?ins = "rt_inputs t" and ?outs = "rt_outputs t"
  let ?vi = "var_int (length ?ins)" and ?vo = "var_int (length ?outs)" and ?bi = "concat (map in_bytes ?ins)" and ?bo = "concat (map out_bytes ?outs)"
  define raw where "raw = tx_bytes t"
  have t: "length (rt_version t) = 4" "length (rt_lockTime t) = 4" "?ins \<noteq> []" "?outs \<noteq> []" "list_all in_ok ?ins"
    "list_all (\<lambda>out. length (out_amount out) = 8) ?outs" "length raw < 2 ^ 63" using assms by (simp_all add: raw_tx_ok_def raw_def)
  have raw: "raw = rt_version t @ ?vi @ ?bi @ ?vo @ ?bo @ rt_lockTime t" by (simp add: raw_def tx_bytes_def)
  define p where "p = rt_version t @ ?vi @ ?bi"
  define q where "q = p @ ?vo @ ?bo"
  have "length xs \<le> length (concat (map in_bytes xs))" if "list_all in_ok xs" for xs using that by (induction xs) (auto simp: in_bytes_def in_ok_def)
  moreover have "length xs \<le> length (concat (map out_bytes xs))" if "list_all (\<lambda>out. length (out_amount out) = 8) xs" for xs
    using that by (induction xs) (auto simp: out_bytes_def)
  ultimately have c: "length ?ins \<le> length ?bi" "length ?outs \<le> length ?bo" using t(5,6) by blast+
  have n: "length ?ins < 2 ^ 63" "length ?outs < 2 ^ 63" "length q + 4 < 2 ^ 63"
    using c t unfolding raw p_def q_def by simp_all
  have "length raw = 8 + (length ?vi + (length ?bi + (length ?vo + length ?bo)))" using t(1,2) by (simp add: raw)
  then have n10: "10 \<le> length raw" using var_int_pos [of "length ?ins"] var_int_pos [of "length ?outs"] by linarith
  have s: "go_slice raw 0 4 = Some (Inr (rt_version t))" "mvc_varint_at raw 4 = Some (Inr (int (length ?ins), int (length ?vi)))"
    "mvc_inputs raw (length ?ins) (4 + int (length ?vi)) [] = Some (Inr (?ins, int (length p)))"
    "mvc_varint_at raw (int (length p)) = Some (Inr (int (length ?outs), int (length ?vo)))"
    "mvc_outputs raw (length ?outs) (int (length p) + int (length ?vo)) [] = Some (Inr (?outs, int (length q)))"
    "go_slice raw (int (length q)) (int (length q + 4)) = Some (Inr (rt_lockTime t))"
    subgoal by (rule go_slice_eq [of raw "[]"]) (simp_all add: raw t(1))
    subgoal by (rule mvc_varint_at_eq [of raw "rt_version t"]) (use n(1) in \<open>simp_all add: raw t(1)\<close>)
    subgoal using mvc_inputs_eq [OF t(5) _ _ t(7), of "rt_version t @ ?vi" _ _ "[]"] by (simp add: raw t(1) p_def add.assoc)
    subgoal by (rule mvc_varint_at_eq [of raw p]) (use n(2) in \<open>simp_all add: raw p_def\<close>)
    subgoal using mvc_outputs_eq [OF t(6) _ _ t(7), of "p @ ?vo" _ _ "[]"] by (simp add: raw p_def q_def add.assoc)
    subgoal by (rule go_slice_eq [of raw q _ "[]"]) (simp_all add: raw p_def q_def t(2))
    done
  have l: "wrap64 (int (length q) + 4) = int (length q + 4)" "int (length raw) = int (length q + 4)"
    using wrap64_nat [OF n(3)] t(2) by (simp_all add: raw p_def q_def)
  show ?thesis unfolding raw_def [symmetric] parseMVCMetaIDRawTx_def using n10 t(3,4) l by (simp add: s del: of_nat_add)
qed

subsection \<open>Blocks with merged mining data\<close>

definition branch_bytes :: "bytes list \<Rightarrow> bytes" where
  "branch_bytes hashes = var_int (length hashes) @ concat hashes"

definition branch_ok :: "bytes list \<Rightarrow> bool" where
  "branch_ok hashes \<longleftrightarrow> length hashes \<le> 256 \<and> list_all (\<lambda>h. length h = 32) hashes"

lemma skip_branch:
  assumes "branch_ok hashes" and "blockBytes = pre @ branch_bytes hashes @ post"
  shows "skipDogeHashBranch blockBytes (length pre) name = Inr (length pre + length (branch_bytes hashes))"
proof -
  have "length (concat hs) = length hs * 32" if "list_all (\<lambda>h. length h = 32) hs" for hs using that by (induction hs) auto
  moreover have h: "list_all (\<lambda>h. length h = 32) hashes" "length hashes \<le> 256" using assms(1) by (simp_all add: branch_ok_def)
  ultimately have l: "length (concat hashes) = length hashes * 32" "length hashes \<le> 256" by blast+
  have "readDogeVarInt (drop (length pre) blockBytes) = Inr (length hashes, length (var_int (length hashes)))"
    using var_int_cases [of "length hashes" "concat hashes @ post"] l(2) by (simp add: assms(2) branch_bytes_def)
  then show ?thesis using l by (simp add: skipDogeHashBranch_def assms(2) branch_bytes_def)
qed

record aux_pow =
  ap_Coinbase :: wire_tx
  ap_BlockHash :: bytes
  ap_Branch :: "bytes list"
  ap_Index :: bytes
  ap_AuxBranch :: "bytes list"
  ap_AuxIndex :: bytes
  ap_Parent :: bytes

definition aux_ok :: "aux_pow \<Rightarrow> bool" where
  "aux_ok a \<longleftrightarrow> length (ap_BlockHash a) = 32 \<and> branch_ok (ap_Branch a) \<and> length (ap_Index a) = 4 \<and> branch_ok (ap_AuxBranch a)
     \<and> length (ap_AuxIndex a) = 4 \<and> length (ap_Parent a) = 80"

definition aux_bytes :: "(wire_tx \<Rightarrow> bytes) \<Rightarrow> aux_pow \<Rightarrow> bytes" where
  "aux_bytes enc a = enc (ap_Coinbase a) @ ap_BlockHash a @ branch_bytes (ap_Branch a) @ ap_Index a @ branch_bytes (ap_AuxBranch a) @ ap_AuxIndex a @ ap_Parent a"

text \<open>What is used of \<open>BtcDecode\<close>: it reads back an encoded transaction and leaves the bytes after it.\<close>

definition decodes :: "wire_lib \<Rightarrow> bool \<Rightarrow> (wire_tx \<Rightarrow> bytes) \<Rightarrow> wire_tx list \<Rightarrow> bool" where
  "decodes L w enc txs \<longleftrightarrow> (\<forall>tx \<in> set txs. \<forall>rest. wl_BtcDecode L w (enc tx @ rest) = Some (tx, rest))"

lemma skip_aux:
  assumes "decodes L True enc [ap_Coinbase a]" and "aux_ok a" and "blockBytes = pre @ aux_bytes enc a @ post"
  shows "skipDogeAuxPoW L blockBytes (length pre) = Inr (length pre + length (aux_bytes enc a))"
proof -
  define p1 where "p1 = pre @ enc (ap_Coinbase a) @ ap_BlockHash a"
  define p2 where "p2 = p1 @ branch_bytes (ap_Branch a) @ ap_Index a"
  define p3 where "p3 = p2 @ branch_bytes (ap_AuxBranch a) @ ap_AuxIndex a"
  have a: "length (ap_BlockHash a) = 32" "branch_ok (ap_Branch a)" "length (ap_Index a) = 4" "branch_ok (ap_AuxBranch a)"
    "length (ap_AuxIndex a) = 4" "length (ap_Parent a) = 80" using assms(2) by (simp_all add: aux_ok_def)
  have b: "blockBytes = p1 @ branch_bytes (ap_Branch a) @ ap_Index a @ branch_bytes (ap_AuxBranch a) @ ap_AuxIndex a @ ap_Parent a @ post"
    "blockBytes = p2 @ branch_bytes (ap_AuxBranch a) @ ap_AuxIndex a @ ap_Parent a @ post" "blockBytes = p3 @ ap_Parent a @ post"
    by (simp_all add: assms(3) aux_bytes_def p1_def p2_def p3_def)
  have d: "wl_BtcDecode L True (drop (length pre) blockBytes) = Some (ap_Coinbase a, ap_BlockHash a @ branch_bytes (ap_Branch a) @ ap_Index a
      @ branch_bytes (ap_AuxBranch a) @ ap_AuxIndex a @ ap_Parent a @ post)"
    using assms(1) by (simp add: assms(3) aux_bytes_def decodes_def)
  have k: "length pre + length (enc (ap_Coinbase a)) + 32 = length p1" "length p1 + length (branch_bytes (ap_Branch a)) + 4 = length p2"
    "length p2 + length (branch_bytes (ap_AuxBranch a)) + 4 = length p3" "length p3 + 80 = length pre + length (aux_bytes enc a)"
    using a by (simp_all add: p1_def p2_def p3_def aux_bytes_def)
  have l: "length p1 + length (branch_bytes (ap_Branch a)) + 4 \<le> length blockBytes" "length p1 \<le> length blockBytes" "length p3 + 80 \<le> length blockBytes"
    "length p3 \<le> length blockBytes"
    using a unfolding b(3) by (simp_all add: p1_def p2_def p3_def)
  have f: "length pre + (length (drop (length pre) blockBytes) - length (ap_BlockHash a @ branch_bytes (ap_Branch a) @ ap_Index a
      @ branch_bytes (ap_AuxBranch a) @ ap_AuxIndex a @ ap_Parent a @ post)) = length pre + length (enc (ap_Coinbase a))"
    by (simp add: assms(3) aux_bytes_def)
  show ?thesis
    unfolding skipDogeAuxPoW_def d option.case prod.case f need_bytes_def k(1) skip_branch [OF a(2) b(1)] sum.case k(2) skip_branch [OF a(4) b(2)] k(3,4)
    using l k by simp
qed

lemma decode_txs_eq:
  assumes "decodes L False enc txs"
  shows "decode_txs L (length txs) (concat (map enc txs) @ rest) acc = Inr (acc @ txs)"
  using assms by (induction txs arbitrary: acc) (simp_all add: decodes_def)

subsection \<open>Scripts\<close>

text \<open>The parts that a script builder is given, the bytes of the script format, and its tokens.\<close>

datatype script_item = OpCode string | PushData bytes

definition push_opcode :: "bytes \<Rightarrow> nat" where
  "push_opcode d = (if length d \<le> 75 then length d else if length d < 2 ^ 8 then 76 else if length d < 2 ^ 16 then 77 else 78)"

fun item_token :: "script_item \<Rightarrow> nat \<times> bytes option" where
  "item_token (OpCode name) = (if name = ''OP_RETURN'' then 106 else 0, None)"
| "item_token (PushData d) = (push_opcode d, Some d)"

text \<open>A builder replaces an empty push and the pushes of one small number by opcodes without data; the others are plain.\<close>

fun plain_item :: "script_item \<Rightarrow> bool" where
  "plain_item (OpCode name) = (name \<in> {''OP_0'', ''OP_RETURN''})"
| "plain_item (PushData d) = (d \<noteq> [] \<and> length d < 2 ^ 32 \<and> (length d = 1 \<longrightarrow> 16 < code (hd d) \<and> code (hd d) \<noteq> 129))"

fun item_bytes :: "script_item \<Rightarrow> bytes" where
  "item_bytes (OpCode name) = [char_of (if name = ''OP_RETURN'' then 106 else 0 :: nat)]"
| "item_bytes (PushData d) = char_of (push_opcode d) #
     (if length d \<le> 75 then d else if length d < 2 ^ 8 then le_bytes 1 (length d) @ d
      else if length d < 2 ^ 16 then le_bytes 2 (length d) @ d else le_bytes 4 (length d) @ d)"

definition script_bytes :: "script_item list \<Rightarrow> bytes" where
  "script_bytes items = concat (map item_bytes items)"

definition push_size :: "nat \<Rightarrow> bytes \<Rightarrow> nat \<times> bytes" where
  "push_size n s =
     (if n \<le> 75 then (n, s) else if n = 76 then (le_value (take 1 s), drop 1 s)
      else if n = 77 then (le_value (take 2 s), drop 2 s) else (le_value (take 4 s), drop 4 s))"

lemma push_size_length: "length (snd (push_size n s)) \<le> length s"
  by (simp add: push_size_def)

function script_tokens :: "bytes \<Rightarrow> (nat \<times> bytes option) list \<times> bool" where
  "script_tokens [] = ([], False)"
| "script_tokens (c # s) =
     (if code c = 0 \<or> 78 < code c then (let (toks, err) = script_tokens s in ((code c, None) # toks, err))
      else
        (let (k, rest) = push_size (code c) s
         in if length rest < k then ([], True) else (let (toks, err) = script_tokens (drop k rest) in ((code c, Some (take k rest)) # toks, err))))"
  by pat_completeness auto
termination
proof (relation "measure length")
  fix c s p k rest
  assume "p = push_size (code c) s" "(k, rest) = p"
  then have "length rest \<le> length s" using push_size_length [of "code c" s] by (metis snd_conv)
  then show "(drop k rest, c # s) \<in> measure length" by simp
qed simp_all

declare script_tokens.simps(2) [simp del]

lemma script_tokens_push:
  assumes "plain_item (PushData d)"
  shows "script_tokens (item_bytes (PushData d) @ rest) = (let (toks, err) = script_tokens rest in ((push_opcode d, Some d) # toks, err))"
proof -
  have n: "0 < length d" "length d < 2 ^ 32" using assms by auto
  then have c: "push_opcode d \<noteq> 0" "push_opcode d \<le> 78" "push_opcode d < 256" by (auto simp: push_opcode_def)
  have "push_size (push_opcode d) (tl (item_bytes (PushData d) @ rest)) = (length d, d @ rest)"
    using n le_value_bytes [of 1 "length d"] le_value_bytes [of 2 "length d"] le_value_bytes [of 4 "length d"]
    by (auto simp: push_size_def push_opcode_def)
  then show ?thesis using c by (simp add: script_tokens.simps(2))
qed

lemma script_tokens_bytes: "list_all plain_item items \<Longrightarrow> script_tokens (script_bytes items) = (map item_token items, False)"
proof (induction items)
  case (Cons x items)
  then have ih: "script_tokens (script_bytes items) = (map item_token items, False)" by simp
  have e: "script_bytes (x # items) = item_bytes x @ script_bytes items" by (simp add: script_bytes_def)
  show ?case
  proof (cases x)
    case (OpCode name)
    then show ?thesis using Cons.prems ih unfolding e by (auto simp: script_tokens.simps(2))
  next
    case (PushData d)
    then show ?thesis using Cons.prems ih script_tokens_push [of d "script_bytes items"] unfolding e by simp
  qed
qed (simp add: script_bytes_def)

subsection \<open>Properties\<close>

text \<open>C4: the transaction parser reads every transaction of the wire format back: versions, inputs, outputs and lock time, whatever the
  scripts hold.\<close>

lemma raw_tx_roundtrip:
  assumes "raw_tx_ok t"
  shows "parseMVCMetaIDRawTx (tx_bytes t) = Some (Inr t)"
  by (rule parse_tx_bytes [OF assms])

definition demo_raw :: mvcRawTx where
  "demo_raw = \<lparr>rt_version = replicate 4 CHR ''v'',
     rt_inputs = [\<lparr>in_txid = replicate 32 CHR ''t'', in_vout = replicate 4 CHR ''0'', in_scriptSig = ''sig'', in_sequence = replicate 4 CHR ''s''\<rparr>],
     rt_outputs = [\<lparr>out_amount = replicate 8 CHR ''a'', out_script = ''script''\<rparr>], rt_lockTime = replicate 4 CHR ''l''\<rparr>"

theorem raw_tx_roundtrip_witness: "parseMVCMetaIDRawTx (tx_bytes demo_raw) = Some (Inr demo_raw)"
  by (rule raw_tx_roundtrip) (simp add: raw_tx_ok_def demo_raw_def tx_bytes_def in_ok_def in_bytes_def out_bytes_def var_int_def)

text \<open>C12: the transactions of a Dogecoin block are read from its bytes, with or without the merged mining data that the version
  announces.\<close>

lemma doge_block_parsed:
  assumes "decodes L True enc_w [ap_Coinbase a]" and "decodes L False enc txs" and "length header = 80" and "length txs < 2 ^ 64"
    and "aux = (if odd (le_value (take 4 header) div 256) then aux_bytes enc_w a else '''')" and "aux_ok a"
  shows "parseDogeBlockTransactions L (header @ aux @ var_int (length txs) @ concat (map enc txs)) = Inr txs"
proof -
  define b where "b = header @ aux @ var_int (length txs) @ concat (map enc txs)"
  have v: "take 4 b = take 4 header" "80 \<le> length b" using assms(3) by (simp_all add: b_def)
  have o: "(if odd (le_value (take 4 b) div 256) then skipDogeAuxPoW L b 80 else Inr 80) = Inr (80 + length aux)"
  proof (cases "odd (le_value (take 4 header) div 256)")
    case True
    then have "b = header @ aux_bytes enc_w a @ var_int (length txs) @ concat (map enc txs)" by (simp add: b_def assms(5))
    from skip_aux [OF assms(1,6) this] show ?thesis using True assms(3,5) v by simp
  qed (simp add: v assms(5))
  have "readDogeVarInt (drop (80 + length aux) b) = Inr (length txs, length (var_int (length txs)))"
    using var_int_cases [OF assms(4)] assms(3) by (simp add: b_def)
  moreover have "drop (80 + length aux + length (var_int (length txs))) b = concat (map enc txs)" using assms(3) by (simp add: b_def)
  ultimately show ?thesis
    unfolding b_def [symmetric] parseDogeBlockTransactions_def o using v(2) decode_txs_eq [OF assms(2), of "[]" "[]"] by simp
qed

definition demo_wire_tx :: wire_tx where
  "demo_wire_tx = \<lparr>wt_Version = 1, wt_TxIn = [], wt_TxOut = []\<rparr>"

definition demo_wire :: wire_lib where
  "demo_wire = \<lparr>wl_TxHash = (\<lambda>tx. ''h''), wl_Serialize = (\<lambda>tx. Inr (tx_bytes demo_raw)), wl_ExtractPkScriptAddrs = (\<lambda>s. (''pubkeyhash'', [s])),
     wl_Tokens = (\<lambda>s. ([], False)), wl_BtcDecode = (\<lambda>w d. if d = [] then None else Some (demo_wire_tx, tl d))\<rparr>"

definition demo_aux :: aux_pow where
  "demo_aux = \<lparr>ap_Coinbase = demo_wire_tx, ap_BlockHash = replicate 32 CHR ''h'', ap_Branch = [], ap_Index = ''0000'', ap_AuxBranch = [],
     ap_AuxIndex = ''0000'', ap_Parent = replicate 80 CHR ''p''\<rparr>"

theorem doge_block_parsed_witness:
  "parseDogeBlockTransactions demo_wire (replicate 80 (char_of (1 :: nat)) @ aux_bytes (\<lambda>tx. ''x'') demo_aux @ var_int 2 @ ''xx'')
   = Inr [demo_wire_tx, demo_wire_tx]"
proof -
  have "take 4 (replicate 80 c) = [c, c, c, c]" for c :: char by (simp add: take_replicate eval_nat_numeral(2,3))
  then have v: "odd (le_value (take 4 (replicate 80 (char_of (1 :: nat)))) div 256)" by simp
  have "length [demo_wire_tx, demo_wire_tx] = 2" "concat (map (\<lambda>tx. ''x'') [demo_wire_tx, demo_wire_tx]) = ''xx''" by simp_all
  moreover have "parseDogeBlockTransactions demo_wire (replicate 80 (char_of (1 :: nat)) @ aux_bytes (\<lambda>tx. ''x'') demo_aux
      @ var_int (length [demo_wire_tx, demo_wire_tx]) @ concat (map (\<lambda>tx. ''x'') [demo_wire_tx, demo_wire_tx])) = Inr [demo_wire_tx, demo_wire_tx]"
    by (rule doge_block_parsed [where a = demo_aux and enc_w = "\<lambda>tx. ''x''"])
      (use v in \<open>simp_all add: decodes_def demo_wire_def demo_aux_def aux_ok_def branch_ok_def\<close>)
  ultimately show ?thesis by (simp only:)
qed

end
