(* ===== verification/FedRegistry.thy ===== *)
theory FedRegistry
  imports FedDiscovery ChainRaw
begin

text \<open>
  Registry publishing: \<open>internal/federation/mvc_tx.go\<close> builds and signs the registry transaction,
  \<open>internal/federation/publisher.go\<close> publishes this node's payload.

  The packages \<open>wire\<close>, \<open>txscript\<close>, \<open>chainhash\<close> and \<open>bsvutil\<close> are the parameter \<open>mvc_api\<close>; the wallet
  client is the pair of results that a publish attempt gets from it. Amounts are \<open>int64\<close>. An
  address derived by \<open>mvcRegistryIdentity\<close> never fails, since \<open>Hash160\<close> always gives twenty bytes. The
  publisher's lock only serialises attempts, and \<open>cloneRegistryPayload\<close> is the identity on values.
\<close>

record MVCRegistryUTXO =
  ux_TxID :: string
  ux_OutIndex :: nat
  ux_Value :: int
  ux_Address :: string
  ux_PkScript :: string

record tx_in =
  ti_Hash :: string
  ti_Index :: nat
  ti_SignatureScript :: bytes

record msg_tx =
  tx_Version :: int
  tx_In :: "tx_in list"
  tx_Out :: "(int \<times> bytes) list"

record mvc_api =
  ch_NewHashFromStr :: "string \<Rightarrow> string option"
  bsv_DecodeAddress :: "string \<Rightarrow> string \<Rightarrow> string option"
  bsv_IsForNet :: "string \<Rightarrow> string \<Rightarrow> bool"
  tx_PayToAddrScript :: "string \<Rightarrow> bytes option"
  tx_Script :: "script_item list \<Rightarrow> bytes option"
  tx_SignatureScript :: "msg_tx \<Rightarrow> nat \<Rightarrow> int \<Rightarrow> bytes \<Rightarrow> bytes \<Rightarrow> bytes option"
  tx_SerializeSize :: "msg_tx \<Rightarrow> int"
  tx_Serialize :: "msg_tx \<Rightarrow> bytes option"

record MVCRegistryTxRequest =
  rq_Net :: string
  rq_PrivateKeyHex :: string
  rq_UTXOs :: "MVCRegistryUTXO list"
  rq_Operation :: string
  rq_Path :: string
  rq_Version :: string
  rq_Content :: bytes
  rq_FeeRate :: int
  rq_DustAmount :: int

record MVCRegistryTxResult =
  rs_RawTx :: string
  rs_Tx :: msg_tx
  rs_Address :: string
  rs_PublicKey :: string
  rs_OwnerOutputIndex :: nat
  rs_ChangeOutputIndex :: nat
  rs_ChangeAmount :: int
  rs_Fee :: int

subsection \<open>Keys, addresses, scripts\<close>

text \<open>\<open>mvcRegistryPrivateKeyFromHex\<close> repeats the checks of \<open>parsePrivateKeyHex\<close> for the type of the other
  library.\<close>

definition mvcRegistryPrivateKeyFromHex :: "crypto \<Rightarrow> string \<Rightarrow> bytes res" where
  "mvcRegistryPrivateKeyFromHex C privateKeyHex =
     (case decodeHexField privateKeyHex ''private key'' of
        Inl e \<Rightarrow> Inl e
      | Inr decoded \<Rightarrow>
          (if length decoded \<noteq> 32 then Inl ''private key must be 32 bytes''
           else if big_endian decoded = 0 then Inl ''private key must be greater than zero''
           else if ec_N C \<le> big_endian decoded then Inl ''private key must be less than the secp256k1 group order''
           else Inr decoded))"

definition mvcRegistryPrivateKeyAndParams :: "unicode \<Rightarrow> crypto \<Rightarrow> string \<Rightarrow> string \<Rightarrow> (bytes \<times> string) res" where
  "mvcRegistryPrivateKeyAndParams U C privateKeyHex net =
     (case mvcRegistryNetParams U net of
        Inl e \<Rightarrow> Inl e
      | Inr params \<Rightarrow> (case mvcRegistryPrivateKeyFromHex C privateKeyHex of Inl e \<Rightarrow> Inl e | Inr k \<Rightarrow> Inr (k, params)))"

definition mvcRegistryIdentity :: "crypto \<Rightarrow> bytes \<Rightarrow> string \<Rightarrow> string \<times> string" where
  "mvcRegistryIdentity C privateKey params =
     (let publicKey = ec_PubKey C privateKey in (bsv_LegacyAddress C params publicKey, hex_EncodeToString publicKey))"

definition MVCIdentityFromPrivateKey :: "unicode \<Rightarrow> crypto \<Rightarrow> string \<Rightarrow> string \<Rightarrow> (string \<times> string) res" where
  "MVCIdentityFromPrivateKey U C privateKeyHex net =
     (case mvcRegistryPrivateKeyAndParams U C privateKeyHex net of
        Inl e \<Rightarrow> Inl e | Inr (k, params) \<Rightarrow> Inr (mvcRegistryIdentity C k params))"

definition mvcRegistryOperation :: "unicode \<Rightarrow> string \<Rightarrow> string res" where
  "mvcRegistryOperation U operation =
     (let n = ToLower U (TrimSpace operation)
      in if n \<in> {''create'', ''modify'', ''revoke''} then Inr n else Inl ''unsupported registry operation'')"

definition mvcRegistryAddressScript :: "mvc_api \<Rightarrow> string \<Rightarrow> string \<Rightarrow> bytes res" where
  "mvcRegistryAddressScript M address params =
     (case bsv_DecodeAddress M (TrimSpace address) params of
        None \<Rightarrow> Inl ''decode address''
      | Some decoded \<Rightarrow>
          (if \<not> bsv_IsForNet M decoded params then Inl ''address is not for selected MVC network''
           else case tx_PayToAddrScript M decoded of None \<Rightarrow> Inl ''address script'' | Some script \<Rightarrow> Inr script))"

definition mvcRegistryUTXOPkScript :: "mvc_api \<Rightarrow> MVCRegistryUTXO \<Rightarrow> string \<Rightarrow> string \<Rightarrow> bytes res" where
  "mvcRegistryUTXOPkScript M utxo derivedAddress params =
     (let scriptHex = TrimSpace (ux_PkScript utxo)
      in if scriptHex \<noteq> '''' then
           (case hex_DecodeString scriptHex of
              None \<Rightarrow> Inl ''decode hex''
            | Some script \<Rightarrow> if length script = 0 then Inl ''decoded pkScript is empty'' else Inr script)
         else
           (let address0 = TrimSpace (ux_Address utxo)
            in mvcRegistryAddressScript M (if address0 = '''' then derivedAddress else address0) params))"

definition mvcRegistryMaxPushSize :: nat where "mvcRegistryMaxPushSize = 520"

text \<open>The loop over the content: \<open>content[start:end]\<close> in steps of the maximal push size.\<close>

function content_chunks :: "nat \<Rightarrow> bytes \<Rightarrow> bytes list" where
  "content_chunks start content =
     (if start < length content
      then take mvcRegistryMaxPushSize (drop start content) # content_chunks (start + mvcRegistryMaxPushSize) content
      else [])"
  by pat_completeness auto
termination by (relation "measure (\<lambda>(start, content). length content - start)") (auto simp: mvcRegistryMaxPushSize_def)

declare content_chunks.simps [simp del]

definition mvcRegistryOPReturnScript :: "mvc_api \<Rightarrow> string \<Rightarrow> string \<Rightarrow> string \<Rightarrow> bytes \<Rightarrow> bytes res" where
  "mvcRegistryOPReturnScript M operation path version content =
     (case tx_Script M
        ([OpCode ''OP_0'', OpCode ''OP_RETURN'', PushData ''metaid'', PushData operation, PushData path, PushData ''0'',
          PushData version, PushData ''application/json''] @ map PushData (content_chunks 0 content)) of
        None \<Rightarrow> Inl ''build registry OP_RETURN script''
      | Some script \<Rightarrow> Inr script)"

subsection \<open>Signing and the fee loop\<close>

fun sign_inputs :: "mvc_api \<Rightarrow> bytes \<Rightarrow> nat \<Rightarrow> (bytes \<times> int) list \<Rightarrow> msg_tx \<Rightarrow> msg_tx res" where
  "sign_inputs M key i [] tx = Inr tx"
| "sign_inputs M key i ((pkScript, amount) # rest) tx =
     (case tx_SignatureScript M tx i amount pkScript key of
        None \<Rightarrow> Inl ''sign input''
      | Some sg \<Rightarrow> sign_inputs M key (i + 1) rest (tx\<lparr>tx_In := (tx_In tx)[i := (tx_In tx ! i)\<lparr>ti_SignatureScript := sg\<rparr>]\<rparr>))"

definition mvcRegistrySign :: "mvc_api \<Rightarrow> msg_tx \<Rightarrow> (bytes \<times> int) list \<Rightarrow> bytes \<Rightarrow> msg_tx res" where
  "mvcRegistrySign M tx inputs key =
     sign_inputs M key 0 inputs (tx\<lparr>tx_In := map (\<lambda>i. i\<lparr>ti_SignatureScript := ''''\<rparr>) (tx_In tx)\<rparr>)"

definition mvcRegistryRawTx :: "mvc_api \<Rightarrow> msg_tx \<Rightarrow> string res" where
  "mvcRegistryRawTx M tx = (case tx_Serialize M tx of None \<Rightarrow> Inl ''serialize tx'' | Some b \<Rightarrow> Inr (hex_EncodeToString b))"

fun collect_inputs ::
    "mvc_api \<Rightarrow> string \<Rightarrow> string \<Rightarrow> MVCRegistryUTXO list \<Rightarrow> (tx_in list \<times> (bytes \<times> int) list \<times> int) res" where
  "collect_inputs M address params [] = Inr ([], [], 0)"
| "collect_inputs M address params (utxo # us) =
     (if ux_Value utxo \<le> 0 then Inl ''utxo value must be positive''
      else case ch_NewHashFromStr M (TrimSpace (ux_TxID utxo)) of
        None \<Rightarrow> Inl ''utxo txid''
      | Some hash \<Rightarrow>
          (case mvcRegistryUTXOPkScript M utxo address params of
             Inl e \<Rightarrow> Inl (''utxo pkScript: '' @ e)
           | Inr pkScript \<Rightarrow>
               (case collect_inputs M address params us of
                  Inl e \<Rightarrow> Inl e
                | Inr (ins, scripts, sumv) \<Rightarrow>
                    Inr (\<lparr>ti_Hash = hash, ti_Index = ux_OutIndex utxo, ti_SignatureScript = ''''\<rparr> # ins,
                         (pkScript, ux_Value utxo) # scripts, wrap64 (ux_Value utxo + sumv)))))"

definition set_change :: "msg_tx \<Rightarrow> int \<Rightarrow> msg_tx" where
  "set_change tx amount = tx\<lparr>tx_Out := (tx_Out tx)[2 := (amount, snd (tx_Out tx ! 2))]\<rparr>"

fun fee_loop ::
    "mvc_api \<Rightarrow> (bytes \<times> int) list \<Rightarrow> bytes \<Rightarrow> int \<Rightarrow> int \<Rightarrow> int \<Rightarrow> nat \<Rightarrow> int \<Rightarrow> msg_tx \<Rightarrow> (msg_tx \<times> string \<times> int \<times> int) res" where
  "fee_loop M inputs key inputValue dustAmount feeRate 0 requiredFee tx = Inl ''could not satisfy requested fee rate''"
| "fee_loop M inputs key inputValue dustAmount feeRate (Suc n) requiredFee tx =
     (let changeAmount = wrap64 (wrap64 (inputValue - dustAmount) - requiredFee)
      in if changeAmount < dustAmount then Inl ''insufficient UTXO value for owner output, change output, and fee''
         else case mvcRegistrySign M (set_change tx changeAmount) inputs key of
           Inl e \<Rightarrow> Inl e
         | Inr tx1 \<Rightarrow>
             (let fee = wrap64 (wrap64 (inputValue - dustAmount) - changeAmount);
                  minFee = wrap64 (tx_SerializeSize M tx1 * feeRate)
              in if minFee \<le> fee then
                   (case mvcRegistryRawTx M tx1 of Inl e \<Rightarrow> Inl e | Inr rawTx \<Rightarrow> Inr (tx1, rawTx, changeAmount, fee))
                 else fee_loop M inputs key inputValue dustAmount feeRate n (wrap64 (requiredFee + wrap64 (minFee - fee))) tx1))"

definition BuildMVCRegistryTx :: "unicode \<Rightarrow> crypto \<Rightarrow> mvc_api \<Rightarrow> MVCRegistryTxRequest \<Rightarrow> MVCRegistryTxResult res" where
  "BuildMVCRegistryTx U C M req =
     (case mvcRegistryPrivateKeyAndParams U C (rq_PrivateKeyHex req) (rq_Net req) of
        Inl e \<Rightarrow> Inl e
      | Inr (privateKey, params) \<Rightarrow>
          (let (address, publicKeyHex) = mvcRegistryIdentity C privateKey params
           in case mvcRegistryOperation U (rq_Operation req) of
                Inl e \<Rightarrow> Inl e
              | Inr operation \<Rightarrow>
                  (if (operation = ''create'' \<or> operation = ''modify'') \<and> length (rq_Content req) = 0
                   then Inl (operation @ '' registry content is required'')
                   else
                     (let path = (if TrimSpace (rq_Path req) = '''' then RegistryPath else TrimSpace (rq_Path req));
                          version = (if TrimSpace (rq_Version req) = '''' then Version else TrimSpace (rq_Version req));
                          dustAmount = (if rq_DustAmount req \<le> 0 then 1 else rq_DustAmount req)
                      in if rq_FeeRate req \<le> 0 then Inl ''fee rate must be positive''
                         else if rq_UTXOs req = [] then Inl ''at least one UTXO is required''
                         else case collect_inputs M address params (rq_UTXOs req) of
                           Inl e \<Rightarrow> Inl e
                         | Inr (ins, inputs, inputValue) \<Rightarrow>
                             (case mvcRegistryAddressScript M address params of
                                Inl e \<Rightarrow> Inl e
                              | Inr ownerScript \<Rightarrow>
                                  (case mvcRegistryOPReturnScript M operation path version (rq_Content req) of
                                     Inl e \<Rightarrow> Inl e
                                   | Inr registryScript \<Rightarrow>
                                       (let tx = \<lparr>tx_Version = 10, tx_In = ins,
                                                 tx_Out = [(dustAmount, ownerScript), (0, registryScript), (0, ownerScript)]\<rparr>
                                        in case fee_loop M inputs privateKey inputValue dustAmount (rq_FeeRate req) 20 0 tx of
                                             Inl e \<Rightarrow> Inl e
                                           | Inr (tx1, rawTx, changeAmount, fee) \<Rightarrow>
                                               Inr \<lparr>rs_RawTx = rawTx, rs_Tx = tx1, rs_Address = address, rs_PublicKey = publicKeyHex,
                                                    rs_OwnerOutputIndex = 0, rs_ChangeOutputIndex = 2,
                                                    rs_ChangeAmount = changeAmount, rs_Fee = fee\<rparr>)))))))"

subsection \<open>The publisher\<close>

record PublisherLatest =
  pb_TxID :: string
  pb_Operation :: string
  pb_Payload :: RegistryPayload
  pb_Error :: string

record Publisher =
  pu_enabled :: bool
  pu_network :: string
  pu_metaletNet :: string
  pu_nodePrivateKey :: string
  pu_publicBaseURL :: string
  pu_registryPath :: string
  pu_presencePath :: string
  pu_validFor :: int
  pu_renewInterval :: int
  pu_feeRate :: int
  pu_dustAmount :: int
  pu_address :: string
  pu_publicKey :: string
  pu_latest :: PublisherLatest

record MVCUTXO =
  mu_TxID :: string
  mu_OutIndex :: int
  mu_Value :: int
  mu_Address :: string

definition publisherMetaletNet :: "string \<Rightarrow> string" where
  "publisherMetaletNet network = (if network = ''mvc-mainnet'' then ''livenet'' else ''testnet'')"

definition publisherJoinURL :: "string \<Rightarrow> string \<Rightarrow> string" where
  "publisherJoinURL baseURL pathValue = TrimRight CHR ''/'' baseURL @ ''/'' @ TrimLeft CHR ''/'' pathValue"

definition normalizePublisherBaseURL :: "net_api \<Rightarrow> string \<Rightarrow> string res" where
  "normalizePublisherBaseURL N baseURL =
     (let raw = TrimSpace baseURL
      in if raw = '''' then Inl ''federation publisher requires public base URL''
         else case url_Parse N raw of
           None \<Rightarrow> Inl ''parse public base URL''
         | Some parsed \<Rightarrow>
             (if u_Scheme parsed = '''' \<or> u_Host parsed = '''' then Inl ''public base URL requires scheme and host''
              else if u_RawQuery parsed \<noteq> '''' \<or> u_Fragment parsed \<noteq> '''' then Inl ''public base URL must not include query or fragment''
              else Inr (TrimRight CHR ''/'' (url_String N (parsed\<lparr>u_Path := TrimRight CHR ''/'' (u_Path parsed)\<rparr>)))))"

record PublisherOptions =
  po_Enabled :: bool
  po_Network :: string
  po_NodePrivateKey :: string
  po_PublicBaseURL :: string
  po_RegistryPath :: string
  po_PresencePath :: string
  po_ValidFor :: int
  po_RenewInterval :: int
  po_FeeRate :: int
  po_DustAmount :: int
  po_HasClient :: bool

definition emptyPayload :: RegistryPayload where
  "emptyPayload = \<lparr>rp_Protocol = '''', rp_Version = '''', rp_NodeID = '''', rp_Network = '''', rp_PublicBaseURL = '''', rp_SocketURL = '''',
     rp_PresenceURL = '''', rp_PublicKey = '''', rp_Capabilities = [], rp_PublishedAt = 0, rp_ValidUntil = 0\<rparr>"

text \<open>Durations are in nanoseconds: 24 hours and 6 hours are the defaults of the announcement's
  validity and of the renew interval.\<close>

definition NewPublisher :: "fed_env \<Rightarrow> PublisherOptions \<Rightarrow> Publisher res" where
  "NewPublisher E opts =
     (case normalizePublisherNetwork (fe_U E) (po_Network opts) of
        Inl e \<Rightarrow> Inl e
      | Inr network \<Rightarrow>
          (let publisher =
             \<lparr>pu_enabled = po_Enabled opts, pu_network = network, pu_metaletNet = publisherMetaletNet network,
              pu_nodePrivateKey = TrimSpace (po_NodePrivateKey opts), pu_publicBaseURL = '''',
              pu_registryPath = normalizedPublisherPath (po_RegistryPath opts) RegistryPath,
              pu_presencePath = normalizedPublisherPath (po_PresencePath opts) PresencePath,
              pu_validFor = (if po_ValidFor opts \<le> 0 then 24 * 3600 * 1000000000 else po_ValidFor opts),
              pu_renewInterval = (if po_RenewInterval opts \<le> 0 then 6 * 3600 * 1000000000 else po_RenewInterval opts),
              pu_feeRate = (if po_FeeRate opts \<le> 0 then 1 else po_FeeRate opts),
              pu_dustAmount = (if po_DustAmount opts \<le> 0 then 1 else po_DustAmount opts),
              pu_address = '''', pu_publicKey = '''',
              pu_latest = \<lparr>pb_TxID = '''', pb_Operation = '''', pb_Payload = emptyPayload, pb_Error = ''''\<rparr>\<rparr>
           in if \<not> pu_enabled publisher then Inr publisher
              else if \<not> po_HasClient opts then Inl ''federation publisher requires a client''
              else case normalizePublisherBaseURL (fe_N E) (po_PublicBaseURL opts) of
                Inl e \<Rightarrow> Inl e
              | Inr publicBaseURL \<Rightarrow>
                  (if pu_nodePrivateKey publisher = '''' then Inl ''federation publisher requires node private key''
                   else case MVCIdentityFromPrivateKey (fe_U E) (fe_C E) (pu_nodePrivateKey publisher) network of
                     Inl e \<Rightarrow> Inl (''derive publisher identity: '' @ e)
                   | Inr (address, publicKey) \<Rightarrow>
                       Inr (publisher\<lparr>pu_publicBaseURL := publicBaseURL, pu_address := address, pu_publicKey := publicKey\<rparr>))))"

definition registryPayload :: "Publisher \<Rightarrow> int \<Rightarrow> RegistryPayload" where
  "registryPayload p now =
     \<lparr>rp_Protocol = ProtocolNode, rp_Version = Version, rp_NodeID = ''mvc:'' @ pu_address p, rp_Network = pu_network p,
      rp_PublicBaseURL = pu_publicBaseURL p, rp_SocketURL = publisherJoinURL (pu_publicBaseURL p) ''/socket/socket.io'',
      rp_PresenceURL = publisherJoinURL (pu_publicBaseURL p) (pu_presencePath p), rp_PublicKey = pu_publicKey p,
      rp_Capabilities = [publisherPresenceCapability], rp_PublishedAt = UnixMilli now, rp_ValidUntil = UnixMilli (now + pu_validFor p)\<rparr>"

fun registry_utxos :: "MVCUTXO list \<Rightarrow> MVCRegistryUTXO list res" where
  "registry_utxos [] = Inr []"
| "registry_utxos (u # us) =
     (if TrimSpace (mu_TxID u) = '''' then Inl ''utxo txid is required''
      else if mu_OutIndex u < 0 then Inl ''utxo outIndex must be non-negative''
      else if 2 ^ 32 - 1 < mu_OutIndex u then Inl ''utxo outIndex exceeds uint32''
      else case registry_utxos us of
        Inl e \<Rightarrow> Inl e
      | Inr rest \<Rightarrow> Inr (\<lparr>ux_TxID = TrimSpace (mu_TxID u), ux_OutIndex = nat (mu_OutIndex u), ux_Value = mu_Value u,
                         ux_Address = TrimSpace (mu_Address u), ux_PkScript = ''''\<rparr> # rest))"

definition publisherRegistryUTXOs :: "MVCUTXO list \<Rightarrow> MVCRegistryUTXO list res" where
  "publisherRegistryUTXOs utxos =
     (if utxos = [] then Inl ''insufficient UTXO value: no MVC UTXOs available'' else registry_utxos utxos)"

definition storePublishError :: "string \<Rightarrow> RegistryPayload \<Rightarrow> string \<Rightarrow> Publisher \<Rightarrow> unit res \<times> Publisher" where
  "storePublishError operation payload err p =
     (Inl err, p\<lparr>pu_latest := \<lparr>pb_TxID = pb_TxID (pu_latest p), pb_Operation = TrimSpace operation, pb_Payload = payload, pb_Error = err\<rparr>\<rparr>)"

text \<open>\<open>utxos\<close> is what the wallet service answers to the UTXO query, \<open>broadcast\<close> what it answers to a raw
  transaction.\<close>

definition Publisher_PublishOnce ::
    "fed_env \<Rightarrow> mvc_api \<Rightarrow> MVCUTXO list res \<Rightarrow> (string \<Rightarrow> string res) \<Rightarrow> int \<Rightarrow> string \<Rightarrow> Publisher \<Rightarrow> unit res \<times> Publisher" where
  "Publisher_PublishOnce E M utxos broadcast now operation p =
     (if \<not> pu_enabled p then (Inl ''federation publisher is disabled'', p)
      else
        (let payload = registryPayload p now; fail = (\<lambda>e. storePublishError operation payload e p)
         in case js_MarshalPayload (fe_J E) payload of
              Inl e \<Rightarrow> fail (''encode registry payload: '' @ e)
            | Inr content \<Rightarrow>
                (case utxos of
                   Inl e \<Rightarrow> fail (''fetch MVC UTXOs: '' @ e)
                 | Inr us \<Rightarrow>
                     (case publisherRegistryUTXOs us of
                        Inl e \<Rightarrow> fail e
                      | Inr registryUTXOs \<Rightarrow>
                          (case BuildMVCRegistryTx (fe_U E) (fe_C E) M
                             \<lparr>rq_Net = pu_network p, rq_PrivateKeyHex = pu_nodePrivateKey p, rq_UTXOs = registryUTXOs,
                              rq_Operation = operation, rq_Path = pu_registryPath p, rq_Version = Version, rq_Content = content,
                              rq_FeeRate = pu_feeRate p, rq_DustAmount = pu_dustAmount p\<rparr> of
                             Inl e \<Rightarrow> fail (''build MVC registry tx: '' @ e)
                           | Inr result \<Rightarrow>
                               (case broadcast (rs_RawTx result) of
                                  Inl e \<Rightarrow> fail (''broadcast MVC registry tx: '' @ e)
                                | Inr txid \<Rightarrow>
                                    (Inr (), p\<lparr>pu_latest := \<lparr>pb_TxID = TrimSpace txid, pb_Operation = TrimSpace operation,
                                                 pb_Payload = payload, pb_Error = ''''\<rparr>\<rparr>)))))))"

text \<open>The renew loop: one \<open>create\<close>, then a \<open>modify\<close> for every tick until the context ends. Each attempt sees
  its own clock and its own answers of the wallet service.\<close>

record publish_attempt =
  pa_now :: int
  pa_utxos :: "MVCUTXO list res"
  pa_broadcast :: "string \<Rightarrow> string res"

definition publish_step :: "fed_env \<Rightarrow> mvc_api \<Rightarrow> string \<Rightarrow> publish_attempt \<Rightarrow> Publisher \<Rightarrow> Publisher" where
  "publish_step E M operation a p = snd (Publisher_PublishOnce E M (pa_utxos a) (pa_broadcast a) (pa_now a) operation p)"

definition Publisher_run :: "fed_env \<Rightarrow> mvc_api \<Rightarrow> publish_attempt \<Rightarrow> publish_attempt list \<Rightarrow> Publisher \<Rightarrow> Publisher" where
  "Publisher_run E M first ticks p = foldl (\<lambda>p a. publish_step E M ''modify'' a p) (publish_step E M ''create'' first p) ticks"

subsection \<open>The content of the pin\<close>

lemma content_chunks_concat: "concat (content_chunks start content) = drop start content"
proof (induction start content rule: content_chunks.induct)
  case (1 start content)
  show ?case
  proof (cases "start < length content")
    case True
    then have "concat (content_chunks start content)
        = take mvcRegistryMaxPushSize (drop start content) @ drop (start + mvcRegistryMaxPushSize) content"
      using 1 by (simp add: content_chunks.simps [of start content])
    also have "\<dots> = drop start content"
      using append_take_drop_id [of mvcRegistryMaxPushSize "drop start content"] by (simp add: add.commute)
    finally show ?thesis .
  qed (simp add: content_chunks.simps [of start content])
qed

lemma content_chunks_size:
  "c \<in> set (content_chunks start content) \<Longrightarrow> c \<noteq> [] \<and> length c \<le> mvcRegistryMaxPushSize"
  by (induction start content rule: content_chunks.induct)
    (subst (asm) (2) content_chunks.simps, auto simp: mvcRegistryMaxPushSize_def split: if_splits)

subsection \<open>Signing keeps amounts\<close>

lemma map_update_same: "(map f xs)[i := f (xs ! i)] = map f xs"
  by (cases "i < length xs") (simp_all add: list_update_same_conv list_update_beyond)

lemma sign_inputs_frame:
  "sign_inputs M key i inputs tx = Inr tx' \<Longrightarrow>
     tx_Out tx' = tx_Out tx \<and> tx_Version tx' = tx_Version tx
   \<and> map (\<lambda>i. i\<lparr>ti_SignatureScript := s\<rparr>) (tx_In tx') = map (\<lambda>i. i\<lparr>ti_SignatureScript := s\<rparr>) (tx_In tx)"
proof (induction M key i inputs tx rule: sign_inputs.induct)
  case (2 M key i pkScript amount rest tx)
  then obtain sg where sg: "tx_SignatureScript M tx i amount pkScript key = Some sg" by (auto split: option.splits)
  show ?case using 2(1) [OF sg] 2(2) sg
    by (simp add: map_update map_update_same [of "\<lambda>i. i\<lparr>ti_SignatureScript := s\<rparr>", simplified])
qed simp

lemma sign_frame:
  assumes "mvcRegistrySign M tx inputs key = Inr tx'"
  shows "tx_Out tx' = tx_Out tx" and "tx_Version tx' = tx_Version tx" and "length (tx_In tx') = length (tx_In tx)"
    and "map (\<lambda>i. i\<lparr>ti_SignatureScript := ''''\<rparr>) (tx_In tx') = map (\<lambda>i. i\<lparr>ti_SignatureScript := ''''\<rparr>) (tx_In tx)"
  using sign_inputs_frame [OF assms [unfolded mvcRegistrySign_def], of "''''"]
  by (simp_all add: comp_def) (metis length_map)

lemma sign_again:
  assumes "mvcRegistrySign M (set_change tx c) inputs key = Inr tx'" and "length (tx_Out tx) = 3"
  shows "mvcRegistrySign M (set_change tx' c') inputs key = mvcRegistrySign M (set_change tx c') inputs key"
    and "length (tx_Out tx') = 3"
proof -
  let ?clear = "\<lambda>i. i\<lparr>ti_SignatureScript := ''''\<rparr>"
  note f = sign_frame [OF assms(1)]
  show "length (tx_Out tx') = 3" using f(1) assms(2) by (simp add: set_change_def)
  have "(set_change tx' c')\<lparr>tx_In := map ?clear (tx_In (set_change tx' c'))\<rparr>
      = (set_change tx c')\<lparr>tx_In := map ?clear (tx_In (set_change tx c'))\<rparr>"
    using f assms(2) by (cases tx; cases tx') (simp add: set_change_def)
  then show "mvcRegistrySign M (set_change tx' c') inputs key = mvcRegistrySign M (set_change tx c') inputs key"
    by (simp add: mvcRegistrySign_def)
qed

subsection \<open>The fee loop\<close>

lemma collect_inputs_ok:
  assumes "collect_inputs M address params us = Inr (ins, inputs, v)" and "sum_list (map ux_Value us) < 2 ^ 63"
  shows "v = sum_list (map ux_Value us) \<and> length ins = length us \<and> map snd inputs = map ux_Value us \<and> (us \<noteq> [] \<longrightarrow> 0 < v) \<and> 0 \<le> v"
  using assms
proof (induction us arbitrary: ins inputs v)
  case (Cons u us)
  then obtain ins' inputs' v' where rest: "collect_inputs M address params us = Inr (ins', inputs', v')"
    and pos: "0 < ux_Value u" and v: "v = wrap64 (ux_Value u + v')" and len: "length ins = Suc (length ins')"
    and inp: "map snd inputs = ux_Value u # map snd inputs'"
    by (auto split: if_splits option.splits sum.splits)
  have "v' = sum_list (map ux_Value us) \<and> length ins' = length us \<and> map snd inputs' = map ux_Value us \<and> 0 \<le> v'"
    using Cons.IH [OF rest] Cons.prems(2) pos by simp
  moreover have "v = ux_Value u + v'" using v Cons.prems(2) pos calculation by (simp add: wrap64_ok int64_ok_def)
  ultimately show ?case using pos len inp by simp
qed simp

text \<open>The arithmetic of one attempt: within the 64-bit range nothing wraps.\<close>

lemma attempt_amounts:
  assumes "0 < iv" "iv < 2 ^ 63" "0 < dust" "dust < 2 ^ 63" "0 \<le> req" "req < 2 ^ 63" "req = 0 \<or> dust \<le> iv - dust"
    and "dust \<le> wrap64 (wrap64 (iv - dust) - req)"
  shows "wrap64 (wrap64 (iv - dust) - req) = iv - dust - req" and "wrap64 (wrap64 (iv - dust) - (iv - dust - req)) = req"
    and "dust \<le> iv - dust"
proof -
  have a: "wrap64 (iv - dust) = iv - dust" using assms(1-4) by (simp add: wrap64_ok int64_ok_def)
  have b: "wrap64 (iv - dust - req) = iv - dust - req" using assms by (auto simp: wrap64_ok int64_ok_def)
  show "wrap64 (wrap64 (iv - dust) - req) = iv - dust - req" "wrap64 (wrap64 (iv - dust) - (iv - dust - req)) = req"
    "dust \<le> iv - dust"
    using a b assms by (simp_all add: wrap64_ok int64_ok_def)
qed

lemma fee_loop_result:
  assumes "fee_loop M inputs key iv dust fr n req tx = Inr (tx', raw, change, fee)"
    and "0 < iv" "iv < 2 ^ 63" "0 < dust" "dust < 2 ^ 63" "0 \<le> req" "req < 2 ^ 63" "req = 0 \<or> dust \<le> iv - dust"
  shows "dust + change + fee = iv \<and> dust \<le> change \<and> 0 \<le> fee \<and> wrap64 (tx_SerializeSize M tx' * fr) \<le> fee
    \<and> mvcRegistryRawTx M tx' = Inr raw
    \<and> tx_Out tx' = (tx_Out tx)[2 := (change, snd (tx_Out tx ! 2))] \<and> length (tx_In tx') = length (tx_In tx)"
  using assms
proof (induction M inputs key iv dust fr n req tx rule: fee_loop.induct)
  case (2 M inputs key iv dust fr n req tx)
  define c where "c = iv - dust - req"
  have ge: "dust \<le> wrap64 (wrap64 (iv - dust) - req)" using 2(2) by (auto simp: Let_def split: if_splits)
  note am = attempt_amounts [OF 2(3-9) ge, folded c_def]
  have notlt: "\<not> wrap64 (wrap64 (iv - dust) - req) < dust" using ge by simp
  obtain t1 where t1: "mvcRegistrySign M (set_change tx c) inputs key = Inr t1"
    using 2(2) ge by (auto simp: Let_def am split: sum.splits)
  note fr = sign_frame [OF t1]
  define mf where "mf = wrap64 (tx_SerializeSize M t1 * fr)"
  show ?case
  proof (cases "mf \<le> req")
    case True
    then have "tx' = t1" "change = c" "fee = req" "mvcRegistryRawTx M t1 = Inr raw"
      using 2(2) ge t1 by (auto simp: Let_def am mf_def split: sum.splits)
    then show ?thesis using True fr ge am 2(7) by (simp add: c_def mf_def set_change_def)
  next
    case False
    have r: "wrap64 (mf - req) = mf - req" "wrap64 mf = mf" "mf < 2 ^ 63"
      using False 2(7) wrap64_range [of "tx_SerializeSize M t1 * fr"] unfolding mf_def by (auto simp: wrap64_ok int64_ok_def)
    have loop: "fee_loop M inputs key iv dust fr n mf t1 = Inr (tx', raw, change, fee)"
      using 2(2) ge t1 False r by (auto simp: Let_def am mf_def)
    have "dust + change + fee = iv \<and> dust \<le> change \<and> 0 \<le> fee \<and> wrap64 (tx_SerializeSize M tx' * fr) \<le> fee
      \<and> mvcRegistryRawTx M tx' = Inr raw
      \<and> tx_Out tx' = (tx_Out t1)[2 := (change, snd (tx_Out t1 ! 2))] \<and> length (tx_In tx') = length (tx_In t1)"
      using 2(1) [OF refl notlt, unfolded am, OF t1 refl refl] False r loop am 2(3-9)
      by (simp add: mf_def)
    then show ?thesis using fr by (cases "2 < length (tx_Out tx)") (simp_all add: set_change_def list_update_beyond)
  qed
qed simp

text \<open>What the library gives the loop: whatever the change amount, the transaction can be signed and
  serialised, and its signed size lies between \<open>lo\<close> and \<open>hi\<close> bytes.\<close>

definition signed_size_window :: "mvc_api \<Rightarrow> (bytes \<times> int) list \<Rightarrow> bytes \<Rightarrow> msg_tx \<Rightarrow> int \<Rightarrow> int \<Rightarrow> bool" where
  "signed_size_window M inputs key tx lo hi \<longleftrightarrow>
     (\<forall>c. \<exists>t. mvcRegistrySign M (set_change tx c) inputs key = Inr t \<and> lo \<le> tx_SerializeSize M t \<and> tx_SerializeSize M t \<le> hi
        \<and> tx_Serialize M t \<noteq> None)"

lemma window_again:
  assumes "signed_size_window M inputs key tx lo hi" and "mvcRegistrySign M (set_change tx c) inputs key = Inr t"
    and "length (tx_Out tx) = 3"
  shows "signed_size_window M inputs key t lo hi"
  using assms(1) sign_again(1) [OF assms(2,3)] by (simp add: signed_size_window_def)

lemma fee_loop_progress:
  assumes "signed_size_window M inputs key tx lo hi" and "length (tx_Out tx) = 3"
    and "0 < lo" "0 < fr" "0 < dust" "hi * fr + 2 * dust \<le> iv" "iv < 2 ^ 63"
    and "0 \<le> req" "req \<le> hi * fr" "0 < n" "\<forall>s \<ge> lo. req < s * fr \<longrightarrow> hi - s + 1 < int n"
  shows "\<exists>r. fee_loop M inputs key iv dust fr n req tx = Inr r"
  using assms
proof (induction n arbitrary: req tx)
  case (Suc n)
  define c where "c = iv - dust - req"
  have ge: "dust \<le> c" using Suc.prems by (simp add: c_def)
  have hi0: "0 \<le> hi * fr" using Suc.prems(8,9) by linarith
  have w1: "wrap64 (iv - dust) = iv - dust" "wrap64 (iv - dust - req) = c" "wrap64 (iv - dust - c) = req"
    using Suc.prems hi0 ge by (simp_all add: wrap64_ok int64_ok_def c_def)
  obtain t where t: "mvcRegistrySign M (set_change tx c) inputs key = Inr t"
    and sz: "lo \<le> tx_SerializeSize M t" "tx_SerializeSize M t \<le> hi" "tx_Serialize M t \<noteq> None"
    using Suc.prems(1) unfolding signed_size_window_def by blast
  define m where "m = tx_SerializeSize M t * fr"
  have m: "0 \<le> m" "m \<le> hi * fr" using sz Suc.prems(3,4) by (simp_all add: m_def mult_right_mono)
  have w2: "wrap64 m = m" using m Suc.prems(5-7) by (simp add: wrap64_ok int64_ok_def)
  have unf: "fee_loop M inputs key iv dust fr (Suc n) req tx
     = (if m \<le> req then (case mvcRegistryRawTx M t of Inl e \<Rightarrow> Inl e | Inr rawTx \<Rightarrow> Inr (t, rawTx, c, req))
        else fee_loop M inputs key iv dust fr n (wrap64 (req + wrap64 (m - req))) t)"
    using ge by (simp add: Let_def w1 t w2 flip: m_def)
  show ?case
  proof (cases "m \<le> req")
    case True
    then show ?thesis using sz(3) unfolding unf by (auto simp: mvcRegistryRawTx_def)
  next
    case False
    have w3: "wrap64 (req + wrap64 (m - req)) = m"
      using False Suc.prems(5-9) m by (simp add: wrap64_ok int64_ok_def)
    have room: "hi - tx_SerializeSize M t + 1 < int (Suc n)" using Suc.prems(11) sz(1) False by (auto simp: m_def)
    have "\<exists>r. fee_loop M inputs key iv dust fr n m t = Inr r"
    proof (rule Suc.IH [OF window_again [OF Suc.prems(1) t Suc.prems(2)] sign_again(2) [OF t Suc.prems(2)] Suc.prems(3-7) m])
      show "0 < n" using room sz(2) by linarith
      show "\<forall>s\<ge>lo. m < s * fr \<longrightarrow> hi - s + 1 < int n"
        using room Suc.prems(4) by (auto simp: m_def)
    qed
    then show ?thesis unfolding unf w3 using False by simp
  qed
qed simp

subsection \<open>The transaction as a whole\<close>

lemma BuildMVCRegistryTx_cases:
  assumes "BuildMVCRegistryTx U C M req = Inr r"
  obtains privateKey params operation ins inputs iv ownerScript registryScript
  where "mvcRegistryPrivateKeyAndParams U C (rq_PrivateKeyHex req) (rq_Net req) = Inr (privateKey, params)"
    and "mvcRegistryIdentity C privateKey params = (rs_Address r, rs_PublicKey r)"
    and "mvcRegistryOperation U (rq_Operation req) = Inr operation" and "rq_UTXOs req \<noteq> []" and "0 < rq_FeeRate req"
    and "collect_inputs M (rs_Address r) params (rq_UTXOs req) = Inr (ins, inputs, iv)"
    and "mvcRegistryOPReturnScript M operation
           (if TrimSpace (rq_Path req) = '''' then RegistryPath else TrimSpace (rq_Path req))
           (if TrimSpace (rq_Version req) = '''' then Version else TrimSpace (rq_Version req)) (rq_Content req) = Inr registryScript"
    and "fee_loop M inputs privateKey iv (if rq_DustAmount req \<le> 0 then 1 else rq_DustAmount req) (rq_FeeRate req) 20 0
           \<lparr>tx_Version = 10, tx_In = ins,
            tx_Out = [(if rq_DustAmount req \<le> 0 then 1 else rq_DustAmount req, ownerScript), (0, registryScript), (0, ownerScript)]\<rparr>
         = Inr (rs_Tx r, rs_RawTx r, rs_ChangeAmount r, rs_Fee r)"
    and "rs_OwnerOutputIndex r = 0" and "rs_ChangeOutputIndex r = 2"
    and "mvcRegistryAddressScript M (rs_Address r) params = Inr ownerScript"
    and "operation \<in> {''create'', ''modify''} \<longrightarrow> rq_Content req \<noteq> []"
  using assms
  by (auto simp: BuildMVCRegistryTx_def Let_def split: sum.splits prod.splits if_splits)

text \<open>The amounts of a built transaction.\<close>

definition tx_balanced :: "mvc_api \<Rightarrow> MVCRegistryTxRequest \<Rightarrow> MVCRegistryTxResult \<Rightarrow> bool" where
  "tx_balanced M req r \<longleftrightarrow>
     (let dust = (if rq_DustAmount req \<le> 0 then 1 else rq_DustAmount req)
      in sum_list (map fst (tx_Out (rs_Tx r))) + rs_Fee r = sum_list (map ux_Value (rq_UTXOs req))
       \<and> map fst (tx_Out (rs_Tx r)) = [dust, 0, rs_ChangeAmount r] \<and> dust \<le> rs_ChangeAmount r
       \<and> fst (tx_Out (rs_Tx r) ! rs_ChangeOutputIndex r) = rs_ChangeAmount r
       \<and> wrap64 (tx_SerializeSize M (rs_Tx r) * rq_FeeRate req) \<le> rs_Fee r
       \<and> length (tx_In (rs_Tx r)) = length (rq_UTXOs req))"

lemma built_tx_balanced:
  assumes "BuildMVCRegistryTx U C M req = Inr r" and "sum_list (map ux_Value (rq_UTXOs req)) < 2 ^ 63" and "rq_DustAmount req < 2 ^ 63"
  shows "tx_balanced M req r"
proof -
  define dust where "dust = (if rq_DustAmount req \<le> 0 then 1 else rq_DustAmount req)"
  obtain params ins inputs iv key ownerScript registryScript where ne: "rq_UTXOs req \<noteq> []"
    and col: "collect_inputs M (rs_Address r) params (rq_UTXOs req) = Inr (ins, inputs, iv)"
    and loop: "fee_loop M inputs key iv dust (rq_FeeRate req) 20 0
        \<lparr>tx_Version = 10, tx_In = ins, tx_Out = [(dust, ownerScript), (0, registryScript), (0, ownerScript)]\<rparr>
       = Inr (rs_Tx r, rs_RawTx r, rs_ChangeAmount r, rs_Fee r)"
    and idx: "rs_ChangeOutputIndex r = 2"
    using BuildMVCRegistryTx_cases [OF assms(1), folded dust_def] by metis
  have iv: "iv = sum_list (map ux_Value (rq_UTXOs req))" "length ins = length (rq_UTXOs req)" "0 < iv" "iv < 2 ^ 63"
    using collect_inputs_ok [OF col assms(2)] ne assms(2) by auto
  have d: "0 < dust" "dust < 2 ^ 63" using assms(3) by (simp_all add: dust_def)
  show ?thesis
    using fee_loop_result [OF loop iv(3,4) d] iv idx unfolding tx_balanced_def dust_def [symmetric] Let_def by simp
qed

subsection \<open>From the publisher to the discovery of another node\<close>

lemma NewPublisher_enabled:
  assumes "NewPublisher E opts = Inr p" and "po_Enabled opts"
  obtains k params where "mvcRegistryPrivateKeyAndParams (fe_U E) (fe_C E) (pu_nodePrivateKey p) (pu_network p) = Inr (k, params)"
    and "mvcRegistryIdentity (fe_C E) k params = (pu_address p, pu_publicKey p)"
    and "normalizePublisherNetwork (fe_U E) (po_Network opts) = Inr (pu_network p)" and "pu_enabled p"
    and "pu_presencePath p = normalizedPublisherPath (po_PresencePath opts) PresencePath"
  using assms
  by (auto simp: NewPublisher_def MVCIdentityFromPrivateKey_def Let_def split: sum.splits prod.splits if_splits)

lemma same_key_check: "mvcRegistryPrivateKeyFromHex C s = parsePrivateKeyHex C s"
  by (simp add: mvcRegistryPrivateKeyFromHex_def parsePrivateKeyHex_def)

lemma publisher_network_nonempty:
  assumes "normalizePublisherNetwork U net = Inr n"
  shows "n \<in> {''mvc-mainnet'', ''mvc-testnet'', ''mvc-regtest''}"
  using assms by (auto simp: normalizePublisherNetwork_def Let_def split: if_splits)

lemma publisher_network_trim:
  assumes "n \<in> {''mvc-mainnet'', ''mvc-testnet'', ''mvc-regtest''}"
  shows "TrimSpace n = n" and "EqualFold U n n" and "n \<noteq> ''''"
  using assms by (auto intro!: TrimSpace_graphic simp: graphic_def code_def EqualFold_def is_ascii_def)

lemma publisher_address:
  assumes ok: "crypto_ok (fe_C E)" and p: "NewPublisher E opts = Inr p" "po_Enabled opts"
  shows "mvcAddressFromPublicKey (fe_U E) (fe_C E) (pu_publicKey p) (pu_network p) = Inr (pu_address p)"
    and "TrimSpace (pu_publicKey p) = pu_publicKey p" and "pu_publicKey p \<noteq> ''''"
proof -
  obtain k params where key: "mvcRegistryPrivateKeyAndParams (fe_U E) (fe_C E) (pu_nodePrivateKey p) (pu_network p) = Inr (k, params)"
    and id: "mvcRegistryIdentity (fe_C E) k params = (pu_address p, pu_publicKey p)"
    using NewPublisher_enabled [OF p] by metis
  have parse: "parsePrivateKeyHex (fe_C E) (pu_nodePrivateKey p) = Inr k" and net: "mvcRegistryNetParams (fe_U E) (pu_network p) = Inr params"
    using key by (auto simp: mvcRegistryPrivateKeyAndParams_def same_key_check split: sum.splits)
  have pk: "pu_publicKey p = hex_EncodeToString (ec_PubKey (fe_C E) k)" "pu_address p = bsv_LegacyAddress (fe_C E) params (ec_PubKey (fe_C E) k)"
    using id by (simp_all add: mvcRegistryIdentity_def Let_def)
  show "mvcAddressFromPublicKey (fe_U E) (fe_C E) (pu_publicKey p) (pu_network p) = Inr (pu_address p)"
    using parsePublicKeyHex_PubKey [OF ok parse] net by (simp add: mvcAddressFromPublicKey_def pk)
  show "TrimSpace (pu_publicKey p) = pu_publicKey p" by (simp add: pk TrimSpace_hex)
  have "length (ec_PubKey (fe_C E) k) = 33"
    using ok parsePrivateKeyHex_ok [OF parse] by (simp add: crypto_ok_def)
  then show "pu_publicKey p \<noteq> ''''" by (cases "ec_PubKey (fe_C E) k") (simp_all add: pk hex_EncodeToString_def)
qed

lemma published_candidate:
  fixes p :: Publisher and now :: int
  defines "payload \<equiv> registryPayload p now"
  assumes ok: "crypto_ok (fe_C E)" and p: "NewPublisher E opts = Inr p" "po_Enabled opts"
    and content: "TrimSpace content = content" "content \<noteq> ''''" "js_UnmarshalPayload (fe_J E) content = Inr payload"
    and addr: "list_all graphic (pu_address p)"
    and pin: "pin_ContentBody pin = content" "TrimSpace (pin_ChainName pin) = ''mvc''" "pin_Operation pin \<in> {''create'', ''modify''}"
    and d: "ds_network d = pu_network p" "ds_selfNodeID d \<noteq> ''mvc:'' @ pu_address p"
      "discoveryPresenceURLAllowed (fe_U E) (fe_N E) (rp_PresenceURL payload) (ds_allowInsecureHTTP d)" "TrimSpace (rp_PresenceURL payload) \<noteq> ''''"
    and live: "UnixMilli later \<le> rp_ValidUntil payload"
  shows "\<exists>node. candidateFromPin E d later pin = Some \<lparr>cd_pin = pin, cd_node = node, cd_remove = False\<rparr>
    \<and> rn_NodeID node = ''mvc:'' @ pu_address p \<and> rn_PublicKey node = pu_publicKey p
    \<and> rn_PresenceURL node = TrimSpace (rp_PresenceURL payload)"
proof -
  note key = publisher_address [OF ok p]
  obtain "normalizePublisherNetwork (fe_U E) (po_Network opts) = Inr (pu_network p)" using NewPublisher_enabled [OF p] by metis
  note net = publisher_network_trim [OF publisher_network_nonempty [OF this]]
  have t: "TrimSpace (''mvc:'' @ pu_address p) = ''mvc:'' @ pu_address p" "TrimSpace ProtocolNode = ProtocolNode" "TrimSpace Version = Version"
    "TrimSpace ''create'' = ''create''" "TrimSpace ''modify'' = ''modify''" "TrimSpace publisherPresenceCapability = publisherPresenceCapability"
    using addr by (auto intro!: TrimSpace_graphic simp: graphic_def code_def ProtocolNode_def Version_def publisherPresenceCapability_def)
  have f: "EqualFold U ''mvc'' ''mvc''" "EqualFold U publisherPresenceCapability publisherPresenceCapability"
    "ToLower U ''create'' = ''create''" "ToLower U ''modify'' = ''modify''" for U
    by (simp_all add: EqualFold_def is_ascii_def ToLower_fixed code_def publisherPresenceCapability_def)
  define node where "node = \<lparr>rn_Protocol = ProtocolNode, rn_Version = Version, rn_NodeID = ''mvc:'' @ pu_address p, rn_Network = pu_network p,
     rn_PublicBaseURL = TrimSpace (rp_PublicBaseURL payload), rn_SocketURL = TrimSpace (rp_SocketURL payload),
     rn_PresenceURL = TrimSpace (rp_PresenceURL payload), rn_PublicKey = pu_publicKey p, rn_Capabilities = [publisherPresenceCapability],
     rn_PublishedAt = rp_PublishedAt payload, rn_ValidUntil = rp_ValidUntil payload\<rparr>"
  have n: "registryNodeFromPin (fe_J E) pin = Some node"
    using content pin(1) key t net(1)
    by (simp add: registryNodeFromPin_def discoveryPinContent_def Let_def node_def payload_def registryPayload_def)
  have vne: "Version \<noteq> ''''" by (simp add: Version_def)
  have acc: "acceptRegistryNode E d node"
    using key t net d vne f(2) unfolding acceptRegistryNode_def discoveryPresenceURLAllowed_def
    by (simp add: node_def registryCapabilitiesInclude_def)
  have exp: "\<not> peerExpired node later" using live by (simp add: peerExpired_def node_def)
  have ops: "ToLower (fe_U E) (TrimSpace (pin_Operation pin)) = pin_Operation pin" using pin(3) t f by auto
  have flds: "rn_NodeID node = ''mvc:'' @ pu_address p" "rn_Network node = pu_network p" "node\<lparr>rn_NodeID := ''mvc:'' @ pu_address p\<rparr> = node"
    by (simp_all add: node_def)
  have "candidateFromPin E d later pin = Some \<lparr>cd_pin = pin, cd_node = node, cd_remove = False\<rparr>"
    using pin(3) d(2) acc exp net f(1) unfolding candidateFromPin_def Let_def ops pin(2) n option.case flds t(1) d(1) by auto
  then show ?thesis by (auto simp: node_def)
qed

text \<open>A library for concrete runs: addresses are their own scripts, every transaction has 200 bytes.\<close>

definition toy_mvc :: mvc_api where
  "toy_mvc = \<lparr>ch_NewHashFromStr = (\<lambda>s. Some s), bsv_DecodeAddress = (\<lambda>a net. Some a), bsv_IsForNet = (\<lambda>a net. True),
     tx_PayToAddrScript = (\<lambda>a. Some a), tx_Script = (\<lambda>items. Some (script_bytes items)),
     tx_SignatureScript = (\<lambda>tx i amount pk key. Some ''sig''), tx_SerializeSize = (\<lambda>tx. 200), tx_Serialize = (\<lambda>tx. Some ''tx'')\<rparr>"

definition toy_utxo :: "int \<Rightarrow> MVCRegistryUTXO" where
  "toy_utxo v = \<lparr>ux_TxID = ''aa'', ux_OutIndex = 0, ux_Value = v, ux_Address = ''a'', ux_PkScript = ''''\<rparr>"

definition toy_request :: MVCRegistryTxRequest where
  "toy_request = \<lparr>rq_Net = ''mvc-mainnet'', rq_PrivateKeyHex = demo_key, rq_UTXOs = [toy_utxo 700, toy_utxo 300],
     rq_Operation = ''create'', rq_Path = '''', rq_Version = '''', rq_Content = ''x'', rq_FeeRate = 2, rq_DustAmount = 5\<rparr>"

definition toy_tx :: msg_tx where
  "toy_tx = \<lparr>tx_Version = 10, tx_In = [\<lparr>ti_Hash = ''aa'', ti_Index = 0, ti_SignatureScript = ''''\<rparr>],
     tx_Out = [(5, ''o''), (0, ''r''), (0, ''o'')]\<rparr>"

lemma toy_trims: "TrimSpace ''aa'' = ''aa''" "TrimSpace ''a'' = ''a''" "TrimSpace ''create'' = ''create''" "TrimSpace ''mvc-mainnet'' = ''mvc-mainnet''"
  by (auto intro!: TrimSpace_graphic simp: graphic_def code_def)

lemma toy_sign: "mvcRegistrySign toy_mvc (set_change toy_tx c) [(''o'', 1000)] key
   = Inr \<lparr>tx_Version = 10, tx_In = [\<lparr>ti_Hash = ''aa'', ti_Index = 0, ti_SignatureScript = ''sig''\<rparr>], tx_Out = [(5, ''o''), (0, ''r''), (c, ''o'')]\<rparr>"
  by (simp add: mvcRegistrySign_def set_change_def toy_tx_def toy_mvc_def eval_nat_numeral)

lemma toy_collect: "collect_inputs toy_mvc a net [toy_utxo 700, toy_utxo 300]
   = Inr ([\<lparr>ti_Hash = ''aa'', ti_Index = 0, ti_SignatureScript = ''''\<rparr>, \<lparr>ti_Hash = ''aa'', ti_Index = 0, ti_SignatureScript = ''''\<rparr>],
       [(''a'', 700), (''a'', 300)], 1000)"
  by (simp add: toy_utxo_def toy_mvc_def mvcRegistryUTXOPkScript_def mvcRegistryAddressScript_def toy_trims wrap64_ok int64_ok_def)

lemma toy_build: "\<exists>r. BuildMVCRegistryTx U toy_crypto toy_mvc toy_request = Inr r"
proof -
  have net: "mvcRegistryNetParams U ''mvc-mainnet'' = Inr ''mainnet''"
    by (simp add: mvcRegistryNetParams_def toy_trims ToLower_fixed code_def)
  have op: "mvcRegistryOperation U ''create'' = Inr ''create''"
    by (simp add: mvcRegistryOperation_def toy_trims ToLower_fixed code_def)
  have sg: "mvcRegistrySign toy_mvc tx inputs key = Inr (projr (mvcRegistrySign toy_mvc tx inputs key))" for tx inputs key
  proof -
    have "\<exists>t. sign_inputs toy_mvc key i inputs tx = Inr t" for i tx
      by (induction inputs arbitrary: i tx) (auto simp: toy_mvc_def)
    then show ?thesis by (metis mvcRegistrySign_def sum.sel(2))
  qed
  have loop: "\<exists>r. fee_loop toy_mvc inputs key 1000 5 2 20 0 tx = Inr r" if "length (tx_Out tx) = 3" for inputs key tx
  proof (rule fee_loop_progress [where lo = 200 and hi = 200])
    show "signed_size_window toy_mvc inputs key tx 200 200"
      unfolding signed_size_window_def by (intro allI exI conjI, rule sg) (simp_all add: toy_mvc_def)
  qed (use that in auto)
  define F where "F inputs key tx = projr (fee_loop toy_mvc inputs key 1000 5 2 20 0 tx)" for inputs key tx
  have F: "fee_loop toy_mvc inputs key 1000 5 2 20 0 tx = Inr (F inputs key tx)" if "length (tx_Out tx) = 3" for inputs key tx
    using loop [OF that, of inputs key] unfolding F_def by (metis sum.sel(2))
  have scripts: "mvcRegistryAddressScript toy_mvc a net = Inr (TrimSpace a)"
    "mvcRegistryOPReturnScript toy_mvc operation path version content = Inr (script_bytes ([OpCode ''OP_0'', OpCode ''OP_RETURN'', PushData ''metaid'',
       PushData operation, PushData path, PushData ''0'', PushData version, PushData ''application/json''] @ map PushData (content_chunks 0 content)))"
    for a net operation path version content
    by (simp_all add: mvcRegistryAddressScript_def mvcRegistryOPReturnScript_def toy_mvc_def)
  show ?thesis
    unfolding BuildMVCRegistryTx_def mvcRegistryPrivateKeyAndParams_def same_key_check toy_request_def
    by (simp add: net op demo_key_parse mvcRegistryIdentity_def Let_def toy_collect scripts F split: prod.split
        del: collect_inputs.simps fee_loop.simps)
qed

lemma publish_success:
  assumes "Publisher_PublishOnce E M utxos broadcast now operation p = (Inr u, p')"
  obtains req r txid where "BuildMVCRegistryTx (fe_U E) (fe_C E) M req = Inr r"
    and "js_MarshalPayload (fe_J E) (registryPayload p now) = Inr (rq_Content req)"
    and "rq_Operation req = operation" and "broadcast (rs_RawTx r) = Inr txid"
    and "p' = p\<lparr>pu_latest := \<lparr>pb_TxID = TrimSpace txid, pb_Operation = TrimSpace operation, pb_Payload = registryPayload p now, pb_Error = ''''\<rparr>\<rparr>"
proof -
  obtain content us registryUTXOs r txid
    where *: "js_MarshalPayload (fe_J E) (registryPayload p now) = Inr content"
    "BuildMVCRegistryTx (fe_U E) (fe_C E) M
       \<lparr>rq_Net = pu_network p, rq_PrivateKeyHex = pu_nodePrivateKey p, rq_UTXOs = registryUTXOs, rq_Operation = operation,
        rq_Path = pu_registryPath p, rq_Version = Version, rq_Content = content, rq_FeeRate = pu_feeRate p, rq_DustAmount = pu_dustAmount p\<rparr> = Inr r"
    "broadcast (rs_RawTx r) = Inr txid"
    "p' = p\<lparr>pu_latest := \<lparr>pb_TxID = TrimSpace txid, pb_Operation = TrimSpace operation, pb_Payload = registryPayload p now, pb_Error = ''''\<rparr>\<rparr>"
    using assms by (auto simp: Publisher_PublishOnce_def storePublishError_def Let_def split: sum.splits if_splits)
  show ?thesis by (rule that [OF *(2)]) (use * in simp_all)
qed

lemma publish_failure:
  assumes "Publisher_PublishOnce E M utxos broadcast now operation p = (Inl e, p')" and "pu_enabled p"
  shows "p' = p\<lparr>pu_latest := \<lparr>pb_TxID = pb_TxID (pu_latest p), pb_Operation = TrimSpace operation, pb_Payload = registryPayload p now, pb_Error = e\<rparr>\<rparr>"
  using assms by (auto simp: Publisher_PublishOnce_def storePublishError_def Let_def split: sum.splits)

subsection \<open>Properties\<close>

text \<open>C34: the registry transaction spends exactly its inputs: the owner output, the data output and the change
  output together with the fee equal the sum of the given UTXOs. The change is at least the dust amount, and the fee
  covers the requested rate for the signed size, computed in 64 bits.\<close>

lemma registry_tx_balanced:
  assumes "BuildMVCRegistryTx U C M req = Inr r" and "sum_list (map ux_Value (rq_UTXOs req)) < 2 ^ 63" and "rq_DustAmount req < 2 ^ 63"
  shows "tx_balanced M req r"
  using assms by (rule built_tx_balanced)

theorem registry_tx_balanced_witness:
  "tx_balanced toy_mvc toy_request (projr (BuildMVCRegistryTx (fe_U toy_env) toy_crypto toy_mvc toy_request))"
proof (rule registry_tx_balanced)
  show "BuildMVCRegistryTx (fe_U toy_env) toy_crypto toy_mvc toy_request
    = Inr (projr (BuildMVCRegistryTx (fe_U toy_env) toy_crypto toy_mvc toy_request))"
    using toy_build [of "fe_U toy_env"] by auto
qed (simp_all add: toy_request_def toy_utxo_def)

text \<open>C35: the fee loop reaches a transaction within its twenty attempts when the signed size varies by at most
  eighteen bytes and the inputs cover both outputs and the fee for the largest size.\<close>

lemma registry_fee_loop_returns:
  assumes "signed_size_window M inputs key tx lo hi" and "length (tx_Out tx) = 3" and "0 < lo" and "hi - lo \<le> 18"
    and "0 < feeRate" and "0 < dustAmount" and "hi * feeRate + 2 * dustAmount \<le> inputValue" and "inputValue < 2 ^ 63"
  shows "\<exists>r. fee_loop M inputs key inputValue dustAmount feeRate 20 0 tx = Inr r"
proof -
  have "lo \<le> hi" using assms(1) by (auto simp: signed_size_window_def)
  then have "0 \<le> hi * feeRate" using assms(3,5) by simp
  then show ?thesis using fee_loop_progress [OF assms(1,2,3,5,6,7,8), of 0 20] assms(4) by simp
qed

theorem registry_fee_loop_returns_witness: "\<exists>r. fee_loop toy_mvc [(''o'', 1000)] ''k'' 1000 5 2 20 0 toy_tx = Inr r"
proof (rule registry_fee_loop_returns)
  show "signed_size_window toy_mvc [(''o'', 1000)] ''k'' toy_tx 200 200"
    by (simp add: signed_size_window_def toy_sign) (simp add: toy_mvc_def)
qed (simp_all add: toy_tx_def)

text \<open>The pushes of the registry script carry the whole payload in order, in non-empty pieces of at most
  520 bytes.\<close>

lemma registry_content_chunks:
  "concat (content_chunks 0 content) = content \<and> list_all (\<lambda>c. c \<noteq> [] \<and> length c \<le> mvcRegistryMaxPushSize) (content_chunks 0 content)"
  using content_chunks_size [of _ 0 content] by (auto simp: content_chunks_concat list_all_iff)

text \<open>A publish attempt of an enabled publisher records its operation and payload; a failure keeps the
  transaction ID of the last success and stores the error, a success replaces the ID by the one the wallet
  service returned for the raw transaction and clears the error.\<close>

lemma publish_once_status:
  assumes "Publisher_PublishOnce E M utxos broadcast now operation p = (res, p')" and "pu_enabled p"
  shows "pb_Payload (pu_latest p') = registryPayload p now \<and> pb_Operation (pu_latest p') = TrimSpace operation
    \<and> p'\<lparr>pu_latest := pu_latest p\<rparr> = p
    \<and> (case res of Inl e \<Rightarrow> pb_TxID (pu_latest p') = pb_TxID (pu_latest p) \<and> pb_Error (pu_latest p') = e
        | Inr _ \<Rightarrow> pb_Error (pu_latest p') = '''' \<and> (\<exists>req r txid. BuildMVCRegistryTx (fe_U E) (fe_C E) M req = Inr r
              \<and> js_MarshalPayload (fe_J E) (registryPayload p now) = Inr (rq_Content req)
              \<and> broadcast (rs_RawTx r) = Inr txid \<and> pb_TxID (pu_latest p') = TrimSpace txid))"
proof (cases res)
  case (Inl e)
  then show ?thesis using publish_failure [of E M utxos broadcast now operation p e p'] assms by simp
next
  case (Inr u)
  then obtain req r txid where "BuildMVCRegistryTx (fe_U E) (fe_C E) M req = Inr r"
    "js_MarshalPayload (fe_J E) (registryPayload p now) = Inr (rq_Content req)" "broadcast (rs_RawTx r) = Inr txid"
    "p' = p\<lparr>pu_latest := \<lparr>pb_TxID = TrimSpace txid, pb_Operation = TrimSpace operation, pb_Payload = registryPayload p now, pb_Error = ''''\<rparr>\<rparr>"
    using publish_success [of E M utxos broadcast now operation p u p'] assms(1) by metis
  then show ?thesis using Inr by auto
qed

subsection \<open>A publisher for concrete runs\<close>

definition toy_key :: bytes where
  "toy_key = replicate 31 (CHR 0x00) @ ''a''"

definition toy_publisher_options :: PublisherOptions where
  "toy_publisher_options = \<lparr>po_Enabled = True, po_Network = ''mvc-mainnet'', po_NodePrivateKey = hex_EncodeToString toy_key, po_PublicBaseURL = ''https://n'',
     po_RegistryPath = '''', po_PresencePath = '''', po_ValidFor = 0, po_RenewInterval = 0, po_FeeRate = 0, po_DustAmount = 0, po_HasClient = True\<rparr>"

definition toy_publisher :: Publisher where
  "toy_publisher = projr (NewPublisher toy_env toy_publisher_options)"

lemma toy_key_parse: "parsePrivateKeyHex toy_crypto (hex_EncodeToString toy_key) = Inr toy_key"
proof -
  have "foldl (\<lambda>n c. 256 * n + code c) 0 (replicate k (CHR 0x00)) = 0" for k
    by (induction k) (simp_all add: code_def)
  then have "big_endian toy_key = 97" by (simp add: big_endian_def toy_key_def code_def)
  then show ?thesis by (simp add: parsePrivateKeyHex_def decodeHexField_encode toy_key_def toy_crypto_def)
qed

lemma toy_identity: "MVCIdentityFromPrivateKey U toy_crypto (hex_EncodeToString toy_key) ''mvc-mainnet'' = Inr (''a'', hex_EncodeToString (CHR 0x02 # toy_key))"
proof -
  have net: "mvcRegistryNetParams U ''mvc-mainnet'' = Inr ''mainnet''"
    by (simp add: mvcRegistryNetParams_def toy_trims ToLower_fixed code_def)
  have "mvcRegistryIdentity toy_crypto toy_key n = (''a'', hex_EncodeToString (CHR 0x02 # toy_key))" for n
    by (simp add: mvcRegistryIdentity_def toy_crypto_def toy_key_def)
  then show ?thesis
    unfolding MVCIdentityFromPrivateKey_def mvcRegistryPrivateKeyAndParams_def same_key_check
    by (simp add: net toy_key_parse)
qed

lemma toy_publisher_built: "NewPublisher (toy_env\<lparr>fe_J := J\<rparr>) toy_publisher_options = Inr toy_publisher"
  and toy_publisher_fields: "pu_enabled toy_publisher" "pu_address toy_publisher = ''a''" "pu_network toy_publisher = ''mvc-mainnet''"
    "pu_validFor toy_publisher = 24 * 3600 * 1000000000" "pu_publicBaseURL toy_publisher = ''https://n''"
    "pu_presencePath toy_publisher = PresencePath"
proof -
  have net: "normalizePublisherNetwork U ''mvc-mainnet'' = Inr ''mvc-mainnet''" for U
    by (simp add: normalizePublisherNetwork_def toy_trims ToLower_fixed code_def)
  have ne: "hex_EncodeToString toy_key \<noteq> []" by (simp add: toy_key_def hex_EncodeToString_def)
  have url: "normalizePublisherBaseURL (fe_N toy_env) ''https://n'' = Inr ''https://n''"
  proof -
    have "TrimSpace ''https://n'' = ''https://n''" by (auto intro!: TrimSpace_graphic simp: graphic_def code_def)
    then show ?thesis by (simp add: normalizePublisherBaseURL_def toy_env_def TrimRight_def)
  qed
  have C: "fe_C toy_env = toy_crypto" by (simp add: toy_env_def)
  have ex: "\<exists>p. NewPublisher (toy_env\<lparr>fe_J := J\<rparr>) toy_publisher_options = Inr p
      \<and> pu_enabled p \<and> pu_address p = ''a'' \<and> pu_network p = ''mvc-mainnet'' \<and> pu_validFor p = 24 * 3600 * 1000000000
      \<and> pu_publicBaseURL p = ''https://n'' \<and> pu_presencePath p = PresencePath" for J
    unfolding NewPublisher_def toy_publisher_options_def
    by (simp add: net TrimSpace_hex url ne C toy_identity normalizedPublisherPath_def)
  have sel: "fe_U (toy_env\<lparr>fe_J := J\<rparr>) = fe_U toy_env" "fe_N (toy_env\<lparr>fe_J := J\<rparr>) = fe_N toy_env"
    "fe_C (toy_env\<lparr>fe_J := J\<rparr>) = fe_C toy_env" for J by simp_all
  have same: "NewPublisher (toy_env\<lparr>fe_J := J\<rparr>) toy_publisher_options = NewPublisher toy_env toy_publisher_options" for J
    unfolding NewPublisher_def sel by (rule refl)
  show "NewPublisher (toy_env\<lparr>fe_J := J\<rparr>) toy_publisher_options = Inr toy_publisher"
    using ex [of J] same [of J] by (auto simp: toy_publisher_def)
  show "pu_enabled toy_publisher" "pu_address toy_publisher = ''a''" "pu_network toy_publisher = ''mvc-mainnet''"
    "pu_validFor toy_publisher = 24 * 3600 * 1000000000" "pu_publicBaseURL toy_publisher = ''https://n''"
    "pu_presencePath toy_publisher = PresencePath"
    using ex [of J] same [of J] by (auto simp: toy_publisher_def)
qed

theorem publish_once_status_witness:
  "pb_Payload (pu_latest (snd (Publisher_PublishOnce toy_env toy_mvc (Inl ''timeout'') (\<lambda>raw. Inr raw) 0 ''create'' toy_publisher)))
     = registryPayload toy_publisher 0"
  using publish_once_status [of toy_env toy_mvc "Inl ''timeout''" "\<lambda>raw. Inr raw" 0 "''create''" toy_publisher
      "fst (Publisher_PublishOnce toy_env toy_mvc (Inl ''timeout'') (\<lambda>raw. Inr raw) 0 ''create'' toy_publisher)"
      "snd (Publisher_PublishOnce toy_env toy_mvc (Inl ''timeout'') (\<lambda>raw. Inr raw) 0 ''create'' toy_publisher)"]
  by (simp add: toy_publisher_fields)


definition announced_env :: fed_env where
  "announced_env = toy_env\<lparr>fe_J := plain_json\<lparr>js_UnmarshalPayload := (\<lambda>b. Inr (registryPayload toy_publisher 0))\<rparr>\<rparr>"

definition announced_pin :: RegistryPin where
  "announced_pin = toy_pin ''1'' ''create'' 5 CHR ''x''"


end
