(* ===== verification/Storage.thy ===== *)
theory Storage
  imports GoStrings
begin

text \<open>
  The namespaced key-value store, \<open>internal/storage/pebble.go\<close>. A \<open>PebbleStore\<close> keeps one Pebble
  database per namespace and opens it on demand.

  Pebble itself and the file system are parameters: the record \<open>pebble_api\<close> holds the calls the
  code makes, acting on a world \<open>'w\<close> through handles \<open>'h\<close>. The locale \<open>pebble_db\<close> states the
  documented behaviour of these calls over \<open>disk\<close>, the contents of each database directory; every
  call may fail. An iterator is the list of pairs it delivers; the loops of the source do not
  look at \<open>iter.Error()\<close>, so a law that an iterator is complete is part of the locale.

  The record \<open>kv_api\<close> and the locale \<open>kv_store\<close> are the interface that the aggregators
  rely on; \<open>PebbleStore_kv\<close> implements it with the operations of this file.
\<close>

datatype db_error =
    ErrNotFound
  | CreateDir string string
  | OpenPebble string string
  | CloseErrors "(string \<times> string) list"
  | DbError string

subsection \<open>Paths\<close>

fun split_slash :: "string \<Rightarrow> string list" where
  "split_slash [] = [[]]"
| "split_slash (c # s) =
     (if c = CHR ''/'' then [] # split_slash s
      else case split_slash s of [] \<Rightarrow> [[c]] | w # ws \<Rightarrow> (c # w) # ws)"

fun join_slash :: "string list \<Rightarrow> string" where
  "join_slash [] = ''''"
| "join_slash [w] = w"
| "join_slash (w # ws) = w @ ''/'' @ join_slash ws"

text \<open>\<open>filepath.Clean\<close>: the first argument tells whether the path is rooted, the accumulator holds the
  elements kept so far, last first.\<close>

fun clean_elems :: "bool \<Rightarrow> string list \<Rightarrow> string list \<Rightarrow> string list" where
  "clean_elems rooted acc [] = rev acc"
| "clean_elems rooted acc (w # ws) =
     (if w = '''' \<or> w = ''.'' then clean_elems rooted acc ws
      else if w = ''..'' then
        (case acc of
           [] \<Rightarrow> clean_elems rooted (if rooted then [] else [''..'']) ws
         | a # as \<Rightarrow> clean_elems rooted (if a = ''..'' then ''..'' # acc else as) ws)
      else clean_elems rooted (w # acc) ws)"

definition filepath_Clean :: "string \<Rightarrow> string" where
  "filepath_Clean p =
     (let rooted = HasPrefix p ''/''; es = clean_elems rooted [] (split_slash p)
      in if rooted then ''/'' @ join_slash es else if es = [] then ''.'' else join_slash es)"

definition filepath_Join :: "string \<Rightarrow> string \<Rightarrow> string" where
  "filepath_Join dir ns =
     (if dir \<noteq> '''' then filepath_Clean (dir @ ''/'' @ ns) else if ns \<noteq> '''' then filepath_Clean ns else '''')"

subsection \<open>Pebble\<close>

record ('w, 'h) pebble_api =
  os_MkdirAll :: "string \<Rightarrow> 'w \<Rightarrow> string option \<times> 'w"
  pb_Open :: "string \<Rightarrow> 'w \<Rightarrow> (string + 'h) \<times> 'w"
  pb_Close :: "'h \<Rightarrow> 'w \<Rightarrow> string option \<times> 'w"
  pb_Set :: "'h \<Rightarrow> bytes \<Rightarrow> bytes \<Rightarrow> 'w \<Rightarrow> db_error option \<times> 'w"
  pb_Get :: "'h \<Rightarrow> bytes \<Rightarrow> 'w \<Rightarrow> db_error + bytes"
  pb_Delete :: "'h \<Rightarrow> bytes \<Rightarrow> 'w \<Rightarrow> db_error option \<times> 'w"
  pb_NewIter :: "'h \<Rightarrow> bytes \<Rightarrow> bytes option \<Rightarrow> 'w \<Rightarrow> db_error + (bytes \<times> bytes) list"
  pb_BatchDelete :: "'h \<Rightarrow> bytes \<Rightarrow> 'w \<Rightarrow> db_error option"
  pb_Commit :: "'h \<Rightarrow> bytes list \<Rightarrow> 'w \<Rightarrow> db_error option \<times> 'w"

definition in_bounds :: "bytes \<Rightarrow> bytes option \<Rightarrow> bytes \<Rightarrow> bool" where
  "in_bounds lo hi k \<longleftrightarrow> lo \<le> k \<and> (case hi of None \<Rightarrow> True | Some u \<Rightarrow> k < u)"

subsection \<open>PebbleStore\<close>

record 'h PebbleStore =
  ps_dbs :: "(string, 'h) gomap"
  ps_dir :: string
  ps_opened :: bool

definition NewPebbleStore :: "string \<Rightarrow> 'h PebbleStore" where
  "NewPebbleStore dataDir = \<lparr>ps_dbs = [], ps_dir = dataDir, ps_opened = False\<rparr>"

type_synonym ('w, 'h) store_state = "'h PebbleStore \<times> 'w"

fun PebbleStore_OpenDB ::
    "('w, 'h) pebble_api \<Rightarrow> string \<Rightarrow> ('w, 'h) store_state \<Rightarrow> (db_error + 'h) \<times> ('w, 'h) store_state" where
  "PebbleStore_OpenDB P namespace (s, w) =
     (case gm_get (ps_dbs s) namespace of
        Some db \<Rightarrow> (Inr db, (s, w))
      | None \<Rightarrow>
          (let dbPath = filepath_Join (ps_dir s) namespace
           in case os_MkdirAll P dbPath w of
                (Some err, w1) \<Rightarrow> (Inl (CreateDir dbPath err), (s, w1))
              | (None, w1) \<Rightarrow>
                  (case pb_Open P dbPath w1 of
                     (Inl err, w2) \<Rightarrow> (Inl (OpenPebble dbPath err), (s, w2))
                   | (Inr db, w2) \<Rightarrow>
                       (Inr db, (s\<lparr>ps_dbs := gm_set (ps_dbs s) namespace db, ps_opened := True\<rparr>, w2)))))"

definition PebbleStore_GetDB :: "string \<Rightarrow> ('w, 'h) store_state \<Rightarrow> 'h option" where
  "PebbleStore_GetDB namespace st = gm_get (ps_dbs (fst st)) namespace"

fun close_all :: "('w, 'h) pebble_api \<Rightarrow> (string \<times> 'h) list \<Rightarrow> 'w \<Rightarrow> (string \<times> string) list \<times> 'w" where
  "close_all P [] w = ([], w)"
| "close_all P ((name, db) # dbs) w =
     (let (e, w1) = pb_Close P db w; (errs, w2) = close_all P dbs w1
      in (case e of None \<Rightarrow> errs | Some err \<Rightarrow> (name, err) # errs, w2))"

definition PebbleStore_Close ::
    "('w, 'h) pebble_api \<Rightarrow> ('w, 'h) store_state \<Rightarrow> db_error option \<times> ('w, 'h) store_state" where
  "PebbleStore_Close P st =
     (let (errs, w) = close_all P (ps_dbs (fst st)) (snd st)
      in (if errs \<noteq> [] then Some (CloseErrors errs) else None, ((fst st)\<lparr>ps_dbs := []\<rparr>, w)))"

definition PebbleStore_Set ::
    "('w, 'h) pebble_api \<Rightarrow> string \<Rightarrow> bytes \<Rightarrow> bytes \<Rightarrow> ('w, 'h) store_state \<Rightarrow> db_error option \<times> ('w, 'h) store_state" where
  "PebbleStore_Set P namespace key v st =
     (case PebbleStore_OpenDB P namespace st of
        (Inl err, st1) \<Rightarrow> (Some err, st1)
      | (Inr db, (s, w)) \<Rightarrow> (let (e, w1) = pb_Set P db key v w in (e, (s, w1))))"

definition PebbleStore_Get ::
    "('w, 'h) pebble_api \<Rightarrow> string \<Rightarrow> bytes \<Rightarrow> ('w, 'h) store_state \<Rightarrow> (db_error + bytes) \<times> ('w, 'h) store_state" where
  "PebbleStore_Get P namespace key st =
     (case PebbleStore_OpenDB P namespace st of
        (Inl err, st1) \<Rightarrow> (Inl err, st1)
      | (Inr db, (s, w)) \<Rightarrow> (pb_Get P db key w, (s, w)))"

definition PebbleStore_Delete ::
    "('w, 'h) pebble_api \<Rightarrow> string \<Rightarrow> bytes \<Rightarrow> ('w, 'h) store_state \<Rightarrow> db_error option \<times> ('w, 'h) store_state" where
  "PebbleStore_Delete P namespace key st =
     (case PebbleStore_GetDB namespace st of
        None \<Rightarrow> (None, st)
      | Some db \<Rightarrow> (let (e, w1) = pb_Delete P db key (snd st) in (e, (fst st, w1))))"

fun bump_last :: "bytes \<Rightarrow> bytes option" where
  "bump_last [] = None"
| "bump_last (c # cs) =
     (let c' = char_of ((code c + 1) mod 256) in if c' \<noteq> CHR 0x00 then Some (c' # cs) else bump_last cs)"

text \<open>The loop of \<open>prefixUpperBound\<close> walks from the last byte to the first, hence \<open>rev\<close>.\<close>

definition prefixUpperBound :: "bytes \<Rightarrow> bytes option" where
  "prefixUpperBound p = map_option rev (bump_last (rev p))"

definition PebbleStore_DeleteByPrefix ::
    "('w, 'h) pebble_api \<Rightarrow> string \<Rightarrow> bytes \<Rightarrow> ('w, 'h) store_state \<Rightarrow> db_error option \<times> ('w, 'h) store_state" where
  "PebbleStore_DeleteByPrefix P namespace p st =
     (case PebbleStore_GetDB namespace st of
        None \<Rightarrow> (None, st)
      | Some db \<Rightarrow>
          (case pb_NewIter P db p (prefixUpperBound p) (snd st) of
             Inl err \<Rightarrow> (Some err, st)
           | Inr kvs \<Rightarrow>
               (case find (\<lambda>e. e \<noteq> None) (map (\<lambda>(k, v). pb_BatchDelete P db k (snd st)) kvs) of
                  Some e \<Rightarrow> (e, st)
                | None \<Rightarrow> (let (e, w1) = pb_Commit P db (map fst kvs) (snd st) in (e, (fst st, w1))))))"

text \<open>The loop of \<open>ScanPrefix\<close>: \<open>fn\<close> acts on the caller's variables \<open>'a\<close> and may stop the scan.\<close>

fun scan_loop :: "(bytes \<Rightarrow> bytes \<Rightarrow> 'a \<Rightarrow> db_error option \<times> 'a) \<Rightarrow> (bytes \<times> bytes) list \<Rightarrow> 'a \<Rightarrow> db_error option \<times> 'a" where
  "scan_loop fn [] a = (None, a)"
| "scan_loop fn ((k, v) # kvs) a =
     (case fn k v a of (Some e, a1) \<Rightarrow> (Some e, a1) | (None, a1) \<Rightarrow> scan_loop fn kvs a1)"

definition PebbleStore_ScanPrefix ::
    "('w, 'h) pebble_api \<Rightarrow> string \<Rightarrow> bytes \<Rightarrow> (bytes \<Rightarrow> bytes \<Rightarrow> 'a \<Rightarrow> db_error option \<times> 'a) \<Rightarrow> 'a
     \<Rightarrow> ('w, 'h) store_state \<Rightarrow> (db_error option \<times> 'a) \<times> ('w, 'h) store_state" where
  "PebbleStore_ScanPrefix P namespace p fn a st =
     (case PebbleStore_OpenDB P namespace st of
        (Inl err, st1) \<Rightarrow> ((Some err, a), st1)
      | (Inr db, (s, w)) \<Rightarrow>
          (case pb_NewIter P db p (prefixUpperBound p) w of
             Inl err \<Rightarrow> ((Some err, a), (s, w))
           | Inr kvs \<Rightarrow> (scan_loop fn kvs a, (s, w))))"

subsection \<open>The interface of the aggregators\<close>

record 's kv_api =
  kv_Get :: "string \<Rightarrow> bytes \<Rightarrow> 's \<Rightarrow> (db_error + bytes) \<times> 's"
  kv_Set :: "string \<Rightarrow> bytes \<Rightarrow> bytes \<Rightarrow> 's \<Rightarrow> db_error option \<times> 's"
  kv_Delete :: "string \<Rightarrow> bytes \<Rightarrow> 's \<Rightarrow> db_error option \<times> 's"
  kv_Scan :: "string \<Rightarrow> bytes \<Rightarrow> 's \<Rightarrow> (db_error + (bytes \<times> bytes) list) \<times> 's"

text \<open>\<open>kv_Scan\<close> hands over the pairs of a prefix; a caller runs its callback over them with
  \<open>scan_loop\<close>.\<close>

definition PebbleStore_kv :: "('w, 'h) pebble_api \<Rightarrow> ('w, 'h) store_state kv_api" where
  "PebbleStore_kv P =
     \<lparr>kv_Get = PebbleStore_Get P, kv_Set = PebbleStore_Set P, kv_Delete = PebbleStore_Delete P,
      kv_Scan = (\<lambda>ns p st.
        case PebbleStore_ScanPrefix P ns p (\<lambda>k v acc. (None, acc @ [(k, v)])) [] st of
          ((Some e, _), st1) \<Rightarrow> (Inl e, st1)
        | ((None, kvs), st1) \<Rightarrow> (Inr kvs, st1))\<rparr>"

text \<open>A reference Pebble kept in memory: a database is a list of writes, the newest first.\<close>

type_synonym mem_world = "string \<Rightarrow> (bytes \<times> bytes) list"

definition mem_pebble :: "(mem_world, string) pebble_api" where
  "mem_pebble =
     \<lparr>os_MkdirAll = (\<lambda>p w. (None, w)), pb_Open = (\<lambda>p w. (Inr p, w)), pb_Close = (\<lambda>h w. (None, w)),
      pb_Set = (\<lambda>h k v w. (None, w(h := (k, v) # w h))),
      pb_Get = (\<lambda>h k w. case map_of (w h) k of None \<Rightarrow> Inl ErrNotFound | Some v \<Rightarrow> Inr v),
      pb_Delete = (\<lambda>h k w. (None, w(h := filter (\<lambda>e. fst e \<noteq> k) (w h)))),
      pb_NewIter = (\<lambda>h lo hi w. Inr (map (\<lambda>k. (k, the (map_of (w h) k)))
                     (sort (remdups (filter (in_bounds lo hi) (map fst (w h))))))),
      pb_BatchDelete = (\<lambda>h k w. None),
      pb_Commit = (\<lambda>h ks w. (None, w(h := filter (\<lambda>e. fst e \<notin> set ks) (w h))))\<rparr>"

subsection \<open>The upper bound of a prefix\<close>

lemma less_char_code: "c < d \<longleftrightarrow> code c < code d"
  by (simp add: less_char_def code_def)

lemma char_of_eq_0: "(n :: nat) < 256 \<Longrightarrow> char_of n = CHR 0x00 \<longleftrightarrow> n = 0"
proof
  assume "n < 256" and "char_of n = CHR 0x00"
  then have "code (CHR 0x00) = n" using code_char_of by metis
  then show "n = 0" by (simp add: code_def)
qed (simp add: char_of_def)

lemma succ_char: "char_of ((code c + 1) mod 256) = CHR 0x00 \<longleftrightarrow> code c = 255"
proof -
  have "(code c + 1) mod 256 = 0 \<longleftrightarrow> code c = 255"
    using code_lt_256 [of c] by presburger
  then show ?thesis using char_of_eq_0 [of "(code c + 1) mod 256"] by simp
qed

lemma succ_mod: "code c \<noteq> 255 \<Longrightarrow> (code c + 1) mod 256 = code c + 1"
  using code_lt_256 [of c] by simp

lemma bump_last_snoc:
  "bump_last (cs @ [c]) =
     (case bump_last cs of Some u \<Rightarrow> Some (u @ [c])
      | None \<Rightarrow> if code c = 255 then None else Some [char_of (code c + 1)])"
proof (induction cs)
  case Nil
  show ?case using succ_char [of c] succ_mod [of c] by (simp add: Let_def)
next
  case (Cons d cs)
  then show ?case by (simp add: Let_def)
qed

lemma prefixUpperBound_Nil [simp]: "prefixUpperBound [] = None"
  by (simp add: prefixUpperBound_def)

lemma prefixUpperBound_Cons:
  "prefixUpperBound (c # p) =
     (case prefixUpperBound p of Some u \<Rightarrow> Some (c # u)
      | None \<Rightarrow> if code c = 255 then None else Some [char_of (code c + 1)])"
  by (simp add: prefixUpperBound_def bump_last_snoc split: option.split)

lemma in_bounds_prefix: "in_bounds p (prefixUpperBound p) k \<longleftrightarrow> prefix p k"
proof (induction p arbitrary: k)
  case Nil
  then show ?case by (simp add: in_bounds_def)
next
  case (Cons c p)
  show ?case
  proof (cases k)
    case Nil
    then show ?thesis by (simp add: in_bounds_def)
  next
    case (Cons d k')
    have ord: "code d \<le> 255" using code_lt_256 [of d] by simp
    have eq: "c = d \<longleftrightarrow> code c = code d" "d = c \<longleftrightarrow> code c = code d" by (auto simp: code_def)
    have ih: "in_bounds p (prefixUpperBound p) k' \<longleftrightarrow> prefix p k'" by (rule Cons.IH)
    show ?thesis
    proof (cases "prefixUpperBound p")
      case None
      with ih ord show ?thesis unfolding Cons
        by (auto simp: in_bounds_def prefixUpperBound_Cons less_char_code eq)
    next
      case (Some u)
      with ih show ?thesis unfolding Cons
        by (auto simp: in_bounds_def prefixUpperBound_Cons less_char_code eq)
    qed
  qed
qed

subsection \<open>What the code relies on of Pebble\<close>

text \<open>Every handle in \<open>dbs\<close> is open on the directory of its namespace.\<close>

definition store_inv :: "('h \<Rightarrow> string) \<Rightarrow> ('w \<Rightarrow> 'h \<Rightarrow> bool) \<Rightarrow> string \<Rightarrow> ('w, 'h) store_state \<Rightarrow> bool" where
  "store_inv path_of live d st \<longleftrightarrow> ps_dir (fst st) = d
     \<and> (\<forall>ns h. gm_get (ps_dbs (fst st)) ns = Some h \<longrightarrow> live (snd st) h \<and> path_of h = filepath_Join d ns)"

locale pebble_db =
  fixes P :: "('w, 'h) pebble_api"
    and path_of :: "'h \<Rightarrow> string"
    and disk :: "'w \<Rightarrow> string \<Rightarrow> bytes \<Rightarrow> bytes option"
    and live :: "'w \<Rightarrow> 'h \<Rightarrow> bool"
  assumes mkdir_disk: "disk (snd (os_MkdirAll P p w)) = disk w"
    and mkdir_live: "live w h \<Longrightarrow> live (snd (os_MkdirAll P p w)) h"
    and open_disk: "disk (snd (pb_Open P p w)) = disk w"
    and open_live: "live w h \<Longrightarrow> live (snd (pb_Open P p w)) h"
    and open_handle: "pb_Open P p w = (Inr h, w') \<Longrightarrow> path_of h = p \<and> live w' h"
    and close_disk: "disk (snd (pb_Close P h w)) = disk w"
    and set_live: "live w h' \<Longrightarrow> live (snd (pb_Set P h k v w)) h'"
    and set_disk: "live w h \<Longrightarrow> pb_Set P h k v w = (None, w')
      \<Longrightarrow> disk w' = (disk w)(path_of h := (disk w (path_of h))(k \<mapsto> v))"
    and get_disk: "live w h \<Longrightarrow> pb_Get P h k w = Inr v \<Longrightarrow> disk w (path_of h) k = Some v"
    and get_missing: "live w h \<Longrightarrow> pb_Get P h k w = Inl ErrNotFound \<Longrightarrow> disk w (path_of h) k = None"
    and delete_live: "live w h' \<Longrightarrow> live (snd (pb_Delete P h k w)) h'"
    and delete_disk: "live w h \<Longrightarrow> pb_Delete P h k w = (None, w')
      \<Longrightarrow> disk w' = (disk w)(path_of h := (disk w (path_of h))(k := None))"
    and iter_disk: "live w h \<Longrightarrow> pb_NewIter P h lo hi w = Inr kvs
      \<Longrightarrow> sorted_wrt (<) (map fst kvs)
        \<and> set kvs = {(k, v). disk w (path_of h) k = Some v \<and> in_bounds lo hi k}"
    and commit_live: "live w h' \<Longrightarrow> live (snd (pb_Commit P h ks w)) h'"
    and commit_disk: "live w h \<Longrightarrow> pb_Commit P h ks w = (None, w')
      \<Longrightarrow> disk w' = (disk w)(path_of h := disk w (path_of h) |` (- set ks))"
begin

lemma inv_new: "store_inv path_of live d (NewPebbleStore d, w)"
  by (simp add: store_inv_def NewPebbleStore_def)

lemma inv_handle:
  "store_inv path_of live d (s, w) \<Longrightarrow> gm_get (ps_dbs s) ns = Some h \<Longrightarrow> live w h \<and> path_of h = filepath_Join d ns"
  by (simp add: store_inv_def)

lemma inv_mono:
  "store_inv path_of live d (s, w) \<Longrightarrow> (\<And>h. live w h \<Longrightarrow> live w' h) \<Longrightarrow> store_inv path_of live d (s, w')"
  by (simp add: store_inv_def)

lemma OpenDB_ok:
  assumes inv: "store_inv path_of live d st" and op: "PebbleStore_OpenDB P ns st = (r, st')"
  shows "store_inv path_of live d st'" and "disk (snd st') = disk (snd st)"
    and "r = Inr h \<Longrightarrow> live (snd st') h \<and> path_of h = filepath_Join d ns"
proof -
  obtain s w where st: "st = (s, w)" by (cases st)
  have dir: "ps_dir s = d" using inv by (simp add: st store_inv_def)
  show "store_inv path_of live d st'"
    using inv op mkdir_live open_live open_handle dir unfolding st store_inv_def
    by (auto simp: Let_def split: option.splits prod.splits sum.splits if_splits)
      (metis snd_conv)+
  show "disk (snd st') = disk (snd st)"
    using op mkdir_disk open_disk unfolding st
    by (auto simp: Let_def split: option.splits prod.splits sum.splits) (metis snd_conv)+
  show "r = Inr h \<Longrightarrow> live (snd st') h \<and> path_of h = filepath_Join d ns"
    using op open_handle dir inv unfolding st
    by (auto simp: Let_def dest: inv_handle split: option.splits prod.splits sum.splits)
qed

lemma close_all_disk: "disk (snd (close_all P dbs w)) = disk w"
proof (induction dbs arbitrary: w)
  case Nil
  then show ?case by simp
next
  case (Cons e dbs)
  then show ?case using close_disk [of "snd e" w]
    by (cases e) (auto simp: Let_def split: prod.splits, metis snd_conv)
qed

lemma Close_ok: "store_inv path_of live d st \<Longrightarrow> PebbleStore_Close P st = (e, st')
    \<Longrightarrow> store_inv path_of live d st' \<and> disk (snd st') = disk (snd st)"
  using close_all_disk [of "ps_dbs (fst st)" "snd st"]
  by (auto simp: PebbleStore_Close_def store_inv_def Let_def split: prod.splits)

lemma Set_ok:
  assumes inv: "store_inv path_of live d st" and op: "PebbleStore_Set P ns k v st = (e, st')"
  shows "store_inv path_of live d st'"
    and "e = None \<Longrightarrow> disk (snd st')
      = (disk (snd st))(filepath_Join d ns := (disk (snd st) (filepath_Join d ns))(k \<mapsto> v))"
proof -
  obtain r s w where o: "PebbleStore_OpenDB P ns st = (r, (s, w))" by (metis prod.exhaust)
  note ok = OpenDB_ok [OF inv o]
  show "store_inv path_of live d st'"
    using op ok(1) inv_mono [OF ok(1)] set_live o
    by (auto simp: PebbleStore_Set_def Let_def split: sum.splits prod.splits) (metis snd_conv)
  show "e = None \<Longrightarrow> disk (snd st')
      = (disk (snd st))(filepath_Join d ns := (disk (snd st) (filepath_Join d ns))(k \<mapsto> v))"
    using op ok(2,3) set_disk o
    by (auto simp: PebbleStore_Set_def Let_def split: sum.splits prod.splits)
qed

lemma Get_ok:
  assumes inv: "store_inv path_of live d st" and op: "PebbleStore_Get P ns k st = (r, st')"
  shows "store_inv path_of live d st' \<and> disk (snd st') = disk (snd st)"
    and "r = Inr v \<Longrightarrow> disk (snd st) (filepath_Join d ns) k = Some v"
proof -
  obtain q s w where o: "PebbleStore_OpenDB P ns st = (q, (s, w))" by (metis prod.exhaust)
  note ok = OpenDB_ok [OF inv o]
  show "store_inv path_of live d st' \<and> disk (snd st') = disk (snd st)"
    using op ok(1,2) o by (auto simp: PebbleStore_Get_def split: sum.splits)
  show "r = Inr v \<Longrightarrow> disk (snd st) (filepath_Join d ns) k = Some v"
    using op ok(2,3) o get_disk by (fastforce simp: PebbleStore_Get_def split: sum.splits)
qed

lemma Get_missing:
  assumes inv: "store_inv path_of live d st" and op: "PebbleStore_Get P ns k st = (Inl ErrNotFound, st')"
  shows "disk (snd st) (filepath_Join d ns) k = None"
proof -
  obtain q s w where o: "PebbleStore_OpenDB P ns st = (q, (s, w))" by (metis prod.exhaust)
  note ok = OpenDB_ok [OF inv o]
  have "q \<noteq> Inl ErrNotFound" using o
    by (cases st) (auto simp: Let_def split: option.splits prod.splits sum.splits)
  then show ?thesis using op ok(2,3) o get_missing by (fastforce simp: PebbleStore_Get_def split: sum.splits)
qed

lemma Delete_ok:
  assumes inv: "store_inv path_of live d st" and op: "PebbleStore_Delete P ns k st = (e, st')"
  shows "store_inv path_of live d st'"
    and "e = None \<Longrightarrow> PebbleStore_GetDB ns st \<noteq> None \<Longrightarrow> disk (snd st')
      = (disk (snd st))(filepath_Join d ns := (disk (snd st) (filepath_Join d ns))(k := None))"
proof -
  obtain s w where st: "st = (s, w)" by (cases st)
  show "store_inv path_of live d st'"
    using op inv inv_mono delete_live unfolding st
    by (auto simp: PebbleStore_Delete_def Let_def split: option.splits prod.splits) (metis snd_conv)
  show "e = None \<Longrightarrow> PebbleStore_GetDB ns st \<noteq> None \<Longrightarrow> disk (snd st')
      = (disk (snd st))(filepath_Join d ns := (disk (snd st) (filepath_Join d ns))(k := None))"
  proof -
    assume e: "e = None" and "PebbleStore_GetDB ns st \<noteq> None"
    then obtain h where h: "gm_get (ps_dbs s) ns = Some h" by (auto simp: st PebbleStore_GetDB_def)
    note hd = inv_handle [OF inv [unfolded st] h]
    have "pb_Delete P h k w = (None, snd st')"
      using op e h by (auto simp: st PebbleStore_Delete_def PebbleStore_GetDB_def Let_def split: prod.splits)
    from delete_disk [OF _ this] hd show ?thesis by (simp add: st)
  qed
qed

lemma iter_prefix:
  assumes "live w h" and "pb_NewIter P h p (prefixUpperBound p) w = Inr kvs"
  shows "sorted_wrt (<) (map fst kvs)" and "set kvs = {(k, v). disk w (path_of h) k = Some v \<and> prefix p k}"
  using iter_disk [OF assms] by (simp_all add: in_bounds_prefix)

lemma DeleteByPrefix_ok:
  assumes inv: "store_inv path_of live d st" and op: "PebbleStore_DeleteByPrefix P ns p st = (e, st')"
  shows "store_inv path_of live d st'"
    and "e = None \<Longrightarrow> PebbleStore_GetDB ns st \<noteq> None \<Longrightarrow> disk (snd st')
      = (disk (snd st))(filepath_Join d ns := disk (snd st) (filepath_Join d ns) |` {k. \<not> prefix p k})"
proof -
  obtain s w where st: "st = (s, w)" by (cases st)
  show "store_inv path_of live d st'"
    using op inv inv_mono commit_live unfolding st
    by (auto simp: PebbleStore_DeleteByPrefix_def Let_def split: option.splits prod.splits sum.splits)
      (metis snd_conv)
  assume e: "e = None" and "PebbleStore_GetDB ns st \<noteq> None"
  then obtain h where h: "gm_get (ps_dbs s) ns = Some h" by (auto simp: st PebbleStore_GetDB_def)
  note hd = inv_handle [OF inv [unfolded st] h]
  obtain kvs where kvs: "pb_NewIter P h p (prefixUpperBound p) w = Inr kvs"
    using op e h by (auto simp: st PebbleStore_DeleteByPrefix_def PebbleStore_GetDB_def split: sum.splits)
  have nf: "find (\<lambda>e. e \<noteq> None) (map (\<lambda>(k, v). pb_BatchDelete P h k w) kvs) = None"
    using op e h kvs by (auto simp: st PebbleStore_DeleteByPrefix_def PebbleStore_GetDB_def find_Some_iff split: option.splits)
  have cm: "pb_Commit P h (map fst kvs) w = (None, snd st')"
    using op e h kvs nf by (auto simp: st PebbleStore_DeleteByPrefix_def PebbleStore_GetDB_def Let_def split: prod.splits)
  have keys: "x \<in> fst ` set kvs \<longleftrightarrow> prefix p x \<and> disk w (path_of h) x \<noteq> None" for x
    using iter_prefix(2) [OF _ kvs] hd by (force simp: image_iff)
  have "disk w (path_of h) |` (- set (map fst kvs)) = disk w (path_of h) |` {k. \<not> prefix p k}"
    by (rule ext) (simp add: restrict_map_def keys)
  then show "disk (snd st') = (disk (snd st))(filepath_Join d ns := disk (snd st) (filepath_Join d ns) |` {k. \<not> prefix p k})"
    using commit_disk [OF _ cm] hd by (simp add: st)
qed

lemma ScanPrefix_ok:
  assumes inv: "store_inv path_of live d st" and op: "PebbleStore_ScanPrefix P ns p fn a st = ((e, b), st')"
  shows "store_inv path_of live d st' \<and> disk (snd st') = disk (snd st)"
    and "(\<exists>err. e = Some err \<and> b = a) \<or> (\<exists>kvs. (e, b) = scan_loop fn kvs a \<and> sorted_wrt (<) (map fst kvs)
          \<and> set kvs = {(k, v). disk (snd st) (filepath_Join d ns) k = Some v \<and> prefix p k})"
proof -
  obtain r s w where o: "PebbleStore_OpenDB P ns st = (r, (s, w))" by (metis prod.exhaust)
  note ok = OpenDB_ok [OF inv o]
  show "store_inv path_of live d st' \<and> disk (snd st') = disk (snd st)"
    using op ok(1,2) o by (auto simp: PebbleStore_ScanPrefix_def split: sum.splits)
  show "(\<exists>err. e = Some err \<and> b = a) \<or> (\<exists>kvs. (e, b) = scan_loop fn kvs a \<and> sorted_wrt (<) (map fst kvs)
          \<and> set kvs = {(k, v). disk (snd st) (filepath_Join d ns) k = Some v \<and> prefix p k})"
  proof (cases r)
    case (Inl err)
    then show ?thesis using op o by (auto simp: PebbleStore_ScanPrefix_def)
  next
    case (Inr h)
    note hd = ok(3) [OF Inr]
    show ?thesis
    proof (cases "pb_NewIter P h p (prefixUpperBound p) w")
      case (Inl err)
      then show ?thesis using op o Inr by (auto simp: PebbleStore_ScanPrefix_def)
    next
      case kvs: (Inr kvs)
      then have "(e, b) = scan_loop fn kvs a" using op o Inr by (simp add: PebbleStore_ScanPrefix_def)
      with iter_prefix [OF _ kvs] hd ok(2) show ?thesis by auto
    qed
  qed
qed

end

lemma kv_Scan_collect: "scan_loop (\<lambda>k v acc. (None, acc @ [(k, v)])) kvs acc = (None, acc @ kvs)"
  by (induction kvs arbitrary: acc) auto

locale kv_store =
  fixes K :: "'s kv_api"
    and loc :: "string \<Rightarrow> string"
    and content :: "'s \<Rightarrow> string \<Rightarrow> bytes \<Rightarrow> bytes option"
    and inv :: "'s \<Rightarrow> bool"
  assumes get_inv: "inv s \<Longrightarrow> kv_Get K ns k s = (r, s') \<Longrightarrow> inv s' \<and> content s' = content s"
    and get_value: "inv s \<Longrightarrow> kv_Get K ns k s = (Inr v, s') \<Longrightarrow> content s (loc ns) k = Some v"
    and get_none: "inv s \<Longrightarrow> kv_Get K ns k s = (Inl ErrNotFound, s') \<Longrightarrow> content s (loc ns) k = None"
    and set_inv: "inv s \<Longrightarrow> kv_Set K ns k v s = (e, s') \<Longrightarrow> inv s'"
    and set_content: "inv s \<Longrightarrow> kv_Set K ns k v s = (None, s')
      \<Longrightarrow> content s' = (content s)(loc ns := (content s (loc ns))(k \<mapsto> v))"
    and scan_inv: "inv s \<Longrightarrow> kv_Scan K ns p s = (kvr, s') \<Longrightarrow> inv s' \<and> content s' = content s"
    and scan_content: "inv s \<Longrightarrow> kv_Scan K ns p s = (Inr kvs, s') \<Longrightarrow> sorted_wrt (<) (map fst kvs)
      \<and> set kvs = {(k, v). content s (loc ns) k = Some v \<and> prefix p k}"
begin

lemma get_after_set:
  assumes "inv s" and "kv_Set K ns k v s = (None, s1)" and "kv_Get K ns k s1 = (Inr x, s2)"
  shows "x = v"
  using get_value [OF set_inv [OF assms(1,2)] assms(3)] set_content [OF assms(1,2)] by simp

end

text \<open>A store on which no call fails: what the results of the aggregators are stated for.\<close>

locale kv_reliable = kv_store +
  assumes get_total: "inv s \<Longrightarrow> fst (kv_Get K ns k s) =
      (case content s (loc ns) k of None \<Rightarrow> Inl ErrNotFound | Some v \<Rightarrow> Inr v)"
    and set_total: "inv s \<Longrightarrow> fst (kv_Set K ns k v s) = None"
    and scan_total: "inv s \<Longrightarrow> \<exists>kvs. fst (kv_Scan K ns p s) = Inr kvs"
begin

lemma Get_eq:
  assumes "inv s"
  obtains s' where "kv_Get K ns k s = (case content s (loc ns) k of None \<Rightarrow> Inl ErrNotFound | Some v \<Rightarrow> Inr v, s')"
    and "inv s'" and "content s' = content s"
  using get_total [OF assms, of ns k] get_inv [OF assms, of ns k] by (metis prod.collapse)

lemma Set_eq:
  assumes "inv s"
  obtains s' where "kv_Set K ns k v s = (None, s')" and "inv s'"
    and "content s' = (content s)(loc ns := (content s (loc ns))(k \<mapsto> v))"
  using set_total [OF assms, of ns k v] set_inv [OF assms, of ns k v] set_content [OF assms, of ns k v]
  by (metis prod.collapse)

lemma Scan_eq:
  assumes "inv s"
  obtains kvs s' where "kv_Scan K ns p s = (Inr kvs, s')" and "inv s'" and "content s' = content s"
    and "sorted_wrt (<) (map fst kvs)" and "set kvs = {(k, v). content s (loc ns) k = Some v \<and> prefix p k}"
proof -
  obtain kvs s' where eq: "kv_Scan K ns p s = (Inr kvs, s')"
    using scan_total [OF assms, of ns p] by (metis prod.collapse)
  show thesis by (rule that [OF eq]) (use scan_inv [OF assms eq] scan_content [OF assms eq] in auto)
qed

end

locale pebble_at = pebble_db +
  fixes d :: string

sublocale pebble_at \<subseteq> kv: kv_store "PebbleStore_kv P" "filepath_Join d" "\<lambda>st. disk (snd st)" "store_inv path_of live d"
proof
  fix st ns k v r st' p kvs e
  assume inv: "store_inv path_of live d st"
  obtain e' b st'' where sc: "PebbleStore_ScanPrefix P ns p (\<lambda>k v acc. (None, acc @ [(k, v)])) [] st = ((e', b), st'')"
    by (metis prod.exhaust)
  show "kv_Get (PebbleStore_kv P) ns k st = (r, st') \<Longrightarrow> store_inv path_of live d st' \<and> disk (snd st') = disk (snd st)"
    using Get_ok(1) [OF inv] by (simp add: PebbleStore_kv_def)
  show "kv_Get (PebbleStore_kv P) ns k st = (Inr v, st') \<Longrightarrow> disk (snd st) (filepath_Join d ns) k = Some v"
    using Get_ok(2) [OF inv] by (simp add: PebbleStore_kv_def)
  show "kv_Get (PebbleStore_kv P) ns k st = (Inl ErrNotFound, st') \<Longrightarrow> disk (snd st) (filepath_Join d ns) k = None"
    using Get_missing [OF inv] by (simp add: PebbleStore_kv_def)
  show "kv_Set (PebbleStore_kv P) ns k v st = (e, st') \<Longrightarrow> store_inv path_of live d st'"
    using Set_ok(1) [OF inv] by (simp add: PebbleStore_kv_def)
  show "kv_Set (PebbleStore_kv P) ns k v st = (None, st') \<Longrightarrow> disk (snd st')
      = (disk (snd st))(filepath_Join d ns := (disk (snd st) (filepath_Join d ns))(k \<mapsto> v))"
    using Set_ok(2) [OF inv] by (simp add: PebbleStore_kv_def)
  show "kv_Scan (PebbleStore_kv P) ns p st = (kvr, st') \<Longrightarrow> store_inv path_of live d st' \<and> disk (snd st') = disk (snd st)" for kvr
    using ScanPrefix_ok(1) [OF inv sc] sc by (auto simp: PebbleStore_kv_def split: option.splits)
  show "kv_Scan (PebbleStore_kv P) ns p st = (Inr kvs, st') \<Longrightarrow> sorted_wrt (<) (map fst kvs)
      \<and> set kvs = {(k, v). disk (snd st) (filepath_Join d ns) k = Some v \<and> prefix p k}"
    using ScanPrefix_ok(2) [OF inv sc] sc
    by (auto simp: PebbleStore_kv_def kv_Scan_collect split: option.splits)
qed

locale pebble_up = pebble_at +
  assumes mkdir_up: "fst (os_MkdirAll P p w) = None"
    and open_up: "\<exists>h. fst (pb_Open P p w) = Inr h"
    and set_up: "live w h \<Longrightarrow> fst (pb_Set P h k v w) = None"
    and get_up: "live w h \<Longrightarrow> pb_Get P h k w = (case disk w (path_of h) k of None \<Rightarrow> Inl ErrNotFound | Some v \<Rightarrow> Inr v)"
    and iter_up: "live w h \<Longrightarrow> \<exists>kvs. pb_NewIter P h lo hi w = Inr kvs"
begin

lemma OpenDB_up: "\<exists>h. fst (PebbleStore_OpenDB P ns st) = Inr h"
proof (cases st)
  case (Pair s w)
  let ?p = "filepath_Join (ps_dir s) ns"
  have "os_MkdirAll P ?p w = (None, snd (os_MkdirAll P ?p w))" using mkdir_up by (metis prod.collapse)
  moreover obtain h where "pb_Open P ?p (snd (os_MkdirAll P ?p w)) = (Inr h, snd (pb_Open P ?p (snd (os_MkdirAll P ?p w))))"
    using open_up by (metis prod.collapse)
  ultimately show ?thesis by (auto simp: Pair Let_def split: option.split prod.split)
qed

lemma OpenDB_up_obtain:
  assumes "store_inv path_of live d st"
  obtains h s w where "PebbleStore_OpenDB P ns st = (Inr h, (s, w))" and "live w h"
    and "path_of h = filepath_Join d ns" and "disk w = disk (snd st)"
proof -
  obtain h s w where o: "PebbleStore_OpenDB P ns st = (Inr h, (s, w))"
    using OpenDB_up [of ns st] by (metis prod.collapse)
  with that OpenDB_ok(2,3) [OF assms o] show thesis by simp
qed

end

sublocale pebble_up \<subseteq> kvr: kv_reliable "PebbleStore_kv P" "filepath_Join d" "\<lambda>st. disk (snd st)" "store_inv path_of live d"
proof
  fix st ns k v p
  assume inv: "store_inv path_of live d st"
  obtain h s w where o: "PebbleStore_OpenDB P ns st = (Inr h, (s, w))" and h: "live w h"
    "path_of h = filepath_Join d ns" "disk w = disk (snd st)"
    by (rule OpenDB_up_obtain [OF inv])
  show "fst (kv_Get (PebbleStore_kv P) ns k st) =
      (case disk (snd st) (filepath_Join d ns) k of None \<Rightarrow> Inl ErrNotFound | Some v \<Rightarrow> Inr v)"
    using get_up [OF h(1)] h(2,3) by (simp add: PebbleStore_kv_def PebbleStore_Get_def o)
  show "fst (kv_Set (PebbleStore_kv P) ns k v st) = None"
    using set_up [OF h(1)] by (simp add: PebbleStore_kv_def PebbleStore_Set_def o Let_def split: prod.split) (metis fst_conv)
  show "\<exists>kvs. fst (kv_Scan (PebbleStore_kv P) ns p st) = Inr kvs"
    using iter_up [OF h(1), of p "prefixUpperBound p"]
    by (auto simp: PebbleStore_kv_def PebbleStore_ScanPrefix_def o kv_Scan_collect)
qed

subsection \<open>The reference Pebble\<close>

definition mem_disk :: "mem_world \<Rightarrow> string \<Rightarrow> bytes \<Rightarrow> bytes option" where
  "mem_disk w p = map_of (w p)"

lemma map_of_filter_key: "map_of (filter (\<lambda>e. Q (fst e)) m) = map_of m |` {k. Q k}"
  by (induction m) (auto simp: restrict_map_def fun_eq_iff)

lemma map_of_filter_neq: "map_of (filter (\<lambda>e. fst e \<noteq> k) m) = (map_of m)(k := None)"
  by (induction m) (auto simp: fun_eq_iff)

lemma mem_disk_upd: "mem_disk (w(h := m)) = (mem_disk w)(h := map_of m)"
  by (simp add: mem_disk_def fun_eq_iff)

lemma mem_iter:
  fixes m :: "(bytes \<times> bytes) list" and Q :: "bytes \<Rightarrow> bool"
  defines "kvs \<equiv> map (\<lambda>k. (k, the (map_of m k))) (sort (remdups (filter Q (map fst m))))"
  shows "sorted_wrt (<) (map fst kvs)" and "set kvs = {(k, v). map_of m k = Some v \<and> Q k}"
proof -
  show "sorted_wrt (<) (map fst kvs)" by (simp add: kvs_def comp_def strict_sorted_iff)
  have "(k, v) \<in> set kvs \<longleftrightarrow> map_of m k \<noteq> None \<and> Q k \<and> v = the (map_of m k)" for k v
    unfolding map_of_eq_None_iff by (auto simp: kvs_def)
  then show "set kvs = {(k, v). map_of m k = Some v \<and> Q k}" by auto
qed

interpretation mem: pebble_up mem_pebble "\<lambda>h. h" mem_disk "\<lambda>w h. True" d for d
proof
  fix w h k v w' lo hi kvs ks
  show "pb_Set mem_pebble h k v w = (None, w') \<Longrightarrow> mem_disk w' = (mem_disk w)(h := (mem_disk w h)(k \<mapsto> v))"
    by (auto simp: mem_pebble_def mem_disk_upd) (simp add: mem_disk_def)
  show "pb_Delete mem_pebble h k w = (None, w') \<Longrightarrow> mem_disk w' = (mem_disk w)(h := (mem_disk w h)(k := None))"
    by (auto simp: mem_pebble_def mem_disk_upd map_of_filter_neq) (simp add: mem_disk_def)
  show "pb_Commit mem_pebble h ks w = (None, w') \<Longrightarrow> mem_disk w' = (mem_disk w)(h := mem_disk w h |` (- set ks))"
    using map_of_filter_key [of "\<lambda>x. x \<notin> set ks" "w h"]
    by (auto simp: mem_pebble_def mem_disk_upd restrict_map_def mem_disk_def [of w h])
  show "pb_NewIter mem_pebble h lo hi w = Inr kvs \<Longrightarrow> sorted_wrt (<) (map fst kvs)
      \<and> set kvs = {(k, v). mem_disk w h k = Some v \<and> in_bounds lo hi k}"
    using mem_iter [of "w h" "in_bounds lo hi"] by (auto simp: mem_pebble_def mem_disk_def)
qed (auto simp: mem_pebble_def mem_disk_def split: option.splits)

subsection \<open>Sequences of operations\<close>

datatype store_op =
    SSet string bytes bytes
  | SGet string bytes
  | SDelete string bytes
  | SDeleteByPrefix string bytes
  | SScan string bytes
  | SClose

fun store_step :: "('w, 'h) pebble_api \<Rightarrow> store_op \<Rightarrow> ('w, 'h) store_state \<Rightarrow> ('w, 'h) store_state" where
  "store_step P (SSet ns k v) st = snd (PebbleStore_Set P ns k v st)"
| "store_step P (SGet ns k) st = snd (PebbleStore_Get P ns k st)"
| "store_step P (SDelete ns k) st = snd (PebbleStore_Delete P ns k st)"
| "store_step P (SDeleteByPrefix ns p) st = snd (PebbleStore_DeleteByPrefix P ns p st)"
| "store_step P (SScan ns p) st = snd (kv_Scan (PebbleStore_kv P) ns p st)"
| "store_step P SClose st = snd (PebbleStore_Close P st)"

definition store_run :: "('w, 'h) pebble_api \<Rightarrow> store_op list \<Rightarrow> ('w, 'h) store_state \<Rightarrow> ('w, 'h) store_state" where
  "store_run P ops st = foldl (\<lambda>st op. store_step P op st) st ops"

context pebble_at
begin

lemma step_inv: "store_inv path_of live d st \<Longrightarrow> store_inv path_of live d (store_step P op st)"
  by (cases op)
    (auto dest: Set_ok(1) Get_ok(1) Delete_ok(1) DeleteByPrefix_ok(1) Close_ok kv.scan_inv
      intro: prod.collapse [symmetric])

lemma run_inv: "store_inv path_of live d st \<Longrightarrow> store_inv path_of live d (store_run P ops st)"
  by (induction ops arbitrary: st) (simp_all add: store_run_def step_inv)

lemma run_new_inv: "store_inv path_of live d (store_run P ops (NewPebbleStore d, w))"
  by (rule run_inv [OF inv_new])

end

subsection \<open>Properties\<close>

text \<open>The iterator bounds that \<open>ScanPrefix\<close> and \<open>DeleteByPrefix\<close> use select exactly the keys with
  the prefix, for every prefix, also one that ends in \<open>0xff\<close> bytes or is empty.\<close>

lemma prefix_bounds_exact: "in_bounds p (prefixUpperBound p) k \<longleftrightarrow> HasPrefix k p"
  by (simp add: in_bounds_prefix HasPrefix_iff)

text \<open>After any sequence of operations on a new store, a successful \<open>Set\<close> is what a later
  successful \<open>Get\<close> of the key returns, whatever other namespaces' databases are opened or
  closed in between; a \<open>Get\<close> of another key still sees the old contents.\<close>

lemma get_after_set_close:
  assumes "pebble_db P path_of disk live"
    and "PebbleStore_Set P ns k v (store_run P ops (NewPebbleStore d, w)) = (None, st1)"
    and "PebbleStore_Close P st1 = (e, st2)"
    and "PebbleStore_Get P ns' k' st2 = (Inr x, st3)"
  shows "if filepath_Join d ns' = filepath_Join d ns \<and> k' = k then x = v
    else disk (snd (store_run P ops (NewPebbleStore d, w))) (filepath_Join d ns') k' = Some x"
proof -
  note loc = assms(1) [folded pebble_at_def]
  note inv0 = pebble_at.run_new_inv [OF loc, of d ops w]
  note s = pebble_db.Set_ok [OF assms(1) inv0 assms(2)]
  note c = pebble_db.Close_ok [OF assms(1) s(1) assms(3)]
  from pebble_db.Get_ok(2) [OF assms(1) conjunct1 [OF c] assms(4)] s(2) conjunct2 [OF c]
  show ?thesis by (auto split: if_splits)
qed

definition chat_store :: "(mem_world, string) store_state" where
  "chat_store = store_run mem_pebble [SSet ''chat'' ''ab'' ''1'', SGet ''user'' ''x'', SClose, SSet ''chat'' ''b'' ''2'']
     (NewPebbleStore ''data'', \<lambda>_. [])"

lemma chat_store_inv: "store_inv (\<lambda>h. h) (\<lambda>w h. True) ''data'' chat_store"
  unfolding chat_store_def by (rule mem.run_new_inv)

lemma pair_snd: "fst x = a \<Longrightarrow> x = (a, snd x)"
  by (simp add: prod_eq_iff)

theorem get_after_set_close_witness:
  "if filepath_Join ''data'' ''chat'' = filepath_Join ''data'' ''chat'' \<and> ''ab'' = ''b'' then ''1'' = ''2''
    else mem_disk (snd (store_run mem_pebble [SSet ''chat'' ''ab'' ''1''] (NewPebbleStore ''data'', \<lambda>_. [])))
      (filepath_Join ''data'' ''chat'') ''ab'' = Some ''1''"
  by (rule get_after_set_close [OF mem.pebble_db_axioms pair_snd pair_snd pair_snd]) (code_simp, rule refl, code_simp)

text \<open>C11: \<open>ScanPrefix\<close> calls its callback on exactly the entries of the namespace with the prefix, in
  ascending key order, until the callback fails; the only other outcome is an error before the
  first call.\<close>

lemma scan_prefix_exact:
  assumes "pebble_db P path_of disk live" and "store_inv path_of live d st"
    and "PebbleStore_ScanPrefix P ns p fn a st = ((e, b), st')"
  shows "(\<exists>err. e = Some err \<and> b = a) \<or> (\<exists>kvs. (e, b) = scan_loop fn kvs a \<and> sorted_wrt (<) (map fst kvs)
      \<and> set kvs = {(k, v). disk (snd st) (filepath_Join d ns) k = Some v \<and> HasPrefix k p})"
  using pebble_db.ScanPrefix_ok(2) [OF assms] by (simp add: HasPrefix_iff)

theorem scan_prefix_exact_witness:
  "(\<exists>err. (None :: db_error option) = Some err \<and> (1 :: nat) = 0) \<or> (\<exists>kvs. (None, 1) = scan_loop (\<lambda>k v n. (None, Suc n)) kvs 0
      \<and> sorted_wrt (<) (map fst kvs)
      \<and> set kvs = {(k, v). mem_disk (snd chat_store) (filepath_Join ''data'' ''chat'') k = Some v \<and> HasPrefix k ''a''})"
  by (rule scan_prefix_exact [OF mem.pebble_db_axioms chat_store_inv pair_snd]) code_simp

text \<open>On an opened namespace a successful \<open>DeleteByPrefix\<close> removes exactly the keys with the
  prefix and leaves every other key and every other database as it was.\<close>

lemma delete_by_prefix_exact:
  assumes "pebble_db P path_of disk live" and "store_inv path_of live d st"
    and "PebbleStore_DeleteByPrefix P ns p st = (None, st')" and "PebbleStore_GetDB ns st \<noteq> None"
  shows "disk (snd st') path k = (if path = filepath_Join d ns \<and> HasPrefix k p then None else disk (snd st) path k)"
  using pebble_db.DeleteByPrefix_ok(2) [OF assms(1,2,3) refl assms(4)]
  by (simp add: HasPrefix_iff restrict_map_def)

theorem delete_by_prefix_exact_witness:
  "mem_disk (snd (snd (PebbleStore_DeleteByPrefix mem_pebble ''chat'' ''a'' chat_store))) ''data/chat'' ''ab''
   = (if ''data/chat'' = filepath_Join ''data'' ''chat'' \<and> HasPrefix ''ab'' ''a'' then None
      else mem_disk (snd chat_store) ''data/chat'' ''ab'')"
  by (rule delete_by_prefix_exact [OF mem.pebble_db_axioms chat_store_inv pair_snd]) code_simp+

text \<open>\<open>Delete\<close> does not open the database: after the store was closed (or in a process that has
  not touched the namespace yet) it reports success and the key is still there.\<close>

lemma delete_unopened_is_lost:
  assumes "pebble_db P path_of disk live"
    and "PebbleStore_Set P ns k v (store_run P ops (NewPebbleStore d, w)) = (None, st1)"
    and "PebbleStore_Close P st1 = (e, st2)"
    and "PebbleStore_Delete P ns k st2 = (e', st3)"
  shows "e' = None \<and> disk (snd st3) (filepath_Join d ns) k = Some v"
proof -
  note loc = assms(1) [folded pebble_at_def]
  note s = pebble_db.Set_ok [OF assms(1) pebble_at.run_new_inv [OF loc, of d ops w] assms(2)]
  note c = pebble_db.Close_ok [OF assms(1) s(1) assms(3)]
  have "ps_dbs (fst st2) = []" using assms(3) by (auto simp: PebbleStore_Close_def Let_def split: prod.splits)
  then have "(e', st3) = (None, st2)" using assms(4) by (simp add: PebbleStore_Delete_def PebbleStore_GetDB_def)
  then show ?thesis using s(2) c by simp
qed

theorem delete_unopened_is_lost_witness:
  "(None :: db_error option) = None \<and> mem_disk
     (snd (snd (PebbleStore_Delete mem_pebble ''chat'' ''k''
       (snd (PebbleStore_Close mem_pebble (snd (PebbleStore_Set mem_pebble ''chat'' ''k'' ''v''
         (store_run mem_pebble [] (NewPebbleStore ''data'', \<lambda>_. []))))))))) (filepath_Join ''data'' ''chat'') ''k'' = Some ''v''"
  by (rule delete_unopened_is_lost [OF mem.pebble_db_axioms pair_snd pair_snd pair_snd]) (code_simp, rule refl, code_simp)

end
