(* ===== verification/Indexer.thy ===== *)
theory Indexer
  imports Aggregators Storage Presence
begin

text \<open>
  The indexing engine, \<open>internal/indexer/engine.go\<close>: block scanning with a persisted height per chain, and
  mempool polling with duplicate suppression.

  The state \<open>'s\<close> is what the key-value store \<open>K\<close> (\<open>kv_api\<close>) and the registered aggregators work on. A chain
  adapter is a record of what its node answers; raw transactions have any type \<open>'tx\<close>. Heights are \<open>int64\<close>;
  a scan to the largest \<open>int64\<close> height is out of scope. The goroutines repeat the functions below.
\<close>

record 'tx chain_adapter =
  ca_BestHeight :: int
  ca_CatchPins :: "int \<Rightarrow> string + (PinInscription list \<times> string list)"
  ca_MempoolTransactionList :: "string + 'tx list"
  ca_CatchMempoolPins :: "'tx list \<Rightarrow> string + (PinInscription option list \<times> string list)"

record Engine =
  en_chains :: "(string, int) gomap"
  en_mempoolPollingEnabled :: bool
  en_mempoolPollInterval :: int
  en_mempoolDedupeTTL :: int
  en_mempoolSeen :: "(string, int) gomap"

text \<open>\<open>en_chains\<close> maps a chain name to the last processed height of its entry.\<close>

definition NewEngine :: Engine where
  "NewEngine = \<lparr>en_chains = [], en_mempoolPollingEnabled = True, en_mempoolPollInterval = 10 * 1000000000,
     en_mempoolDedupeTTL = 30 * 60 * 1000000000, en_mempoolSeen = []\<rparr>"

definition ConfigureMempoolPolling :: "bool \<Rightarrow> int \<Rightarrow> int \<Rightarrow> Engine \<Rightarrow> Engine" where
  "ConfigureMempoolPolling enabled pollInterval dedupeTTL e =
     e\<lparr>en_mempoolPollingEnabled := enabled,
       en_mempoolPollInterval := (if 0 < pollInterval then pollInterval else en_mempoolPollInterval e),
       en_mempoolDedupeTTL := (if 0 < dedupeTTL then dedupeTTL else en_mempoolDedupeTTL e)\<rparr>"

text \<open>\<open>initErr\<close> is the first error of the two \<open>Init\<close> calls.\<close>

definition RegisterChain :: "string option \<Rightarrow> string \<Rightarrow> int \<Rightarrow> Engine \<Rightarrow> string option \<times> Engine" where
  "RegisterChain initErr name startHeight e =
     (case initErr of Some err \<Rightarrow> (Some err, e) | None \<Rightarrow> (None, e\<lparr>en_chains := gm_set (en_chains e) name startHeight\<rparr>))"

subsection \<open>Persisted heights\<close>

definition height_key :: "string \<Rightarrow> bytes" where
  "height_key chainName = chainName @ ''_lastheight''"

definition persistHeight :: "'s kv_api \<Rightarrow> string \<Rightarrow> int \<Rightarrow> 's \<Rightarrow> 's" where
  "persistHeight K chainName height s = snd (kv_Set K ''indexer_meta'' (height_key chainName) (Itoa height) s)"

definition restore_one :: "'s kv_api \<Rightarrow> string \<times> int \<Rightarrow> 's \<Rightarrow> (string \<times> int) \<times> 's" where
  "restore_one K entry s =
     (case kv_Get K ''indexer_meta'' (height_key (fst entry)) s of
        (Inl e, s1) \<Rightarrow> (entry, s1)
      | (Inr raw, s1) \<Rightarrow> (let height = Sscanf_d raw in (if 0 < height then (fst entry, height) else entry, s1)))"

fun restore_all :: "'s kv_api \<Rightarrow> (string, int) gomap \<Rightarrow> 's \<Rightarrow> (string, int) gomap \<times> 's" where
  "restore_all K [] s = ([], s)"
| "restore_all K (entry # m) s =
     (let (entry', s1) = restore_one K entry s; (m', s2) = restore_all K m s1 in (entry' # m', s2))"

definition restoreHeights :: "'s kv_api \<Rightarrow> Engine \<times> 's \<Rightarrow> Engine \<times> 's" where
  "restoreHeights K es = (let (m, s1) = restore_all K (en_chains (fst es)) (snd es) in ((fst es)\<lparr>en_chains := m\<rparr>, s1))"

subsection \<open>Scanning blocks\<close>

definition route_pins :: "('s, 'p) Registry \<Rightarrow> PinInscription list \<Rightarrow> 's \<Rightarrow> 's" where
  "route_pins r pins s = foldl (\<lambda>s p. snd (Registry_RouteBlockPin r p s)) s pins"

text \<open>The loop over the heights; \<open>processTransfers\<close> does nothing in this version of the code.\<close>

fun scan_blocks ::
    "'s kv_api \<Rightarrow> ('s, 'p) Registry \<Rightarrow> (int \<Rightarrow> string + (PinInscription list \<times> string list)) \<Rightarrow> string \<Rightarrow> int list \<Rightarrow> int \<times> 's \<Rightarrow> int \<times> 's" where
  "scan_blocks K r catch chainName [] st = st"
| "scan_blocks K r catch chainName (h # hs) (lst, s) =
     (case catch h of
        Inl e \<Rightarrow> scan_blocks K r catch chainName hs (lst, s)
      | Inr (pins, txIDs) \<Rightarrow>
          (if pins = [] then scan_blocks K r catch chainName hs (h, persistHeight K chainName h s)
           else scan_blocks K r catch chainName hs (h, persistHeight K chainName h (route_pins r pins s))))"

definition scanRange ::
    "'s kv_api \<Rightarrow> ('s, 'p) Registry \<Rightarrow> 'tx chain_adapter \<Rightarrow> string \<Rightarrow> int \<Rightarrow> int \<Rightarrow> int \<times> 's \<Rightarrow> int \<times> 's" where
  "scanRange K r ad chainName fromHeight toHeight st = scan_blocks K r (ca_CatchPins ad) chainName [fromHeight..toHeight] st"

definition catch_up_chain :: "'s kv_api \<Rightarrow> ('s, 'p) Registry \<Rightarrow> 'tx chain_adapter \<Rightarrow> string \<Rightarrow> int \<times> 's \<Rightarrow> int \<times> 's" where
  "catch_up_chain K r ad chainName st =
     (if ca_BestHeight ad \<le> 0 then st
      else scanRange K r ad chainName (if fst st + 1 \<le> 0 then 1 else fst st + 1) (ca_BestHeight ad) st)"

definition scan_new_chain :: "'s kv_api \<Rightarrow> ('s, 'p) Registry \<Rightarrow> 'tx chain_adapter \<Rightarrow> string \<Rightarrow> int \<times> 's \<Rightarrow> int \<times> 's" where
  "scan_new_chain K r ad chainName st =
     (if fst st < ca_BestHeight ad then scanRange K r ad chainName (fst st + 1) (ca_BestHeight ad) st else st)"

fun each_chain :: "(string \<Rightarrow> int \<times> 's \<Rightarrow> int \<times> 's) \<Rightarrow> (string, int) gomap \<Rightarrow> 's \<Rightarrow> (string, int) gomap \<times> 's" where
  "each_chain f [] s = ([], s)"
| "each_chain f ((name, lst) # m) s =
     (let (lst', s1) = f name (lst, s); (m', s2) = each_chain f m s1 in ((name, lst') # m', s2))"

definition catchUpAll :: "'s kv_api \<Rightarrow> ('s, 'p) Registry \<Rightarrow> (string \<Rightarrow> 'tx chain_adapter) \<Rightarrow> Engine \<times> 's \<Rightarrow> Engine \<times> 's" where
  "catchUpAll K r ads es =
     (let (m, s1) = each_chain (\<lambda>name. catch_up_chain K r (ads name) name) (en_chains (fst es)) (snd es)
      in ((fst es)\<lparr>en_chains := m\<rparr>, s1))"

definition scanNewBlocks :: "'s kv_api \<Rightarrow> ('s, 'p) Registry \<Rightarrow> (string \<Rightarrow> 'tx chain_adapter) \<Rightarrow> Engine \<times> 's \<Rightarrow> Engine \<times> 's" where
  "scanNewBlocks K r ads es =
     (let (m, s1) = each_chain (\<lambda>name. scan_new_chain K r (ads name) name) (en_chains (fst es)) (snd es)
      in ((fst es)\<lparr>en_chains := m\<rparr>, s1))"

subsection \<open>Mempool\<close>

definition mempoolTxIDFromPinID :: "string \<Rightarrow> string" where
  "mempoolTxIDFromPinID pinID =
     (if pinID = '''' then ''''
      else case Index pinID '':'' of
        Some (Suc n) \<Rightarrow> TrimSpace (take (Suc n) pinID)
      | _ \<Rightarrow>
          (case LastIndex pinID ''i'' of
             None \<Rightarrow> ''''
           | Some suffixStart \<Rightarrow>
               (if suffixStart = 0 \<or> suffixStart = length pinID - 1 then ''''
                else if \<not> list_all is_digit (drop (suffixStart + 1) pinID) then ''''
                else TrimSpace (take suffixStart pinID))))"

fun match_txid :: "string \<Rightarrow> string list \<Rightarrow> string" where
  "match_txid pinID [] = pinID"
| "match_txid pinID (t # ts) =
     (let txID = TrimSpace t
      in if txID \<noteq> '''' \<and> (pinID = txID \<or> HasPrefix pinID (txID @ ''i'') \<or> HasPrefix pinID (txID @ '':'')) then txID
         else match_txid pinID ts)"

definition mempoolStableIDForPin :: "PinInscription \<Rightarrow> string list \<Rightarrow> string" where
  "mempoolStableIDForPin pin txIDs =
     (let genesisTx = TrimSpace (pi_GenesisTransaction pin); pinID = TrimSpace (pi_Id pin)
      in if genesisTx \<noteq> '''' then genesisTx
         else if mempoolTxIDFromPinID pinID \<noteq> '''' then mempoolTxIDFromPinID pinID
         else match_txid pinID txIDs)"

fun filter_pins ::
    "int \<Rightarrow> (string, int) gomap \<Rightarrow> string \<Rightarrow> string list \<Rightarrow> int \<Rightarrow> PinInscription option list \<Rightarrow> string list \<Rightarrow> PinInscription list \<times> string list" where
  "filter_pins ttl seen chainName txIDs now [] newKeys = ([], newKeys)"
| "filter_pins ttl seen chainName txIDs now (None # pins) newKeys = filter_pins ttl seen chainName txIDs now pins newKeys"
| "filter_pins ttl seen chainName txIDs now (Some pin # pins) newKeys =
     (let stableID = mempoolStableIDForPin pin txIDs; key = chainName @ '':'' @ stableID
      in if stableID = '''' then
           (let (filtered, ks) = filter_pins ttl seen chainName txIDs now pins newKeys in (pin # filtered, ks))
         else if (case gm_get seen key of None \<Rightarrow> False | Some seenAt \<Rightarrow> ttl \<le> 0 \<or> time_Sub now seenAt \<le> ttl)
           then filter_pins ttl seen chainName txIDs now pins newKeys
         else if key \<in> set newKeys then filter_pins ttl seen chainName txIDs now pins newKeys
         else (let (filtered, ks) = filter_pins ttl seen chainName txIDs now pins (newKeys @ [key]) in (pin # filtered, ks)))"

definition filterSeenMempoolPins ::
    "string \<Rightarrow> PinInscription option list \<Rightarrow> string list \<Rightarrow> int \<Rightarrow> Engine \<Rightarrow> PinInscription list \<times> Engine" where
  "filterSeenMempoolPins chainName pins txIDs now e =
     (let ttl = en_mempoolDedupeTTL e;
          seen = filter (\<lambda>(key, seenAt). \<not> (0 < ttl \<and> ttl < time_Sub now seenAt)) (en_mempoolSeen e);
          (filtered, newKeys) = filter_pins ttl seen chainName txIDs now pins []
      in (filtered, e\<lparr>en_mempoolSeen := foldl (\<lambda>m key. gm_set m key now) seen newKeys\<rparr>))"

definition poll_chain :: "('s, 'p) Registry \<Rightarrow> 'tx chain_adapter \<Rightarrow> string \<Rightarrow> int \<Rightarrow> Engine \<times> 's \<Rightarrow> Engine \<times> 's" where
  "poll_chain r ad chainName now es =
     (case ca_MempoolTransactionList ad of
        Inl err \<Rightarrow> es
      | Inr txList \<Rightarrow>
          (if txList = [] then es
           else case ca_CatchMempoolPins ad txList of
             Inl err \<Rightarrow> es
           | Inr (pins, txIDs) \<Rightarrow>
               (let (filtered, e1) = filterSeenMempoolPins chainName pins txIDs now (fst es)
                in (e1, foldl (\<lambda>s pin. snd (Registry_RouteMempoolPin r pin s)) (snd es) filtered))))"

definition pollMempoolOnce :: "('s, 'p) Registry \<Rightarrow> (string \<Rightarrow> 'tx chain_adapter) \<Rightarrow> int \<Rightarrow> Engine \<times> 's \<Rightarrow> Engine \<times> 's" where
  "pollMempoolOnce r ads now es = foldl (\<lambda>es name. poll_chain r (ads name) name now es) es (gm_keys (en_chains (fst es)))"

subsection \<open>What a scan does\<close>

definition block_ok :: "(int \<Rightarrow> string + (PinInscription list \<times> string list)) \<Rightarrow> int \<Rightarrow> bool" where
  "block_ok catch h \<longleftrightarrow> (case catch h of Inl e \<Rightarrow> False | Inr x \<Rightarrow> True)"

definition block_pins :: "(int \<Rightarrow> string + (PinInscription list \<times> string list)) \<Rightarrow> int \<Rightarrow> PinInscription list" where
  "block_pins catch h = (case catch h of Inl e \<Rightarrow> [] | Inr x \<Rightarrow> fst x)"

definition block_effect ::
    "'s kv_api \<Rightarrow> ('s, 'p) Registry \<Rightarrow> (int \<Rightarrow> string + (PinInscription list \<times> string list)) \<Rightarrow> string \<Rightarrow> int \<Rightarrow> 's \<Rightarrow> 's" where
  "block_effect K r catch chainName h s = persistHeight K chainName h (route_pins r (block_pins catch h) s)"

lemma scan_blocks_eq:
  "scan_blocks K r catch chainName hs (lst, s)
     = (if filter (block_ok catch) hs = [] then lst else last (filter (block_ok catch) hs),
        fold (block_effect K r catch chainName) (filter (block_ok catch) hs) s)"
proof (induction hs arbitrary: lst s)
  case (Cons h hs)
  show ?case
  proof (cases "catch h")
    case (Inl e)
    then have "\<not> block_ok catch h" by (simp add: block_ok_def)
    then show ?thesis using Inl Cons.IH by simp
  next
    case (Inr x)
    then have "block_ok catch h" "block_pins catch h = fst x" by (simp_all add: block_ok_def block_pins_def)
    then show ?thesis using Inr Cons.IH by (cases x) (simp add: block_effect_def route_pins_def)
  qed
qed simp

lemma scan_blocks_cong:
  assumes "\<And>h. h \<in> set hs \<Longrightarrow> catch h = catch' h"
  shows "scan_blocks K r catch chainName hs st = scan_blocks K r catch' chainName hs st"
  using assms
proof (induction hs arbitrary: st)
  case (Cons h hs)
  have ih: "scan_blocks K r catch chainName hs st = scan_blocks K r catch' chainName hs st" for st
    using Cons by simp
  show ?case using Cons.prems [of h] by (cases st) (simp add: ih split: sum.split prod.split)
qed simp

lemma scan_last_ge:
  assumes "sorted hs" and "\<forall>h \<in> set hs. lst \<le> h"
  shows "lst \<le> fst (scan_blocks K r catch chainName hs (lst, s))"
    and "h \<in> set hs \<Longrightarrow> block_ok catch h \<Longrightarrow> h \<le> fst (scan_blocks K r catch chainName hs (lst, s))"
proof -
  have "sorted (filter (block_ok catch) hs)" using assms(1) by (rule sorted_wrt_filter)
  note mx = sorted_le_last [OF this]
  show "lst \<le> fst (scan_blocks K r catch chainName hs (lst, s))"
    using assms(2) last_in_set [of "filter (block_ok catch) hs"] by (simp add: scan_blocks_eq filter_empty_conv)
  show "h \<le> fst (scan_blocks K r catch chainName hs (lst, s))" if "h \<in> set hs" "block_ok catch h"
    using mx [of h] that by (auto simp: scan_blocks_eq filter_empty_conv)
qed

lemma scan_new_mono: "fst st \<le> fst (scan_new_chain K r ad chainName st)"
proof (cases st)
  case (Pair lst s)
  show ?thesis unfolding Pair scan_new_chain_def scanRange_def
    using scan_last_ge(1) [of "[lst + 1..ca_BestHeight ad]" lst K r "ca_CatchPins ad" chainName s] by simp
qed

lemma scan_rounds_mono: "fst st \<le> fst (foldl (\<lambda>st ad. scan_new_chain K r ad chainName st) st ads)"
proof (induction ads arbitrary: st)
  case (Cons ad ads)
  show ?case using order_trans [OF scan_new_mono [of st K r ad chainName] Cons.IH] by simp
qed simp

text \<open>A round never looks at a block at or below the recorded height.\<close>

lemma scan_new_ignores:
  assumes "h \<le> fst st"
  shows "scan_new_chain K r (ad\<lparr>ca_CatchPins := (ca_CatchPins ad)(h := x)\<rparr>) chainName st = scan_new_chain K r ad chainName st"
proof -
  have "scan_blocks K r ((ca_CatchPins ad)(h := x)) chainName [fst st + 1..ca_BestHeight ad] st
      = scan_blocks K r (ca_CatchPins ad) chainName [fst st + 1..ca_BestHeight ad] st"
    using assms by (intro scan_blocks_cong) auto
  then show ?thesis by (simp add: scan_new_chain_def scanRange_def)
qed

lemma scan_rounds_ignore:
  assumes "h \<le> fst st"
  shows "foldl (\<lambda>st ad. scan_new_chain K r ad chainName st) st (map (\<lambda>ad. ad\<lparr>ca_CatchPins := (ca_CatchPins ad)(h := x ad)\<rparr>) ads)
    = foldl (\<lambda>st ad. scan_new_chain K r ad chainName st) st ads"
  using assms
proof (induction ads arbitrary: st)
  case (Cons ad ads)
  then have "h \<le> fst (scan_new_chain K r ad chainName st)" using scan_new_mono [of st K r ad chainName] by simp
  from Cons.IH [OF this] scan_new_ignores [OF Cons.prems, of K r ad "x ad" chainName] show ?case
    by (simp only: list.map foldl_Cons)
qed simp

subsection \<open>Restarting\<close>

context kv_reliable
begin

lemma persist_content:
  assumes "inv s"
  shows "inv (persistHeight K chainName h s)"
    and "content (persistHeight K chainName h s) (loc ''indexer_meta'') (height_key chainName) = Some (Itoa h)"
proof -
  obtain s' where "kv_Set K ''indexer_meta'' (height_key chainName) (Itoa h) s = (None, s')" "inv s'"
    "content s' = (content s)(loc ''indexer_meta'' := (content s (loc ''indexer_meta''))(height_key chainName \<mapsto> Itoa h))"
    by (rule Set_eq [OF assms])
  then show "inv (persistHeight K chainName h s)"
    "content (persistHeight K chainName h s) (loc ''indexer_meta'') (height_key chainName) = Some (Itoa h)"
    by (simp_all add: persistHeight_def)
qed

lemma scan_persists:
  assumes "\<And>s pins. inv s \<Longrightarrow> inv (route_pins r pins s)" and "inv s" and "hs \<noteq> []"
  shows "inv (fold (block_effect K r catch chainName) hs s)
    \<and> content (fold (block_effect K r catch chainName) hs s) (loc ''indexer_meta'') (height_key chainName) = Some (Itoa (last hs))"
  using assms(2,3)
proof (induction hs arbitrary: s)
  case (Cons h hs)
  have e: "inv (block_effect K r catch chainName h s)"
    "content (block_effect K r catch chainName h s) (loc ''indexer_meta'') (height_key chainName) = Some (Itoa h)"
    unfolding block_effect_def by (rule persist_content [OF assms(1) [OF Cons.prems(1)]])+
  then show ?case using Cons.IH [OF e(1)] by (cases "hs = []") simp_all
qed simp

lemma restore_persisted:
  assumes "inv s" and "content s (loc ''indexer_meta'') (height_key chainName) = Some (Itoa h)" and "0 < h" and "h < 2 ^ 63"
  shows "fst (restore_one K (chainName, h0) s) = (chainName, h)"
proof -
  obtain s' where "kv_Get K ''indexer_meta'' (height_key chainName) s = (Inr (Itoa h), s')"
    by (rule Get_eq [OF assms(1), of "''indexer_meta''" "height_key chainName"]) (simp add: assms(2))
  moreover have "Sscanf_d (Itoa h) = h" using assms(3,4) by (simp add: Sscanf_Itoa int64_ok_def)
  ultimately show ?thesis using assms(3) by (simp add: restore_one_def)
qed

lemma restart_height:
  assumes "\<And>s pins. inv s \<Longrightarrow> inv (route_pins r pins s)" and "inv s"
    and "scanRange K r ad chainName a b (lst, s) = (lst', s')" and "\<exists>h \<in> {a..b}. block_ok (ca_CatchPins ad) h" and "0 < a" "b < 2 ^ 63"
  shows "fst (restore_one K (chainName, h0) s') = (chainName, lst')"
proof -
  let ?hs = "filter (block_ok (ca_CatchPins ad)) [a..b]"
  have ne: "?hs \<noteq> []" using assms(4) by (auto simp: filter_empty_conv)
  then have "last ?hs \<in> set ?hs" by (rule last_in_set)
  then have rng: "0 < last ?hs" "last ?hs < 2 ^ 63" using assms(5,6) by auto
  have l: "lst' = last ?hs" "s' = fold (block_effect K r (ca_CatchPins ad) chainName) ?hs s"
    using assms(3) ne by (simp_all add: scanRange_def scan_blocks_eq)
  show ?thesis
    using scan_persists [OF assms(1,2) ne, of "ca_CatchPins ad" chainName] restore_persisted rng unfolding l by blast
qed

end

subsection \<open>Duplicate suppression\<close>

definition pin_key :: "string \<Rightarrow> string list \<Rightarrow> PinInscription \<Rightarrow> string" where
  "pin_key chainName txIDs pin = chainName @ '':'' @ mempoolStableIDForPin pin txIDs"

text \<open>An entry of the seen map that still suppresses its key.\<close>

definition suppressed :: "int \<Rightarrow> int \<Rightarrow> (string, int) gomap \<Rightarrow> string \<Rightarrow> bool" where
  "suppressed ttl now seen key \<longleftrightarrow> (case gm_get seen key of None \<Rightarrow> False | Some seenAt \<Rightarrow> ttl \<le> 0 \<or> time_Sub now seenAt \<le> ttl)"

lemma filter_pins_step:
  "filter_pins ttl seen c txIDs now (Some pin # pins) ks =
     (if mempoolStableIDForPin pin txIDs = '''' then apfst ((#) pin) (filter_pins ttl seen c txIDs now pins ks)
      else if suppressed ttl now seen (pin_key c txIDs pin) \<or> pin_key c txIDs pin \<in> set ks then filter_pins ttl seen c txIDs now pins ks
      else apfst ((#) pin) (filter_pins ttl seen c txIDs now pins (ks @ [pin_key c txIDs pin])))"
  by (simp add: Let_def pin_key_def suppressed_def apfst_def map_prod_def split_def)

lemma filter_pins_keys:
  assumes "filter_pins ttl seen c txIDs now pins ks = (f, ks')"
  shows "set ks' = set ks \<union> pin_key c txIDs ` {p \<in> set f. mempoolStableIDForPin p txIDs \<noteq> ''''}
    \<and> (\<forall>p \<in> set f. mempoolStableIDForPin p txIDs \<noteq> '''' \<longrightarrow> \<not> suppressed ttl now seen (pin_key c txIDs p) \<and> pin_key c txIDs p \<notin> set ks)
    \<and> distinct (map (pin_key c txIDs) (filter (\<lambda>p. mempoolStableIDForPin p txIDs \<noteq> '''') f))"
  using assms
proof (induction pins arbitrary: ks f ks')
  case (Cons q pins)
  show ?case
  proof (cases q)
    case None
    then show ?thesis using Cons by simp
  next
    case (Some pin)
    consider "mempoolStableIDForPin pin txIDs = ''''"
      | "mempoolStableIDForPin pin txIDs \<noteq> ''''" "suppressed ttl now seen (pin_key c txIDs pin) \<or> pin_key c txIDs pin \<in> set ks"
      | "mempoolStableIDForPin pin txIDs \<noteq> ''''" "\<not> suppressed ttl now seen (pin_key c txIDs pin)" "pin_key c txIDs pin \<notin> set ks"
      by blast
    then show ?thesis
    proof cases
      case 1
      then obtain g where "filter_pins ttl seen c txIDs now pins ks = (g, ks')" "f = pin # g"
        using Cons.prems unfolding Some filter_pins_step by (auto simp: apfst_def map_prod_def split: prod.splits)
      then show ?thesis using Cons.IH 1 by auto
    next
      case 2
      then have "filter_pins ttl seen c txIDs now pins ks = (f, ks')" using Cons.prems unfolding Some filter_pins_step by auto
      then show ?thesis by (rule Cons.IH)
    next
      case 3
      then obtain g where g: "filter_pins ttl seen c txIDs now pins (ks @ [pin_key c txIDs pin]) = (g, ks')" "f = pin # g"
        using Cons.prems unfolding Some filter_pins_step by (auto simp: apfst_def map_prod_def split: prod.splits)
      from Cons.IH [OF g(1)] show ?thesis using 3 g(2) by auto
    qed
  qed
qed simp

lemma gm_get_filter: "gm_ok m \<Longrightarrow> gm_get (filter P m) k = (case gm_get m k of None \<Rightarrow> None | Some v \<Rightarrow> if P (k, v) then Some v else None)"
  by (induction m) (auto simp: gm_get_def gm_ok_def split: option.splits dest: map_of_SomeD, force dest: map_of_SomeD)

lemma gm_get_set_all: "gm_get (foldl (\<lambda>m key. gm_set m key v) m ks) k = (if k \<in> set ks then Some v else gm_get m k)"
  by (induction ks arbitrary: m) auto

lemma gm_ok_set_all: "gm_ok m \<Longrightarrow> gm_ok (foldl (\<lambda>m key. gm_set m key v) m ks)"
  by (induction ks arbitrary: m) auto

lemma gm_ok_filter: "gm_ok m \<Longrightarrow> gm_ok (filter P m)"
  by (simp add: gm_ok_def distinct_map_filter)

text \<open>One poll: what it lets through becomes seen; what was seen recently stays seen and is held back.\<close>

lemma filterSeen_effect:
  assumes "filterSeenMempoolPins c pins txIDs now e = (f, e')" and "gm_ok (en_mempoolSeen e)"
  shows "gm_ok (en_mempoolSeen e')" and "en_mempoolDedupeTTL e' = en_mempoolDedupeTTL e"
    and "p \<in> set f \<Longrightarrow> mempoolStableIDForPin p txIDs \<noteq> '''' \<Longrightarrow> gm_get (en_mempoolSeen e') (pin_key c txIDs p) = Some now"
    and "gm_get (en_mempoolSeen e) k = Some t \<Longrightarrow> en_mempoolDedupeTTL e \<le> 0 \<or> time_Sub now t \<le> en_mempoolDedupeTTL e
      \<Longrightarrow> gm_get (en_mempoolSeen e') k = Some t \<and> (\<forall>p \<in> set f. mempoolStableIDForPin p txIDs \<noteq> '''' \<longrightarrow> pin_key c txIDs p \<noteq> k)"
    and "distinct (map (pin_key c txIDs) (filter (\<lambda>p. mempoolStableIDForPin p txIDs \<noteq> '''') f))"
proof -
  let ?ttl = "en_mempoolDedupeTTL e"
  define seen where "seen = filter (\<lambda>(key, seenAt). \<not> (0 < ?ttl \<and> ?ttl < time_Sub now seenAt)) (en_mempoolSeen e)"
  obtain ks where ks: "filter_pins ?ttl seen c txIDs now pins [] = (f, ks)" and e': "e' = e\<lparr>en_mempoolSeen := foldl (\<lambda>m key. gm_set m key now) seen ks\<rparr>"
    using assms(1) unfolding filterSeenMempoolPins_def Let_def seen_def [symmetric] by (auto split: prod.splits)
  note fk = filter_pins_keys [OF ks]
  have okf: "gm_ok seen" using assms(2) by (simp add: seen_def gm_ok_filter)
  show "gm_ok (en_mempoolSeen e')" using okf by (simp add: e' gm_ok_set_all)
  show "en_mempoolDedupeTTL e' = ?ttl" by (simp add: e')
  show "gm_get (en_mempoolSeen e') (pin_key c txIDs p) = Some now" if "p \<in> set f" "mempoolStableIDForPin p txIDs \<noteq> ''''"
    using fk that by (auto simp: e' gm_get_set_all)
  show "distinct (map (pin_key c txIDs) (filter (\<lambda>p. mempoolStableIDForPin p txIDs \<noteq> '''') f))" using fk by blast
  assume t: "gm_get (en_mempoolSeen e) k = Some t" "?ttl \<le> 0 \<or> time_Sub now t \<le> ?ttl"
  then have sk: "gm_get seen k = Some t" using assms(2) by (auto simp: seen_def gm_get_filter)
  then have sup: "suppressed ?ttl now seen k" using t(2) by (simp add: suppressed_def)
  then have no: "\<forall>p \<in> set f. mempoolStableIDForPin p txIDs \<noteq> '''' \<longrightarrow> pin_key c txIDs p \<noteq> k" using fk by metis
  then have "k \<notin> set ks" using fk by auto
  then show "gm_get (en_mempoolSeen e') k = Some t \<and> (\<forall>p \<in> set f. mempoolStableIDForPin p txIDs \<noteq> '''' \<longrightarrow> pin_key c txIDs p \<noteq> k)"
    using sk no by (simp add: e' gm_get_set_all)
qed

text \<open>The keys that a sequence of polls lets through.\<close>

record mempool_poll =
  po_chain :: string
  po_pins :: "PinInscription option list"
  po_txIDs :: "string list"
  po_now :: int

fun polled_keys :: "mempool_poll list \<Rightarrow> Engine \<Rightarrow> string list" where
  "polled_keys [] e = []"
| "polled_keys (q # qs) e =
     (let (f, e1) = filterSeenMempoolPins (po_chain q) (po_pins q) (po_txIDs q) (po_now q) e
      in map (pin_key (po_chain q) (po_txIDs q)) (filter (\<lambda>p. mempoolStableIDForPin p (po_txIDs q) \<noteq> '''') f) @ polled_keys qs e1)"

lemma polled_not_again:
  assumes "gm_ok (en_mempoolSeen e)" and "gm_get (en_mempoolSeen e) k = Some t"
    and "\<forall>q \<in> set qs. en_mempoolDedupeTTL e \<le> 0 \<or> time_Sub (po_now q) t \<le> en_mempoolDedupeTTL e"
  shows "k \<notin> set (polled_keys qs e)"
  using assms
proof (induction qs arbitrary: e)
  case (Cons q qs)
  obtain f e1 where f: "filterSeenMempoolPins (po_chain q) (po_pins q) (po_txIDs q) (po_now q) e = (f, e1)" by force
  note ef = filterSeen_effect [OF f Cons.prems(1)]
  have k: "gm_get (en_mempoolSeen e1) k = Some t" "\<forall>p \<in> set f. mempoolStableIDForPin p (po_txIDs q) \<noteq> '''' \<longrightarrow> pin_key (po_chain q) (po_txIDs q) p \<noteq> k"
    using ef(4) [OF Cons.prems(2)] Cons.prems(3) by auto
  have "k \<notin> set (polled_keys qs e1)" using Cons.IH [OF ef(1) k(1)] Cons.prems(3) ef(2) by simp
  then show ?case using k(2) by (auto simp: f)
qed simp

subsection \<open>Concrete runs\<close>

definition demo_pin :: "string \<Rightarrow> string \<Rightarrow> PinInscription" where
  "demo_pin i genesis =
     \<lparr>pi_Id = i, pi_Number = 0, pi_Path = [], pi_OriginalPath = [], pi_Operation = ''create'', pi_ContentBody = [], pi_ContentSummary = [],
      pi_ContentType = [], pi_Creator = [], pi_CreateAddress = [], pi_CreateMetaId = [], pi_MetaId = [], pi_GlobalMetaId = [], pi_Address = [],
      pi_ChainName = ''mvc'', pi_GenesisTransaction = genesis, pi_GenesisHeight = 0, pi_Timestamp = 0, pi_Output = [], pi_IsTransfered = False,
      pi_OriginalId = [], pi_Host = []\<rparr>"

text \<open>A chain of three blocks whose second block cannot be read.\<close>

definition demo_chain :: "unit chain_adapter" where
  "demo_chain = \<lparr>ca_BestHeight = 3, ca_CatchPins = (\<lambda>h. if h = 2 then Inl ''rpc error'' else Inr ([demo_pin ''ti0'' ''t''], [])),
     ca_MempoolTransactionList = Inr [], ca_CatchMempoolPins = (\<lambda>txs. Inr ([], []))\<rparr>"

definition demo_kv :: "(mem_world, string) store_state kv_api" where
  "demo_kv = PebbleStore_kv mem_pebble"

lemma demo_kv_reliable: "kv_reliable demo_kv (filepath_Join d) (\<lambda>st. mem_disk (snd st)) (store_inv (\<lambda>h. h) (\<lambda>w h. True) d)"
  unfolding demo_kv_def by (rule mem.kvr.kv_reliable_axioms)

lemma demo_scan_last: "fst (scanRange demo_kv ([] :: ((mem_world, string) store_state, unit) Registry) demo_chain ''mvc'' 1 3 (0, s)) = 3"
  by (simp add: scanRange_def scan_blocks_eq upto.simps demo_chain_def block_ok_def)

subsection \<open>Properties\<close>


text \<open>A block whose pins cannot be read is lost when a later block of the same scan can be read: the recorded height moves
  past it, and no later scanning round depends on what the block would have given.\<close>

lemma failed_block_skipped:
  assumes "ca_CatchPins ad h = Inl e" and "ca_CatchPins ad h' = Inr x" and "lst < fromHeight" and "fromHeight \<le> h" "h < h'" "h' \<le> toHeight"
    and "scanRange K r ad chainName fromHeight toHeight (lst, s) = st"
  shows "h < fst st \<and> foldl (\<lambda>st ad. scan_new_chain K r ad chainName st) st (map (\<lambda>ad. ad\<lparr>ca_CatchPins := (ca_CatchPins ad)(h := late ad)\<rparr>) ads)
    = foldl (\<lambda>st ad. scan_new_chain K r ad chainName st) st ads"
proof -
  have "h' \<le> fst (scan_blocks K r (ca_CatchPins ad) chainName [fromHeight..toHeight] (lst, s))"
    using assms(2-6) by (intro scan_last_ge(2)) (auto simp: block_ok_def)
  then have "h < fst st" using assms(5,7) by (simp add: scanRange_def)
  then show ?thesis by (intro conjI scan_rounds_ignore) simp_all
qed

theorem failed_block_skipped_witness:
  "2 < fst (scanRange demo_kv ([] :: ((mem_world, string) store_state, unit) Registry) demo_chain ''mvc'' 1 3 (0, (NewPebbleStore ''data'', \<lambda>p. [])))"
  by (rule conjunct1 [OF failed_block_skipped [of demo_chain 2 "''rpc error''" 3 "([demo_pin ''ti0'' ''t''], [])" 0 1 3 _ _ _ _ _ undefined "[]"]])
    (simp_all add: demo_chain_def)

text \<open>C9: restarting resumes where the scan ended: with a store that keeps what it is given, the height restored for the chain is
  the height the scan recorded, whatever start height is configured.\<close>

lemma restart_resumes:
  assumes "kv_reliable K loc content ok" and "\<And>s pins. ok s \<Longrightarrow> ok (route_pins r pins s)" and "ok s"
    and "scanRange K r ad chainName fromHeight toHeight (lst, s) = (lst', s')"
    and "\<exists>h \<in> {fromHeight..toHeight}. block_ok (ca_CatchPins ad) h" and "0 < fromHeight" and "toHeight < 2 ^ 63"
  shows "fst (restore_one K (chainName, startHeight) s') = (chainName, lst')"
  by (rule kv_reliable.restart_height [OF assms])

theorem restart_resumes_witness:
  "fst (restore_one demo_kv (''mvc'', 0)
      (snd (scanRange demo_kv ([] :: ((mem_world, string) store_state, unit) Registry) demo_chain ''mvc'' 1 3 (0, (NewPebbleStore ''data'', \<lambda>p. [])))))
    = (''mvc'', 3)"
proof (rule restart_resumes [OF demo_kv_reliable])
  show "scanRange demo_kv ([] :: ((mem_world, string) store_state, unit) Registry) demo_chain ''mvc'' 1 3 (0, (NewPebbleStore ''data'', \<lambda>p. []))
    = (3, snd (scanRange demo_kv ([] :: ((mem_world, string) store_state, unit) Registry) demo_chain ''mvc'' 1 3 (0, (NewPebbleStore ''data'', \<lambda>p. []))))"
    using demo_scan_last by (metis prod.collapse)
  show "store_inv (\<lambda>h. h) (\<lambda>w h. True) ''data'' (NewPebbleStore ''data'', \<lambda>p. [])"
    by (simp add: store_inv_def NewPebbleStore_def)
  show "\<exists>h \<in> {1..3}. block_ok (ca_CatchPins demo_chain) h" by (rule bexI [of _ 1]) (simp_all add: demo_chain_def block_ok_def)
  show "store_inv (\<lambda>h. h) (\<lambda>w h. True) ''data'' (route_pins ([] :: ((mem_world, string) store_state, unit) Registry) pins s)"
    if "store_inv (\<lambda>h. h) (\<lambda>w h. True) ''data'' s" for s pins
  proof -
    have "route_pins ([] :: ((mem_world, string) store_state, unit) Registry) pins s = s"
      by (induction pins) (simp_all add: route_pins_def Registry_RouteBlockPin_def)
    then show ?thesis using that by simp
  qed
qed simp_all

text \<open>C10: a mempool pin is routed at most once per time-to-live: after a poll let a pin through, no poll within the time to live lets a
  pin with the same chain and stable identity through again; and one poll never lets two such pins through.\<close>

lemma mempool_no_repeat:
  assumes "filterSeenMempoolPins c pins txIDs t e = (f, e')" and "gm_ok (en_mempoolSeen e)"
    and "p \<in> set f" and "mempoolStableIDForPin p txIDs \<noteq> ''''"
    and "\<forall>q \<in> set qs. en_mempoolDedupeTTL e \<le> 0 \<or> time_Sub (po_now q) t \<le> en_mempoolDedupeTTL e"
  shows "pin_key c txIDs p \<notin> set (polled_keys qs e')
    \<and> distinct (map (pin_key c txIDs) (filter (\<lambda>p. mempoolStableIDForPin p txIDs \<noteq> '''') f))"
proof -
  note ef = filterSeen_effect [OF assms(1,2)]
  show ?thesis using polled_not_again [OF ef(1) ef(3) [OF assms(3,4)]] assms(5) ef(2,5) by simp
qed

theorem mempool_no_repeat_witness:
  "pin_key ''mvc'' [] (demo_pin ''ti0'' ''t'') \<notin> set (polled_keys [\<lparr>po_chain = ''mvc'', po_pins = [Some (demo_pin ''ti0'' ''t'')], po_txIDs = [], po_now = 7\<rparr>]
      (snd (filterSeenMempoolPins ''mvc'' [Some (demo_pin ''ti0'' ''t'')] [] 5 NewEngine)))"
proof (rule conjunct1 [OF mempool_no_repeat])
  show "filterSeenMempoolPins ''mvc'' [Some (demo_pin ''ti0'' ''t'')] [] 5 NewEngine
    = (fst (filterSeenMempoolPins ''mvc'' [Some (demo_pin ''ti0'' ''t'')] [] 5 NewEngine), snd (filterSeenMempoolPins ''mvc'' [Some (demo_pin ''ti0'' ''t'')] [] 5 NewEngine))"
    by simp
  have s: "mempoolStableIDForPin (demo_pin ''ti0'' ''t'') [] = ''t''"
    by (simp add: mempoolStableIDForPin_def demo_pin_def TrimSpace_graphic graphic_def code_def)
  show "mempoolStableIDForPin (demo_pin ''ti0'' ''t'') [] \<noteq> ''''" by (simp add: s)
  show "demo_pin ''ti0'' ''t'' \<in> set (fst (filterSeenMempoolPins ''mvc'' [Some (demo_pin ''ti0'' ''t'')] [] 5 NewEngine))"
    by (simp add: filterSeenMempoolPins_def NewEngine_def s Let_def)
qed (simp_all add: NewEngine_def time_Sub_def)

text \<open>Two different pins of one transaction count as the same: when a poll returns both, only the first is routed.\<close>

lemma same_tx_pin_dropped:
  assumes "TrimSpace (pi_GenesisTransaction p) = tx" and "TrimSpace (pi_GenesisTransaction q) = tx" and "tx \<noteq> ''''"
    and "gm_get (en_mempoolSeen e) (c @ '':'' @ tx) = None" and "gm_ok (en_mempoolSeen e)"
  shows "fst (filterSeenMempoolPins c [Some p, Some q] txIDs now e) = [p]"
proof -
  have "mempoolStableIDForPin p txIDs = tx" "mempoolStableIDForPin q txIDs = tx"
    using assms(1-3) by (simp_all add: mempoolStableIDForPin_def)
  then show ?thesis using assms(3-5) by (simp add: filterSeenMempoolPins_def Let_def gm_get_filter)
qed

theorem same_tx_pin_dropped_witness:
  "fst (filterSeenMempoolPins ''mvc'' [Some (demo_pin ''ti0'' ''t''), Some (demo_pin ''ti1'' ''t'')] [] 5 NewEngine) = [demo_pin ''ti0'' ''t'']"
  by (rule same_tx_pin_dropped [of _ "''t''"]) (simp_all add: demo_pin_def NewEngine_def TrimSpace_graphic graphic_def code_def)

end
