(* ===== verification/Base64.thy ===== *)
theory Base64
  imports GoStrings
begin

text \<open>
  \<open>encoding/base64\<close> with \<open>StdEncoding\<close>, as the chat modules use it for page cursors: encoding, and decoding of
  padded text (line breaks are skipped, anything else outside the alphabet is an error).
\<close>

definition b64_char :: "nat \<Rightarrow> char" where
  "b64_char n =
     (if n < 26 then char_of (65 + n) else if n < 52 then char_of (71 + n) else if n < 62 then char_of (n - 4)
      else if n = 62 then CHR ''+'' else CHR ''/'')"

definition b64_value :: "char \<Rightarrow> nat option" where
  "b64_value c =
     (let n = code c
      in if 65 \<le> n \<and> n \<le> 90 then Some (n - 65) else if 97 \<le> n \<and> n \<le> 122 then Some (n - 71)
         else if 48 \<le> n \<and> n \<le> 57 then Some (n + 4) else if c = CHR ''+'' then Some 62 else if c = CHR ''/'' then Some 63 else None)"

fun b64_EncodeToString :: "bytes \<Rightarrow> string" where
  "b64_EncodeToString [] = []"
| "b64_EncodeToString [a] = [b64_char (code a div 4), b64_char (16 * (code a mod 4)), CHR ''='', CHR ''='']"
| "b64_EncodeToString [a, b] =
     [b64_char (code a div 4), b64_char (16 * (code a mod 4) + code b div 16), b64_char (4 * (code b mod 16)), CHR ''='']"
| "b64_EncodeToString (a # b # c # s) =
     b64_char (code a div 4) # b64_char (16 * (code a mod 4) + code b div 16) # b64_char (4 * (code b mod 16) + code c div 64)
     # b64_char (code c mod 64) # b64_EncodeToString s"

fun b64_decode :: "string \<Rightarrow> bytes option" where
  "b64_decode [] = Some []"
| "b64_decode [w, x, y, z] =
     (case (b64_value w, b64_value x, b64_value y, b64_value z) of
        (Some i, Some j, Some k, Some l) \<Rightarrow>
          Some [char_of (4 * i + j div 16), char_of (16 * (j mod 16) + k div 4), char_of (64 * (k mod 4) + l)]
      | (Some i, Some j, Some k, None) \<Rightarrow>
          if z = CHR ''='' then Some [char_of (4 * i + j div 16), char_of (16 * (j mod 16) + k div 4)] else None
      | (Some i, Some j, None, None) \<Rightarrow>
          if y = CHR ''='' \<and> z = CHR ''='' then Some [char_of (4 * i + j div 16)] else None
      | _ \<Rightarrow> None)"
| "b64_decode (w # x # y # z # s) =
     (case (b64_value w, b64_value x, b64_value y, b64_value z) of
        (Some i, Some j, Some k, Some l) \<Rightarrow>
          map_option (\<lambda>r. char_of (4 * i + j div 16) # char_of (16 * (j mod 16) + k div 4) # char_of (64 * (k mod 4) + l) # r) (b64_decode s)
      | _ \<Rightarrow> None)"
| "b64_decode s = None"

definition b64_DecodeString :: "string \<Rightarrow> bytes option" where
  "b64_DecodeString s = b64_decode (filter (\<lambda>c. c \<noteq> CHR 0x0A \<and> c \<noteq> CHR 0x0D) s)"

subsection \<open>Round trip\<close>

lemma b64_char_code: "n < 64 \<Longrightarrow> code (b64_char n) = (if n < 26 then 65 + n else if n < 52 then 71 + n else if n < 62 then n - 4 else if n = 62 then 43 else 47)"
  by (simp add: b64_char_def) (simp add: code_def)

lemma code_eq: "code c = code d \<longleftrightarrow> c = d"
  by (metis char_of_code)

lemma b64_value_char: "n < 64 \<Longrightarrow> b64_value (b64_char n) = Some n"
proof -
  assume n: "n < 64"
  have eq: "c = CHR ''+'' \<longleftrightarrow> code c = 43" "c = CHR ''/'' \<longleftrightarrow> code c = 47" for c
    using code_eq [of c "CHR ''+''"] code_eq [of c "CHR ''/''"] by (auto simp: code_def)
  show ?thesis using n unfolding b64_value_def eq b64_char_code [OF n] Let_def by auto
qed

lemma b64_value_pad: "b64_value CHR ''='' = None"
  by (simp add: b64_value_def code_def)

text \<open>The three bytes of a group from its four digits.\<close>

lemma b64_group:
  fixes a b c :: nat
  assumes "a < 256" "b < 256" "c < 256"
  shows "4 * (a div 4) + (16 * (a mod 4) + b div 16) div 16 = a"
    and "16 * ((16 * (a mod 4) + b div 16) mod 16) + (4 * (b mod 16) + c div 64) div 4 = b"
    and "64 * ((4 * (b mod 16) + c div 64) mod 4) + c mod 64 = c"
    and "a div 4 < 64" "16 * (a mod 4) + b div 16 < 64" "4 * (b mod 16) + c div 64 < 64" "c mod 64 < 64"
proof -
  have b: "b div 16 < 16" "a mod 4 < 4" and c: "c div 64 < 4" "b mod 16 < 16" using assms by simp_all
  show "a div 4 < 64" "c mod 64 < 64" using assms by simp_all
  show "16 * (a mod 4) + b div 16 < 64" "4 * (b mod 16) + c div 64 < 64" using b c by linarith+
  show "4 * (a div 4) + (16 * (a mod 4) + b div 16) div 16 = a" using b by simp
  have "(4 * (b mod 16) + c div 64) div 4 = b mod 16" using c by simp
  then show "16 * ((16 * (a mod 4) + b div 16) mod 16) + (4 * (b mod 16) + c div 64) div 4 = b" using b by simp
  show "64 * ((4 * (b mod 16) + c div 64) mod 4) + c mod 64 = c" using c by simp
qed

lemma b64_decode_encode: "b64_decode (b64_EncodeToString s) = Some s"
proof (induction s rule: b64_EncodeToString.induct)
  case (2 a)
  show ?case using b64_group [OF code_lt_256 [of a], of 0 0] by (simp add: b64_value_char b64_value_pad char_of_code)
next
  case (3 a b)
  show ?case using b64_group [OF code_lt_256 [of a] code_lt_256 [of b], of 0] by (simp add: b64_value_char b64_value_pad char_of_code)
next
  case (4 a b c s)
  note g = b64_group [OF code_lt_256 [of a] code_lt_256 [of b] code_lt_256 [of c]]
  show ?case using 4 g by (cases "b64_EncodeToString s") (simp_all add: b64_value_char char_of_code)
qed simp

lemma b64_chars: "c \<in> set (b64_EncodeToString s) \<Longrightarrow> 43 \<le> code c"
proof -
  have d: "43 \<le> code (b64_char n)" if "n < 64" for n using that by (auto simp: b64_char_code)
  show "c \<in> set (b64_EncodeToString s) \<Longrightarrow> 43 \<le> code c"
  proof (induction s rule: b64_EncodeToString.induct)
    case (2 a)
    then show ?case using b64_group [OF code_lt_256 [of a], of 0 0] d by (auto simp: code_def)
  next
    case (3 a b)
    then show ?case using b64_group [OF code_lt_256 [of a] code_lt_256 [of b], of 0] d by (auto simp: code_def)
  next
    case (4 a b c s)
    then show ?case using b64_group [OF code_lt_256 [of a] code_lt_256 [of b] code_lt_256 [of c]] d by auto
  qed simp
qed

lemma b64_roundtrip: "b64_DecodeString (b64_EncodeToString s) = Some s"
proof -
  have "filter (\<lambda>c. c \<noteq> CHR 0x0A \<and> c \<noteq> CHR 0x0D) (b64_EncodeToString s) = b64_EncodeToString s"
    using b64_chars [of "CHR 0x0A" s] b64_chars [of "CHR 0x0D" s] by (intro filter_True) (auto simp: code_def)
  then show ?thesis by (simp add: b64_DecodeString_def b64_decode_encode)
qed

end
