(* ===== verification/ChatPages.thy ===== *)
theory ChatPages
  imports Aggregators Storage Base64
begin

text \<open>
  What the chat modules share: lists of a key-value scan, pages with opaque cursors, pages by index, and the next index. Both
  \<open>privatechat/db.go\<close> and \<open>groupchat/db_chat.go\<close> spell these functions out; here they are written once, for messages of any
  type, and each module instantiates them.

  The locale \<open>paged_list\<close> is the contract of a message list with cursors; its client lemma is that following the cursors
  gives every message once.
\<close>

record 'm chat_list =
  pl_Total :: int
  pl_NextCursor :: string
  pl_NextTimestamp :: int
  pl_List :: "'m list"

subsection \<open>Cursors\<close>

definition int64FromBytes :: "bytes \<Rightarrow> int" where
  "int64FromBytes b = foldl (\<lambda>v c. wrap64 (v * 256 + int (code c))) 0 (take 8 b)"

definition int64ToBytes :: "int \<Rightarrow> bytes" where
  "int64ToBytes v = map (\<lambda>i. char_of (nat ((v div 256 ^ i) mod 256))) (rev [0..<8])"

definition cursor_offset :: "string \<Rightarrow> int" where
  "cursor_offset cursorStr =
     (if cursorStr \<noteq> '''' \<and> cursorStr \<noteq> ''null''
      then (case b64_DecodeString cursorStr of None \<Rightarrow> 0 | Some d \<Rightarrow> if 8 \<le> length d then int64FromBytes (take 8 d) else 0)
      else 0)"

text \<open>The loop \<open>for i := startIdx; i >= 0 && len(messages) < size; i--\<close>.\<close>

fun page_down :: "'a list \<Rightarrow> nat \<Rightarrow> int \<Rightarrow> 'a list \<Rightarrow> 'a list" where
  "page_down xs 0 sz acc = acc"
| "page_down xs (Suc i) sz acc = (if int (length acc) < sz then page_down xs i sz (acc @ [xs ! i]) else acc)"

definition page_desc :: "('m \<Rightarrow> int) \<Rightarrow> 'm list \<Rightarrow> string \<Rightarrow> int \<Rightarrow> 'm chat_list" where
  "page_desc timestamp allMessages cursorStr sz =
     (let sum = int (length allMessages);
          startFromEnd = cursor_offset cursorStr;
          startIdx0 = wrap64 (wrap64 (sum - 1) - startFromEnd);
          startIdx1 = (if sum \<le> startIdx0 then sum - 1 else startIdx0);
          startIdx = (if startIdx1 < 0 then - 1 else startIdx1);
          messages = page_down allMessages (nat (startIdx + 1)) sz [];
          newOffset = wrap64 (startFromEnd + int (length messages));
          nextCursor = (if newOffset < sum \<and> int (length messages) = sz \<and> 0 < length messages
                        then b64_EncodeToString (int64ToBytes newOffset) else '''')
      in \<lparr>pl_Total = sum, pl_NextCursor = nextCursor, pl_NextTimestamp = (if 0 < length messages then timestamp (last messages) else 0),
          pl_List = messages\<rparr>)"

subsection \<open>Pages by index\<close>

text \<open>The selection loop: messages from \<open>startIndex\<close> on, until \<open>size\<close> are taken, with the largest index taken.\<close>

fun index_page :: "('m \<Rightarrow> int) \<Rightarrow> int \<Rightarrow> int \<Rightarrow> 'm list \<Rightarrow> 'm list \<times> int \<Rightarrow> 'm list \<times> int" where
  "index_page idx startIndex sz [] st = st"
| "index_page idx startIndex sz (msg # rest) (messages, lastIndex) =
     (if idx msg < startIndex then index_page idx startIndex sz rest (messages, lastIndex)
      else
        (let messages' = messages @ [msg]; lastIndex' = (if lastIndex < idx msg then idx msg else lastIndex)
         in if sz \<le> int (length messages') then (messages', lastIndex') else index_page idx startIndex sz rest (messages', lastIndex')))"

definition next_index :: "('m \<Rightarrow> int) \<Rightarrow> 'm list \<Rightarrow> int" where
  "next_index idx messages = wrap64 (foldl (\<lambda>mx msg. if mx < idx msg then idx msg else mx) (- 1) messages + 1)"

text \<open>The callback most scans use: a value that does not decode is skipped.\<close>

definition decoded :: "(bytes \<Rightarrow> 'm option) \<Rightarrow> (bytes \<times> bytes) list \<Rightarrow> 'm list" where
  "decoded unmarshal kvs = List.map_filter (\<lambda>kv. unmarshal (snd kv)) kvs"

text \<open>A client that asks for pages until there is no cursor; \<open>None\<close> when the fuel runs out.\<close>

fun follow_pages :: "(string \<Rightarrow> 's \<Rightarrow> 'm chat_list \<times> 's) \<Rightarrow> nat \<Rightarrow> string \<Rightarrow> 's \<Rightarrow> 'm list option" where
  "follow_pages fetch 0 cur s = None"
| "follow_pages fetch (Suc fuel) cur s =
     (let (r, s1) = fetch cur s
      in if pl_NextCursor r = '''' then Some (pl_List r) else map_option (\<lambda>rest. pl_List r @ rest) (follow_pages fetch fuel (pl_NextCursor r) s1))"

text \<open>The page size of a list request: the query parameter, or 20 when it is absent, no number or out of bounds.\<close>

definition chat_size :: "string option \<Rightarrow> int" where
  "chat_size sizeQ = (let sz = ParseInt_value (DefaultQuery ''20'' sizeQ) in if sz < 1 \<or> 100 < sz then 20 else sz)"

subsection \<open>Cursors address messages\<close>

lemma int64_step:
  assumes "0 \<le> v" and "v < 2 ^ 63"
  shows "wrap64 (v div 256 ^ Suc k * 256 + int (code (char_of (nat ((v div 256 ^ k) mod 256))))) = v div 256 ^ k"
proof -
  have m: "0 \<le> (v div 256 ^ k) mod 256" "(v div 256 ^ k) mod 256 < 256" by simp_all
  then have "nat ((v div 256 ^ k) mod 256) < 256" by linarith
  then have c: "int (code (char_of (nat ((v div 256 ^ k) mod 256)))) = (v div 256 ^ k) mod 256" using m(1) by simp
  have "v div 256 ^ Suc k = (v div 256 ^ k) div 256"
    unfolding power_Suc2 by (rule zdiv_zmult2_eq) simp
  then have e: "v div 256 ^ Suc k * 256 + (v div 256 ^ k) mod 256 = v div 256 ^ k" by simp
  have "0 \<le> v div 256 ^ k" "v div 256 ^ k \<le> v" 
    using assms(1) zdiv_mono2 [of v 1 "256 ^ k"] by (simp_all add: pos_imp_zdiv_nonneg_iff)
  then have "int64_ok (v div 256 ^ k)" using assms(2) by (simp add: int64_ok_def)
  then show ?thesis unfolding c e by (rule wrap64_ok)
qed

lemma int64_digits:
  assumes "0 \<le> v" and "v < 2 ^ 63"
  shows "foldl (\<lambda>x c. wrap64 (x * 256 + int (code c))) (v div 256 ^ n) (map (\<lambda>i. char_of (nat ((v div 256 ^ i) mod 256))) (rev [0..<n])) = v"
proof (induction n)
  case (Suc n)
  have "rev [0..<Suc n] = n # rev [0..<n]" by simp
  then show ?case using Suc by (simp only: list.map foldl_Cons int64_step [OF assms])
qed simp

lemma int64_roundtrip:
  assumes "0 \<le> v" and "v < 2 ^ 63"
  shows "int64FromBytes (int64ToBytes v) = v"
proof -
  have "v div 256 ^ 8 = 0" using assms by simp
  then show ?thesis using int64_digits [OF assms, of 8] by (simp add: int64FromBytes_def int64ToBytes_def)
qed

lemma cursor_roundtrip:
  assumes "0 \<le> v" and "v < 2 ^ 63"
  shows "cursor_offset (b64_EncodeToString (int64ToBytes v)) = v" and "b64_EncodeToString (int64ToBytes v) \<noteq> ''''"
proof -
  have l: "length (int64ToBytes v) = 8" by (simp add: int64ToBytes_def)
  have "length s \<le> length (b64_EncodeToString s)" for s
    by (induction s rule: b64_EncodeToString.induct) simp_all
  then have "8 \<le> length (b64_EncodeToString (int64ToBytes v))" using l by (metis)
  then have n: "b64_EncodeToString (int64ToBytes v) \<noteq> ''''" "b64_EncodeToString (int64ToBytes v) \<noteq> ''null''" by auto
  then show "b64_EncodeToString (int64ToBytes v) \<noteq> ''''"
    "cursor_offset (b64_EncodeToString (int64ToBytes v)) = v"
    using l int64_roundtrip [OF assms] by (simp_all add: cursor_offset_def b64_roundtrip)
qed

lemma page_down_eq:
  assumes "n \<le> length xs"
  shows "page_down xs n sz acc = acc @ take (nat (sz - int (length acc))) (rev (take n xs))"
  using assms
proof (induction n arbitrary: acc)
  case (Suc i)
  have r: "rev (take (Suc i) xs) = xs ! i # rev (take i xs)" using Suc.prems by (simp add: take_Suc_conv_app_nth)
  show ?case
  proof (cases "int (length acc) < sz")
    case True
    then have "nat (sz - int (length acc)) = Suc (nat (sz - int (length acc) - 1))" by linarith
    then show ?thesis using True Suc.IH [of "acc @ [xs ! i]"] Suc.prems by (simp add: r algebra_simps)
  qed simp
qed simp

text \<open>The page after the first \<open>k\<close> messages, newest first.\<close>

lemma page_desc_at:
  assumes "cursor_offset cur = int k" and "k \<le> length msgs" and "int (length msgs) < 2 ^ 63" and "1 \<le> sz"
  shows "pl_List (page_desc ts msgs cur sz) = take (nat sz) (drop k (rev msgs))"
    and "pl_NextCursor (page_desc ts msgs cur sz)
      = (if k + nat sz < length msgs then b64_EncodeToString (int64ToBytes (int (k + nat sz))) else '''')"
proof -
  let ?n = "int (length msgs)"
  let ?m = "take (nat sz) (drop k (rev msgs))"
  have w: "wrap64 (?n - 1) = ?n - 1" "wrap64 (?n - 1 - int k) = ?n - 1 - int k"
    using assms(2,3) by (simp_all add: wrap64_ok int64_ok_def)
  have d: "rev (take (length msgs - k) msgs) = drop k (rev msgs)" using assms(2) by (simp add: rev_take)
  have p: "page_down msgs (nat ((if (if ?n \<le> ?n - 1 - int k then ?n - 1 else ?n - 1 - int k) < 0 then - 1
      else (if ?n \<le> ?n - 1 - int k then ?n - 1 else ?n - 1 - int k)) + 1)) sz [] = ?m"
  proof -
    have "nat ((if (if ?n \<le> ?n - 1 - int k then ?n - 1 else ?n - 1 - int k) < 0 then - 1
      else (if ?n \<le> ?n - 1 - int k then ?n - 1 else ?n - 1 - int k)) + 1) = length msgs - k" using assms(2) by auto
    then show ?thesis using page_down_eq [of "length msgs - k" msgs sz "[]"] by (simp add: d)
  qed
  have l: "length ?m = min (nat sz) (length msgs - k)" by simp
  have "wrap64 (int k + int (length ?m)) = int k + int (length ?m)"
    using assms(2,3) l by (intro wrap64_ok) (auto simp: int64_ok_def)
  then show "pl_List (page_desc ts msgs cur sz) = ?m"
    "pl_NextCursor (page_desc ts msgs cur sz)
      = (if k + nat sz < length msgs then b64_EncodeToString (int64ToBytes (int (k + nat sz))) else '''')"
    using assms(2,4) l unfolding page_desc_def Let_def assms(1) w p by (auto simp: min_def)
qed

text \<open>A list that answers a cursor with its page, as long as the state satisfies \<open>ok\<close>.\<close>

locale paged_list =
  fixes fetch :: "string \<Rightarrow> 's \<Rightarrow> 'm chat_list \<times> 's"
    and ts :: "'m \<Rightarrow> int"
    and msgs :: "'m list"
    and sz :: int
    and ok :: "'s \<Rightarrow> bool"
  assumes fetch_page: "ok s \<Longrightarrow> \<exists>s'. fetch cur s = (page_desc ts msgs cur sz, s') \<and> ok s'"
begin

lemma follow_from:
  assumes "1 \<le> sz" and "int (length msgs) < 2 ^ 63"
  shows "ok s \<Longrightarrow> cursor_offset cur = int k \<Longrightarrow> k \<le> length msgs \<Longrightarrow> length msgs < fuel + k
    \<Longrightarrow> follow_pages fetch fuel cur s = Some (drop k (rev msgs))"
proof (induction fuel arbitrary: cur k s)
  case (Suc fuel)
  obtain s' where g: "fetch cur s = (page_desc ts msgs cur sz, s')" "ok s'" using fetch_page [OF Suc.prems(1)] by blast
  note pg = page_desc_at [OF Suc.prems(2,3) assms(2,1)]
  show ?case
  proof (cases "k + nat sz < length msgs")
    case True
    have rng: "0 \<le> int (k + nat sz)" "int (k + nat sz) < 2 ^ 63" using True assms(2) by linarith+
    note cur = cursor_roundtrip [OF rng]
    have "follow_pages fetch fuel (b64_EncodeToString (int64ToBytes (int (k + nat sz)))) s' = Some (drop (k + nat sz) (rev msgs))"
    proof (rule Suc.IH [OF g(2)])
      show "length msgs < fuel + (k + nat sz)" using Suc.prems(4) assms(1) by linarith
    qed (use cur True in auto)
    moreover have "take (nat sz) (drop k (rev msgs)) @ drop (k + nat sz) (rev msgs) = drop k (rev msgs)"
      by (metis append_take_drop_id drop_drop add.commute)
    ultimately show ?thesis using True g(1) pg cur(2) by simp
  next
    case False
    then show ?thesis using g(1) pg by simp
  qed
qed simp

lemma follow_all:
  assumes "1 \<le> sz" and "int (length msgs) < 2 ^ 63" and "ok s" and "length msgs < fuel"
  shows "follow_pages fetch fuel '''' s = Some (rev msgs)"
  using follow_from [OF assms(1-3), of "''''" 0 fuel] assms(4) by (simp add: cursor_offset_def)

end

subsection \<open>Pages by index and the next index\<close>

lemma index_page_eq:
  assumes "int (length acc) < sz"
  shows "fst (index_page idx i sz ms (acc, l)) = acc @ take (nat (sz - int (length acc))) (filter (\<lambda>m. i \<le> idx m) ms)"
  using assms
proof (induction ms arbitrary: acc l)
  case (Cons m ms)
  show ?case
  proof (cases "idx m < i")
    case True
    then show ?thesis using Cons by simp
  next
    case False
    have n: "nat (sz - int (length acc)) = Suc (nat (sz - int (length (acc @ [m]))))" using Cons.prems by simp
    show ?thesis using False Cons.IH [of "acc @ [m]"] Cons.prems unfolding n by (simp add: Let_def)
  qed
qed simp

lemma fold_max_bounds:
  fixes idx :: "'m \<Rightarrow> int"
  shows "a \<le> foldl (\<lambda>mx msg. if mx < idx msg then idx msg else mx) a ms"
    and "m \<in> set ms \<Longrightarrow> idx m \<le> foldl (\<lambda>mx msg. if mx < idx msg then idx msg else mx) a ms"
    and "a < b \<Longrightarrow> (\<And>m. m \<in> set ms \<Longrightarrow> idx m < b) \<Longrightarrow> foldl (\<lambda>mx msg. if mx < idx msg then idx msg else mx) a ms < b"
  by (induction ms rule: rev_induct) auto

lemma next_index_gt:
  assumes "\<And>m. m \<in> set ms \<Longrightarrow> idx m < 2 ^ 63 - 1"
  shows "next_index idx ms = foldl (\<lambda>mx msg. if mx < idx msg then idx msg else mx) (- 1) ms + 1"
    and "m \<in> set ms \<Longrightarrow> idx m < next_index idx ms"
proof -
  let ?r = "foldl (\<lambda>mx msg. if mx < idx msg then idx msg else mx) (- 1) ms"
  have "- 1 \<le> ?r" "?r < 2 ^ 63 - 1" using fold_max_bounds(1) [of "- 1" idx ms] fold_max_bounds(3) [of "- 1" "2 ^ 63 - 1" ms idx] assms by simp_all
  then have "int64_ok (?r + 1)" by (simp add: int64_ok_def)
  then show e: "next_index idx ms = ?r + 1" by (simp add: next_index_def wrap64_ok)
  show "m \<in> set ms \<Longrightarrow> idx m < next_index idx ms" unfolding e using fold_max_bounds(2) [of m ms idx "- 1"] by simp
qed

lemma next_index_range: "int64_ok (next_index idx ms)"
  unfolding next_index_def by (rule wrap64_range)

subsection \<open>Keys with separators\<close>

definition colon_free :: "string \<Rightarrow> bool" where
  "colon_free s \<longleftrightarrow> CHR '':'' \<notin> set s"

lemma sep_prefix:
  assumes "c \<notin> set a" and "c \<notin> set b"
  shows "prefix (a @ c # r) (b @ c # r') \<longleftrightarrow> a = b \<and> prefix r r'"
  using assms
proof (induction a arbitrary: b)
  case Nil
  then show ?case by (cases b) auto
next
  case (Cons x a)
  then show ?case by (cases b) auto
qed

lemma sep_eq:
  assumes "c \<notin> set a" and "c \<notin> set b"
  shows "a @ c # r = b @ c # r' \<longleftrightarrow> a = b \<and> r = r'"
  using sep_prefix [OF assms, of r r'] sep_prefix [OF assms(2,1), of r' r] by (metis prefix_order.dual_order.antisym prefix_order.refl)

lemma Sprintf_0d_colon: "CHR '':'' \<notin> set (Sprintf_0d w z)"
proof -
  have "\<not> is_digit CHR '':''" by (simp add: is_digit_def code_def)
  then have "CHR '':'' \<notin> set (dec_digits n)" for n using dec_digits_digit by blast
  then show ?thesis by (auto simp: Sprintf_0d_def pad_zeros_def)
qed

subsection \<open>Scans of a reliable store\<close>

text \<open>The entries of a database under a prefix, as a scan delivers them.\<close>

definition entries_under :: "(bytes \<Rightarrow> bytes option) \<Rightarrow> bytes \<Rightarrow> (bytes \<times> bytes) list" where
  "entries_under c p = map (\<lambda>k. (k, the (c k))) (sorted_list_of_set {k. c k \<noteq> None \<and> prefix p k})"

lemma decoded_mem: "m \<in> set (decoded u kvs) \<longleftrightarrow> (\<exists>kv \<in> set kvs. u (snd kv) = Some m)"
  by (induction kvs) (auto simp: decoded_def List.map_filter_simps split: option.split)

lemma decoded_snoc: "decoded u (kvs @ [kv]) = decoded u kvs @ (case u (snd kv) of None \<Rightarrow> [] | Some m \<Rightarrow> [m])"
  by (simp add: decoded_def List.map_filter_def split: option.split)

context kv_reliable
begin

lemma scan_entries:
  assumes "inv s"
  obtains s' where "kv_Scan K ns p s = (Inr (entries_under (content s (loc ns)) p), s')" and "inv s'" and "content s' = content s"
proof -
  let ?c = "content s (loc ns)"
  obtain kvs s' where k: "kv_Scan K ns p s = (Inr kvs, s')" "inv s'" "content s' = content s"
    "sorted_wrt (<) (map fst kvs)" "set kvs = {(k, v). ?c k = Some v \<and> prefix p k}"
    by (rule Scan_eq [OF assms])
  have ks: "set (map fst kvs) = {k. ?c k \<noteq> None \<and> prefix p k}" using k(5) by (force simp: image_iff)
  have "map fst kvs = sorted_list_of_set (set (map fst kvs))"
    using k(4) by (metis sorted_list_of_set.idem_if_sorted_distinct strict_sorted_iff)
  moreover have "(fst kv, the (?c (fst kv))) = kv" if "kv \<in> set kvs" for kv using that unfolding k(5) by (cases kv) simp
  then have "kvs = map (\<lambda>k. (k, the (?c k))) (map fst kvs)" by (simp add: map_idI comp_def)
  ultimately have "kvs = entries_under ?c p" unfolding entries_under_def ks [symmetric] by metis
  then show thesis using k that by blast
qed

lemma entries_mem:
  assumes "inv s"
  shows "kv \<in> set (entries_under (content s (loc ns)) p) \<longleftrightarrow> content s (loc ns) (fst kv) = Some (snd kv) \<and> prefix p (fst kv)"
proof -
  let ?c = "content s (loc ns)"
  obtain s' where "kv_Scan K ns p s = (Inr (entries_under ?c p), s')" by (rule scan_entries [OF assms])
  from scan_content [OF assms this] show ?thesis by (cases kv) simp
qed

lemma entries_decoded:
  assumes "inv s"
  shows "m \<in> set (decoded u (entries_under (content s (loc ns)) p)) \<longleftrightarrow> (\<exists>k v. content s (loc ns) k = Some v \<and> prefix p k \<and> u v = Some m)"
  unfolding decoded_mem Bex_def entries_mem [OF assms] by auto

end

end
