(* ===== verification/PrivateChat.thy ===== *)
theory PrivateChat
  imports ChatPages "HOL-Library.Product_Lexorder"
begin

text \<open>
  Private chat, \<open>internal/aggregator/privatechat\<close>: \<open>process.go\<close> (pins to messages), \<open>db.go\<close> (keys, storage, lists and
  cursors), \<open>identity.go\<close> (aliases of an identity) and the handlers of \<open>module.go\<close>.

  The key-value store is the record \<open>K\<close> of \<open>Storage\<close> on a state \<open>'s\<close>; the state of the module adds the buffered notify
  channel. \<open>encoding/json\<close> on the message types is the parameter \<open>pc_json\<close>; the profile service is
  \<open>IdentityLookup\<close>. The user-info members of a message, which this module never sets, are left out.
\<close>

subsection \<open>Data\<close>

record PrivateMessage =
  pm_FromGlobalMetaId :: string
  pm_From :: string
  pm_FromAddress :: string
  pm_ToGlobalMetaId :: string
  pm_To :: string
  pm_ToAddress :: string
  pm_TxId :: string
  pm_PinId :: string
  pm_Protocol :: string
  pm_Content :: string
  pm_ContentType :: string
  pm_Encryption :: string
  pm_Timestamp :: int
  pm_Chain :: string
  pm_BlockHeight :: int
  pm_Index :: int

record SimpleMsg =
  sm_From :: string
  sm_To :: string
  sm_Content :: string
  sm_ContentType :: string
  sm_Encrypt :: string
  sm_EncryptAlias :: string
  sm_ReplyPin :: string
  sm_Mention :: "string list"

record IdentityProfile =
  ip_MetaId :: string
  ip_GlobalMetaId :: string
  ip_Address :: string

record IdentityLookup =
  il_ByMetaId :: "string \<Rightarrow> string + IdentityProfile option"
  il_ByGlobalMetaId :: "string \<Rightarrow> string + IdentityProfile option"
  il_ByAddress :: "string \<Rightarrow> string + IdentityProfile option"

record pc_json =
  pj_Marshal :: "PrivateMessage \<Rightarrow> string + bytes"
  pj_Unmarshal :: "bytes \<Rightarrow> PrivateMessage option"
  pj_SimpleMsg :: "bytes \<Rightarrow> SimpleMsg option"

text \<open>What a module instance is wired with.\<close>

record 's pc_env =
  pc_U :: unicode
  pc_K :: "'s kv_api"
  pc_J :: pc_json
  pc_lookup :: "IdentityLookup option"

type_synonym PrivateChatListResult = "PrivateMessage chat_list"

definition pc_namespace :: string where "pc_namespace = ''privatechat''"

subsection \<open>Identities\<close>

definition profile_ids :: "string + IdentityProfile option \<Rightarrow> string list" where
  "profile_ids r = (case r of Inr (Some p) \<Rightarrow> [ip_MetaId p, ip_GlobalMetaId p, ip_Address p] | _ \<Rightarrow> [])"

definition identityAliases :: "unicode \<Rightarrow> IdentityLookup option \<Rightarrow> string \<Rightarrow> string list" where
  "identityAliases U lookup id0 =
     (let i = TrimSpace id0
      in if i = '''' then []
         else fst (foldl (\<lambda>st v. add_target U v st) ([], [])
           (i # (case lookup of None \<Rightarrow> []
                 | Some L \<Rightarrow> profile_ids (il_ByMetaId L i) @ profile_ids (il_ByGlobalMetaId L i) @ profile_ids (il_ByAddress L i)))))"

subsection \<open>Keys\<close>

definition sortMetas :: "string \<Rightarrow> string \<Rightarrow> string \<times> string" where
  "sortMetas a b = (if a < b then (a, b) else (b, a))"

definition pchatPrefix :: "string \<Rightarrow> string \<Rightarrow> bytes" where
  "pchatPrefix metaId1 metaId2 = (let (lo, hi) = sortMetas metaId1 metaId2 in ''pchat:'' @ lo @ '':'' @ hi @ '':'')"

definition pchatKey :: "string \<Rightarrow> string \<Rightarrow> int \<Rightarrow> string \<Rightarrow> bytes" where
  "pchatKey metaId1 metaId2 timestamp txId =
     (let (lo, hi) = sortMetas metaId1 metaId2 in ''pchat:'' @ lo @ '':'' @ hi @ '':'' @ Sprintf_0d 19 timestamp @ '':'' @ txId)"

definition privateMessageDedupeKey :: "PrivateMessage \<Rightarrow> string" where
  "privateMessageDedupeKey msg = (if pm_PinId msg \<noteq> '''' then pm_PinId msg else pm_TxId msg @ '':'' @ pm_From msg @ '':'' @ pm_To msg)"

subsection \<open>Reading a conversation\<close>

definition collect_value :: "pc_json \<Rightarrow> bytes \<times> bytes \<Rightarrow> string list \<times> PrivateMessage list \<Rightarrow> string list \<times> PrivateMessage list" where
  "collect_value J kv st =
     (case pj_Unmarshal J (snd kv) of
        None \<Rightarrow> st
      | Some msg \<Rightarrow>
          (if privateMessageDedupeKey msg \<in> set (fst st) then st else (privateMessageDedupeKey msg # fst st, snd st @ [msg])))"

text \<open>The scans of all prefixes; the error of a scan is ignored, as in the source.\<close>

fun collect_scans :: "'s kv_api \<Rightarrow> pc_json \<Rightarrow> bytes list \<Rightarrow> string list \<times> PrivateMessage list \<Rightarrow> 's \<Rightarrow> (string list \<times> PrivateMessage list) \<times> 's" where
  "collect_scans K J [] st s = (st, s)"
| "collect_scans K J (p # ps) st s =
     (case kv_Scan K pc_namespace p s of
        (Inl e, s1) \<Rightarrow> collect_scans K J ps st s1
      | (Inr kvs, s1) \<Rightarrow> collect_scans K J ps (foldl (\<lambda>st kv. collect_value J kv st) st kvs) s1)"

definition alias_prefixes :: "'s pc_env \<Rightarrow> string \<Rightarrow> string \<Rightarrow> bytes list" where
  "alias_prefixes A my other =
     concat (map (\<lambda>m. map (pchatPrefix m) (identityAliases (pc_U A) (pc_lookup A) other)) (identityAliases (pc_U A) (pc_lookup A) my))"

definition message_rank :: "PrivateMessage \<Rightarrow> int \<times> string" where
  "message_rank m = (pm_Timestamp m, privateMessageDedupeKey m)"

definition collectPrivateMessages :: "'s pc_env \<Rightarrow> string \<Rightarrow> string \<Rightarrow> 's \<Rightarrow> PrivateMessage list \<times> 's" where
  "collectPrivateMessages A myMetaId otherMetaId s =
     (if identityAliases (pc_U A) (pc_lookup A) myMetaId = [] \<or> identityAliases (pc_U A) (pc_lookup A) otherMetaId = [] then ([], s)
      else
        (let (st, s1) = collect_scans (pc_K A) (pc_J A) (alias_prefixes A myMetaId otherMetaId) ([], []) s
         in (sort_key message_rank (snd st), s1)))"

subsection \<open>Saving\<close>

definition nextPrivateMessageIndex :: "'s pc_env \<Rightarrow> string \<Rightarrow> string \<Rightarrow> 's \<Rightarrow> int \<times> 's" where
  "nextPrivateMessageIndex A from to s =
     (let (messages, s1) = collectPrivateMessages A from to s
      in (next_index pm_Index messages, s1))"

definition SavePrivateMessage :: "'s pc_env \<Rightarrow> PrivateMessage \<Rightarrow> 's \<Rightarrow> (string option \<times> PrivateMessage) \<times> 's" where
  "SavePrivateMessage A msg0 s =
     (let (msg, s1) = (if pm_Index msg0 < 0
            then (let (i, s1) = nextPrivateMessageIndex A (pm_From msg0) (pm_To msg0) s in (msg0\<lparr>pm_Index := i\<rparr>, s1)) else (msg0, s))
      in case pj_Marshal (pc_J A) msg of
           Inl e \<Rightarrow> ((Some e, msg), s1)
         | Inr raw \<Rightarrow>
             (case kv_Set (pc_K A) pc_namespace (pchatKey (pm_From msg) (pm_To msg) (pm_Timestamp msg) (pm_TxId msg)) raw s1 of
                (None, s2) \<Rightarrow> ((None, msg), s2)
              | (Some e, s2) \<Rightarrow> ((Some ''storage error'', msg), s2)))"

text \<open>A lookup of one message; a missing key is no message and no error.\<close>

definition GetPrivateMessage :: "'s pc_env \<Rightarrow> string \<Rightarrow> string \<Rightarrow> int \<Rightarrow> string \<Rightarrow> 's \<Rightarrow> (string + PrivateMessage option) \<times> 's" where
  "GetPrivateMessage A metaId1 metaId2 timestamp txId s =
     (case kv_Get (pc_K A) pc_namespace (pchatKey metaId1 metaId2 timestamp txId) s of
        (Inl ErrNotFound, s1) \<Rightarrow> (Inr None, s1)
      | (Inl e, s1) \<Rightarrow> (Inl ''storage error'', s1)
      | (Inr raw, s1) \<Rightarrow> (case pj_Unmarshal (pc_J A) raw of None \<Rightarrow> (Inl ''decode error'', s1) | Some msg \<Rightarrow> (Inr (Some msg), s1)))"

subsection \<open>Pages\<close>

definition chat_page :: "PrivateMessage list \<Rightarrow> string \<Rightarrow> int \<Rightarrow> PrivateChatListResult" where
  "chat_page allMessages cursorStr sz = page_desc pm_Timestamp allMessages cursorStr sz"

definition GetPrivateChatList :: "'s pc_env \<Rightarrow> string \<Rightarrow> string \<Rightarrow> string \<Rightarrow> int \<Rightarrow> int \<Rightarrow> 's \<Rightarrow> PrivateChatListResult \<times> 's" where
  "GetPrivateChatList A myMetaId otherMetaId cursorStr sz beforeTimestamp s =
     (let (all0, s1) = collectPrivateMessages A myMetaId otherMetaId s;
          allMessages = (if 0 < beforeTimestamp then filter (\<lambda>msg. pm_Timestamp msg < beforeTimestamp) all0 else all0)
      in (chat_page allMessages cursorStr sz, s1))"

definition index_rank :: "PrivateMessage \<Rightarrow> int \<times> int \<times> string" where
  "index_rank m = (pm_Index m, pm_Timestamp m, privateMessageDedupeKey m)"

definition GetPrivateChatListByIndex :: "'s pc_env \<Rightarrow> string \<Rightarrow> string \<Rightarrow> int \<Rightarrow> int \<Rightarrow> 's \<Rightarrow> PrivateChatListResult \<times> 's" where
  "GetPrivateChatListByIndex A myMetaId otherMetaId startIndex sz s =
     (let (allMessages, s1) = collectPrivateMessages A myMetaId otherMetaId s;
          (messages, lastIndex) = index_page pm_Index startIndex sz (sort_key index_rank allMessages) ([], 0)
      in (\<lparr>pl_Total = int (length messages), pl_NextCursor = '''', pl_NextTimestamp = lastIndex, pl_List = messages\<rparr>, s1))"

subsection \<open>Conversation lists\<close>

record PrivateChatHome =
  ch_MetaId :: string
  ch_GlobalMetaId :: string
  ch_LastMessage :: PrivateMessage

definition partner_of :: "string \<Rightarrow> PrivateMessage \<Rightarrow> string option" where
  "partner_of metaid msg = (if pm_From msg = metaid then Some (pm_To msg) else if pm_To msg = metaid then Some (pm_From msg) else None)"

definition home_step :: "pc_json \<Rightarrow> string \<Rightarrow> (string, PrivateMessage) gomap \<Rightarrow> bytes \<times> bytes \<Rightarrow> (string, PrivateMessage) gomap" where
  "home_step J metaid m kv =
     (case pj_Unmarshal J (snd kv) of
        None \<Rightarrow> m
      | Some msg \<Rightarrow>
          (case partner_of metaid msg of
             None \<Rightarrow> m
           | Some partner \<Rightarrow>
               (case gm_get m partner of
                  None \<Rightarrow> gm_set m partner msg
                | Some existing \<Rightarrow> if pm_Timestamp existing < pm_Timestamp msg then gm_set m partner msg else m)))"

definition chat_home :: "string \<times> PrivateMessage \<Rightarrow> PrivateChatHome" where
  "chat_home e =
     \<lparr>ch_MetaId = fst e, ch_GlobalMetaId = (if pm_From (snd e) = fst e then pm_FromGlobalMetaId (snd e) else pm_ToGlobalMetaId (snd e)),
      ch_LastMessage = snd e\<rparr>"

definition GetPrivateChatHomes :: "'s pc_env \<Rightarrow> string \<Rightarrow> 's \<Rightarrow> PrivateChatHome list \<times> 's" where
  "GetPrivateChatHomes A metaid s =
     (case kv_Scan (pc_K A) pc_namespace ''pchat:'' s of
        (Inl e, s1) \<Rightarrow> ([], s1)
      | (Inr kvs, s1) \<Rightarrow> (map chat_home (foldl (home_step (pc_J A) metaid) [] kvs), s1))"

record PrivateGroupPath =
  gp_Path :: string
  gp_GroupId :: string
  gp_PinId :: string

definition path_step :: "pc_json \<Rightarrow> string \<Rightarrow> (string, PrivateGroupPath) gomap \<Rightarrow> bytes \<times> bytes \<Rightarrow> (string, PrivateGroupPath) gomap" where
  "path_step J metaid m kv =
     (case pj_Unmarshal J (snd kv) of
        None \<Rightarrow> m
      | Some msg \<Rightarrow>
          (if pm_From msg = metaid \<or> pm_To msg = metaid then
             (let (lo, hi) = sortMetas (pm_From msg) (pm_To msg); path = lo @ '':'' @ hi
              in case gm_get m path of
                   None \<Rightarrow> gm_set m path \<lparr>gp_Path = path, gp_GroupId = path, gp_PinId = pm_PinId msg\<rparr>
                 | Some _ \<Rightarrow> m)
           else m))"

definition GetPrivateGroupPaths :: "'s pc_env \<Rightarrow> string \<Rightarrow> 's \<Rightarrow> PrivateGroupPath list \<times> 's" where
  "GetPrivateGroupPaths A metaid s =
     (case kv_Scan (pc_K A) pc_namespace ''pchat:'' s of
        (Inl e, s1) \<Rightarrow> ([], s1)
      | (Inr kvs, s1) \<Rightarrow> (map snd (foldl (path_step (pc_J A) metaid) [] kvs), s1))"

subsection \<open>HTTP handlers\<close>

definition handlePrivateChatList ::
    "'s pc_env \<Rightarrow> string option \<Rightarrow> string option \<Rightarrow> string option \<Rightarrow> string option \<Rightarrow> string option \<Rightarrow> 's \<Rightarrow> PrivateChatListResult api_answer \<times> 's" where
  "handlePrivateChatList A metaIdQ otherMetaIdQ cursorQ timestampQ sizeQ s =
     (let metaId = DefaultQuery '''' metaIdQ; otherMetaId = DefaultQuery '''' otherMetaIdQ
      in if metaId = '''' \<or> otherMetaId = '''' then (RespErr 1 ''metaId and otherMetaId are required'', s)
         else
           (let (r, s1) = GetPrivateChatList A metaId otherMetaId (DefaultQuery '''' cursorQ) (chat_size sizeQ)
                            (ParseInt_value (DefaultQuery ''0'' timestampQ)) s
            in (RespSuccess r, s1)))"

definition handlePrivateChatListByIndex ::
    "'s pc_env \<Rightarrow> string option \<Rightarrow> string option \<Rightarrow> string option \<Rightarrow> string option \<Rightarrow> 's \<Rightarrow> PrivateChatListResult api_answer \<times> 's" where
  "handlePrivateChatListByIndex A metaIdQ otherMetaIdQ startIndexQ sizeQ s =
     (let metaId = DefaultQuery '''' metaIdQ; otherMetaId = DefaultQuery '''' otherMetaIdQ
      in if metaId = '''' \<or> otherMetaId = '''' then (RespErr 1 ''metaId and otherMetaId are required'', s)
         else
           (let (r, s1) = GetPrivateChatListByIndex A metaId otherMetaId (ParseInt_value (DefaultQuery ''0'' startIndexQ)) (chat_size sizeQ) s
            in (RespSuccess r, s1)))"

definition handlePrivateGroupPaths :: "'s pc_env \<Rightarrow> string option \<Rightarrow> 's \<Rightarrow> (nat \<times> PrivateGroupPath list) api_answer \<times> 's" where
  "handlePrivateGroupPaths A metaIdQ s =
     (let metaId = DefaultQuery '''' metaIdQ
      in if metaId = '''' then (RespErr 1 ''metaId is required'', s)
         else (let (paths, s1) = GetPrivateGroupPaths A metaId s in (RespSuccess (length paths, paths), s1)))"

definition handleChatHomes :: "'s pc_env \<Rightarrow> string \<Rightarrow> 's \<Rightarrow> PrivateChatHome list api_answer \<times> 's" where
  "handleChatHomes A metaid s =
     (if metaid = '''' then (RespErr 1 ''metaid is required'', s)
      else (let (homes, s1) = GetPrivateChatHomes A metaid s in (RespSuccess homes, s1)))"

subsection \<open>Pins\<close>

definition extractTxId :: "string \<Rightarrow> string" where
  "extractTxId pinId = (case LastIndex pinId '':i'' of Some (Suc n) \<Rightarrow> take (Suc n) pinId | _ \<Rightarrow> pinId)"

definition message_of_pin :: "PinInscription \<Rightarrow> SimpleMsg \<Rightarrow> PrivateMessage" where
  "message_of_pin pin sm =
     \<lparr>pm_FromGlobalMetaId = (if pi_GlobalMetaId pin = '''' then pi_CreateMetaId pin else pi_GlobalMetaId pin),
      pm_From = (if sm_From sm = '''' then (if pi_CreateMetaId pin = '''' then pi_MetaId pin else pi_CreateMetaId pin) else sm_From sm),
      pm_FromAddress = (if pi_CreateAddress pin = '''' then pi_Address pin else pi_CreateAddress pin),
      pm_ToGlobalMetaId = sm_To sm, pm_To = sm_To sm, pm_ToAddress = '''', pm_TxId = extractTxId (pi_Id pin), pm_PinId = pi_Id pin,
      pm_Protocol = pi_Path pin, pm_Content = sm_Content sm, pm_ContentType = sm_ContentType sm,
      pm_Encryption = (if sm_Encrypt sm = '''' then sm_EncryptAlias sm else sm_Encrypt sm), pm_Timestamp = pi_Timestamp pin,
      pm_Chain = pi_ChainName pin, pm_BlockHeight = pi_GenesisHeight pin, pm_Index = - 1\<rparr>"

definition handlePrivateChat :: "'s pc_env \<Rightarrow> PinInscription \<Rightarrow> 's \<Rightarrow> (string + PrivateMessage NotifyEvent option) \<times> 's" where
  "handlePrivateChat A pin s =
     (case pj_SimpleMsg (pc_J A) (pi_ContentBody pin) of
        None \<Rightarrow> (Inr None, s)
      | Some sm \<Rightarrow>
          (if sm_To sm = '''' then (Inr None, s)
           else case SavePrivateMessage A (message_of_pin pin sm) s of
             ((Some e, msg), s1) \<Rightarrow> (Inl e, s1)
           | ((None, msg), s1) \<Rightarrow>
               (Inr (Some \<lparr>ne_Type = ''WS_SERVER_NOTIFY_PRIVATE_CHAT'', ne_MetaId = sm_To sm, ne_GlobalMetaId = '''',
                     ne_TargetIds = identityAliases (pc_U A) (pc_lookup A) (sm_To sm), ne_GroupId = '''', ne_Payload = msg\<rparr>), s1)))"

text \<open>\<open>handlePrivateBlock\<close> parses its content and logs it; it changes nothing and sends nothing.\<close>

definition handlePrivateBlock :: "'s pc_env \<Rightarrow> PinInscription \<Rightarrow> 's \<Rightarrow> (string + PrivateMessage NotifyEvent option) \<times> 's" where
  "handlePrivateBlock A pin s = (Inr None, s)"

definition dispatchPin :: "'s pc_env \<Rightarrow> PinInscription option \<Rightarrow> 's \<Rightarrow> (string + PrivateMessage NotifyEvent option) \<times> 's" where
  "dispatchPin A pin0 s =
     (case pin0 of
        None \<Rightarrow> (Inr None, s)
      | Some pin \<Rightarrow>
          (if pi_Path pin = '''' then (Inr None, s)
           else
             (let pathLower = ToLower (pc_U A) (Trim CHR ''/'' (pi_Path pin))
              in if HasSuffix pathLower ''simplemsg'' then handlePrivateChat A pin s
                 else if HasSuffix pathLower ''simpleprivateblock'' then handlePrivateBlock A pin s
                 else (Inr None, s))))"

text \<open>The notify channel holds 256 events; an event that finds it full is dropped.\<close>

definition sendNotifyEvent :: "'p NotifyEvent \<Rightarrow> 'p NotifyEvent list \<Rightarrow> bool \<times> 'p NotifyEvent list" where
  "sendNotifyEvent event ch = (if length ch < 256 then (True, ch @ [event]) else (False, ch))"

definition PrivateChat_HandlePin ::
    "'s pc_env \<Rightarrow> PinInscription \<Rightarrow> 's \<times> PrivateMessage NotifyEvent list \<Rightarrow> (string + PrivateMessage NotifyEvent option) \<times> 's \<times> PrivateMessage NotifyEvent list" where
  "PrivateChat_HandlePin A pin st =
     (case dispatchPin A (Some pin) (fst st) of
        (Inl e, s1) \<Rightarrow> (Inl e, s1, snd st)
      | (Inr None, s1) \<Rightarrow> (Inr None, s1, snd st)
      | (Inr (Some event), s1) \<Rightarrow> (Inr (Some event), s1, snd (sendNotifyEvent event (snd st))))"

definition PrivateChat_aggregator :: "'s pc_env \<Rightarrow> ('s \<times> PrivateMessage NotifyEvent list, PrivateMessage) Aggregator" where
  "PrivateChat_aggregator A =
     \<lparr>ag_Name = ''privatechat'', ag_Init = (\<lambda>st. (None, fst st, [])), ag_HandleBlockPin = PrivateChat_HandlePin A,
      ag_HandleMempoolPin = PrivateChat_HandlePin A\<rparr>"

subsection \<open>What a conversation holds\<close>

definition collected :: "pc_json \<Rightarrow> (bytes \<times> bytes) list \<Rightarrow> string list \<times> PrivateMessage list" where
  "collected J kvs = foldl (\<lambda>st kv. collect_value J kv st) ([], []) kvs"

definition conversation :: "'s pc_env \<Rightarrow> (bytes \<Rightarrow> bytes option) \<Rightarrow> string \<Rightarrow> string \<Rightarrow> PrivateMessage list" where
  "conversation A c x y = sort_key message_rank (snd (collected (pc_J A) (concat (map (entries_under c) (alias_prefixes A x y)))))"

lemma collected_snoc: "collected J (kvs @ [kv]) = collect_value J kv (collected J kvs)"
  by (simp add: collected_def)

text \<open>Each message key is kept once, the first message that has it.\<close>

lemma collected_keys:
  "set (fst (collected J kvs)) = privateMessageDedupeKey ` set (decoded (pj_Unmarshal J) kvs)
   \<and> set (map privateMessageDedupeKey (snd (collected J kvs))) = privateMessageDedupeKey ` set (decoded (pj_Unmarshal J) kvs)
   \<and> distinct (map privateMessageDedupeKey (snd (collected J kvs))) \<and> set (snd (collected J kvs)) \<subseteq> set (decoded (pj_Unmarshal J) kvs)"
proof (induction kvs rule: rev_induct)
  case Nil
  show ?case by (simp add: collected_def decoded_def List.map_filter_simps)
next
  case (snoc kv kvs)
  show ?case
  proof (cases "pj_Unmarshal J (snd kv)")
    case None
    then show ?thesis using snoc by (simp add: collected_snoc decoded_snoc collect_value_def)
  next
    case (Some m)
    then show ?thesis using snoc
      by (cases "privateMessageDedupeKey m \<in> set (fst (collected J kvs))")
        (auto simp: collected_snoc decoded_snoc collect_value_def)
  qed
qed

text \<open>A message with a key of its own is kept.\<close>

lemma collected_unique:
  assumes "m \<in> set (decoded (pj_Unmarshal J) kvs)" and "\<And>m'. m' \<in> set (decoded (pj_Unmarshal J) kvs) \<Longrightarrow> privateMessageDedupeKey m' = privateMessageDedupeKey m \<Longrightarrow> m' = m"
  shows "m \<in> set (snd (collected J kvs))"
proof -
  have "privateMessageDedupeKey m \<in> set (map privateMessageDedupeKey (snd (collected J kvs)))"
    using collected_keys [of J kvs] assms(1) by auto
  then obtain m' where "m' \<in> set (snd (collected J kvs))" "privateMessageDedupeKey m' = privateMessageDedupeKey m" by auto
  then show ?thesis using assms(2) [of m'] collected_keys [of J kvs] by auto
qed

context kv_reliable
begin

lemma collect_scans_eq:
  assumes "inv s"
  shows "\<exists>s'. collect_scans K J ps st s
      = (foldl (\<lambda>st kv. collect_value J kv st) st (concat (map (entries_under (content s (loc pc_namespace))) ps)), s') \<and> inv s' \<and> content s' = content s"
  using assms
proof (induction ps arbitrary: st s)
  case (Cons p ps)
  obtain s1 where s1: "kv_Scan K pc_namespace p s = (Inr (entries_under (content s (loc pc_namespace)) p), s1)" "inv s1" "content s1 = content s"
    by (rule scan_entries [OF Cons.prems])
  show ?case using Cons.IH [OF s1(2)] s1(1,3) by simp
qed simp

lemma collect_eq:
  assumes "inv s" and "pc_K A = K"
  obtains s' where "collectPrivateMessages A x y s = (conversation A (content s (loc pc_namespace)) x y, s')" and "inv s'" and "content s' = content s"
proof (cases "alias_prefixes A x y = []")
  case True
  then have "identityAliases (pc_U A) (pc_lookup A) x = [] \<or> identityAliases (pc_U A) (pc_lookup A) y = []"
    by (cases "identityAliases (pc_U A) (pc_lookup A) x"; cases "identityAliases (pc_U A) (pc_lookup A) y") (auto simp: alias_prefixes_def)
  then have "collectPrivateMessages A x y s = (conversation A (content s (loc pc_namespace)) x y, s)"
    using True by (simp add: collectPrivateMessages_def conversation_def collected_def)
  then show thesis using assms(1) that by blast
next
  case False
  then have "\<not> (identityAliases (pc_U A) (pc_lookup A) x = [] \<or> identityAliases (pc_U A) (pc_lookup A) y = [])"
    by (auto simp: alias_prefixes_def)
  moreover obtain s' where "collect_scans K (pc_J A) (alias_prefixes A x y) ([], []) s
      = (collected (pc_J A) (concat (map (entries_under (content s (loc pc_namespace))) (alias_prefixes A x y))), s')" "inv s'" "content s' = content s"
    using collect_scans_eq [OF assms(1)] unfolding collected_def by blast
  ultimately show thesis using that assms(2) by (simp add: collectPrivateMessages_def conversation_def)
qed

lemma GetPrivateChatList_eq:
  assumes "inv s" and "pc_K A = K"
  obtains s' where "GetPrivateChatList A x y cur sz 0 s = (page_desc pm_Timestamp (conversation A (content s (loc pc_namespace)) x y) cur sz, s')"
    and "inv s'" and "content s' = content s"
proof -
  obtain s' where "collectPrivateMessages A x y s = (conversation A (content s (loc pc_namespace)) x y, s')" "inv s'" "content s' = content s"
    by (rule collect_eq [OF assms])
  then show thesis using that by (simp add: GetPrivateChatList_def chat_page_def)
qed

end

text \<open>Every reliable store makes the private message list a paged list of the conversation it holds.\<close>

sublocale kv_reliable \<subseteq> private_pages: paged_list "\<lambda>cur. GetPrivateChatList (A\<lparr>pc_K := K\<rparr>) x y cur sz 0" pm_Timestamp
  "conversation (A\<lparr>pc_K := K\<rparr>) c x y" sz "\<lambda>s. inv s \<and> content s (loc pc_namespace) = c" for A c x y sz
proof
  fix s cur
  assume s: "inv s \<and> content s (loc pc_namespace) = c"
  obtain s' where "GetPrivateChatList (A\<lparr>pc_K := K\<rparr>) x y cur sz 0 s = (page_desc pm_Timestamp (conversation (A\<lparr>pc_K := K\<rparr>) c x y) cur sz, s')"
    "inv s'" "content s' = content s"
    using GetPrivateChatList_eq [of s "A\<lparr>pc_K := K\<rparr>" x y cur sz] s by auto
  then show "\<exists>s'. GetPrivateChatList (A\<lparr>pc_K := K\<rparr>) x y cur sz 0 s = (page_desc pm_Timestamp (conversation (A\<lparr>pc_K := K\<rparr>) c x y) cur sz, s')
      \<and> inv s' \<and> content s' (loc pc_namespace) = c"
    using s by auto
qed

context kv_reliable
begin

lemma follow_private:
  assumes "inv s" and "pc_K A = K" and "1 \<le> sz" and "length (conversation A (content s (loc pc_namespace)) x y) < fuel"
    and "int (length (conversation A (content s (loc pc_namespace)) x y)) < 2 ^ 63"
  shows "follow_pages (\<lambda>cur. GetPrivateChatList A x y cur sz 0) fuel '''' s = Some (rev (conversation A (content s (loc pc_namespace)) x y))"
proof -
  have e: "A\<lparr>pc_K := K\<rparr> = A" using assms(2) by simp
  show ?thesis
    by (rule private_pages.follow_all [of sz A "content s (loc pc_namespace)" x y s fuel, unfolded e, OF assms(3,5) _ assms(4)])
      (use assms(1) in simp)
qed

end

subsection \<open>Keys and prefixes\<close>

definition msg_key :: "PrivateMessage \<Rightarrow> bytes" where
  "msg_key m = pchatKey (pm_From m) (pm_To m) (pm_Timestamp m) (pm_TxId m)"

definition same_pair :: "string \<Rightarrow> string \<Rightarrow> PrivateMessage \<Rightarrow> bool" where
  "same_pair x y m \<longleftrightarrow> pm_From m = x \<and> pm_To m = y \<or> pm_From m = y \<and> pm_To m = x"

lemma sortMetas_sym: "sortMetas a b = sortMetas b a"
  by (auto simp: sortMetas_def)

lemma sortMetas_eq: "sortMetas a b = sortMetas x y \<longleftrightarrow> a = x \<and> b = y \<or> a = y \<and> b = x"
  by (auto simp: sortMetas_def)

lemma sortMetas_free: "colon_free a \<Longrightarrow> colon_free b \<Longrightarrow> colon_free (fst (sortMetas a b)) \<and> colon_free (snd (sortMetas a b))"
  by (simp add: sortMetas_def)

lemma pchat_prefix_iff:
  assumes "colon_free a" "colon_free b" "colon_free x" "colon_free y"
  shows "prefix (pchatPrefix x y) (pchatKey a b t i) \<longleftrightarrow> sortMetas a b = sortMetas x y"
  using sortMetas_free [OF assms(1,2)] sortMetas_free [OF assms(3,4)]
  by (cases "sortMetas a b"; cases "sortMetas x y") (auto simp: pchatPrefix_def pchatKey_def colon_free_def sep_prefix)

lemma pchatKey_tx:
  assumes "colon_free a" "colon_free b" "colon_free a'" "colon_free b'" and "pchatKey a b t i = pchatKey a' b' t' i'"
  shows "i = i'"
  using sortMetas_free [OF assms(1,2)] sortMetas_free [OF assms(3,4)] assms(5)
  by (cases "sortMetas a b"; cases "sortMetas a' b'") (simp add: pchatKey_def colon_free_def sep_eq Sprintf_0d_colon)

lemma aliases_none:
  assumes "TrimSpace x = x" and "x \<noteq> ''''"
  shows "identityAliases U None x = [x]"
  using assms by (simp add: identityAliases_def add_target_def)

lemma prefixes_none:
  assumes "pc_lookup A = None" and "TrimSpace x = x" "x \<noteq> ''''" and "TrimSpace y = y" "y \<noteq> ''''"
  shows "alias_prefixes A x y = [pchatPrefix x y]"
  using assms by (simp add: alias_prefixes_def aliases_none)

subsection \<open>The stored messages\<close>

text \<open>The message a pin is turned into, with its index still to be assigned.\<close>

definition chat_of_pin :: "'s pc_env \<Rightarrow> PinInscription \<Rightarrow> PrivateMessage option" where
  "chat_of_pin A pin =
     (if pi_Path pin \<noteq> '''' \<and> HasSuffix (ToLower (pc_U A) (Trim CHR ''/'' (pi_Path pin))) ''simplemsg''
      then (case pj_SimpleMsg (pc_J A) (pi_ContentBody pin) of
              None \<Rightarrow> None | Some sm \<Rightarrow> if sm_To sm = '''' then None else Some (message_of_pin pin sm))
      else None)"

text \<open>The message survives \<open>encoding/json\<close>, whatever its index; so it is for text in valid UTF-8.\<close>

definition json_keeps :: "pc_json \<Rightarrow> PrivateMessage \<Rightarrow> bool" where
  "json_keeps J m \<longleftrightarrow>
     (\<forall>i. int64_ok i \<longrightarrow> (case pj_Marshal J (m\<lparr>pm_Index := i\<rparr>) of Inl e \<Rightarrow> False | Inr raw \<Rightarrow> pj_Unmarshal J raw = Some (m\<lparr>pm_Index := i\<rparr>)))"

text \<open>A database holds the messages \<open>ms\<close>, each under its key and with some index.\<close>

definition chat_store :: "pc_json \<Rightarrow> PrivateMessage set \<Rightarrow> (bytes \<Rightarrow> bytes option) \<Rightarrow> bool" where
  "chat_store J ms c \<longleftrightarrow>
     (\<forall>k v. c k = Some v \<longrightarrow> (\<exists>m \<in> ms. \<exists>i. pj_Unmarshal J v = Some (m\<lparr>pm_Index := i\<rparr>) \<and> k = msg_key m)) \<and> (\<forall>m \<in> ms. c (msg_key m) \<noteq> None)"

lemma chat_store_empty: "chat_store J {} Map.empty"
  by (simp add: chat_store_def)

lemma chat_store_save:
  "chat_store J ms c \<Longrightarrow> pj_Unmarshal J raw = Some (m\<lparr>pm_Index := i\<rparr>) \<Longrightarrow> chat_store J (insert m ms) (c(msg_key m \<mapsto> raw))"
proof -
  assume c: "chat_store J ms c" and r: "pj_Unmarshal J raw = Some (m\<lparr>pm_Index := i\<rparr>)"
  have "\<exists>m' \<in> insert m ms. \<exists>i. pj_Unmarshal J v = Some (m'\<lparr>pm_Index := i\<rparr>) \<and> k = msg_key m'" if "(c(msg_key m \<mapsto> raw)) k = Some v" for k v
  proof (cases "k = msg_key m")
    case True
    then have "v = raw" using that by simp
    then show ?thesis using r True by blast
  next
    case False
    then have "c k = Some v" using that by simp
    then show ?thesis using c unfolding chat_store_def by blast
  qed
  moreover have "(c(msg_key m \<mapsto> raw)) (msg_key m') \<noteq> None" if "m' \<in> insert m ms" for m'
    using c that by (auto simp: chat_store_def)
  ultimately show ?thesis unfolding chat_store_def by blast
qed

lemma message_of_pin_sel [simp]:
  "pm_To (message_of_pin pin sm) = sm_To sm" "pm_Index (message_of_pin pin sm) = - 1" "pm_PinId (message_of_pin pin sm) = pi_Id pin"
  "pm_TxId (message_of_pin pin sm) = extractTxId (pi_Id pin)" "pm_Timestamp (message_of_pin pin sm) = pi_Timestamp pin"
  by (simp_all add: message_of_pin_def)

lemma dispatchPin_chat:
  "dispatchPin A (Some pin) s =
     (case chat_of_pin A pin of
        None \<Rightarrow> (Inr None, s)
      | Some m \<Rightarrow> (case SavePrivateMessage A m s of
            ((Some e, msg), s1) \<Rightarrow> (Inl e, s1)
          | ((None, msg), s1) \<Rightarrow>
              (Inr (Some \<lparr>ne_Type = ''WS_SERVER_NOTIFY_PRIVATE_CHAT'', ne_MetaId = pm_To m, ne_GlobalMetaId = '''',
                 ne_TargetIds = identityAliases (pc_U A) (pc_lookup A) (pm_To m), ne_GroupId = '''', ne_Payload = msg\<rparr>), s1)))"
  by (simp add: dispatchPin_def handlePrivateChat_def handlePrivateBlock_def chat_of_pin_def Let_def split: option.split prod.split)

lemma chat_of_pin_index: "chat_of_pin A pin = Some m \<Longrightarrow> pm_Index m = - 1"
  by (auto simp: chat_of_pin_def split: if_splits option.splits)

lemma msg_key_index [simp]: "msg_key (m\<lparr>pm_Index := i\<rparr>) = msg_key m"
  by (simp add: msg_key_def)

context kv_reliable
begin

lemma Save_eq:
  assumes "inv s" and "pc_K A = K" and "pm_Index m = - 1" and "json_keeps (pc_J A) m"
    and "i = next_index pm_Index (conversation A (content s (loc pc_namespace)) (pm_From m) (pm_To m))"
  obtains s' raw where "SavePrivateMessage A m s = ((None, m\<lparr>pm_Index := i\<rparr>), s')" and "inv s'"
    and "pj_Unmarshal (pc_J A) raw = Some (m\<lparr>pm_Index := i\<rparr>)"
    and "content s' = (content s)(loc pc_namespace := (content s (loc pc_namespace))(msg_key m \<mapsto> raw))"
proof -
  obtain s1 where s1: "collectPrivateMessages A (pm_From m) (pm_To m) s = (conversation A (content s (loc pc_namespace)) (pm_From m) (pm_To m), s1)"
    "inv s1" "content s1 = content s"
    by (rule collect_eq [OF assms(1,2)])
  then have n: "nextPrivateMessageIndex A (pm_From m) (pm_To m) s = (i, s1)" by (simp add: nextPrivateMessageIndex_def assms(5))
  have "int64_ok i" unfolding assms(5) by (rule next_index_range)
  then obtain raw where raw: "pj_Marshal (pc_J A) (m\<lparr>pm_Index := i\<rparr>) = Inr raw" "pj_Unmarshal (pc_J A) raw = Some (m\<lparr>pm_Index := i\<rparr>)"
    using assms(4) unfolding json_keeps_def by (cases "pj_Marshal (pc_J A) (m\<lparr>pm_Index := i\<rparr>)") fastforce+
  obtain s2 where s2: "kv_Set K pc_namespace (msg_key m) raw s1 = (None, s2)" "inv s2"
    "content s2 = (content s1)(loc pc_namespace := (content s1 (loc pc_namespace))(msg_key m \<mapsto> raw))"
    by (rule Set_eq [OF s1(2)])
  have "SavePrivateMessage A m s = ((None, m\<lparr>pm_Index := i\<rparr>), s2)"
    using n raw(1) s2(1) assms(2,3) by (simp add: SavePrivateMessage_def msg_key_def)
  then show thesis using that raw(2) s2(2,3) s1(3) by metis
qed

lemma HandlePin_store:
  assumes "inv (fst st)" and "pc_K A = K" and "\<And>m. chat_of_pin A pin = Some m \<Longrightarrow> json_keeps (pc_J A) m"
    and "chat_store (pc_J A) ms (content (fst st) (loc pc_namespace))"
  shows "inv (fst (snd (PrivateChat_HandlePin A pin st)))
    \<and> chat_store (pc_J A) (ms \<union> set_option (chat_of_pin A pin)) (content (fst (snd (PrivateChat_HandlePin A pin st))) (loc pc_namespace))"
proof (cases "chat_of_pin A pin")
  case None
  then show ?thesis using assms by (simp add: PrivateChat_HandlePin_def dispatchPin_chat)
next
  case (Some m)
  obtain s' raw i where s': "SavePrivateMessage A m (fst st) = ((None, m\<lparr>pm_Index := i\<rparr>), s')" "inv s'"
    "pj_Unmarshal (pc_J A) raw = Some (m\<lparr>pm_Index := i\<rparr>)"
    "content s' = (content (fst st))(loc pc_namespace := (content (fst st) (loc pc_namespace))(msg_key m \<mapsto> raw))"
    using Save_eq [OF assms(1,2) chat_of_pin_index [OF Some] assms(3) [OF Some] refl] by metis
  then show ?thesis using Some chat_store_save [OF assms(4) s'(3)]
    by (simp add: PrivateChat_HandlePin_def dispatchPin_chat)
qed

lemma run_store:
  assumes "inv (fst st)" and "pc_K A = K" and "content (fst st) (loc pc_namespace) = Map.empty"
    and "\<forall>m \<in> set (List.map_filter (chat_of_pin A) pins). json_keeps (pc_J A) m"
  shows "inv (fst (foldl (\<lambda>st p. snd (PrivateChat_HandlePin A p st)) st pins))
    \<and> chat_store (pc_J A) (set (List.map_filter (chat_of_pin A) pins))
        (content (fst (foldl (\<lambda>st p. snd (PrivateChat_HandlePin A p st)) st pins)) (loc pc_namespace))"
  using assms(4)
proof (induction pins rule: rev_induct)
  case Nil
  show ?case using assms(1,3) chat_store_empty by (simp add: List.map_filter_simps)
next
  case (snoc p pins)
  have f: "set (List.map_filter (chat_of_pin A) (pins @ [p])) = set (List.map_filter (chat_of_pin A) pins) \<union> set_option (chat_of_pin A p)"
    by (auto simp: List.map_filter_def split: option.splits)
  have j: "json_keeps (pc_J A) m" if "chat_of_pin A p = Some m" for m using snoc.prems that unfolding f by simp
  from snoc.IH snoc.prems have "inv (fst (foldl (\<lambda>st p. snd (PrivateChat_HandlePin A p st)) st pins))"
    and "chat_store (pc_J A) (set (List.map_filter (chat_of_pin A) pins))
        (content (fst (foldl (\<lambda>st p. snd (PrivateChat_HandlePin A p st)) st pins)) (loc pc_namespace))"
    unfolding f by auto
  from HandlePin_store [OF this(1) assms(2) j this(2)] show ?case unfolding f by simp
qed

end

context kv_reliable
begin

lemma conversation_decoded:
  assumes "inv s" and "pc_lookup A = None" and "TrimSpace x = x" "x \<noteq> ''''" and "TrimSpace y = y" "y \<noteq> ''''"
    and "kvs = entries_under (content s (loc pc_namespace)) (pchatPrefix x y)"
  shows "conversation A (content s (loc pc_namespace)) x y = sort_key message_rank (snd (collected (pc_J A) kvs))"
    and "m \<in> set (decoded (pj_Unmarshal (pc_J A)) kvs) \<longleftrightarrow>
      (\<exists>k v. content s (loc pc_namespace) k = Some v \<and> prefix (pchatPrefix x y) k \<and> pj_Unmarshal (pc_J A) v = Some m)"
proof -
  show "conversation A (content s (loc pc_namespace)) x y = sort_key message_rank (snd (collected (pc_J A) kvs))"
    by (simp add: conversation_def prefixes_none [OF assms(2-6)] assms(7))
  show "m \<in> set (decoded (pj_Unmarshal (pc_J A)) kvs) \<longleftrightarrow>
      (\<exists>k v. content s (loc pc_namespace) k = Some v \<and> prefix (pchatPrefix x y) k \<and> pj_Unmarshal (pc_J A) v = Some m)"
    unfolding assms(7) by (rule entries_decoded [OF assms(1)])
qed

lemma conversation_exact:
  assumes "inv s" and "pc_lookup A = None" and "TrimSpace x = x" "x \<noteq> ''''" and "TrimSpace y = y" "y \<noteq> ''''"
    and "colon_free x" "colon_free y" and "chat_store (pc_J A) ms (content s (loc pc_namespace))"
    and "\<And>m. m \<in> ms \<Longrightarrow> pm_PinId m \<noteq> '''' \<and> pm_TxId m = pm_PinId m \<and> colon_free (pm_From m) \<and> colon_free (pm_To m)"
    and "list = conversation A (content s (loc pc_namespace)) x y"
  shows "pm_PinId ` set list = pm_PinId ` {m \<in> ms. same_pair x y m}" and "distinct (map pm_PinId list)"
    and "\<And>m'. m' \<in> set list \<Longrightarrow> \<exists>m \<in> ms. same_pair x y m \<and> (\<exists>i. m' = m\<lparr>pm_Index := i\<rparr>)" and "sorted (map pm_Timestamp list)"
proof -
  let ?c = "content s (loc pc_namespace)" and ?J = "pc_J A"
  define kvs where "kvs = entries_under ?c (pchatPrefix x y)"
  note cd = conversation_decoded [OF assms(1-6) kvs_def]
  have under: "prefix (pchatPrefix x y) (msg_key m) \<longleftrightarrow> same_pair x y m" if "m \<in> ms" for m
    using assms(7,8,10) that by (auto simp: msg_key_def pchat_prefix_iff sortMetas_eq same_pair_def)
  have dec: "\<exists>m \<in> ms. same_pair x y m \<and> (\<exists>i. m' = m\<lparr>pm_Index := i\<rparr>)" if m': "m' \<in> set (decoded (pj_Unmarshal ?J) kvs)" for m'
  proof -
    from m' obtain k v where k: "?c k = Some v" "prefix (pchatPrefix x y) k" "pj_Unmarshal ?J v = Some m'" unfolding cd(2) by blast
    then obtain m i where m: "m \<in> ms" "pj_Unmarshal ?J v = Some (m\<lparr>pm_Index := i\<rparr>)" "k = msg_key m"
      using assms(9) unfolding chat_store_def by blast
    then show ?thesis using k under [OF m(1)] by auto
  qed
  have key: "privateMessageDedupeKey m' = pm_PinId m'" if "m' \<in> set (decoded (pj_Unmarshal ?J) kvs)" for m'
    using dec [OF that] assms(10) by (auto simp: privateMessageDedupeKey_def)
  have sub: "set list \<subseteq> set (decoded (pj_Unmarshal ?J) kvs)" unfolding assms(11) cd(1) using collected_keys [of ?J kvs] by simp
  then show "\<And>m'. m' \<in> set list \<Longrightarrow> \<exists>m \<in> ms. same_pair x y m \<and> (\<exists>i. m' = m\<lparr>pm_Index := i\<rparr>)" using dec by blast
  have "distinct (map privateMessageDedupeKey list)"
    unfolding assms(11) cd(1) using collected_keys [of ?J kvs] by (simp add: distinct_map)
  moreover have "map privateMessageDedupeKey list = map pm_PinId list" using sub key by (intro map_cong) auto
  ultimately show "distinct (map pm_PinId list)" by simp
  have "privateMessageDedupeKey ` set list = privateMessageDedupeKey ` set (decoded (pj_Unmarshal ?J) kvs)"
    unfolding assms(11) cd(1) using collected_keys [of ?J kvs] by simp
  then have ids: "pm_PinId ` set list = pm_PinId ` set (decoded (pj_Unmarshal ?J) kvs)" using sub key by (auto simp: image_def set_eq_iff) (metis subsetD)+
  have "pm_PinId m \<in> pm_PinId ` set (decoded (pj_Unmarshal ?J) kvs)" if m: "m \<in> ms" "same_pair x y m" for m
  proof -
    obtain v where v: "?c (msg_key m) = Some v" using assms(9) m(1) by (auto simp: chat_store_def)
    then obtain m2 i where m2: "m2 \<in> ms" "pj_Unmarshal ?J v = Some (m2\<lparr>pm_Index := i\<rparr>)" "msg_key m = msg_key m2"
      using assms(9) unfolding chat_store_def by blast
    then have "pm_TxId m = pm_TxId m2" using pchatKey_tx assms(10) [OF m(1)] assms(10) [OF m2(1)] unfolding msg_key_def by blast
    then have "pm_PinId m = pm_PinId m2" using assms(10) [OF m(1)] assms(10) [OF m2(1)] by simp
    moreover have "m2\<lparr>pm_Index := i\<rparr> \<in> set (decoded (pj_Unmarshal ?J) kvs)" unfolding cd(2) using v m2(2) under [OF m(1)] m(2) by blast
    ultimately show ?thesis by (intro image_eqI [of _ _ "m2\<lparr>pm_Index := i\<rparr>"]) simp_all
  qed
  then show "pm_PinId ` set list = pm_PinId ` {m \<in> ms. same_pair x y m}" 
    unfolding ids using dec by (intro subset_antisym image_subsetI) force+
  have "sorted (map message_rank list)" unfolding assms(11) cd(1) by simp
  then have "sorted_wrt (\<lambda>m n. pm_Timestamp m \<le> pm_Timestamp n) list"
    unfolding sorted_map by (rule sorted_wrt_mono_rel [rotated]) (auto simp: message_rank_def less_eq_prod_def)
  then show "sorted (map pm_Timestamp list)" by (simp add: sorted_map)
qed

end

subsection \<open>Indexes\<close>

context kv_reliable
begin

lemma conversation_mem_decoded:
  assumes "inv s" and "n \<in> set (conversation A (content s (loc pc_namespace)) x y)"
  shows "\<exists>k v. content s (loc pc_namespace) k = Some v \<and> pj_Unmarshal (pc_J A) v = Some n"
proof -
  let ?kvs = "concat (map (entries_under (content s (loc pc_namespace))) (alias_prefixes A x y))"
  have "n \<in> set (decoded (pj_Unmarshal (pc_J A)) ?kvs)" using assms(2) collected_keys [of "pc_J A" ?kvs] by (auto simp: conversation_def)
  then obtain kv p where "kv \<in> set (entries_under (content s (loc pc_namespace)) p)" "pj_Unmarshal (pc_J A) (snd kv) = Some n"
    unfolding decoded_mem by auto
  then show ?thesis unfolding entries_mem [OF assms(1)] by blast
qed

lemma HandlePin_event:
  assumes "inv (fst st)" and "pc_K A = K" and "chat_of_pin A pin = Some m" and "json_keeps (pc_J A) m"
    and "PrivateChat_HandlePin A pin st = (Inr (Some e), st')"
    and "i = next_index pm_Index (conversation A (content (fst st) (loc pc_namespace)) (pm_From m) (pm_To m))"
  obtains raw where "ne_Payload e = m\<lparr>pm_Index := i\<rparr>" and "inv (fst st')" and "pj_Unmarshal (pc_J A) raw = Some (m\<lparr>pm_Index := i\<rparr>)"
    and "content (fst st') = (content (fst st))(loc pc_namespace := (content (fst st) (loc pc_namespace))(msg_key m \<mapsto> raw))"
proof -
  obtain s' raw where s': "SavePrivateMessage A m (fst st) = ((None, m\<lparr>pm_Index := i\<rparr>), s')" "inv s'"
    "pj_Unmarshal (pc_J A) raw = Some (m\<lparr>pm_Index := i\<rparr>)"
    "content s' = (content (fst st))(loc pc_namespace := (content (fst st) (loc pc_namespace))(msg_key m \<mapsto> raw))"
    by (rule Save_eq [OF assms(1,2) chat_of_pin_index [OF assms(3)] assms(4,6)])
  then show thesis using that assms(3,5) by (auto simp: PrivateChat_HandlePin_def dispatchPin_chat)
qed

lemma HandlePin_total:
  assumes "inv (fst st)" and "pc_K A = K" and "chat_of_pin A pin = Some m" and "json_keeps (pc_J A) m"
  shows "\<exists>e st'. PrivateChat_HandlePin A pin st = (Inr (Some e), st') \<and> inv (fst st')"
proof -
  obtain s' i where "SavePrivateMessage A m (fst st) = ((None, m\<lparr>pm_Index := i\<rparr>), s')" "inv s'"
    using Save_eq [OF assms(1,2) chat_of_pin_index [OF assms(3)] assms(4) refl] by metis
  then show ?thesis using assms(3) by (simp add: PrivateChat_HandlePin_def dispatchPin_chat)
qed

lemma reprocess_index:
  assumes "inv (fst st)" and "pc_K A = K" and "pc_lookup A = None"
    and m: "chat_of_pin A pin = Some m" "json_keeps (pc_J A) m" and m': "chat_of_pin A pin' = Some m'" "json_keeps (pc_J A) m'"
    and eq: "pm_From m' = pm_From m" "pm_To m' = pm_To m" and ne: "pm_PinId m \<noteq> ''''"
    and x: "TrimSpace (pm_From m) = pm_From m" "pm_From m \<noteq> ''''" and y: "TrimSpace (pm_To m) = pm_To m" "pm_To m \<noteq> ''''"
    and fresh: "\<And>k v n. content (fst st) (loc pc_namespace) k = Some v \<Longrightarrow> pj_Unmarshal (pc_J A) v = Some n
      \<Longrightarrow> privateMessageDedupeKey n \<noteq> pm_PinId m \<and> pm_Index n < 2 ^ 62"
    and h1: "PrivateChat_HandlePin A pin st = (Inr (Some e), st1)" and h2: "PrivateChat_HandlePin A pin' st1 = (Inr (Some e'), st2)"
  shows "pm_Index (ne_Payload e) < pm_Index (ne_Payload e')"
proof -
  let ?c = "content (fst st) (loc pc_namespace)" and ?x = "pm_From m" and ?y = "pm_To m"
  define i where "i = next_index pm_Index (conversation A ?c ?x ?y)"
  obtain raw where r: "ne_Payload e = m\<lparr>pm_Index := i\<rparr>" "inv (fst st1)" "pj_Unmarshal (pc_J A) raw = Some (m\<lparr>pm_Index := i\<rparr>)"
    "content (fst st1) = (content (fst st))(loc pc_namespace := ?c(msg_key m \<mapsto> raw))"
    by (rule HandlePin_event [OF assms(1,2) m h1 i_def])
  let ?c1 = "content (fst st1) (loc pc_namespace)"
  have c1: "?c1 = ?c(msg_key m \<mapsto> raw)" by (simp add: r(4))
  have small: "pm_Index n < 2 ^ 62" if "n \<in> set (conversation A ?c ?x ?y)" for n
    using conversation_mem_decoded [OF assms(1) that] fresh by blast
  then have i: "i \<le> 2 ^ 62"
    unfolding i_def using next_index_gt(1) [of "conversation A ?c ?x ?y" pm_Index] fold_max_bounds(3) [of "- 1" "2 ^ 62" "conversation A ?c ?x ?y" pm_Index] by fastforce
  have only: "n = m\<lparr>pm_Index := i\<rparr> \<or> privateMessageDedupeKey n \<noteq> pm_PinId m \<and> pm_Index n < 2 ^ 62"
    if "?c1 k = Some v" "pj_Unmarshal (pc_J A) v = Some n" for k v n
    using that r(3) fresh [of k v n] by (cases "k = msg_key m") (auto simp: c1)
  define kvs where "kvs = entries_under ?c1 (pchatPrefix ?x ?y)"
  note cd = conversation_decoded [OF r(2) assms(3) x y kvs_def]
  have key: "privateMessageDedupeKey (m\<lparr>pm_Index := i\<rparr>) = pm_PinId m" using ne by (simp add: privateMessageDedupeKey_def)
  have "prefix (pchatPrefix ?x ?y) (msg_key m)" by (simp add: msg_key_def pchatPrefix_def pchatKey_def split: prod.split)
  then have "m\<lparr>pm_Index := i\<rparr> \<in> set (decoded (pj_Unmarshal (pc_J A)) kvs)" unfolding cd(2) using r(3) c1 by (metis fun_upd_same)
  moreover have "n = m\<lparr>pm_Index := i\<rparr>"
    if "n \<in> set (decoded (pj_Unmarshal (pc_J A)) kvs)" "privateMessageDedupeKey n = privateMessageDedupeKey (m\<lparr>pm_Index := i\<rparr>)" for n
    using that only unfolding cd(2) key by blast
  ultimately have "m\<lparr>pm_Index := i\<rparr> \<in> set (snd (collected (pc_J A) kvs))" by (rule collected_unique)
  then have mem: "m\<lparr>pm_Index := i\<rparr> \<in> set (conversation A ?c1 ?x ?y)" unfolding cd(1) by simp
  have "pm_Index n < 2 ^ 63 - 1" if "n \<in> set (conversation A ?c1 ?x ?y)" for n
  proof -
    have "pm_Index n \<le> 2 ^ 62" using conversation_mem_decoded [OF r(2) that] only i by fastforce
    then show ?thesis by simp
  qed
  from next_index_gt(2) [of "conversation A ?c1 ?x ?y" pm_Index, OF this mem] have "i < next_index pm_Index (conversation A ?c1 ?x ?y)" by simp
  moreover have "pm_Index (ne_Payload e') = next_index pm_Index (conversation A ?c1 ?x ?y)"
    using HandlePin_event [OF r(2) assms(2) m' h2 refl] unfolding eq by (metis PrivateMessage.select_convs(16) PrivateMessage.surjective PrivateMessage.update_convs(16))
  ultimately show ?thesis using r(1) by simp
qed

end

subsection \<open>Conversations after a run\<close>

lemma run_conversation:
  assumes "kv_reliable (pc_K A) loc content ok" and "ok s" and "content s (loc pc_namespace) = Map.empty" and "pc_lookup A = None"
    and "ms = List.map_filter (chat_of_pin A) pins" and "\<forall>m \<in> set ms. json_keeps (pc_J A) m"
    and "\<forall>m \<in> set ms. pm_PinId m \<noteq> '''' \<and> pm_TxId m = pm_PinId m \<and> colon_free (pm_From m) \<and> colon_free (pm_To m)"
    and "TrimSpace x = x" "x \<noteq> ''''" "colon_free x" and "TrimSpace y = y" "y \<noteq> ''''" "colon_free y"
    and "list = fst (collectPrivateMessages A x y (fst (foldl (\<lambda>st p. snd (PrivateChat_HandlePin A p st)) (s, ch) pins)))"
  shows "pm_PinId ` set list = pm_PinId ` {m \<in> set ms. same_pair x y m} \<and> distinct (map pm_PinId list)
    \<and> (\<forall>m' \<in> set list. \<exists>m \<in> set ms. same_pair x y m \<and> (\<exists>i. m' = m\<lparr>pm_Index := i\<rparr>)) \<and> sorted (map pm_Timestamp list)"
proof -
  let ?s = "fst (foldl (\<lambda>st p. snd (PrivateChat_HandlePin A p st)) (s, ch) pins)"
  have run: "ok ?s \<and> chat_store (pc_J A) (set ms) (content ?s (loc pc_namespace))"
    unfolding assms(5) by (rule kv_reliable.run_store [OF assms(1) _ refl]) (use assms(2,3,5,6) in auto)
  then obtain s' where "collectPrivateMessages A x y ?s = (conversation A (content ?s (loc pc_namespace)) x y, s')"
    using kv_reliable.collect_eq [OF assms(1) _ refl, of ?s] by metis
  then have l: "list = conversation A (content ?s (loc pc_namespace)) x y" by (simp add: assms(14))
  note ex = kv_reliable.conversation_exact [OF assms(1) conjunct1 [OF run] assms(4,8,9,11,12,10,13) conjunct2 [OF run] _ l]
  show ?thesis using ex assms(7) by blast
qed

subsection \<open>Pages by index\<close>

text \<open>The list by index holds the first \<open>sz\<close> messages of the conversation from \<open>startIndex\<close> on, by index.\<close>

lemma list_by_index:
  assumes "1 \<le> sz"
  shows "pl_List (fst (GetPrivateChatListByIndex A x y startIndex sz s))
    = take (nat sz) (filter (\<lambda>m. startIndex \<le> pm_Index m) (sort_key index_rank (fst (collectPrivateMessages A x y s))))"
  using index_page_eq [of "[]" sz pm_Index startIndex "sort_key index_rank (fst (collectPrivateMessages A x y s))" 0] assms
  by (simp add: GetPrivateChatListByIndex_def split_def Let_def)

text \<open>An identity with a colon: the messages from \<open>x\<close> to \<open>y:z\<close> are stored under the prefix that the conversation of \<open>x\<close> and
  \<open>y\<close> reads.\<close>

lemma colon_identity_shares_prefix:
  assumes "x < y"
  shows "prefix (pchatPrefix x y) (pchatKey x (y @ '':'' @ z) timestamp txId)"
proof -
  have "y \<le> y @ '':'' @ z" by (induction y) auto
  then have "x < y @ '':'' @ z" using assms by (rule order.strict_trans2 [rotated])
  then show ?thesis using assms by (simp add: pchatPrefix_def pchatKey_def sortMetas_def)
qed

subsection \<open>A concrete module\<close>

definition demo_msg_pin :: PinInscription where
  "demo_msg_pin =
     \<lparr>pi_Id = ''ti0'', pi_Number = 0, pi_Path = ''/protocols/simplemsg'', pi_OriginalPath = [], pi_Operation = ''create'', pi_ContentBody = ''{}'',
      pi_ContentSummary = [], pi_ContentType = [], pi_Creator = [], pi_CreateAddress = [], pi_CreateMetaId = ''alice'', pi_MetaId = [],
      pi_GlobalMetaId = [], pi_Address = [], pi_ChainName = ''mvc'', pi_GenesisTransaction = ''t'', pi_GenesisHeight = - 1, pi_Timestamp = 1700000000,
      pi_Output = [], pi_IsTransfered = False, pi_OriginalId = [], pi_Host = []\<rparr>"

definition demo_simplemsg :: SimpleMsg where
  "demo_simplemsg = \<lparr>sm_From = [], sm_To = ''bob'', sm_Content = ''hi'', sm_ContentType = ''text/plain'', sm_Encrypt = [], sm_EncryptAlias = [],
     sm_ReplyPin = [], sm_Mention = []\<rparr>"

definition demo_message :: PrivateMessage where
  "demo_message = message_of_pin demo_msg_pin demo_simplemsg"

text \<open>The JSON of this module knows one message: it writes the index and reads it back.\<close>

definition demo_json :: pc_json where
  "demo_json = \<lparr>pj_Marshal = (\<lambda>m. Inr (Itoa (pm_Index m))), pj_Unmarshal = (\<lambda>raw. Some (demo_message\<lparr>pm_Index := Sscanf_d raw\<rparr>)),
     pj_SimpleMsg = (\<lambda>body. Some demo_simplemsg)\<rparr>"

definition demo_chat :: "(mem_world, string) store_state pc_env" where
  "demo_chat = \<lparr>pc_U = \<lparr>u_lower = id, u_upper = id, u_fold = (=)\<rparr>, pc_K = PebbleStore_kv mem_pebble, pc_J = demo_json, pc_lookup = None\<rparr>"

definition demo_state :: "(mem_world, string) store_state" where
  "demo_state = (NewPebbleStore ''data'', \<lambda>p. [])"

lemma demo_chat_pin: "chat_of_pin demo_chat demo_msg_pin = Some demo_message"
proof -
  have "Trim CHR ''/'' ''/protocols/simplemsg'' = ''protocols/simplemsg''" by (simp add: Trim_def TrimLeft_def TrimRight_def)
  moreover have "ToLower (pc_U demo_chat) ''protocols/simplemsg'' = ''protocols/simplemsg''"
    by (rule ToLower_fixed) (simp add: is_ascii_def ascii_lower_def code_def)
  ultimately show ?thesis
    by (simp add: chat_of_pin_def demo_msg_pin_def demo_chat_def demo_json_def demo_simplemsg_def demo_message_def HasSuffix_def HasPrefix_def)
qed

lemma demo_json_keeps: "json_keeps demo_json demo_message"
  by (simp add: json_keeps_def demo_json_def Sscanf_Itoa_int)

lemma demo_message_sel:
  "pm_From demo_message = ''alice''" "pm_To demo_message = ''bob''" "pm_PinId demo_message = ''ti0''" "pm_TxId demo_message = ''ti0''"
  by (simp_all add: demo_message_def message_of_pin_def demo_msg_pin_def demo_simplemsg_def extractTxId_def HasPrefix_def)

lemma demo_chat_reliable:
  "kv_reliable (pc_K demo_chat) (filepath_Join ''data'') (\<lambda>st. mem_disk (snd st)) (store_inv (\<lambda>h. h) (\<lambda>w h. True) ''data'')"
  unfolding demo_chat_def by (simp, rule mem.kvr.kv_reliable_axioms)

lemma demo_state_ok:
  "store_inv (\<lambda>h. h) (\<lambda>w h. True) ''data'' demo_state" "mem_disk (snd demo_state) p = Map.empty"
  by (simp_all add: store_inv_def NewPebbleStore_def demo_state_def mem_disk_def)

lemma demo_chat_sel: "pc_J demo_chat = demo_json" "pc_lookup demo_chat = None"
  by (simp_all add: demo_chat_def)

lemmas demo_names = demo_message_sel TrimSpace_graphic graphic_def code_def colon_free_def same_pair_def

definition demo_after :: "(mem_world, string) store_state" where
  "demo_after = fst (foldl (\<lambda>st p. snd (PrivateChat_HandlePin demo_chat p st)) (demo_state, []) [demo_msg_pin])"

lemma demo_run:
  "store_inv (\<lambda>h. h) (\<lambda>w h. True) ''data'' demo_after" "length (fst (collectPrivateMessages demo_chat ''alice'' ''bob'' demo_after)) \<le> 1"
proof -
  let ?l = "fst (collectPrivateMessages demo_chat ''alice'' ''bob'' demo_after)"
  have ms: "[demo_message] = List.map_filter (chat_of_pin demo_chat) [demo_msg_pin]" by (simp add: List.map_filter_simps demo_chat_pin)
  have "pm_PinId ` set ?l = pm_PinId ` {m \<in> set [demo_message]. same_pair ''alice'' ''bob'' m} \<and> distinct (map pm_PinId ?l)
    \<and> (\<forall>m' \<in> set ?l. \<exists>m \<in> set [demo_message]. same_pair ''alice'' ''bob'' m \<and> (\<exists>i. m' = m\<lparr>pm_Index := i\<rparr>)) \<and> sorted (map pm_Timestamp ?l)"
    unfolding demo_after_def
    by (rule run_conversation [OF demo_chat_reliable demo_state_ok demo_chat_sel(2) ms _ _ _ _ _ _ _ _ refl])
      (simp_all add: demo_chat_sel demo_json_keeps demo_names)
  then have "set (map pm_PinId ?l) = {''ti0''}" "distinct (map pm_PinId ?l)" by (auto simp: demo_names)
  then show "length ?l \<le> 1" using distinct_card [of "map pm_PinId ?l"] by (simp del: set_map)
  show "store_inv (\<lambda>h. h) (\<lambda>w h. True) ''data'' demo_after"
    using kv_reliable.HandlePin_total [OF demo_chat_reliable _ refl demo_chat_pin, of "(demo_state, [])"]
    by (auto simp: demo_after_def demo_state_ok demo_chat_sel demo_json_keeps)
qed

subsection \<open>Properties\<close>



text \<open>C36: asking for the private messages page by page, each time with the cursor of the answer before, ends and gives the whole
  conversation from the newest message to the oldest, each message once.\<close>

lemma private_pages_complete:
  assumes "kv_reliable (pc_K A) loc content ok" and "ok s" and "1 \<le> sz" and "msgs = fst (collectPrivateMessages A x y s)"
    and "length msgs < fuel" and "int (length msgs) < 2 ^ 63"
  shows "follow_pages (\<lambda>cur. GetPrivateChatList A x y cur sz 0) fuel '''' s = Some (rev msgs)"
proof -
  obtain s' where "collectPrivateMessages A x y s = (conversation A (content s (loc pc_namespace)) x y, s')"
    by (rule kv_reliable.collect_eq [OF assms(1,2) refl])
  then have m: "msgs = conversation A (content s (loc pc_namespace)) x y" by (simp add: assms(4))
  show ?thesis
    unfolding m by (rule kv_reliable.follow_private [OF assms(1,2) refl assms(3) assms(5,6) [unfolded m]])
qed

theorem private_pages_complete_witness:
  "follow_pages (\<lambda>cur. GetPrivateChatList demo_chat ''alice'' ''bob'' cur 1 0) 2 '''' demo_after = Some (rev (fst (collectPrivateMessages demo_chat ''alice'' ''bob'' demo_after)))"
proof -
  let ?l = "fst (collectPrivateMessages demo_chat ''alice'' ''bob'' demo_after)"
  have 1: "length ?l < 2" by (rule order.strict_trans1 [OF demo_run(2)]) simp
  have 2: "int (length ?l) < 2 ^ 63" by (rule order.strict_trans [of _ 2]) (use 1 in simp_all)
  show ?thesis by (rule private_pages_complete [OF demo_chat_reliable demo_run(1) _ refl 1 2]) (rule order_refl)
qed

text \<open>A pin that is processed again, as when a mempool pin is confirmed in a block, is saved with a new, larger index.\<close>

lemma confirmed_pin_reindexed:
  assumes "kv_reliable (pc_K A) loc content ok" and "ok (fst st)" and "pc_lookup A = None"
    and "chat_of_pin A pin = Some m" "json_keeps (pc_J A) m" and "chat_of_pin A pin' = Some m'" "json_keeps (pc_J A) m'"
    and "pm_From m' = pm_From m" "pm_To m' = pm_To m" and "pm_PinId m \<noteq> ''''"
    and "TrimSpace (pm_From m) = pm_From m" "pm_From m \<noteq> ''''" and "TrimSpace (pm_To m) = pm_To m" "pm_To m \<noteq> ''''"
    and "\<And>k v n. content (fst st) (loc pc_namespace) k = Some v \<Longrightarrow> pj_Unmarshal (pc_J A) v = Some n
      \<Longrightarrow> privateMessageDedupeKey n \<noteq> pm_PinId m \<and> pm_Index n < 2 ^ 62"
    and "PrivateChat_HandlePin A pin st = (Inr (Some e), st1)" and "PrivateChat_HandlePin A pin' st1 = (Inr (Some e'), st2)"
  shows "pm_Index (ne_Payload e) < pm_Index (ne_Payload e')"
  by (rule kv_reliable.reprocess_index [OF assms(1,2) refl assms(3-14) _ assms(16,17)]) (rule assms(15))

theorem confirmed_pin_reindexed_witness:
  "\<exists>e e' st1 st2. PrivateChat_HandlePin demo_chat demo_msg_pin (demo_state, []) = (Inr (Some e), st1)
     \<and> PrivateChat_HandlePin demo_chat demo_msg_pin st1 = (Inr (Some e'), st2) \<and> pm_Index (ne_Payload e) < pm_Index (ne_Payload e')"
proof -
  note h = kv_reliable.HandlePin_total [OF demo_chat_reliable _ refl demo_chat_pin, unfolded demo_chat_sel, OF _ demo_json_keeps]
  obtain e st1 where 1: "PrivateChat_HandlePin demo_chat demo_msg_pin (demo_state, []) = (Inr (Some e), st1)"
    and s1: "store_inv (\<lambda>h. h) (\<lambda>w h. True) ''data'' (fst st1)"
    using h [of "(demo_state, [])"] demo_state_ok by auto
  obtain e' st2 where 2: "PrivateChat_HandlePin demo_chat demo_msg_pin st1 = (Inr (Some e'), st2)"
    using h [OF s1] by blast
  have "pm_Index (ne_Payload e) < pm_Index (ne_Payload e')"
    by (rule confirmed_pin_reindexed [OF demo_chat_reliable _ demo_chat_sel(2) demo_chat_pin _ demo_chat_pin _ refl refl _ _ _ _ _ _ 1 2])
      (simp_all add: demo_state_ok demo_chat_sel demo_json_keeps demo_names)
  then show ?thesis using 1 2 by blast
qed

end
