(* ===== verification/GroupStore.thy ===== *)
theory GroupStore
  imports ChatPages "HOL-Library.Product_Lexorder"
begin

text \<open>
  The stored state of the group chat module, \<open>internal/aggregator/groupchat\<close>: groups, members, roles and their lists (\<open>db_group.go\<close>),
  communities (\<open>db_community.go\<close>), join records and channels (\<open>db_idchat_compat.go\<close>).

  \<open>encoding/json\<close> on a stored type is a \<open>codec\<close>, a parameter. A JSON value of unknown type is \<open>json_any\<close>; of a \<open>float64\<close> it keeps what the code
  looks at: its conversion to \<open>int64\<close>, whether that is exact, and its text. The result \<open>None\<close> of a list is a panic.
\<close>

subsection \<open>Codecs\<close>

record 'm codec =
  cd_Marshal :: "'m \<Rightarrow> string + bytes"
  cd_Unmarshal :: "bytes \<Rightarrow> 'm option"

definition save_json :: "'s kv_api \<Rightarrow> string \<Rightarrow> 'm codec \<Rightarrow> bytes \<Rightarrow> 'm \<Rightarrow> 's \<Rightarrow> string option \<times> 's" where
  "save_json K ns C key m s =
     (case cd_Marshal C m of
        Inl e \<Rightarrow> (Some e, s)
      | Inr raw \<Rightarrow> (case kv_Set K ns key raw s of (None, s1) \<Rightarrow> (None, s1) | (Some e, s1) \<Rightarrow> (Some ''storage error'', s1)))"

text \<open>Length-prefixed fields, for the concrete codecs of the examples.\<close>

definition put_str :: "string \<Rightarrow> bytes" where
  "put_str t = replicate (length t) CHR ''s'' @ CHR '':'' # t"

definition get_str :: "bytes \<Rightarrow> string \<times> bytes" where
  "get_str b = (let n = length (takeWhile (\<lambda>c. c = CHR ''s'') b); r = drop (n + 1) b in (take n r, drop n r))"

lemma get_put [simp]: "get_str (put_str t @ r) = (t, r)"
proof -
  have "takeWhile (\<lambda>c. c = CHR ''s'') (replicate (length t) CHR ''s'' @ CHR '':'' # t @ r) = replicate (length t) CHR ''s''"
    by (simp add: takeWhile_append)
  then show ?thesis by (simp add: get_str_def put_str_def Let_def)
qed

primrec get_strs :: "nat \<Rightarrow> bytes \<Rightarrow> string list" where
  "get_strs 0 b = []"
| "get_strs (Suc n) b = (let (t, r) = get_str b in t # get_strs n r)"

lemma get_strs_put: "get_strs (length ts) (concat (map put_str ts)) = ts"
  by (induction ts) auto

text \<open>A missing key is no value and no error.\<close>

definition load_json :: "'s kv_api \<Rightarrow> string \<Rightarrow> 'm codec \<Rightarrow> bytes \<Rightarrow> 's \<Rightarrow> (string + 'm option) \<times> 's" where
  "load_json K ns C key s =
     (case kv_Get K ns key s of
        (Inl ErrNotFound, s1) \<Rightarrow> (Inr None, s1)
      | (Inl e, s1) \<Rightarrow> (Inl ''storage error'', s1)
      | (Inr raw, s1) \<Rightarrow> (case cd_Unmarshal C raw of None \<Rightarrow> (Inl ''decode error'', s1) | Some m \<Rightarrow> (Inr (Some m), s1)))"

text \<open>\<open>x, _ := f()\<close>: the value of a call whose error is ignored.\<close>

definition no_err :: "(string + 'm option) \<times> 's \<Rightarrow> 'm option \<times> 's" where
  "no_err r = (case r of (Inl e, s) \<Rightarrow> (None, s) | (Inr v, s) \<Rightarrow> (v, s))"

datatype json_any = JNil | JString string | JFloat int bool string | JOther string

definition protocolStringValue :: "json_any \<Rightarrow> string" where
  "protocolStringValue v = (case v of JNil \<Rightarrow> '''' | JString t \<Rightarrow> t | JFloat n exact t \<Rightarrow> if exact then Itoa n else t | JOther t \<Rightarrow> t)"

fun firstProtocolString :: "json_any list \<Rightarrow> string" where
  "firstProtocolString [] = ''''"
| "firstProtocolString (v # vs) = (let r = protocolStringValue v in if r \<noteq> '''' then r else firstProtocolString vs)"

definition protocolInt64Value :: "json_any \<Rightarrow> int \<Rightarrow> int" where
  "protocolInt64Value v d = (case v of JFloat n exact t \<Rightarrow> n | JString t \<Rightarrow> (case Sscan_int t of None \<Rightarrow> d | Some n \<Rightarrow> n) | _ \<Rightarrow> d)"

subsection \<open>Data\<close>

record Group =
  gr_GroupId :: string
  gr_TxId :: string
  gr_PinId :: string
  gr_GroupName :: string
  gr_GroupNote :: string
  gr_GroupType :: string
  gr_Status :: string
  gr_Avatar :: string
  gr_Creator :: string
  gr_CreatorMetaId :: string
  gr_CreatorGlobalMetaId :: string
  gr_MemberCount :: int
  gr_CommunityId :: string
  gr_JoinType :: string
  gr_CreatedAt :: int
  gr_Chain :: string
  gr_BlockHeight :: int

record GroupMember =
  gb_MetaId :: string
  gb_GlobalMetaId :: string
  gb_Address :: string
  gb_UserName :: string
  gb_Avatar :: string
  gb_IsCreator :: bool
  gb_IsAdmin :: bool
  gb_IsBlocked :: bool
  gb_IsWhitelist :: bool
  gb_IsRemoved :: bool
  gb_Timestamp :: int

record GroupMemberRole =
  ro_MetaId :: string
  ro_GroupId :: string
  ro_IsCreator :: bool
  ro_IsAdmin :: bool
  ro_IsBlocked :: bool
  ro_IsWhitelist :: bool
  ro_IsRemoved :: bool
  ro_Timestamp :: int
  ro_BlockHeight :: int

record Community =
  co_CommunityId :: string
  co_Name :: string
  co_Description :: string
  co_Cover :: string
  co_Icon :: string
  co_Creator :: string
  co_CreatorMetaId :: string
  co_MemberCount :: int
  co_CreatedAt :: int
  co_Chain :: string
  co_BlockHeight :: int

record GroupMetaIdJoinItem =
  ji_JoinPinId :: string
  ji_JoinType :: string
  ji_JoinTimestamp :: int
  ji_GroupState :: int
  ji_Address :: string
  ji_Referrer :: string
  ji_K :: string
  ji_BlockHeight :: int
  ji_Chain :: string
  ji_ByGlobalMetaId :: string
  ji_ByMetaId :: string
  ji_ByAddress :: string

record GroupChannel =
  ch_ChannelId :: string
  ch_GroupId :: string
  ch_TxId :: string
  ch_PinId :: string
  ch_ChannelName :: string
  ch_ChannelIcon :: string
  ch_ChannelNote :: string
  ch_ChannelType :: int
  ch_NewestTxId :: string
  ch_NewestPinId :: string
  ch_NewestProtocol :: string
  ch_NewestContent :: string
  ch_NewestTimestamp :: int
  ch_NewestMetaId :: string
  ch_NewestGlobalMetaId :: string
  ch_CreateUserMetaId :: string
  ch_CreateUserGlobalMetaId :: string
  ch_CreateUserAddress :: string
  ch_Timestamp :: int
  ch_Chain :: string
  ch_BlockHeight :: int
  ch_Index :: int

record group_codecs =
  gk_Group :: "Group codec"
  gk_Member :: "GroupMember codec"
  gk_Role :: "GroupMemberRole codec"
  gk_Community :: "Community codec"
  gk_Join :: "GroupMetaIdJoinItem codec"
  gk_Channel :: "GroupChannel codec"

record 's group_env =
  ge_U :: unicode
  ge_K :: "'s kv_api"
  ge_C :: group_codecs

definition gc_namespace :: string where "gc_namespace = ''groupchat''"

subsection \<open>Keys\<close>

definition groupKey :: "string \<Rightarrow> bytes" where "groupKey groupId = ''group:'' @ groupId"

definition groupMemberKey :: "string \<Rightarrow> string \<Rightarrow> bytes" where "groupMemberKey groupId metaId = ''member:'' @ groupId @ '':'' @ metaId"

definition groupMemberPrefix :: "string \<Rightarrow> bytes" where "groupMemberPrefix groupId = ''member:'' @ groupId @ '':''"

definition groupRoleKey :: "string \<Rightarrow> string \<Rightarrow> bytes" where "groupRoleKey groupId metaId = ''grouprole:'' @ groupId @ '':'' @ metaId"

definition groupRolePrefix :: "string \<Rightarrow> bytes" where "groupRolePrefix groupId = ''grouprole:'' @ groupId @ '':''"

definition communityKey :: "string \<Rightarrow> bytes" where "communityKey communityId = ''community:'' @ communityId"

definition groupJoinKey :: "string \<Rightarrow> string \<Rightarrow> int \<Rightarrow> string \<Rightarrow> bytes" where
  "groupJoinKey identity groupId timestamp pinId = ''groupjoin:'' @ identity @ '':'' @ groupId @ '':'' @ Sprintf_0d 19 timestamp @ '':'' @ pinId"

definition groupJoinKeyPrefix :: "string \<Rightarrow> string \<Rightarrow> bytes" where
  "groupJoinKeyPrefix identity groupId = ''groupjoin:'' @ identity @ '':'' @ groupId @ '':''"

definition groupChannelKey :: "string \<Rightarrow> string \<Rightarrow> bytes" where "groupChannelKey groupId channelId = ''channel:'' @ groupId @ '':'' @ channelId"

definition groupChannelKeyPrefix :: "string \<Rightarrow> bytes" where "groupChannelKeyPrefix groupId = ''channel:'' @ groupId @ '':''"

subsection \<open>Groups, members and roles\<close>

definition SaveGroup :: "'s group_env \<Rightarrow> Group \<Rightarrow> 's \<Rightarrow> string option \<times> 's" where
  "SaveGroup A grp s = save_json (ge_K A) gc_namespace (gk_Group (ge_C A)) (groupKey (gr_GroupId grp)) grp s"

definition GetGroup :: "'s group_env \<Rightarrow> string \<Rightarrow> 's \<Rightarrow> (string + Group option) \<times> 's" where
  "GetGroup A groupId s = load_json (ge_K A) gc_namespace (gk_Group (ge_C A)) (groupKey groupId) s"

definition SaveGroupMember :: "'s group_env \<Rightarrow> string \<Rightarrow> string \<Rightarrow> GroupMember \<Rightarrow> 's \<Rightarrow> string option \<times> 's" where
  "SaveGroupMember A groupId metaId member s = save_json (ge_K A) gc_namespace (gk_Member (ge_C A)) (groupMemberKey groupId metaId) member s"

definition GetGroupMember :: "'s group_env \<Rightarrow> string \<Rightarrow> string \<Rightarrow> 's \<Rightarrow> (string + GroupMember option) \<times> 's" where
  "GetGroupMember A groupId metaId s = load_json (ge_K A) gc_namespace (gk_Member (ge_C A)) (groupMemberKey groupId metaId) s"

definition SetGroupRole :: "'s group_env \<Rightarrow> string \<Rightarrow> string \<Rightarrow> GroupMemberRole \<Rightarrow> 's \<Rightarrow> string option \<times> 's" where
  "SetGroupRole A groupId metaId role s = save_json (ge_K A) gc_namespace (gk_Role (ge_C A)) (groupRoleKey groupId metaId) role s"

text \<open>A failing read counts as no role.\<close>

definition getGroupMemberRole :: "'s group_env \<Rightarrow> string \<Rightarrow> string \<Rightarrow> 's \<Rightarrow> (string + GroupMemberRole option) \<times> 's" where
  "getGroupMemberRole A groupId metaId s =
     (case kv_Get (ge_K A) gc_namespace (groupRoleKey groupId metaId) s of
        (Inl e, s1) \<Rightarrow> (Inr None, s1)
      | (Inr raw, s1) \<Rightarrow> (case cd_Unmarshal (gk_Role (ge_C A)) raw of None \<Rightarrow> (Inl ''decode error'', s1) | Some role \<Rightarrow> (Inr (Some role), s1)))"

definition GetGroupUserRole :: "'s group_env \<Rightarrow> string \<Rightarrow> string \<Rightarrow> 's \<Rightarrow> (string + GroupMemberRole option) \<times> 's" where
  "GetGroupUserRole A groupId metaId s = getGroupMemberRole A groupId metaId s"

definition IsUserInGroup :: "'s group_env \<Rightarrow> string \<Rightarrow> string \<Rightarrow> 's \<Rightarrow> (string + bool) \<times> 's" where
  "IsUserInGroup A groupId metaId s =
     (case GetGroupMember A groupId metaId s of
        (Inl e, s1) \<Rightarrow> (Inl e, s1)
      | (Inr None, s1) \<Rightarrow> (Inr False, s1)
      | (Inr (Some member), s1) \<Rightarrow> (Inr (\<not> gb_IsRemoved member), s1))"

definition with_role :: "GroupMemberRole option \<Rightarrow> GroupMember \<Rightarrow> GroupMember" where
  "with_role r member =
     (case r of None \<Rightarrow> member
      | Some role \<Rightarrow> member\<lparr>gb_IsCreator := ro_IsCreator role, gb_IsAdmin := ro_IsAdmin role, gb_IsBlocked := ro_IsBlocked role,
          gb_IsWhitelist := ro_IsWhitelist role, gb_IsRemoved := ro_IsRemoved role\<rparr>)"

text \<open>The scan callback of the member list; the state is the members so far with the key of the last one.\<close>

fun member_page ::
    "'s group_env \<Rightarrow> string \<Rightarrow> bytes \<Rightarrow> int \<Rightarrow> (bytes \<times> bytes) list \<Rightarrow> GroupMember list \<times> bytes option \<Rightarrow> 's \<Rightarrow> (GroupMember list \<times> bytes option) \<times> 's" where
  "member_page A groupId seekKey sz [] st s = (st, s)"
| "member_page A groupId seekKey sz ((key, val) # kvs) (members, lastKey) s =
     (if key \<le> seekKey \<or> sz \<le> int (length members) then member_page A groupId seekKey sz kvs (members, lastKey) s
      else case cd_Unmarshal (gk_Member (ge_C A)) val of
        None \<Rightarrow> member_page A groupId seekKey sz kvs (members, lastKey) s
      | Some member \<Rightarrow>
          (let (role, s1) = no_err (getGroupMemberRole A groupId (gb_MetaId member) s)
           in member_page A groupId seekKey sz kvs (members @ [with_role role member], Some key) s1))"

definition seek_key :: "bytes \<Rightarrow> string \<Rightarrow> bytes" where
  "seek_key p cursorStr =
     (if cursorStr \<noteq> '''' \<and> cursorStr \<noteq> ''null'' then (case b64_DecodeString cursorStr of None \<Rightarrow> p | Some d \<Rightarrow> d) else p)"

definition GetGroupMemberList :: "'s group_env \<Rightarrow> string \<Rightarrow> string \<Rightarrow> int \<Rightarrow> 's \<Rightarrow> (string + GroupMember list \<times> string) \<times> 's" where
  "GetGroupMemberList A groupId cursorStr sz s =
     (case kv_Scan (ge_K A) gc_namespace (groupMemberPrefix groupId) s of
        (Inl e, s1) \<Rightarrow> (Inl ''storage error'', s1)
      | (Inr kvs, s1) \<Rightarrow>
          (let ((members, lastKey), s2) = member_page A groupId (seek_key (groupMemberPrefix groupId) cursorStr) sz kvs ([], None) s1;
               nextCursor = (case lastKey of None \<Rightarrow> '''' | Some k \<Rightarrow> if int (length members) = sz then b64_EncodeToString k else '''')
           in (Inr (members, nextCursor), s2)))"

definition identityEqual :: "unicode \<Rightarrow> string \<Rightarrow> string \<Rightarrow> bool" where
  "identityEqual U a b =
     (let a' = TrimSpace a; b' = TrimSpace b in a' \<noteq> '''' \<and> b' \<noteq> '''' \<and> (a' = b' \<or> EqualFold U a' b'))"

definition groupMemberMatchesIdentity :: "unicode \<Rightarrow> string \<Rightarrow> GroupMember \<Rightarrow> bool" where
  "groupMemberMatchesIdentity U identity member =
     (let i = TrimSpace identity
      in i \<noteq> '''' \<and> (identityEqual U i (gb_MetaId member) \<or> identityEqual U i (gb_GlobalMetaId member) \<or> identityEqual U i (gb_Address member)))"

text \<open>\<open>strings.SplitN(s, ":", 2)\<close>, when it gives two parts.\<close>

definition split_colon :: "string \<Rightarrow> (string \<times> string) option" where
  "split_colon s = (case Index s '':'' of None \<Rightarrow> None | Some i \<Rightarrow> Some (take i s, drop (i + 1) s))"

definition membership :: "'s group_env \<Rightarrow> string \<Rightarrow> bytes \<times> bytes \<Rightarrow> string option" where
  "membership A metaId kv =
     (case split_colon (drop (length ''member:'') (fst kv)) of
        None \<Rightarrow> None
      | Some (groupId, rest) \<Rightarrow>
          (case cd_Unmarshal (gk_Member (ge_C A)) (snd kv) of
             None \<Rightarrow> None
           | Some m \<Rightarrow> if groupMemberMatchesIdentity (ge_U A) metaId m \<and> \<not> gb_IsRemoved m then Some groupId else None))"

fun take_groups :: "'s group_env \<Rightarrow> int \<Rightarrow> string list \<Rightarrow> Group list \<Rightarrow> 's \<Rightarrow> Group list \<times> 's" where
  "take_groups A sz [] groups s = (groups, s)"
| "take_groups A sz (groupId # ids) groups s =
     (if sz \<le> int (length groups) then (groups, s)
      else case GetGroup A groupId s of
        (Inr (Some grp), s1) \<Rightarrow> take_groups A sz ids (groups @ [grp]) s1
      | (_, s1) \<Rightarrow> take_groups A sz ids groups s1)"

text \<open>A negative cursor makes the first loop iteration index the slice out of range.\<close>

definition GetGroupList :: "'s group_env \<Rightarrow> string \<Rightarrow> string \<Rightarrow> int \<Rightarrow> 's \<Rightarrow> (string + Group list \<times> string \<times> int) option \<times> 's" where
  "GetGroupList A metaId cursorStr sz s =
     (case kv_Scan (ge_K A) gc_namespace ''member:'' s of
        (Inl e, s1) \<Rightarrow> (Some (Inl ''storage error''), s1)
      | (Inr kvs, s1) \<Rightarrow>
          (let memberEntries = List.map_filter (membership A metaId) kvs;
               sum = int (length memberEntries);
               cursorIdx = (if cursorStr \<noteq> '''' \<and> cursorStr \<noteq> ''null''
                            then (case b64_DecodeString cursorStr of None \<Rightarrow> 0 | Some d \<Rightarrow> int64FromBytes d) else 0)
           in if cursorIdx < 0 \<and> 0 < sz then (None, s1)
              else
                (let (groups, s2) = (if cursorIdx < 0 then ([], s1) else take_groups A sz (drop (nat cursorIdx) memberEntries) [] s1);
                     nextCursor = (if wrap64 (cursorIdx + sz) < sum then b64_EncodeToString (int64ToBytes (wrap64 (cursorIdx + sz))) else '''')
                 in (Some (Inr (groups, nextCursor, sum)), s2))))"

fun search_members :: "'s group_env \<Rightarrow> string \<Rightarrow> string \<Rightarrow> int \<Rightarrow> (bytes \<times> bytes) list \<Rightarrow> GroupMember list \<Rightarrow> 's \<Rightarrow> GroupMember list \<times> 's" where
  "search_members A groupId queryLower sz [] members s = (members, s)"
| "search_members A groupId queryLower sz ((key, val) # kvs) members s =
     (if sz \<le> int (length members) then search_members A groupId queryLower sz kvs members s
      else case cd_Unmarshal (gk_Member (ge_C A)) val of
        None \<Rightarrow> search_members A groupId queryLower sz kvs members s
      | Some member \<Rightarrow>
          (if Contains (ToLower (ge_U A) (gb_MetaId member)) queryLower \<or> Contains (ToLower (ge_U A) (gb_UserName member)) queryLower
           then (let (role, s1) = no_err (getGroupMemberRole A groupId (gb_MetaId member) s)
                 in search_members A groupId queryLower sz kvs (members @ [with_role role member]) s1)
           else search_members A groupId queryLower sz kvs members s))"

definition SearchGroupMembers :: "'s group_env \<Rightarrow> string \<Rightarrow> string \<Rightarrow> int \<Rightarrow> 's \<Rightarrow> (string + GroupMember list) \<times> 's" where
  "SearchGroupMembers A groupId query sz s =
     (case kv_Scan (ge_K A) gc_namespace (groupMemberPrefix groupId) s of
        (Inl e, s1) \<Rightarrow> (Inl ''storage error'', s1)
      | (Inr kvs, s1) \<Rightarrow> (let (members, s2) = search_members A groupId (ToLower (ge_U A) query) sz kvs [] s1 in (Inr members, s2)))"

definition member_ids :: "GroupMember \<Rightarrow> string list" where
  "member_ids member = [gb_MetaId member, gb_GlobalMetaId member, gb_Address member]"

definition GroupMemberTargetIds :: "'s group_env \<Rightarrow> string \<Rightarrow> 's \<Rightarrow> string list \<times> 's" where
  "GroupMemberTargetIds A groupId s =
     (case kv_Scan (ge_K A) gc_namespace (groupMemberPrefix groupId) s of
        (Inl e, s1) \<Rightarrow> ([], s1)
      | (Inr kvs, s1) \<Rightarrow>
          (fst (foldl (\<lambda>st i. add_target (ge_U A) i st) ([], [])
             (concat (map member_ids (filter (\<lambda>m. \<not> gb_IsRemoved m) (decoded (cd_Unmarshal (gk_Member (ge_C A))) kvs))))), s1))"

subsection \<open>Join control\<close>

record GroupJoinControlList =
  jc_GroupId :: string
  jc_JoinBlockMetaIds :: "string list"
  jc_JoinBlockGlobalMetaIds :: "string list"
  jc_JoinWhitelistMetaIds :: "string list"
  jc_JoinWhitelistGlobalMetaIds :: "string list"

definition global_of :: "'s group_env \<Rightarrow> string \<Rightarrow> string \<Rightarrow> 's \<Rightarrow> string list \<times> 's" where
  "global_of A groupId metaId s =
     (case no_err (GetGroupMember A groupId metaId s) of
        (Some member, s1) \<Rightarrow> (if gb_GlobalMetaId member \<noteq> '''' then [gb_GlobalMetaId member] else [], s1)
      | (None, s1) \<Rightarrow> ([], s1))"

fun join_control :: "'s group_env \<Rightarrow> string \<Rightarrow> GroupMemberRole list \<Rightarrow> GroupJoinControlList \<Rightarrow> 's \<Rightarrow> GroupJoinControlList \<times> 's" where
  "join_control A groupId [] l s = (l, s)"
| "join_control A groupId (role # roles) l s =
     (let (l1, s1) = (if ro_IsBlocked role then
              (let (g, s1) = global_of A groupId (ro_MetaId role) s
               in (l\<lparr>jc_JoinBlockMetaIds := jc_JoinBlockMetaIds l @ [ro_MetaId role], jc_JoinBlockGlobalMetaIds := jc_JoinBlockGlobalMetaIds l @ g\<rparr>, s1))
            else (l, s));
          (l2, s2) = (if ro_IsWhitelist role then
              (let (g, s2) = global_of A groupId (ro_MetaId role) s1
               in (l1\<lparr>jc_JoinWhitelistMetaIds := jc_JoinWhitelistMetaIds l1 @ [ro_MetaId role],
                      jc_JoinWhitelistGlobalMetaIds := jc_JoinWhitelistGlobalMetaIds l1 @ g\<rparr>, s2))
            else (l1, s1))
      in join_control A groupId roles l2 s2)"

definition GetGroupJoinControlList :: "'s group_env \<Rightarrow> string \<Rightarrow> 's \<Rightarrow> GroupJoinControlList \<times> 's" where
  "GetGroupJoinControlList A groupId s =
     (let l0 = \<lparr>jc_GroupId = groupId, jc_JoinBlockMetaIds = [], jc_JoinBlockGlobalMetaIds = [], jc_JoinWhitelistMetaIds = [],
                jc_JoinWhitelistGlobalMetaIds = []\<rparr>
      in case kv_Scan (ge_K A) gc_namespace (groupRolePrefix groupId) s of
           (Inl e, s1) \<Rightarrow> (l0, s1)
         | (Inr kvs, s1) \<Rightarrow> join_control A groupId (decoded (cd_Unmarshal (gk_Role (ge_C A))) kvs) l0 s1)"

subsection \<open>Communities\<close>

definition SaveCommunity :: "'s group_env \<Rightarrow> Community \<Rightarrow> 's \<Rightarrow> string option \<times> 's" where
  "SaveCommunity A community s = save_json (ge_K A) gc_namespace (gk_Community (ge_C A)) (communityKey (co_CommunityId community)) community s"

definition GetCommunity :: "'s group_env \<Rightarrow> string \<Rightarrow> 's \<Rightarrow> (string + Community option) \<times> 's" where
  "GetCommunity A communityId s = load_json (ge_K A) gc_namespace (gk_Community (ge_C A)) (communityKey communityId) s"

text \<open>The second scan: \<open>skip\<close> entries are counted off before the first one is decoded.\<close>

fun community_page :: "Community codec \<Rightarrow> int \<Rightarrow> int \<Rightarrow> (bytes \<times> bytes) list \<Rightarrow> int \<Rightarrow> Community list \<Rightarrow> Community list" where
  "community_page C skip pageSize [] cnt communities = communities"
| "community_page C skip pageSize (kv # kvs) cnt communities =
     (if cnt < skip then community_page C skip pageSize kvs (cnt + 1) communities
      else if pageSize \<le> int (length communities) then community_page C skip pageSize kvs cnt communities
      else case cd_Unmarshal C (snd kv) of
        None \<Rightarrow> community_page C skip pageSize kvs cnt communities
      | Some c \<Rightarrow> community_page C skip pageSize kvs (cnt + 1) (communities @ [c]))"

definition ListCommunities :: "'s group_env \<Rightarrow> int \<Rightarrow> int \<Rightarrow> 's \<Rightarrow> (string + Community list \<times> int) \<times> 's" where
  "ListCommunities A page pageSize s =
     (case kv_Scan (ge_K A) gc_namespace ''community:'' s of
        (Inl e, s1) \<Rightarrow> (Inl ''storage error'', s1)
      | (Inr kvs0, s1) \<Rightarrow>
          (case kv_Scan (ge_K A) gc_namespace ''community:'' s1 of
             (Inl e, s2) \<Rightarrow> (Inl ''storage error'', s2)
           | (Inr kvs, s2) \<Rightarrow>
               (Inr (community_page (gk_Community (ge_C A)) (wrap64 (wrap64 (page - 1) * pageSize)) pageSize kvs 0 [], int (length kvs0)), s2)))"

subsection \<open>Join records and channels\<close>

definition groupMetaIdJoinItemAliases :: "unicode \<Rightarrow> GroupMetaIdJoinItem \<Rightarrow> string list" where
  "groupMetaIdJoinItemAliases U item =
     fst (foldl (\<lambda>st i. add_target U i st) ([], []) [ji_ByMetaId item, ji_ByGlobalMetaId item, ji_ByAddress item, ji_Address item])"

fun save_join_keys :: "'s kv_api \<Rightarrow> bytes \<Rightarrow> bytes list \<Rightarrow> 's \<Rightarrow> string option \<times> 's" where
  "save_join_keys K raw [] s = (None, s)"
| "save_join_keys K raw (key # keys) s =
     (case kv_Set K gc_namespace key raw s of (Some e, s1) \<Rightarrow> (Some ''storage error'', s1) | (None, s1) \<Rightarrow> save_join_keys K raw keys s1)"

definition SaveGroupMetaIdJoinItem :: "'s group_env \<Rightarrow> string \<Rightarrow> GroupMetaIdJoinItem \<Rightarrow> 's \<Rightarrow> string option \<times> 's" where
  "SaveGroupMetaIdJoinItem A groupId item s =
     (if groupId = '''' then (None, s)
      else case cd_Marshal (gk_Join (ge_C A)) item of
        Inl e \<Rightarrow> (Some e, s)
      | Inr raw \<Rightarrow> save_join_keys (ge_K A) raw
          (map (\<lambda>identity. groupJoinKey identity groupId (ji_JoinTimestamp item) (ji_JoinPinId item)) (groupMetaIdJoinItemAliases (ge_U A) item)) s)"

definition groupIdentityAliases :: "'s group_env \<Rightarrow> string \<Rightarrow> string \<Rightarrow> 's \<Rightarrow> string list \<times> 's" where
  "groupIdentityAliases A groupId identity s =
     (if groupId = '''' then (fst (add_target (ge_U A) identity ([], [])), s)
      else case kv_Scan (ge_K A) gc_namespace (groupMemberPrefix groupId) s of
        (Inl e, s1) \<Rightarrow> (fst (add_target (ge_U A) identity ([], [])), s1)
      | (Inr kvs, s1) \<Rightarrow>
          (fst (foldl (\<lambda>st i. add_target (ge_U A) i st) ([], [])
             (identity # concat (map member_ids (filter (groupMemberMatchesIdentity (ge_U A) identity) (decoded (cd_Unmarshal (gk_Member (ge_C A))) kvs))))), s1))"

definition join_seen_key :: "GroupMetaIdJoinItem \<Rightarrow> string" where
  "join_seen_key item = ji_JoinPinId item @ '':'' @ ji_JoinType item @ '':'' @ Itoa (ji_JoinTimestamp item)"

definition add_join_item :: "GroupMetaIdJoinItem \<Rightarrow> string list \<times> GroupMetaIdJoinItem list \<Rightarrow> string list \<times> GroupMetaIdJoinItem list" where
  "add_join_item item st = (if join_seen_key item \<in> set (fst st) then st else (join_seen_key item # fst st, snd st @ [item]))"

fun join_scans :: "'s group_env \<Rightarrow> bytes list \<Rightarrow> string list \<times> GroupMetaIdJoinItem list \<Rightarrow> 's \<Rightarrow> (string + GroupMetaIdJoinItem list) \<times> 's" where
  "join_scans A [] st s = (Inr (snd st), s)"
| "join_scans A (p # ps) st s =
     (case kv_Scan (ge_K A) gc_namespace p s of
        (Inl e, s1) \<Rightarrow> (Inl ''storage error'', s1)
      | (Inr kvs, s1) \<Rightarrow> join_scans A ps (foldl (\<lambda>st item. add_join_item item st) st (decoded (cd_Unmarshal (gk_Join (ge_C A))) kvs)) s1)"

definition collectGroupMetaIdJoinItems :: "'s group_env \<Rightarrow> string \<Rightarrow> string \<Rightarrow> 's \<Rightarrow> (string + GroupMetaIdJoinItem list) \<times> 's" where
  "collectGroupMetaIdJoinItems A groupId metaId s =
     (let (aliases, s1) = groupIdentityAliases A groupId metaId s
      in case join_scans A (map (\<lambda>identity. groupJoinKeyPrefix identity groupId) aliases) ([], []) s1 of
           (Inl e, s2) \<Rightarrow> (Inl e, s2)
         | (Inr items, s2) \<Rightarrow> (Inr (sort_key (\<lambda>i. (ji_JoinTimestamp i, ji_JoinPinId i)) items), s2))"

definition SaveGroupChannel :: "'s group_env \<Rightarrow> GroupChannel \<Rightarrow> 's \<Rightarrow> string option \<times> 's" where
  "SaveGroupChannel A channel s =
     (if ch_GroupId channel = '''' \<or> ch_ChannelId channel = '''' then (None, s)
      else save_json (ge_K A) gc_namespace (gk_Channel (ge_C A)) (groupChannelKey (ch_GroupId channel) (ch_ChannelId channel)) channel s)"

definition getStoredGroupChannels :: "'s group_env \<Rightarrow> string \<Rightarrow> 's \<Rightarrow> (string + GroupChannel list) \<times> 's" where
  "getStoredGroupChannels A groupId s =
     (case kv_Scan (ge_K A) gc_namespace (groupChannelKeyPrefix groupId) s of
        (Inl e, s1) \<Rightarrow> (Inl ''storage error'', s1)
      | (Inr kvs, s1) \<Rightarrow> (Inr (filter (\<lambda>c. ch_ChannelId c \<noteq> '''') (decoded (cd_Unmarshal (gk_Channel (ge_C A))) kvs)), s1))"

definition channelSortTimestamp :: "GroupChannel \<Rightarrow> int" where
  "channelSortTimestamp channel = (if 0 < ch_NewestTimestamp channel then ch_NewestTimestamp channel else ch_Timestamp channel)"

end
