(* ===== verification/GroupChat.thy ===== *)
theory GroupChat
  imports GroupStore
begin

text \<open>
  The group chat module, \<open>internal/aggregator/groupchat\<close>: messages and their lists (\<open>db_chat.go\<close>), the pin handlers (\<open>process.go\<close>) and the
  aggregator (\<open>module.go\<close>, \<open>notify.go\<close>), on the stored state of \<open>GroupStore\<close>.

  The members \<open>UserInfo\<close> and \<open>NickName\<close> of a message, which this module never sets, are left out; \<open>ReplyInfo\<close>, a copy of the quoted message, is
  represented by the pin ID of that message. The unified session list, the searches and the HTTP handlers are in
  \<open>GroupApi\<close>.
\<close>

subsection \<open>Messages\<close>

record ChatMessage =
  cm_TxId :: string
  cm_PinId :: string
  cm_GroupId :: string
  cm_ChannelId :: string
  cm_MetaId :: string
  cm_GlobalMetaId :: string
  cm_Address :: string
  cm_Protocol :: string
  cm_Content :: string
  cm_ContentType :: string
  cm_Encryption :: string
  cm_ChatType :: string
  cm_ReplyPin :: string
  cm_ReplyInfo :: "string option"
  cm_ReplyMetaId :: string
  cm_ReplyGlobalMetaId :: string
  cm_Mention :: "string list"
  cm_Timestamp :: int
  cm_Chain :: string
  cm_BlockHeight :: int
  cm_Index :: int

record SimpleCommunity =
  sc_Name :: string
  sc_Description :: string
  sc_Cover :: string
  sc_Icon :: string

record SimpleGroupCreate =
  gcr_GroupId :: string
  gcr_GroupName :: string
  gcr_GroupIcon :: string
  gcr_GroupNote :: string
  gcr_GroupType :: string
  gcr_Status :: string
  gcr_JoinType :: json_any
  gcr_Type :: json_any
  gcr_CommunityId :: string

record SimpleGroupChannel =
  gcn_GroupId :: string
  gcn_ChannelId :: string
  gcn_ChannelName :: string
  gcn_ChannelIcon :: string
  gcn_ChannelNote :: string
  gcn_ChannelType :: json_any

record SimpleGroupAdmin =
  gad_GroupId :: string
  gad_Admins :: "string list"

record SimpleGroupBlock =
  gbl_GroupId :: string
  gbl_Users :: "string list"

record SimpleGroupChat =
  gct_GroupId :: string
  gct_ChannelId :: string
  gct_Content :: string
  gct_ContentType :: string
  gct_Encryption :: string
  gct_ReplyPin :: string
  gct_Mention :: "string list"

record SimpleGroupJoin =
  gjo_GroupId :: string
  gjo_Referrer :: string
  gjo_State :: json_any
  gjo_K :: string

text \<open>What a module instance is wired with: the store, the stored types, and the decoders of the protocol contents.\<close>

record 's gchat_env =
  gx_env :: "'s group_env"
  gx_Chat :: "ChatMessage codec"
  gx_Community :: "bytes \<Rightarrow> SimpleCommunity option"
  gx_Create :: "bytes \<Rightarrow> SimpleGroupCreate option"
  gx_Channel :: "bytes \<Rightarrow> SimpleGroupChannel option"
  gx_Admin :: "bytes \<Rightarrow> SimpleGroupAdmin option"
  gx_Block :: "bytes \<Rightarrow> SimpleGroupBlock option"
  gx_Msg :: "bytes \<Rightarrow> SimpleGroupChat option"
  gx_Join :: "bytes \<Rightarrow> SimpleGroupJoin option"

subsection \<open>Message lists\<close>

definition chatKey :: "string \<Rightarrow> int \<Rightarrow> string \<Rightarrow> bytes" where
  "chatKey groupId timestamp txId = ''chat:'' @ groupId @ '':'' @ Sprintf_0d 19 timestamp @ '':'' @ txId"

definition chatKeyPrefix :: "string \<Rightarrow> bytes" where
  "chatKeyPrefix groupId = ''chat:'' @ groupId @ '':''"

definition collect_chat :: "'s gchat_env \<Rightarrow> bytes \<Rightarrow> 's \<Rightarrow> ChatMessage list \<times> 's" where
  "collect_chat A p s =
     (case kv_Scan (ge_K (gx_env A)) gc_namespace p s of
        (Inl e, s1) \<Rightarrow> ([], s1)
      | (Inr kvs, s1) \<Rightarrow> (decoded (cd_Unmarshal (gx_Chat A)) kvs, s1))"

definition collectGroupMessages :: "'s gchat_env \<Rightarrow> string \<Rightarrow> 's \<Rightarrow> ChatMessage list \<times> 's" where
  "collectGroupMessages A groupId s = collect_chat A (chatKeyPrefix groupId) s"

definition chat_rank :: "ChatMessage \<Rightarrow> int \<times> int \<times> string" where
  "chat_rank m = (cm_Timestamp m, cm_Index m, cm_PinId m)"

definition sortChatMessagesAscending :: "ChatMessage list \<Rightarrow> ChatMessage list" where
  "sortChatMessagesAscending messages = sort_key chat_rank messages"

definition collectAllChatMessages :: "'s gchat_env \<Rightarrow> 's \<Rightarrow> ChatMessage list \<times> 's" where
  "collectAllChatMessages A s = (let (messages, s1) = collect_chat A ''chat:'' s in (sortChatMessagesAscending messages, s1))"

definition collectGroupRootMessages :: "'s gchat_env \<Rightarrow> string \<Rightarrow> 's \<Rightarrow> ChatMessage list \<times> 's" where
  "collectGroupRootMessages A groupId s =
     (let (messages, s1) = collectGroupMessages A groupId s in (filter (\<lambda>m. cm_ChannelId m = '''') messages, s1))"

definition filterMessagesByChannel :: "ChatMessage list \<Rightarrow> string \<Rightarrow> ChatMessage list" where
  "filterMessagesByChannel messages channelId = filter (\<lambda>m. cm_ChannelId m = channelId) messages"

definition collectChannelMessages :: "'s gchat_env \<Rightarrow> string \<Rightarrow> string \<Rightarrow> 's \<Rightarrow> ChatMessage list \<times> 's" where
  "collectChannelMessages A groupId channelId s =
     (let (source, s1) = (if groupId \<noteq> '''' then collectGroupMessages A groupId s else collectAllChatMessages A s)
      in (filterMessagesByChannel source channelId, s1))"

definition filterMessagesBeforeTimestamp :: "ChatMessage list \<Rightarrow> int \<Rightarrow> ChatMessage list" where
  "filterMessagesBeforeTimestamp messages beforeTimestamp =
     (if beforeTimestamp \<le> 0 then messages else filter (\<lambda>m. cm_Timestamp m < beforeTimestamp) messages)"

definition paginateMessagesDesc :: "ChatMessage list \<Rightarrow> string \<Rightarrow> int \<Rightarrow> ChatMessage chat_list" where
  "paginateMessagesDesc allMessages cursorStr sz = page_desc cm_Timestamp allMessages cursorStr sz"

definition chat_index_rank :: "ChatMessage \<Rightarrow> int \<times> int \<times> string" where
  "chat_index_rank m = (cm_Index m, cm_Timestamp m, cm_PinId m)"

definition sliceMessagesByIndex :: "ChatMessage list \<Rightarrow> int \<Rightarrow> int \<Rightarrow> ChatMessage list \<times> int" where
  "sliceMessagesByIndex allMessages startIndex sz = index_page cm_Index startIndex sz (sort_key chat_index_rank allMessages) ([], 0)"

definition nextChatIndex :: "'s gchat_env \<Rightarrow> string \<Rightarrow> string \<Rightarrow> 's \<Rightarrow> int \<times> 's" where
  "nextChatIndex A groupId channelId s =
     (let (messages, s1) = (if channelId \<noteq> '''' then collectChannelMessages A groupId channelId s else collectGroupRootMessages A groupId s)
      in (next_index cm_Index messages, s1))"

definition SaveChatMessage :: "'s gchat_env \<Rightarrow> ChatMessage \<Rightarrow> 's \<Rightarrow> (string option \<times> ChatMessage) \<times> 's" where
  "SaveChatMessage A msg0 s =
     (let (msg, s1) = (if cm_Index msg0 < 0
            then (let (i, s1) = nextChatIndex A (cm_GroupId msg0) (cm_ChannelId msg0) s in (msg0\<lparr>cm_Index := i\<rparr>, s1)) else (msg0, s));
          (e, s2) = save_json (ge_K (gx_env A)) gc_namespace (gx_Chat A) (chatKey (cm_GroupId msg) (cm_Timestamp msg) (cm_TxId msg)) msg s1
      in ((e, msg), s2))"

definition GetChatListV2BeforeTimestamp :: "'s gchat_env \<Rightarrow> string \<Rightarrow> string \<Rightarrow> int \<Rightarrow> int \<Rightarrow> 's \<Rightarrow> ChatMessage chat_list \<times> 's" where
  "GetChatListV2BeforeTimestamp A groupId cursorStr sz beforeTimestamp s =
     (let (messages, s1) = collectGroupRootMessages A groupId s
      in (paginateMessagesDesc (filterMessagesBeforeTimestamp messages beforeTimestamp) cursorStr sz, s1))"

definition GetChatListV2 :: "'s gchat_env \<Rightarrow> string \<Rightarrow> string \<Rightarrow> int \<Rightarrow> 's \<Rightarrow> ChatMessage chat_list \<times> 's" where
  "GetChatListV2 A groupId cursorStr sz s = GetChatListV2BeforeTimestamp A groupId cursorStr sz 0 s"

definition GetChatListByIndex :: "'s gchat_env \<Rightarrow> string \<Rightarrow> int \<Rightarrow> int \<Rightarrow> 's \<Rightarrow> ChatMessage chat_list \<times> 's" where
  "GetChatListByIndex A groupId startIndex sz s =
     (let (all, s1) = collectGroupRootMessages A groupId s; (messages, lastIndex) = sliceMessagesByIndex all startIndex sz
      in (\<lparr>pl_Total = int (length messages), pl_NextCursor = '''', pl_NextTimestamp = lastIndex, pl_List = messages\<rparr>, s1))"

definition GetChannelChatListV3 :: "'s gchat_env \<Rightarrow> string \<Rightarrow> string \<Rightarrow> string \<Rightarrow> int \<Rightarrow> int \<Rightarrow> 's \<Rightarrow> ChatMessage chat_list \<times> 's" where
  "GetChannelChatListV3 A groupId channelId cursorStr sz beforeTimestamp s =
     (let (messages, s1) = collectChannelMessages A groupId channelId s
      in (paginateMessagesDesc (filterMessagesBeforeTimestamp messages beforeTimestamp) cursorStr sz, s1))"

definition GetChannelChatListByIndex :: "'s gchat_env \<Rightarrow> string \<Rightarrow> string \<Rightarrow> int \<Rightarrow> int \<Rightarrow> 's \<Rightarrow> ChatMessage chat_list \<times> 's" where
  "GetChannelChatListByIndex A groupId channelId startIndex sz s =
     (let (all, s1) = collectChannelMessages A groupId channelId s; (messages, lastIndex) = sliceMessagesByIndex all startIndex sz
      in (\<lparr>pl_Total = int (length messages), pl_NextCursor = '''', pl_NextTimestamp = lastIndex, pl_List = messages\<rparr>, s1))"

text \<open>The scan keeps the first message with the pin ID.\<close>

definition GetReplyInfo :: "'s gchat_env \<Rightarrow> string \<Rightarrow> 's \<Rightarrow> ChatMessage option \<times> 's" where
  "GetReplyInfo A pinId s = (let (messages, s1) = collect_chat A ''chat:'' s in (find (\<lambda>m. cm_PinId m = pinId) messages, s1))"

definition GetChatMessage :: "'s gchat_env \<Rightarrow> string \<Rightarrow> int \<Rightarrow> string \<Rightarrow> 's \<Rightarrow> (string + ChatMessage option) \<times> 's" where
  "GetChatMessage A groupId timestamp txId s = load_json (ge_K (gx_env A)) gc_namespace (gx_Chat A) (chatKey groupId timestamp txId) s"

fun latestMessageByTimestamp :: "ChatMessage list \<Rightarrow> ChatMessage option \<Rightarrow> ChatMessage option" where
  "latestMessageByTimestamp [] latest = latest"
| "latestMessageByTimestamp (msg # ms) latest =
     latestMessageByTimestamp ms
       (case latest of None \<Rightarrow> Some msg
        | Some l \<Rightarrow> if cm_Timestamp l < cm_Timestamp msg \<or> cm_Timestamp msg = cm_Timestamp l \<and> cm_PinId l < cm_PinId msg then Some msg else latest)"

text \<open>The channels of a group: the stored ones and those that messages name, with their newest message.\<close>

definition newest_message :: "ChatMessage \<Rightarrow> GroupChannel \<Rightarrow> GroupChannel" where
  "newest_message msg ch =
     (if ch_NewestTimestamp ch \<le> cm_Timestamp msg
      then ch\<lparr>ch_NewestTxId := cm_TxId msg, ch_NewestPinId := cm_PinId msg, ch_NewestProtocol := cm_Protocol msg, ch_NewestContent := cm_Content msg,
             ch_NewestTimestamp := cm_Timestamp msg, ch_NewestMetaId := cm_MetaId msg, ch_NewestGlobalMetaId := cm_GlobalMetaId msg,
             ch_CreateUserMetaId := (if ch_CreateUserMetaId ch = '''' then cm_MetaId msg else ch_CreateUserMetaId ch),
             ch_CreateUserGlobalMetaId := (if ch_CreateUserGlobalMetaId ch = '''' then cm_GlobalMetaId msg else ch_CreateUserGlobalMetaId ch),
             ch_CreateUserAddress := (if ch_CreateUserAddress ch = '''' then cm_Address msg else ch_CreateUserAddress ch),
             ch_Timestamp := (if ch_Timestamp ch = 0 then cm_Timestamp msg else ch_Timestamp ch),
             ch_Chain := (if ch_Chain ch = '''' then cm_Chain msg else ch_Chain ch),
             ch_BlockHeight := (if ch_BlockHeight ch = 0 then cm_BlockHeight msg else ch_BlockHeight ch), ch_Index := cm_Index msg\<rparr>
      else ch)"

definition named_channel :: "string \<Rightarrow> string \<Rightarrow> GroupChannel" where
  "named_channel groupId channelId =
     \<lparr>ch_ChannelId = channelId, ch_GroupId = groupId, ch_TxId = '''', ch_PinId = '''', ch_ChannelName = channelId, ch_ChannelIcon = '''',
      ch_ChannelNote = '''', ch_ChannelType = 0, ch_NewestTxId = '''', ch_NewestPinId = '''', ch_NewestProtocol = '''', ch_NewestContent = '''',
      ch_NewestTimestamp = 0, ch_NewestMetaId = '''', ch_NewestGlobalMetaId = '''', ch_CreateUserMetaId = '''', ch_CreateUserGlobalMetaId = '''',
      ch_CreateUserAddress = '''', ch_Timestamp = 0, ch_Chain = '''', ch_BlockHeight = 0, ch_Index = 0\<rparr>"

definition channel_message :: "string \<Rightarrow> (string, GroupChannel) gomap \<Rightarrow> ChatMessage \<Rightarrow> (string, GroupChannel) gomap" where
  "channel_message groupId m msg =
     (if cm_ChannelId msg = '''' then m
      else gm_set m (cm_ChannelId msg)
        (newest_message msg (case gm_get m (cm_ChannelId msg) of None \<Rightarrow> named_channel groupId (cm_ChannelId msg) | Some ch \<Rightarrow> ch)))"

definition GetGroupChannelList :: "'s gchat_env \<Rightarrow> string \<Rightarrow> 's \<Rightarrow> (string + GroupChannel list) \<times> 's" where
  "GetGroupChannelList A groupId s =
     (case getStoredGroupChannels (gx_env A) groupId s of
        (Inl e, s1) \<Rightarrow> (Inl e, s1)
      | (Inr stored, s1) \<Rightarrow>
          (let (messages, s2) = collectGroupMessages A groupId s1;
               byChannel = foldl (channel_message groupId) (foldl (\<lambda>m ch. gm_set m (ch_ChannelId ch) ch) [] stored) messages
           in (Inr (sort_key (\<lambda>ch. - channelSortTimestamp ch) (map snd byChannel)), s2)))"

subsection \<open>Events\<close>

datatype group_payload = ChatPayload ChatMessage | RolePayload string string "(string \<times> bool) list"

type_synonym group_event = "group_payload NotifyEvent"

definition role_event :: "string \<Rightarrow> string \<Rightarrow> (string \<times> bool) list \<Rightarrow> group_event" where
  "role_event metaId groupId flags =
     \<lparr>ne_Type = ''WS_SERVER_NOTIFY_GROUP_ROLE'', ne_MetaId = metaId, ne_GlobalMetaId = '''', ne_TargetIds = [], ne_GroupId = groupId,
      ne_Payload = RolePayload metaId groupId flags\<rparr>"

subsection \<open>Pin handlers\<close>

definition gc_extractTxId :: "string \<Rightarrow> string" where
  "gc_extractTxId pinId = (case LastIndex pinId ''i'' of Some (Suc n) \<Rightarrow> take (Suc n) pinId | _ \<Rightarrow> pinId)"

definition author :: "PinInscription \<Rightarrow> string" where
  "author pin = (if pi_CreateMetaId pin = '''' then pi_MetaId pin else pi_CreateMetaId pin)"

definition handleCommunityCreate :: "'s gchat_env \<Rightarrow> PinInscription \<Rightarrow> 's \<Rightarrow> (string + group_event option) \<times> 's" where
  "handleCommunityCreate A pin s =
     (case gx_Community A (pi_ContentBody pin) of
        None \<Rightarrow> (Inr None, s)
      | Some sc \<Rightarrow>
          (case SaveCommunity (gx_env A)
              \<lparr>co_CommunityId = pi_Id pin, co_Name = sc_Name sc, co_Description = sc_Description sc, co_Cover = sc_Cover sc, co_Icon = sc_Icon sc,
               co_Creator = pi_CreateAddress pin, co_CreatorMetaId = author pin, co_MemberCount = 1, co_CreatedAt = pi_Timestamp pin,
               co_Chain = pi_ChainName pin, co_BlockHeight = pi_GenesisHeight pin\<rparr> s of
             (Some e, s1) \<Rightarrow> (Inl e, s1)
           | (None, s1) \<Rightarrow> (Inr None, s1)))"

definition group_of_pin :: "PinInscription \<Rightarrow> SimpleGroupCreate \<Rightarrow> Group" where
  "group_of_pin pin sgc =
     \<lparr>gr_GroupId = (if gcr_GroupId sgc = '''' then pi_Id pin else gcr_GroupId sgc), gr_TxId = gc_extractTxId (pi_Id pin), gr_PinId = pi_Id pin,
      gr_GroupName = gcr_GroupName sgc, gr_GroupNote = gcr_GroupNote sgc,
      gr_GroupType = firstProtocolString [JString (gcr_GroupType sgc), gcr_Type sgc], gr_Status = gcr_Status sgc, gr_Avatar = gcr_GroupIcon sgc,
      gr_Creator = pi_CreateAddress pin, gr_CreatorMetaId = author pin, gr_CreatorGlobalMetaId = pi_GlobalMetaId pin, gr_MemberCount = 1,
      gr_CommunityId = gcr_CommunityId sgc, gr_JoinType = firstProtocolString [gcr_JoinType sgc, gcr_Type sgc], gr_CreatedAt = pi_Timestamp pin,
      gr_Chain = pi_ChainName pin, gr_BlockHeight = pi_GenesisHeight pin\<rparr>"

definition member_of_pin :: "PinInscription \<Rightarrow> bool \<Rightarrow> GroupMember" where
  "member_of_pin pin creator =
     \<lparr>gb_MetaId = author pin, gb_GlobalMetaId = pi_GlobalMetaId pin, gb_Address = pi_CreateAddress pin, gb_UserName = '''', gb_Avatar = '''',
      gb_IsCreator = creator, gb_IsAdmin = creator, gb_IsBlocked = False, gb_IsWhitelist = False, gb_IsRemoved = False,
      gb_Timestamp = pi_Timestamp pin\<rparr>"

definition join_item :: "PinInscription \<Rightarrow> string \<Rightarrow> int \<Rightarrow> string \<Rightarrow> string \<Rightarrow> GroupMetaIdJoinItem" where
  "join_item pin joinType groupState referrer k =
     \<lparr>ji_JoinPinId = pi_Id pin, ji_JoinType = joinType, ji_JoinTimestamp = pi_Timestamp pin, ji_GroupState = groupState,
      ji_Address = pi_CreateAddress pin, ji_Referrer = referrer, ji_K = k, ji_BlockHeight = pi_GenesisHeight pin, ji_Chain = pi_ChainName pin,
      ji_ByGlobalMetaId = pi_GlobalMetaId pin, ji_ByMetaId = author pin, ji_ByAddress = pi_CreateAddress pin\<rparr>"

definition creator_role :: "PinInscription \<Rightarrow> string \<Rightarrow> GroupMemberRole" where
  "creator_role pin groupId =
     \<lparr>ro_MetaId = author pin, ro_GroupId = groupId, ro_IsCreator = True, ro_IsAdmin = True, ro_IsBlocked = False, ro_IsWhitelist = False,
      ro_IsRemoved = False, ro_Timestamp = pi_Timestamp pin, ro_BlockHeight = pi_GenesisHeight pin\<rparr>"

text \<open>A step that may fail, and the rest when it does not.\<close>

definition and_then :: "string option \<times> 's \<Rightarrow> ('s \<Rightarrow> (string + 'e) \<times> 's) \<Rightarrow> (string + 'e) \<times> 's" where
  "and_then r f = (case r of (Some e, s) \<Rightarrow> (Inl e, s) | (None, s) \<Rightarrow> f s)"

definition handleGroupCreate :: "'s gchat_env \<Rightarrow> PinInscription \<Rightarrow> 's \<Rightarrow> (string + group_event option) \<times> 's" where
  "handleGroupCreate A pin s =
     (case gx_Create A (pi_ContentBody pin) of
        None \<Rightarrow> (Inr None, s)
      | Some sgc \<Rightarrow>
          (let grp = group_of_pin pin sgc; groupId = gr_GroupId grp; metaId = author pin
           in and_then (SaveGroup (gx_env A) grp s) (\<lambda>s.
              and_then (SaveGroupMember (gx_env A) groupId metaId (member_of_pin pin True) s) (\<lambda>s.
              and_then (SetGroupRole (gx_env A) groupId metaId (creator_role pin groupId) s) (\<lambda>s.
              and_then (SaveGroupMetaIdJoinItem (gx_env A) groupId (join_item pin ''create'' 1 '''' '''') s) (\<lambda>s. (Inr None, s)))))))"

definition channel_of_pin :: "PinInscription \<Rightarrow> SimpleGroupChannel \<Rightarrow> GroupChannel" where
  "channel_of_pin pin sgc =
     (let channelId = (if gcn_ChannelId sgc = '''' then pi_Id pin else gcn_ChannelId sgc)
      in (named_channel (gcn_GroupId sgc) channelId)
           \<lparr>ch_TxId := gc_extractTxId (pi_Id pin), ch_PinId := pi_Id pin,
            ch_ChannelName := (if gcn_ChannelName sgc = '''' then channelId else gcn_ChannelName sgc), ch_ChannelIcon := gcn_ChannelIcon sgc,
            ch_ChannelNote := gcn_ChannelNote sgc, ch_ChannelType := protocolInt64Value (gcn_ChannelType sgc) 0,
            ch_CreateUserMetaId := author pin, ch_CreateUserGlobalMetaId := pi_GlobalMetaId pin, ch_CreateUserAddress := pi_CreateAddress pin,
            ch_Timestamp := pi_Timestamp pin, ch_Chain := pi_ChainName pin, ch_BlockHeight := pi_GenesisHeight pin, ch_Index := - 1\<rparr>)"

definition handleGroupChannel :: "'s gchat_env \<Rightarrow> PinInscription \<Rightarrow> 's \<Rightarrow> (string + group_event option) \<times> 's" where
  "handleGroupChannel A pin s =
     (case gx_Channel A (pi_ContentBody pin) of
        None \<Rightarrow> (Inr None, s)
      | Some sgc \<Rightarrow>
          (if gcn_GroupId sgc = '''' then (Inr None, s)
           else and_then (SaveGroupChannel (gx_env A) (channel_of_pin pin sgc) s) (\<lambda>s. (Inr None, s))))"

definition role_or_new :: "string \<Rightarrow> string \<Rightarrow> GroupMemberRole option \<Rightarrow> GroupMemberRole" where
  "role_or_new groupId metaId r =
     (case r of Some role \<Rightarrow> role
      | None \<Rightarrow> \<lparr>ro_MetaId = metaId, ro_GroupId = groupId, ro_IsCreator = False, ro_IsAdmin = False, ro_IsBlocked = False, ro_IsWhitelist = False,
                ro_IsRemoved = False, ro_Timestamp = 0, ro_BlockHeight = 0\<rparr>)"

text \<open>One iteration of the loop over the admins: a role that cannot be saved is skipped.\<close>

definition admin_step :: "'s gchat_env \<Rightarrow> PinInscription \<Rightarrow> string \<Rightarrow> group_event option \<times> 's \<Rightarrow> string \<Rightarrow> group_event option \<times> 's" where
  "admin_step A pin groupId st adminMetaId =
     (let (r, s1) = no_err (getGroupMemberRole (gx_env A) groupId adminMetaId (snd st));
          role = (role_or_new groupId adminMetaId r)\<lparr>ro_IsAdmin := True, ro_Timestamp := pi_Timestamp pin, ro_BlockHeight := pi_GenesisHeight pin\<rparr>
      in case SetGroupRole (gx_env A) groupId adminMetaId role s1 of
           (Some e, s2) \<Rightarrow> (fst st, s2)
         | (None, s2) \<Rightarrow>
             (let (m, s3) = no_err (GetGroupMember (gx_env A) groupId adminMetaId s2);
                  s4 = (case m of None \<Rightarrow> s3
                        | Some member \<Rightarrow> snd (SaveGroupMember (gx_env A) groupId adminMetaId (member\<lparr>gb_IsAdmin := True, gb_Timestamp := pi_Timestamp pin\<rparr>) s3))
              in (Some (role_event adminMetaId groupId [(''isAdmin'', True), (''isCreator'', ro_IsCreator role)]), s4)))"

definition handleGroupAdmin :: "'s gchat_env \<Rightarrow> PinInscription \<Rightarrow> 's \<Rightarrow> (string + group_event option) \<times> 's" where
  "handleGroupAdmin A pin s =
     (case gx_Admin A (pi_ContentBody pin) of
        None \<Rightarrow> (Inr None, s)
      | Some sga \<Rightarrow>
          (if gad_GroupId sga = '''' then (Inr None, s)
           else (let (lastEvent, s1) = foldl (admin_step A pin (gad_GroupId sga)) (None, s) (gad_Admins sga) in (Inr lastEvent, s1))))"

definition block_step :: "'s gchat_env \<Rightarrow> PinInscription \<Rightarrow> string \<Rightarrow> group_event option \<times> 's \<Rightarrow> string \<Rightarrow> group_event option \<times> 's" where
  "block_step A pin groupId st blockedMetaId =
     (let (r, s1) = no_err (getGroupMemberRole (gx_env A) groupId blockedMetaId (snd st));
          role = (role_or_new groupId blockedMetaId r)\<lparr>ro_IsBlocked := True, ro_Timestamp := pi_Timestamp pin, ro_BlockHeight := pi_GenesisHeight pin\<rparr>
      in case SetGroupRole (gx_env A) groupId blockedMetaId role s1 of
           (Some e, s2) \<Rightarrow> (fst st, s2)
         | (None, s2) \<Rightarrow> (Some (role_event blockedMetaId groupId [(''isBlocked'', True)]), s2))"

definition handleGroupBlock :: "'s gchat_env \<Rightarrow> PinInscription \<Rightarrow> 's \<Rightarrow> (string + group_event option) \<times> 's" where
  "handleGroupBlock A pin s =
     (case gx_Block A (pi_ContentBody pin) of
        None \<Rightarrow> (Inr None, s)
      | Some sgb \<Rightarrow>
          (if gbl_GroupId sgb = '''' then (Inr None, s)
           else (let (lastEvent, s1) = foldl (block_step A pin (gbl_GroupId sgb)) (None, s) (gbl_Users sgb) in (Inr lastEvent, s1))))"

definition chat_of :: "PinInscription \<Rightarrow> SimpleGroupChat \<Rightarrow> ChatMessage option \<Rightarrow> ChatMessage" where
  "chat_of pin sgc reply =
     \<lparr>cm_TxId = gc_extractTxId (pi_Id pin), cm_PinId = pi_Id pin, cm_GroupId = gct_GroupId sgc, cm_ChannelId = gct_ChannelId sgc,
      cm_MetaId = author pin, cm_GlobalMetaId = pi_GlobalMetaId pin, cm_Address = pi_CreateAddress pin, cm_Protocol = pi_Path pin,
      cm_Content = gct_Content sgc, cm_ContentType = gct_ContentType sgc, cm_Encryption = gct_Encryption sgc,
      cm_ChatType = (if gct_ContentType sgc = ''file'' then ''file'' else ''msg''), cm_ReplyPin = gct_ReplyPin sgc,
      cm_ReplyInfo = map_option cm_PinId reply,
      cm_ReplyMetaId = (case reply of None \<Rightarrow> pi_MetaId pin | Some r \<Rightarrow> cm_MetaId r),
      cm_ReplyGlobalMetaId = (case reply of None \<Rightarrow> pi_GlobalMetaId pin | Some r \<Rightarrow> cm_GlobalMetaId r),
      cm_Mention = gct_Mention sgc, cm_Timestamp = pi_Timestamp pin, cm_Chain = pi_ChainName pin, cm_BlockHeight = pi_GenesisHeight pin,
      cm_Index = - 1\<rparr>"

definition handleGroupChat :: "'s gchat_env \<Rightarrow> PinInscription \<Rightarrow> 's \<Rightarrow> (string + group_event option) \<times> 's" where
  "handleGroupChat A pin s =
     (case gx_Msg A (pi_ContentBody pin) of
        None \<Rightarrow> (Inr None, s)
      | Some sgc \<Rightarrow>
          (if gct_GroupId sgc = '''' then (Inr None, s)
           else
             (let groupId = gct_GroupId sgc; metaId = author pin;
                  (isMember, s1) = IsUserInGroup (gx_env A) groupId metaId s;
                  s2 = (if isMember = Inr True then s1 else snd (SaveGroupMember (gx_env A) groupId metaId (member_of_pin pin False) s1));
                  (reply, s3) = (if gct_ReplyPin sgc \<noteq> '''' then GetReplyInfo A (gct_ReplyPin sgc) s2 else (None, s2))
              in case SaveChatMessage A (chat_of pin sgc reply) s3 of
                   ((Some e, msg), s4) \<Rightarrow> (Inl e, s4)
                 | ((None, msg), s4) \<Rightarrow>
                     (let (targets, s5) = GroupMemberTargetIds (gx_env A) groupId s4
                      in (Inr (Some \<lparr>ne_Type = ''WS_SERVER_NOTIFY_GROUP_CHAT'', ne_MetaId = '''', ne_GlobalMetaId = '''', ne_TargetIds = targets,
                            ne_GroupId = groupId, ne_Payload = ChatPayload msg\<rparr>), s5)))))"

definition joins :: "SimpleGroupJoin \<Rightarrow> bool" where
  "joins sgj = (case gjo_State sgj of JFloat n exact t \<Rightarrow> exact \<and> n = 1 | _ \<Rightarrow> True)"

text \<open>The update of the member count: the group is read, changed and written; errors are ignored.\<close>

definition count_members :: "'s gchat_env \<Rightarrow> string \<Rightarrow> (int \<Rightarrow> int) \<Rightarrow> 's \<Rightarrow> 's" where
  "count_members A groupId f s =
     (case no_err (GetGroup (gx_env A) groupId s) of
        (None, s1) \<Rightarrow> s1
      | (Some grp, s1) \<Rightarrow> snd (SaveGroup (gx_env A) (grp\<lparr>gr_MemberCount := f (gr_MemberCount grp)\<rparr>) s1))"

definition leave_count :: "'s gchat_env \<Rightarrow> string \<Rightarrow> 's \<Rightarrow> 's" where
  "leave_count A groupId s =
     (case no_err (GetGroup (gx_env A) groupId s) of
        (None, s1) \<Rightarrow> s1
      | (Some grp, s1) \<Rightarrow> if 0 < gr_MemberCount grp then snd (SaveGroup (gx_env A) (grp\<lparr>gr_MemberCount := gr_MemberCount grp - 1\<rparr>) s1) else s1)"

definition handleGroupJoin :: "'s gchat_env \<Rightarrow> PinInscription \<Rightarrow> 's \<Rightarrow> (string + group_event option) \<times> 's" where
  "handleGroupJoin A pin s =
     (case gx_Join A (pi_ContentBody pin) of
        None \<Rightarrow> (Inr None, s)
      | Some sgj \<Rightarrow>
          (if gjo_GroupId sgj = '''' then (Inr None, s)
           else
             (let groupId = gjo_GroupId sgj; metaId = author pin
              in and_then (SaveGroupMetaIdJoinItem (gx_env A) groupId
                   (join_item pin (if joins sgj then ''join'' else ''leave'') (if joins sgj then 1 else - 1) (gjo_Referrer sgj) (gjo_K sgj)) s)
                   (\<lambda>s1.
                      if joins sgj then
                        and_then (SaveGroupMember (gx_env A) groupId metaId (member_of_pin pin False) s1)
                          (\<lambda>s2. (Inr (Some (role_event metaId groupId [])), count_members A groupId (\<lambda>n. wrap64 (n + 1)) s2))
                      else
                        (let (m, s2) = no_err (GetGroupMember (gx_env A) groupId metaId s1)
                         in and_then (case m of None \<Rightarrow> (None, s2)
                              | Some member \<Rightarrow> SaveGroupMember (gx_env A) groupId metaId (member\<lparr>gb_IsRemoved := True, gb_Timestamp := pi_Timestamp pin\<rparr>) s2)
                              (\<lambda>s3. (Inr (Some (role_event metaId groupId [(''isRemoved'', True)])), leave_count A groupId s3)))))))"

definition gc_dispatchPin :: "'s gchat_env \<Rightarrow> PinInscription \<Rightarrow> 's \<Rightarrow> (string + group_event option) \<times> 's" where
  "gc_dispatchPin A pin s =
     (if pi_Path pin = '''' then (Inr None, s)
      else
        (let p = ToLower (ge_U (gx_env A)) (Trim CHR ''/'' (pi_Path pin))
         in if HasSuffix p ''simplecommunity'' then handleCommunityCreate A pin s
            else if HasSuffix p ''simplegroupcreate'' then handleGroupCreate A pin s
            else if HasSuffix p ''simplegroupchannel'' then handleGroupChannel A pin s
            else if HasSuffix p ''simplegroupadmin'' then handleGroupAdmin A pin s
            else if HasSuffix p ''simplegroupblock'' then handleGroupBlock A pin s
            else if HasSuffix p ''simplegroupchat'' then handleGroupChat A pin s
            else if HasSuffix p ''simplegroupjoin'' then handleGroupJoin A pin s
            else (Inr None, s)))"

definition gc_sendNotifyEvent :: "group_event \<Rightarrow> group_event list \<Rightarrow> bool \<times> group_event list" where
  "gc_sendNotifyEvent event ch = (if length ch < 256 then (True, ch @ [event]) else (False, ch))"

definition GroupChat_HandlePin ::
    "'s gchat_env \<Rightarrow> PinInscription \<Rightarrow> 's \<times> group_event list \<Rightarrow> (string + group_event option) \<times> 's \<times> group_event list" where
  "GroupChat_HandlePin A pin st =
     (case gc_dispatchPin A pin (fst st) of
        (Inl e, s1) \<Rightarrow> (Inl e, s1, snd st)
      | (Inr None, s1) \<Rightarrow> (Inr None, s1, snd st)
      | (Inr (Some event), s1) \<Rightarrow> (Inr (Some event), s1, snd (gc_sendNotifyEvent event (snd st))))"

subsection \<open>Membership as the pins say it\<close>

text \<open>What a pin says about the membership of \<open>u\<close> in \<open>g\<close>: creating, joining and writing make the author a member, leaving ends it.\<close>

definition gc_path :: "'s gchat_env \<Rightarrow> PinInscription \<Rightarrow> string" where
  "gc_path A pin = ToLower (ge_U (gx_env A)) (Trim CHR ''/'' (pi_Path pin))"

definition says :: "bool \<Rightarrow> string \<Rightarrow> PinInscription \<Rightarrow> string \<Rightarrow> string \<Rightarrow> bool option" where
  "says b groupId pin g u = (if groupId = g \<and> author pin = u then Some b else None)"

definition member_effect :: "'s gchat_env \<Rightarrow> PinInscription \<Rightarrow> string \<Rightarrow> string \<Rightarrow> bool option" where
  "member_effect A pin g u =
     (let p = gc_path A pin; body = pi_ContentBody pin
      in if pi_Path pin = '''' \<or> HasSuffix p ''simplecommunity'' then None
         else if HasSuffix p ''simplegroupcreate'' then
           (case gx_Create A body of None \<Rightarrow> None | Some c \<Rightarrow> says True (gr_GroupId (group_of_pin pin c)) pin g u)
         else if HasSuffix p ''simplegroupchannel'' \<or> HasSuffix p ''simplegroupadmin'' \<or> HasSuffix p ''simplegroupblock'' then None
         else if HasSuffix p ''simplegroupchat'' then
           (case gx_Msg A body of None \<Rightarrow> None | Some c \<Rightarrow> if gct_GroupId c = '''' then None else says True (gct_GroupId c) pin g u)
         else if HasSuffix p ''simplegroupjoin'' then
           (case gx_Join A body of None \<Rightarrow> None | Some c \<Rightarrow> if gjo_GroupId c = '''' then None else says (joins c) (gjo_GroupId c) pin g u)
         else None)"

lemma member_effect_eq:
  "member_effect A pin =
     (if pi_Path pin = '''' then (\<lambda>g u. None)
      else if HasSuffix (gc_path A pin) ''simplecommunity'' then (\<lambda>g u. None)
      else if HasSuffix (gc_path A pin) ''simplegroupcreate'' then
        (\<lambda>g u. case gx_Create A (pi_ContentBody pin) of None \<Rightarrow> None | Some c \<Rightarrow> says True (gr_GroupId (group_of_pin pin c)) pin g u)
      else if HasSuffix (gc_path A pin) ''simplegroupchannel'' then (\<lambda>g u. None)
      else if HasSuffix (gc_path A pin) ''simplegroupadmin'' then (\<lambda>g u. None)
      else if HasSuffix (gc_path A pin) ''simplegroupblock'' then (\<lambda>g u. None)
      else if HasSuffix (gc_path A pin) ''simplegroupchat'' then
        (\<lambda>g u. case gx_Msg A (pi_ContentBody pin) of None \<Rightarrow> None | Some c \<Rightarrow> if gct_GroupId c = '''' then None else says True (gct_GroupId c) pin g u)
      else if HasSuffix (gc_path A pin) ''simplegroupjoin'' then
        (\<lambda>g u. case gx_Join A (pi_ContentBody pin) of None \<Rightarrow> None | Some c \<Rightarrow> if gjo_GroupId c = '''' then None else says (joins c) (gjo_GroupId c) pin g u)
      else (\<lambda>g u. None))"
  by (intro ext) (simp add: member_effect_def Let_def)

text \<open>What a database says about a member key; \<open>None\<close> when its value does not decode.\<close>

definition mem_at :: "GroupMember codec \<Rightarrow> (bytes \<Rightarrow> bytes option) \<Rightarrow> bytes \<Rightarrow> bool option" where
  "mem_at C c k = (case c k of None \<Rightarrow> Some False | Some raw \<Rightarrow> map_option (\<lambda>m. \<not> gb_IsRemoved m) (cd_Unmarshal C raw))"

lemma member_key_eq:
  assumes "colon_free u" and "colon_free u'"
  shows "groupMemberKey g u = groupMemberKey g' u' \<longleftrightarrow> g = g' \<and> u = u'"
proof -
  have "rev (groupMemberKey g u) = rev u @ CHR '':'' # rev (''member:'' @ g)" for g u by (simp add: groupMemberKey_def)
  then have "rev (groupMemberKey g u) = rev (groupMemberKey g' u') \<longleftrightarrow> rev u = rev u' \<and> rev (''member:'' @ g) = rev (''member:'' @ g')"
    using assms sep_eq [of "CHR '':''" "rev u" "rev u'"] by (simp only: colon_free_def set_rev) blast
  then show ?thesis by auto
qed

lemma member_key_prefix: "prefix ''member:'' (groupMemberKey g u)"
  by (simp add: groupMemberKey_def)

lemma other_keys:
  "\<not> prefix ''member:'' (groupKey g)" "\<not> prefix ''member:'' (groupRoleKey g u)" "\<not> prefix ''member:'' (communityKey g)"
  "\<not> prefix ''member:'' (groupJoinKey i g t p)" "\<not> prefix ''member:'' (groupChannelKey g u)" "\<not> prefix ''member:'' (chatKey g t p)"
  by (simp_all add: groupKey_def groupRoleKey_def communityKey_def groupJoinKey_def groupChannelKey_def chatKey_def)

lemma snd_no_err: "snd (no_err r) = snd r"
  by (simp add: no_err_def split: prod.split sum.split)

lemma and_then_ok: "fst r = None \<Longrightarrow> and_then r f = f (snd r)"
  by (cases r) (simp add: and_then_def)

text \<open>The module on a reliable store. Of \<open>encoding/json\<close> it needs that the stored types can be written, and that a member record keeps
  its flag \<open>isRemoved\<close>.\<close>

locale group_store = kv_reliable K loc content inv
  for K :: "'s kv_api" and loc content inv +
  fixes A :: "'s gchat_env"
  assumes env: "ge_K (gx_env A) = K"
    and member_kept: "\<exists>raw m'. cd_Marshal (gk_Member (ge_C (gx_env A))) m = Inr raw
      \<and> cd_Unmarshal (gk_Member (ge_C (gx_env A))) raw = Some m' \<and> gb_IsRemoved m' = gb_IsRemoved m"
    and group_written: "\<exists>raw. cd_Marshal (gk_Group (ge_C (gx_env A))) grp = Inr raw"
    and role_written: "\<exists>raw. cd_Marshal (gk_Role (ge_C (gx_env A))) role = Inr raw"
    and join_written: "\<exists>raw. cd_Marshal (gk_Join (ge_C (gx_env A))) item = Inr raw"
begin

abbreviation db :: "'s \<Rightarrow> bytes \<Rightarrow> bytes option" where "db s \<equiv> content s (loc gc_namespace)"

abbreviation mem :: "'s \<Rightarrow> bytes \<Rightarrow> bool option" where "mem s k \<equiv> mem_at (gk_Member (ge_C (gx_env A))) (db s) k"

text \<open>The member records are as before.\<close>

definition same_members :: "'s \<Rightarrow> 's \<Rightarrow> bool" where
  "same_members s s' \<longleftrightarrow> inv s' \<and> (\<forall>k. prefix ''member:'' k \<longrightarrow> db s' k = db s k)"

lemma same_refl: "inv s \<Longrightarrow> same_members s s"
  by (simp add: same_members_def)

lemma same_trans: "same_members s1 s2 \<Longrightarrow> same_members s2 s3 \<Longrightarrow> same_members s1 s3"
  by (simp add: same_members_def)

lemma same_inv: "same_members s s' \<Longrightarrow> inv s'"
  by (simp add: same_members_def)

lemma same_content: "inv s' \<Longrightarrow> content s' = content s \<Longrightarrow> same_members s s'"
  by (simp add: same_members_def)

lemma same_mem: "same_members s s' \<Longrightarrow> mem s' (groupMemberKey g u) = mem s (groupMemberKey g u)"
  by (simp add: same_members_def mem_at_def member_key_prefix)

lemma set_same:
  assumes "inv s" and "\<not> prefix ''member:'' key"
  shows "same_members s (snd (kv_Set K gc_namespace key raw s))"
proof -
  obtain s' where "kv_Set K gc_namespace key raw s = (None, s')" "inv s'"
    "content s' = (content s)(loc gc_namespace := (db s)(key \<mapsto> raw))"
    by (rule Set_eq [OF assms(1)])
  then show ?thesis using assms(2) by (auto simp: same_members_def)
qed

lemma save_same:
  assumes "inv s" and "\<not> prefix ''member:'' key"
  shows "same_members s (snd (save_json K gc_namespace C key m s))"
proof (cases "cd_Marshal C m")
  case (Inl e)
  then show ?thesis using assms(1) by (simp add: save_json_def same_refl)
next
  case (Inr raw)
  then show ?thesis using set_same [OF assms, of raw] set_total [OF assms(1), of gc_namespace key raw]
    by (auto simp: save_json_def split: prod.split option.split)
qed

lemma save_ok: "inv s \<Longrightarrow> \<exists>raw. cd_Marshal C m = Inr raw \<Longrightarrow> fst (save_json K gc_namespace C key m s) = None"
  using set_total [of s gc_namespace key] by (auto simp: save_json_def split: prod.split option.split) (metis fst_conv option.distinct(1))

lemma get_same: "inv s \<Longrightarrow> same_members s (snd (kv_Get K gc_namespace key s))"
  using get_inv [of s gc_namespace key] by (metis prod.collapse same_content)

lemma load_same: "inv s \<Longrightarrow> same_members s (snd (load_json K gc_namespace C key s))"
  using get_same [of s key] by (auto simp: load_json_def split: prod.splits sum.splits db_error.splits option.splits)

lemma scan_same: "inv s \<Longrightarrow> same_members s (snd (kv_Scan K gc_namespace p s))"
  using scan_inv [of s gc_namespace p] by (metis prod.collapse same_content)

end

context group_store
begin

lemma member_saved:
  assumes "inv s"
  shows "fst (SaveGroupMember (gx_env A) g u m s) = None" and "inv (snd (SaveGroupMember (gx_env A) g u m s))"
    and "mem (snd (SaveGroupMember (gx_env A) g u m s)) k = (if k = groupMemberKey g u then Some (\<not> gb_IsRemoved m) else mem s k)"
proof -
  obtain raw m' where r: "cd_Marshal (gk_Member (ge_C (gx_env A))) m = Inr raw" "cd_Unmarshal (gk_Member (ge_C (gx_env A))) raw = Some m'"
    "gb_IsRemoved m' = gb_IsRemoved m" using member_kept by blast
  obtain s' where s': "kv_Set K gc_namespace (groupMemberKey g u) raw s = (None, s')" "inv s'"
    "content s' = (content s)(loc gc_namespace := (db s)(groupMemberKey g u \<mapsto> raw))"
    by (rule Set_eq [OF assms])
  have e: "SaveGroupMember (gx_env A) g u m s = (None, s')" using r(1) s'(1) by (simp add: SaveGroupMember_def save_json_def env)
  show "fst (SaveGroupMember (gx_env A) g u m s) = None" "inv (snd (SaveGroupMember (gx_env A) g u m s))" using e s'(2) by simp_all
  show "mem (snd (SaveGroupMember (gx_env A) g u m s)) k = (if k = groupMemberKey g u then Some (\<not> gb_IsRemoved m) else mem s k)"
    using r(2,3) by (simp add: e s'(3) mem_at_def)
qed

lemma GetGroupMember_eq:
  assumes "inv s"
  shows "inv (snd (GetGroupMember (gx_env A) g u s))" and "same_members s (snd (GetGroupMember (gx_env A) g u s))"
    and "fst (no_err (GetGroupMember (gx_env A) g u s)) = Some m \<Longrightarrow> mem s (groupMemberKey g u) = Some (\<not> gb_IsRemoved m)"
    and "fst (no_err (GetGroupMember (gx_env A) g u s)) = None \<Longrightarrow> mem s (groupMemberKey g u) \<in> {None, Some False}"
proof -
  obtain s' where g: "kv_Get K gc_namespace (groupMemberKey g u) s
      = (case db s (groupMemberKey g u) of None \<Rightarrow> Inl ErrNotFound | Some v \<Rightarrow> Inr v, s')" "inv s'" "content s' = content s"
    by (rule Get_eq [OF assms])
  show "same_members s (snd (GetGroupMember (gx_env A) g u s))" unfolding GetGroupMember_def env by (rule load_same [OF assms])
  then show "inv (snd (GetGroupMember (gx_env A) g u s))" by (rule same_inv)
  show "fst (no_err (GetGroupMember (gx_env A) g u s)) = Some m \<Longrightarrow> mem s (groupMemberKey g u) = Some (\<not> gb_IsRemoved m)"
    "fst (no_err (GetGroupMember (gx_env A) g u s)) = None \<Longrightarrow> mem s (groupMemberKey g u) \<in> {None, Some False}"
    using g(1) by (auto simp: GetGroupMember_def load_json_def no_err_def env mem_at_def split: option.splits)
qed

lemma IsUserInGroup_eq:
  assumes "inv s"
  shows "same_members s (snd (IsUserInGroup (gx_env A) g u s))"
    and "fst (IsUserInGroup (gx_env A) g u s) = (case mem s (groupMemberKey g u) of None \<Rightarrow> Inl ''decode error'' | Some b \<Rightarrow> Inr b)"
proof -
  obtain s' where g: "kv_Get K gc_namespace (groupMemberKey g u) s
      = (case db s (groupMemberKey g u) of None \<Rightarrow> Inl ErrNotFound | Some v \<Rightarrow> Inr v, s')" "inv s'" "content s' = content s"
    by (rule Get_eq [OF assms])
  then show "same_members s (snd (IsUserInGroup (gx_env A) g u s))"
    "fst (IsUserInGroup (gx_env A) g u s) = (case mem s (groupMemberKey g u) of None \<Rightarrow> Inl ''decode error'' | Some b \<Rightarrow> Inr b)"
    by (auto simp: IsUserInGroup_def GetGroupMember_def load_json_def env mem_at_def intro: same_content split: option.splits)
qed

text \<open>What a handler does to memberships, given what the pin says.\<close>

definition moves :: "(string \<Rightarrow> string \<Rightarrow> bool option) \<Rightarrow> 's \<Rightarrow> 's \<Rightarrow> bool" where
  "moves eff s s' \<longleftrightarrow> inv s' \<and> (\<forall>g u. colon_free u \<longrightarrow> mem s (groupMemberKey g u) \<noteq> None
     \<longrightarrow> mem s' (groupMemberKey g u) = (case eff g u of None \<Rightarrow> mem s (groupMemberKey g u) | Some b \<Rightarrow> Some b))"

lemma moves_inv: "moves eff s s' \<Longrightarrow> inv s'"
  by (simp add: moves_def)

lemma same_moves: "same_members s s' \<Longrightarrow> moves (\<lambda>g u. None) s s'"
  by (simp add: moves_def same_inv same_mem)

lemma moves_after: "same_members s s1 \<Longrightarrow> moves eff s1 s2 \<Longrightarrow> moves eff s s2"
  using same_mem [of s s1] by (simp add: moves_def split: option.split)

lemma moves_before: "moves eff s s1 \<Longrightarrow> same_members s1 s2 \<Longrightarrow> moves eff s s2"
  by (simp add: moves_def same_mem same_inv)

lemma member_moves:
  assumes "inv s" and "colon_free (author pin)"
  shows "moves (says (\<not> gb_IsRemoved m) g pin) s (snd (SaveGroupMember (gx_env A) g (author pin) m s))"
  using member_saved [OF assms(1)] assms(2) by (auto simp: moves_def says_def member_key_eq)

lemma save_group_same: "inv s \<Longrightarrow> same_members s (snd (SaveGroup (gx_env A) grp s))"
  unfolding SaveGroup_def env by (rule save_same) (simp_all add: other_keys)

lemma role_same: "inv s \<Longrightarrow> same_members s (snd (SetGroupRole (gx_env A) g u role s))"
  unfolding SetGroupRole_def env by (rule save_same) (simp_all add: other_keys)

lemma get_role_same: "inv s \<Longrightarrow> same_members s (snd (getGroupMemberRole (gx_env A) g u s))"
  using get_same [of s "groupRoleKey g u"]
  by (cases "kv_Get K gc_namespace (groupRoleKey g u) s") (auto simp: getGroupMemberRole_def env split: sum.split option.split)

lemma join_keys_same:
  "inv s \<Longrightarrow> (\<And>key. key \<in> set keys \<Longrightarrow> \<not> prefix ''member:'' key) \<Longrightarrow> same_members s (snd (save_join_keys K raw keys s)) \<and> fst (save_join_keys K raw keys s) = None"
proof (induction keys arbitrary: s)
  case (Cons key keys)
  have st: "same_members s (snd (kv_Set K gc_namespace key raw s))" "fst (kv_Set K gc_namespace key raw s) = None"
    using set_same [OF Cons.prems(1)] set_total [OF Cons.prems(1)] Cons.prems(2) by simp_all
  then show ?case using Cons.IH [OF same_inv [OF st(1)]] Cons.prems(2) same_trans [OF st(1)]
    by (cases "kv_Set K gc_namespace key raw s") simp
qed (simp add: same_refl)

lemma join_item_same:
  "inv s \<Longrightarrow> same_members s (snd (SaveGroupMetaIdJoinItem (gx_env A) g item s)) \<and> fst (SaveGroupMetaIdJoinItem (gx_env A) g item s) = None"
proof -
  assume s: "inv s"
  obtain raw where raw: "cd_Marshal (gk_Join (ge_C (gx_env A))) item = Inr raw" using join_written by blast
  let ?keys = "map (\<lambda>i. groupJoinKey i g (ji_JoinTimestamp item) (ji_JoinPinId item)) (groupMetaIdJoinItemAliases (ge_U (gx_env A)) item)"
  have "same_members s (snd (save_join_keys K raw ?keys s)) \<and> fst (save_join_keys K raw ?keys s) = None"
    by (rule join_keys_same [OF s]) (use other_keys(4) in auto)
  then show ?thesis by (simp add: SaveGroupMetaIdJoinItem_def env raw same_refl s)
qed

end

context group_store
begin

lemma create_moves:
  assumes "inv s" and "colon_free (author pin)"
  shows "moves (\<lambda>g u. case gx_Create A (pi_ContentBody pin) of None \<Rightarrow> None | Some c \<Rightarrow> says True (gr_GroupId (group_of_pin pin c)) pin g u) s
    (snd (handleGroupCreate A pin s))"
proof (cases "gx_Create A (pi_ContentBody pin)")
  case None
  then show ?thesis using same_moves [OF same_refl [OF assms(1)]] by (simp add: handleGroupCreate_def)
next
  case (Some c)
  define grp where "grp = group_of_pin pin c"
  define s1 where "s1 = snd (SaveGroup (gx_env A) grp s)"
  define s2 where "s2 = snd (SaveGroupMember (gx_env A) (gr_GroupId grp) (author pin) (member_of_pin pin True) s1)"
  define s3 where "s3 = snd (SetGroupRole (gx_env A) (gr_GroupId grp) (author pin) (creator_role pin (gr_GroupId grp)) s2)"
  define s4 where "s4 = snd (SaveGroupMetaIdJoinItem (gx_env A) (gr_GroupId grp) (join_item pin ''create'' 1 '''' '''') s3)"
  have s1: "same_members s s1" unfolding s1_def by (rule save_group_same [OF assms(1)])
  have i2: "inv s2" unfolding s2_def by (rule member_saved(2) [OF same_inv [OF s1]])
  have s3: "same_members s2 s3" unfolding s3_def by (rule role_same [OF i2])
  have s4: "same_members s3 s4" unfolding s4_def using join_item_same [OF same_inv [OF s3]] by simp
  have r: "fst (SaveGroup (gx_env A) grp s) = None" "fst (SetGroupRole (gx_env A) (gr_GroupId grp) (author pin) (creator_role pin (gr_GroupId grp)) s2) = None"
    unfolding SaveGroup_def SetGroupRole_def env using save_ok [OF assms(1) group_written] save_ok [OF i2 role_written] by simp_all
  have "handleGroupCreate A pin s = (Inr None, s4)"
    using Some r member_saved(1) [OF same_inv [OF s1]] join_item_same [OF same_inv [OF s3]]
    by (simp add: handleGroupCreate_def Let_def and_then_ok flip: grp_def s1_def s2_def s3_def s4_def)
  moreover have "moves (says True (gr_GroupId grp) pin) s1 s2"
    using member_moves [OF same_inv [OF s1] assms(2), of "member_of_pin pin True" "gr_GroupId grp"] by (simp add: s2_def member_of_pin_def)
  ultimately show ?thesis using moves_before [OF moves_after [OF s1] same_trans [OF s3 s4]] by (simp add: Some grp_def)
qed

end

context group_store
begin

lemma collect_chat_same: "inv s \<Longrightarrow> same_members s (snd (collect_chat A p s))"
  using scan_same [of s p] by (cases "kv_Scan K gc_namespace p s") (auto simp: collect_chat_def env split: sum.split)

lemma next_index_same: "inv s \<Longrightarrow> same_members s (snd (nextChatIndex A g c s))"
  using collect_chat_same [of s]
  by (simp add: nextChatIndex_def collectChannelMessages_def collectGroupRootMessages_def collectAllChatMessages_def collectGroupMessages_def split_def Let_def)

lemma chat_message_same:
  assumes "inv s"
  shows "same_members s (snd (SaveChatMessage A m s))"
proof -
  define s1 where "s1 = (if cm_Index m < 0 then snd (nextChatIndex A (cm_GroupId m) (cm_ChannelId m) s) else s)"
  define m1 where "m1 = (if cm_Index m < 0 then m\<lparr>cm_Index := fst (nextChatIndex A (cm_GroupId m) (cm_ChannelId m) s)\<rparr> else m)"
  have s1: "same_members s s1" using next_index_same [OF assms] same_refl [OF assms] by (simp add: s1_def)
  have "snd (SaveChatMessage A m s) = snd (save_json K gc_namespace (gx_Chat A) (chatKey (cm_GroupId m1) (cm_Timestamp m1) (cm_TxId m1)) m1 s1)"
    by (simp add: SaveChatMessage_def m1_def s1_def env split_def Let_def)
  then show ?thesis using same_trans [OF s1 save_same [OF same_inv [OF s1] other_keys(6)]] by simp
qed

lemma chat_moves:
  assumes "inv s" and "colon_free (author pin)"
  shows "moves (\<lambda>g u. case gx_Msg A (pi_ContentBody pin) of None \<Rightarrow> None | Some c \<Rightarrow> if gct_GroupId c = '''' then None else says True (gct_GroupId c) pin g u) s
    (snd (handleGroupChat A pin s))"
proof (cases "\<exists>c. gx_Msg A (pi_ContentBody pin) = Some c \<and> gct_GroupId c \<noteq> ''''")
  case False
  then show ?thesis using same_moves [OF same_refl [OF assms(1)]] by (auto simp: handleGroupChat_def split: option.splits)
next
  case True
  then obtain c where c: "gx_Msg A (pi_ContentBody pin) = Some c" "gct_GroupId c \<noteq> ''''" by blast
  let ?g = "gct_GroupId c" and ?u = "author pin"
  define r where "r = IsUserInGroup (gx_env A) ?g ?u s"
  define s2 where "s2 = (if fst r = Inr True then snd r else snd (SaveGroupMember (gx_env A) ?g ?u (member_of_pin pin False) (snd r)))"
  define p where "p = (if gct_ReplyPin c \<noteq> '''' then GetReplyInfo A (gct_ReplyPin c) s2 else (None, s2))"
  define q where "q = SaveChatMessage A (chat_of pin c (fst p)) (snd p)"
  have r: "same_members s (snd r)" unfolding r_def by (rule IsUserInGroup_eq(1) [OF assms(1)])
  have s2: "moves (says True ?g pin) (snd r) s2"
  proof (cases "fst r = Inr True")
    case True
    then have "mem (snd r) (groupMemberKey ?g ?u) = Some True"
      using IsUserInGroup_eq(2) [OF assms(1), of ?g ?u] same_mem [OF r] by (auto simp: r_def split: option.splits)
    then show ?thesis using True same_inv [OF r] by (auto simp: moves_def s2_def says_def split: option.split)
  next
    case False
    then show ?thesis using member_moves [OF same_inv [OF r] assms(2), of "member_of_pin pin False" ?g] by (simp add: s2_def member_of_pin_def)
  qed
  have i2: "inv s2" using s2 by (simp add: moves_def)
  have p: "same_members s2 (snd p)"
    using collect_chat_same [OF i2, of "''chat:''"] same_refl [OF i2] by (simp add: p_def GetReplyInfo_def split_def Let_def)
  have q: "same_members (snd p) (snd q)" unfolding q_def by (rule chat_message_same [OF same_inv [OF p]])
  have t: "same_members (snd q) (snd (GroupMemberTargetIds (gx_env A) ?g (snd q)))"
    using scan_same [OF same_inv [OF q], of "groupMemberPrefix ?g"]
    by (cases "kv_Scan K gc_namespace (groupMemberPrefix ?g) (snd q)") (auto simp: GroupMemberTargetIds_def env split: sum.split)
  have "snd (handleGroupChat A pin s) = (case fst (fst q) of Some e \<Rightarrow> snd q | None \<Rightarrow> snd (GroupMemberTargetIds (gx_env A) ?g (snd q)))"
    unfolding handleGroupChat_def c(1) option.case if_not_P [OF c(2)] Let_def split_def
    unfolding r_def [symmetric] s2_def [symmetric] p_def [symmetric] q_def [symmetric] by (simp split: option.split)
  then have "same_members s2 (snd (handleGroupChat A pin s))"
    using same_trans [OF p q] same_trans [OF same_trans [OF p q] t] by (simp split: option.split)
  then show ?thesis using moves_before [OF moves_after [OF r s2]] c by simp
qed

end

context group_store
begin

lemma load_group_same: "inv s \<Longrightarrow> same_members s (snd (no_err (GetGroup (gx_env A) g s)))"
  unfolding snd_no_err GetGroup_def env by (rule load_same)

lemma count_same: "inv s \<Longrightarrow> same_members s (count_members A g f s)"
  using load_group_same [of s g] save_group_same same_trans same_inv
  by (cases "no_err (GetGroup (gx_env A) g s)") (auto simp: count_members_def split: option.split)

lemma leave_same: "inv s \<Longrightarrow> same_members s (leave_count A g s)"
  using load_group_same [of s g] save_group_same same_trans same_inv
  by (cases "no_err (GetGroup (gx_env A) g s)") (auto simp: leave_count_def split: option.split)

lemma join_moves:
  assumes "inv s" and "colon_free (author pin)"
  shows "moves (\<lambda>g u. case gx_Join A (pi_ContentBody pin) of None \<Rightarrow> None | Some c \<Rightarrow> if gjo_GroupId c = '''' then None else says (joins c) (gjo_GroupId c) pin g u) s
    (snd (handleGroupJoin A pin s))"
proof (cases "\<exists>c. gx_Join A (pi_ContentBody pin) = Some c \<and> gjo_GroupId c \<noteq> ''''")
  case False
  then show ?thesis using same_moves [OF same_refl [OF assms(1)]] by (auto simp: handleGroupJoin_def split: option.splits)
next
  case True
  then obtain c where c: "gx_Join A (pi_ContentBody pin) = Some c" "gjo_GroupId c \<noteq> ''''" by blast
  let ?g = "gjo_GroupId c" and ?u = "author pin"
  define r where "r = SaveGroupMetaIdJoinItem (gx_env A) ?g
    (join_item pin (if joins c then ''join'' else ''leave'') (if joins c then 1 else - 1) (gjo_Referrer c) (gjo_K c)) s"
  have r: "same_members s (snd r)" "fst r = None" unfolding r_def using join_item_same [OF assms(1)] by blast+
  note i1 = same_inv [OF r(1)]
  have "moves (says (joins c) ?g pin) (snd r) (snd (handleGroupJoin A pin s))"
  proof (cases "joins c")
    case True
    define s2 where "s2 = snd (SaveGroupMember (gx_env A) ?g ?u (member_of_pin pin False) (snd r))"
    have "snd (handleGroupJoin A pin s) = count_members A ?g (\<lambda>n. wrap64 (n + 1)) s2"
      unfolding handleGroupJoin_def c(1) option.case if_not_P [OF c(2)] Let_def r_def [symmetric]
      using True r(2) member_saved(1) [OF i1] by (simp add: and_then_ok s2_def)
    moreover have mv: "moves (says True ?g pin) (snd r) s2"
      using member_moves [OF i1 assms(2), of "member_of_pin pin False" ?g] by (simp add: s2_def member_of_pin_def)
    ultimately show ?thesis using moves_before [OF mv count_same [OF moves_inv [OF mv]], of ?g] True by simp
  next
    case False
    define m where "m = no_err (GetGroupMember (gx_env A) ?g ?u (snd r))"
    have m2: "same_members (snd r) (snd m)" unfolding m_def snd_no_err by (rule GetGroupMember_eq(2) [OF i1])
    define w where "w = (case fst m of None \<Rightarrow> (None, snd m)
      | Some member \<Rightarrow> SaveGroupMember (gx_env A) ?g ?u (member\<lparr>gb_IsRemoved := True, gb_Timestamp := pi_Timestamp pin\<rparr>) (snd m))"
    have w: "fst w = None" using member_saved(1) [OF same_inv [OF m2]] by (simp add: w_def split: option.split)
    have "snd (handleGroupJoin A pin s) = leave_count A ?g (snd w)"
      unfolding handleGroupJoin_def c(1) option.case if_not_P [OF c(2)] Let_def r_def [symmetric] split_def and_then_ok [OF r(2)]
      unfolding if_not_P [OF False]
      unfolding m_def [symmetric] w_def [symmetric] and_then_ok [OF w] by simp
    moreover have mv: "moves (says False ?g pin) (snd r) (snd w)"
    proof (cases "fst m")
      case None
      then have "mem (snd r) (groupMemberKey ?g ?u) \<in> {None, Some False}" using GetGroupMember_eq(4) [OF i1] by (simp add: m_def)
      then show ?thesis using None same_moves [OF m2] by (auto simp: w_def moves_def says_def split: option.split)
    next
      case (Some member)
      then show ?thesis
        using moves_after [OF m2 member_moves [OF same_inv [OF m2] assms(2), of "member\<lparr>gb_IsRemoved := True, gb_Timestamp := pi_Timestamp pin\<rparr>" ?g]]
        by (simp add: w_def)
    qed
    ultimately show ?thesis using moves_before [OF mv leave_same [OF moves_inv [OF mv]], of ?g] False by simp
  qed
  then show ?thesis using moves_after [OF r(1)] c by simp
qed

end

context group_store
begin

lemma admin_step_same:
  assumes "inv (snd st)"
  shows "moves (\<lambda>g u. None) (snd st) (snd (admin_step A pin g st u))"
proof -
  define r where "r = no_err (getGroupMemberRole (gx_env A) g u (snd st))"
  define role where "role = (role_or_new g u (fst r))\<lparr>ro_IsAdmin := True, ro_Timestamp := pi_Timestamp pin, ro_BlockHeight := pi_GenesisHeight pin\<rparr>"
  define s2 where "s2 = snd (SetGroupRole (gx_env A) g u role (snd r))"
  define m where "m = no_err (GetGroupMember (gx_env A) g u s2)"
  have r: "same_members (snd st) (snd r)" unfolding r_def snd_no_err by (rule get_role_same [OF assms])
  have s2: "same_members (snd st) s2" unfolding s2_def by (rule same_trans [OF r role_same [OF same_inv [OF r]]])
  have m: "same_members (snd st) (snd m)"
    unfolding m_def snd_no_err by (rule same_trans [OF s2 GetGroupMember_eq(2) [OF same_inv [OF s2]]])
  have mv: "moves (\<lambda>g u. None) (snd st) (snd (SaveGroupMember (gx_env A) g u (member\<lparr>gb_IsAdmin := True, gb_Timestamp := pi_Timestamp pin\<rparr>) (snd m)))"
    if "fst m = Some member" for member
  proof -
    have "mem (snd st) (groupMemberKey g u) = Some (\<not> gb_IsRemoved member)"
      using GetGroupMember_eq(3) [OF same_inv [OF s2], of g u member] that same_mem [OF s2] by (simp add: m_def)
    then show ?thesis using member_saved [OF same_inv [OF m]] same_mem [OF m] by (simp add: moves_def)
  qed
  have "fst (SetGroupRole (gx_env A) g u role (snd r)) = None"
    unfolding SetGroupRole_def env by (rule save_ok [OF same_inv [OF r] role_written])
  then have "SetGroupRole (gx_env A) g u role (snd r) = (None, s2)" by (simp add: s2_def prod_eq_iff)
  then have "snd (admin_step A pin g st u) = (case fst m of None \<Rightarrow> snd m
      | Some member \<Rightarrow> snd (SaveGroupMember (gx_env A) g u (member\<lparr>gb_IsAdmin := True, gb_Timestamp := pi_Timestamp pin\<rparr>) (snd m)))"
    by (simp add: admin_step_def split_def flip: r_def role_def m_def)
  then show ?thesis using same_moves [OF m] mv by (simp split: option.split)
qed

lemma block_step_same:
  assumes "inv (snd st)"
  shows "moves (\<lambda>g u. None) (snd st) (snd (block_step A pin g st u))"
proof -
  define r where "r = no_err (getGroupMemberRole (gx_env A) g u (snd st))"
  have r: "same_members (snd st) (snd r)" unfolding r_def snd_no_err by (rule get_role_same [OF assms])
  have "same_members (snd st) (snd (SetGroupRole (gx_env A) g u role (snd r)))" for role
    by (rule same_trans [OF r role_same [OF same_inv [OF r]]])
  moreover have "\<exists>role. snd (block_step A pin g st u) = snd (SetGroupRole (gx_env A) g u role (snd r))"
    by (auto simp: block_step_def Let_def split_def simp flip: r_def split: option.split)
  ultimately show ?thesis using same_moves by metis
qed

lemma moves_none: "moves (\<lambda>g u. None) s1 s2 \<Longrightarrow> moves (\<lambda>g u. None) s2 s3 \<Longrightarrow> moves (\<lambda>g u. None) s1 s3"
  by (simp add: moves_def)

lemma loop_moves:
  assumes "\<And>st x. inv (snd st) \<Longrightarrow> moves (\<lambda>g u. None) (snd st) (snd (f st x))"
  shows "inv (snd st) \<Longrightarrow> moves (\<lambda>g u. None) (snd st) (snd (foldl f st xs))"
proof (induction xs arbitrary: st)
  case (Cons x xs)
  note mv = assms [OF Cons.prems, of x]
  show ?case using moves_none [OF mv Cons.IH [OF moves_inv [OF mv]]] by simp
qed (simp add: same_moves same_refl)

lemma other_moves:
  assumes "inv s"
  shows "moves (\<lambda>g u. None) s (snd (handleCommunityCreate A pin s))" and "moves (\<lambda>g u. None) s (snd (handleGroupChannel A pin s))"
    and "moves (\<lambda>g u. None) s (snd (handleGroupAdmin A pin s))" and "moves (\<lambda>g u. None) s (snd (handleGroupBlock A pin s))"
proof -
  note id = same_moves [OF same_refl [OF assms]]
  have "same_members s (snd (SaveCommunity (gx_env A) c s))" for c
    unfolding SaveCommunity_def env by (rule save_same [OF assms]) (simp add: other_keys)
  from same_moves [OF this] id show "moves (\<lambda>g u. None) s (snd (handleCommunityCreate A pin s))"
    by (auto simp: handleCommunityCreate_def split: option.split prod.split) (metis snd_conv)+
  have "same_members s (snd (SaveGroupChannel (gx_env A) c s))" for c
    by (simp add: SaveGroupChannel_def env save_same [OF assms other_keys(5)] same_refl [OF assms])
  from same_moves [OF this] id show "moves (\<lambda>g u. None) s (snd (handleGroupChannel A pin s))"
    by (auto simp: handleGroupChannel_def and_then_def split: option.split prod.split) (metis snd_conv)+
  show "moves (\<lambda>g u. None) s (snd (handleGroupAdmin A pin s))"
    using loop_moves [where f = "admin_step A pin g" for g, OF admin_step_same, of "(None, s)"] assms id
    by (simp add: handleGroupAdmin_def split_def Let_def split: option.split)
  show "moves (\<lambda>g u. None) s (snd (handleGroupBlock A pin s))"
    using loop_moves [where f = "block_step A pin g" for g, OF block_step_same, of "(None, s)"] assms id
    by (simp add: handleGroupBlock_def split_def Let_def split: option.split)
qed

lemma moves_if: "moves e1 s s1 \<Longrightarrow> moves e2 s s2 \<Longrightarrow> moves (if b then e1 else e2) s (if b then s1 else s2)"
  by simp

lemma dispatch_moves:
  assumes "inv s" and "colon_free (author pin)"
  shows "moves (member_effect A pin) s (snd (gc_dispatchPin A pin s))"
proof -
  note handlers = other_moves [OF assms(1), of pin] create_moves [OF assms] chat_moves [OF assms] join_moves [OF assms] same_moves [OF same_refl [OF assms(1)]]
  show ?thesis unfolding member_effect_eq gc_dispatchPin_def gc_path_def [symmetric] Let_def if_distrib [of snd] snd_conv
    by (intro moves_if handlers)
qed

end

context group_store
begin

lemma HandlePin_state: "fst (snd (GroupChat_HandlePin A pin st)) = snd (gc_dispatchPin A pin (fst st))"
  by (auto simp: GroupChat_HandlePin_def split: prod.split sum.split option.split)

text \<open>A run of pins: \<open>mem\<close> follows what the pins say, one after the other.\<close>

lemma run_mem:
  assumes "\<And>p. p \<in> set pins \<Longrightarrow> colon_free (author p)" and "colon_free u" and "inv (fst st)" and "mem (fst st) (groupMemberKey g u) = Some b"
  shows "inv (fst (foldl (\<lambda>st p. snd (GroupChat_HandlePin A p st)) st pins))
    \<and> mem (fst (foldl (\<lambda>st p. snd (GroupChat_HandlePin A p st)) st pins)) (groupMemberKey g u)
      = Some (foldl (\<lambda>b p. case member_effect A p g u of None \<Rightarrow> b | Some b' \<Rightarrow> b') b pins)"
  using assms
proof (induction pins arbitrary: st b)
  case (Cons p pins)
  let ?st = "snd (GroupChat_HandlePin A p st)"
  have "moves (member_effect A p) (fst st) (fst ?st)"
    unfolding HandlePin_state by (rule dispatch_moves [OF Cons.prems(3)]) (simp add: Cons.prems(1))
  then have "inv (fst ?st)" "mem (fst ?st) (groupMemberKey g u) = Some (case member_effect A p g u of None \<Rightarrow> b | Some b' \<Rightarrow> b')"
    using Cons.prems(2,4) by (auto simp: moves_def split: option.split)
  from Cons.IH [OF _ Cons.prems(2) this] Cons.prems(1) show ?case by simp
qed simp

lemma run_membership:
  assumes "\<And>p. p \<in> set pins \<Longrightarrow> colon_free (author p)" and "colon_free u" and "inv (fst st)" and "fst (IsUserInGroup (gx_env A) g u (fst st)) = Inr b"
  shows "fst (IsUserInGroup (gx_env A) g u (fst (foldl (\<lambda>st p. snd (GroupChat_HandlePin A p st)) st pins)))
    = Inr (foldl (\<lambda>b p. case member_effect A p g u of None \<Rightarrow> b | Some b' \<Rightarrow> b') b pins)"
proof -
  have "mem (fst st) (groupMemberKey g u) = Some b" using IsUserInGroup_eq(2) [OF assms(3)] assms(4) by (simp split: option.splits)
  from run_mem [OF assms(1-3) this] show ?thesis by (simp add: IsUserInGroup_eq(2))
qed

end

subsection \<open>Message pages\<close>

text \<open>The messages of the root channel of a group in a database, in the order of their keys.\<close>

definition root_messages :: "'s gchat_env \<Rightarrow> (bytes \<Rightarrow> bytes option) \<Rightarrow> string \<Rightarrow> ChatMessage list" where
  "root_messages A c groupId = filter (\<lambda>m. cm_ChannelId m = '''') (decoded (cd_Unmarshal (gx_Chat A)) (entries_under c (chatKeyPrefix groupId)))"

context group_store
begin

lemma root_eq:
  assumes "inv s"
  obtains s' where "collectGroupRootMessages A g s = (root_messages A (db s) g, s')" and "inv s'" and "content s' = content s"
proof -
  obtain s' where "kv_Scan K gc_namespace (chatKeyPrefix g) s = (Inr (entries_under (db s) (chatKeyPrefix g)), s')" "inv s'" "content s' = content s"
    by (rule scan_entries [OF assms])
  then show thesis using that
    by (simp add: collectGroupRootMessages_def collectGroupMessages_def collect_chat_def root_messages_def env)
qed

end

sublocale group_store \<subseteq> group_pages: paged_list "\<lambda>cur. GetChatListV2 A g cur sz" cm_Timestamp "root_messages A c g" sz
  "\<lambda>s. inv s \<and> content s (loc gc_namespace) = c" for c g sz
proof
  fix s cur
  assume s: "inv s \<and> content s (loc gc_namespace) = c"
  then obtain s' where "collectGroupRootMessages A g s = (root_messages A (db s) g, s')" "inv s'" "content s' = content s"
    using root_eq [of s g] by auto
  then show "\<exists>s'. GetChatListV2 A g cur sz s = (page_desc cm_Timestamp (root_messages A c g) cur sz, s') \<and> inv s' \<and> content s' (loc gc_namespace) = c"
    using s by (simp add: GetChatListV2_def GetChatListV2BeforeTimestamp_def filterMessagesBeforeTimestamp_def paginateMessagesDesc_def)
qed

context group_store
begin

lemma follow_group:
  assumes "inv s" and "1 \<le> sz" and "length (root_messages A (db s) g) < fuel" and "int (length (root_messages A (db s) g)) < 2 ^ 63"
  shows "follow_pages (\<lambda>cur. GetChatListV2 A g cur sz) fuel '''' s = Some (rev (root_messages A (db s) g))"
  by (rule group_pages.follow_all [OF assms(2,4) _ assms(3)]) (simp add: assms(1))

end

subsection \<open>The module on the memory store\<close>

definition demo_join_pin :: PinInscription where
  "demo_join_pin =
     \<lparr>pi_Id = ''ti0'', pi_Number = 0, pi_Path = ''/protocols/simplegroupjoin'', pi_OriginalPath = [], pi_Operation = ''create'', pi_ContentBody = [],
      pi_ContentSummary = [], pi_ContentType = [], pi_Creator = [], pi_CreateAddress = [], pi_CreateMetaId = ''alice'', pi_MetaId = [],
      pi_GlobalMetaId = [], pi_Address = [], pi_ChainName = ''mvc'', pi_GenesisTransaction = [], pi_GenesisHeight = 1, pi_Timestamp = 5,
      pi_Output = [], pi_IsTransfered = False, pi_OriginalId = [], pi_Host = []\<rparr>"

definition write_only :: "'m codec" where
  "write_only = \<lparr>cd_Marshal = (\<lambda>m. Inr ''''), cd_Unmarshal = (\<lambda>raw. None)\<rparr>"

definition demo_member_codec :: "GroupMember codec" where
  "demo_member_codec =
     \<lparr>cd_Marshal = (\<lambda>m. Inr (if gb_IsRemoved m then ''removed'' else '''')),
      cd_Unmarshal = (\<lambda>raw. Some ((member_of_pin demo_join_pin False)\<lparr>gb_IsRemoved := (raw = ''removed'')\<rparr>))\<rparr>"

definition demo_line :: ChatMessage where
  "demo_line = chat_of demo_join_pin
     \<lparr>gct_GroupId = ''g'', gct_ChannelId = '''', gct_Content = ''hi'', gct_ContentType = ''text/plain'', gct_Encryption = '''', gct_ReplyPin = '''',
      gct_Mention = []\<rparr> None"

definition demo_group :: "(mem_world, string) store_state gchat_env" where
  "demo_group =
     \<lparr>gx_env = \<lparr>ge_U = \<lparr>u_lower = id, u_upper = id, u_fold = (=)\<rparr>, ge_K = PebbleStore_kv mem_pebble,
        ge_C = \<lparr>gk_Group = write_only, gk_Member = demo_member_codec, gk_Role = write_only, gk_Community = write_only, gk_Join = write_only,
          gk_Channel = write_only\<rparr>\<rparr>,
      gx_Chat = \<lparr>cd_Marshal = (\<lambda>m. Inr ''''), cd_Unmarshal = (\<lambda>raw. Some demo_line)\<rparr>, gx_Community = (\<lambda>b. None), gx_Create = (\<lambda>b. None), gx_Channel = (\<lambda>b. None), gx_Admin = (\<lambda>b. None),
      gx_Block = (\<lambda>b. None), gx_Msg = (\<lambda>b. None),
      gx_Join = (\<lambda>b. Some \<lparr>gjo_GroupId = ''g'', gjo_Referrer = '''', gjo_State = JFloat (if b = '''' then 1 else - 1) True '''', gjo_K = ''''\<rparr>)\<rparr>"

interpretation demo_group: group_store "PebbleStore_kv mem_pebble" "filepath_Join ''data''" "\<lambda>st. mem_disk (snd st)"
  "store_inv (\<lambda>h. h) (\<lambda>w h. True) ''data''" demo_group
  by (intro group_store.intro mem.kvr.kv_reliable_axioms group_store_axioms.intro)
    (simp_all add: demo_group_def demo_member_codec_def write_only_def)

definition demo_group_state :: "(mem_world, string) store_state" where
  "demo_group_state = (NewPebbleStore ''data'', \<lambda>p. [])"

lemma demo_group_ok:
  "store_inv (\<lambda>h. h) (\<lambda>w h. True) ''data'' demo_group_state" "mem_disk (snd demo_group_state) p = Map.empty"
  by (simp_all add: store_inv_def NewPebbleStore_def demo_group_state_def mem_disk_def)

lemma demo_join_effect:
  "member_effect demo_group (demo_join_pin\<lparr>pi_ContentBody := b\<rparr>) ''g'' ''alice'' = Some (b = '''')"
proof -
  have "Trim CHR ''/'' ''/protocols/simplegroupjoin'' = ''protocols/simplegroupjoin''" by code_simp
  moreover have "ToLower (ge_U (gx_env demo_group)) ''protocols/simplegroupjoin'' = ''protocols/simplegroupjoin''"
    by (rule ToLower_fixed) (simp add: is_ascii_def ascii_lower_def code_def)
  ultimately show ?thesis
    by (simp add: member_effect_def gc_path_def Let_def says_def author_def joins_def demo_join_pin_def demo_group_def HasSuffix_def HasPrefix_def)
qed

definition demo_group_lines :: "(mem_world, string) store_state" where
  "demo_group_lines = (NewPebbleStore ''data'', \<lambda>p. if p = filepath_Join ''data'' gc_namespace then [(chatKey ''g'' 5 ''t'', '''')] else [])"

lemma demo_lines_ok:
  "store_inv (\<lambda>h. h) (\<lambda>w h. True) ''data'' demo_group_lines"
  "mem_disk (snd demo_group_lines) (filepath_Join ''data'' gc_namespace) = [chatKey ''g'' 5 ''t'' \<mapsto> '''']"
  by (simp_all add: store_inv_def NewPebbleStore_def demo_group_lines_def mem_disk_def)

lemma demo_lines_eq: "[demo_line] = fst (collectGroupRootMessages demo_group ''g'' demo_group_lines)"
proof -
  let ?c = "[chatKey ''g'' 5 ''t'' \<mapsto> '''']"
  have e: "{k. ?c k \<noteq> None \<and> prefix (chatKeyPrefix ''g'') k} = {chatKey ''g'' 5 ''t''}"
    by (auto simp: chatKey_def chatKeyPrefix_def)
  have "entries_under ?c (chatKeyPrefix ''g'') = [(chatKey ''g'' 5 ''t'', '''')]" unfolding entries_under_def e by simp
  then have "root_messages demo_group ?c ''g'' = [demo_line]"
    by (simp add: root_messages_def decoded_def List.map_filter_simps demo_group_def demo_line_def chat_of_def)
  moreover obtain s' where "collectGroupRootMessages demo_group ''g'' demo_group_lines = (root_messages demo_group ?c ''g'', s')"
    by (rule demo_group.root_eq [OF demo_lines_ok(1), of "''g''", unfolded demo_lines_ok(2)])
  ultimately show ?thesis by simp
qed

lemma demo_join_author: "colon_free (author (demo_join_pin\<lparr>pi_ContentBody := b\<rparr>))" "colon_free ''alice''"
  by (simp_all add: author_def demo_join_pin_def colon_free_def)

lemma demo_not_member: "fst (IsUserInGroup (gx_env demo_group) ''g'' ''alice'' demo_group_state) = Inr False"
  using demo_group.IsUserInGroup_eq(2) [OF demo_group_ok(1), of "''g''" "''alice''"] by (simp add: mem_at_def demo_group_ok(2))

subsection \<open>Properties\<close>

text \<open>C19: after any sequence of pins, whether a user is in a group is what the last pin about that user and that group says: creating the
  group, joining it or writing in it makes the author a member, leaving ends the membership, and no other pin (admin, block, channel and
  community pins included) changes it. (Authors and user without colons.)\<close>

lemma group_membership:
  assumes "group_store K loc content ok A" and "ok (fst st)" and "\<And>p. p \<in> set pins \<Longrightarrow> colon_free (author p)" and "colon_free u"
    and "fst (IsUserInGroup (gx_env A) g u (fst st)) = Inr b"
  shows "fst (IsUserInGroup (gx_env A) g u (fst (foldl (\<lambda>st p. snd (GroupChat_HandlePin A p st)) st pins)))
    = Inr (foldl (\<lambda>b p. case member_effect A p g u of None \<Rightarrow> b | Some b' \<Rightarrow> b') b pins)"
  by (rule group_store.run_membership [OF assms(1,3,4,2,5)])

theorem group_membership_witness:
  "fst (IsUserInGroup (gx_env demo_group) ''g'' ''alice'' (fst (foldl (\<lambda>st p. snd (GroupChat_HandlePin demo_group p st)) (demo_group_state, [])
     [demo_join_pin\<lparr>pi_ContentBody := ''''\<rparr>]))) = Inr True
   \<and> fst (IsUserInGroup (gx_env demo_group) ''g'' ''alice'' (fst (foldl (\<lambda>st p. snd (GroupChat_HandlePin demo_group p st)) (demo_group_state, [])
     [demo_join_pin\<lparr>pi_ContentBody := ''''\<rparr>, demo_join_pin\<lparr>pi_ContentBody := ''x''\<rparr>]))) = Inr False"
proof -
  have "fst (IsUserInGroup (gx_env demo_group) ''g'' ''alice'' (fst (foldl (\<lambda>st p. snd (GroupChat_HandlePin demo_group p st)) (demo_group_state, []) pins)))
     = Inr (foldl (\<lambda>b p. case member_effect demo_group p ''g'' ''alice'' of None \<Rightarrow> b | Some b' \<Rightarrow> b') False pins)"
    if "\<And>p. p \<in> set pins \<Longrightarrow> \<exists>b. p = demo_join_pin\<lparr>pi_ContentBody := b\<rparr>" for pins
  proof (rule group_membership [OF demo_group.group_store_axioms])
    show "colon_free (author p)" if "p \<in> set pins" for p using \<open>\<And>p. p \<in> set pins \<Longrightarrow> _\<close> [OF that] demo_join_author(1) by metis
  qed (simp_all add: demo_group_ok(1) demo_join_author(2) demo_not_member)
  from this [of "[demo_join_pin\<lparr>pi_ContentBody := ''''\<rparr>]"]
    this [of "[demo_join_pin\<lparr>pi_ContentBody := ''''\<rparr>, demo_join_pin\<lparr>pi_ContentBody := ''x''\<rparr>]"]
  show ?thesis unfolding foldl_Cons foldl_Nil demo_join_effect by (auto simp del: PinInscription.simps)
qed

text \<open>Asking for the messages of a group page by page, each time with the cursor of the answer before, ends and gives every message of the
  root channel once, newest first.\<close>

lemma group_pages_complete:
  assumes "group_store K loc content ok A" and "ok s" and "1 \<le> sz" and "msgs = fst (collectGroupRootMessages A g s)"
    and "length msgs < fuel" and "int (length msgs) < 2 ^ 63"
  shows "follow_pages (\<lambda>cur. GetChatListV2 A g cur sz) fuel '''' s = Some (rev msgs)"
proof -
  obtain s' where "collectGroupRootMessages A g s = (root_messages A (content s (loc gc_namespace)) g, s')"
    by (rule group_store.root_eq [OF assms(1,2)])
  then have m: "msgs = root_messages A (content s (loc gc_namespace)) g" by (simp add: assms(4))
  show ?thesis unfolding m
    by (rule group_store.follow_group [OF assms(1,2,3) assms(5,6) [unfolded m]])
qed

theorem group_pages_complete_witness:
  "follow_pages (\<lambda>cur. GetChatListV2 demo_group ''g'' cur 1) 2 '''' demo_group_lines = Some [demo_line]"
proof -
  note m = demo_lines_eq
  have "follow_pages (\<lambda>cur. GetChatListV2 demo_group ''g'' cur 1) 2 '''' demo_group_lines = Some (rev [demo_line])"
    by (rule group_pages_complete [OF demo_group.group_store_axioms demo_lines_ok(1) _ m]) simp_all
  then show ?thesis by simp
qed

text \<open>The handlers of admin and block pins do not look at who wrote the pin: the same pin by any other author has the same effect on the
  store and the same event.\<close>

lemma group_roles_unchecked:
  "handleGroupAdmin A (pin\<lparr>pi_MetaId := m, pi_CreateMetaId := c, pi_GlobalMetaId := gm, pi_Address := a, pi_CreateAddress := ca\<rparr>) s = handleGroupAdmin A pin s
   \<and> handleGroupBlock A (pin\<lparr>pi_MetaId := m, pi_CreateMetaId := c, pi_GlobalMetaId := gm, pi_Address := a, pi_CreateAddress := ca\<rparr>) s = handleGroupBlock A pin s"
proof -
  let ?p = "pin\<lparr>pi_MetaId := m, pi_CreateMetaId := c, pi_GlobalMetaId := gm, pi_Address := a, pi_CreateAddress := ca\<rparr>"
  have "pi_Timestamp ?p = pi_Timestamp pin" "pi_GenesisHeight ?p = pi_GenesisHeight pin" by simp_all
  then have "admin_step A ?p = admin_step A pin" "block_step A ?p = block_step A pin"
    unfolding fun_eq_iff admin_step_def block_step_def by metis+
  then show ?thesis unfolding handleGroupAdmin_def handleGroupBlock_def by (simp split: option.split)
qed

end
