(* ===== verification/GroupApi.thy ===== *)
theory GroupApi
  imports GroupChat
begin

text \<open>
  The read side of the group chat module, \<open>internal/aggregator/groupchat\<close>: searches, join lists, the unified list of sessions (\<open>db_chat.go\<close>), the
  answers in the format of older clients (\<open>db_idchat_compat.go\<close>) and the HTTP handlers (\<open>api.go\<close>).

  A JSON object built by a handler is an association list from keys to \<open>dto_value\<close>; a decoded profile is a map to \<open>json_any\<close>. A value of
  type \<open>interface{}\<close> that may hold a profile is \<open>user_any\<close>. The members of the user-info and private chat databases are decoded by parameters.
  The answer \<open>None\<close> of a handler is a panic.
\<close>

subsection \<open>Data\<close>

type_synonym profile = "(string, json_any) gomap"

datatype user_any = UNil | UMap profile | UOther string

datatype dto_value = DStr string | DInt int | DMsg ChatMessage | DAny json_any

type_synonym dto = "(string, dto_value) gomap"

record latestPrivateMessage =
  lp_FromGlobalMetaId :: string
  lp_From :: string
  lp_FromAddress :: string
  lp_FromUserInfo :: user_any
  lp_ToGlobalMetaId :: string
  lp_To :: string
  lp_ToAddress :: string
  lp_ToUserInfo :: user_any
  lp_TxId :: string
  lp_PinId :: string
  lp_Protocol :: string
  lp_Content :: string
  lp_ContentType :: string
  lp_Encryption :: string
  lp_Timestamp :: int
  lp_Chain :: string
  lp_BlockHeight :: int
  lp_Index :: int

datatype last_message = NoLast | GroupLast ChatMessage | PrivateLast latestPrivateMessage

record UserLatestChatInfo =
  ul_Type :: string
  ul_GlobalMetaId :: string
  ul_GroupId :: string
  ul_MetaId :: string
  ul_Address :: string
  ul_Timestamp :: int
  ul_ChatType :: string
  ul_Content :: string
  ul_CreateMetaId :: string
  ul_CreateGlobalMetaId :: string
  ul_CreateAddress :: string
  ul_LastMessagePinId :: string
  ul_BlockHeight :: int
  ul_Chain :: string
  ul_Index :: int
  ul_UserInfo :: user_any
  ul_RoomName :: string
  ul_RoomJoinType :: string
  ul_RoomAvatarUrl :: string
  ul_UserCount :: int
  ul_Path :: string
  ul_LastMessage :: last_message

record ChatListByIndexResult =
  ci_Total :: int
  ci_LastIndex :: int
  ci_NextTimestamp :: int
  ci_List :: "ChatMessage list"

record 's gapi_env =
  ga_chat :: "'s gchat_env"
  ga_Profile :: "bytes \<Rightarrow> profile option"
  ga_Private :: "bytes \<Rightarrow> latestPrivateMessage option"

abbreviation ga_K :: "'s gapi_env \<Rightarrow> 's kv_api" where "ga_K B \<equiv> ge_K (gx_env (ga_chat B))"

abbreviation ga_U :: "'s gapi_env \<Rightarrow> unicode" where "ga_U B \<equiv> ge_U (gx_env (ga_chat B))"

subsection \<open>Substring search and keys\<close>

text \<open>The inner loop compares byte by byte; the outer loop stops when the rest is shorter than the pattern.\<close>

fun match_at :: "string \<Rightarrow> string \<Rightarrow> bool" where
  "match_at s [] = True"
| "match_at (c1 # s) (c2 # sub) = (if ascii_lower c1 \<noteq> ascii_lower c2 then False else match_at s sub)"
| "match_at [] (c2 # sub) = False"

fun searchSubstring :: "string \<Rightarrow> string \<Rightarrow> bool" where
  "searchSubstring [] sub = (sub = [])"
| "searchSubstring (c # s) sub =
     (if length (c # s) < length sub then False else if match_at (c # s) sub then True else searchSubstring s sub)"

definition contains :: "string \<Rightarrow> string \<Rightarrow> bool" where
  "contains s sub \<longleftrightarrow> length sub \<le> length s \<and> searchSubstring s sub"

text \<open>For a delimiter that is not empty; \<open>cur\<close> is \<open>s[idx:i]\<close>.\<close>

fun split_loop :: "string \<Rightarrow> string \<Rightarrow> string \<Rightarrow> string list" where
  "split_loop d cur [] = [cur]"
| "split_loop d cur (c # s) =
     (if d \<noteq> [] \<and> prefix d (c # s) then cur # split_loop d [] (drop (length d - 1) s) else split_loop d (cur @ [c]) s)"

definition splitKey :: "string \<Rightarrow> string \<Rightarrow> string list" where
  "splitKey s delimiter = split_loop delimiter [] s"

text \<open>The scan callbacks that stop collecting at a limit.\<close>

fun collect_upto :: "int \<Rightarrow> ('a \<Rightarrow> 'b option) \<Rightarrow> 'a list \<Rightarrow> 'b list \<Rightarrow> 'b list" where
  "collect_upto sz f [] acc = acc"
| "collect_upto sz f (x # xs) acc =
     (if sz \<le> int (length acc) then collect_upto sz f xs acc
      else case f x of None \<Rightarrow> collect_upto sz f xs acc | Some y \<Rightarrow> collect_upto sz f xs (acc @ [y]))"

subsection \<open>Searches\<close>

definition json_string :: "profile \<Rightarrow> string \<Rightarrow> string" where
  "json_string p k = (case gm_get p k of Some (JString t) \<Rightarrow> t | _ \<Rightarrow> '''')"

definition user_found :: "'s gapi_env \<Rightarrow> string \<Rightarrow> bytes \<times> bytes \<Rightarrow> profile option" where
  "user_found B query kv =
     (case ga_Profile B (snd kv) of
        None \<Rightarrow> None
      | Some p \<Rightarrow>
          (let metaId = json_string p ''metaid''; name = json_string p ''name''
           in if metaId = '''' \<and> name = '''' then None else if contains metaId query \<or> contains name query then Some p else None))"

definition SearchUsers :: "'s gapi_env \<Rightarrow> string \<Rightarrow> int \<Rightarrow> 's \<Rightarrow> profile list \<times> 's" where
  "SearchUsers B query sz s =
     (case kv_Scan (ga_K B) ''userinfo'' ''profile:'' s of
        (Inl e, s1) \<Rightarrow> ([], s1)
      | (Inr kvs, s1) \<Rightarrow> (collect_upto sz (user_found B query) kvs [], s1))"

definition group_item :: "Group \<Rightarrow> dto" where
  "group_item grp =
     [(''type'', DStr ''group''), (''groupId'', DStr (gr_GroupId grp)), (''groupName'', DStr (gr_GroupName grp)), (''roomName'', DStr (gr_GroupName grp)),
      (''avatar'', DStr (gr_Avatar grp)), (''roomAvatarUrl'', DStr (gr_Avatar grp)), (''userCount'', DInt (gr_MemberCount grp)),
      (''joinType'', DStr (gr_JoinType grp)), (''roomJoinType'', DStr (gr_JoinType grp))]"

definition group_found :: "'s gapi_env \<Rightarrow> string \<Rightarrow> bytes \<times> bytes \<Rightarrow> dto option" where
  "group_found B query kv =
     (case cd_Unmarshal (gk_Group (ge_C (gx_env (ga_chat B)))) (snd kv) of
        None \<Rightarrow> None
      | Some grp \<Rightarrow> if contains (gr_GroupId grp) query \<or> contains (gr_GroupName grp) query then Some (group_item grp) else None)"

definition user_item :: "profile \<Rightarrow> dto" where
  "user_item p = gm_set (map (\<lambda>(k, v). (k, DAny v)) p) ''type'' (DStr ''user'')"

definition SearchGroupsAndUsers :: "'s gapi_env \<Rightarrow> string \<Rightarrow> int \<Rightarrow> 's \<Rightarrow> dto list \<times> 's" where
  "SearchGroupsAndUsers B query sz0 s =
     (let sz = (if sz0 < 1 then 20 else sz0);
          (groups, s1) = (case kv_Scan (ga_K B) gc_namespace (groupKey '''') s of
              (Inl e, s1) \<Rightarrow> ([], s1)
            | (Inr kvs, s1) \<Rightarrow> (collect_upto sz (group_found B query) kvs [], s1))
      in if int (length groups) < sz
         then (let (users, s2) = SearchUsers B query (sz - int (length groups)) s1
               in (groups @ take (nat (sz - int (length groups))) (map user_item users), s2))
         else (groups, s1))"

subsection \<open>Join lists and lists by index\<close>

definition join_row :: "GroupMetaIdJoinItem \<Rightarrow> dto" where
  "join_row item =
     [(''joinPinId'', DStr (ji_JoinPinId item)), (''joinType'', DStr (ji_JoinType item)), (''joinTimestamp'', DInt (ji_JoinTimestamp item)),
      (''groupState'', DInt (ji_GroupState item)), (''address'', DStr (ji_Address item)), (''referrer'', DStr (ji_Referrer item)), (''k'', DStr (ji_K item)),
      (''blockHeight'', DInt (ji_BlockHeight item)), (''chain'', DStr (ji_Chain item)), (''byGlobalMetaId'', DStr (ji_ByGlobalMetaId item)),
      (''byMetaId'', DStr (ji_ByMetaId item)), (''byAddress'', DStr (ji_ByAddress item))]"

definition GetGroupMetaIdJoinList :: "'s gapi_env \<Rightarrow> string \<Rightarrow> string \<Rightarrow> 's \<Rightarrow> (string + dto list) \<times> 's" where
  "GetGroupMetaIdJoinList B groupId metaId s =
     (case collectGroupMetaIdJoinItems (gx_env (ga_chat B)) groupId metaId s of
        (Inl e, s1) \<Rightarrow> (Inl e, s1)
      | (Inr items, s1) \<Rightarrow> (Inr (map join_row items), s1))"

definition GetChatListByIndexCompat :: "'s gapi_env \<Rightarrow> string \<Rightarrow> int \<Rightarrow> int \<Rightarrow> 's \<Rightarrow> ChatListByIndexResult \<times> 's" where
  "GetChatListByIndexCompat B groupId startIndex sz s =
     (let (all, s1) = collectGroupRootMessages (ga_chat B) groupId s; (messages, lastIndex) = sliceMessagesByIndex all startIndex sz
      in (\<lparr>ci_Total = int (length messages), ci_LastIndex = lastIndex, ci_NextTimestamp = lastIndex, ci_List = messages\<rparr>, s1))"

subsection \<open>Profiles of private chat partners\<close>

definition normalizePrivateUserInfo :: "user_any \<Rightarrow> user_any" where
  "normalizePrivateUserInfo info =
     (case info of
        UMap m0 \<Rightarrow>
          (let m1 = (if gm_get m0 ''chatPublicKey'' = None
                     then (case gm_get m0 ''chatpubkey'' of None \<Rightarrow> m0 | Some v \<Rightarrow> gm_set m0 ''chatPublicKey'' v) else m0);
               m2 = (if gm_get m1 ''chatPublicKeyId'' = None
                     then (case gm_get m1 ''chatpubkeyId'' of None \<Rightarrow> m1 | Some v \<Rightarrow> gm_set m1 ''chatPublicKeyId'' v) else m1)
           in UMap m2)
      | _ \<Rightarrow> info)"

definition privateUserInfoHasChatPublicKey :: "user_any \<Rightarrow> bool" where
  "privateUserInfoHasChatPublicKey info =
     (case info of
        UMap m \<Rightarrow> TrimSpace (json_string m ''chatPublicKey'') \<noteq> '''' \<or> TrimSpace (json_string m ''chatpubkey'') \<noteq> ''''
      | _ \<Rightarrow> False)"

definition profileMatchesAnyAlias :: "unicode \<Rightarrow> profile \<Rightarrow> string list \<Rightarrow> bool" where
  "profileMatchesAnyAlias U p aliases =
     list_ex (\<lambda>key. list_ex (identityEqual U (json_string p key)) aliases) [''metaid'', ''metaId'', ''globalMetaId'', ''address'']"

text \<open>The first loop: the profile stored under one of the aliases.\<close>

fun stored_profile :: "'s gapi_env \<Rightarrow> string list \<Rightarrow> 's \<Rightarrow> profile option \<times> 's" where
  "stored_profile B [] s = (None, s)"
| "stored_profile B (alias # aliases) s =
     (case kv_Get (ga_K B) ''userinfo'' (''profile:'' @ alias) s of
        (Inl e, s1) \<Rightarrow> stored_profile B aliases s1
      | (Inr raw, s1) \<Rightarrow> (case ga_Profile B raw of None \<Rightarrow> stored_profile B aliases s1 | Some p \<Rightarrow> (Some p, s1)))"

definition lookupPrivateUserInfo :: "'s gapi_env \<Rightarrow> string list \<Rightarrow> 's \<Rightarrow> user_any option \<times> 's" where
  "lookupPrivateUserInfo B aliases s =
     (let wanted = fst (foldl (\<lambda>st i. add_target (ga_U B) i st) ([], []) aliases)
      in if wanted = [] then (None, s)
         else case stored_profile B wanted s of
           (Some p, s1) \<Rightarrow> (Some (normalizePrivateUserInfo (UMap p)), s1)
         | (None, s1) \<Rightarrow>
             (case kv_Scan (ga_K B) ''userinfo'' ''profile:'' s1 of
                (Inl e, s2) \<Rightarrow> (None, s2)
              | (Inr kvs, s2) \<Rightarrow>
                  (map_option (\<lambda>p. normalizePrivateUserInfo (UMap p))
                     (find (\<lambda>p. profileMatchesAnyAlias (ga_U B) p wanted) (decoded (ga_Profile B) kvs)), s2)))"

subsection \<open>Sessions\<close>

definition from_me :: "string \<Rightarrow> latestPrivateMessage \<Rightarrow> bool" where
  "from_me metaId msg \<longleftrightarrow> lp_From msg = metaId \<or> lp_FromGlobalMetaId msg = metaId \<or> lp_FromAddress msg = metaId"

definition to_me :: "string \<Rightarrow> latestPrivateMessage \<Rightarrow> bool" where
  "to_me metaId msg \<longleftrightarrow> lp_To msg = metaId \<or> lp_ToGlobalMetaId msg = metaId \<or> lp_ToAddress msg = metaId"

definition session_peer :: "string \<Rightarrow> latestPrivateMessage \<Rightarrow> string" where
  "session_peer metaId msg = (if from_me metaId msg then lp_To msg else if to_me metaId msg then lp_From msg else '''')"

definition session_step ::
    "string \<Rightarrow> (string, latestPrivateMessage) gomap \<Rightarrow> latestPrivateMessage \<Rightarrow> (string, latestPrivateMessage) gomap" where
  "session_step metaId latest msg =
     (let peer = session_peer metaId msg
      in if peer = '''' then latest
         else case gm_get latest peer of
           None \<Rightarrow> gm_set latest peer msg
         | Some existing \<Rightarrow> if lp_Timestamp existing < lp_Timestamp msg then gm_set latest peer msg else latest)"

text \<open>Normalizing the user info of the partner writes into the map that the message holds, so the message in the answer shows it too.\<close>

definition private_session :: "'s gapi_env \<Rightarrow> string \<Rightarrow> string \<times> latestPrivateMessage \<Rightarrow> 's \<Rightarrow> UserLatestChatInfo \<times> 's" where
  "private_session B metaId e s =
     (let (peer, msg) = e; mine = from_me metaId msg;
          peerGlobalMetaId = (if mine then lp_ToGlobalMetaId msg else lp_FromGlobalMetaId msg);
          peerAddress = (if mine then lp_ToAddress msg else lp_FromAddress msg);
          info0 = normalizePrivateUserInfo (if mine then lp_ToUserInfo msg else lp_FromUserInfo msg);
          shown = (if mine then msg\<lparr>lp_ToUserInfo := info0\<rparr> else msg\<lparr>lp_FromUserInfo := info0\<rparr>);
          (info, s1) = (if privateUserInfoHasChatPublicKey info0 then (info0, s)
                        else (case lookupPrivateUserInfo B [peer, peerGlobalMetaId, peerAddress] s of
                                (None, s1) \<Rightarrow> (info0, s1) | (Some hydrated, s1) \<Rightarrow> (hydrated, s1)))
      in (\<lparr>ul_Type = ''2'', ul_GlobalMetaId = peerGlobalMetaId, ul_GroupId = '''', ul_MetaId = peer, ul_Address = peerAddress,
           ul_Timestamp = lp_Timestamp msg, ul_ChatType = ''msg'', ul_Content = lp_Content msg, ul_CreateMetaId = '''', ul_CreateGlobalMetaId = '''',
           ul_CreateAddress = '''', ul_LastMessagePinId = lp_PinId msg, ul_BlockHeight = lp_BlockHeight msg, ul_Chain = lp_Chain msg,
           ul_Index = lp_Index msg, ul_UserInfo = info, ul_RoomName = '''', ul_RoomJoinType = '''', ul_RoomAvatarUrl = '''', ul_UserCount = 0,
           ul_Path = lp_Protocol msg, ul_LastMessage = PrivateLast shown\<rparr>, s1))"

fun private_sessions :: "'s gapi_env \<Rightarrow> string \<Rightarrow> (string, latestPrivateMessage) gomap \<Rightarrow> 's \<Rightarrow> UserLatestChatInfo list \<times> 's" where
  "private_sessions B metaId [] s = ([], s)"
| "private_sessions B metaId (e # es) s =
     (let (info, s1) = private_session B metaId e s; (infos, s2) = private_sessions B metaId es s1 in (info # infos, s2))"

definition getPrivateLatestChatInfoList :: "'s gapi_env \<Rightarrow> string \<Rightarrow> 's \<Rightarrow> UserLatestChatInfo list \<times> 's" where
  "getPrivateLatestChatInfoList B metaId s =
     (case kv_Scan (ga_K B) ''privatechat'' ''pchat:'' s of
        (Inl e, s1) \<Rightarrow> ([], s1)
      | (Inr kvs, s1) \<Rightarrow> private_sessions B metaId (foldl (session_step metaId) [] (decoded (ga_Private B) kvs)) s1)"

definition group_session_info :: "string \<Rightarrow> Group \<Rightarrow> ChatMessage option \<Rightarrow> UserLatestChatInfo" where
  "group_session_info groupId grp latest =
     (let info = \<lparr>ul_Type = ''1'', ul_GlobalMetaId = '''', ul_GroupId = groupId, ul_MetaId = '''', ul_Address = '''', ul_Timestamp = gr_CreatedAt grp,
           ul_ChatType = '''', ul_Content = '''', ul_CreateMetaId = gr_CreatorMetaId grp, ul_CreateGlobalMetaId = gr_CreatorGlobalMetaId grp,
           ul_CreateAddress = gr_Creator grp, ul_LastMessagePinId = '''', ul_BlockHeight = gr_BlockHeight grp, ul_Chain = gr_Chain grp, ul_Index = 0,
           ul_UserInfo = UNil, ul_RoomName = gr_GroupName grp, ul_RoomJoinType = gr_JoinType grp, ul_RoomAvatarUrl = gr_Avatar grp,
           ul_UserCount = gr_MemberCount grp, ul_Path = '''', ul_LastMessage = NoLast\<rparr>
      in case latest of
           None \<Rightarrow> info
         | Some m \<Rightarrow> info\<lparr>ul_Timestamp := cm_Timestamp m, ul_MetaId := cm_MetaId m, ul_GlobalMetaId := cm_GlobalMetaId m, ul_Address := cm_Address m,
             ul_ChatType := cm_ChatType m, ul_Content := cm_Content m, ul_LastMessagePinId := cm_PinId m, ul_Chain := cm_Chain m,
             ul_BlockHeight := cm_BlockHeight m, ul_Index := cm_Index m, ul_Path := cm_Protocol m, ul_LastMessage := GroupLast m\<rparr>)"

text \<open>The group a member entry is about: the key must have exactly two parts.\<close>

definition session_group :: "'s gapi_env \<Rightarrow> string \<Rightarrow> bytes \<times> bytes \<Rightarrow> string option" where
  "session_group B metaId kv =
     (case splitKey (drop (length ''member:'') (fst kv)) '':'' of
        [groupId, rest] \<Rightarrow>
          (case cd_Unmarshal (gk_Member (ge_C (gx_env (ga_chat B)))) (snd kv) of
             None \<Rightarrow> None
           | Some m \<Rightarrow> if groupMemberMatchesIdentity (ga_U B) metaId m \<and> \<not> gb_IsRemoved m then Some groupId else None)
      | _ \<Rightarrow> None)"

fun group_sessions :: "'s gapi_env \<Rightarrow> string list \<Rightarrow> 's \<Rightarrow> UserLatestChatInfo list \<times> 's" where
  "group_sessions B [] s = ([], s)"
| "group_sessions B (groupId # ids) s =
     (case GetGroup (gx_env (ga_chat B)) groupId s of
        (Inr (Some grp), s1) \<Rightarrow>
          (let (messages, s2) = collectGroupRootMessages (ga_chat B) groupId s1; (infos, s3) = group_sessions B ids s2
           in (group_session_info groupId grp (latestMessageByTimestamp messages None) # infos, s3))
      | (_, s1) \<Rightarrow> group_sessions B ids s1)"

definition GetUserLatestChatInfoList :: "'s gapi_env \<Rightarrow> string \<Rightarrow> 's \<Rightarrow> UserLatestChatInfo list \<times> 's" where
  "GetUserLatestChatInfoList B metaId s =
     (let (groups, s2) = (case kv_Scan (ga_K B) gc_namespace ''member:'' s of
              (Inl e, s1) \<Rightarrow> ([], s1)
            | (Inr kvs, s1) \<Rightarrow> group_sessions B (List.map_filter (session_group B metaId) kvs) s1);
          (privates, s3) = getPrivateLatestChatInfoList B metaId s2
      in (sort_key (\<lambda>i. - ul_Timestamp i) (groups @ privates), s3))"

subsection \<open>Groups in the format of older clients\<close>

definition room_newest :: "ChatMessage \<Rightarrow> dto" where
  "room_newest latest =
     [(''roomNewestTxId'', DStr (cm_TxId latest)), (''roomNewestPinId'', DStr (cm_PinId latest)), (''roomNewestProtocol'', DStr (cm_Protocol latest)),
      (''roomNewestContent'', DStr (cm_Content latest)), (''roomNewestTimestamp'', DInt (cm_Timestamp latest)),
      (''roomNewestMetaId'', DStr (cm_MetaId latest)), (''roomNewestGlobalMetaId'', DStr (cm_GlobalMetaId latest)), (''index'', DInt (cm_Index latest)),
      (''lastMessage'', DMsg latest)]"

definition groupCompatDTO :: "'s gapi_env \<Rightarrow> Group \<Rightarrow> 's \<Rightarrow> dto \<times> 's" where
  "groupCompatDTO B grp s =
     (let txId0 = gr_TxId grp;
          txId1 = (if txId0 = '''' \<and> gr_PinId grp \<noteq> '''' then gc_extractTxId (gr_PinId grp) else txId0);
          txId = (if txId1 = '''' then gc_extractTxId (gr_GroupId grp) else txId1);
          pinId = (if gr_PinId grp = '''' then gr_GroupId grp else gr_PinId grp);
          roomJoinType = (if gr_JoinType grp = '''' then gr_GroupType grp else gr_JoinType grp);
          (messages, s1) = collectGroupRootMessages (ga_chat B) (gr_GroupId grp) s
      in ([(''communityId'', DStr (gr_CommunityId grp)), (''groupId'', DStr (gr_GroupId grp)), (''groupName'', DStr (gr_GroupName grp)),
           (''groupNote'', DStr (gr_GroupNote grp)), (''groupType'', DStr (gr_GroupType grp)), (''status'', DStr (gr_Status grp)),
           (''avatar'', DStr (gr_Avatar grp)), (''creator'', DStr (gr_Creator grp)), (''creatorMetaId'', DStr (gr_CreatorMetaId grp)),
           (''creatorGlobalMetaId'', DStr (gr_CreatorGlobalMetaId grp)), (''memberCount'', DInt (gr_MemberCount grp)),
           (''joinType'', DStr (gr_JoinType grp)), (''createdAt'', DInt (gr_CreatedAt grp)), (''chain'', DStr (gr_Chain grp)),
           (''blockHeight'', DInt (gr_BlockHeight grp)), (''txId'', DStr txId), (''pinId'', DStr pinId), (''roomName'', DStr (gr_GroupName grp)),
           (''roomNote'', DStr (gr_GroupNote grp)), (''roomIcon'', DStr (gr_Avatar grp)), (''roomAvatarUrl'', DStr (gr_Avatar grp)),
           (''roomType'', DStr (gr_GroupType grp)), (''roomStatus'', DStr (gr_Status grp)), (''roomJoinType'', DStr roomJoinType),
           (''createUserMetaId'', DStr (gr_CreatorMetaId grp)), (''createUserGlobalMetaId'', DStr (gr_CreatorGlobalMetaId grp)),
           (''createUserAddress'', DStr (gr_Creator grp)), (''userCount'', DInt (gr_MemberCount grp)), (''timestamp'', DInt (gr_CreatedAt grp))]
          @ (case latestMessageByTimestamp messages None of None \<Rightarrow> [] | Some latest \<Rightarrow> room_newest latest), s1))"

fun groupCompatDTOs :: "'s gapi_env \<Rightarrow> Group list \<Rightarrow> 's \<Rightarrow> dto list \<times> 's" where
  "groupCompatDTOs B [] s = ([], s)"
| "groupCompatDTOs B (grp # groups) s = (let (d, s1) = groupCompatDTO B grp s; (ds, s2) = groupCompatDTOs B groups s1 in (d # ds, s2))"

subsection \<open>HTTP handlers\<close>

text \<open>\<open>strconv.ParseInt\<close> with the error ignored, and the number when it is within bounds.\<close>

definition limited :: "int \<Rightarrow> string \<Rightarrow> string option \<Rightarrow> int" where
  "limited d dstr q = (let sz = ParseInt_value (DefaultQuery dstr q) in if sz < 1 \<or> 100 < sz then d else sz)"

definition handleCommunityList :: "'s gapi_env \<Rightarrow> string option \<Rightarrow> string option \<Rightarrow> 's \<Rightarrow> Community list api_answer \<times> 's" where
  "handleCommunityList B pageQ pageSizeQ s =
     (let page0 = ParseInt_value (DefaultQuery ''1'' pageQ); page = (if page0 < 1 then 1 else page0)
      in case ListCommunities (gx_env (ga_chat B)) page (limited 20 ''20'' pageSizeQ) s of
           (Inl e, s1) \<Rightarrow> (RespErr 1 ''failed to list communities'', s1)
         | (Inr (communities, cnt), s1) \<Rightarrow> (RespSuccess communities, s1))"

definition handleCommunityDetail :: "'s gapi_env \<Rightarrow> string \<Rightarrow> 's \<Rightarrow> Community api_answer \<times> 's" where
  "handleCommunityDetail B communityId s =
     (if communityId = '''' then (RespErr 1 ''communityId is required'', s)
      else case GetCommunity (gx_env (ga_chat B)) communityId s of
        (Inl e, s1) \<Rightarrow> (RespErr 1 ''failed to get community'', s1)
      | (Inr None, s1) \<Rightarrow> (RespErr 1 ''community not found'', s1)
      | (Inr (Some community), s1) \<Rightarrow> (RespSuccess community, s1))"

definition handleGroupInfo :: "'s gapi_env \<Rightarrow> string option \<Rightarrow> 's \<Rightarrow> dto api_answer \<times> 's" where
  "handleGroupInfo B groupIdQ s =
     (let groupId = DefaultQuery '''' groupIdQ
      in if groupId = '''' then (RespErr 1 ''groupId is required'', s)
         else case GetGroup (gx_env (ga_chat B)) groupId s of
           (Inl e, s1) \<Rightarrow> (RespErr 1 ''failed to get group'', s1)
         | (Inr None, s1) \<Rightarrow> (RespErr 1 ''group not found'', s1)
         | (Inr (Some grp), s1) \<Rightarrow> (let (d, s2) = groupCompatDTO B grp s1 in (RespSuccess d, s2)))"

definition handleGroupPerson :: "'s gapi_env \<Rightarrow> string option \<Rightarrow> string option \<Rightarrow> 's \<Rightarrow> bool api_answer \<times> 's" where
  "handleGroupPerson B metaIdQ groupIdQ s =
     (let metaId = DefaultQuery '''' metaIdQ; groupId = DefaultQuery '''' groupIdQ
      in if metaId = '''' \<or> groupId = '''' then (RespErr 1 ''metaId and groupId are required'', s)
         else case IsUserInGroup (gx_env (ga_chat B)) groupId metaId s of
           (Inl e, s1) \<Rightarrow> (RespErr 1 ''failed to check group membership'', s1)
         | (Inr isInGroup, s1) \<Rightarrow> (RespSuccess isInGroup, s1))"

record role_flags =
  rf_isCreator :: bool
  rf_isAdmin :: bool
  rf_isBlocked :: bool
  rf_isWhitelist :: bool
  rf_isRemoved :: bool

definition handleGroupUserRole :: "'s gapi_env \<Rightarrow> string option \<Rightarrow> string option \<Rightarrow> 's \<Rightarrow> role_flags api_answer \<times> 's" where
  "handleGroupUserRole B groupIdQ metaIdQ s =
     (let groupId = DefaultQuery '''' groupIdQ; metaId = DefaultQuery '''' metaIdQ
      in if groupId = '''' \<or> metaId = '''' then (RespErr 1 ''groupId and metaId are required'', s)
         else case GetGroupUserRole (gx_env (ga_chat B)) groupId metaId s of
           (Inl e, s1) \<Rightarrow> (RespErr 1 ''failed to get user role'', s1)
         | (Inr None, s1) \<Rightarrow>
             (RespSuccess \<lparr>rf_isCreator = False, rf_isAdmin = False, rf_isBlocked = False, rf_isWhitelist = False, rf_isRemoved = False\<rparr>, s1)
         | (Inr (Some role), s1) \<Rightarrow>
             (RespSuccess \<lparr>rf_isCreator = ro_IsCreator role, rf_isAdmin = ro_IsAdmin role, rf_isBlocked = ro_IsBlocked role,
                rf_isWhitelist = ro_IsWhitelist role, rf_isRemoved = ro_IsRemoved role\<rparr>, s1))"

record member_answer =
  ma_admins :: "GroupMember list"
  ma_blockList :: "GroupMember list"
  ma_creator :: string
  ma_list :: "GroupMember list"
  ma_total :: nat
  ma_whiteList :: "GroupMember list"

text \<open>The cursor of the list is not part of the answer.\<close>

definition handleGroupMemberList :: "'s gapi_env \<Rightarrow> string option \<Rightarrow> string option \<Rightarrow> string option \<Rightarrow> 's \<Rightarrow> member_answer api_answer \<times> 's" where
  "handleGroupMemberList B groupIdQ cursorQ sizeQ s =
     (let groupId = DefaultQuery '''' groupIdQ
      in if groupId = '''' then (RespErr 1 ''groupId is required'', s)
         else case GetGroupMemberList (gx_env (ga_chat B)) groupId (DefaultQuery '''' cursorQ) (chat_size sizeQ) s of
           (Inl e, s1) \<Rightarrow> (RespErr 1 ''failed to get member list'', s1)
         | (Inr (members, nextCursor), s1) \<Rightarrow>
             (let (grp, s2) = no_err (GetGroup (gx_env (ga_chat B)) groupId s1)
              in (RespSuccess \<lparr>ma_admins = filter gb_IsAdmin members, ma_blockList = filter gb_IsBlocked members,
                    ma_creator = (case grp of None \<Rightarrow> '''' | Some g \<Rightarrow> gr_CreatorMetaId g), ma_list = members, ma_total = length members,
                    ma_whiteList = filter gb_IsWhitelist members\<rparr>, s2)))"

definition handleSearchGroupMembers :: "'s gapi_env \<Rightarrow> string option \<Rightarrow> string option \<Rightarrow> string option \<Rightarrow> 's \<Rightarrow> (nat \<times> GroupMember list) api_answer \<times> 's" where
  "handleSearchGroupMembers B groupIdQ queryQ sizeQ s =
     (let groupId = DefaultQuery '''' groupIdQ; query = DefaultQuery '''' queryQ
      in if groupId = '''' \<or> query = '''' then (RespErr 1 ''groupId and query are required'', s)
         else case SearchGroupMembers (gx_env (ga_chat B)) groupId query (chat_size sizeQ) s of
           (Inl e, s1) \<Rightarrow> (RespErr 1 ''failed to search members'', s1)
         | (Inr members, s1) \<Rightarrow> (RespSuccess (length members, members), s1))"

definition handleGroupList :: "'s gapi_env \<Rightarrow> string option \<Rightarrow> string option \<Rightarrow> string option \<Rightarrow> 's \<Rightarrow> (dto list \<times> string \<times> int) api_answer option \<times> 's" where
  "handleGroupList B metaIdQ cursorQ sizeQ s =
     (case GetGroupList (gx_env (ga_chat B)) (DefaultQuery '''' metaIdQ) (DefaultQuery '''' cursorQ) (chat_size sizeQ) s of
        (None, s1) \<Rightarrow> (None, s1)
      | (Some (Inl e), s1) \<Rightarrow> (Some (RespErr 1 ''failed to get group list''), s1)
      | (Some (Inr (groups, nextCursor, cnt)), s1) \<Rightarrow>
          (let (ds, s2) = groupCompatDTOs B groups s1 in (Some (RespSuccess (ds, nextCursor, cnt)), s2)))"

definition handleGroupJoinControlList :: "'s gapi_env \<Rightarrow> string option \<Rightarrow> 's \<Rightarrow> GroupJoinControlList api_answer \<times> 's" where
  "handleGroupJoinControlList B groupIdQ s =
     (let groupId = DefaultQuery '''' groupIdQ
      in if groupId = '''' then (RespErr 1 ''groupId is required'', s)
         else (let (control, s1) = GetGroupJoinControlList (gx_env (ga_chat B)) groupId s in (RespSuccess control, s1)))"

definition handleGroupChatListV2 ::
    "'s gapi_env \<Rightarrow> string option \<Rightarrow> string option \<Rightarrow> string option \<Rightarrow> string option \<Rightarrow> 's \<Rightarrow> ChatMessage chat_list api_answer \<times> 's" where
  "handleGroupChatListV2 B groupIdQ cursorQ timestampQ sizeQ s =
     (let groupId = DefaultQuery '''' groupIdQ
      in if groupId = '''' then (RespErr 1 ''groupId is required'', s)
         else (let (r, s1) = GetChatListV2BeforeTimestamp (ga_chat B) groupId (DefaultQuery '''' cursorQ) (chat_size sizeQ)
                               (ParseInt_value (DefaultQuery ''0'' timestampQ)) s in (RespSuccess r, s1)))"

definition handleGroupChatList ::
    "'s gapi_env \<Rightarrow> string option \<Rightarrow> string option \<Rightarrow> string option \<Rightarrow> string option \<Rightarrow> 's \<Rightarrow> ChatMessage chat_list api_answer \<times> 's" where
  "handleGroupChatList B groupIdQ cursorQ timestampQ sizeQ s = handleGroupChatListV2 B groupIdQ cursorQ timestampQ sizeQ s"

definition handleGroupChatListV3 ::
    "'s gapi_env \<Rightarrow> string option \<Rightarrow> string option \<Rightarrow> string option \<Rightarrow> string option \<Rightarrow> 's \<Rightarrow> ChatMessage chat_list api_answer \<times> 's" where
  "handleGroupChatListV3 B groupIdQ cursorQ timestampQ sizeQ s = handleGroupChatListV2 B groupIdQ cursorQ timestampQ sizeQ s"

definition handleGroupChatListByIndex ::
    "'s gapi_env \<Rightarrow> string option \<Rightarrow> string option \<Rightarrow> string option \<Rightarrow> 's \<Rightarrow> ChatListByIndexResult api_answer \<times> 's" where
  "handleGroupChatListByIndex B groupIdQ startIndexQ sizeQ s =
     (let groupId = DefaultQuery '''' groupIdQ
      in if groupId = '''' then (RespErr 1 ''groupId is required'', s)
         else (let (r, s1) = GetChatListByIndexCompat B groupId (ParseInt_value (DefaultQuery ''0'' startIndexQ)) (chat_size sizeQ) s in (RespSuccess r, s1)))"

definition handleChannelChatListV3 ::
    "'s gapi_env \<Rightarrow> string option \<Rightarrow> string option \<Rightarrow> string option \<Rightarrow> string option \<Rightarrow> string option \<Rightarrow> 's \<Rightarrow> ChatMessage chat_list api_answer \<times> 's" where
  "handleChannelChatListV3 B groupIdQ channelIdQ cursorQ timestampQ sizeQ s =
     (let channelId = DefaultQuery '''' channelIdQ
      in if channelId = '''' then (RespErr 1 ''channelId is required'', s)
         else (let (r, s1) = GetChannelChatListV3 (ga_chat B) (DefaultQuery '''' groupIdQ) channelId (DefaultQuery '''' cursorQ) (chat_size sizeQ)
                               (ParseInt_value (DefaultQuery ''0'' timestampQ)) s in (RespSuccess r, s1)))"

definition handleChannelChatListByIndex ::
    "'s gapi_env \<Rightarrow> string option \<Rightarrow> string option \<Rightarrow> string option \<Rightarrow> string option \<Rightarrow> 's \<Rightarrow> ChatMessage chat_list api_answer \<times> 's" where
  "handleChannelChatListByIndex B groupIdQ channelIdQ startIndexQ sizeQ s =
     (let channelId = DefaultQuery '''' channelIdQ
      in if channelId = '''' then (RespErr 1 ''channelId is required'', s)
         else (let (r, s1) = GetChannelChatListByIndex (ga_chat B) (DefaultQuery '''' groupIdQ) channelId
                               (ParseInt_value (DefaultQuery ''0'' startIndexQ)) (chat_size sizeQ) s in (RespSuccess r, s1)))"

definition handleUserLatestChatInfoList :: "'s gapi_env \<Rightarrow> string option \<Rightarrow> 's \<Rightarrow> (nat \<times> UserLatestChatInfo list) api_answer \<times> 's" where
  "handleUserLatestChatInfoList B metaIdQ s =
     (let metaId = DefaultQuery '''' metaIdQ
      in if metaId = '''' then (RespErr 1 ''metaId is required'', s)
         else (let (infos, s1) = GetUserLatestChatInfoList B metaId s in (RespSuccess (length infos, infos), s1)))"

definition handleSearchUsers :: "'s gapi_env \<Rightarrow> string option \<Rightarrow> string option \<Rightarrow> 's \<Rightarrow> (nat \<times> profile list) api_answer \<times> 's" where
  "handleSearchUsers B queryQ sizeQ s =
     (let query = DefaultQuery '''' queryQ
      in if query = '''' then (RespErr 1 ''query is required'', s)
         else (let (users, s1) = SearchUsers B query (limited 50 ''50'' sizeQ) s in (RespSuccess (length users, users), s1)))"

definition handleSearchGroupsAndUsers :: "'s gapi_env \<Rightarrow> string option \<Rightarrow> string option \<Rightarrow> 's \<Rightarrow> (nat \<times> dto list) api_answer \<times> 's" where
  "handleSearchGroupsAndUsers B queryQ sizeQ s =
     (let query = DefaultQuery '''' queryQ
      in if query = '''' then (RespErr 1 ''query is required'', s)
         else (let (results, s1) = SearchGroupsAndUsers B query (limited 20 ''20'' sizeQ) s in (RespSuccess (length results, results), s1)))"

definition handleGroupChannelList :: "'s gapi_env \<Rightarrow> string option \<Rightarrow> 's \<Rightarrow> (nat \<times> GroupChannel list) api_answer \<times> 's" where
  "handleGroupChannelList B groupIdQ s =
     (let groupId = DefaultQuery '''' groupIdQ
      in if groupId = '''' then (RespErr 1 ''groupId is required'', s)
         else case GetGroupChannelList (ga_chat B) groupId s of
           (Inl e, s1) \<Rightarrow> (RespErr 1 ''failed to get group channel list'', s1)
         | (Inr channels, s1) \<Rightarrow> (RespSuccess (length channels, channels), s1))"

definition handleGroupMetaIdJoinList ::
    "'s gapi_env \<Rightarrow> string option \<Rightarrow> string option \<Rightarrow> string option \<Rightarrow> 's \<Rightarrow> (string \<times> dto list) api_answer \<times> 's" where
  "handleGroupMetaIdJoinList B groupIdQ metaIdQ globalMetaIdQ s =
     (let metaId0 = DefaultQuery '''' metaIdQ; metaId = (if metaId0 = '''' then DefaultQuery '''' globalMetaIdQ else metaId0)
      in case GetGroupMetaIdJoinList B (DefaultQuery '''' groupIdQ) metaId s of
           (Inl e, s1) \<Rightarrow> (RespErr 1 ''failed to get group metaid join list'', s1)
         | (Inr items, s1) \<Rightarrow> (RespSuccess (metaId, items), s1))"

definition handleStub :: "'s \<Rightarrow> unit api_answer \<times> 's" where
  "handleStub s = (RespSuccess (), s)"

subsection \<open>Searching\<close>

lemma match_at_iff: "match_at s sub \<longleftrightarrow> prefix (map ascii_lower sub) (map ascii_lower s)"
  by (induction s sub rule: match_at.induct) auto

lemma searchSubstring_iff: "searchSubstring s sub \<longleftrightarrow> sublist (map ascii_lower sub) (map ascii_lower s)"
proof (induction s)
  case (Cons c s)
  have "\<not> length (c # s) < length sub" if "sublist (map ascii_lower sub) (map ascii_lower (c # s))"
    using sublist_length_le [OF that] by simp
  then show ?case using Cons by (auto simp: match_at_iff sublist_Cons_right simp del: match_at.simps)
qed auto

lemma contains_iff: "contains s sub \<longleftrightarrow> sublist (map ascii_lower sub) (map ascii_lower s)"
  using sublist_length_le [of "map ascii_lower sub" "map ascii_lower s"] by (auto simp: contains_def searchSubstring_iff)

lemma collect_upto_eq: "int (length acc) \<le> sz \<Longrightarrow> collect_upto sz f xs acc = acc @ take (nat (sz - int (length acc))) (List.map_filter f xs)"
proof (induction xs arbitrary: acc)
  case (Cons x xs)
  show ?case
  proof (cases "int (length acc) < sz")
    case True
    then have "nat (sz - int (length acc)) = Suc (nat (sz - int (length (acc @ [y]))))" for y by simp
    then show ?thesis using True Cons.IH [of acc] Cons.IH [of "acc @ [the (f x)]"] by (auto simp: List.map_filter_simps split: option.split)
  next
    case False
    then show ?thesis using Cons by (simp add: List.map_filter_simps)
  qed
qed (simp add: List.map_filter_simps)

lemma split_loop_ne [simp]: "split_loop d cur s \<noteq> []"
  by (induction d cur s rule: split_loop.induct) auto

lemma split_join: "d \<noteq> [] \<Longrightarrow> concat (map (\<lambda>p. p @ d) (butlast (split_loop d cur s))) @ last (split_loop d cur s) = cur @ s"
proof (induction d cur s rule: split_loop.induct)
  case (2 d cur c s)
  have "c # s = d @ drop (length d - 1) s" if "prefix d (c # s)"
    using that 2 by (cases d) (auto simp: prefix_def)
  then show ?case using 2 by auto
qed simp

lemma limited_range: "1 \<le> d \<Longrightarrow> d \<le> 100 \<Longrightarrow> 1 \<le> limited d t q \<and> limited d t q \<le> 100"
  by (simp add: limited_def Let_def)

lemma chat_size_range: "1 \<le> chat_size q \<and> chat_size q \<le> 100"
  by (simp add: chat_size_def Let_def)

subsection \<open>Sessions\<close>

definition newest_of :: "string \<Rightarrow> latestPrivateMessage list \<Rightarrow> string \<Rightarrow> latestPrivateMessage \<Rightarrow> bool" where
  "newest_of metaId msgs peer m \<longleftrightarrow> m \<in> set msgs \<and> session_peer metaId m = peer
     \<and> (\<forall>m' \<in> set msgs. session_peer metaId m' = peer \<longrightarrow> lp_Timestamp m' \<le> lp_Timestamp m)"

lemma session_fold:
  fixes metaId :: string
  defines "latest msgs \<equiv> foldl (session_step metaId) [] msgs"
  shows "gm_ok (latest msgs)" and "fst ` set (latest msgs) = session_peer metaId ` set msgs - {''''}"
    and "(p, m) \<in> set (latest msgs) \<Longrightarrow> newest_of metaId msgs p m"
proof -
  have "gm_ok (latest msgs) \<and> fst ` set (latest msgs) = session_peer metaId ` set msgs - {''''}
    \<and> (\<forall>e \<in> set (latest msgs). newest_of metaId msgs (fst e) (snd e))"
  proof (induction msgs rule: rev_induct)
    case Nil
    then show ?case by (simp add: latest_def)
  next
    case (snoc x xs)
    let ?p = "session_peer metaId x"
    have l: "latest (xs @ [x]) = session_step metaId (latest xs) x" by (simp add: latest_def)
    have ok: "gm_ok (latest xs)" and dom: "fst ` set (latest xs) = session_peer metaId ` set xs - {''''}"
      and new: "\<And>e. e \<in> set (latest xs) \<Longrightarrow> newest_of metaId xs (fst e) (snd e)" using snoc.IH by auto
    have keep: "newest_of metaId (xs @ [x]) p m" if "newest_of metaId xs p m" "p = ?p \<Longrightarrow> lp_Timestamp x \<le> lp_Timestamp m" for p m
      using that by (auto simp: newest_of_def)
    have here: "gm_get (latest xs) ?p \<noteq> None \<longleftrightarrow> ?p \<in> fst ` set (latest xs)" by (simp add: gm_get_None_iff)
    show ?case
    proof (cases "?p = '''' \<or> (\<exists>e. gm_get (latest xs) ?p = Some e \<and> \<not> lp_Timestamp e < lp_Timestamp x)")
      case True
      then have "latest (xs @ [x]) = latest xs" by (auto simp: l session_step_def Let_def)
      moreover have "newest_of metaId (xs @ [x]) (fst e) (snd e)" if e: "e \<in> set (latest xs)" for e
      proof (rule keep [OF new [OF e]])
        assume p: "fst e = ?p"
        then have "gm_get (latest xs) ?p = Some (snd e)" using e gm_get_iff [OF ok, of ?p "snd e"] by (cases e) auto
        moreover have "?p \<noteq> ''''" using p e dom by (metis Diff_iff image_eqI insertI1)
        ultimately show "lp_Timestamp x \<le> lp_Timestamp (snd e)" using True by auto
      qed
      ultimately show ?thesis using True ok dom here by auto
    next
      case False
      then have u: "latest (xs @ [x]) = gm_set (latest xs) ?p x" by (auto simp: l session_step_def Let_def split: option.split)
      have "newest_of metaId (xs @ [x]) (fst e) (snd e)" if e: "e \<in> set (gm_set (latest xs) ?p x)" for e
      proof (cases "fst e = ?p")
        case True
        then have "snd e = x" using e gm_get_iff [OF gm_ok_set [OF ok], of ?p x ?p "snd e"] by (cases e) auto
        moreover have "lp_Timestamp m' \<le> lp_Timestamp x" if "m' \<in> set xs" "session_peer metaId m' = ?p" for m'
        proof -
          have "?p \<in> fst ` set (latest xs)" unfolding dom using that(1) False by (simp add: image_iff) (metis that)
          then obtain f where f: "gm_get (latest xs) ?p = Some f" using here by auto
          then have "newest_of metaId xs ?p f" using new [OF gm_get_mem [OF f]] by simp
          then show ?thesis using f False that by (auto simp: newest_of_def)
        qed
        ultimately show ?thesis using True by (auto simp: newest_of_def)
      next
        case ne: False
        then have "e \<in> set (latest xs)" using e set_gm_set_subset [of "latest xs" ?p x] by auto
        then show ?thesis using keep [OF new] ne by blast
      qed
      then show ?thesis unfolding u using ok dom False by auto
    qed
  qed
  then show "gm_ok (latest msgs)" "fst ` set (latest msgs) = session_peer metaId ` set msgs - {''''}"
    "(p, m) \<in> set (latest msgs) \<Longrightarrow> newest_of metaId msgs p m" by force+
qed

text \<open>What an entry of the list shows of its partner and message does not depend on the user-info database.\<close>

definition session_view :: "UserLatestChatInfo \<Rightarrow> string \<times> string \<times> int \<times> string \<times> string" where
  "session_view i = (ul_Type i, ul_MetaId i, ul_Timestamp i, ul_Content i, ul_LastMessagePinId i)"

lemma private_sessions_view:
  "map session_view (fst (private_sessions B metaId es s)) = map (\<lambda>(p, m). (''2'', p, lp_Timestamp m, lp_Content m, lp_PinId m)) es"
proof (induction es arbitrary: s)
  case (Cons e es)
  obtain p m where e: "e = (p, m)" by force
  have "session_view (fst (private_session B metaId e s)) = (''2'', p, lp_Timestamp m, lp_Content m, lp_PinId m)"
    by (simp add: private_session_def session_view_def Let_def split_def e)
  then show ?case using Cons by (simp add: Let_def split_def e)
qed simp

lemma group_session_type: "ul_Type (group_session_info g grp l) = ''1'' \<and> ul_GroupId (group_session_info g grp l) = g"
  by (simp add: group_session_info_def Let_def split: option.split)

text \<open>The sessions of the groups a list of member entries names, on a store with the content \<open>c\<close> of the group chat database.\<close>

definition stored_group :: "'s gapi_env \<Rightarrow> (bytes \<Rightarrow> bytes option) \<Rightarrow> string \<Rightarrow> Group option" where
  "stored_group B c g = (case c (groupKey g) of None \<Rightarrow> None | Some raw \<Rightarrow> cd_Unmarshal (gk_Group (ge_C (gx_env (ga_chat B)))) raw)"

definition group_session :: "'s gapi_env \<Rightarrow> (bytes \<Rightarrow> bytes option) \<Rightarrow> string \<Rightarrow> UserLatestChatInfo option" where
  "group_session B c g = map_option (\<lambda>grp. group_session_info g grp (latestMessageByTimestamp (root_messages (ga_chat B) c g) None)) (stored_group B c g)"

context kv_reliable
begin

lemma load_json_eq:
  assumes "inv s"
  obtains s' where "load_json K ns C key s = (case content s (loc ns) key of None \<Rightarrow> Inr None
      | Some raw \<Rightarrow> (case cd_Unmarshal C raw of None \<Rightarrow> Inl ''decode error'' | Some m \<Rightarrow> Inr (Some m)), s')"
    and "inv s'" and "content s' = content s"
proof -
  obtain s' where "kv_Get K ns key s = (case content s (loc ns) key of None \<Rightarrow> Inl ErrNotFound | Some v \<Rightarrow> Inr v, s')" "inv s'" "content s' = content s"
    by (rule Get_eq [OF assms])
  then show thesis using that [of s'] by (cases "content s (loc ns) key") (auto simp: load_json_def split: option.split)
qed

lemma root_messages_eq:
  assumes "inv s" and "ge_K (gx_env A) = K"
  obtains s' where "collectGroupRootMessages A g s = (root_messages A (content s (loc gc_namespace)) g, s')" and "inv s'" and "content s' = content s"
proof -
  obtain s' where "kv_Scan K gc_namespace (chatKeyPrefix g) s = (Inr (entries_under (content s (loc gc_namespace)) (chatKeyPrefix g)), s')"
      "inv s'" "content s' = content s" by (rule scan_entries [OF assms(1)])
  then show thesis using that [of s'] assms(2) by (simp add: collectGroupRootMessages_def collectGroupMessages_def collect_chat_def root_messages_def)
qed

lemma group_sessions_eq:
  assumes "ga_K B = K"
  shows "inv s \<Longrightarrow> \<exists>s'. group_sessions B ids s = (List.map_filter (group_session B (content s (loc gc_namespace))) ids, s') \<and> inv s' \<and> content s' = content s"
proof (induction ids arbitrary: s)
  case (Cons g ids)
  let ?c = "content s (loc gc_namespace)"
  obtain s1 where g: "GetGroup (gx_env (ga_chat B)) g s = (case ?c (groupKey g) of None \<Rightarrow> Inr None
      | Some raw \<Rightarrow> (case cd_Unmarshal (gk_Group (ge_C (gx_env (ga_chat B)))) raw of None \<Rightarrow> Inl ''decode error'' | Some m \<Rightarrow> Inr (Some m)), s1)"
      "inv s1" "content s1 = content s" unfolding GetGroup_def assms by (rule load_json_eq [OF Cons.prems])
  obtain s2 where r: "collectGroupRootMessages (ga_chat B) g s1 = (root_messages (ga_chat B) ?c g, s2)" "inv s2" "content s2 = content s"
    using root_messages_eq [OF g(2) assms, of g] g(3) by metis
  show ?case
  proof (cases "stored_group B ?c g")
    case None
    then have "group_sessions B (g # ids) s = group_sessions B ids s1"
      using g(1) by (auto simp: stored_group_def split: option.splits)
    then show ?thesis using None Cons.IH [OF g(2)] g(3) by (auto simp: group_session_def List.map_filter_simps)
  next
    case (Some grp)
    then have "GetGroup (gx_env (ga_chat B)) g s = (Inr (Some grp), s1)" using g(1) by (auto simp: stored_group_def split: option.splits)
    then show ?thesis using Some r Cons.IH [OF r(2)] by (auto simp: group_session_def List.map_filter_simps Let_def split_def)
  qed
qed (simp add: List.map_filter_simps)

lemma user_sessions_eq:
  assumes "inv s" and "ga_K B = K"
  obtains s' where "fst (GetUserLatestChatInfoList B metaId s) = sort_key (\<lambda>i. - ul_Timestamp i)
      (List.map_filter (group_session B (content s (loc gc_namespace))) (List.map_filter (session_group B metaId) (entries_under (content s (loc gc_namespace)) ''member:''))
        @ fst (private_sessions B metaId (foldl (session_step metaId) [] (decoded (ga_Private B) (entries_under (content s (loc ''privatechat'')) ''pchat:''))) s'))"
proof -
  obtain s1 where 1: "kv_Scan K gc_namespace ''member:'' s = (Inr (entries_under (content s (loc gc_namespace)) ''member:''), s1)" "inv s1" "content s1 = content s"
    by (rule scan_entries [OF assms(1)])
  obtain s2 where 2: "group_sessions B (List.map_filter (session_group B metaId) (entries_under (content s (loc gc_namespace)) ''member:'')) s1
      = (List.map_filter (group_session B (content s (loc gc_namespace))) (List.map_filter (session_group B metaId) (entries_under (content s (loc gc_namespace)) ''member:'')), s2)"
      "inv s2" "content s2 = content s"
    using group_sessions_eq [OF assms(2) 1(2)] 1(3) by metis
  obtain s3 where 3: "kv_Scan K ''privatechat'' ''pchat:'' s2 = (Inr (entries_under (content s (loc ''privatechat'')) ''pchat:''), s3)" "inv s3"
    using scan_entries [OF 2(2), of "''privatechat''" "''pchat:''"] 2(3) by metis
  show thesis
    by (rule that [of s3]) (simp add: GetUserLatestChatInfoList_def getPrivateLatestChatInfoList_def 1(1) 2(1) 3(1) assms(2) split_def Let_def)
qed

end

subsection \<open>Properties\<close>

text \<open>C37: the hand-written substring search of the search endpoints is substring search on the strings with the letters A to Z in lower case.\<close>

lemma search_is_sublist: "contains s sub \<longleftrightarrow> sublist (map ascii_lower sub) (map ascii_lower s)"
  by (rule contains_iff)


definition private_row :: "string \<Rightarrow> string \<Rightarrow> int \<Rightarrow> latestPrivateMessage" where
  "private_row from to ts =
     \<lparr>lp_FromGlobalMetaId = '''', lp_From = from, lp_FromAddress = '''', lp_FromUserInfo = UNil, lp_ToGlobalMetaId = '''', lp_To = to, lp_ToAddress = '''',
      lp_ToUserInfo = UNil, lp_TxId = '''', lp_PinId = '''', lp_Protocol = '''', lp_Content = ''hi'', lp_ContentType = '''', lp_Encryption = '''',
      lp_Timestamp = ts, lp_Chain = '''', lp_BlockHeight = 0, lp_Index = 0\<rparr>"

definition demo_api :: "(mem_world, string) store_state gapi_env" where
  "demo_api = \<lparr>ga_chat = demo_group, ga_Profile = (\<lambda>raw. None), ga_Private = (\<lambda>raw. Some (private_row ''alice'' raw 5))\<rparr>"

definition demo_api_state :: "(mem_world, string) store_state" where
  "demo_api_state = (NewPebbleStore ''data'', \<lambda>p. if p = filepath_Join ''data'' ''privatechat'' then [(''pchat:1'', ''bob'')] else [])"

lemma demo_api_ok:
  "store_inv (\<lambda>h. h) (\<lambda>w h. True) ''data'' demo_api_state"
  "mem_disk (snd demo_api_state) (filepath_Join ''data'' ''privatechat'') = [''pchat:1'' \<mapsto> ''bob'']"
  by (simp_all add: store_inv_def NewPebbleStore_def demo_api_state_def mem_disk_def)


text \<open>Whatever the query strings are, no list endpoint of the module answers with more than 100 rows.\<close>

lemma search_rows_bounded:
  "fst (handleSearchUsers B q sz s) = Answer c (n, users) \<Longrightarrow> length users \<le> 100"
  "fst (handleSearchGroupsAndUsers B q sz s) = Answer c (n, rows) \<Longrightarrow> length rows \<le> 100"
proof -
  have r: "1 \<le> limited d t q" "limited d t q \<le> 100" if "1 \<le> d" "d \<le> 100" for d t q using limited_range [OF that] by auto
  have u: "length (fst (SearchUsers B q z s)) \<le> nat z" if "0 \<le> z" for q z s
    using that by (auto simp: SearchUsers_def collect_upto_eq split: prod.split sum.split)
  show "fst (handleSearchUsers B q sz s) = Answer c (n, users) \<Longrightarrow> length users \<le> 100"
    using u [of "limited 50 ''50'' sz" "DefaultQuery '''' q" s] r [of 50 "''50''" sz]
    by (auto simp: handleSearchUsers_def RespSuccess_def RespErr_def Let_def split_def split: if_splits)
  have g: "length (fst (SearchGroupsAndUsers B q z s)) \<le> nat z" if "1 \<le> z" for q z s
    using that by (auto simp: SearchGroupsAndUsers_def Let_def split_def collect_upto_eq min_def split: prod.split sum.split)
  show "fst (handleSearchGroupsAndUsers B q sz s) = Answer c (n, rows) \<Longrightarrow> length rows \<le> 100"
    using g [of "limited 20 ''20'' sz" "DefaultQuery '''' q" s] r [of 20 "''20''" sz]
    by (auto simp: handleSearchGroupsAndUsers_def RespSuccess_def RespErr_def Let_def split_def split: if_splits)
qed

end
