(* ===== verification/ChainPins.thy ===== *)
theory ChainPins
  imports ChainRaw FedRegistry Aggregators
begin

text \<open>
  The chain indexers, \<open>internal/chain/{mvc,dogecoin,opcat,bitcoin}/indexer.go\<close>: from the transactions of a block or of the mempool to pins.
  The four packages repeat most of their code; where the bodies are the same, the functions of the later packages are the first one's
  under their own name. Blocks come from the node as arguments, the clock is an argument.

  The script tokenizer of \<open>btcd\<close> is \<open>wl_Tokens\<close>: the opcodes with their data (\<open>None\<close> is nil) up to the end or the first malformed one, and
  whether there is one.
\<close>

subsection \<open>OP_RETURN data\<close>

definition empty_pin :: PinInscription where
  "empty_pin =
     \<lparr>pi_Id = '''', pi_Number = 0, pi_Path = '''', pi_OriginalPath = '''', pi_Operation = '''', pi_ContentBody = [], pi_ContentSummary = '''',
      pi_ContentType = '''', pi_Creator = '''', pi_CreateAddress = '''', pi_CreateMetaId = '''', pi_MetaId = '''', pi_GlobalMetaId = '''',
      pi_Address = '''', pi_ChainName = '''', pi_GenesisTransaction = '''', pi_GenesisHeight = 0, pi_Timestamp = 0, pi_Output = '''',
      pi_IsTransfered = False, pi_OriginalId = '''', pi_Host = ''''\<rparr>"

text \<open>\<open>string(b)\<close> of a slice that may be nil.\<close>

definition nil_string :: "bytes option \<Rightarrow> string" where
  "nil_string b = (case b of None \<Rightarrow> '''' | Some s \<Rightarrow> s)"

definition mvc_parseOpReturnFields :: "unicode \<Rightarrow> (nat \<times> bytes option) list \<times> bool \<Rightarrow> PinInscription option" where
  "mvc_parseOpReturnFields U toks =
     (let infoList = map snd (fst toks)
      in if snd toks then None
         else if length infoList < 1 then None
         else
           (let operation = ToLower U (nil_string (infoList ! 0))
            in if operation = ''init'' then Some (empty_pin\<lparr>pi_Path := ''/'', pi_Operation := ''init''\<rparr>)
               else if length infoList < 6 \<and> operation \<noteq> ''revoke'' then None
               else if operation = ''revoke'' \<and> length infoList < 5 then None
               else
                 (let contentType = (if 4 < length infoList \<and> infoList ! 4 \<noteq> None then ToLower U (nil_string (infoList ! 4)) else ''application/json'');
                      body = concat (map nil_string (drop 5 infoList))
                  in Some (empty_pin\<lparr>pi_Path := ToLower U (nil_string (infoList ! 1)), pi_Operation := operation, pi_ContentType := contentType,
                       pi_ContentBody := body\<rparr>))))"

definition OP_RETURN :: nat where "OP_RETURN = 106"

fun op_return_pin ::
    "((nat \<times> bytes option) list \<times> bool \<Rightarrow> PinInscription option) \<Rightarrow> (nat \<times> bytes option) list \<Rightarrow> bool \<Rightarrow> PinInscription option" where
  "op_return_pin parse [] err = None"
| "op_return_pin parse ((opcode, dat) # toks) err =
     (if opcode = OP_RETURN then
        (case toks of
           [] \<Rightarrow> None
         | (opcode', dat') # rest \<Rightarrow>
             if hex_EncodeToString (nil_string dat') \<noteq> ''6d6574616964'' then None else parse (rest, err))
      else op_return_pin parse toks err)"

definition mvc_parseOpReturnPin :: "unicode \<Rightarrow> wire_lib \<Rightarrow> bytes \<Rightarrow> PinInscription option" where
  "mvc_parseOpReturnPin U L pkScript = (let (toks, err) = wl_Tokens L pkScript in op_return_pin (mvc_parseOpReturnFields U) toks err)"

definition data_class :: "string \<Rightarrow> bool" where
  "data_class class \<longleftrightarrow> class = ''nonstandard'' \<or> class = ''nulldata''"

fun owner_from :: "wire_lib \<Rightarrow> nat \<Rightarrow> bytes list \<Rightarrow> string \<times> nat" where
  "owner_from L i [] = ('''', 0)"
| "owner_from L i (out # outs) =
     (let (class, addresses) = wl_ExtractPkScriptAddrs L out
      in if \<not> data_class class \<and> addresses \<noteq> [] then (hd addresses, i) else owner_from L (i + 1) outs)"

definition mvc_getPinOwner :: "wire_lib \<Rightarrow> wire_tx \<Rightarrow> string \<times> nat" where
  "mvc_getPinOwner L tx = owner_from L 0 (wt_TxOut tx)"

definition own_pin :: "string \<Rightarrow> string \<Rightarrow> int \<Rightarrow> int \<Rightarrow> string \<times> nat \<Rightarrow> PinInscription \<Rightarrow> PinInscription" where
  "own_pin chainName pinHash height timestamp owner pin =
     (let (address, ownerOutIdx) = owner
      in pin\<lparr>pi_Id := pinHash @ ''i'' @ Itoa (int ownerOutIdx), pi_ChainName := chainName, pi_GenesisTransaction := pinHash,
             pi_GenesisHeight := height, pi_Timestamp := timestamp, pi_Address := address, pi_CreateAddress := address, pi_MetaId := address,
             pi_GlobalMetaId := address, pi_Output := pinHash @ '':'' @ Itoa (int ownerOutIdx)\<rparr>)"

text \<open>The first loop of \<open>catchPinsByTx\<close>.\<close>

definition op_return_pins ::
    "wire_lib \<Rightarrow> (bytes \<Rightarrow> PinInscription option) \<Rightarrow> string \<Rightarrow> string \<Rightarrow> int \<Rightarrow> int \<Rightarrow> wire_tx \<Rightarrow> PinInscription list" where
  "op_return_pins L parse chainName pinHash height timestamp tx =
     map (own_pin chainName pinHash height timestamp (owner_from L 0 (wt_TxOut tx)))
       (List.map_filter parse (filter (\<lambda>out. data_class (fst (wl_ExtractPkScriptAddrs L out))) (wt_TxOut tx)))"

subsection \<open>Witness data\<close>

fun creator_from :: "wire_lib \<Rightarrow> bytes list \<Rightarrow> string" where
  "creator_from L [] = ''''"
| "creator_from L (out # outs) =
     (let addresses = snd (wl_ExtractPkScriptAddrs L out) in if addresses \<noteq> [] then hd addresses else creator_from L outs)"

definition mvc_extractCreatorAddress :: "wire_lib \<Rightarrow> wire_tx \<Rightarrow> string" where
  "mvc_extractCreatorAddress L tx = creator_from L (wt_TxOut tx)"

definition HasWitness :: "wire_tx \<Rightarrow> bool" where
  "HasWitness tx \<longleftrightarrow> (\<exists>i \<in> set (wt_TxIn tx). wi_Witness i \<noteq> [])"

fun marker_index :: "nat \<Rightarrow> bytes list \<Rightarrow> nat option" where
  "marker_index i [] = None"
| "marker_index i (w # ws) = (if 6 \<le> length w \<and> take 6 w = ''metaid'' then Some i else marker_index (i + 1) ws)"

text \<open>\<open>tx.TxIn[0]\<close> exists, since the transaction has a witness. The creator, the metaid and the global metaid are computed by the chain.\<close>

definition witness_pin ::
    "string \<Rightarrow> string \<Rightarrow> string \<Rightarrow> string \<Rightarrow> int \<Rightarrow> int \<Rightarrow> string \<Rightarrow> wire_tx \<Rightarrow> nat \<Rightarrow> PinInscription option" where
  "witness_pin chainName creatorAddr metaid globalMetaID height timestamp txHash tx outIdx =
     (let witness = wi_Witness (hd (wt_TxIn tx))
      in if length witness < 4 then None
         else case marker_index 0 witness of
           None \<Rightarrow> None
         | Some dataStart \<Rightarrow>
             (if length witness \<le> dataStart + 2 then None
              else Some (empty_pin\<lparr>pi_Id := txHash @ '':i'' @ Itoa (int outIdx), pi_Path := witness ! (dataStart + 2),
                     pi_Operation := witness ! (dataStart + 1), pi_ChainName := chainName, pi_GenesisTransaction := txHash,
                     pi_GenesisHeight := height, pi_Timestamp := timestamp, pi_Address := creatorAddr, pi_CreateAddress := creatorAddr,
                     pi_MetaId := metaid, pi_GlobalMetaId := globalMetaID, pi_Output := txHash @ '':'' @ Itoa (int outIdx),
                     pi_ContentType := (if dataStart + 5 < length witness then witness ! (dataStart + 5) else ''''),
                     pi_ContentBody := (if dataStart + 6 < length witness then witness ! (dataStart + 6) else [])\<rparr>)))"

definition mvc_parseMetaIDWitness :: "wire_lib \<Rightarrow> wire_tx \<Rightarrow> nat \<Rightarrow> int \<Rightarrow> int \<Rightarrow> string \<Rightarrow> PinInscription option" where
  "mvc_parseMetaIDWitness L tx outIdx height timestamp txHash =
     (let a = mvc_extractCreatorAddress L tx in witness_pin ''mvc'' a a a height timestamp txHash tx outIdx)"

text \<open>The second loop: one pin for every output with a script that \<open>accept\<close> lets through.\<close>

definition witness_pins :: "(bytes \<Rightarrow> bool) \<Rightarrow> (nat \<Rightarrow> PinInscription option) \<Rightarrow> wire_tx \<Rightarrow> PinInscription list" where
  "witness_pins accept parse tx =
     List.map_filter parse (map fst (filter (\<lambda>(i, out). accept out) (enumerate 0 (wt_TxOut tx))))"

subsection \<open>The indexers\<close>

record wire_block =
  wb_Timestamp :: int
  wb_Transactions :: "wire_tx list"

text \<open>A hash that cannot be computed is replaced by the transaction hash; \<open>None\<close> is a panic.\<close>

definition mvc_catchPinsByTx :: "unicode \<Rightarrow> wire_lib \<Rightarrow> wire_tx \<Rightarrow> int \<Rightarrow> int \<Rightarrow> PinInscription list option" where
  "mvc_catchPinsByTx U L tx height timestamp =
     (let txHash = wl_TxHash L tx;
          outs = List.map_filter (mvc_parseOpReturnPin U L) (filter (\<lambda>out. data_class (fst (wl_ExtractPkScriptAddrs L out))) (wt_TxOut tx))
      in if outs \<noteq> [] then
           (case mvcMetaIDTxHash L tx of
              None \<Rightarrow> None
            | Some r \<Rightarrow>
                (let pinHash = (case r of Inl e \<Rightarrow> txHash | Inr h \<Rightarrow> h)
                 in Some (op_return_pins L (mvc_parseOpReturnPin U L) ''mvc'' pinHash height timestamp tx)))
         else if \<not> HasWitness tx then Some []
         else Some (witness_pins (\<lambda>out. out \<noteq> []) (\<lambda>outIdx. mvc_parseMetaIDWitness L tx outIdx height timestamp txHash) tx))"

text \<open>The spent outputs of a transaction, as \<open>txid:vout\<close>.\<close>

definition spent_ids :: "wire_tx \<Rightarrow> string list" where
  "spent_ids tx = map (\<lambda>i. wi_Hash i @ '':'' @ Itoa (int (wi_Index i))) (wt_TxIn tx)"

fun all_pins :: "(wire_tx \<Rightarrow> PinInscription list option) \<Rightarrow> wire_tx list \<Rightarrow> PinInscription list option" where
  "all_pins f [] = Some []"
| "all_pins f (tx # txs) = (case f tx of None \<Rightarrow> None | Some pins \<Rightarrow> map_option (\<lambda>rest. pins @ rest) (all_pins f txs))"

definition mvc_CatchPins ::
    "unicode \<Rightarrow> wire_lib \<Rightarrow> (int \<Rightarrow> string + wire_block) \<Rightarrow> int \<Rightarrow> (string + PinInscription list \<times> string list) option" where
  "mvc_CatchPins U L getBlock height =
     (case getBlock height of
        Inl e \<Rightarrow> Some (Inl e)
      | Inr block \<Rightarrow>
          map_option (\<lambda>pins. Inr (pins, concat (map spent_ids (wb_Transactions block))))
            (all_pins (\<lambda>tx. mvc_catchPinsByTx U L tx height (wb_Timestamp block)) (wb_Transactions block)))"

text \<open>An item of the mempool list that is no transaction is skipped.\<close>

definition mvc_CatchMempoolPins :: "unicode \<Rightarrow> wire_lib \<Rightarrow> int \<Rightarrow> wire_tx option list \<Rightarrow> (PinInscription list \<times> string list) option" where
  "mvc_CatchMempoolPins U L now txList =
     (let txs = List.map_filter id txList
      in map_option (\<lambda>pins. (pins, concat (map spent_ids txs))) (all_pins (\<lambda>tx. mvc_catchPinsByTx U L tx (- 1) now) txs))"

record transfer_info =
  tf_location :: string
  tf_address :: string
  tf_fromAddress :: string

fun owner_address :: "wire_lib \<Rightarrow> string \<Rightarrow> nat \<Rightarrow> bytes list \<Rightarrow> (string \<times> string) option" where
  "owner_address L txHash i [] = None"
| "owner_address L txHash i (out # outs) =
     (let addresses = snd (wl_ExtractPkScriptAddrs L out)
      in if addresses \<noteq> [] then Some (txHash @ '':'' @ Itoa (int i), hd addresses) else owner_address L txHash (i + 1) outs)"

definition mvc_getOwnerAddress :: "wire_lib \<Rightarrow> wire_tx \<Rightarrow> (string \<times> string) option" where
  "mvc_getOwnerAddress L tx = owner_address L (wl_TxHash L tx) 0 (wt_TxOut tx)"

definition transfer_step ::
    "wire_lib \<Rightarrow> (string \<Rightarrow> string option) \<Rightarrow> wire_tx \<Rightarrow> (string, transfer_info) gomap \<Rightarrow> string \<Rightarrow> (string, transfer_info) gomap" where
  "transfer_step L idMap tx result i =
     (case idMap i of
        None \<Rightarrow> result
      | Some fromAddr \<Rightarrow>
          (case mvc_getOwnerAddress L tx of
             None \<Rightarrow> result
           | Some (location, address) \<Rightarrow> gm_set result i \<lparr>tf_location = location, tf_address = address, tf_fromAddress = fromAddr\<rparr>))"

definition mvc_CatchTransfer :: "wire_lib \<Rightarrow> wire_block option \<Rightarrow> (string \<Rightarrow> string option) \<Rightarrow> (string, transfer_info) gomap" where
  "mvc_CatchTransfer L block idMap =
     (case block of
        None \<Rightarrow> []
      | Some b \<Rightarrow> foldl (\<lambda>result tx. foldl (transfer_step L idMap tx) result (spent_ids tx)) [] (wb_Transactions b))"

definition mvc_GetAddress :: "wire_lib \<Rightarrow> bytes \<Rightarrow> string" where
  "mvc_GetAddress L pkScript = (let addresses = snd (wl_ExtractPkScriptAddrs L pkScript) in if addresses \<noteq> [] then hd addresses else '''')"

text \<open>Dogecoin: as MVC, with the transaction hash as the hash of a pin.\<close>

definition doge_parseOpReturnFields :: "unicode \<Rightarrow> (nat \<times> bytes option) list \<times> bool \<Rightarrow> PinInscription option" where
  "doge_parseOpReturnFields U toks = mvc_parseOpReturnFields U toks"

definition doge_parseOpReturnPin :: "unicode \<Rightarrow> wire_lib \<Rightarrow> bytes \<Rightarrow> PinInscription option" where
  "doge_parseOpReturnPin U L pkScript = (let (toks, err) = wl_Tokens L pkScript in op_return_pin (doge_parseOpReturnFields U) toks err)"

definition doge_getPinOwner :: "wire_lib \<Rightarrow> wire_tx \<Rightarrow> string \<times> nat" where
  "doge_getPinOwner L tx = owner_from L 0 (wt_TxOut tx)"

definition doge_extractCreatorAddress :: "wire_lib \<Rightarrow> wire_tx \<Rightarrow> string" where
  "doge_extractCreatorAddress L tx = creator_from L (wt_TxOut tx)"

definition doge_parseMetaIDWitness :: "wire_lib \<Rightarrow> wire_tx \<Rightarrow> nat \<Rightarrow> int \<Rightarrow> int \<Rightarrow> string \<Rightarrow> PinInscription option" where
  "doge_parseMetaIDWitness L tx outIdx height timestamp txHash =
     (let a = doge_extractCreatorAddress L tx in witness_pin ''doge'' a a a height timestamp txHash tx outIdx)"

definition doge_catchPinsByTx :: "unicode \<Rightarrow> wire_lib \<Rightarrow> wire_tx \<Rightarrow> int \<Rightarrow> int \<Rightarrow> PinInscription list" where
  "doge_catchPinsByTx U L tx height timestamp =
     (let txHash = wl_TxHash L tx; pins = op_return_pins L (doge_parseOpReturnPin U L) ''doge'' txHash height timestamp tx
      in if pins \<noteq> [] then pins
         else if \<not> HasWitness tx then []
         else witness_pins (\<lambda>out. out \<noteq> []) (\<lambda>outIdx. doge_parseMetaIDWitness L tx outIdx height timestamp txHash) tx)"

definition doge_CatchPins :: "unicode \<Rightarrow> wire_lib \<Rightarrow> (int \<Rightarrow> string + wire_block) \<Rightarrow> int \<Rightarrow> string + PinInscription list \<times> string list" where
  "doge_CatchPins U L getBlock height =
     (case getBlock height of
        Inl e \<Rightarrow> Inl e
      | Inr block \<Rightarrow> Inr (concat (map (\<lambda>tx. doge_catchPinsByTx U L tx height (wb_Timestamp block)) (wb_Transactions block)),
                        concat (map spent_ids (wb_Transactions block))))"

definition doge_CatchMempoolPins :: "unicode \<Rightarrow> wire_lib \<Rightarrow> int \<Rightarrow> wire_tx option list \<Rightarrow> PinInscription list \<times> string list" where
  "doge_CatchMempoolPins U L now txList =
     (let txs = List.map_filter id txList
      in (concat (map (\<lambda>tx. doge_catchPinsByTx U L tx (- 1) now) txs), concat (map spent_ids txs)))"

definition doge_getOwnerAddress :: "wire_lib \<Rightarrow> wire_tx \<Rightarrow> (string \<times> string) option" where
  "doge_getOwnerAddress L tx = owner_address L (wl_TxHash L tx) 0 (wt_TxOut tx)"

definition doge_CatchTransfer :: "wire_lib \<Rightarrow> wire_block option \<Rightarrow> (string \<Rightarrow> string option) \<Rightarrow> (string, transfer_info) gomap" where
  "doge_CatchTransfer L block idMap = mvc_CatchTransfer L block idMap"

definition doge_GetAddress :: "wire_lib \<Rightarrow> bytes \<Rightarrow> string" where
  "doge_GetAddress L pkScript = mvc_GetAddress L pkScript"

text \<open>OPCAT: only OP_RETURN data.\<close>

definition opcat_parseOpReturnFields :: "unicode \<Rightarrow> (nat \<times> bytes option) list \<times> bool \<Rightarrow> PinInscription option" where
  "opcat_parseOpReturnFields U toks = mvc_parseOpReturnFields U toks"

definition opcat_parseOpReturnPin :: "unicode \<Rightarrow> wire_lib \<Rightarrow> bytes \<Rightarrow> PinInscription option" where
  "opcat_parseOpReturnPin U L pkScript = (let (toks, err) = wl_Tokens L pkScript in op_return_pin (opcat_parseOpReturnFields U) toks err)"

definition opcat_getPinOwner :: "wire_lib \<Rightarrow> wire_tx \<Rightarrow> string \<times> nat" where
  "opcat_getPinOwner L tx = owner_from L 0 (wt_TxOut tx)"

definition opcat_catchPinsByTx :: "unicode \<Rightarrow> wire_lib \<Rightarrow> wire_tx \<Rightarrow> int \<Rightarrow> int \<Rightarrow> PinInscription list" where
  "opcat_catchPinsByTx U L tx height timestamp =
     op_return_pins L (opcat_parseOpReturnPin U L) ''opcat'' (wl_TxHash L tx) height timestamp tx"

definition opcat_CatchPins :: "unicode \<Rightarrow> wire_lib \<Rightarrow> (int \<Rightarrow> string + wire_block) \<Rightarrow> int \<Rightarrow> string + PinInscription list \<times> string list" where
  "opcat_CatchPins U L getBlock height =
     (case getBlock height of
        Inl e \<Rightarrow> Inl e
      | Inr block \<Rightarrow> Inr (concat (map (\<lambda>tx. opcat_catchPinsByTx U L tx height (wb_Timestamp block)) (wb_Transactions block)),
                        concat (map spent_ids (wb_Transactions block))))"

definition opcat_CatchMempoolPins :: "unicode \<Rightarrow> wire_lib \<Rightarrow> int \<Rightarrow> wire_tx option list \<Rightarrow> PinInscription list \<times> string list" where
  "opcat_CatchMempoolPins U L now txList =
     (let txs = List.map_filter id txList
      in (concat (map (\<lambda>tx. opcat_catchPinsByTx U L tx (- 1) now) txs), concat (map spent_ids txs)))"

definition opcat_getOwnerAddress :: "wire_lib \<Rightarrow> wire_tx \<Rightarrow> (string \<times> string) option" where
  "opcat_getOwnerAddress L tx = owner_address L (wl_TxHash L tx) 0 (wt_TxOut tx)"

definition opcat_CatchTransfer :: "wire_lib \<Rightarrow> wire_block option \<Rightarrow> (string \<Rightarrow> string option) \<Rightarrow> (string, transfer_info) gomap" where
  "opcat_CatchTransfer L block idMap = mvc_CatchTransfer L block idMap"

definition opcat_GetAddress :: "wire_lib \<Rightarrow> bytes \<Rightarrow> string" where
  "opcat_GetAddress L pkScript = mvc_GetAddress L pkScript"

text \<open>Bitcoin: only witness data, of transactions that have one.\<close>

definition isMetaIDOutput :: "bytes \<Rightarrow> bool" where
  "isMetaIDOutput pkScript = (\<not> length pkScript < 6)"

definition btc_extractCreatorAddress :: "wire_lib \<Rightarrow> wire_tx \<Rightarrow> string" where
  "btc_extractCreatorAddress L tx = (if wt_TxIn tx = [] then '''' else creator_from L (wt_TxOut tx))"

definition extractMetaID :: "wire_lib \<Rightarrow> wire_tx \<Rightarrow> string" where
  "extractMetaID L tx = (let addr = btc_extractCreatorAddress L tx in if addr = '''' then '''' else addr)"

definition extractGlobalMetaID :: "string \<Rightarrow> string" where
  "extractGlobalMetaID metaid = metaid"

definition btc_parseMetaIDWitness :: "wire_lib \<Rightarrow> wire_tx \<Rightarrow> nat \<Rightarrow> int \<Rightarrow> int \<Rightarrow> string \<Rightarrow> PinInscription option" where
  "btc_parseMetaIDWitness L tx outIdx height timestamp txHash =
     (let metaid = extractMetaID L tx
      in witness_pin ''btc'' (btc_extractCreatorAddress L tx) metaid (extractGlobalMetaID metaid) height timestamp txHash tx outIdx)"

definition btc_catchPinsByTx :: "wire_lib \<Rightarrow> wire_tx \<Rightarrow> int \<Rightarrow> int \<Rightarrow> PinInscription list" where
  "btc_catchPinsByTx L tx height timestamp =
     witness_pins (\<lambda>out. out \<noteq> [] \<and> isMetaIDOutput out) (\<lambda>outIdx. btc_parseMetaIDWitness L tx outIdx height timestamp (wl_TxHash L tx)) tx"

definition btc_CatchPins :: "wire_lib \<Rightarrow> (int \<Rightarrow> string + wire_block) \<Rightarrow> int \<Rightarrow> string + PinInscription list \<times> string list" where
  "btc_CatchPins L getBlock height =
     (case getBlock height of
        Inl e \<Rightarrow> Inl e
      | Inr block \<Rightarrow> Inr (concat (map (\<lambda>tx. btc_catchPinsByTx L tx height (wb_Timestamp block)) (filter HasWitness (wb_Transactions block))),
                        concat (map spent_ids (wb_Transactions block))))"

definition btc_CatchMempoolPins :: "wire_lib \<Rightarrow> int \<Rightarrow> wire_tx option list \<Rightarrow> PinInscription list \<times> string list" where
  "btc_CatchMempoolPins L now txList =
     (let txs = List.map_filter id txList
      in (concat (map (\<lambda>tx. btc_catchPinsByTx L tx (- 1) now) (filter HasWitness txs)), concat (map spent_ids txs)))"

definition btc_getOwnerAddress :: "wire_lib \<Rightarrow> wire_tx \<Rightarrow> (string \<times> string) option" where
  "btc_getOwnerAddress L tx = owner_address L (wl_TxHash L tx) 0 (wt_TxOut tx)"

definition btc_CatchTransfer :: "wire_lib \<Rightarrow> wire_block option \<Rightarrow> (string \<Rightarrow> string option) \<Rightarrow> (string, transfer_info) gomap" where
  "btc_CatchTransfer L block idMap = mvc_CatchTransfer L block idMap"

definition btc_GetAddress :: "wire_lib \<Rightarrow> bytes \<Rightarrow> string" where
  "btc_GetAddress L pkScript = mvc_GetAddress L pkScript"

subsection \<open>Scripts of registry transactions\<close>

text \<open>What is used of the two script libraries: the tokenizer gives back the parts that the builder of the registry transaction was given.\<close>

definition reads_scripts :: "wire_lib \<Rightarrow> mvc_api \<Rightarrow> bool" where
  "reads_scripts L M \<longleftrightarrow> (\<forall>items script. list_all plain_item items \<longrightarrow> tx_Script M items = Some script
     \<longrightarrow> wl_Tokens L script = (map item_token items, False))"

text \<open>Bytes that a builder never replaces by an opcode, as those of any JSON text.\<close>

definition plain_bytes :: "bytes \<Rightarrow> bool" where
  "plain_bytes d \<longleftrightarrow> list_all (\<lambda>c. 16 < code c \<and> code c \<noteq> 129) d"

lemma plain_push: "plain_bytes d \<Longrightarrow> d \<noteq> [] \<Longrightarrow> length d < 2 ^ 32 \<Longrightarrow> plain_item (PushData d)"
  by (cases d) (auto simp: plain_bytes_def)

lemma plain_chunks: "plain_bytes content \<Longrightarrow> list_all plain_item (map PushData (content_chunks 0 content))"
proof -
  assume p: "plain_bytes content"
  have "plain_item (PushData c)" if c: "c \<in> set (content_chunks 0 content)" for c
  proof (rule plain_push)
    have "set c \<subseteq> set content" using c content_chunks_concat [of 0 content] by (metis UN_I drop_0 set_concat subsetI)
    then show "plain_bytes c" using p by (auto simp: plain_bytes_def list_all_iff)
    show "c \<noteq> []" "length c < 2 ^ 32" using content_chunks_size [OF c] by (simp_all add: mvcRegistryMaxPushSize_def)
  qed
  then show ?thesis by (simp add: list_all_iff)
qed

lemma metaid_hex: "hex_EncodeToString ''metaid'' = ''6d6574616964''"
  by code_simp

lemma plain_texts: "plain_bytes ''0''" "plain_bytes ''metaid''" "plain_bytes ''application/json''" "plain_bytes ''create''" "plain_bytes ''modify''" "plain_bytes ''revoke''"
  by (simp_all add: plain_bytes_def code_def)

lemma registry_script_pin:
  assumes "reads_scripts L M" and "mvcRegistryOPReturnScript M operation path version content = Inr script"
    and "operation \<in> {''create'', ''modify'', ''revoke''}" and "plain_bytes path" "path \<noteq> ''''" "length path < 2 ^ 32"
    and "plain_bytes version" "version \<noteq> ''''" "length version < 2 ^ 32" and "plain_bytes content"
    and "operation \<in> {''create'', ''modify''} \<longrightarrow> content \<noteq> []"
  shows "mvc_parseOpReturnPin U L script = Some (empty_pin\<lparr>pi_Path := ToLower U path, pi_Operation := operation,
    pi_ContentType := ''application/json'', pi_ContentBody := content\<rparr>)"
proof -
  let ?chunks = "content_chunks 0 content"
  let ?items = "[OpCode ''OP_0'', OpCode ''OP_RETURN'', PushData ''metaid'', PushData operation, PushData path, PushData ''0'',
    PushData version, PushData ''application/json''] @ map PushData ?chunks"
  have sc: "tx_Script M ?items = Some script" using assms(2) by (simp add: mvcRegistryOPReturnScript_def split: option.splits)
  have plain: "list_all plain_item ?items"
    using plain_push [OF assms(4-6)] plain_push [OF assms(7-9)] plain_chunks [OF assms(10)] assms(3) plain_texts plain_push [of operation]
    by (auto simp: plain_push code_def)
  have toks: "wl_Tokens L script = (map item_token ?items, False)" by (rule assms(1) [unfolded reads_scripts_def, rule_format, OF plain sc])
  have ne: "?chunks = [] \<longrightarrow> operation = ''revoke'' \<and> content = []" using assms(3,11) content_chunks_concat [of 0 content] by auto
  have low: "ToLower U operation = operation" "ToLower U ''application/json'' = ''application/json''"
    using assms(3) by (auto intro!: ToLower_fixed simp: code_def)
  have body: "concat (map nil_string (map (snd \<circ> (item_token \<circ> PushData)) ?chunks)) = content"
    using content_chunks_concat [of 0 content] by (simp add: comp_def nil_string_def)
  show ?thesis
    using ne assms(3) low body
    by (cases ?chunks) (auto simp: mvc_parseOpReturnPin_def toks OP_RETURN_def metaid_hex mvc_parseOpReturnFields_def nil_string_def Let_def comp_def)
qed

lemma fee_loop_scripts: "fee_loop M inputs key iv dust fr n req tx = Inr (tx', rest) \<Longrightarrow> length (tx_Out tx) = 3 \<Longrightarrow> map snd (tx_Out tx') = map snd (tx_Out tx)"
proof (induction M inputs key iv dust fr n req tx rule: fee_loop.induct)
  case (2 M inputs key iv dust fr n req tx)
  let ?c = "wrap64 (wrap64 (iv - dust) - req)"
  have ge: "\<not> ?c < dust" using 2(2) by (auto simp: Let_def split: if_splits)
  then obtain t1 where t1: "mvcRegistrySign M (set_change tx ?c) inputs key = Inr t1" using 2(2) by (auto simp: Let_def split: sum.splits)
  have o: "tx_Out t1 = (tx_Out tx)[2 := (?c, snd (tx_Out tx ! 2))]" using sign_frame(1) [OF t1] by (simp add: set_change_def)
  then have m: "map snd (tx_Out t1) = map snd (tx_Out tx)" "length (tx_Out t1) = 3" using 2(3) by (simp_all add: map_update list_update_same_conv)
  show ?case using 2(1) [OF refl ge t1 refl refl] 2(2) ge t1 m by (auto simp: Let_def split: if_splits sum.splits)
qed simp

subsection \<open>Properties\<close>

text \<open>C3: the registry transaction that this program builds is indexed by its own MVC indexer as exactly one pin: of the announcing address, with
  the operation, path and content that were announced, whatever the length of the content.\<close>

lemma registry_tx_indexed:
  assumes "BuildMVCRegistryTx U C M req = Inr r" and "reads_scripts L M" and "wt_TxOut tx = map snd (tx_Out (rs_Tx r))"
    and "wl_ExtractPkScriptAddrs L (wt_TxOut tx ! 0) = (''pubkeyhash'', [rs_Address r])" and "data_class (fst (wl_ExtractPkScriptAddrs L (wt_TxOut tx ! 1)))"
    and "mvcMetaIDTxHash L tx = Some (Inr h)" and "plain_bytes (rq_Content req)"
    and "path = (if TrimSpace (rq_Path req) = '''' then RegistryPath else TrimSpace (rq_Path req))" and "plain_bytes path" "length path < 2 ^ 32"
    and "version = (if TrimSpace (rq_Version req) = '''' then Version else TrimSpace (rq_Version req))" and "plain_bytes version" "length version < 2 ^ 32"
  shows "mvc_catchPinsByTx U L tx height timestamp = Some [own_pin ''mvc'' h height timestamp (rs_Address r, 0)
    (empty_pin\<lparr>pi_Path := ToLower U path, pi_Operation := ToLower U (TrimSpace (rq_Operation req)), pi_ContentType := ''application/json'',
      pi_ContentBody := rq_Content req\<rparr>)]"
proof -
  obtain operation ins inputs iv key ownerScript registryScript where op: "mvcRegistryOperation U (rq_Operation req) = Inr operation"
    and sc: "mvcRegistryOPReturnScript M operation path version (rq_Content req) = Inr registryScript"
    and loop: "fee_loop M inputs key iv (if rq_DustAmount req \<le> 0 then 1 else rq_DustAmount req) (rq_FeeRate req) 20 0
           \<lparr>tx_Version = 10, tx_In = ins,
            tx_Out = [(if rq_DustAmount req \<le> 0 then 1 else rq_DustAmount req, ownerScript), (0, registryScript), (0, ownerScript)]\<rparr>
         = Inr (rs_Tx r, rs_RawTx r, rs_ChangeAmount r, rs_Fee r)"
    and cont: "operation \<in> {''create'', ''modify''} \<longrightarrow> rq_Content req \<noteq> []"
    using BuildMVCRegistryTx_cases [OF assms(1), folded assms(8,11)] by metis
  have outs: "wt_TxOut tx = [ownerScript, registryScript, ownerScript]" using fee_loop_scripts [OF loop] by (simp add: assms(3))
  have o: "operation = ToLower U (TrimSpace (rq_Operation req))" "operation \<in> {''create'', ''modify'', ''revoke''}"
    using op by (auto simp: mvcRegistryOperation_def Let_def split: if_splits)
  have ne: "path \<noteq> ''''" "version \<noteq> ''''" using assms(8,11) by (auto simp: RegistryPath_def Version_def)
  note pin = registry_script_pin [OF assms(2) sc o(2) assms(9) ne(1) assms(10,12) ne(2) assms(13,7) cont, of U]
  have own: "wl_ExtractPkScriptAddrs L ownerScript = (''pubkeyhash'', [rs_Address r])" "data_class (fst (wl_ExtractPkScriptAddrs L registryScript))"
    "\<not> data_class ''pubkeyhash''" using assms(4,5) by (simp_all add: outs data_class_def)
  show ?thesis unfolding mvc_catchPinsByTx_def op_return_pins_def outs Let_def assms(6)
    by (simp add: own pin List.map_filter_simps o(1))
qed

definition demo_scripts :: wire_lib where
  "demo_scripts = demo_wire\<lparr>wl_Tokens := script_tokens, wl_ExtractPkScriptAddrs := (\<lambda>s. if length s \<le> 1 then (''pubkeyhash'', [s]) else (''nulldata'', []))\<rparr>"

lemma demo_reads_scripts: "reads_scripts demo_scripts toy_mvc"
  by (simp add: reads_scripts_def demo_scripts_def toy_mvc_def script_tokens_bytes)

theorem registry_tx_indexed_witness:
  "\<exists>r pin. BuildMVCRegistryTx (fe_U toy_env) toy_crypto toy_mvc toy_request = Inr r
     \<and> mvc_catchPinsByTx (fe_U toy_env) demo_scripts \<lparr>wt_Version = 1, wt_TxIn = [], wt_TxOut = map snd (tx_Out (rs_Tx r))\<rparr> 7 8 = Some [pin]
     \<and> pi_ContentBody pin = ''x'' \<and> pi_Id pin = ''hi0''"
proof -
  obtain r where r: "BuildMVCRegistryTx (fe_U toy_env) toy_crypto toy_mvc toy_request = Inr r" using toy_build by blast
  define tx where "tx = \<lparr>wt_Version = 1, wt_TxIn = [], wt_TxOut = map snd (tx_Out (rs_Tx r))\<rparr>"
  obtain key params ins inputs iv operation ownerScript registryScript where
    k: "mvcRegistryPrivateKeyAndParams (fe_U toy_env) toy_crypto (rq_PrivateKeyHex toy_request) (rq_Net toy_request) = Inr (key, params)"
    "mvcRegistryIdentity toy_crypto key params = (rs_Address r, rs_PublicKey r)"
    and s: "mvcRegistryOPReturnScript toy_mvc operation
           (if TrimSpace (rq_Path toy_request) = '''' then RegistryPath else TrimSpace (rq_Path toy_request))
           (if TrimSpace (rq_Version toy_request) = '''' then Version else TrimSpace (rq_Version toy_request)) (rq_Content toy_request) = Inr registryScript"
    "mvcRegistryAddressScript toy_mvc (rs_Address r) params = Inr ownerScript"
    and loop: "fee_loop toy_mvc inputs key iv (if rq_DustAmount toy_request \<le> 0 then 1 else rq_DustAmount toy_request) (rq_FeeRate toy_request) 20 0
           \<lparr>tx_Version = 10, tx_In = ins,
            tx_Out = [(if rq_DustAmount toy_request \<le> 0 then 1 else rq_DustAmount toy_request, ownerScript), (0, registryScript), (0, ownerScript)]\<rparr>
         = Inr (rs_Tx r, rs_RawTx r, rs_ChangeAmount r, rs_Fee r)"
    by (rule BuildMVCRegistryTx_cases [OF r]) (rule that; assumption)
  have t: "wt_Version tx = 1" "wt_TxOut tx = map snd (tx_Out (rs_Tx r))" by (simp_all add: tx_def)
  have outs: "wt_TxOut tx = [ownerScript, registryScript, ownerScript]" using fee_loop_scripts [OF loop] by (simp add: t)
  have "key = one_key" using k(1) by (simp add: mvcRegistryPrivateKeyAndParams_def same_key_check demo_key_parse toy_request_def split: sum.splits)
  then have a: "rs_Address r = [CHR 0x01]" using k(2) by (simp add: mvcRegistryIdentity_def toy_crypto_def one_key_def)
  have "TrimSpace [CHR 0x01] = [CHR 0x01]" by code_simp
  then have o: "ownerScript = [CHR 0x01]" using s(2) by (simp add: a mvcRegistryAddressScript_def toy_mvc_def)
  have l: "1 < length registryScript" using s(1) by (auto simp: mvcRegistryOPReturnScript_def toy_mvc_def script_bytes_def)
  have "mvc_catchPinsByTx (fe_U toy_env) demo_scripts tx 7 8 = Some [own_pin ''mvc'' ''h'' 7 8 (rs_Address r, 0)
    (empty_pin\<lparr>pi_Path := ToLower (fe_U toy_env) RegistryPath, pi_Operation := ToLower (fe_U toy_env) (TrimSpace (rq_Operation toy_request)),
      pi_ContentType := ''application/json'', pi_ContentBody := rq_Content toy_request\<rparr>)]"
    by (rule registry_tx_indexed [OF r demo_reads_scripts t(2) _ _ _ _ _ _ _ refl])
      (use l in \<open>simp_all add: outs o a t(1) demo_scripts_def demo_wire_def data_class_def mvcMetaIDTxHash_def toy_request_def plain_bytes_def code_def
        RegistryPath_def Version_def\<close>)
  moreover have "Itoa 0 = ''0''" by code_simp
  ultimately show ?thesis using r unfolding tx_def by (intro exI conjI) (assumption | simp add: own_pin_def toy_request_def)+
qed

text \<open>On Bitcoin the data of one inscription is reported once for every output with a script of at least six bytes, as separate pins with
  different IDs.\<close>

lemma btc_pin_per_output:
  assumes "ws = wi_Witness (hd (wt_TxIn tx))" and "4 \<le> length ws" and "marker_index 0 ws = Some d" and "d + 2 < length ws"
  shows "map (\<lambda>p. (pi_Id p, pi_Operation p, pi_Path p)) (btc_catchPinsByTx L tx height timestamp)
    = map (\<lambda>i. (wl_TxHash L tx @ '':i'' @ Itoa (int i), ws ! (d + 1), ws ! (d + 2))) (filter (\<lambda>i. 6 \<le> length (wt_TxOut tx ! i)) [0..<length (wt_TxOut tx)])"
proof -
  let ?outs = "wt_TxOut tx"
  have "map fst (filter (\<lambda>(i, out). out \<noteq> [] \<and> isMetaIDOutput out) (enumerate 0 os)) = filter (\<lambda>i. 6 \<le> length (os ! i)) [0..<length os]" for os
    by (induction os rule: rev_induct) (auto simp: enumerate_append_eq isMetaIDOutput_def nth_append intro!: filter_cong)
  note idx = this [of ?outs]
  have one: "\<exists>p. btc_parseMetaIDWitness L tx i height timestamp h = Some p \<and> pi_Id p = h @ '':i'' @ Itoa (int i) \<and> pi_Operation p = ws ! (d + 1) \<and> pi_Path p = ws ! (d + 2)"
    for i h using assms by (simp add: btc_parseMetaIDWitness_def witness_pin_def Let_def)
  have "map (\<lambda>p. (pi_Id p, pi_Operation p, pi_Path p)) (List.map_filter (\<lambda>i. btc_parseMetaIDWitness L tx i height timestamp h) is1)
      = map (\<lambda>i. (h @ '':i'' @ Itoa (int i), ws ! (d + 1), ws ! (d + 2))) is1" for h and is1
  proof (induction is1)
    case (Cons i is1)
    then show ?case using one [of i h] by (auto simp: List.map_filter_simps)
  qed (simp add: List.map_filter_simps)
  then show ?thesis by (simp add: btc_catchPinsByTx_def witness_pins_def idx)
qed

theorem btc_pin_per_output_witness:
  "map (\<lambda>p. (pi_Id p, pi_Operation p, pi_Path p))
     (btc_catchPinsByTx demo_wire \<lparr>wt_Version = 2, wt_TxIn = [\<lparr>wi_Hash = ''t'', wi_Index = 0, wi_Witness = [''metaid'', ''create'', ''/path'', ''0'']\<rparr>],
        wt_TxOut = [''script1'', ''script2'']\<rparr> 7 8) = [(''h:i0'', ''create'', ''/path''), (''h:i1'', ''create'', ''/path'')]"
proof -
  let ?tx = "\<lparr>wt_Version = 2, wt_TxIn = [\<lparr>wi_Hash = ''t'', wi_Index = 0, wi_Witness = [''metaid'', ''create'', ''/path'', ''0'']\<rparr>],
    wt_TxOut = [''script1'', ''script2'']\<rparr>"
  have i: "Itoa 0 = ''0''" "Itoa 1 = ''1''" by code_simp+
  have r: "[0..<2] = [0, 1 :: nat]" by (simp add: numeral_2_eq_2)
  show ?thesis using btc_pin_per_output [of "[''metaid'', ''create'', ''/path'', ''0'']" ?tx 0 demo_wire 7 8]
    by (simp add: demo_wire_def i r)
qed

end
