(* ===== verification/StoreDelete.thy ===== *)
theory StoreDelete
  imports Storage
begin

text \<open>
  Deletion, as the modules that delete rely on it. \<open>PebbleStore\<close> opens a database on the first read, write or scan of its namespace; \<open>Delete\<close> and
  \<open>DeleteByPrefix\<close> act only on databases that are open. The locale \<open>kv_deleting\<close> adds this to \<open>kv_reliable\<close>; \<open>pebble_full\<close>, a Pebble on which no
  call fails, gives it, and the in-memory database interprets it.
\<close>

locale kv_deleting = kv_reliable K loc content inv
  for K :: "'s kv_api" and loc content inv +
  fixes opened :: "'s \<Rightarrow> string \<Rightarrow> bool"
    and dbp :: "string \<Rightarrow> bytes \<Rightarrow> 's \<Rightarrow> db_error option \<times> 's"
  assumes get_opens: "inv s \<Longrightarrow> opened (snd (kv_Get K ns k s)) ns' \<longleftrightarrow> ns' = ns \<or> opened s ns'"
    and set_opens: "inv s \<Longrightarrow> opened (snd (kv_Set K ns k v s)) ns' \<longleftrightarrow> ns' = ns \<or> opened s ns'"
    and scan_opens: "inv s \<Longrightarrow> opened (snd (kv_Scan K ns p s)) ns' \<longleftrightarrow> ns' = ns \<or> opened s ns'"
    and delete_opened: "inv s \<Longrightarrow> opened s ns \<Longrightarrow> \<exists>s'. kv_Delete K ns k s = (None, s') \<and> inv s' \<and> opened s' = opened s
      \<and> content s' = (content s)(loc ns := (content s (loc ns))(k := None))"
    and delete_closed: "inv s \<Longrightarrow> \<not> opened s ns \<Longrightarrow> kv_Delete K ns k s = (None, s)"
    and dbp_opened: "inv s \<Longrightarrow> opened s ns \<Longrightarrow> \<exists>s'. dbp ns p s = (None, s') \<and> inv s' \<and> opened s' = opened s
      \<and> content s' = (content s)(loc ns := content s (loc ns) |` {k. \<not> prefix p k})"
    and dbp_closed: "inv s \<Longrightarrow> \<not> opened s ns \<Longrightarrow> dbp ns p s = (None, s)"
begin

lemma Delete_eq:
  assumes "inv s" and "opened s ns"
  obtains s' where "kv_Delete K ns k s = (None, s')" and "inv s'" and "opened s' = opened s"
    and "content s' = (content s)(loc ns := (content s (loc ns))(k := None))"
  using delete_opened [OF assms] by metis

text \<open>Whether or not the namespace is open, a deletion leaves the invariant and all other keys.\<close>

lemma Delete_any:
  assumes "inv s"
  obtains s' where "kv_Delete K ns k s = (None, s')" and "inv s'" and "opened s' = opened s"
    and "content s' = (content s)(loc ns := (content s (loc ns))(k := None)) \<or> \<not> opened s ns \<and> content s' = content s"
  using delete_opened [OF assms] delete_closed [OF assms] assms by (metis (no_types))

lemma dbp_any:
  assumes "inv s"
  obtains s' where "dbp ns p s = (None, s')" and "inv s'" and "opened s' = opened s"
    and "content s' = (content s)(loc ns := content s (loc ns) |` {k. \<not> prefix p k}) \<or> \<not> opened s ns \<and> content s' = content s"
  using dbp_opened [OF assms] dbp_closed [OF assms] assms by (metis (no_types))

end

locale pebble_full = pebble_up +
  assumes delete_up: "live w h \<Longrightarrow> fst (pb_Delete P h k w) = None"
    and batch_up: "live w h \<Longrightarrow> pb_BatchDelete P h k w = None"
    and commit_up: "live w h \<Longrightarrow> fst (pb_Commit P h ks w) = None"
begin

lemma OpenDB_opened:
  assumes "PebbleStore_OpenDB P ns st = (Inr h, st')"
  shows "PebbleStore_GetDB ns' st' \<noteq> None \<longleftrightarrow> ns' = ns \<or> PebbleStore_GetDB ns' st \<noteq> None"
  using assms by (cases st) (auto simp: PebbleStore_GetDB_def Let_def split: option.splits prod.splits sum.splits)

lemma Delete_opened:
  assumes "store_inv path_of live d st" and "PebbleStore_GetDB ns st \<noteq> None"
  shows "\<exists>w'. PebbleStore_Delete P ns k st = (None, (fst st, w'))"
proof -
  obtain h where h: "gm_get (ps_dbs (fst st)) ns = Some h" using assms(2) by (auto simp: PebbleStore_GetDB_def)
  have "live (snd st) h" using assms(1) h by (simp add: store_inv_def)
  from delete_up [OF this, of k] h show ?thesis
    by (auto simp: PebbleStore_Delete_def PebbleStore_GetDB_def Let_def split: prod.split)
qed

lemma DeleteByPrefix_opened:
  assumes "store_inv path_of live d st" and "PebbleStore_GetDB ns st \<noteq> None"
  shows "\<exists>w'. PebbleStore_DeleteByPrefix P ns p st = (None, (fst st, w'))"
proof -
  obtain h where h: "gm_get (ps_dbs (fst st)) ns = Some h" using assms(2) by (auto simp: PebbleStore_GetDB_def)
  have l: "live (snd st) h" using assms(1) h by (simp add: store_inv_def)
  obtain kvs where kvs: "pb_NewIter P h p (prefixUpperBound p) (snd st) = Inr kvs" using iter_up [OF l] by blast
  have "find (\<lambda>e. e \<noteq> None) (map (\<lambda>(k, v). pb_BatchDelete P h k (snd st)) kvs) = None"
    by (auto simp: find_None_iff batch_up [OF l])
  then show ?thesis using commit_up [OF l, of "map fst kvs"] h kvs
    by (auto simp: PebbleStore_DeleteByPrefix_def PebbleStore_GetDB_def Let_def split: prod.split)
qed

end

sublocale pebble_full \<subseteq> kvd: kv_deleting "PebbleStore_kv P" "filepath_Join d" "\<lambda>st. disk (snd st)" "store_inv path_of live d"
  "\<lambda>st ns. PebbleStore_GetDB ns st \<noteq> None" "PebbleStore_DeleteByPrefix P"
proof
  fix st ns k v p ns'
  assume inv: "store_inv path_of live d st"
  obtain h s w where o: "PebbleStore_OpenDB P ns st = (Inr h, (s, w))" and h: "live w h" by (rule OpenDB_up_obtain [OF inv])
  note op = OpenDB_opened [OF o, of ns']
  have same: "PebbleStore_GetDB ns' (s, w') = PebbleStore_GetDB ns' (s, w)" for w' by (simp add: PebbleStore_GetDB_def)
  show "(PebbleStore_GetDB ns' (snd (kv_Get (PebbleStore_kv P) ns k st)) \<noteq> None) = (ns' = ns \<or> PebbleStore_GetDB ns' st \<noteq> None)"
    using op by (simp add: PebbleStore_kv_def PebbleStore_Get_def o)
  show "(PebbleStore_GetDB ns' (snd (kv_Set (PebbleStore_kv P) ns k v st)) \<noteq> None) = (ns' = ns \<or> PebbleStore_GetDB ns' st \<noteq> None)"
    using op same [of "snd (pb_Set P h k v w)"] by (simp add: PebbleStore_kv_def PebbleStore_Set_def o Let_def split_def)
  show "(PebbleStore_GetDB ns' (snd (kv_Scan (PebbleStore_kv P) ns p st)) \<noteq> None) = (ns' = ns \<or> PebbleStore_GetDB ns' st \<noteq> None)"
    using op iter_up [OF h, of p "prefixUpperBound p"]
    by (auto simp: PebbleStore_kv_def PebbleStore_ScanPrefix_def o kv_Scan_collect)
  show "kv_Delete (PebbleStore_kv P) ns k st = (None, st)" if "\<not> PebbleStore_GetDB ns st \<noteq> None"
    using that by (simp add: PebbleStore_kv_def PebbleStore_Delete_def)
  show "PebbleStore_DeleteByPrefix P ns p st = (None, st)" if "\<not> PebbleStore_GetDB ns st \<noteq> None"
    using that by (simp add: PebbleStore_DeleteByPrefix_def)
  assume g: "PebbleStore_GetDB ns st \<noteq> None"
  obtain w1 where 1: "PebbleStore_Delete P ns k st = (None, (fst st, w1))" using Delete_opened [OF inv g] by blast
  show "\<exists>st'. kv_Delete (PebbleStore_kv P) ns k st = (None, st') \<and> store_inv path_of live d st'
      \<and> (\<lambda>ns. PebbleStore_GetDB ns st' \<noteq> None) = (\<lambda>ns. PebbleStore_GetDB ns st \<noteq> None)
      \<and> disk (snd st') = (disk (snd st))(filepath_Join d ns := (disk (snd st) (filepath_Join d ns))(k := None))"
    using 1 Delete_ok [OF inv 1] g by (auto simp: PebbleStore_kv_def PebbleStore_GetDB_def)
  obtain w2 where 2: "PebbleStore_DeleteByPrefix P ns p st = (None, (fst st, w2))" using DeleteByPrefix_opened [OF inv g] by blast
  show "\<exists>st'. PebbleStore_DeleteByPrefix P ns p st = (None, st') \<and> store_inv path_of live d st'
      \<and> (\<lambda>ns. PebbleStore_GetDB ns st' \<noteq> None) = (\<lambda>ns. PebbleStore_GetDB ns st \<noteq> None)
      \<and> disk (snd st') = (disk (snd st))(filepath_Join d ns := disk (snd st) (filepath_Join d ns) |` {k. \<not> prefix p k})"
    using 2 DeleteByPrefix_ok [OF inv 2] g by (auto simp: PebbleStore_GetDB_def)
qed

interpretation memd: pebble_full mem_pebble "\<lambda>h. h" mem_disk "\<lambda>w h. True" d for d
  by unfold_locales (simp_all add: mem_pebble_def)

end
