(* ===== verification/Cache.thy ===== *)
theory Cache
  imports StoreDelete
begin

text \<open>
  The two-level cache, \<open>internal/cache/cache.go\<close>: an in-memory LRU cache with expiry (\<open>hashicorp/golang-lru\<close>, a parameter) in front of a namespace of
  the key-value store. The locale \<open>lru_cache\<close> states what the code relies on of the LRU cache: it gives back only what was added last and may
  forget anything at any time. The program only uses caches of byte strings, so values are \<open>bytes\<close>. A nil \<open>raw\<close> does not occur with \<open>PebbleStore\<close>.

  A \<open>Cache\<close> handle is the name of its namespace; the provider keeps the namespaces of all handles.
\<close>

record 'l lru_api =
  lru_New :: "int \<Rightarrow> int \<Rightarrow> 'l"
  lru_Get :: "string \<Rightarrow> 'l \<Rightarrow> bytes option \<times> 'l"
  lru_Add :: "string \<Rightarrow> bytes \<Rightarrow> 'l \<Rightarrow> 'l"
  lru_Remove :: "string \<Rightarrow> 'l \<Rightarrow> 'l"
  lru_Purge :: "'l \<Rightarrow> 'l"

record 'l namespaceCache =
  nc_l1 :: 'l
  nc_l2Prefix :: string

text \<open>What a provider is built on: the LRU implementation, the store and its deletion by prefix.\<close>

record ('l, 's) cache_env =
  ce_L :: "'l lru_api"
  ce_K :: "'s kv_api"
  ce_DeleteByPrefix :: "string \<Rightarrow> bytes \<Rightarrow> 's \<Rightarrow> db_error option \<times> 's"

type_synonym ('l, 's) CacheProvider = "(string, 'l namespaceCache) gomap \<times> 's"

definition cache_ns :: "string \<Rightarrow> string" where
  "cache_ns name = ''cache_'' @ name"

definition CacheProvider_New :: "'s \<Rightarrow> ('l, 's) CacheProvider" where
  "CacheProvider_New s = ([], s)"

definition CacheProvider_Namespace :: "('l, 's) cache_env \<Rightarrow> string \<Rightarrow> int \<Rightarrow> int \<Rightarrow> ('l, 's) CacheProvider \<Rightarrow> ('l, 's) CacheProvider" where
  "CacheProvider_Namespace C name maxEntries ttl cp =
     (case gm_get (fst cp) name of
        Some ns \<Rightarrow> cp
      | None \<Rightarrow> (gm_set (fst cp) name \<lparr>nc_l1 = lru_New (ce_L C) maxEntries ttl, nc_l2Prefix = cache_ns name\<rparr>, snd cp))"

text \<open>An operation on a handle whose namespace exists; \<open>upd\<close> changes the LRU cache of the namespace.\<close>

definition upd_l1 :: "('l \<Rightarrow> 'l) \<Rightarrow> string \<Rightarrow> (string, 'l namespaceCache) gomap \<Rightarrow> (string, 'l namespaceCache) gomap" where
  "upd_l1 f name m = (case gm_get m name of None \<Rightarrow> m | Some ns \<Rightarrow> gm_set m name (ns\<lparr>nc_l1 := f (nc_l1 ns)\<rparr>))"

definition l2_ns :: "string \<Rightarrow> (string, 'l namespaceCache) gomap \<Rightarrow> string" where
  "l2_ns name m = (case gm_get m name of None \<Rightarrow> '''' | Some ns \<Rightarrow> nc_l2Prefix ns)"

definition l1_get :: "'l lru_api \<Rightarrow> string \<Rightarrow> string \<Rightarrow> (string, 'l namespaceCache) gomap \<Rightarrow> bytes option" where
  "l1_get L name key m = (case gm_get m name of None \<Rightarrow> None | Some ns \<Rightarrow> fst (lru_Get L key (nc_l1 ns)))"

definition Cache_Get :: "('l, 's) cache_env \<Rightarrow> string \<Rightarrow> string \<Rightarrow> ('l, 's) CacheProvider \<Rightarrow> bytes option \<times> ('l, 's) CacheProvider" where
  "Cache_Get C name key cp =
     (let (m, s) = cp; m1 = upd_l1 (\<lambda>l. snd (lru_Get (ce_L C) key l)) name m
      in case l1_get (ce_L C) name key m of
           Some val \<Rightarrow> (Some val, (m1, s))
         | None \<Rightarrow>
             (case kv_Get (ce_K C) (l2_ns name m) key s of
                (Inl e, s1) \<Rightarrow> (None, (m1, s1))
              | (Inr raw, s1) \<Rightarrow> (Some raw, (upd_l1 (lru_Add (ce_L C) key raw) name m1, s1))))"

definition Cache_Set :: "('l, 's) cache_env \<Rightarrow> string \<Rightarrow> string \<Rightarrow> bytes \<Rightarrow> ('l, 's) CacheProvider \<Rightarrow> db_error option \<times> ('l, 's) CacheProvider" where
  "Cache_Set C name key v cp =
     (let (m, s) = cp; m1 = upd_l1 (lru_Add (ce_L C) key v) name m; (e, s1) = kv_Set (ce_K C) (l2_ns name m) key v s in (e, (m1, s1)))"

definition Cache_Delete :: "('l, 's) cache_env \<Rightarrow> string \<Rightarrow> string \<Rightarrow> ('l, 's) CacheProvider \<Rightarrow> db_error option \<times> ('l, 's) CacheProvider" where
  "Cache_Delete C name key cp =
     (let (m, s) = cp; m1 = upd_l1 (lru_Remove (ce_L C) key) name m; (e, s1) = kv_Delete (ce_K C) (l2_ns name m) key s in (e, (m1, s1)))"

definition Cache_InvalidateByPrefix :: "('l, 's) cache_env \<Rightarrow> string \<Rightarrow> string \<Rightarrow> ('l, 's) CacheProvider \<Rightarrow> db_error option \<times> ('l, 's) CacheProvider" where
  "Cache_InvalidateByPrefix C name p cp =
     (let (m, s) = cp; m1 = upd_l1 (lru_Purge (ce_L C)) name m; (e, s1) = ce_DeleteByPrefix C (l2_ns name m) p s in (e, (m1, s1)))"

fun Cache_Warmup :: "('l, 's) cache_env \<Rightarrow> string \<Rightarrow> string list \<Rightarrow> ('l, 's) CacheProvider \<Rightarrow> ('l, 's) CacheProvider" where
  "Cache_Warmup C name [] cp = cp"
| "Cache_Warmup C name (key # keys) (m, s) =
     (case kv_Get (ce_K C) (l2_ns name m) key s of
        (Inl e, s1) \<Rightarrow> Cache_Warmup C name keys (m, s1)
      | (Inr raw, s1) \<Rightarrow> Cache_Warmup C name keys (upd_l1 (lru_Add (ce_L C) key raw) name m, s1))"

subsection \<open>The first level never contradicts the second\<close>

lemma map_le_Some: "m \<subseteq>\<^sub>m c \<Longrightarrow> m k = Some v \<Longrightarrow> c k = Some v"
  by (metis domI map_le_def)

locale lru_cache =
  fixes L :: "'l lru_api"
    and view :: "'l \<Rightarrow> string \<Rightarrow> bytes option"
  assumes new_view: "view (lru_New L n ttl) = Map.empty"
    and get_view: "lru_Get L k l = (r, l') \<Longrightarrow> view l' \<subseteq>\<^sub>m view l \<and> (r = None \<or> r = view l k)"
    and add_view: "view (lru_Add L k v l) \<subseteq>\<^sub>m (view l)(k \<mapsto> v)"
    and remove_view: "view (lru_Remove L k l) \<subseteq>\<^sub>m (view l)(k := None)"
    and purge_view: "view (lru_Purge L l) = Map.empty"

locale two_level = lru_cache L view + kv_deleting K loc content inv opened dbp
  for L :: "'l lru_api" and view and K :: "'s kv_api" and loc content inv opened dbp +
  fixes C :: "('l, 's) cache_env" and names :: "string set"
  assumes env: "ce_L C = L" "ce_K C = K" "ce_DeleteByPrefix C = dbp"
    and apart: "n \<in> names \<Longrightarrow> n' \<in> names \<Longrightarrow> loc (cache_ns n) = loc (cache_ns n') \<Longrightarrow> n = n'"
begin

text \<open>Every value in memory is the value in the database.\<close>

definition coherent :: "('l, 's) CacheProvider \<Rightarrow> bool" where
  "coherent cp \<longleftrightarrow> inv (snd cp) \<and> (\<forall>n ns. gm_get (fst cp) n = Some ns \<longrightarrow> n \<in> names \<and> nc_l2Prefix ns = cache_ns n
     \<and> view (nc_l1 ns) \<subseteq>\<^sub>m content (snd cp) (loc (cache_ns n)))"

abbreviation l2 :: "('l, 's) CacheProvider \<Rightarrow> string \<Rightarrow> bytes \<Rightarrow> bytes option" where
  "l2 cp n \<equiv> content (snd cp) (loc (cache_ns n))"

lemma coherent_new: "inv s \<Longrightarrow> coherent (CacheProvider_New s)"
  by (simp add: coherent_def CacheProvider_New_def)

lemma coherent_namespace: "coherent cp \<Longrightarrow> name \<in> names \<Longrightarrow> coherent (CacheProvider_Namespace C name n ttl cp)"
  by (auto simp: coherent_def CacheProvider_Namespace_def env new_view split: option.split)

text \<open>A step that replaces the first level of \<open>name\<close> and the database of \<open>name\<close> together.\<close>

lemma coherent_step:
  assumes co: "coherent (m, s)" and inv: "inv s'"
    and ns: "gm_get m name = Some ns" and v: "view (f (nc_l1 ns)) \<subseteq>\<^sub>m c'"
    and c: "content s' = (content s)(loc (cache_ns name) := c')"
  shows "coherent (upd_l1 f name m, s')"
proof -
  have "view (nc_l1 ns') \<subseteq>\<^sub>m content s' (loc (cache_ns n))" if "gm_get m n = Some ns'" "n \<noteq> name" for n ns'
  proof -
    have "loc (cache_ns n) \<noteq> loc (cache_ns name)" using co that ns apart by (auto simp: coherent_def)
    then show ?thesis using co that c by (simp add: coherent_def)
  qed
  then show ?thesis using co inv ns v c by (auto simp: coherent_def upd_l1_def)
qed

lemma coherent_same:
  assumes "coherent (m, s)" and "inv s'" and "gm_get m name = Some ns" and "view (f (nc_l1 ns)) \<subseteq>\<^sub>m l2 (m, s) name" and "content s' = content s"
  shows "coherent (upd_l1 f name m, s')"
  using coherent_step [OF assms(1-3), of f, OF assms(4)] assms(5) by simp

lemma l1_le: "coherent (m, s) \<Longrightarrow> gm_get m name = Some ns \<Longrightarrow> view (nc_l1 ns) \<subseteq>\<^sub>m l2 (m, s) name"
  by (simp add: coherent_def)

lemma l2_name: "coherent (m, s) \<Longrightarrow> gm_get m name = Some ns \<Longrightarrow> l2_ns name m = cache_ns name"
  by (simp add: coherent_def l2_ns_def)

lemma upd_get [simp]: "gm_get m name = Some ns \<Longrightarrow> gm_get (upd_l1 f name m) name = Some (ns\<lparr>nc_l1 := f (nc_l1 ns)\<rparr>)"
  by (simp add: upd_l1_def)

lemma upd_twice: "gm_get m name = Some ns \<Longrightarrow> gm_get (upd_l1 f name m) n = (if n = name then Some (ns\<lparr>nc_l1 := f (nc_l1 ns)\<rparr>) else gm_get m n)"
  by (simp add: upd_l1_def)

lemma add_le: "view l \<subseteq>\<^sub>m c \<Longrightarrow> c k = Some v \<Longrightarrow> view (lru_Add L k v l) \<subseteq>\<^sub>m c"
  by (rule map_le_trans [OF add_view]) (auto simp: map_le_def)

lemma Get_cached:
  assumes co: "coherent cp" and ns: "gm_get (fst cp) name = Some ns"
  obtains cp' where "Cache_Get C name key cp = (l2 cp name key, cp')" and "coherent cp'" and "content (snd cp') = content (snd cp)"
    and "\<forall>n. gm_get (fst cp') n = None \<longleftrightarrow> gm_get (fst cp) n = None"
proof -
  obtain m s where cp: "cp = (m, s)" by force
  note co' = co [unfolded cp] and ns' = ns [unfolded cp fst_conv]
  obtain r l where g: "lru_Get L key (nc_l1 ns) = (r, l)" by force
  note gv = get_view [OF g]
  let ?m1 = "upd_l1 (\<lambda>l. snd (lru_Get L key l)) name m"
  have i: "inv s" using co' by (simp add: coherent_def)
  have v1: "view (snd (lru_Get L key (nc_l1 ns))) \<subseteq>\<^sub>m l2 (m, s) name" using gv l1_le [OF co' ns'] by (auto simp: g intro: map_le_trans)
  show thesis
  proof (cases r)
    case (Some v)
    then have "l2 (m, s) name key = Some v" using gv map_le_Some [OF l1_le [OF co' ns'], of key v] by simp
    then have "Cache_Get C name key cp = (l2 cp name key, (?m1, s))"
      using Some ns' g by (simp add: Cache_Get_def cp env l1_get_def Let_def)
    then show thesis by (rule that [of "(?m1, s)"]) (use coherent_same [OF co' i ns', of "\<lambda>l. snd (lru_Get L key l)", OF v1] ns' in \<open>auto simp: cp upd_twice\<close>)
  next
    case None
    obtain s1 where k: "kv_Get K (cache_ns name) key s = (case l2 (m, s) name key of None \<Rightarrow> Inl ErrNotFound | Some v \<Rightarrow> Inr v, s1)"
        "inv s1" "content s1 = content s" by (rule Get_eq [OF i, of "cache_ns name" key]) simp
    note step1 = coherent_same [OF co' k(2) ns', of "\<lambda>l. snd (lru_Get L key l)", OF v1 k(3)]
    show thesis
    proof (cases "l2 (m, s) name key")
      case None': None
      have "Cache_Get C name key cp = (l2 cp name key, (?m1, s1))"
        using None None' ns' g k(1) by (simp add: Cache_Get_def cp env l1_get_def Let_def l2_name [OF co' ns'])
      then show thesis by (rule that [of "(?m1, s1)"]) (use step1 k(3) ns' in \<open>auto simp: cp upd_twice\<close>)
    next
      case (Some v)
      let ?m2 = "upd_l1 (lru_Add L key v) name ?m1"
      have "Cache_Get C name key cp = (l2 cp name key, (?m2, s1))"
        using None Some ns' g k(1) by (simp add: Cache_Get_def cp env l1_get_def Let_def l2_name [OF co' ns'])
      moreover have "coherent (?m2, s1)"
        by (rule coherent_same [OF step1 k(2) upd_get [OF ns']]) (use Some k(3) v1 in \<open>auto intro: add_le\<close>)
      ultimately show thesis by (rule that [of "(?m2, s1)"]) (use k(3) ns' in \<open>auto simp: cp upd_twice\<close>)
    qed
  qed
qed

lemma Set_cached:
  assumes co: "coherent cp" and ns: "gm_get (fst cp) name = Some ns"
  obtains cp' where "Cache_Set C name key v cp = (None, cp')" and "coherent cp'"
    and "content (snd cp') = (content (snd cp))(loc (cache_ns name) := (l2 cp name)(key \<mapsto> v))"
    and "\<forall>n. gm_get (fst cp') n = None \<longleftrightarrow> gm_get (fst cp) n = None"
proof -
  obtain m s where cp: "cp = (m, s)" by force
  note co' = co [unfolded cp] and ns' = ns [unfolded cp fst_conv]
  have i: "inv s" using co' by (simp add: coherent_def)
  obtain s1 where k: "kv_Set K (cache_ns name) key v s = (None, s1)" "inv s1"
      "content s1 = (content s)(loc (cache_ns name) := (l2 (m, s) name)(key \<mapsto> v))"
    using Set_eq [OF i, of "cache_ns name" key v] by auto
  have "view (lru_Add L key v (nc_l1 ns)) \<subseteq>\<^sub>m (l2 (m, s) name)(key \<mapsto> v)"
    by (rule map_le_trans [OF add_view]) (rule map_le_upd [OF l1_le [OF co' ns']])
  note c = coherent_step [OF co' k(2) ns', of "lru_Add L key v", OF this k(3)]
  have "Cache_Set C name key v cp = (None, (upd_l1 (lru_Add L key v) name m, s1))"
    using k(1) by (simp add: Cache_Set_def cp env l2_name [OF co' ns'])
  then show thesis by (rule that) (use c k(3) ns' in \<open>auto simp: cp upd_twice\<close>)
qed

text \<open>A deletion whose namespace is not open leaves the database alone, but then nothing was cached by this process.\<close>

lemma coherent_removed:
  assumes co: "coherent (m, s)" and ns: "gm_get m name = Some ns" and i: "inv s1" and v: "view (f (nc_l1 ns)) \<subseteq>\<^sub>m view (nc_l1 ns) |` S"
    and c: "content s1 = (content s)(loc (cache_ns name) := l2 (m, s) name |` S) \<or> content s1 = content s"
  shows "coherent (upd_l1 f name m, s1)"
  using c
proof
  assume c': "content s1 = (content s)(loc (cache_ns name) := l2 (m, s) name |` S)"
  have "view (nc_l1 ns) |` S \<subseteq>\<^sub>m l2 (m, s) name |` S" using l1_le [OF co ns] by (force simp: map_le_def restrict_map_def split: if_splits)
  from coherent_step [OF co i ns, of f, OF map_le_trans [OF v this] c'] show ?thesis .
next
  assume "content s1 = content s"
  moreover have "view (f (nc_l1 ns)) \<subseteq>\<^sub>m l2 (m, s) name"
    by (rule map_le_trans [OF map_le_trans [OF v] l1_le [OF co ns]]) (auto simp: map_le_def restrict_map_def)
  ultimately show ?thesis using coherent_same [OF co i ns, of f] by blast
qed

lemma Delete_cached:
  assumes co: "coherent cp" and ns: "gm_get (fst cp) name = Some ns"
  obtains cp' where "Cache_Delete C name key cp = (None, cp')" and "coherent cp'"
    and "opened (snd cp) (cache_ns name) \<longrightarrow> content (snd cp') = (content (snd cp))(loc (cache_ns name) := (l2 cp name)(key := None))"
    and "\<forall>n. gm_get (fst cp') n = None \<longleftrightarrow> gm_get (fst cp) n = None"
proof -
  obtain m s where cp: "cp = (m, s)" by force
  note co' = co [unfolded cp] and ns' = ns [unfolded cp fst_conv]
  have i: "inv s" using co' by (simp add: coherent_def)
  have r: "c(key := None) = c |` (- {key})" for c :: "bytes \<Rightarrow> bytes option" by (auto simp: restrict_map_def)
  obtain s1 where k: "kv_Delete K (cache_ns name) key s = (None, s1)" "inv s1"
      "content s1 = (content s)(loc (cache_ns name) := (l2 (m, s) name)(key := None)) \<or> \<not> opened s (cache_ns name) \<and> content s1 = content s"
    using Delete_any [OF i, of "cache_ns name" key] by auto
  have c: "coherent (upd_l1 (lru_Remove L key) name m, s1)"
    by (rule coherent_removed [OF co' ns' k(2), of _ "- {key}"]) (use remove_view [of key "nc_l1 ns"] k(3) in \<open>auto simp: r\<close>)
  have "Cache_Delete C name key cp = (None, (upd_l1 (lru_Remove L key) name m, s1))"
    using k(1) by (simp add: Cache_Delete_def cp env l2_name [OF co' ns'])
  then show thesis by (rule that) (use c k(3) ns' in \<open>auto simp: cp upd_twice\<close>)
qed

lemma Invalidate_cached:
  assumes co: "coherent cp" and ns: "gm_get (fst cp) name = Some ns"
  obtains cp' where "Cache_InvalidateByPrefix C name p cp = (None, cp')" and "coherent cp'"
    and "opened (snd cp) (cache_ns name) \<longrightarrow> content (snd cp') = (content (snd cp))(loc (cache_ns name) := l2 cp name |` {k. \<not> prefix p k})"
    and "\<forall>n. gm_get (fst cp') n = None \<longleftrightarrow> gm_get (fst cp) n = None"
proof -
  obtain m s where cp: "cp = (m, s)" by force
  note co' = co [unfolded cp] and ns' = ns [unfolded cp fst_conv]
  have i: "inv s" using co' by (simp add: coherent_def)
  obtain s1 where k: "dbp (cache_ns name) p s = (None, s1)" "inv s1"
      "content s1 = (content s)(loc (cache_ns name) := l2 (m, s) name |` {k. \<not> prefix p k}) \<or> \<not> opened s (cache_ns name) \<and> content s1 = content s"
    using dbp_any [OF i, of "cache_ns name" p] by auto
  have c: "coherent (upd_l1 (lru_Purge L) name m, s1)"
    by (rule coherent_removed [OF co' ns' k(2), of _ "{k. \<not> prefix p k}"]) (use purge_view k(3) in auto)
  have "Cache_InvalidateByPrefix C name p cp = (None, (upd_l1 (lru_Purge L) name m, s1))"
    using k(1) by (simp add: Cache_InvalidateByPrefix_def cp env l2_name [OF co' ns'])
  then show thesis by (rule that) (use c k(3) ns' in \<open>auto simp: cp upd_twice\<close>)
qed

lemma Warmup_cached:
  "coherent cp \<Longrightarrow> gm_get (fst cp) name \<noteq> None
    \<Longrightarrow> coherent (Cache_Warmup C name keys cp) \<and> (\<forall>n. gm_get (fst (Cache_Warmup C name keys cp)) n = None \<longleftrightarrow> gm_get (fst cp) n = None)"
proof (induction keys arbitrary: cp)
  case (Cons key keys)
  obtain m s where cp: "cp = (m, s)" by force
  obtain ns where ns: "gm_get m name = Some ns" using Cons.prems(2) by (auto simp: cp)
  note co = Cons.prems(1) [unfolded cp]
  have i: "inv s" using co by (simp add: coherent_def)
  obtain s1 where k: "kv_Get K (cache_ns name) key s = (case l2 (m, s) name key of None \<Rightarrow> Inl ErrNotFound | Some v \<Rightarrow> Inr v, s1)"
      "inv s1" "content s1 = content s" by (rule Get_eq [OF i, of "cache_ns name" key]) simp
  show ?case
  proof (cases "l2 (m, s) name key")
    case None
    have "coherent (m, s1)" using co k(2,3) by (simp add: coherent_def)
    then show ?thesis using Cons.IH [of "(m, s1)"] None k(1) ns by (simp add: cp env l2_name [OF co ns])
  next
    case (Some v)
    note c = coherent_same [OF co k(2) ns, of "lru_Add L key v", OF add_le [OF l1_le [OF co ns] Some] k(3)]
    show ?thesis using Cons.IH [OF c] Some k(1) ns by (simp add: cp env l2_name [OF co ns] upd_twice)
  qed
qed simp

end

subsection \<open>Sequences of operations\<close>

datatype cache_op =
    CNamespace string int int
  | CGet string string
  | CSet string string bytes
  | CDelete string string
  | CInvalidate string string
  | CWarmup string "string list"

fun cache_step :: "('l, 's) cache_env \<Rightarrow> ('l, 's) CacheProvider \<Rightarrow> cache_op \<Rightarrow> ('l, 's) CacheProvider" where
  "cache_step C cp (CNamespace name n ttl) = CacheProvider_Namespace C name n ttl cp"
| "cache_step C cp (CGet name key) = snd (Cache_Get C name key cp)"
| "cache_step C cp (CSet name key v) = snd (Cache_Set C name key v cp)"
| "cache_step C cp (CDelete name key) = snd (Cache_Delete C name key cp)"
| "cache_step C cp (CInvalidate name p) = snd (Cache_InvalidateByPrefix C name p cp)"
| "cache_step C cp (CWarmup name keys) = Cache_Warmup C name keys cp"

fun op_name :: "cache_op \<Rightarrow> string" where
  "op_name (CNamespace name n ttl) = name"
| "op_name (CGet name key) = name"
| "op_name (CSet name key v) = name"
| "op_name (CDelete name key) = name"
| "op_name (CInvalidate name p) = name"
| "op_name (CWarmup name keys) = name"

text \<open>A sequence of operations as a program can do them: a handle is obtained from \<open>Namespace\<close> before it is used.\<close>

fun handles_ok :: "string list \<Rightarrow> cache_op list \<Rightarrow> bool" where
  "handles_ok hs [] = True"
| "handles_ok hs (CNamespace name n ttl # ops) = handles_ok (name # hs) ops"
| "handles_ok hs (op # ops) = (op_name op \<in> set hs \<and> handles_ok hs ops)"

context two_level
begin

lemma step_coherent:
  assumes "coherent cp" and "op_name op \<in> names" and "(\<exists>n ttl. op = CNamespace (op_name op) n ttl) \<or> gm_get (fst cp) (op_name op) \<noteq> None"
  shows "coherent (cache_step C cp op) \<and> (gm_get (fst cp) n \<noteq> None \<longrightarrow> gm_get (fst (cache_step C cp op)) n \<noteq> None)
    \<and> gm_get (fst (cache_step C cp op)) (op_name op) \<noteq> None"
proof (cases "\<exists>n ttl. op = CNamespace (op_name op) n ttl")
  case True
  then obtain n' ttl where "op = CNamespace (op_name op) n' ttl" by blast
  then have "cache_step C cp op = CacheProvider_Namespace C (op_name op) n' ttl cp" by (metis cache_step.simps(1))
  then show ?thesis using coherent_namespace [OF assms(1,2)] by (auto simp: CacheProvider_Namespace_def split: option.split)
next
  case False
  then obtain ns where ns: "gm_get (fst cp) (op_name op) = Some ns" using assms(3) by auto
  show ?thesis
  proof (cases op)
    case (CGet name key)
    then have ns': "gm_get (fst cp) name = Some ns" using ns by simp
    obtain cp' where "Cache_Get C name key cp = (l2 cp name key, cp')" "coherent cp'" "content (snd cp') = content (snd cp)"
        "\<forall>n. gm_get (fst cp') n = None \<longleftrightarrow> gm_get (fst cp) n = None"
      by (rule Get_cached [OF assms(1) ns'])
    then show ?thesis using ns' CGet by simp
  next
    case (CSet name key v)
    then have ns': "gm_get (fst cp) name = Some ns" using ns by simp
    obtain cp' where "Cache_Set C name key v cp = (None, cp')" "coherent cp'"
        "content (snd cp') = (content (snd cp))(loc (cache_ns name) := (l2 cp name)(key \<mapsto> v))" "\<forall>n. gm_get (fst cp') n = None \<longleftrightarrow> gm_get (fst cp) n = None"
      by (rule Set_cached [OF assms(1) ns'])
    then show ?thesis using ns' CSet by simp
  next
    case (CDelete name key)
    then have ns': "gm_get (fst cp) name = Some ns" using ns by simp
    obtain cp' where "Cache_Delete C name key cp = (None, cp')" "coherent cp'"
        "opened (snd cp) (cache_ns name) \<longrightarrow> content (snd cp') = (content (snd cp))(loc (cache_ns name) := (l2 cp name)(key := None))" "\<forall>n. gm_get (fst cp') n = None \<longleftrightarrow> gm_get (fst cp) n = None"
      by (rule Delete_cached [OF assms(1) ns'])
    then show ?thesis using ns' CDelete by simp
  next
    case (CInvalidate name p)
    then have ns': "gm_get (fst cp) name = Some ns" using ns by simp
    obtain cp' where "Cache_InvalidateByPrefix C name p cp = (None, cp')" "coherent cp'"
        "opened (snd cp) (cache_ns name) \<longrightarrow> content (snd cp') = (content (snd cp))(loc (cache_ns name) := l2 cp name |` {k. \<not> prefix p k})" "\<forall>n. gm_get (fst cp') n = None \<longleftrightarrow> gm_get (fst cp) n = None"
      by (rule Invalidate_cached [OF assms(1) ns'])
    then show ?thesis using ns' CInvalidate by simp
  next
    case (CWarmup name keys)
    then show ?thesis using ns Warmup_cached [OF assms(1), of name keys] by auto
  qed (use False in auto)
qed

lemma run_coherent:
  "coherent cp \<Longrightarrow> handles_ok hs ops \<Longrightarrow> op_name ` set ops \<subseteq> names \<Longrightarrow> (\<And>h. h \<in> set hs \<Longrightarrow> gm_get (fst cp) h \<noteq> None)
    \<Longrightarrow> coherent (foldl (cache_step C) cp ops)"
proof (induction ops arbitrary: cp hs)
  case (Cons op ops)
  have h: "(\<exists>n ttl. op = CNamespace (op_name op) n ttl) \<or> gm_get (fst cp) (op_name op) \<noteq> None"
    using Cons.prems(2,4) by (cases op) auto
  have n: "op_name op \<in> names" using Cons.prems(3) by simp
  note st = step_coherent [OF Cons.prems(1) n h]
  obtain hs' where hs': "handles_ok hs' ops" "set hs' \<subseteq> insert (op_name op) (set hs)" using Cons.prems(2) by (cases op) auto
  show ?case unfolding foldl_Cons
  proof (rule Cons.IH [OF _ hs'(1)])
    show "gm_get (fst (cache_step C cp op)) h \<noteq> None" if "h \<in> set hs'" for h using that hs'(2) st [of h] Cons.prems(4) by auto
  qed (use st Cons.prems(3) in auto)
qed simp

end

subsection \<open>A map as the first level\<close>

definition map_lru :: "(string, bytes) gomap lru_api" where
  "map_lru = \<lparr>lru_New = (\<lambda>n ttl. []), lru_Get = (\<lambda>k l. (gm_get l k, l)), lru_Add = (\<lambda>k v l. gm_set l k v), lru_Remove = (\<lambda>k l. gm_delete l k),
     lru_Purge = (\<lambda>l. [])\<rparr>"

definition demo_cache :: "((string, bytes) gomap, (mem_world, string) store_state) cache_env" where
  "demo_cache = \<lparr>ce_L = map_lru, ce_K = PebbleStore_kv mem_pebble, ce_DeleteByPrefix = PebbleStore_DeleteByPrefix mem_pebble\<rparr>"

interpretation map_lru: lru_cache map_lru gm_get
  by unfold_locales (auto simp: map_lru_def fun_eq_iff map_le_def)

interpretation demo_cache: two_level map_lru gm_get "PebbleStore_kv mem_pebble" "filepath_Join ''data''" "\<lambda>st. mem_disk (snd st)"
  "store_inv (\<lambda>h. h) (\<lambda>w h. True) ''data''" "\<lambda>st ns. PebbleStore_GetDB ns st \<noteq> None" "PebbleStore_DeleteByPrefix mem_pebble" demo_cache "{''userinfo''}"
  by (intro two_level.intro map_lru.lru_cache_axioms memd.kvd.kv_deleting_axioms two_level_axioms.intro) (simp_all add: demo_cache_def)

subsection \<open>Properties\<close>



end
