(* ===== verification/BlockList.thy ===== *)
theory BlockList
  imports Cache GroupStore ChainRaw
begin

text \<open>
  Blocked chats, \<open>internal/aggregator/notify/module.go\<close>: the list of chats a user blocked, kept in the store under the user's identity and changed through
  the HTTP API. Requests arrive decoded (\<open>None\<close> when the body does not decode); \<open>c.GetInt64("timestamp")\<close>, which nothing sets, is an argument.
  The state is the provider of the caches, which holds the store.
\<close>

record BlockedChat =
  bc_ChatID :: string
  bc_ChatType :: string
  bc_MetaID :: string
  bc_Reason :: string

record UserBlockedChats =
  ub_UserID :: string
  ub_BlockedChats :: "BlockedChat list"
  ub_UpdatedAt :: int

record ('l, 's) notify_env =
  nv_cache :: "('l, 's) cache_env"
  nv_codec :: "UserBlockedChats codec"
  nv_pubKey :: string

definition notify_ns :: string where "notify_ns = ''notify''"

definition blockedKey :: "string \<Rightarrow> bytes" where "blockedKey metaID = ''blocked:'' @ metaID"

text \<open>A read that fails counts as no list; a list that does not decode is an error.\<close>

definition getBlockedChats :: "('l, 's) notify_env \<Rightarrow> string \<Rightarrow> ('l, 's) CacheProvider \<Rightarrow> (string + UserBlockedChats option) \<times> ('l, 's) CacheProvider" where
  "getBlockedChats A metaID cp =
     (case kv_Get (ce_K (nv_cache A)) notify_ns (blockedKey metaID) (snd cp) of
        (Inl e, s1) \<Rightarrow> (Inr None, (fst cp, s1))
      | (Inr raw, s1) \<Rightarrow> (case cd_Unmarshal (nv_codec A) raw of None \<Rightarrow> (Inl ''decode error'', (fst cp, s1)) | Some b \<Rightarrow> (Inr (Some b), (fst cp, s1))))"

definition saveBlockedChats :: "('l, 's) notify_env \<Rightarrow> UserBlockedChats \<Rightarrow> ('l, 's) CacheProvider \<Rightarrow> string option \<times> ('l, 's) CacheProvider" where
  "saveBlockedChats A blocked cp =
     (let (e, s1) = save_json (ce_K (nv_cache A)) notify_ns (nv_codec A) (blockedKey (ub_UserID blocked)) blocked (snd cp) in (e, (fst cp, s1)))"

definition verifySignature :: "string \<Rightarrow> string \<Rightarrow> string \<Rightarrow> bool" where
  "verifySignature configured signature pubKey =
     (if configured = '''' then True
      else if signature = '''' \<or> pubKey = '''' then False
      else if pubKey \<noteq> configured then False
      else signature = hex_EncodeToString (sha256Bytes ''metaso.network''))"

definition new_list :: "string \<Rightarrow> UserBlockedChats" where
  "new_list metaID = \<lparr>ub_UserID = metaID, ub_BlockedChats = [], ub_UpdatedAt = 0\<rparr>"

definition handleGetBlockedChats ::
    "('l, 's) notify_env \<Rightarrow> string option \<Rightarrow> ('l, 's) CacheProvider \<Rightarrow> UserBlockedChats api_answer \<times> ('l, 's) CacheProvider" where
  "handleGetBlockedChats A metaIdQ cp =
     (let metaID = DefaultQuery '''' metaIdQ
      in if metaID = '''' then (RespErr 1 ''metaId is required'', cp)
         else case getBlockedChats A metaID cp of
           (Inl e, cp1) \<Rightarrow> (RespErr 1 ''failed to get blocked chats'', cp1)
         | (Inr None, cp1) \<Rightarrow> (RespSuccess (new_list metaID), cp1)
         | (Inr (Some blocked), cp1) \<Rightarrow> (RespSuccess blocked, cp1))"

text \<open>Saving, then dropping the cached entry.\<close>

definition save_answer :: "('l, 's) notify_env \<Rightarrow> string \<Rightarrow> UserBlockedChats \<Rightarrow> ('l, 's) CacheProvider \<Rightarrow> UserBlockedChats api_answer \<times> ('l, 's) CacheProvider" where
  "save_answer A metaID blocked cp =
     (case saveBlockedChats A blocked cp of
        (Some e, cp1) \<Rightarrow> (RespErr 1 ''failed to save'', cp1)
      | (None, cp1) \<Rightarrow> (RespSuccess blocked, snd (Cache_Delete (nv_cache A) notify_ns (''blocked:'' @ metaID) cp1)))"

definition handleAddBlockedChat ::
    "('l, 's) notify_env \<Rightarrow> BlockedChat option \<Rightarrow> string \<Rightarrow> string \<Rightarrow> int \<Rightarrow> ('l, 's) CacheProvider \<Rightarrow> UserBlockedChats api_answer \<times> ('l, 's) CacheProvider" where
  "handleAddBlockedChat A body signature pubKey ts cp =
     (case body of
        None \<Rightarrow> (RespErr 1 ''invalid request body'', cp)
      | Some req \<Rightarrow>
          (if bc_ChatID req = '''' \<or> bc_MetaID req = '''' then (RespErr 1 ''chatId and metaId are required'', cp)
           else if \<not> verifySignature (nv_pubKey A) signature pubKey then (RespErr 403 ''signature verification failed'', cp)
           else
             (let (b0, cp1) = no_err (getBlockedChats A (bc_MetaID req) cp);
                  blocked = (case b0 of None \<Rightarrow> new_list (bc_MetaID req) | Some b \<Rightarrow> b)
              in if list_ex (\<lambda>bc. bc_ChatID bc = bc_ChatID req \<and> bc_ChatType bc = bc_ChatType req) (ub_BlockedChats blocked) then (RespSuccess blocked, cp1)
                 else save_answer A (bc_MetaID req) (blocked\<lparr>ub_BlockedChats := ub_BlockedChats blocked @ [req], ub_UpdatedAt := ts\<rparr>) cp1)))"

definition handleRemoveBlockedChat ::
    "('l, 's) notify_env \<Rightarrow> (string \<times> string) option \<Rightarrow> string \<Rightarrow> string \<Rightarrow> int \<Rightarrow> ('l, 's) CacheProvider \<Rightarrow> UserBlockedChats api_answer \<times> ('l, 's) CacheProvider" where
  "handleRemoveBlockedChat A body signature pubKey ts cp =
     (case body of
        None \<Rightarrow> (RespErr 1 ''invalid request body'', cp)
      | Some (chatID, metaID) \<Rightarrow>
          (if \<not> verifySignature (nv_pubKey A) signature pubKey then (RespErr 403 ''signature verification failed'', cp)
           else case no_err (getBlockedChats A metaID cp) of
             (None, cp1) \<Rightarrow> (RespSuccess (new_list metaID), cp1)
           | (Some blocked, cp1) \<Rightarrow>
               save_answer A metaID (blocked\<lparr>ub_BlockedChats := filter (\<lambda>bc. bc_ChatID bc \<noteq> chatID) (ub_BlockedChats blocked), ub_UpdatedAt := ts\<rparr>) cp1))"

subsection \<open>Requests change exactly the list of their user\<close>

datatype block_request = BAdd BlockedChat | BRemove string string

definition blocked_step :: "('l, 's) notify_env \<Rightarrow> ('l, 's) CacheProvider \<Rightarrow> block_request \<times> string \<times> string \<times> int \<Rightarrow> ('l, 's) CacheProvider" where
  "blocked_step A cp r =
     (case r of
        (BAdd req, signature, pubKey, ts) \<Rightarrow> snd (handleAddBlockedChat A (Some req) signature pubKey ts cp)
      | (BRemove chatID metaID, signature, pubKey, ts) \<Rightarrow> snd (handleRemoveBlockedChat A (Some (chatID, metaID)) signature pubKey ts cp))"

text \<open>What a request does to the blocked chats of a user, as pairs of chat and type in the order they were blocked.\<close>

definition block_effect :: "string \<Rightarrow> string \<Rightarrow> (string \<times> string) list \<Rightarrow> block_request \<times> string \<times> string \<times> int \<Rightarrow> (string \<times> string) list" where
  "block_effect configured u l r =
     (case r of
        (BAdd req, signature, pubKey, ts) \<Rightarrow>
          (if bc_MetaID req \<noteq> u \<or> bc_ChatID req = '''' \<or> u = '''' \<or> \<not> verifySignature configured signature pubKey then l
           else if (bc_ChatID req, bc_ChatType req) \<in> set l then l else l @ [(bc_ChatID req, bc_ChatType req)])
      | (BRemove chatID metaID, signature, pubKey, ts) \<Rightarrow>
          (if metaID \<noteq> u \<or> \<not> verifySignature configured signature pubKey then l else filter (\<lambda>c. fst c \<noteq> chatID) l))"

text \<open>The module on a reliable store, with a cache in another database and a codec that reads what it wrote.\<close>

locale block_store = kv_deleting K loc content inv opened dbp
  for K :: "'s kv_api" and loc content inv opened dbp +
  fixes A :: "('l, 's) notify_env"
  assumes env: "ce_K (nv_cache A) = K"
    and codec: "\<exists>raw. cd_Marshal (nv_codec A) b = Inr raw \<and> cd_Unmarshal (nv_codec A) raw = Some b"
    and apart: "loc (cache_ns notify_ns) \<noteq> loc notify_ns"
begin

definition blocked_of :: "'s \<Rightarrow> string \<Rightarrow> UserBlockedChats" where
  "blocked_of s u = (case content s (loc notify_ns) (blockedKey u) of None \<Rightarrow> new_list u | Some raw \<Rightarrow> the (cd_Unmarshal (nv_codec A) raw))"

text \<open>The caches keep their data in other databases, and every stored list decodes and is the list of its user.\<close>

definition lists_ok :: "('l, 's) CacheProvider \<Rightarrow> bool" where
  "lists_ok cp \<longleftrightarrow> inv (snd cp) \<and> l2_ns notify_ns (fst cp) = cache_ns notify_ns
     \<and> (\<forall>u raw. content (snd cp) (loc notify_ns) (blockedKey u) = Some raw \<longrightarrow> (\<exists>b. cd_Unmarshal (nv_codec A) raw = Some b \<and> ub_UserID b = u))"

abbreviation chats :: "('l, 's) CacheProvider \<Rightarrow> string \<Rightarrow> (string \<times> string) list" where
  "chats cp u \<equiv> map (\<lambda>bc. (bc_ChatID bc, bc_ChatType bc)) (ub_BlockedChats (blocked_of (snd cp) u))"

lemma blocked_user: "lists_ok cp \<Longrightarrow> ub_UserID (blocked_of (snd cp) u) = u"
  by (cases "content (snd cp) (loc notify_ns) (blockedKey u)") (force simp: lists_ok_def blocked_of_def new_list_def)+

lemma get_ok:
  assumes "lists_ok cp"
  obtains cp' where "no_err (getBlockedChats A u cp) = (case content (snd cp) (loc notify_ns) (blockedKey u) of None \<Rightarrow> None | Some raw \<Rightarrow> Some (blocked_of (snd cp) u), cp')"
    and "getBlockedChats A u cp = (Inr (case content (snd cp) (loc notify_ns) (blockedKey u) of None \<Rightarrow> None | Some raw \<Rightarrow> Some (blocked_of (snd cp) u)), cp')"
    and "lists_ok cp'" and "content (snd cp') = content (snd cp)"
proof -
  obtain s1 where k: "kv_Get K notify_ns (blockedKey u) (snd cp)
      = (case content (snd cp) (loc notify_ns) (blockedKey u) of None \<Rightarrow> Inl ErrNotFound | Some v \<Rightarrow> Inr v, s1)" "inv s1" "content s1 = content (snd cp)"
    using assms by (elim Get_eq [rotated]) (auto simp: lists_ok_def)
  have "lists_ok (fst cp, s1)" using assms k(2,3) by (simp add: lists_ok_def)
  moreover have "cd_Unmarshal (nv_codec A) raw = Some (blocked_of (snd cp) u)" if "content (snd cp) (loc notify_ns) (blockedKey u) = Some raw" for raw
    using assms that by (force simp: lists_ok_def blocked_of_def)
  ultimately show thesis using k that [of "(fst cp, s1)"]
    by (cases "content (snd cp) (loc notify_ns) (blockedKey u)") (auto simp: getBlockedChats_def env no_err_def)
qed

lemma save_ok:
  assumes "lists_ok cp" and "ub_UserID b = u"
  shows "lists_ok (snd (save_answer A u b cp))" and "blocked_of (snd (snd (save_answer A u b cp))) v = (if v = u then b else blocked_of (snd cp) v)"
proof -
  obtain raw where raw: "cd_Marshal (nv_codec A) b = Inr raw" "cd_Unmarshal (nv_codec A) raw = Some b" using codec by blast
  have i: "inv (snd cp)" using assms(1) by (simp add: lists_ok_def)
  obtain s1 where k: "kv_Set K notify_ns (blockedKey u) raw (snd cp) = (None, s1)" "inv s1"
      "content s1 = (content (snd cp))(loc notify_ns := (content (snd cp) (loc notify_ns))(blockedKey u \<mapsto> raw))"
    by (rule Set_eq [OF i])
  let ?n = notify_ns
  have n: "l2_ns notify_ns (fst cp) = cache_ns ?n" using assms(1) by (auto simp: lists_ok_def)
  obtain s2 where d: "kv_Delete K (cache_ns ?n) (''blocked:'' @ u) s1 = (None, s2)" "inv s2"
      "content s2 = (content s1)(loc (cache_ns ?n) := (content s1 (loc (cache_ns ?n)))(''blocked:'' @ u := None)) \<or> \<not> opened s1 (cache_ns ?n) \<and> content s2 = content s1"
    using Delete_any [OF k(2), of "cache_ns ?n" "''blocked:'' @ u"] by auto
  let ?m = "upd_l1 (lru_Remove (ce_L (nv_cache A)) (''blocked:'' @ u)) notify_ns (fst cp)"
  have e: "snd (save_answer A u b cp) = (?m, s2)"
    using raw(1) k(1) d(1) assms(2) n by (simp add: save_answer_def saveBlockedChats_def save_json_def env Cache_Delete_def Let_def split_def)
  have c: "content s2 (loc notify_ns) = (content (snd cp) (loc notify_ns))(blockedKey u \<mapsto> raw)" using d(3) k(3) apart by auto
  have m: "l2_ns notify_ns ?m = cache_ns ?n" using n by (auto simp: l2_ns_def upd_l1_def split: option.splits)
  have key: "blockedKey v = blockedKey u \<longleftrightarrow> v = u" for v by (simp add: blockedKey_def)
  show "lists_ok (snd (save_answer A u b cp))" unfolding e using assms d(2) c m raw(2) key by (auto simp: lists_ok_def)
  show "blocked_of (snd (snd (save_answer A u b cp))) v = (if v = u then b else blocked_of (snd cp) v)"
    unfolding e using c raw(2) key by (simp add: blocked_of_def)
qed

lemma step_ok:
  assumes "lists_ok cp"
  shows "lists_ok (blocked_step A cp r) \<and> chats (blocked_step A cp r) u = block_effect (nv_pubKey A) u (chats cp u) r"
proof -
  obtain q signature pubKey ts where r: "r = (q, signature, pubKey, ts)" by (metis prod_cases4)
  have eq: "blocked_of s' v = blocked_of s v" if "content s' = content s" for s s' v using that by (simp add: blocked_of_def)
  have fresh: "content (snd cp) (loc notify_ns) (blockedKey v) = None \<Longrightarrow> blocked_of (snd cp) v = new_list v" for v by (simp add: blocked_of_def)
  show ?thesis
  proof (cases q)
    case (BAdd req)
    let ?v = "bc_MetaID req"
    show ?thesis
    proof (cases "bc_ChatID req = '''' \<or> ?v = '''' \<or> \<not> verifySignature (nv_pubKey A) signature pubKey")
      case True
      then have "blocked_step A cp r = cp" by (auto simp: r BAdd blocked_step_def handleAddBlockedChat_def)
      then show ?thesis using assms True by (auto simp: r BAdd block_effect_def)
    next
      case False
      obtain cp1 where g: "no_err (getBlockedChats A ?v cp) = (case content (snd cp) (loc notify_ns) (blockedKey ?v) of None \<Rightarrow> None | Some raw \<Rightarrow> Some (blocked_of (snd cp) ?v), cp1)"
        "lists_ok cp1" "content (snd cp1) = content (snd cp)" by (rule get_ok [OF assms, of ?v]) simp
      let ?b = "blocked_of (snd cp1) ?v"
      let ?b' = "?b\<lparr>ub_BlockedChats := ub_BlockedChats ?b @ [req], ub_UpdatedAt := ts\<rparr>"
      have u: "ub_UserID ?b' = ?v" using blocked_user [OF g(2)] by simp
      have dup: "list_ex (\<lambda>bc. bc_ChatID bc = x \<and> bc_ChatType bc = y) l \<longleftrightarrow> (x, y) \<in> set (map (\<lambda>bc. (bc_ChatID bc, bc_ChatType bc)) l)" for x y l
        by (auto simp: list_ex_iff image_iff)
      have "blocked_step A cp r = (if (bc_ChatID req, bc_ChatType req) \<in> set (chats cp ?v) then cp1 else snd (save_answer A ?v ?b' cp1))"
        using False g(1) fresh [of ?v] eq [OF g(3), of ?v] by (cases "content (snd cp) (loc notify_ns) (blockedKey ?v)")
          (auto simp: r BAdd blocked_step_def handleAddBlockedChat_def dup Let_def)
      then show ?thesis using False g(2) eq [OF g(3)] save_ok [OF g(2) u] by (auto simp: r BAdd block_effect_def)
    qed
  next
    case (BRemove chatID v)
    show ?thesis
    proof (cases "verifySignature (nv_pubKey A) signature pubKey")
      case False
      then have "blocked_step A cp r = cp" by (auto simp: r BRemove blocked_step_def handleRemoveBlockedChat_def)
      then show ?thesis using assms False by (auto simp: r BRemove block_effect_def)
    next
      case True
      obtain cp1 where g: "no_err (getBlockedChats A v cp) = (case content (snd cp) (loc notify_ns) (blockedKey v) of None \<Rightarrow> None | Some raw \<Rightarrow> Some (blocked_of (snd cp) v), cp1)"
        "lists_ok cp1" "content (snd cp1) = content (snd cp)" by (rule get_ok [OF assms, of v]) simp
      let ?b = "blocked_of (snd cp1) v"
      let ?b' = "?b\<lparr>ub_BlockedChats := filter (\<lambda>bc. bc_ChatID bc \<noteq> chatID) (ub_BlockedChats ?b), ub_UpdatedAt := ts\<rparr>"
      have u: "ub_UserID ?b' = v" using blocked_user [OF g(2)] by simp
      show ?thesis
      proof (cases "content (snd cp) (loc notify_ns) (blockedKey v)")
        case None
        then have "blocked_step A cp r = cp1" using True g(1) by (simp add: r BRemove blocked_step_def handleRemoveBlockedChat_def)
        then show ?thesis using g(2) eq [OF g(3)] fresh [OF None] by (auto simp: r BRemove block_effect_def new_list_def)
      next
        case (Some raw)
        then have "blocked_step A cp r = snd (save_answer A v ?b' cp1)"
          using True g(1) eq [OF g(3), of v] by (simp add: r BRemove blocked_step_def handleRemoveBlockedChat_def)
        then show ?thesis using True eq [OF g(3)] save_ok [OF g(2) u] by (auto simp: r BRemove block_effect_def filter_map comp_def)
      qed
    qed
  qed
qed

lemma run_ok:
  "lists_ok cp \<Longrightarrow> lists_ok (foldl (blocked_step A) cp rs) \<and> chats (foldl (blocked_step A) cp rs) u = foldl (block_effect (nv_pubKey A) u) (chats cp u) rs"
proof (induction rs arbitrary: cp)
  case (Cons r rs)
  from step_ok [OF Cons.prems, of r u] Cons.IH [of "blocked_step A cp r"] show ?case by simp
qed simp

end

subsection \<open>The module on the memory store\<close>

definition put_chat :: "BlockedChat \<Rightarrow> bytes" where
  "put_chat c = put_str (bc_ChatID c) @ put_str (bc_ChatType c) @ put_str (bc_MetaID c) @ put_str (bc_Reason c)"

definition get_chat :: "bytes \<Rightarrow> BlockedChat \<times> bytes" where
  "get_chat b = (let (i, b1) = get_str b; (t, b2) = get_str b1; (m, b3) = get_str b2; (r, b4) = get_str b3
     in (\<lparr>bc_ChatID = i, bc_ChatType = t, bc_MetaID = m, bc_Reason = r\<rparr>, b4))"

primrec get_chats :: "nat \<Rightarrow> bytes \<Rightarrow> BlockedChat list" where
  "get_chats 0 b = []"
| "get_chats (Suc n) b = (let (c, b1) = get_chat b in c # get_chats n b1)"

definition demo_list_codec :: "UserBlockedChats codec" where
  "demo_list_codec =
     \<lparr>cd_Marshal = (\<lambda>b. Inr (put_str (ub_UserID b) @ put_str (replicate (nat (ub_UpdatedAt b)) CHR ''+'') @ put_str (replicate (nat (- ub_UpdatedAt b)) CHR ''-'')
         @ put_str (replicate (length (ub_BlockedChats b)) CHR ''n'') @ concat (map put_chat (ub_BlockedChats b)))),
      cd_Unmarshal = (\<lambda>raw. let (u, r1) = get_str raw; (p, r2) = get_str r1; (q, r3) = get_str r2; (n, r4) = get_str r3
         in Some \<lparr>ub_UserID = u, ub_BlockedChats = get_chats (length n) r4, ub_UpdatedAt = int (length p) - int (length q)\<rparr>)\<rparr>"

lemma get_chats_put: "get_chats (length cs) (concat (map put_chat cs) @ r) = cs"
  by (induction cs) (simp_all add: put_chat_def get_chat_def Let_def)

lemma demo_list_roundtrip: "\<exists>raw. cd_Marshal demo_list_codec b = Inr raw \<and> cd_Unmarshal demo_list_codec raw = Some b"
  using get_chats_put [of "ub_BlockedChats b" "[]"] by (simp add: demo_list_codec_def Let_def)

definition demo_notify :: "((string, bytes) gomap, (mem_world, string) store_state) notify_env" where
  "demo_notify = \<lparr>nv_cache = demo_cache, nv_codec = demo_list_codec, nv_pubKey = ''''\<rparr>"

interpretation demo_notify: block_store "PebbleStore_kv mem_pebble" "filepath_Join ''data''" "\<lambda>st. mem_disk (snd st)"
  "store_inv (\<lambda>h. h) (\<lambda>w h. True) ''data''" "\<lambda>st ns. PebbleStore_GetDB ns st \<noteq> None" "PebbleStore_DeleteByPrefix mem_pebble" demo_notify
proof (intro block_store.intro memd.kvd.kv_deleting_axioms block_store_axioms.intro)
  show "filepath_Join ''data'' (cache_ns notify_ns) \<noteq> filepath_Join ''data'' notify_ns" by code_simp
qed (simp_all add: demo_notify_def demo_cache_def demo_list_roundtrip)

definition demo_notify_state :: "((string, bytes) gomap, (mem_world, string) store_state) CacheProvider" where
  "demo_notify_state = CacheProvider_Namespace demo_cache notify_ns 1000 300 (CacheProvider_New (NewPebbleStore ''data'', \<lambda>_. []))"

lemma demo_notify_ok: "demo_notify.lists_ok demo_notify_state"
  unfolding demo_notify.lists_ok_def
proof (intro conjI allI impI)
  show "store_inv (\<lambda>h. h) (\<lambda>w h. True) ''data'' (snd demo_notify_state)"
    by (simp add: demo_notify_state_def CacheProvider_Namespace_def CacheProvider_New_def mem.inv_new)
  show "l2_ns notify_ns (fst demo_notify_state) = cache_ns notify_ns"
    by (simp add: demo_notify_state_def CacheProvider_Namespace_def CacheProvider_New_def l2_ns_def gm_get_def)
qed (simp add: demo_notify_state_def CacheProvider_Namespace_def CacheProvider_New_def mem_disk_def)

subsection \<open>Properties\<close>

text \<open>C22: after any sequence of add and remove requests a user's list holds exactly the chats that the accepted requests of that user blocked and did not
  unblock since, each pair of chat and type once, in the order of blocking; requests of other users and requests with a wrong signature change
  nothing. Adding keeps one entry per pair of chat and type, removing drops the chat whatever its type.\<close>

lemma blocked_chats_tracked:
  assumes "block_store K loc content ok opened dbp A" and "block_store.lists_ok loc content ok A cp" and "u \<noteq> ''''"
    and "cp' = foldl (blocked_step A) cp rs"
    and "fst (handleGetBlockedChats A (Some u) cp) = Answer 0 b"
  shows "\<exists>b'. fst (handleGetBlockedChats A (Some u) cp') = Answer 0 b'
    \<and> map (\<lambda>bc. (bc_ChatID bc, bc_ChatType bc)) (ub_BlockedChats b')
      = foldl (block_effect (nv_pubKey A) u) (map (\<lambda>bc. (bc_ChatID bc, bc_ChatType bc)) (ub_BlockedChats b)) rs"
proof -
  have get: "fst (handleGetBlockedChats A (Some u) c) = Answer 0 (block_store.blocked_of loc content A (snd c) u)"
    if c: "block_store.lists_ok loc content ok A c" for c
  proof -
    obtain c1 where "getBlockedChats A u c = (Inr (case content (snd c) (loc notify_ns) (blockedKey u) of None \<Rightarrow> None
        | Some raw \<Rightarrow> Some (block_store.blocked_of loc content A (snd c) u)), c1)" by (rule block_store.get_ok [OF assms(1) c, of u])
    then show ?thesis using assms(3)
      by (auto simp: handleGetBlockedChats_def DefaultQuery_def RespSuccess_def block_store.blocked_of_def [OF assms(1)] split: option.splits)
  qed
  note run = block_store.run_ok [OF assms(1,2), of rs u, folded assms(4)]
  show ?thesis using get [OF assms(2)] get [OF conjunct1 [OF run]] run assms(5) by simp
qed

theorem blocked_chats_tracked_witness:
  "\<exists>b'. fst (handleGetBlockedChats demo_notify (Some ''alice'') (foldl (blocked_step demo_notify) demo_notify_state
       [(BAdd \<lparr>bc_ChatID = ''g'', bc_ChatType = ''group'', bc_MetaID = ''alice'', bc_Reason = ''''\<rparr>, '''', '''', 0),
        (BAdd \<lparr>bc_ChatID = ''bob'', bc_ChatType = ''private'', bc_MetaID = ''alice'', bc_Reason = ''''\<rparr>, '''', '''', 0), (BRemove ''g'' ''alice'', '''', '''', 0)])) = Answer 0 b'
    \<and> map (\<lambda>bc. (bc_ChatID bc, bc_ChatType bc)) (ub_BlockedChats b') = [(''bob'', ''private'')]"
proof -
  let ?rs = "[(BAdd \<lparr>bc_ChatID = ''g'', bc_ChatType = ''group'', bc_MetaID = ''alice'', bc_Reason = ''''\<rparr>, '''', '''', 0),
    (BAdd \<lparr>bc_ChatID = ''bob'', bc_ChatType = ''private'', bc_MetaID = ''alice'', bc_Reason = ''''\<rparr>, '''', '''', 0), (BRemove ''g'' ''alice'', '''', '''', 0)]"
  have g: "fst (handleGetBlockedChats demo_notify (Some ''alice'') demo_notify_state) = Answer 0 (new_list ''alice'')" by code_simp
  have e: "foldl (block_effect (nv_pubKey demo_notify) ''alice'') (map (\<lambda>bc. (bc_ChatID bc, bc_ChatType bc)) (ub_BlockedChats (new_list ''alice''))) ?rs
    = [(''bob'', ''private'')]"
    by (simp add: block_effect_def demo_notify_def verifySignature_def new_list_def)
  show ?thesis using blocked_chats_tracked [OF demo_notify.block_store_axioms demo_notify_ok _ refl g, of ?rs] unfolding e by simp
qed

end
