(* ===== verification/PubContent.thy ===== *)
theory PubContent
  imports Converter StoreDelete GroupStore
begin

text \<open>
  Published content, \<open>internal/aggregator/publishedcontent\<close>: records of buzzes, apps and skills that users publish, with create, modify and revoke pins
  (\<open>process.go\<close>), their storage with one index per identity of the publisher (\<open>db.go\<close>), lists (\<open>list.go\<close>), and the replay of blocks (\<open>replay.go\<close>).

  A record keeps the JSON object of its payload without looking into it, so the type of these objects is the parameter \<open>'j\<close>; \<open>encoding/json\<close> is a
  codec and a decoder of objects. Indexes sort the newest record first by the bitwise complement of its time, in sixteen hexadecimal digits.
\<close>

subsection \<open>Records\<close>

definition PathSimpleBuzz :: string where "PathSimpleBuzz = ''/protocols/simplebuzz''"

definition PathMetaApp :: string where "PathMetaApp = ''/protocols/metaapp''"

definition PathMetaBotSkill :: string where "PathMetaBotSkill = ''/protocols/metabot-skill''"

definition pub_ns :: string where "pub_ns = ''publishedcontent''"

record 'j Record =
  rc_SourcePinId :: string
  rc_CurrentPinId :: string
  rc_ChainName :: string
  rc_ProtocolPath :: string
  rc_PublisherGlobalMetaId :: string
  rc_PublisherMetaId :: string
  rc_PublisherAddress :: string
  rc_Operation :: string
  rc_Hidden :: bool
  rc_IsMempool :: bool
  rc_ContentType :: string
  rc_PayloadText :: string
  rc_PayloadJSON :: "'j option"
  rc_PayloadExposed :: bool
  rc_CreatedAt :: int
  rc_UpdatedAt :: int
  rc_SourceNumber :: int
  rc_CurrentNumber :: int
  rc_SourcePath :: string
  rc_CurrentPath :: string
  rc_SourceHost :: string
  rc_CurrentHost :: string

record ('s, 'j) pub_env =
  pu_U :: unicode
  pu_B :: base58
  pu_K :: "'s kv_api"
  pu_codec :: "'j Record codec"
  pu_object :: "bytes \<Rightarrow> 'j option"

definition sortTimestamp :: "'j Record \<Rightarrow> int" where
  "sortTimestamp r =
     (if rc_ProtocolPath r = PathSimpleBuzz then rc_CreatedAt r else if 0 < rc_UpdatedAt r then rc_UpdatedAt r else rc_CreatedAt r)"

subsection \<open>Keys\<close>

definition recordKey :: "string \<Rightarrow> string \<Rightarrow> string \<Rightarrow> bytes" where
  "recordKey chainName protocolPath sourcePinId = ''record:'' @ chainName @ '':'' @ protocolPath @ '':'' @ sourcePinId"

definition pinToSourceKey :: "string \<Rightarrow> string \<Rightarrow> bytes" where
  "pinToSourceKey chainName pinId = ''pin_to_source:'' @ chainName @ '':'' @ pinId"

text \<open>\<open>%016x\<close> of the complement of the 64 bits of \<open>ts\<close>.\<close>

definition low_hex :: "nat \<Rightarrow> char" where
  "low_hex n = (if n < 10 then char_of (48 + n) else char_of (87 + n))"

fun hex_n :: "nat \<Rightarrow> nat \<Rightarrow> string" where
  "hex_n 0 x = []"
| "hex_n (Suc k) x = low_hex (x div 16 ^ k mod 16) # hex_n k x"

definition invertedTimestamp :: "int \<Rightarrow> string" where
  "invertedTimestamp ts = hex_n 16 (nat ((- 1 - ts) mod 2 ^ 64))"

definition identityIndexKey :: "string \<Rightarrow> string \<Rightarrow> string \<Rightarrow> int \<Rightarrow> string \<Rightarrow> string \<Rightarrow> bytes" where
  "identityIndexKey p protocolPath identity sortKey chainName sourcePinId =
     p @ protocolPath @ '':'' @ identity @ '':'' @ invertedTimestamp sortKey @ '':'' @ chainName @ '':'' @ sourcePinId"

definition byGlobalKey :: "string \<Rightarrow> string \<Rightarrow> int \<Rightarrow> string \<Rightarrow> string \<Rightarrow> bytes" where
  "byGlobalKey = identityIndexKey ''by_global:''"

definition byMetaIdKey :: "string \<Rightarrow> string \<Rightarrow> int \<Rightarrow> string \<Rightarrow> string \<Rightarrow> bytes" where
  "byMetaIdKey = identityIndexKey ''by_metaid:''"

definition byAddressKey :: "string \<Rightarrow> string \<Rightarrow> int \<Rightarrow> string \<Rightarrow> string \<Rightarrow> bytes" where
  "byAddressKey = identityIndexKey ''by_address:''"

definition identityIndexPrefix :: "string \<Rightarrow> string \<Rightarrow> string \<Rightarrow> bytes" where
  "identityIndexPrefix p protocolPath identity = p @ protocolPath @ '':'' @ identity @ '':''"

definition parseIdentityIndexKey :: "bytes \<Rightarrow> bytes \<Rightarrow> (string \<times> string) option" where
  "parseIdentityIndexKey key p =
     (let rest = (if HasPrefix key p then drop (length p) key else key)
      in case split_colon rest of
           None \<Rightarrow> None
         | Some (ts, rest1) \<Rightarrow> split_colon rest1)"

subsection \<open>Storage\<close>

definition loadRecord :: "('s, 'j) pub_env \<Rightarrow> string \<Rightarrow> string \<Rightarrow> string \<Rightarrow> 's \<Rightarrow> (string + 'j Record option) \<times> 's" where
  "loadRecord A chainName protocolPath sourcePinId s =
     (if chainName = '''' \<or> protocolPath = '''' \<or> sourcePinId = '''' then (Inl ''loadRecord: chainName, protocolPath and sourcePinId required'', s)
      else case kv_Get (pu_K A) pub_ns (recordKey chainName protocolPath sourcePinId) s of
        (Inl e, s1) \<Rightarrow> (Inr None, s1)
      | (Inr raw, s1) \<Rightarrow> (case cd_Unmarshal (pu_codec A) raw of None \<Rightarrow> (Inl ''loadRecord: corrupt record'', s1) | Some rec \<Rightarrow> (Inr (Some rec), s1)))"

fun source_loop :: "('s, 'j) pub_env \<Rightarrow> string \<Rightarrow> nat \<Rightarrow> string list \<Rightarrow> string \<Rightarrow> 's \<Rightarrow> string \<times> 's" where
  "source_loop A chainName 0 seen current s = ('''', s)"
| "source_loop A chainName (Suc i) seen current s =
     (if current \<in> set seen then ('''', s)
      else case kv_Get (pu_K A) pub_ns (pinToSourceKey chainName current) s of
        (Inl e, s1) \<Rightarrow> (current, s1)
      | (Inr raw, s1) \<Rightarrow>
          (let nxt = TrimSpace raw
           in if nxt = '''' \<or> nxt = current then (current, s1) else source_loop A chainName i (current # seen) nxt s1))"

definition sourcePinIdFor :: "('s, 'j) pub_env \<Rightarrow> string \<Rightarrow> string \<Rightarrow> 's \<Rightarrow> string \<times> 's" where
  "sourcePinIdFor A chainName pinId s = (if chainName = '''' \<or> pinId = '''' then ('''', s) else source_loop A chainName 32 [] pinId s)"

definition loadRecordByAnyPinId :: "('s, 'j) pub_env \<Rightarrow> string \<Rightarrow> string \<Rightarrow> string \<Rightarrow> 's \<Rightarrow> (string + 'j Record option) \<times> 's" where
  "loadRecordByAnyPinId A chainName protocolPath anyPinId s =
     (let (sourcePinId, s1) = sourcePinIdFor A chainName anyPinId s
      in if sourcePinId = '''' then (Inr None, s1) else loadRecord A chainName protocolPath sourcePinId s1)"

definition mapPinToSource :: "('s, 'j) pub_env \<Rightarrow> string \<Rightarrow> string \<Rightarrow> string \<Rightarrow> 's \<Rightarrow> string option \<times> 's" where
  "mapPinToSource A chainName pinId sourcePinId s =
     (if chainName = '''' \<or> pinId = '''' \<or> sourcePinId = '''' then (None, s)
      else case kv_Set (pu_K A) pub_ns (pinToSourceKey chainName pinId) sourcePinId s of (None, s1) \<Rightarrow> (None, s1) | (Some e, s1) \<Rightarrow> (Some ''storage error'', s1))"

text \<open>The index keys of a record, in the order they are written and deleted.\<close>

definition index_keys :: "'j Record \<Rightarrow> bytes list" where
  "index_keys rec =
     (let at = (\<lambda>f i. if i \<noteq> '''' then [f (rc_ProtocolPath rec) i (sortTimestamp rec) (rc_ChainName rec) (rc_SourcePinId rec)] else [])
      in at byGlobalKey (rc_PublisherGlobalMetaId rec) @ at byMetaIdKey (rc_PublisherMetaId rec) @ at byAddressKey (rc_PublisherAddress rec))"

fun set_keys :: "'s kv_api \<Rightarrow> bytes list \<Rightarrow> 's \<Rightarrow> string option \<times> 's" where
  "set_keys K [] s = (None, s)"
| "set_keys K (k # ks) s = (case kv_Set K pub_ns k [] s of (Some e, s1) \<Rightarrow> (Some ''storage error'', s1) | (None, s1) \<Rightarrow> set_keys K ks s1)"

definition writeIdentityIndexes :: "('s, 'j) pub_env \<Rightarrow> 'j Record \<Rightarrow> 's \<Rightarrow> string option \<times> 's" where
  "writeIdentityIndexes A rec s = set_keys (pu_K A) (index_keys rec) s"

definition deleteIdentityIndexes :: "('s, 'j) pub_env \<Rightarrow> 'j Record \<Rightarrow> 's \<Rightarrow> 's" where
  "deleteIdentityIndexes A rec s = foldl (\<lambda>s k. snd (kv_Delete (pu_K A) pub_ns k s)) s (index_keys rec)"

definition saveRecord :: "('s, 'j) pub_env \<Rightarrow> 'j Record \<Rightarrow> 'j Record option \<Rightarrow> 's \<Rightarrow> string option \<times> 's" where
  "saveRecord A rec previous s =
     (if rc_ChainName rec = '''' \<or> rc_ProtocolPath rec = '''' \<or> rc_SourcePinId rec = '''' then (Some ''saveRecord: missing key fields'', s)
      else
        (let s1 = (case previous of None \<Rightarrow> s | Some p \<Rightarrow> deleteIdentityIndexes A p s)
         in case save_json (pu_K A) pub_ns (pu_codec A) (recordKey (rc_ChainName rec) (rc_ProtocolPath rec) (rc_SourcePinId rec)) rec s1 of
              (Some e, s2) \<Rightarrow> (Some e, s2)
            | (None, s2) \<Rightarrow>
                (case mapPinToSource A (rc_ChainName rec) (rc_CurrentPinId rec) (rc_SourcePinId rec) s2 of
                   (Some e, s3) \<Rightarrow> (Some e, s3)
                 | (None, s3) \<Rightarrow> writeIdentityIndexes A rec s3)))"

subsection \<open>Pins\<close>

fun firstNonEmpty :: "string list \<Rightarrow> string" where
  "firstNonEmpty [] = ''''"
| "firstNonEmpty (v # vs) = (let t = TrimSpace v in if t \<noteq> '''' then t else firstNonEmpty vs)"

definition normaliseOperation :: "unicode \<Rightarrow> string \<Rightarrow> string" where
  "normaliseOperation U operation = ToLower U (TrimSpace operation)"

definition isPublishedProtocol :: "string \<Rightarrow> bool" where
  "isPublishedProtocol protocolPath \<longleftrightarrow> protocolPath = PathSimpleBuzz \<or> protocolPath = PathMetaApp \<or> protocolPath = PathMetaBotSkill"

definition protocolPathFromPinPath :: "unicode \<Rightarrow> string \<Rightarrow> string" where
  "protocolPathFromPinPath U path =
     (let base = TrimRight CHR ''/'' (TrimSpace path)
      in ToLower U (case Index base ''@'' of Some (Suc n) \<Rightarrow> take (Suc n) base | _ \<Rightarrow> base))"

definition pinTargetFromPath :: "string \<Rightarrow> string" where
  "pinTargetFromPath path = (case Index path ''@'' of None \<Rightarrow> '''' | Some i \<Rightarrow> Trim CHR ''/'' (TrimSpace (drop (i + 1) path)))"

definition targetPinID :: "PinInscription \<Rightarrow> string" where
  "targetPinID pin =
     (let c1 = pinTargetFromPath (pi_Path pin); o1 = TrimSpace (pi_OriginalId pin); c2 = (if HasPrefix o1 ''@'' then drop 1 o1 else o1)
      in if c1 \<noteq> '''' \<and> c1 \<noteq> pi_Id pin then c1 else if c2 \<noteq> '''' \<and> c2 \<noteq> pi_Id pin then c2 else '''')"

definition isBinaryPayload :: "unicode \<Rightarrow> string \<Rightarrow> bytes \<Rightarrow> bool" where
  "isBinaryPayload U contentType raw =
     (let ct = ToLower U (TrimSpace contentType)
      in list_ex (Contains ct) [''octet-stream'', ''zip'', ''image/'', ''audio/'', ''video/''] \<or> CHR 0x00 \<in> set raw)"

record 'j payloadResult =
  py_text :: string
  py_jsonObject :: "'j option"
  py_exposed :: bool

definition extractPayload :: "('s, 'j) pub_env \<Rightarrow> PinInscription \<Rightarrow> 'j payloadResult" where
  "extractPayload A pin =
     (let raw0 = TrimSpace (pi_ContentBody pin); raw = (if raw0 = [] then TrimSpace (pi_ContentSummary pin) else raw0);
          plain = \<lparr>py_text = raw, py_jsonObject = None, py_exposed = True\<rparr>
      in if raw = [] \<or> isBinaryPayload (pu_U A) (pi_ContentType pin) raw then \<lparr>py_text = '''', py_jsonObject = None, py_exposed = False\<rparr>
         else if hd raw = CHR 0x7B then (case pu_object A raw of Some obj \<Rightarrow> \<lparr>py_text = '''', py_jsonObject = Some obj, py_exposed = True\<rparr> | None \<Rightarrow> plain)
         else plain)"

definition canonicalPublisherGlobalMetaId :: "('s, 'j) pub_env \<Rightarrow> PinInscription \<Rightarrow> string" where
  "canonicalPublisherGlobalMetaId A pin =
     (let globalMetaId = TrimSpace (pi_GlobalMetaId pin); address = firstNonEmpty [pi_Address pin, pi_CreateAddress pin]
      in if address = '''' then globalMetaId
         else if globalMetaId \<noteq> '''' \<and> \<not> EqualFold (pu_U A) globalMetaId address then globalMetaId
         else (let encoded = EncodeGlobalMetaId (pu_U A) (pu_B A) address (pi_ChainName pin) in if encoded \<noteq> '''' then encoded else globalMetaId))"

definition newRecordFromPin :: "('s, 'j) pub_env \<Rightarrow> PinInscription \<Rightarrow> string \<Rightarrow> string \<Rightarrow> bool \<Rightarrow> 'j Record" where
  "newRecordFromPin A pin protocolPath sourcePinId isMempool =
     (let payload = extractPayload A pin; ts = pi_Timestamp pin; op = normaliseOperation (pu_U A) (pi_Operation pin)
      in \<lparr>rc_SourcePinId = sourcePinId, rc_CurrentPinId = pi_Id pin, rc_ChainName = ToLower (pu_U A) (TrimSpace (pi_ChainName pin)),
          rc_ProtocolPath = protocolPath, rc_PublisherGlobalMetaId = canonicalPublisherGlobalMetaId A pin,
          rc_PublisherMetaId = firstNonEmpty [pi_MetaId pin, pi_CreateMetaId pin], rc_PublisherAddress = firstNonEmpty [pi_Address pin, pi_CreateAddress pin],
          rc_Operation = op, rc_Hidden = (op = ''revoke''), rc_IsMempool = isMempool, rc_ContentType = pi_ContentType pin,
          rc_PayloadText = py_text payload, rc_PayloadJSON = py_jsonObject payload, rc_PayloadExposed = py_exposed payload, rc_CreatedAt = ts,
          rc_UpdatedAt = ts, rc_SourceNumber = pi_Number pin, rc_CurrentNumber = pi_Number pin, rc_SourcePath = pi_Path pin,
          rc_CurrentPath = pi_Path pin, rc_SourceHost = pi_Host pin, rc_CurrentHost = pi_Host pin\<rparr>)"

definition mergeConfirmedReplayWithPendingCurrent :: "'j Record \<Rightarrow> 'j Record \<Rightarrow> string \<Rightarrow> 'j Record" where
  "mergeConfirmedReplayWithPendingCurrent previous candidate confirmedPinID =
     (if rc_IsMempool candidate \<or> \<not> rc_IsMempool previous then candidate
      else if rc_CurrentPinId previous = '''' \<or> rc_CurrentPinId previous = rc_SourcePinId previous \<or> rc_CurrentPinId previous = confirmedPinID then candidate
      else candidate\<lparr>rc_CurrentPinId := rc_CurrentPinId previous, rc_CurrentNumber := rc_CurrentNumber previous, rc_CurrentPath := rc_CurrentPath previous,
             rc_CurrentHost := rc_CurrentHost previous, rc_Operation := rc_Operation previous, rc_Hidden := rc_Hidden previous, rc_IsMempool := True,
             rc_ContentType := rc_ContentType previous, rc_PayloadText := rc_PayloadText previous, rc_PayloadJSON := rc_PayloadJSON previous,
             rc_PayloadExposed := rc_PayloadExposed previous, rc_UpdatedAt := rc_UpdatedAt previous\<rparr>)"

definition processCreate :: "('s, 'j) pub_env \<Rightarrow> PinInscription \<Rightarrow> string \<Rightarrow> bool \<Rightarrow> 's \<Rightarrow> string option \<times> 's" where
  "processCreate A pin protocolPath isMempool s =
     (case loadRecord A (pi_ChainName pin) protocolPath (pi_Id pin) s of
        (Inl e, s1) \<Rightarrow> (Some e, s1)
      | (Inr existing, s1) \<Rightarrow>
          (let rec = newRecordFromPin A pin protocolPath (pi_Id pin) isMempool
           in case existing of
                None \<Rightarrow> saveRecord A rec None s1
              | Some ex \<Rightarrow>
                  if \<not> isMempool \<and> rc_IsMempool ex
                  then saveRecord A (mergeConfirmedReplayWithPendingCurrent ex rec (pi_Id pin)) (Some ex) s1 else (None, s1)))"

text \<open>The record after a modify pin, before the merge with a pending version.\<close>

definition modified :: "('s, 'j) pub_env \<Rightarrow> PinInscription \<Rightarrow> string \<Rightarrow> bool \<Rightarrow> 'j Record \<Rightarrow> 'j Record" where
  "modified A pin protocolPath isMempool previous =
     (let u = newRecordFromPin A pin protocolPath (rc_SourcePinId previous) isMempool;
          u1 = u\<lparr>rc_CreatedAt := rc_CreatedAt previous, rc_SourceNumber := rc_SourceNumber previous, rc_SourcePath := rc_SourcePath previous,
                 rc_SourceHost := rc_SourceHost previous,
                 rc_PublisherGlobalMetaId := (if rc_PublisherGlobalMetaId u = '''' then rc_PublisherGlobalMetaId previous else rc_PublisherGlobalMetaId u),
                 rc_PublisherMetaId := (if rc_PublisherMetaId u = '''' then rc_PublisherMetaId previous else rc_PublisherMetaId u),
                 rc_PublisherAddress := (if rc_PublisherAddress u = '''' then rc_PublisherAddress previous else rc_PublisherAddress u)\<rparr>;
          u2 = (if \<not> rc_PayloadExposed u1 then u1\<lparr>rc_PayloadText := rc_PayloadText previous, rc_PayloadJSON := rc_PayloadJSON previous,
                  rc_PayloadExposed := rc_PayloadExposed previous\<rparr> else u1)
      in if rc_Operation previous = ''revoke'' then u2\<lparr>rc_Operation := ''revoke'', rc_Hidden := True\<rparr> else u2)"

definition revoked :: "PinInscription \<Rightarrow> bool \<Rightarrow> 'j Record \<Rightarrow> 'j Record" where
  "revoked pin isMempool previous =
     previous\<lparr>rc_Operation := ''revoke'', rc_Hidden := True, rc_IsMempool := isMempool, rc_CurrentPinId := pi_Id pin, rc_CurrentNumber := pi_Number pin,
       rc_CurrentPath := pi_Path pin, rc_CurrentHost := pi_Host pin,
       rc_ContentType := (if pi_ContentType pin \<noteq> '''' then pi_ContentType pin else rc_ContentType previous),
       rc_UpdatedAt := (if 0 < pi_Timestamp pin then pi_Timestamp pin else rc_UpdatedAt previous)\<rparr>"

text \<open>What modify and revoke pins share: finding the record, saving its update and remembering the pin.\<close>

definition process_update ::
    "('s, 'j) pub_env \<Rightarrow> PinInscription \<Rightarrow> string \<Rightarrow> ('j Record \<Rightarrow> 'j Record) \<Rightarrow> 's \<Rightarrow> string option \<times> 's" where
  "process_update A pin protocolPath update s =
     (let targetPinId = targetPinID pin
      in if targetPinId = '''' then (None, s)
         else case loadRecordByAnyPinId A (pi_ChainName pin) protocolPath targetPinId s of
           (Inl e, s1) \<Rightarrow> (Some e, s1)
         | (Inr None, s1) \<Rightarrow> (None, s1)
         | (Inr (Some previous), s1) \<Rightarrow>
             (case saveRecord A (mergeConfirmedReplayWithPendingCurrent previous (update previous) (pi_Id pin)) (Some previous) s1 of
                (Some e, s2) \<Rightarrow> (Some e, s2)
              | (None, s2) \<Rightarrow> mapPinToSource A (pi_ChainName pin) (pi_Id pin) (rc_SourcePinId previous) s2))"

definition processModify :: "('s, 'j) pub_env \<Rightarrow> PinInscription \<Rightarrow> string \<Rightarrow> bool \<Rightarrow> 's \<Rightarrow> string option \<times> 's" where
  "processModify A pin protocolPath isMempool s = process_update A pin protocolPath (modified A pin protocolPath isMempool) s"

definition processRevoke :: "('s, 'j) pub_env \<Rightarrow> PinInscription \<Rightarrow> string \<Rightarrow> bool \<Rightarrow> 's \<Rightarrow> string option \<times> 's" where
  "processRevoke A pin protocolPath isMempool s = process_update A pin protocolPath (revoked pin isMempool) s"

definition processPin :: "('s, 'j) pub_env \<Rightarrow> PinInscription \<Rightarrow> bool \<Rightarrow> 's \<Rightarrow> string option \<times> 's" where
  "processPin A pin isMempool s =
     (if pi_Id pin = '''' \<or> pi_ChainName pin = '''' then (None, s)
      else
        (let protocolPath = protocolPathFromPinPath (pu_U A) (pi_Path pin); op = normaliseOperation (pu_U A) (pi_Operation pin)
         in if \<not> isPublishedProtocol protocolPath then (None, s)
            else if op = ''create'' then processCreate A pin protocolPath isMempool s
            else if op = ''modify'' then processModify A pin protocolPath isMempool s
            else if op = ''revoke'' then processRevoke A pin protocolPath isMempool s
            else (None, s)))"

definition pub_HandleBlockPin :: "('s, 'j) pub_env \<Rightarrow> PinInscription \<Rightarrow> 's \<Rightarrow> (string + unit NotifyEvent option) \<times> 's" where
  "pub_HandleBlockPin A pin s = (case processPin A pin False s of (Some e, s1) \<Rightarrow> (Inl e, s1) | (None, s1) \<Rightarrow> (Inr None, s1))"

definition pub_HandleMempoolPin :: "('s, 'j) pub_env \<Rightarrow> PinInscription \<Rightarrow> 's \<Rightarrow> (string + unit NotifyEvent option) \<times> 's" where
  "pub_HandleMempoolPin A pin s = (case processPin A pin True s of (Some e, s1) \<Rightarrow> (Inl e, s1) | (None, s1) \<Rightarrow> (Inr None, s1))"

subsection \<open>Lists\<close>

record ListParams =
  lq_ProtocolPath :: string
  lq_ChainName :: string
  lq_PublisherGlobalMetaId :: string
  lq_PublisherMetaId :: string
  lq_PublisherAddress :: string
  lq_Size :: int
  lq_IncludeHidden :: bool

text \<open>A \<open>SectionItem\<close> has the fields of a record, so it is one.\<close>

record 'j ListResult =
  lr_Items :: "'j Record list"
  lr_HasMore :: bool

definition normaliseListParams :: "unicode \<Rightarrow> ListParams \<Rightarrow> ListParams" where
  "normaliseListParams U params =
     (let sz = (if lq_Size params \<le> 0 then 20 else lq_Size params)
      in \<lparr>lq_ProtocolPath = protocolPathFromPinPath U (lq_ProtocolPath params), lq_ChainName = ToLower U (TrimSpace (lq_ChainName params)),
          lq_PublisherGlobalMetaId = TrimSpace (lq_PublisherGlobalMetaId params), lq_PublisherMetaId = TrimSpace (lq_PublisherMetaId params),
          lq_PublisherAddress = TrimSpace (lq_PublisherAddress params), lq_Size = (if 100 < sz then 100 else sz), lq_IncludeHidden = lq_IncludeHidden params\<rparr>)"

definition hasIdentityFilter :: "ListParams \<Rightarrow> bool" where
  "hasIdentityFilter params \<longleftrightarrow> lq_PublisherGlobalMetaId params \<noteq> '''' \<or> lq_PublisherMetaId params \<noteq> '''' \<or> lq_PublisherAddress params \<noteq> ''''"

definition recordMatches :: "'j Record \<Rightarrow> ListParams \<Rightarrow> bool" where
  "recordMatches rec params =
     (if lq_ProtocolPath params \<noteq> '''' \<and> rc_ProtocolPath rec \<noteq> lq_ProtocolPath params then False
      else if lq_ChainName params \<noteq> '''' \<and> rc_ChainName rec \<noteq> lq_ChainName params then False
      else if \<not> lq_IncludeHidden params \<and> rc_Hidden rec then False
      else if lq_PublisherGlobalMetaId params \<noteq> '''' \<and> rc_PublisherGlobalMetaId rec \<noteq> lq_PublisherGlobalMetaId params then False
      else if lq_PublisherMetaId params \<noteq> '''' \<and> rc_PublisherMetaId rec \<noteq> lq_PublisherMetaId params then False
      else if lq_PublisherAddress params \<noteq> '''' \<and> rc_PublisherAddress rec \<noteq> lq_PublisherAddress params then False
      else True)"

text \<open>The scan of an index: the callback loads the record an entry names and stops the scan at the limit.\<close>

fun identity_loop ::
    "('s, 'j) pub_env \<Rightarrow> bytes \<Rightarrow> ListParams \<Rightarrow> int \<Rightarrow> (bytes \<times> bytes) list \<Rightarrow> 'j Record list \<Rightarrow> 's \<Rightarrow> (string + 'j Record list) \<times> 's" where
  "identity_loop A p params limit [] out s = (Inr out, s)"
| "identity_loop A p params limit (kv # kvs) out s =
     (case parseIdentityIndexKey (fst kv) p of
        None \<Rightarrow> identity_loop A p params limit kvs out s
      | Some (chainName, sourcePinId) \<Rightarrow>
          (if lq_ChainName params \<noteq> '''' \<and> chainName \<noteq> lq_ChainName params then identity_loop A p params limit kvs out s
           else case loadRecord A chainName (lq_ProtocolPath params) sourcePinId s of
             (Inl e, s1) \<Rightarrow> (Inl e, s1)
           | (Inr None, s1) \<Rightarrow> identity_loop A p params limit kvs out s1
           | (Inr (Some rec), s1) \<Rightarrow>
               (if \<not> recordMatches rec params then identity_loop A p params limit kvs out s1
                else if limit \<le> int (length (out @ [rec])) then (Inr (out @ [rec]), s1)
                else identity_loop A p params limit kvs (out @ [rec]) s1)))"

definition scanIdentity :: "('s, 'j) pub_env \<Rightarrow> bytes \<Rightarrow> ListParams \<Rightarrow> int \<Rightarrow> 's \<Rightarrow> (string + 'j Record list) \<times> 's" where
  "scanIdentity A p params limit s =
     (case kv_Scan (pu_K A) pub_ns p s of
        (Inl e, s1) \<Rightarrow> (Inl ''storage error'', s1)
      | (Inr kvs, s1) \<Rightarrow> identity_loop A p params limit kvs [] s1)"

definition scanRecords :: "('s, 'j) pub_env \<Rightarrow> ListParams \<Rightarrow> 's \<Rightarrow> (string + 'j Record list) \<times> 's" where
  "scanRecords A params s =
     (let p = (if lq_ChainName params \<noteq> '''' then ''record:'' @ lq_ChainName params @ '':'' else ''record:'')
      in case kv_Scan (pu_K A) pub_ns p s of
           (Inl e, s1) \<Rightarrow> (Inl ''storage error'', s1)
         | (Inr kvs, s1) \<Rightarrow> (Inr (filter (\<lambda>r. recordMatches r params) (decoded (cd_Unmarshal (pu_codec A)) kvs)), s1))"

definition collectRecords :: "('s, 'j) pub_env \<Rightarrow> ListParams \<Rightarrow> int \<Rightarrow> 's \<Rightarrow> (string + 'j Record list) \<times> 's" where
  "collectRecords A params limit s =
     (if lq_PublisherGlobalMetaId params \<noteq> '''' then
        scanIdentity A (identityIndexPrefix ''by_global:'' (lq_ProtocolPath params) (lq_PublisherGlobalMetaId params)) params limit s
      else if lq_PublisherMetaId params \<noteq> '''' then
        scanIdentity A (identityIndexPrefix ''by_metaid:'' (lq_ProtocolPath params) (lq_PublisherMetaId params)) params limit s
      else if lq_PublisherAddress params \<noteq> '''' then
        scanIdentity A (identityIndexPrefix ''by_address:'' (lq_ProtocolPath params) (lq_PublisherAddress params)) params limit s
      else scanRecords A params s)"

definition record_rank :: "'j Record \<Rightarrow> int \<times> string \<times> string" where
  "record_rank r = (sortTimestamp r, rc_ChainName r, rc_SourcePinId r)"

text \<open>The comparison of \<open>sort.Slice\<close> is descending in time, chain and source pin.\<close>

definition pub_List :: "('s, 'j) pub_env \<Rightarrow> ListParams \<Rightarrow> 's \<Rightarrow> (string + 'j ListResult) \<times> 's" where
  "pub_List A params0 s =
     (let params = normaliseListParams (pu_U A) params0; limit = lq_Size params + 1
      in case collectRecords A params limit s of
           (Inl e, s1) \<Rightarrow> (Inl e, s1)
         | (Inr records0, s1) \<Rightarrow>
             (let records = (if hasIdentityFilter params then records0 else take (nat limit) (rev (sort_key record_rank records0)));
                  hasMore = (lq_Size params < int (length records))
              in (Inr \<lparr>lr_Items = (if hasMore then take (nat (lq_Size params)) records else records), lr_HasMore = hasMore\<rparr>, s1)))"

subsection \<open>Replay\<close>

text \<open>Without the clock readings and the progress reports, which do not influence the replay.\<close>

record ReplayStats =
  rs_BlocksScanned :: int
  rs_PinsSeen :: int
  rs_PinsMatched :: int
  rs_PinsIndexed :: int
  rs_Errors :: int

definition replayProtocolSet :: "unicode \<Rightarrow> string list \<Rightarrow> string list" where
  "replayProtocolSet U paths0 =
     (let paths = (if paths0 = [] then [PathSimpleBuzz, PathMetaApp, PathMetaBotSkill] else paths0)
      in filter (\<lambda>p. p \<noteq> '''') (map (protocolPathFromPinPath U) paths))"

definition replayProtocolAllowed :: "unicode \<Rightarrow> PinInscription \<Rightarrow> string list \<Rightarrow> bool" where
  "replayProtocolAllowed U pin allowed \<longleftrightarrow> protocolPathFromPinPath U (pi_Path pin) \<in> set allowed"

fun replay_pins :: "('s, 'j) pub_env \<Rightarrow> string list \<Rightarrow> PinInscription list \<Rightarrow> ReplayStats \<Rightarrow> 's \<Rightarrow> ReplayStats \<times> 's" where
  "replay_pins A allowed [] st s = (st, s)"
| "replay_pins A allowed (pin # pins) st s =
     (let st1 = st\<lparr>rs_PinsSeen := rs_PinsSeen st + 1\<rparr>
      in if \<not> replayProtocolAllowed (pu_U A) pin allowed then replay_pins A allowed pins st1 s
         else
           (let st2 = st1\<lparr>rs_PinsMatched := rs_PinsMatched st1 + 1\<rparr>
            in case pub_HandleBlockPin A pin s of
                 (Inl e, s1) \<Rightarrow> replay_pins A allowed pins (st2\<lparr>rs_Errors := rs_Errors st2 + 1\<rparr>) s1
               | (Inr ev, s1) \<Rightarrow> replay_pins A allowed pins (st2\<lparr>rs_PinsIndexed := rs_PinsIndexed st2 + 1\<rparr>) s1))"

text \<open>The loop over the heights; \<open>cancelled\<close> says at which heights the context is done.\<close>

fun replay_blocks ::
    "('s, 'j) pub_env \<Rightarrow> (int \<Rightarrow> bool) \<Rightarrow> (int \<Rightarrow> string + PinInscription list) \<Rightarrow> string list \<Rightarrow> int list \<Rightarrow> ReplayStats \<Rightarrow> 's \<Rightarrow> (string option \<times> ReplayStats) \<times> 's" where
  "replay_blocks A cancelled CatchPins allowed [] st s = ((None, st), s)"
| "replay_blocks A cancelled CatchPins allowed (height # hs) st s =
     (if cancelled height then ((Some ''context canceled'', st), s)
      else case CatchPins height of
        Inl e \<Rightarrow> replay_blocks A cancelled CatchPins allowed hs (st\<lparr>rs_Errors := rs_Errors st + 1\<rparr>) s
      | Inr pins \<Rightarrow>
          (let (st1, s1) = replay_pins A allowed pins (st\<lparr>rs_BlocksScanned := rs_BlocksScanned st + 1\<rparr>) s
           in replay_blocks A cancelled CatchPins allowed hs st1 s1))"

definition ReplayBlocks ::
    "('s, 'j) pub_env \<Rightarrow> (int \<Rightarrow> bool) \<Rightarrow> (int \<Rightarrow> string + PinInscription list) option \<Rightarrow> int \<Rightarrow> int \<Rightarrow> string list \<Rightarrow> 's \<Rightarrow> (string option \<times> ReplayStats) \<times> 's" where
  "ReplayBlocks A cancelled idx fromHeight toHeight paths s =
     (let st0 = \<lparr>rs_BlocksScanned = 0, rs_PinsSeen = 0, rs_PinsMatched = 0, rs_PinsIndexed = 0, rs_Errors = 0\<rparr>
      in case idx of
           None \<Rightarrow> ((Some ''publishedcontent replay indexer is required'', st0), s)
         | Some CatchPins \<Rightarrow>
             (if fromHeight \<le> 0 \<or> toHeight < fromHeight then ((Some ''publishedcontent replay requires a valid height range'', st0), s)
              else replay_blocks A cancelled CatchPins (replayProtocolSet (pu_U A) paths) [fromHeight..toHeight] st0 s))"

end
