(* ===== verification/PubIndex.thy ===== *)
theory PubIndex
  imports PubContent
begin

text \<open>
  The indexes of \<open>PubContent\<close>. The invariant \<open>pub_ok\<close> of the database says that every record is stored under its own key and that the index entries
  are exactly those of the stored records. Every pin keeps it, so a list by identity shows exactly the matching records, newest first.
  The locale \<open>pub_store\<close> is the module on a reliable store that deletes.
\<close>

subsection \<open>Index keys\<close>

lemma low_hex_code: "n < 16 \<Longrightarrow> code (low_hex n) = (if n < 10 then 48 + n else 87 + n)"
  by (simp add: low_hex_def)

lemma low_hex_less: "m < n \<Longrightarrow> n < 16 \<Longrightarrow> low_hex m < low_hex n"
  using low_hex_code [of m] low_hex_code [of n] by (simp add: less_char_code)

lemma hex_n_mod: "hex_n k (x mod 16 ^ k) = hex_n k x"
proof -
  have "hex_n j (x mod 16 ^ k) = hex_n j x" if "j \<le> k" for j
    using that
  proof (induction j)
    case (Suc j)
    then obtain d where d: "k = Suc j + d" by (metis le_Suc_ex)
    have "x mod 16 ^ k div 16 ^ j mod 16 = x div 16 ^ j mod (16 :: nat)"
    proof -
      have k: "16 ^ k = 16 ^ j * (16 ^ Suc d :: nat)" using d by (simp add: power_add)
      have "x mod 16 ^ k = 16 ^ j * (x div 16 ^ j mod 16 ^ Suc d) + x mod 16 ^ j" unfolding k by (rule mod_mult2_eq)
      moreover have "x mod 16 ^ j < 16 ^ j" by simp
      ultimately have "x mod 16 ^ k div 16 ^ j = (x div 16 ^ j) mod 16 ^ Suc d" by simp
      then show ?thesis by (simp add: mod_mod_cancel)
    qed
    then show ?case using Suc by simp
  qed simp
  then show ?thesis by simp
qed

lemma length_hex_n [simp]: "length (hex_n k x) = k"
  by (induction k) auto

lemma hex_n_less: "x < y \<Longrightarrow> y < 16 ^ k \<Longrightarrow> hex_n k x < hex_n k y"
proof (induction k arbitrary: x y)
  case (Suc k)
  have q: "x div 16 ^ k < 16" "y div 16 ^ k < 16" using Suc.prems by (auto simp: less_mult_imp_div_less mult.commute)
  have le: "x div 16 ^ k \<le> y div 16 ^ k" using Suc.prems by (simp add: div_le_mono)
  show ?case
  proof (cases "x div 16 ^ k = y div 16 ^ k")
    case True
    have "x mod 16 ^ k < y mod 16 ^ k" using True Suc.prems(1) by (metis div_mult_mod_eq nat_add_left_cancel_less)
    from Suc.IH [OF this] show ?thesis using True by (simp add: hex_n_mod)
  next
    case False
    then show ?thesis using le q low_hex_less [of "x div 16 ^ k" "y div 16 ^ k"] by simp
  qed
qed simp

lemma inverted_less:
  assumes "0 \<le> a" and "a < b" and "b < 2 ^ 63"
  shows "invertedTimestamp b < invertedTimestamp a"
proof -
  have m: "(- 1 - t) mod 2 ^ 64 = 2 ^ 64 - 1 - t" if "0 \<le> t" "t < 2 ^ 63" for t :: int
  proof -
    have "(- 1 - t) mod 2 ^ 64 = (2 ^ 64 - 1 - t) mod 2 ^ 64" by (metis add.commute add_diff_eq diff_add_eq minus_mod_self2 mod_add_self1 uminus_add_conv_diff)
    then show ?thesis using that by (simp add: mod_pos_pos_trivial)
  qed
  show ?thesis unfolding invertedTimestamp_def
    by (rule hex_n_less) (use assms m [of a] m [of b] in \<open>auto simp: nat_less_iff\<close>)
qed

lemma inverted_inj: "0 \<le> a \<Longrightarrow> a < 2 ^ 63 \<Longrightarrow> 0 \<le> b \<Longrightarrow> b < 2 ^ 63 \<Longrightarrow> invertedTimestamp a = invertedTimestamp b \<longleftrightarrow> a = b"
  using inverted_less [of a b] inverted_less [of b a] by (metis less_irrefl linorder_neqE)

lemma hex_no_colon: "CHR '':'' \<notin> set (hex_n k x)"
proof (induction k)
  case (Suc k)
  have "code (low_hex (x div 16 ^ k mod 16)) \<noteq> 58" using low_hex_code [of "x div 16 ^ k mod 16"] by simp
  then have "low_hex (x div 16 ^ k mod 16) \<noteq> CHR '':''" by (auto simp: code_def)
  then show ?case using Suc by auto
qed simp

lemma inverted_colon_free: "colon_free (invertedTimestamp t)" "length (invertedTimestamp t) = 16"
  by (simp_all add: colon_free_def invertedTimestamp_def hex_no_colon)

lemma split_colon_app: "colon_free a \<Longrightarrow> split_colon (a @ '':'' @ r) = Some (a, r)"
proof -
  assume "colon_free a"
  then have "Index (a @ '':'' @ r) '':'' = Some (length a)"
    by (induction a) (auto simp: colon_free_def HasPrefix_def)
  then show ?thesis by (simp add: split_colon_def)
qed

lemma published_colon_free: "isPublishedProtocol pp \<Longrightarrow> colon_free pp \<and> pp \<noteq> ''''"
  by (auto simp: isPublishedProtocol_def PathSimpleBuzz_def PathMetaApp_def PathMetaBotSkill_def colon_free_def)

lemma colon_parts: "colon_free a \<Longrightarrow> colon_free b \<Longrightarrow> a @ '':'' @ r = b @ '':'' @ r' \<longleftrightarrow> a = b \<and> r = r'"
  using sep_eq [of "CHR '':''" a b r r'] by (simp add: colon_free_def)

subsection \<open>The invariant\<close>

definition rec_key :: "'j Record \<Rightarrow> bytes" where
  "rec_key r = recordKey (rc_ChainName r) (rc_ProtocolPath r) (rc_SourcePinId r)"

definition time_ok :: "int \<Rightarrow> bool" where
  "time_ok t \<longleftrightarrow> 0 \<le> t \<and> t < 2 ^ 63"

text \<open>What the keys need: no colon in what stands before another part, and times that are not negative.\<close>

definition rec_ok :: "'j Record \<Rightarrow> bool" where
  "rec_ok r \<longleftrightarrow> colon_free (rc_ChainName r) \<and> rc_ChainName r \<noteq> '''' \<and> isPublishedProtocol (rc_ProtocolPath r) \<and> rc_SourcePinId r \<noteq> ''''
     \<and> colon_free (rc_PublisherGlobalMetaId r) \<and> colon_free (rc_PublisherMetaId r) \<and> colon_free (rc_PublisherAddress r)
     \<and> time_ok (rc_CreatedAt r) \<and> time_ok (rc_UpdatedAt r)"

definition stored :: "'j Record codec \<Rightarrow> (bytes \<Rightarrow> bytes option) \<Rightarrow> 'j Record \<Rightarrow> bool" where
  "stored C c r \<longleftrightarrow> (\<exists>raw. c (rec_key r) = Some raw \<and> cd_Unmarshal C raw = Some r)"

definition pub_ok :: "'j Record codec \<Rightarrow> (bytes \<Rightarrow> bytes option) \<Rightarrow> bool" where
  "pub_ok C c \<longleftrightarrow> (\<forall>k raw. c k = Some raw \<and> prefix ''record:'' k \<longrightarrow> (\<exists>r. cd_Unmarshal C raw = Some r \<and> rec_ok r \<and> k = rec_key r))
     \<and> (\<forall>k. prefix ''by_'' k \<longrightarrow> (c k \<noteq> None \<longleftrightarrow> (\<exists>r. stored C c r \<and> k \<in> set (index_keys r))))"

lemma pub_ok_empty: "pub_ok C Map.empty"
  by (simp add: pub_ok_def stored_def)

lemma sort_time_ok: "rec_ok r \<Longrightarrow> time_ok (sortTimestamp r)"
  by (simp add: rec_ok_def sortTimestamp_def)

lemma rec_key_eq:
  assumes "colon_free ch" "colon_free pp" "colon_free ch'" "colon_free pp'"
  shows "recordKey ch pp src = recordKey ch' pp' src' \<longleftrightarrow> ch = ch' \<and> pp = pp' \<and> src = src'"
  using colon_parts [of ch ch' "pp @ '':'' @ src" "pp' @ '':'' @ src'"] colon_parts [of pp pp' src src'] assms by (simp add: recordKey_def)

text \<open>The three kinds of index: the prefix of their keys and the identity they are about.\<close>

definition kinds :: "(string \<times> ('j Record \<Rightarrow> string)) list" where
  "kinds = [(''by_global:'', rc_PublisherGlobalMetaId), (''by_metaid:'', rc_PublisherMetaId), (''by_address:'', rc_PublisherAddress)]"

definition index_key :: "string \<Rightarrow> string \<Rightarrow> 'j Record \<Rightarrow> bytes" where
  "index_key p i r = identityIndexKey p (rc_ProtocolPath r) i (sortTimestamp r) (rc_ChainName r) (rc_SourcePinId r)"

lemma index_keys_iff: "k \<in> set (index_keys r) \<longleftrightarrow> (\<exists>(p, f) \<in> set kinds. f r \<noteq> '''' \<and> k = index_key p (f r) r)"
  by (auto simp: index_keys_def kinds_def index_key_def Let_def byGlobalKey_def byMetaIdKey_def byAddressKey_def split: if_splits)

lemma kinds_prefix: "(p, f) \<in> set kinds \<Longrightarrow> (p', f') \<in> set kinds \<Longrightarrow> p @ x = p' @ x' \<Longrightarrow> p = p' \<and> f = f' \<and> x = x'"
  by (auto simp: kinds_def)

lemma index_key_eq:
  fixes r r' :: "'j Record"
  assumes "rec_ok r" "rec_ok r'" "(p, f) \<in> set kinds" "(p', f') \<in> set kinds"
  shows "index_key p (f r) r = index_key p' (f' r') r'
    \<longleftrightarrow> p = p' \<and> rc_ProtocolPath r = rc_ProtocolPath r' \<and> f r = f' r' \<and> sortTimestamp r = sortTimestamp r' \<and> rc_ChainName r = rc_ChainName r' \<and> rc_SourcePinId r = rc_SourcePinId r'"
    (is "?l \<longleftrightarrow> ?R")
proof
  let ?t = "\<lambda>r. invertedTimestamp (sortTimestamp r) @ '':'' @ rc_ChainName r @ '':'' @ rc_SourcePinId r"
  have cf: "colon_free (f r)" "colon_free (f' r')" using assms by (auto simp: kinds_def rec_ok_def)
  have pp: "colon_free (rc_ProtocolPath r)" "colon_free (rc_ProtocolPath r')" using assms(1,2) published_colon_free by (auto simp: rec_ok_def)
  assume ?l
  then have 0: "p = p'" "rc_ProtocolPath r @ '':'' @ f r @ '':'' @ ?t r = rc_ProtocolPath r' @ '':'' @ f' r' @ '':'' @ ?t r'"
    using kinds_prefix [OF assms(3,4)] unfolding index_key_def identityIndexKey_def by blast+
  have 1: "rc_ProtocolPath r = rc_ProtocolPath r'" "f r @ '':'' @ ?t r = f' r' @ '':'' @ ?t r'" using 0(2) colon_parts [OF pp] by blast+
  have 2: "f r = f' r'" "?t r = ?t r'" using 1(2) colon_parts [OF cf] by blast+
  have 3: "invertedTimestamp (sortTimestamp r) = invertedTimestamp (sortTimestamp r')" "rc_ChainName r @ '':'' @ rc_SourcePinId r = rc_ChainName r' @ '':'' @ rc_SourcePinId r'"
    using 2(2) colon_parts [OF inverted_colon_free(1) inverted_colon_free(1)] by blast+
  have "sortTimestamp r = sortTimestamp r'"
    using 3(1) inverted_inj sort_time_ok [OF assms(1)] sort_time_ok [OF assms(2)] by (simp add: time_ok_def)
  moreover have "rc_ChainName r = rc_ChainName r' \<and> rc_SourcePinId r = rc_SourcePinId r'"
    using 3(2) colon_parts [of "rc_ChainName r" "rc_ChainName r'"] assms(1,2) unfolding rec_ok_def by blast
  ultimately show ?R using 0(1) 1(1) 2(1) by blast
qed (simp add: index_key_def)

lemma index_keys_apart:
  fixes r r' :: "'j Record"
  assumes "rec_ok r" "rec_ok r'" "k \<in> set (index_keys r)" "k \<in> set (index_keys r')"
  shows "rec_key r = rec_key r'"
proof -
  obtain p f where 1: "(p, f) \<in> set kinds" "k = index_key p (f r) r" using assms(3) unfolding index_keys_iff by blast
  obtain p' f' where 2: "(p', f') \<in> set kinds" "k = index_key p' (f' r') r'" using assms(4) unfolding index_keys_iff by blast
  from index_key_eq [OF assms(1,2) 1(1) 2(1)] 1(2) 2(2) show ?thesis by (simp add: rec_key_def)
qed

lemma index_keys_by: "k \<in> set (index_keys r) \<Longrightarrow> prefix ''by_'' k"
  by (auto simp: index_keys_iff kinds_def index_key_def identityIndexKey_def)

lemma key_prefixes: "prefix ''record:'' (rec_key r)" "\<not> prefix ''by_'' (rec_key r)" "\<not> prefix ''record:'' (pinToSourceKey a b)" "\<not> prefix ''by_'' (pinToSourceKey a b)"
  "prefix ''by_'' k \<Longrightarrow> \<not> prefix ''record:'' k"
  by (auto simp: rec_key_def recordKey_def pinToSourceKey_def prefix_def)

lemma stored_ok:
  assumes "pub_ok C c" and "stored C c r"
  shows "rec_ok r"
proof -
  obtain raw where raw: "c (rec_key r) = Some raw" "cd_Unmarshal C raw = Some r" using assms(2) by (auto simp: stored_def)
  then obtain r' where "cd_Unmarshal C raw = Some r'" "rec_ok r'" using assms(1) key_prefixes(1) [of r] unfolding pub_ok_def by blast
  then show ?thesis using raw(2) by simp
qed

lemma stored_unique: "stored C c r \<Longrightarrow> stored C c r' \<Longrightarrow> rec_key r = rec_key r' \<Longrightarrow> r = r'"
  by (auto simp: stored_def)

text \<open>The database after a save: old index entries out, record, pin and new index entries in.\<close>

definition saved :: "(bytes \<Rightarrow> bytes option) \<Rightarrow> 'j Record \<Rightarrow> 'j Record option \<Rightarrow> bytes \<Rightarrow> bytes \<Rightarrow> bytes option" where
  "saved c rec previous raw k =
     (if k \<in> set (index_keys rec) then Some []
      else if rc_CurrentPinId rec \<noteq> '''' \<and> k = pinToSourceKey (rc_ChainName rec) (rc_CurrentPinId rec) then Some (rc_SourcePinId rec)
      else if k = rec_key rec then Some raw
      else case previous of None \<Rightarrow> c k | Some p \<Rightarrow> if k \<in> set (index_keys p) then None else c k)"

lemma pub_ok_saved:
  assumes ok: "pub_ok C c" and rec: "rec_ok rec" and raw: "cd_Unmarshal C raw = Some rec"
    and prev: "case previous of None \<Rightarrow> c (rec_key rec) = None | Some p \<Rightarrow> stored C c p \<and> rec_key p = rec_key rec"
  shows "pub_ok C (saved c rec previous raw)"
proof -
  let ?c = "saved c rec previous raw"
  have ri: "prefix ''record:'' k \<Longrightarrow> k \<notin> set (index_keys r)" for k and r :: "'a Record" using index_keys_by key_prefixes(5) by blast
  have rk: "?c k = (if k = rec_key rec then Some raw else c k)" if "prefix ''record:'' k" for k
    using that ri [OF that] key_prefixes(3) by (auto simp: saved_def split: option.splits)
  have st: "stored C ?c r \<longleftrightarrow> r = rec \<or> stored C c r \<and> rec_key r \<noteq> rec_key rec" for r
    using rk [OF key_prefixes(1) [of r]] raw by (auto simp: stored_def)
  have "\<exists>r. cd_Unmarshal C raw' = Some r \<and> rec_ok r \<and> k = rec_key r" if "?c k = Some raw'" "prefix ''record:'' k" for k raw'
    using that ok raw rec rk [OF that(2)] by (auto simp: pub_ok_def split: if_splits)
  moreover have "?c k \<noteq> None \<longleftrightarrow> (\<exists>r. stored C ?c r \<and> k \<in> set (index_keys r))" if by_k: "prefix ''by_'' k" for k
  proof -
    have c: "c k \<noteq> None \<longleftrightarrow> (\<exists>r. stored C c r \<and> k \<in> set (index_keys r))" using ok by_k by (simp add: pub_ok_def)
    have "?c k \<noteq> None \<longleftrightarrow> k \<in> set (index_keys rec) \<or> c k \<noteq> None \<and> (case previous of None \<Rightarrow> True | Some p \<Rightarrow> k \<notin> set (index_keys p))"
      using by_k key_prefixes(2,4) by (auto simp: saved_def split: option.splits)
    also have "\<dots> \<longleftrightarrow> k \<in> set (index_keys rec) \<or> (\<exists>r. stored C c r \<and> k \<in> set (index_keys r) \<and> rec_key r \<noteq> rec_key rec)"
    proof (cases previous)
      case None
      have "rec_key r \<noteq> rec_key rec" if "stored C c r" for r using that prev None by (auto simp: stored_def)
      then show ?thesis using c None by auto
    next
      case (Some p)
      then have p: "stored C c p" "rec_key p = rec_key rec" using prev by auto
      have "k \<notin> set (index_keys p) \<longleftrightarrow> rec_key r \<noteq> rec_key rec" if r: "stored C c r" "k \<in> set (index_keys r)" for r
        using index_keys_apart [OF stored_ok [OF ok r(1)] stored_ok [OF ok p(1)] r(2)] stored_unique [OF r(1) p(1)] r(2) p(2) by auto
      then show ?thesis unfolding c using Some by auto
    qed
    finally show ?thesis using st by auto
  qed
  ultimately show ?thesis unfolding pub_ok_def by blast
qed

subsection \<open>Pins keep the invariant\<close>

text \<open>A pin whose names can stand in keys, as the chain indexers make them.\<close>

definition pub_pin_ok :: "('s, 'j) pub_env \<Rightarrow> PinInscription \<Rightarrow> bool" where
  "pub_pin_ok A pin \<longleftrightarrow> ToLower (pu_U A) (TrimSpace (pi_ChainName pin)) = pi_ChainName pin \<and> colon_free (pi_ChainName pin) \<and> time_ok (pi_Timestamp pin)
     \<and> colon_free (canonicalPublisherGlobalMetaId A pin) \<and> colon_free (firstNonEmpty [pi_MetaId pin, pi_CreateMetaId pin])
     \<and> colon_free (firstNonEmpty [pi_Address pin, pi_CreateAddress pin])"

lemma new_rec_ok:
  assumes "pub_pin_ok A pin" "pi_ChainName pin \<noteq> ''''" "isPublishedProtocol pp" "src \<noteq> ''''"
  shows "rec_ok (newRecordFromPin A pin pp src b)"
  using assms by (auto simp: rec_ok_def pub_pin_ok_def newRecordFromPin_def Let_def)

lemma merge_rec:
  "rec_ok previous \<Longrightarrow> rec_ok candidate \<Longrightarrow> rec_ok (mergeConfirmedReplayWithPendingCurrent previous candidate i)"
  "rec_key (mergeConfirmedReplayWithPendingCurrent previous candidate i) = rec_key candidate"
  by (auto simp: mergeConfirmedReplayWithPendingCurrent_def rec_ok_def rec_key_def)

lemma modified_ok:
  assumes "pub_pin_ok A pin" "rec_ok previous" "rc_ChainName previous = pi_ChainName pin" "rc_ProtocolPath previous = pp"
  shows "rec_ok (modified A pin pp b previous)" "rec_key (modified A pin pp b previous) = rec_key previous"
proof -
  have "rec_ok (newRecordFromPin A pin pp (rc_SourcePinId previous) b)" by (rule new_rec_ok) (use assms in \<open>auto simp: rec_ok_def\<close>)
  then show "rec_ok (modified A pin pp b previous)" using assms(2) by (auto simp: modified_def Let_def rec_ok_def)
  show "rec_key (modified A pin pp b previous) = rec_key previous"
    using assms by (auto simp: modified_def Let_def rec_key_def newRecordFromPin_def pub_pin_ok_def)
qed

lemma revoked_ok:
  assumes "pub_pin_ok A pin" "rec_ok previous"
  shows "rec_ok (revoked pin b previous)" "rec_key (revoked pin b previous) = rec_key previous"
  using assms by (auto simp: revoked_def rec_ok_def rec_key_def pub_pin_ok_def)

locale pub_store = kv_deleting K loc content inv opened dbp
  for K :: "'s kv_api" and loc content inv opened dbp +
  fixes A :: "('s, 'j) pub_env"
  assumes env: "pu_K A = K"
    and codec: "\<exists>raw. cd_Marshal (pu_codec A) r = Inr raw \<and> cd_Unmarshal (pu_codec A) raw = Some r"
begin

abbreviation db :: "'s \<Rightarrow> bytes \<Rightarrow> bytes option" where "db s \<equiv> content s (loc pub_ns)"

definition good :: "'s \<Rightarrow> bool" where
  "good s \<longleftrightarrow> inv s \<and> pub_ok (pu_codec A) (db s)"

lemma set_db:
  assumes "inv s"
  obtains s' where "kv_Set K pub_ns k v s = (None, s')" and "inv s'" and "opened s' pub_ns" and "db s' = (db s)(k \<mapsto> v)"
proof -
  obtain s' where "kv_Set K pub_ns k v s = (None, s')" "inv s'" "content s' = (content s)(loc pub_ns := (db s)(k \<mapsto> v))" by (rule Set_eq [OF assms])
  then show thesis using that set_opens [OF assms, of pub_ns k v pub_ns] by simp
qed

lemma set_keys_db: "inv s \<Longrightarrow> opened s pub_ns \<Longrightarrow> \<exists>s'. set_keys K ks s = (None, s') \<and> inv s' \<and> opened s' pub_ns \<and> db s' = (\<lambda>k. if k \<in> set ks then Some [] else db s k)"
proof (induction ks arbitrary: s)
  case (Cons k ks)
  obtain s1 where "kv_Set K pub_ns k [] s = (None, s1)" "inv s1" "opened s1 pub_ns" "db s1 = (db s)(k \<mapsto> [])" by (rule set_db [OF Cons.prems(1)])
  then show ?case using Cons.IH [of s1] by (auto simp: fun_eq_iff)
qed simp

lemma delete_keys_db:
  "inv s \<Longrightarrow> opened s pub_ns \<Longrightarrow> inv (foldl (\<lambda>s k. snd (kv_Delete K pub_ns k s)) s ks) \<and> opened (foldl (\<lambda>s k. snd (kv_Delete K pub_ns k s)) s ks) pub_ns
    \<and> db (foldl (\<lambda>s k. snd (kv_Delete K pub_ns k s)) s ks) = (\<lambda>k. if k \<in> set ks then None else db s k)"
proof (induction ks arbitrary: s)
  case (Cons k ks)
  obtain s1 where s1: "kv_Delete K pub_ns k s = (None, s1)" "inv s1" "opened s1 = opened s" "content s1 = (content s)(loc pub_ns := (db s)(k := None))"
    by (rule Delete_eq [OF Cons.prems])
  then show ?case using Cons.IH [of s1] Cons.prems(2) by (auto simp: fun_eq_iff)
qed simp

lemma saveRecord_db:
  assumes i: "inv s" and o: "previous \<noteq> None \<Longrightarrow> opened s pub_ns" and r: "rec_ok rec"
  obtains s' raw where "saveRecord A rec previous s = (None, s')" and "inv s'" and "db s' = saved (db s) rec previous raw" and "cd_Unmarshal (pu_codec A) raw = Some rec"
proof -
  obtain raw where raw: "cd_Marshal (pu_codec A) rec = Inr raw" "cd_Unmarshal (pu_codec A) raw = Some rec" using codec by blast
  define s1 where "s1 = (case previous of None \<Rightarrow> s | Some p \<Rightarrow> deleteIdentityIndexes A p s)"
  define c1 where "c1 k = (case previous of None \<Rightarrow> db s k | Some p \<Rightarrow> if k \<in> set (index_keys p) then None else db s k)" for k
  have 1: "inv s1" "db s1 = c1"
    using i o delete_keys_db [of s] by (auto simp: s1_def c1_def fun_eq_iff deleteIdentityIndexes_def env split: option.splits)
  obtain s2 where 2: "kv_Set K pub_ns (rec_key rec) raw s1 = (None, s2)" "inv s2" "opened s2 pub_ns" "db s2 = (db s1)(rec_key rec \<mapsto> raw)" by (rule set_db [OF 1(1)])
  have ne: "rc_ChainName rec \<noteq> ''''" "rc_ProtocolPath rec \<noteq> ''''" "rc_SourcePinId rec \<noteq> ''''" using r published_colon_free by (auto simp: rec_ok_def)
  obtain s3 where 3: "mapPinToSource A (rc_ChainName rec) (rc_CurrentPinId rec) (rc_SourcePinId rec) s2 = (None, s3)" "inv s3" "opened s3 pub_ns"
    "db s3 = (if rc_CurrentPinId rec = '''' then db s2 else (db s2)(pinToSourceKey (rc_ChainName rec) (rc_CurrentPinId rec) \<mapsto> rc_SourcePinId rec))"
  proof (cases "rc_CurrentPinId rec = ''''")
    case True
    then show thesis using that [of s2] 2 by (simp add: mapPinToSource_def)
  next
    case False
    obtain s3 where "kv_Set K pub_ns (pinToSourceKey (rc_ChainName rec) (rc_CurrentPinId rec)) (rc_SourcePinId rec) s2 = (None, s3)" "inv s3" "opened s3 pub_ns"
      "db s3 = (db s2)(pinToSourceKey (rc_ChainName rec) (rc_CurrentPinId rec) \<mapsto> rc_SourcePinId rec)" by (rule set_db [OF 2(2)])
    then show thesis using that [of s3] False ne by (simp add: mapPinToSource_def env)
  qed
  obtain s4 where 4: "set_keys K (index_keys rec) s3 = (None, s4)" "inv s4" "db s4 = (\<lambda>k. if k \<in> set (index_keys rec) then Some [] else db s3 k)"
    using set_keys_db [OF 3(2,3)] by blast
  have "saveRecord A rec previous s = (None, s4)"
    using ne raw(1) 2(1) 3(1) 4(1) by (simp add: saveRecord_def s1_def [symmetric] save_json_def env rec_key_def writeIdentityIndexes_def)
  moreover have "db s4 = saved (db s) rec previous raw"
    unfolding 4(3) 3(4) 2(4) 1(2) by (auto simp: saved_def c1_def fun_eq_iff)
  ultimately show thesis using that 4(2) raw(2) by blast
qed

lemma save_good:
  assumes g: "good s" and o: "previous \<noteq> None \<Longrightarrow> opened s pub_ns" and r: "rec_ok rec"
    and p: "case previous of None \<Rightarrow> db s (rec_key rec) = None | Some p \<Rightarrow> stored (pu_codec A) (db s) p \<and> rec_key p = rec_key rec"
  shows "\<exists>s'. saveRecord A rec previous s = (None, s') \<and> good s'"
proof -
  have i: "inv s" using g by (simp add: good_def)
  obtain s' raw where s': "saveRecord A rec previous s = (None, s')" "inv s'" "db s' = saved (db s) rec previous raw" "cd_Unmarshal (pu_codec A) raw = Some rec"
    by (rule saveRecord_db [OF i o r])
  then show ?thesis using pub_ok_saved [OF _ r s'(4) p] g by (auto simp: good_def)
qed

lemma load_db:
  assumes g: "good s" and ch: "colon_free ch" "ch \<noteq> ''''" and pp: "isPublishedProtocol pp" and src: "src \<noteq> ''''"
  obtains s' where "loadRecord A ch pp src s = (Inr (case db s (recordKey ch pp src) of None \<Rightarrow> None | Some raw \<Rightarrow> cd_Unmarshal (pu_codec A) raw), s')"
    and "inv s'" and "opened s' pub_ns" and "content s' = content s"
    and "\<forall>raw. db s (recordKey ch pp src) = Some raw \<longrightarrow> (\<exists>r. cd_Unmarshal (pu_codec A) raw = Some r \<and> stored (pu_codec A) (db s) r
      \<and> rec_ok r \<and> rc_ChainName r = ch \<and> rc_ProtocolPath r = pp \<and> rc_SourcePinId r = src)"
proof -
  have i: "inv s" using g by (simp add: good_def)
  obtain s' where s': "kv_Get K pub_ns (recordKey ch pp src) s = (case db s (recordKey ch pp src) of None \<Rightarrow> Inl ErrNotFound | Some v \<Rightarrow> Inr v, s')" "inv s'" "content s' = content s"
    by (rule Get_eq [OF i])
  have o: "opened s' pub_ns" using get_opens [OF i, of pub_ns "recordKey ch pp src" pub_ns] s'(1) by simp
  have found: "\<exists>r. cd_Unmarshal (pu_codec A) raw = Some r \<and> stored (pu_codec A) (db s) r \<and> rec_ok r \<and> rc_ChainName r = ch \<and> rc_ProtocolPath r = pp \<and> rc_SourcePinId r = src"
    if raw: "db s (recordKey ch pp src) = Some raw" for raw
  proof -
    have "prefix ''record:'' (recordKey ch pp src)" by (simp add: recordKey_def)
    then obtain r where r: "cd_Unmarshal (pu_codec A) raw = Some r" "rec_ok r" "recordKey ch pp src = rec_key r"
      using g raw by (fastforce simp: good_def pub_ok_def)
    moreover have "ch = rc_ChainName r \<and> pp = rc_ProtocolPath r \<and> src = rc_SourcePinId r"
      using r(2,3) ch(1) published_colon_free [OF pp] published_colon_free rec_key_eq unfolding rec_key_def rec_ok_def by blast
    ultimately show ?thesis using raw by (auto simp: stored_def)
  qed
  show thesis
    by (rule that [of s']) (use s' o found ch(2) src published_colon_free [OF pp] in \<open>auto simp: loadRecord_def env split: option.splits\<close>)
qed

end

lemma pub_ok_other:
  assumes "pub_ok C c"
  shows "pub_ok C (c(pinToSourceKey a b \<mapsto> v))"
proof -
  have "stored C (c(pinToSourceKey a b \<mapsto> v)) r = stored C c r" for r
    using key_prefixes(1) [of r] key_prefixes(3) [of a b] by (auto simp: stored_def)
  moreover have "prefix ''by_'' k \<or> prefix ''record:'' k \<Longrightarrow> (c(pinToSourceKey a b \<mapsto> v)) k = c k" for k using key_prefixes(3,4) [of a b] by auto
  ultimately show ?thesis using assms unfolding pub_ok_def by (metis (lifting))
qed

text \<open>One delivery: a pin with the flag of the mempool.\<close>

definition pub_step :: "('s, 'j) pub_env \<Rightarrow> 's \<Rightarrow> PinInscription \<times> bool \<Rightarrow> 's" where
  "pub_step A s pb = snd ((if snd pb then pub_HandleMempoolPin else pub_HandleBlockPin) A (fst pb) s)"

context pub_store
begin

lemma good_mono: "good s \<Longrightarrow> inv s' \<Longrightarrow> content s' = content s \<Longrightarrow> good s'"
  by (simp add: good_def)

lemma source_loop_db: "inv s \<Longrightarrow> inv (snd (source_loop A ch n seen cur s)) \<and> content (snd (source_loop A ch n seen cur s)) = content s"
proof (induction n arbitrary: seen cur s)
  case (Suc n)
  obtain r s1 where "kv_Get K pub_ns (pinToSourceKey ch cur) s = (r, s1)" "inv s1" "content s1 = content s" using Get_eq [OF Suc.prems] by metis
  then show ?case using Suc.IH [of s1] Suc.prems by (auto simp: env Let_def split: sum.splits)
qed simp

lemma source_db:
  assumes "inv s"
  obtains src s' where "sourcePinIdFor A ch i s = (src, s')" and "inv s'" and "content s' = content s"
  using source_loop_db [OF assms, of ch 32 "[]" i] assms that by (cases "sourcePinIdFor A ch i s") (auto simp: sourcePinIdFor_def split: if_splits)

lemma map_pin_good:
  assumes "good s"
  shows "\<exists>s'. mapPinToSource A ch i src s = (None, s') \<and> good s'"
proof (cases "ch = '''' \<or> i = '''' \<or> src = ''''")
  case False
  have i: "inv s" using assms by (simp add: good_def)
  obtain s' where s': "kv_Set K pub_ns (pinToSourceKey ch i) src s = (None, s')" "inv s'" "opened s' pub_ns" "db s' = (db s)(pinToSourceKey ch i \<mapsto> src)" by (rule set_db [OF i])
  have "pub_ok (pu_codec A) (db s')" unfolding s'(4) using assms by (simp add: good_def pub_ok_other)
  then show ?thesis using s'(1,2) False by (auto simp: mapPinToSource_def env good_def)
qed (use assms in \<open>auto simp: mapPinToSource_def\<close>)

lemma create_good:
  assumes g: "good s" and p: "pub_pin_ok A pin" "pi_ChainName pin \<noteq> ''''" "isPublishedProtocol pp" "pi_Id pin \<noteq> ''''"
  shows "\<exists>s'. processCreate A pin pp b s = (None, s') \<and> good s'"
proof -
  let ?k = "recordKey (pi_ChainName pin) pp (pi_Id pin)"
  let ?new = "newRecordFromPin A pin pp (pi_Id pin) b"
  have cf: "colon_free (pi_ChainName pin)" using p(1) by (simp add: pub_pin_ok_def)
  have new: "rec_ok ?new" "rec_key ?new = ?k" using new_rec_ok [OF p] p(1) by (auto simp: rec_key_def newRecordFromPin_def Let_def pub_pin_ok_def)
  obtain s' where l: "loadRecord A (pi_ChainName pin) pp (pi_Id pin) s = (Inr (case db s ?k of None \<Rightarrow> None | Some raw \<Rightarrow> cd_Unmarshal (pu_codec A) raw), s')"
    "inv s'" "opened s' pub_ns" "content s' = content s"
    "\<forall>raw. db s ?k = Some raw \<longrightarrow> (\<exists>r. cd_Unmarshal (pu_codec A) raw = Some r \<and> stored (pu_codec A) (db s) r
      \<and> rec_ok r \<and> rc_ChainName r = pi_ChainName pin \<and> rc_ProtocolPath r = pp \<and> rc_SourcePinId r = pi_Id pin)"
    by (rule load_db [OF g cf p(2) p(3) p(4)])
  have g': "good s'" using good_mono [OF g l(2,4)] .
  show ?thesis
  proof (cases "db s ?k")
    case None
    then have "\<exists>s''. saveRecord A ?new None s' = (None, s'') \<and> good s''" by (intro save_good g' new(1)) (simp_all add: new(2) l(4))
    then show ?thesis using None l(1) by (simp add: processCreate_def Let_def)
  next
    case (Some raw)
    obtain r where r: "cd_Unmarshal (pu_codec A) raw = Some r" "stored (pu_codec A) (db s) r" "rec_ok r"
      "rc_ChainName r = pi_ChainName pin" "rc_ProtocolPath r = pp" "rc_SourcePinId r = pi_Id pin" using l(5) Some by blast
    have k: "rec_key r = ?k" by (simp add: rec_key_def r(4-6))
    have "\<exists>s''. saveRecord A (mergeConfirmedReplayWithPendingCurrent r ?new (pi_Id pin)) (Some r) s' = (None, s'') \<and> good s''"
      by (intro save_good g' merge_rec(1) r(3) new(1) l(3)) (simp add: merge_rec(2) new(2) k r(2) l(4))
    then show ?thesis using Some r(1) l(1) g' by (cases b) (simp_all add: processCreate_def Let_def)
  qed
qed

lemma update_good:
  assumes g: "good s" and p: "pub_pin_ok A pin" "pi_ChainName pin \<noteq> ''''" "isPublishedProtocol pp"
    and upd: "\<And>r. rec_ok r \<Longrightarrow> rc_ChainName r = pi_ChainName pin \<Longrightarrow> rc_ProtocolPath r = pp \<Longrightarrow> rec_ok (update r) \<and> rec_key (update r) = rec_key r"
  shows "\<exists>s'. process_update A pin pp update s = (None, s') \<and> good s'"
proof (cases "targetPinID pin = ''''")
  case False
  have cf: "colon_free (pi_ChainName pin)" using p(1) by (simp add: pub_pin_ok_def)
  obtain src s1 where src: "sourcePinIdFor A (pi_ChainName pin) (targetPinID pin) s = (src, s1)" "inv s1" "content s1 = content s"
    using source_db g unfolding good_def by metis
  have g1: "good s1" by (rule good_mono [OF g src(2,3)])
  show ?thesis
  proof (cases "src = ''''")
    case True
    then show ?thesis using src g1 False by (simp add: process_update_def loadRecordByAnyPinId_def Let_def)
  next
    case src_ne: False
    let ?k = "recordKey (pi_ChainName pin) pp src"
    obtain s2 where l: "loadRecord A (pi_ChainName pin) pp src s1 = (Inr (case db s1 ?k of None \<Rightarrow> None | Some raw \<Rightarrow> cd_Unmarshal (pu_codec A) raw), s2)"
      "inv s2" "opened s2 pub_ns" "content s2 = content s1"
      "\<forall>raw. db s1 ?k = Some raw \<longrightarrow> (\<exists>r. cd_Unmarshal (pu_codec A) raw = Some r \<and> stored (pu_codec A) (db s1) r
        \<and> rec_ok r \<and> rc_ChainName r = pi_ChainName pin \<and> rc_ProtocolPath r = pp \<and> rc_SourcePinId r = src)"
      by (rule load_db [OF g1 cf p(2) p(3) src_ne])
    have g2: "good s2" by (rule good_mono [OF g1 l(2,4)])
    show ?thesis
    proof (cases "db s1 ?k")
      case None
      then show ?thesis using src src_ne l(1) g2 False by (simp add: process_update_def loadRecordByAnyPinId_def Let_def)
    next
      case (Some raw)
      obtain r where r: "cd_Unmarshal (pu_codec A) raw = Some r" "stored (pu_codec A) (db s1) r" "rec_ok r" "rc_ChainName r = pi_ChainName pin" "rc_ProtocolPath r = pp"
        using l(5) Some by blast
      have u: "rec_ok (update r)" "rec_key (update r) = rec_key r" using upd [OF r(3-5)] by blast+
      obtain s3 where s3: "saveRecord A (mergeConfirmedReplayWithPendingCurrent r (update r) (pi_Id pin)) (Some r) s2 = (None, s3)" "good s3"
        using save_good [OF g2 l(3) merge_rec(1) [OF r(3) u(1)], of "pi_Id pin" "Some r"] u(2) r(2) l(4) by (auto simp: merge_rec(2))
      then show ?thesis using src src_ne l(1) False Some r(1) map_pin_good [OF s3(2)] by (simp add: process_update_def loadRecordByAnyPinId_def Let_def)
    qed
  qed
qed (use g in \<open>simp add: process_update_def\<close>)

lemma pin_good:
  assumes "good s" and "pub_pin_ok A pin"
  shows "\<exists>s'. processPin A pin b s = (None, s') \<and> good s'"
proof -
  have rev: "rec_ok (revoked pin b r) \<and> rec_key (revoked pin b r) = rec_key r" if "rec_ok r" for r using revoked_ok [OF assms(2) that] by blast
  have md: "rec_ok (modified A pin pp b r) \<and> rec_key (modified A pin pp b r) = rec_key r" if "rec_ok r" "rc_ChainName r = pi_ChainName pin" "rc_ProtocolPath r = pp" for r pp
    using modified_ok [OF assms(2) that] by blast
  have up: "\<exists>s'. processModify A pin pp b s = (None, s') \<and> good s'" "\<exists>s'. processRevoke A pin pp b s = (None, s') \<and> good s'"
    if c: "pi_ChainName pin \<noteq> ''''" "isPublishedProtocol pp" for pp
    unfolding processModify_def processRevoke_def
    by (rule update_good [OF assms c md], assumption+, rule update_good [OF assms c rev], assumption)
  show ?thesis
    using create_good [OF assms] up assms(1) by (auto simp: processPin_def Let_def)
qed

lemma run_good: "good s \<Longrightarrow> \<forall>pb \<in> set pins. pub_pin_ok A (fst pb) \<Longrightarrow> good (foldl (pub_step A) s pins)"
proof (induction pins arbitrary: s)
  case (Cons pb pins)
  obtain s' where "processPin A (fst pb) (snd pb) s = (None, s')" "good s'" using pin_good [of s "fst pb" "snd pb"] Cons.prems by auto
  then show ?case using Cons by (auto simp: pub_step_def pub_HandleBlockPin_def pub_HandleMempoolPin_def)
qed simp

end

subsection \<open>Lists by identity\<close>

text \<open>The entry of \<open>r\<close> in an index with prefix \<open>P\<close>.\<close>

definition entry_of :: "bytes \<Rightarrow> bytes \<times> bytes \<Rightarrow> 'j Record \<Rightarrow> bool" where
  "entry_of P kv r \<longleftrightarrow> fst kv = P @ invertedTimestamp (sortTimestamp r) @ '':'' @ rc_ChainName r @ '':'' @ rc_SourcePinId r"

lemma parse_entry: "entry_of P kv r \<Longrightarrow> colon_free (rc_ChainName r) \<Longrightarrow> parseIdentityIndexKey (fst kv) P = Some (rc_ChainName r, rc_SourcePinId r)"
  using inverted_colon_free(1) by (simp add: entry_of_def parseIdentityIndexKey_def HasPrefix_def split_colon_app [simplified])

text \<open>The entries under the prefix of an identity are those of its records.\<close>

lemma identity_entries:
  fixes r :: "'j Record"
  assumes kind: "(p, f) \<in> set kinds" and pp: "isPublishedProtocol pp" and i: "colon_free i" "i \<noteq> ''''" and r: "rec_ok r"
  shows "(\<exists>k \<in> set (index_keys r). prefix (identityIndexPrefix p pp i) k \<and> k = fst kv)
    \<longleftrightarrow> f r = i \<and> rc_ProtocolPath r = pp \<and> entry_of (identityIndexPrefix p pp i) kv r"
    (is "?l \<longleftrightarrow> ?R")
proof
  let ?t = "\<lambda>r. invertedTimestamp (sortTimestamp r) @ '':'' @ rc_ChainName r @ '':'' @ rc_SourcePinId r"
  show "?R \<Longrightarrow> ?l" using kind i(2) by (auto simp: index_keys_iff index_key_def identityIndexKey_def entry_of_def identityIndexPrefix_def)
  assume ?l
  then have "fst kv \<in> set (index_keys r)" and pre: "prefix (identityIndexPrefix p pp i) (fst kv)" by auto
  then obtain p' f' where k: "(p', f') \<in> set kinds" "fst kv = index_key p' (f' r) r" unfolding index_keys_iff by blast
  with pre obtain x where x: "p' @ rc_ProtocolPath r @ '':'' @ f' r @ '':'' @ ?t r = p @ pp @ '':'' @ i @ '':'' @ x"
    unfolding prefix_def index_key_def identityIndexKey_def identityIndexPrefix_def by auto
  note 1 = kinds_prefix [OF k(1) kind x]
  then have 2: "rc_ProtocolPath r @ '':'' @ f' r @ '':'' @ ?t r = pp @ '':'' @ i @ '':'' @ x" by blast
  have cf: "colon_free (rc_ProtocolPath r)" "colon_free pp" "colon_free (f' r)"
    using r pp k(1) published_colon_free by (auto simp: rec_ok_def kinds_def)
  have 3: "rc_ProtocolPath r = pp" "f' r @ '':'' @ ?t r = i @ '':'' @ x" using 2 colon_parts [OF cf(1,2)] by blast+
  have "f' r = i" using 3(2) colon_parts [OF cf(3) i(1)] by blast
  then show ?R using 1 3(1) k(2) by (simp add: entry_of_def index_key_def identityIndexKey_def identityIndexPrefix_def)
qed

lemma entry_unique:
  assumes "entry_of P kv r" "entry_of P kv r'" "rec_ok r" "rec_ok r'" "rc_ProtocolPath r = rc_ProtocolPath r'"
  shows "rec_key r = rec_key r'"
proof -
  have cf: "colon_free (rc_ChainName r)" "colon_free (rc_ChainName r')" using assms(3,4) by (simp_all add: rec_ok_def)
  have "invertedTimestamp (sortTimestamp r) @ '':'' @ rc_ChainName r @ '':'' @ rc_SourcePinId r
      = invertedTimestamp (sortTimestamp r') @ '':'' @ rc_ChainName r' @ '':'' @ rc_SourcePinId r'"
    using assms(1,2) unfolding entry_of_def by (metis same_append_eq)
  then have "rc_ChainName r @ '':'' @ rc_SourcePinId r = rc_ChainName r' @ '':'' @ rc_SourcePinId r'"
    using colon_parts [OF inverted_colon_free(1) inverted_colon_free(1)] by blast
  then show ?thesis using colon_parts [OF cf] assms(5) by (simp add: rec_key_def)
qed

lemma less_same_length: "length xs = length ys \<Longrightarrow> xs < ys \<Longrightarrow> xs @ a < ys @ (b :: string)"
  by (induction xs ys rule: list_induct2) auto

lemma less_same_prefix: "(xs @ a < xs @ (b :: string)) = (a < b)"
  by (induction xs) auto

lemma entry_newer:
  assumes "entry_of P kv r" "entry_of P kv' r'" "fst kv < fst kv'" "time_ok (sortTimestamp r)" "time_ok (sortTimestamp r')"
  shows "sortTimestamp r' \<le> sortTimestamp r"
proof (rule ccontr)
  assume "\<not> ?thesis"
  then have "invertedTimestamp (sortTimestamp r') < invertedTimestamp (sortTimestamp r)" using inverted_less assms(4,5) by (auto simp: time_ok_def)
  then have "invertedTimestamp (sortTimestamp r') @ y' < invertedTimestamp (sortTimestamp r) @ y" for y y'
    using inverted_colon_free(2) by (intro less_same_length) simp_all
  then have "fst kv' < fst kv" using assms(1,2) by (simp add: entry_of_def less_same_prefix del: append_assoc Cons_less_Cons append.simps)
  then show False using assms(3) by simp
qed

context pub_store
begin

lemma identity_loop_db:
  fixes limit :: int
  assumes "good s" and "db s = c" and "list_all2 (\<lambda>kv r. entry_of P kv r \<and> stored (pu_codec A) c r \<and> rc_ProtocolPath r = lq_ProtocolPath params) kvs rs"
    and "int (length out) < limit"
  shows "\<exists>s'. identity_loop A P params limit kvs out s = (Inr (take (nat limit) (out @ filter (\<lambda>r. recordMatches r params) rs)), s')"
  using assms(3,1,2,4)
proof (induction kvs rs arbitrary: out s rule: list_all2_induct)
  case Nil
  then show ?case by simp
next
  case (Cons kv kvs r rs)
  have r: "entry_of P kv r" "stored (pu_codec A) (db s) r" "rc_ProtocolPath r = lq_ProtocolPath params" using Cons.hyps(1) Cons.prems(2) by auto
  have ok: "rec_ok r" by (rule stored_ok [OF _ r(2)]) (use Cons.prems(1) in \<open>simp add: good_def\<close>)
  have parse: "parseIdentityIndexKey (fst kv) P = Some (rc_ChainName r, rc_SourcePinId r)" using parse_entry [OF r(1)] ok by (simp add: rec_ok_def)
  obtain raw where raw: "db s (recordKey (rc_ChainName r) (rc_ProtocolPath r) (rc_SourcePinId r)) = Some raw" "cd_Unmarshal (pu_codec A) raw = Some r"
    using r(2) by (auto simp: stored_def rec_key_def)
  obtain s1 where l: "loadRecord A (rc_ChainName r) (rc_ProtocolPath r) (rc_SourcePinId r) s = (Inr (Some r), s1)" "inv s1" "content s1 = content s"
    by (rule load_db [OF Cons.prems(1), of "rc_ChainName r" "rc_ProtocolPath r" "rc_SourcePinId r"]) (use ok raw in \<open>simp_all add: rec_ok_def\<close>)
  have next_loop: "\<exists>s'. identity_loop A P params limit kvs out' s'' = (Inr (take (nat limit) (out' @ filter (\<lambda>r. recordMatches r params) rs)), s')"
    if "int (length out') < limit" "inv s''" "content s'' = content s" for out' s''
    using Cons.IH [of s'' out'] that good_mono [OF Cons.prems(1)] Cons.prems(2) by simp
  show ?case
  proof (cases "recordMatches r params")
    case False
    then show ?thesis using parse l(1) r(3) next_loop [OF Cons.prems(3) l(2,3)] next_loop [OF Cons.prems(3) _ refl] Cons.prems(1) by (simp add: good_def)
  next
    case True
    then have "\<not> (lq_ChainName params \<noteq> '''' \<and> rc_ChainName r \<noteq> lq_ChainName params)" by (auto simp: recordMatches_def split: if_splits)
    moreover have "nat limit = Suc (length out)" if "limit \<le> int (length (out @ [r]))" using that Cons.prems(3) by simp
    ultimately show ?thesis using True parse l(1) r(3) next_loop [OF _ l(2,3), of "out @ [r]"] Cons.prems(3)
      by (cases "limit \<le> int (length (out @ [r]))") auto
  qed
qed

lemma scan_records:
  fixes f :: "'j Record \<Rightarrow> string" and s :: 's and limit :: int
  assumes g: "good s" and kind: "(p, f) \<in> set kinds" and pp: "isPublishedProtocol (lq_ProtocolPath params)" and i: "colon_free i" "i \<noteq> ''''"
    and only: "\<forall>r. recordMatches r params \<longrightarrow> f r = i" and limit: "0 < limit"
  obtains s' recs where "scanIdentity A (identityIndexPrefix p (lq_ProtocolPath params) i) params limit s = (Inr (take (nat limit) recs), s')"
    and "distinct recs" and "set recs = {r. stored (pu_codec A) (db s) r \<and> recordMatches r params}"
    and "sorted_wrt (\<lambda>a b. sortTimestamp b \<le> sortTimestamp a) recs"
proof -
  let ?P = "identityIndexPrefix p (lq_ProtocolPath params) i" and ?C = "pu_codec A"
  have inv: "inv s" and ok: "pub_ok ?C (db s)" using g by (auto simp: good_def)
  obtain kvs s1 where sc: "kv_Scan K pub_ns ?P s = (Inr kvs, s1)" "inv s1" "content s1 = content s" "sorted_wrt (<) (map fst kvs)"
      "set kvs = {(k, v). db s k = Some v \<and> prefix ?P k}"
    by (rule Scan_eq [OF inv])
  have by_P: "prefix ''by_'' k" if "prefix ?P k" for k using that kind by (auto simp: kinds_def identityIndexPrefix_def prefix_def)
  have entries: "kv \<in> set kvs \<longleftrightarrow> db s (fst kv) = Some (snd kv) \<and> (\<exists>r. stored ?C (db s) r \<and> f r = i \<and> rc_ProtocolPath r = lq_ProtocolPath params \<and> entry_of ?P kv r)" for kv
  proof -
    have "kv \<in> set kvs \<longleftrightarrow> db s (fst kv) = Some (snd kv) \<and> prefix ?P (fst kv)" using sc(5) by (cases kv) auto
    also have "\<dots> \<longleftrightarrow> db s (fst kv) = Some (snd kv) \<and> (\<exists>r. stored ?C (db s) r \<and> (\<exists>k \<in> set (index_keys r). prefix ?P k \<and> k = fst kv))"
      using ok by_P [of "fst kv"] unfolding pub_ok_def by (metis option.distinct(1))
    also have "\<dots> \<longleftrightarrow> db s (fst kv) = Some (snd kv) \<and> (\<exists>r. stored ?C (db s) r \<and> f r = i \<and> rc_ProtocolPath r = lq_ProtocolPath params \<and> entry_of ?P kv r)"
      by (intro conj_cong refl ex_cong1 identity_entries [OF kind pp i] stored_ok [OF ok])
    finally show ?thesis .
  qed
  then obtain h where h: "\<And>kv. kv \<in> set kvs \<Longrightarrow> stored ?C (db s) (h kv) \<and> f (h kv) = i \<and> rc_ProtocolPath (h kv) = lq_ProtocolPath params \<and> entry_of ?P kv (h kv)"
    by metis
  let ?recs = "filter (\<lambda>r. recordMatches r params) (map h kvs)"
  have "good s1" by (rule good_mono [OF g sc(2,3)])
  then have loop: "\<exists>s'. scanIdentity A ?P params limit s = (Inr (take (nat limit) ?recs), s')"
    using identity_loop_db [of s1 "db s" ?P params kvs "map h kvs" "[]" limit] sc(1,3) h limit
    by (simp add: scanIdentity_def env list_all2_conv_all_nth)
  have inj: "fst kv = fst kv'" if "kv \<in> set kvs" "kv' \<in> set kvs" "h kv = h kv'" for kv kv' using h [OF that(1)] h [OF that(2)] that(3) by (simp add: entry_of_def)
  have "distinct (map fst kvs)" using sc(4) by (simp add: strict_sorted_iff)
  then have d: "distinct kvs" "inj_on fst (set kvs)" by (simp_all add: distinct_map)
  have "inj_on h (set kvs)" by (rule inj_onI) (rule inj_onD [OF d(2) inj])
  then have dist: "distinct (map h kvs)" using d(1) by (simp add: distinct_map)
  have mem: "r \<in> h ` set kvs" if r: "stored ?C (db s) r" "recordMatches r params" for r
  proof -
    have ro: "rec_ok r" by (rule stored_ok [OF ok r(1)])
    have fr: "f r = i" "rc_ProtocolPath r = lq_ProtocolPath params"
      using only r(2) pp published_colon_free by (auto simp: recordMatches_def split: if_splits)
    let ?k = "index_key p (f r) r"
    have k: "?k \<in> set (index_keys r)" using kind fr(1) i(2) by (auto simp: index_keys_iff)
    then obtain v where v: "db s ?k = Some v" using ok r(1) index_keys_by unfolding pub_ok_def by (metis not_None_eq)
    have e: "entry_of ?P (?k, v) r" using fr by (simp add: entry_of_def index_key_def identityIndexKey_def identityIndexPrefix_def)
    then have kv: "(?k, v) \<in> set kvs" using entries [of "(?k, v)"] v r(1) fr by auto
    have hk: "stored ?C (db s) (h (?k, v))" "rc_ProtocolPath (h (?k, v)) = lq_ProtocolPath params" "entry_of ?P (?k, v) (h (?k, v))" using h [OF kv] by blast+
    have "rec_key (h (?k, v)) = rec_key r" by (rule entry_unique [OF hk(3) e stored_ok [OF ok hk(1)] ro]) (simp add: hk(2) fr(2))
    then have "h (?k, v) = r" by (rule stored_unique [OF hk(1) r(1)])
    then show ?thesis using kv by (metis imageI)
  qed
  have "sorted_wrt (\<lambda>a b. sortTimestamp b \<le> sortTimestamp a) (map h kvs)"
    unfolding sorted_wrt_map
  proof (rule sorted_wrt_mono_rel [OF _ sc(4) [unfolded sorted_wrt_map]])
    fix kv kv' assume "kv \<in> set kvs" "kv' \<in> set kvs" "fst kv < fst kv'"
    then show "sortTimestamp (h kv') \<le> sortTimestamp (h kv)" using entry_newer h stored_ok [OF ok] sort_time_ok by meson
  qed
  then have "sorted_wrt (\<lambda>a b. sortTimestamp b \<le> sortTimestamp a) ?recs" by (rule sorted_wrt_filter)
  moreover have "set ?recs = {r. stored ?C (db s) r \<and> recordMatches r params}" using mem h by auto
  moreover have "distinct ?recs" using dist by (rule distinct_filter)
  ultimately show thesis using loop that by blast
qed

end

subsection \<open>The module on the memory store\<close>

definition put_int :: "int \<Rightarrow> bytes" where
  "put_int i = put_str (replicate (nat i) CHR ''+'') @ put_str (replicate (nat (- i)) CHR ''-'')"

definition get_int :: "bytes \<Rightarrow> int \<times> bytes" where
  "get_int b = (let (p, b1) = get_str b; (q, b2) = get_str b1 in (int (length p) - int (length q), b2))"

lemma get_put_int [simp]: "get_int (put_int i @ r) = (i, r)"
  by (simp add: get_int_def put_int_def)

definition flag :: "bool \<Rightarrow> string" where
  "flag b = (if b then ''y'' else '''')"

definition demo_record_codec :: "unit Record codec" where
  "demo_record_codec =
     \<lparr>cd_Marshal = (\<lambda>r. Inr (concat (map put_str
         [rc_SourcePinId r, rc_CurrentPinId r, rc_ChainName r, rc_ProtocolPath r, rc_PublisherGlobalMetaId r, rc_PublisherMetaId r, rc_PublisherAddress r,
          rc_Operation r, flag (rc_Hidden r), flag (rc_IsMempool r), rc_ContentType r, rc_PayloadText r, flag (rc_PayloadJSON r \<noteq> None), flag (rc_PayloadExposed r),
          rc_SourcePath r, rc_CurrentPath r, rc_SourceHost r, rc_CurrentHost r])
         @ put_int (rc_CreatedAt r) @ put_int (rc_UpdatedAt r) @ put_int (rc_SourceNumber r) @ put_int (rc_CurrentNumber r))),
      cd_Unmarshal = (\<lambda>raw.
        let (a1, r) = get_str raw; (a2, r) = get_str r; (a3, r) = get_str r; (a4, r) = get_str r; (a5, r) = get_str r; (a6, r) = get_str r; (a7, r) = get_str r;
            (a8, r) = get_str r; (a9, r) = get_str r; (a10, r) = get_str r; (a11, r) = get_str r; (a12, r) = get_str r; (a13, r) = get_str r; (a14, r) = get_str r;
            (a15, r) = get_str r; (a16, r) = get_str r; (a17, r) = get_str r; (a18, r) = get_str r; (i1, r) = get_int r; (i2, r) = get_int r; (i3, r) = get_int r; (i4, r) = get_int r
        in Some \<lparr>rc_SourcePinId = a1, rc_CurrentPinId = a2, rc_ChainName = a3, rc_ProtocolPath = a4, rc_PublisherGlobalMetaId = a5, rc_PublisherMetaId = a6,
          rc_PublisherAddress = a7, rc_Operation = a8, rc_Hidden = (a9 \<noteq> ''''), rc_IsMempool = (a10 \<noteq> ''''), rc_ContentType = a11, rc_PayloadText = a12,
          rc_PayloadJSON = (if a13 \<noteq> '''' then Some () else None), rc_PayloadExposed = (a14 \<noteq> ''''), rc_CreatedAt = i1, rc_UpdatedAt = i2, rc_SourceNumber = i3,
          rc_CurrentNumber = i4, rc_SourcePath = a15, rc_CurrentPath = a16, rc_SourceHost = a17, rc_CurrentHost = a18\<rparr>)\<rparr>"

lemma flag_eq [simp]: "flag b = [] \<longleftrightarrow> \<not> b"
  by (simp add: flag_def)

lemma demo_record_roundtrip: "\<exists>raw. cd_Marshal demo_record_codec r = Inr raw \<and> cd_Unmarshal demo_record_codec raw = Some r"
proof -
  have i: "get_int (put_int i) = (i, [])" for i using get_put_int [of i "[]"] by simp
  show ?thesis by (cases r; cases "rc_PayloadJSON r") (simp_all add: demo_record_codec_def i)
qed

definition demo_pub :: "((mem_world, string) store_state, unit) pub_env" where
  "demo_pub = \<lparr>pu_U = plain_unicode, pu_B = plain_base58, pu_K = PebbleStore_kv mem_pebble, pu_codec = demo_record_codec, pu_object = (\<lambda>raw. None)\<rparr>"

interpretation demo_pub: pub_store "PebbleStore_kv mem_pebble" "filepath_Join ''data''" "\<lambda>st. mem_disk (snd st)"
  "store_inv (\<lambda>h. h) (\<lambda>w h. True) ''data''" "\<lambda>st ns. PebbleStore_GetDB ns st \<noteq> None" "PebbleStore_DeleteByPrefix mem_pebble" demo_pub
  by (intro pub_store.intro memd.kvd.kv_deleting_axioms pub_store_axioms.intro) (simp_all add: demo_pub_def demo_record_roundtrip)

subsection \<open>Properties\<close>

text \<open>C20: after any create, modify and revoke pins, from blocks and mempools and in any order, a list by publisher is exact: it shows the first \<open>size\<close>
  of the stored records that match the query, newest first and each once, and \<open>HasMore\<close> says whether there are others. The indexes that later versions of
  a record replaced leave nothing behind.\<close>

theorem pub_list_exact:
  fixes A :: "('s, 'j) pub_env"
  assumes store: "pub_store K loc content ok opened dbp A" and s: "ok s" "content s (loc pub_ns) = Map.empty"
    and pins: "\<forall>pb \<in> set pins. pub_pin_ok A (fst pb)" and run: "s' = foldl (pub_step A) s pins"
    and q: "q = normaliseListParams (pu_U A) params" and pp: "isPublishedProtocol (lq_ProtocolPath q)" and i: "hasIdentityFilter q"
    and cf: "colon_free (lq_PublisherGlobalMetaId q)" "colon_free (lq_PublisherMetaId q)" "colon_free (lq_PublisherAddress q)"
  shows "\<exists>recs. distinct recs \<and> set recs = {r. stored (pu_codec A) (content s' (loc pub_ns)) r \<and> recordMatches r q}
    \<and> sorted_wrt (\<lambda>a b. sortTimestamp b \<le> sortTimestamp a) recs
    \<and> fst (pub_List A params s') = Inr \<lparr>lr_Items = take (nat (lq_Size q)) recs, lr_HasMore = (lq_Size q < int (length recs))\<rparr>"
proof -
  have g: "pub_store.good loc content ok A s'"
    unfolding run by (rule pub_store.run_good [OF store _ pins]) (simp add: pub_store.good_def [OF store] s pub_ok_empty)
  have size: "0 < lq_Size q" by (simp add: q normaliseListParams_def Let_def)
  have scan: "\<exists>s'' recs. scanIdentity A (identityIndexPrefix p (lq_ProtocolPath q) (lq q)) q (lq_Size q + 1) s' = (Inr (take (nat (lq_Size q + 1)) recs), s'')
      \<and> distinct recs \<and> set recs = {r. stored (pu_codec A) (content s' (loc pub_ns)) r \<and> recordMatches r q} \<and> sorted_wrt (\<lambda>a b. sortTimestamp b \<le> sortTimestamp a) recs"
    if k: "(p, f) \<in> set kinds" and l: "colon_free (lq q)" "lq q \<noteq> ''''" and only: "\<forall>r. recordMatches r q \<longrightarrow> f r = lq q"
    for p and f :: "'j Record \<Rightarrow> string" and lq :: "ListParams \<Rightarrow> string"
    by (rule pub_store.scan_records [OF store g k pp l only, of "lq_Size q + 1"]) (use size in auto)
  have "\<exists>s'' recs. collectRecords A q (lq_Size q + 1) s' = (Inr (take (nat (lq_Size q + 1)) recs), s'')
      \<and> distinct recs \<and> set recs = {r. stored (pu_codec A) (content s' (loc pub_ns)) r \<and> recordMatches r q} \<and> sorted_wrt (\<lambda>a b. sortTimestamp b \<le> sortTimestamp a) recs"
    using i scan [of _ rc_PublisherGlobalMetaId lq_PublisherGlobalMetaId] scan [of _ rc_PublisherMetaId lq_PublisherMetaId]
      scan [of _ rc_PublisherAddress lq_PublisherAddress] cf
    by (auto simp: collectRecords_def hasIdentityFilter_def kinds_def recordMatches_def)
  then obtain s'' recs where r: "collectRecords A q (lq_Size q + 1) s' = (Inr (take (nat (lq_Size q + 1)) recs), s'')" "distinct recs"
      "set recs = {r. stored (pu_codec A) (content s' (loc pub_ns)) r \<and> recordMatches r q}" "sorted_wrt (\<lambda>a b. sortTimestamp b \<le> sortTimestamp a) recs" by blast
  have "fst (pub_List A params s') = Inr \<lparr>lr_Items = take (nat (lq_Size q)) recs, lr_HasMore = (lq_Size q < int (length recs))\<rparr>"
    using r(1) i size by (auto simp: pub_List_def q [symmetric] Let_def min_def)
  then show ?thesis using r(2-4) by blast
qed

definition demo_app :: "string \<Rightarrow> string \<Rightarrow> string \<Rightarrow> int \<Rightarrow> PinInscription" where
  "demo_app i op path t =
     \<lparr>pi_Id = i, pi_Number = 0, pi_Path = path, pi_OriginalPath = path, pi_Operation = op, pi_ContentBody = ''app'', pi_ContentSummary = '''',
      pi_ContentType = ''text/plain'', pi_Creator = '''', pi_CreateAddress = '''', pi_CreateMetaId = '''', pi_MetaId = ''m'', pi_GlobalMetaId = ''alice'',
      pi_Address = '''', pi_ChainName = ''mvc'', pi_GenesisTransaction = '''', pi_GenesisHeight = 1, pi_Timestamp = t, pi_Output = '''',
      pi_IsTransfered = False, pi_OriginalId = '''', pi_Host = ''''\<rparr>"

definition demo_apps :: "(PinInscription \<times> bool) list" where
  "demo_apps = [(demo_app ''ai0'' ''create'' ''/protocols/metaapp'' 5, True), (demo_app ''bi0'' ''modify'' ''/protocols/metaapp@ai0'' 7, False)]"

definition demo_query :: ListParams where
  "demo_query = \<lparr>lq_ProtocolPath = ''/protocols/metaapp'', lq_ChainName = '''', lq_PublisherGlobalMetaId = ''alice'', lq_PublisherMetaId = '''',
     lq_PublisherAddress = '''', lq_Size = 0, lq_IncludeHidden = False\<rparr>"

theorem pub_list_exact_witness:
  "\<exists>recs. distinct recs
    \<and> set recs = {r. stored demo_record_codec (mem_disk (snd (foldl (pub_step demo_pub) (NewPebbleStore ''data'', \<lambda>_. []) demo_apps)) ''data/publishedcontent'') r
        \<and> recordMatches r (demo_query\<lparr>lq_Size := 20\<rparr>)}
    \<and> sorted_wrt (\<lambda>a b. sortTimestamp b \<le> sortTimestamp a) recs
    \<and> fst (pub_List demo_pub demo_query (foldl (pub_step demo_pub) (NewPebbleStore ''data'', \<lambda>_. []) demo_apps))
      = Inr \<lparr>lr_Items = take 20 recs, lr_HasMore = (20 < int (length recs))\<rparr>"
proof -
  have U: "pu_U demo_pub = plain_unicode" by (simp add: demo_pub_def)
  have t: "ToLower plain_unicode (TrimSpace ''mvc'') = ''mvc''" "TrimSpace ''alice'' = ''alice''" "TrimSpace ''m'' = ''m''" "TrimSpace '''' = ''''" by code_simp+
  have p: "\<forall>pb \<in> set demo_apps. pub_pin_ok demo_pub (fst pb)"
    by (simp add: demo_apps_def demo_app_def pub_pin_ok_def U t canonicalPublisherGlobalMetaId_def time_ok_def colon_free_def)
  have q: "demo_query\<lparr>lq_Size := 20\<rparr> = normaliseListParams (pu_U demo_pub) demo_query" unfolding U by code_simp
  have ok: "isPublishedProtocol (lq_ProtocolPath (demo_query\<lparr>lq_Size := 20\<rparr>))" "hasIdentityFilter (demo_query\<lparr>lq_Size := 20\<rparr>)"
    "colon_free (lq_PublisherGlobalMetaId (demo_query\<lparr>lq_Size := 20\<rparr>))" "colon_free (lq_PublisherMetaId (demo_query\<lparr>lq_Size := 20\<rparr>))"
    "colon_free (lq_PublisherAddress (demo_query\<lparr>lq_Size := 20\<rparr>))" by code_simp+
  have ns: "filepath_Join ''data'' pub_ns = ''data/publishedcontent''" by code_simp
  show ?thesis
    using pub_list_exact [OF demo_pub.pub_store_axioms mem.inv_new [of _ "\<lambda>_. []"] _ p refl q ok] by (simp add: ns mem_disk_def demo_pub_def)
qed

end
