(* ===== verification/Manapi.thy ===== *)
theory Manapi
  imports Base64 Aggregators FedDiscovery
begin

text \<open>
  Backfill from MANAPI, a public indexer: the modules \<open>publishedcontent\<close> and \<open>userinfo\<close> carry the same client (\<open>backfill.go\<close>), which lists the pins of a
  path page by page and hands them to the module. The loop over the pages ends when a page is empty, holds only old pins, is short or has no next
  cursor, and fails when a cursor repeats; it is a \<open>partial_function\<close>, since a server that always sends new cursors keeps it going for ever.

  Parameters: the HTTP exchange, \<open>encoding/json\<close> as \<open>json_lib\<close>, and \<open>net/url\<close> through \<open>net_api\<close> and the setting of query values.
\<close>

subsection \<open>Pins of the server\<close>

text \<open>A pin as JSON gives it; \<open>mp_ContentBody\<close> is the JSON text of the member, empty when it is missing.\<close>

record manapiPin =
  mp_ID :: string
  mp_Path :: string
  mp_OriginalPath :: string
  mp_Operation :: string
  mp_ContentType :: string
  mp_ContentBody :: bytes
  mp_ContentSummary :: string
  mp_MetaId :: string
  mp_GlobalMetaId :: string
  mp_Address :: string
  mp_CreateMetaId :: string
  mp_CreateAddress :: string
  mp_ChainName :: string
  mp_Timestamp :: int
  mp_GenesisHeight :: int
  mp_OriginalId :: string

record manapi_envelope =
  me_Code :: int
  me_Message :: string
  me_List :: "manapiPin list option"
  me_NextCursor :: string
  me_Cursor :: string
  me_DataList :: "manapiPin list option"
  me_DataNextCursor :: string
  me_DataCursor :: string

record json_lib =
  js_envelope :: "bytes \<Rightarrow> manapi_envelope option"
  js_string :: "bytes \<Rightarrow> string option"
  js_Valid :: "bytes \<Rightarrow> bool"

text \<open>The four base64 alphabets: with and without padding, standard and for URLs.\<close>

definition b64_RawDecodeString :: "string \<Rightarrow> bytes option" where
  "b64_RawDecodeString s =
     (let t = filter (\<lambda>c. c \<noteq> CHR 0x0A \<and> c \<noteq> CHR 0x0D) s
      in if CHR ''='' \<in> set t then None else b64_decode (t @ replicate ((4 - length t mod 4) mod 4) CHR ''=''))"

definition b64_from_url :: "string \<Rightarrow> string option" where
  "b64_from_url s =
     (if CHR ''+'' \<in> set s \<or> CHR ''/'' \<in> set s then None
      else Some (map (\<lambda>c. if c = CHR ''-'' then CHR ''+'' else if c = CHR ''_'' then CHR ''/'' else c) s))"

definition b64_URLDecodeString :: "string \<Rightarrow> bytes option" where
  "b64_URLDecodeString s = Option.bind (b64_from_url s) b64_DecodeString"

definition b64_RawURLDecodeString :: "string \<Rightarrow> bytes option" where
  "b64_RawURLDecodeString s = Option.bind (b64_from_url s) b64_RawDecodeString"

fun first_decoded :: "json_lib \<Rightarrow> (string \<Rightarrow> bytes option) list \<Rightarrow> string \<Rightarrow> bytes option" where
  "first_decoded J [] text = None"
| "first_decoded J (enc # encs) text =
     (case enc text of
        None \<Rightarrow> first_decoded J encs text
      | Some decoded \<Rightarrow> if decoded = [] then first_decoded J encs text else if js_Valid J decoded then Some decoded else first_decoded J encs text)"

definition maybeDecodeBase64Content :: "json_lib \<Rightarrow> string \<Rightarrow> bytes option" where
  "maybeDecodeBase64Content J text =
     (if HasPrefix text ''{'' \<or> HasPrefix text ''['' then None
      else first_decoded J [b64_DecodeString, b64_RawDecodeString, b64_URLDecodeString, b64_RawURLDecodeString] text)"

definition content_UnmarshalJSON :: "json_lib \<Rightarrow> bytes \<Rightarrow> bytes" where
  "content_UnmarshalJSON J dat =
     (let trimmed = TrimSpace dat
      in if trimmed = [] \<or> trimmed = ''null'' then []
         else case js_string J trimmed of
           Some text0 \<Rightarrow>
             (let text = TrimSpace text0
              in if text = '''' then [] else case maybeDecodeBase64Content J text of Some decoded \<Rightarrow> decoded | None \<Rightarrow> text)
         | None \<Rightarrow> trimmed)"

text \<open>A time is \<open>None\<close> for the zero time, and seconds and milliseconds since 1970 otherwise.\<close>

definition manapiTimestampBefore :: "int \<Rightarrow> (int \<times> int) option \<Rightarrow> bool" where
  "manapiTimestampBefore timestamp since =
     (case since of
        None \<Rightarrow> False
      | Some (sec, millis) \<Rightarrow>
          (if timestamp \<le> 0 then False else if 100000000000 < timestamp then timestamp < millis else timestamp < sec))"

subsection \<open>Pages\<close>

record backfillPage =
  bp_Pins :: "manapiPin list"
  bp_NextCursor :: string

fun first_non_empty :: "string list \<Rightarrow> string" where
  "first_non_empty [] = ''''"
| "first_non_empty (v # vs) = (let t = TrimSpace v in if t \<noteq> '''' then t else first_non_empty vs)"

definition decodeBackfillPage :: "json_lib \<Rightarrow> bytes \<Rightarrow> string + backfillPage" where
  "decodeBackfillPage J raw =
     (case js_envelope J raw of
        None \<Rightarrow> Inl ''decode MANAPI backfill response''
      | Some e \<Rightarrow>
          (if me_Code e \<noteq> 0 \<and> me_Code e \<noteq> 1 then Inl (''MANAPI backfill failed: code='' @ Itoa (me_Code e) @ '' message='' @ me_Message e)
           else Inr \<lparr>bp_Pins = (case me_DataList e of Some l \<Rightarrow> l | None \<Rightarrow> (case me_List e of Some l \<Rightarrow> l | None \<Rightarrow> [])),
                     bp_NextCursor = first_non_empty [me_DataNextCursor e, me_DataCursor e, me_NextCursor e, me_Cursor e]\<rparr>))"

record manapi_client =
  mc_baseURL :: string
  mc_N :: net_api
  mc_SetQuery :: "url \<Rightarrow> (string \<times> string) list \<Rightarrow> string"
  mc_J :: json_lib
  mc_Do :: "string \<Rightarrow> string + (int \<times> bytes)"

definition NewBackfillClient :: "net_api \<Rightarrow> (url \<Rightarrow> (string \<times> string) list \<Rightarrow> string) \<Rightarrow> json_lib \<Rightarrow> (string \<Rightarrow> string + (int \<times> bytes)) \<Rightarrow> string \<Rightarrow> manapi_client" where
  "NewBackfillClient N Q J do baseURL = \<lparr>mc_baseURL = TrimRight CHR ''/'' (TrimSpace baseURL), mc_N = N, mc_SetQuery = Q, mc_J = J, mc_Do = do\<rparr>"

definition listURL :: "manapi_client \<Rightarrow> string \<Rightarrow> string \<Rightarrow> int \<Rightarrow> string + string" where
  "listURL c path cursor sz =
     (case url_Parse (mc_N c) (mc_baseURL c) of
        None \<Rightarrow> Inl ''parse MANAPI base URL''
      | Some parsed \<Rightarrow>
          (if u_Scheme parsed = '''' \<or> u_Host parsed = '''' then Inl ''MANAPI base URL requires scheme and host''
           else
             (let p1 = (if u_Path parsed = '''' \<or> u_Path parsed = ''/'' then parsed\<lparr>u_Path := ''/pin/path/list''\<rparr> else parsed)
              in Inr (url_String (mc_N c)
                   (p1\<lparr>u_RawQuery := mc_SetQuery c p1 [(''cursor'', cursor), (''size'', Itoa sz), (''path'', path)]\<rparr>)))))"

definition ListPath :: "manapi_client \<Rightarrow> string \<Rightarrow> string \<Rightarrow> int \<Rightarrow> string + backfillPage" where
  "ListPath c path cursor sz =
     (if TrimSpace (mc_baseURL c) = '''' then Inl ''MANAPI base URL is required''
      else case listURL c path cursor sz of
        Inl e \<Rightarrow> Inl e
      | Inr requestURL \<Rightarrow>
          (case mc_Do c requestURL of
             Inl e \<Rightarrow> Inl (''fetch MANAPI backfill pins: '' @ e)
           | Inr (status, raw) \<Rightarrow>
               (if status < 200 \<or> 300 \<le> status then Inl (''MANAPI backfill returned HTTP '' @ Itoa status)
                else decodeBackfillPage (mc_J c) raw)))"

subsection \<open>The loop\<close>

text \<open>The pins of a page; the result is whether all of them are old.\<close>

fun backfill_pins ::
    "(manapiPin \<Rightarrow> 's \<Rightarrow> string option \<times> 's) \<Rightarrow> (int \<times> int) option \<Rightarrow> manapiPin list \<Rightarrow> bool \<Rightarrow> 's \<Rightarrow> (string + bool) \<times> 's" where
  "backfill_pins handle since [] allOlder s = (Inr allOlder, s)"
| "backfill_pins handle since (pin # pins) allOlder s =
     (if manapiTimestampBefore (mp_Timestamp pin) since then backfill_pins handle since pins allOlder s
      else case handle pin s of (Some e, s1) \<Rightarrow> (Inl e, s1) | (None, s1) \<Rightarrow> backfill_pins handle since pins False s1)"

text \<open>The pages of one path from \<open>cursor\<close> on; \<open>None\<close> when the loop does not end.\<close>

partial_function (option) backfill_path ::
    "(string \<Rightarrow> string + backfillPage) \<Rightarrow> (manapiPin \<Rightarrow> 's \<Rightarrow> string option \<times> 's) \<Rightarrow> (int \<times> int) option \<Rightarrow> int \<Rightarrow> string list \<Rightarrow> string \<Rightarrow> 's
      \<Rightarrow> (string option \<times> 's) option" where
  "backfill_path list handle since pageSize seen cursor s =
     (case list cursor of
        Inl e \<Rightarrow> Some (Some e, s)
      | Inr page \<Rightarrow>
          (if bp_Pins page = [] then Some (None, s)
           else case backfill_pins handle since (bp_Pins page) True s of
             (Inl e, s1) \<Rightarrow> Some (Some e, s1)
           | (Inr allOlder, s1) \<Rightarrow>
               (if allOlder then Some (None, s1)
                else if bp_NextCursor page = '''' \<or> int (length (bp_Pins page)) < pageSize then Some (None, s1)
                else if bp_NextCursor page \<in> set (cursor # seen) then Some (Some ''repeated MANAPI cursor'', s1)
                else backfill_path list handle since pageSize (cursor # seen) (bp_NextCursor page) s1)))"

fun backfill_paths ::
    "(string \<Rightarrow> string \<Rightarrow> string + backfillPage) \<Rightarrow> (manapiPin \<Rightarrow> 's \<Rightarrow> string option \<times> 's) \<Rightarrow> (int \<times> int) option \<Rightarrow> int \<Rightarrow> string list \<Rightarrow> 's
      \<Rightarrow> (string option \<times> 's) option" where
  "backfill_paths list handle since pageSize [] s = Some (None, s)"
| "backfill_paths list handle since pageSize (path # paths) s =
     (case backfill_path (list path) handle since pageSize [] '''' s of
        None \<Rightarrow> None
      | Some (Some e, s1) \<Rightarrow> Some (Some e, s1)
      | Some (None, s1) \<Rightarrow> backfill_paths list handle since pageSize paths s1)"

subsection \<open>The loop ends\<close>

declare backfill_path.simps [code]

lemma backfill_path_ends:
  assumes "finite C" and "\<forall>cursor page. list cursor = Inr page \<longrightarrow> bp_NextCursor page \<in> C"
  shows "\<exists>r. backfill_path list handle since pageSize seen cursor s = Some r"
proof (induction "card (C - set (cursor # seen))" arbitrary: seen cursor s rule: less_induct)
  case less
  have next_page: "\<exists>r. backfill_path list handle since pageSize (cursor # seen) (bp_NextCursor page) s1 = Some r"
    if "list cursor = Inr page" "bp_NextCursor page \<notin> set (cursor # seen)" for page s1
  proof (rule less.hyps)
    have "bp_NextCursor page \<in> C - set (cursor # seen)" using assms(2) that by auto
    then have "C - set (bp_NextCursor page # cursor # seen) \<subset> C - set (cursor # seen)" by auto
    then show "card (C - set (bp_NextCursor page # cursor # seen)) < card (C - set (cursor # seen))" using assms(1) by (simp add: psubset_card_mono)
  qed
  show ?case by (subst backfill_path.simps) (use next_page in \<open>auto split: sum.splits prod.splits\<close>)
qed

lemma backfill_paths_end:
  assumes "finite C" and "\<forall>path cursor page. list path cursor = Inr page \<longrightarrow> bp_NextCursor page \<in> C"
  shows "\<exists>r. backfill_paths list handle since pageSize paths s = Some r"
proof (induction paths arbitrary: s)
  case (Cons path paths)
  obtain e s1 where "backfill_path (list path) handle since pageSize [] '''' s = Some (e, s1)" using backfill_path_ends [OF assms(1), of "list path"] assms(2) by (metis prod.exhaust)
  then show ?case using Cons by (cases e) auto
qed simp

subsection \<open>An honest server is read completely\<close>

abbreviation is_new :: "(int \<times> int) option \<Rightarrow> manapiPin \<Rightarrow> bool" where
  "is_new since pin \<equiv> \<not> manapiTimestampBefore (mp_Timestamp pin) since"

text \<open>The server has the pins \<open>pins\<close>, pages of \<open>n\<close> pins, and the cursor \<open>cur k\<close> for page \<open>k\<close>.\<close>

definition serves :: "(string \<Rightarrow> string + backfillPage) \<Rightarrow> (nat \<Rightarrow> string) \<Rightarrow> nat \<Rightarrow> manapiPin list \<Rightarrow> bool" where
  "serves list cur n pins \<longleftrightarrow> 0 < n \<and> cur 0 = '''' \<and> inj cur
     \<and> (\<forall>k. list (cur k) = Inr \<lparr>bp_Pins = take n (drop (k * n) pins), bp_NextCursor = (if (k + 1) * n < length pins then cur (k + 1) else '''')\<rparr>)"

text \<open>Calls of the module succeed on the states that satisfy \<open>I\<close> and keep it.\<close>

definition handles :: "(manapiPin \<Rightarrow> 's \<Rightarrow> string option \<times> 's) \<Rightarrow> ('s \<Rightarrow> bool) \<Rightarrow> manapiPin list \<Rightarrow> bool" where
  "handles handle I pins \<longleftrightarrow> (\<forall>p \<in> set pins. \<forall>s. I s \<longrightarrow> fst (handle p s) = None \<and> I (snd (handle p s)))"

definition handle_all :: "(manapiPin \<Rightarrow> 's \<Rightarrow> string option \<times> 's) \<Rightarrow> manapiPin list \<Rightarrow> 's \<Rightarrow> 's" where
  "handle_all handle pins s = foldl (\<lambda>s p. snd (handle p s)) s pins"

lemma handle_all_append [simp]: "handle_all handle (ps @ qs) s = handle_all handle qs (handle_all handle ps s)"
  by (simp add: handle_all_def)

lemma handle_all_inv: "handles handle I pins \<Longrightarrow> I s \<Longrightarrow> set ps \<subseteq> set pins \<Longrightarrow> I (handle_all handle ps s)"
  by (induction ps arbitrary: s) (auto simp: handles_def handle_all_def)

lemma backfill_pins_all:
  "handles handle I pins \<Longrightarrow> I s \<Longrightarrow>
    backfill_pins handle since pins b s = (Inr (b \<and> filter (is_new since) pins = []), handle_all handle (filter (is_new since) pins) s)"
proof (induction pins arbitrary: b s)
  case (Cons p pins)
  have h: "handles handle I pins" using Cons.prems(1) by (simp add: handles_def)
  obtain e s1 where p: "handle p s = (e, s1)" by force
  then have "e = None" "I s1" using Cons.prems unfolding handles_def by (metis fst_conv list.set_intros(1), metis snd_conv list.set_intros(1))
  then show ?case using Cons.IH [OF h] Cons.prems(2) p by (simp add: handle_all_def)
qed (simp add: handle_all_def)

lemma backfill_path_all:
  assumes sv: "serves list cur n pins" and h: "handles handle I pins"
    and old: "sorted_wrt (\<lambda>a b. is_new since b \<longrightarrow> is_new since a) pins" and s: "I s"
  shows "backfill_path list handle since (int n) (map cur (rev [0..<k])) (cur k) s = Some (None, handle_all handle (filter (is_new since) (drop (k * n) pins)) s)"
  using s
proof (induction "length pins - k * n" arbitrary: k s rule: less_induct)
  case less
  let ?rest = "drop (k * n) pins" and ?new = "filter (is_new since)"
  have n: "0 < n" and cur: "cur 0 = ''''" "inj cur" and li: "list (cur k) = Inr \<lparr>bp_Pins = take n ?rest, bp_NextCursor = (if (k + 1) * n < length pins then cur (k + 1) else '''')\<rparr>"
    using sv unfolding serves_def by auto
  have ne: "cur (Suc k) \<noteq> ''''" using cur injD [OF cur(2), of "Suc k" 0] by auto
  have fresh: "cur (Suc k) \<notin> set (cur k # map cur (rev [0..<k]))" using injD [OF cur(2)] by fastforce
  have split: "?rest = take n ?rest @ drop (Suc k * n) pins" using append_take_drop_id [of n ?rest] by (simp only: drop_drop mult_Suc)
  have hp: "handles handle I (take n ?rest)" using h set_take_subset [of n ?rest] set_drop_subset [of "k * n" pins] unfolding handles_def by blast
  note page = backfill_pins_all [OF hp less.prems, of since True]
  let ?s1 = "handle_all handle (?new (take n ?rest)) s"
  have I1: "I ?s1" by (rule handle_all_inv [OF hp less.prems]) simp
  show ?case
  proof (cases "?rest = []")
    case True
    then show ?thesis by (subst backfill_path.simps) (simp add: li handle_all_def)
  next
    case False
    show ?thesis
    proof (cases "?new (take n ?rest) = []")
      case True
      have "sorted_wrt (\<lambda>a b. is_new since b \<longrightarrow> is_new since a) ?rest" using old by (rule sorted_wrt_drop)
      then have "?new ?rest = []" using True False n by (cases ?rest; cases n) (auto simp: filter_empty_conv)
      then show ?thesis using False True page n by (subst backfill_path.simps) (simp add: li handle_all_def)
    next
      case new: False
      show ?thesis
      proof (cases "(k + 1) * n < length pins")
        case True
        then have len: "length (take n ?rest) = n" by simp
        have "backfill_path list handle since (int n) (map cur (rev [0..<Suc k])) (cur (Suc k)) ?s1 = Some (None, handle_all handle (?new (drop (Suc k * n) pins)) ?s1)"
          by (rule less.hyps [OF _ I1]) (use True n in simp)
        moreover have "handle_all handle (?new ?rest) s = handle_all handle (?new (drop (Suc k * n) pins)) ?s1"
          by (subst split, subst filter_append) simp
        ultimately show ?thesis using False new page n True ne fresh len by (subst backfill_path.simps) (simp add: li)
      next
        case False': False
        then have "drop (Suc k * n) pins = []" by simp
        then have "take n ?rest = ?rest" using split by simp
        then show ?thesis using False new page n False' by (subst backfill_path.simps) (simp add: li)
      qed
    qed
  qed
qed

lemma backfill_paths_all:
  assumes "\<And>path. path \<in> set paths \<Longrightarrow> serves (list path) (cur path) n (pins path) \<and> handles handle I (pins path)
      \<and> sorted_wrt (\<lambda>a b. is_new since b \<longrightarrow> is_new since a) (pins path)" and "I s"
  shows "backfill_paths list handle since (int n) paths s = Some (None, handle_all handle (concat (map (\<lambda>path. filter (is_new since) (pins path)) paths)) s)"
  using assms
proof (induction paths arbitrary: s)
  case (Cons path paths)
  have p: "serves (list path) (cur path) n (pins path)" "handles handle I (pins path)" "sorted_wrt (\<lambda>a b. is_new since b \<longrightarrow> is_new since a) (pins path)"
    using Cons.prems(1) [of path] by auto
  have "cur path 0 = ''''" using p(1) by (simp add: serves_def)
  then have "backfill_path (list path) handle since (int n) [] '''' s = Some (None, handle_all handle (filter (is_new since) (pins path)) s)"
    using backfill_path_all [OF p Cons.prems(2), of 0] by simp
  moreover have "I (handle_all handle (filter (is_new since) (pins path)) s)" by (rule handle_all_inv [OF p(2) Cons.prems(2)]) auto
  ultimately show ?case using Cons.IH Cons.prems(1) by simp
qed (simp add: handle_all_def)

end
