(* ===== verification/PubBackfill.thy ===== *)
theory PubBackfill
  imports PubIndex Manapi
begin

text \<open>
  Backfill of the published content, \<open>internal/aggregator/publishedcontent/backfill.go\<close>: the pins of the published protocols are read from MANAPI and
  processed as confirmed pins. From a server that lists its pins newest first, every pin that is new enough is processed, in the order of the server.
\<close>

definition pub_toAggregatorPin :: "json_lib \<Rightarrow> manapiPin \<Rightarrow> PinInscription" where
  "pub_toAggregatorPin J p =
     \<lparr>pi_Id = TrimSpace (mp_ID p), pi_Number = 0, pi_Path = TrimSpace (mp_Path p), pi_OriginalPath = TrimSpace (mp_OriginalPath p),
      pi_Operation = TrimSpace (mp_Operation p), pi_ContentBody = content_UnmarshalJSON J (mp_ContentBody p), pi_ContentSummary = TrimSpace (mp_ContentSummary p),
      pi_ContentType = TrimSpace (mp_ContentType p), pi_Creator = '''', pi_CreateAddress = TrimSpace (mp_CreateAddress p),
      pi_CreateMetaId = TrimSpace (mp_CreateMetaId p), pi_MetaId = TrimSpace (mp_MetaId p), pi_GlobalMetaId = TrimSpace (mp_GlobalMetaId p),
      pi_Address = TrimSpace (mp_Address p), pi_ChainName = TrimSpace (mp_ChainName p), pi_GenesisTransaction = '''', pi_GenesisHeight = mp_GenesisHeight p,
      pi_Timestamp = mp_Timestamp p, pi_Output = '''', pi_IsTransfered = False, pi_OriginalId = TrimSpace (mp_OriginalId p), pi_Host = ''''\<rparr>"

definition pub_normaliseBackfillPaths :: "unicode \<Rightarrow> string list \<Rightarrow> string list" where
  "pub_normaliseBackfillPaths U paths =
     (if paths = [] then [PathSimpleBuzz, PathMetaApp, PathMetaBotSkill] else filter (\<lambda>p. p \<noteq> '''') (map (protocolPathFromPinPath U) paths))"

definition pub_backfill_pin :: "('s, 'j) pub_env \<Rightarrow> json_lib \<Rightarrow> manapiPin \<Rightarrow> 's \<Rightarrow> string option \<times> 's" where
  "pub_backfill_pin A J pin s = processPin A (pub_toAggregatorPin J pin) False s"

definition pub_Backfill ::
    "('s, 'j) pub_env \<Rightarrow> manapi_client option \<Rightarrow> string list \<Rightarrow> (int \<times> int) option \<Rightarrow> int \<Rightarrow> 's \<Rightarrow> (string option \<times> 's) option" where
  "pub_Backfill A client paths since pageSize s =
     (case client of
        None \<Rightarrow> Some (Some ''publishedcontent backfill client is required'', s)
      | Some c \<Rightarrow>
          (let size = (if pageSize \<le> 0 then 100 else pageSize)
           in backfill_paths (\<lambda>path cursor. ListPath c path cursor size) (pub_backfill_pin A (mc_J c)) since size (pub_normaliseBackfillPaths (pu_U A) paths) s))"

subsection \<open>What is processed\<close>

context pub_store
begin

lemma backfill_handles:
  "\<forall>p \<in> set pins. pub_pin_ok A (pub_toAggregatorPin J p) \<Longrightarrow> handles (pub_backfill_pin A J) good pins"
  using pin_good unfolding handles_def pub_backfill_pin_def by (metis fst_conv snd_conv)

end

lemma backfill_steps: "handle_all (pub_backfill_pin A J) pins s = foldl (pub_step A) s (map (\<lambda>p. (pub_toAggregatorPin J p, False)) pins)"
proof -
  have step: "snd (pub_backfill_pin A J p s) = pub_step A s (pub_toAggregatorPin J p, False)" for p s
    by (simp add: pub_backfill_pin_def pub_step_def pub_HandleBlockPin_def split: prod.split option.split)
  show ?thesis by (induction pins arbitrary: s) (auto simp: handle_all_def step)
qed


definition demo_served :: manapiPin where
  "demo_served =
     \<lparr>mp_ID = ''ai0'', mp_Path = ''/protocols/metaapp'', mp_OriginalPath = '''', mp_Operation = ''create'', mp_ContentType = ''text/plain'', mp_ContentBody = [],
      mp_ContentSummary = ''app'', mp_MetaId = ''m'', mp_GlobalMetaId = ''alice'', mp_Address = '''', mp_CreateMetaId = '''', mp_CreateAddress = '''',
      mp_ChainName = ''mvc'', mp_Timestamp = 5, mp_GenesisHeight = 1, mp_OriginalId = ''''\<rparr>"

text \<open>A server with one pin: the cursor of page \<open>k\<close> is \<open>k\<close> letters.\<close>

definition demo_client :: manapi_client where
  "demo_client =
     \<lparr>mc_baseURL = ''http://m'', mc_N = \<lparr>url_Parse = (\<lambda>s. Some \<lparr>u_Scheme = ''http'', u_Host = ''m'', u_Hostname = ''m'', u_Path = '''', u_RawQuery = '''', u_Fragment = ''''\<rparr>),
        url_String = u_RawQuery, ip_IsLoopback = (\<lambda>s. False)\<rparr>,
      mc_SetQuery = (\<lambda>u q. snd (hd q)),
      mc_J = \<lparr>js_envelope = (\<lambda>raw. Some \<lparr>me_Code = 1, me_Message = '''', me_List = None, me_NextCursor = '''', me_Cursor = '''',
          me_DataList = Some (if raw = '''' then [demo_served] else []), me_DataNextCursor = '''', me_DataCursor = ''''\<rparr>),
        js_string = (\<lambda>b. None), js_Valid = (\<lambda>b. False)\<rparr>,
      mc_Do = (\<lambda>u. Inr (200, u))\<rparr>"

lemma demo_serves: "serves (\<lambda>cursor. ListPath demo_client path cursor 1) (\<lambda>k. replicate k CHR ''c'') 1 [demo_served]"
proof -
  have "TrimSpace ''http://m'' = ''http://m''" "TrimSpace '''' = ''''" by code_simp+
  then show ?thesis
    by (auto simp: serves_def inj_def ListPath_def listURL_def decodeBackfillPage_def demo_client_def Let_def split: nat.split dest: arg_cong [of _ _ length])
qed


end
