(* ===== verification/UserInfo.thy ===== *)
theory UserInfo
  imports Converter Cache GroupStore Manapi
begin

text \<open>
  User profiles, \<open>internal/aggregator/userinfo\<close>: profiles made from \<open>/info/*\<close> and init pins (\<open>module.go\<close>), their completion from a remote service
  (\<open>remote.go\<close>), and the backfill of profile pins from MANAPI (\<open>backfill.go\<close>).

  The state is the provider of the caches, which holds the store. A remote service is a function from kind and value to a profile, an argument of the
  lookups, since its answers may change; \<open>encoding/json\<close>, the host and path of \<open>url.Parse\<close>, and the HTTP exchange are parameters.
\<close>

subsection \<open>Profiles\<close>

record UserProfile =
  up_GlobalMetaID :: string
  up_MetaID :: string
  up_Address :: string
  up_Name :: string
  up_NameId :: string
  up_Avatar :: string
  up_AvatarId :: string
  up_NftAvatar :: string
  up_Bio :: string
  up_BioId :: string
  up_Role :: string
  up_RoleId :: string
  up_Soul :: string
  up_SoulId :: string
  up_Goal :: string
  up_GoalId :: string
  up_ChatSkills :: string
  up_ChatSkillsId :: string
  up_LLM :: string
  up_LLMId :: string
  up_Homepage :: string
  up_HomepageId :: string
  up_Background :: string
  up_BackgroundId :: string
  up_ChatPublicKey :: string
  up_ChatPublicKeyId :: string
  up_ChainName :: string

definition no_profile :: UserProfile where
  "no_profile = \<lparr>up_GlobalMetaID = '''', up_MetaID = '''', up_Address = '''', up_Name = '''', up_NameId = '''', up_Avatar = '''', up_AvatarId = '''', up_NftAvatar = '''',
     up_Bio = '''', up_BioId = '''', up_Role = '''', up_RoleId = '''', up_Soul = '''', up_SoulId = '''', up_Goal = '''', up_GoalId = '''', up_ChatSkills = '''',
     up_ChatSkillsId = '''', up_LLM = '''', up_LLMId = '''', up_Homepage = '''', up_HomepageId = '''', up_Background = '''', up_BackgroundId = '''',
     up_ChatPublicKey = '''', up_ChatPublicKeyId = '''', up_ChainName = ''''\<rparr>"

record remoteProfileQuery =
  rq_kind :: string
  rq_value :: string

type_synonym remote_service = "remoteProfileQuery \<Rightarrow> string + UserProfile option"

record ('l, 's) user_env =
  ui_U :: unicode
  ui_B :: base58
  ui_C :: "('l, 's) cache_env"
  ui_codec :: "UserProfile codec"
  ui_url :: "string \<Rightarrow> (string \<times> string) option"
  ui_mode :: string
  ui_fallback :: bool

definition user_ns :: string where "user_ns = ''userinfo''"

definition profileKey :: "string \<Rightarrow> bytes" where "profileKey metaid = ''profile:'' @ metaid"

definition metaidKey :: "string \<Rightarrow> bytes" where "metaidKey metaid = ''metaid:'' @ metaid"

definition globalMetaIdKey :: "unicode \<Rightarrow> string \<Rightarrow> bytes" where
  "globalMetaIdKey U globalMetaId = ''globalmetaid:'' @ ToLower U (TrimSpace globalMetaId)"

definition addressKey :: "unicode \<Rightarrow> string \<Rightarrow> bytes" where
  "addressKey U address = ''address:'' @ ToLower U (TrimSpace address)"

definition user_Init :: "('l, 's) user_env \<Rightarrow> ('l, 's) CacheProvider \<Rightarrow> ('l, 's) CacheProvider" where
  "user_Init A cp = CacheProvider_Namespace (ui_C A) user_ns 5000 600000000000 cp"

subsection \<open>Storage\<close>

definition ui_Get :: "('l, 's) user_env \<Rightarrow> bytes \<Rightarrow> ('l, 's) CacheProvider \<Rightarrow> (db_error + bytes) \<times> ('l, 's) CacheProvider" where
  "ui_Get A key cp = (let (r, s1) = kv_Get (ce_K (ui_C A)) user_ns key (snd cp) in (r, (fst cp, s1)))"

definition ui_Set :: "('l, 's) user_env \<Rightarrow> bytes \<Rightarrow> bytes \<Rightarrow> ('l, 's) CacheProvider \<Rightarrow> string option \<times> ('l, 's) CacheProvider" where
  "ui_Set A key v cp = (let (e, s1) = kv_Set (ce_K (ui_C A)) user_ns key v (snd cp) in (map_option (\<lambda>_. ''storage error'') e, (fst cp, s1)))"

definition getProfile :: "('l, 's) user_env \<Rightarrow> string \<Rightarrow> ('l, 's) CacheProvider \<Rightarrow> (string + UserProfile option) \<times> ('l, 's) CacheProvider" where
  "getProfile A metaid cp =
     (case ui_Get A (profileKey metaid) cp of
        (Inl e, cp1) \<Rightarrow> (Inr None, cp1)
      | (Inr raw, cp1) \<Rightarrow> (case cd_Unmarshal (ui_codec A) raw of None \<Rightarrow> (Inl ''decode error'', cp1) | Some p \<Rightarrow> (Inr (Some p), cp1)))"

text \<open>Writing an index entry unless its key is blank.\<close>

definition set_index :: "('l, 's) user_env \<Rightarrow> (unicode \<Rightarrow> string \<Rightarrow> bytes) \<Rightarrow> string \<Rightarrow> bytes \<Rightarrow> ('l, 's) CacheProvider \<Rightarrow> string option \<times> ('l, 's) CacheProvider" where
  "set_index A key v0 target cp = (let v = TrimSpace v0 in if v = '''' then (None, cp) else ui_Set A (key (ui_U A) v) target cp)"

definition saveProfileAtKey :: "('l, 's) user_env \<Rightarrow> string \<Rightarrow> UserProfile \<Rightarrow> ('l, 's) CacheProvider \<Rightarrow> string option \<times> ('l, 's) CacheProvider" where
  "saveProfileAtKey A key0 profile cp =
     (let key = TrimSpace key0
      in if key = '''' then (None, cp)
         else case cd_Marshal (ui_codec A) profile of
           Inl e \<Rightarrow> (Some e, cp)
         | Inr raw \<Rightarrow>
             (case ui_Set A (profileKey key) raw cp of
                (Some e, cp1) \<Rightarrow> (Some e, cp1)
              | (None, cp1) \<Rightarrow>
                  (let m = TrimSpace (up_MetaID profile); indexMetaID = (if m = '''' then key else m)
                   in case set_index A globalMetaIdKey (up_GlobalMetaID profile) indexMetaID cp1 of
                        (Some e, cp2) \<Rightarrow> (Some e, cp2)
                      | (None, cp2) \<Rightarrow> set_index A addressKey (up_Address profile) indexMetaID cp2)))"

definition saveProfile :: "('l, 's) user_env \<Rightarrow> UserProfile \<Rightarrow> ('l, 's) CacheProvider \<Rightarrow> string option \<times> ('l, 's) CacheProvider" where
  "saveProfile A profile cp = (if up_MetaID profile = '''' then (None, cp) else saveProfileAtKey A (up_MetaID profile) profile cp)"

text \<open>The scan visits every profile; the last match in key order is the result.\<close>

definition defaultScanProfiles :: "('l, 's) user_env \<Rightarrow> (UserProfile \<Rightarrow> bool) \<Rightarrow> ('l, 's) CacheProvider \<Rightarrow> (string + UserProfile option) \<times> ('l, 's) CacheProvider" where
  "defaultScanProfiles A match cp =
     (case kv_Scan (ce_K (ui_C A)) user_ns (profileKey '''') (snd cp) of
        (Inl e, s1) \<Rightarrow> (Inl ''storage error'', (fst cp, s1))
      | (Inr kvs, s1) \<Rightarrow> (Inr (find match (rev (decoded (cd_Unmarshal (ui_codec A)) kvs))), (fst cp, s1)))"

text \<open>A lookup through an index, which is only believed if the profile it leads to has the value.\<close>

definition find_indexed ::
    "('l, 's) user_env \<Rightarrow> (unicode \<Rightarrow> string \<Rightarrow> bytes) \<Rightarrow> (UserProfile \<Rightarrow> string) \<Rightarrow> string \<Rightarrow> ('l, 's) CacheProvider
      \<Rightarrow> (string + UserProfile option) \<times> ('l, 's) CacheProvider" where
  "find_indexed A key f v0 cp =
     (let v = TrimSpace v0; match = (\<lambda>p. EqualFold (ui_U A) (TrimSpace (f p)) v)
      in case ui_Get A (key (ui_U A) v) cp of
           (Inl e, cp1) \<Rightarrow> defaultScanProfiles A match cp1
         | (Inr raw, cp1) \<Rightarrow>
             (if raw = [] then defaultScanProfiles A match cp1
              else case getProfile A raw cp1 of
                (Inr (Some p), cp2) \<Rightarrow> (if match p then (Inr (Some p), cp2) else defaultScanProfiles A match cp2)
              | (_, cp2) \<Rightarrow> defaultScanProfiles A match cp2))"

definition findProfileByAddress :: "('l, 's) user_env \<Rightarrow> string \<Rightarrow> ('l, 's) CacheProvider \<Rightarrow> (string + UserProfile option) \<times> ('l, 's) CacheProvider" where
  "findProfileByAddress A address cp = find_indexed A addressKey up_Address address cp"

definition findProfileByGlobalMetaId :: "('l, 's) user_env \<Rightarrow> string \<Rightarrow> ('l, 's) CacheProvider \<Rightarrow> (string + UserProfile option) \<times> ('l, 's) CacheProvider" where
  "findProfileByGlobalMetaId A globalMetaId cp = find_indexed A globalMetaIdKey up_GlobalMetaID globalMetaId cp"

subsection \<open>Pins\<close>

definition pin_author :: "PinInscription \<Rightarrow> string" where
  "pin_author pin = (if pi_MetaId pin = '''' then pi_CreateMetaId pin else pi_MetaId pin)"

definition pin_address :: "PinInscription \<Rightarrow> string" where
  "pin_address pin = (if pi_Address pin = '''' then pi_CreateAddress pin else pi_Address pin)"

text \<open>The loaded or new profile with the identity the pin adds to it.\<close>

definition identified :: "('l, 's) user_env \<Rightarrow> PinInscription \<Rightarrow> UserProfile \<Rightarrow> UserProfile" where
  "identified A pin p =
     (let address = pin_address pin; g = TrimSpace (pi_GlobalMetaId pin)
      in p\<lparr>up_Address := (if up_Address p = '''' \<and> address \<noteq> '''' then address else up_Address p),
           up_GlobalMetaID :=
             (if up_GlobalMetaID p = '''' then
                (if g \<noteq> '''' then g else if address \<noteq> '''' then EncodeGlobalMetaId (ui_U A) (ui_B A) address (pi_ChainName pin) else up_GlobalMetaID p)
              else up_GlobalMetaID p),
           up_ChainName := (if up_ChainName p = '''' \<and> pi_ChainName pin \<noteq> '''' then pi_ChainName pin else up_ChainName p)\<rparr>)"

text \<open>The init pin tries once more to fill address and identity.\<close>

definition initialised :: "('l, 's) user_env \<Rightarrow> PinInscription \<Rightarrow> UserProfile \<Rightarrow> UserProfile" where
  "initialised A pin p =
     (let address = pin_address pin
      in p\<lparr>up_Address := (if up_Address p = '''' \<and> address \<noteq> '''' then address else up_Address p),
           up_GlobalMetaID :=
             (if up_GlobalMetaID p = '''' \<and> address \<noteq> '''' then EncodeGlobalMetaId (ui_U A) (ui_B A) address (pi_ChainName pin) else up_GlobalMetaID p)\<rparr>)"

definition info_updated :: "PinInscription \<Rightarrow> UserProfile \<Rightarrow> UserProfile option" where
  "info_updated pin p =
     (let path = pi_Path pin; body = pi_ContentBody pin; i = pi_Id pin
      in if path = ''/info/name'' then Some (p\<lparr>up_Name := body, up_NameId := i\<rparr>)
         else if path = ''/info/avatar'' then Some (p\<lparr>up_Avatar := ''/content/'' @ i, up_AvatarId := i\<rparr>)
         else if path = ''/info/nft-avatar'' then Some (p\<lparr>up_NftAvatar := ''/content/'' @ i\<rparr>)
         else if path = ''/info/bio'' then Some (p\<lparr>up_Bio := body, up_BioId := i\<rparr>)
         else if path = ''/info/role'' then Some (p\<lparr>up_Role := body, up_RoleId := i\<rparr>)
         else if path = ''/info/soul'' then Some (p\<lparr>up_Soul := body, up_SoulId := i\<rparr>)
         else if path = ''/info/goal'' then Some (p\<lparr>up_Goal := body, up_GoalId := i\<rparr>)
         else if path = ''/info/chatSkills'' then Some (p\<lparr>up_ChatSkills := body, up_ChatSkillsId := i\<rparr>)
         else if path = ''/info/LLM'' then Some (p\<lparr>up_LLM := body, up_LLMId := i\<rparr>)
         else if path = ''/info/homepage'' then Some (p\<lparr>up_Homepage := body, up_HomepageId := i\<rparr>)
         else if path = ''/info/background'' then Some (p\<lparr>up_Background := ''/content/'' @ i, up_BackgroundId := i\<rparr>)
         else if path = ''/info/chatpubkey'' then Some (p\<lparr>up_ChatPublicKey := body, up_ChatPublicKeyId := i\<rparr>)
         else None)"

definition invalidate :: "('l, 's) user_env \<Rightarrow> string \<Rightarrow> ('l, 's) CacheProvider \<Rightarrow> ('l, 's) CacheProvider" where
  "invalidate A p cp = snd (Cache_InvalidateByPrefix (ui_C A) user_ns p cp)"

definition user_HandleBlockPin :: "('l, 's) user_env \<Rightarrow> PinInscription \<Rightarrow> ('l, 's) CacheProvider \<Rightarrow> (string + unit NotifyEvent option) \<times> ('l, 's) CacheProvider" where
  "user_HandleBlockPin A pin cp =
     (let metaid = pin_author pin
      in if metaid = '''' then (Inr None, cp)
         else
           (let (loaded, cp1) = no_err (getProfile A metaid cp);
                profile = identified A pin (case loaded of None \<Rightarrow> no_profile\<lparr>up_MetaID := metaid, up_ChainName := pi_ChainName pin\<rparr> | Some p \<Rightarrow> p)
            in if pi_Path pin = ''/'' then
                 (case saveProfile A (initialised A pin profile) cp1 of
                    (Some e, cp2) \<Rightarrow> (Inl e, cp2)
                  | (None, cp2) \<Rightarrow>
                      (case ui_Set A (metaidKey metaid) (pin_address pin) cp2 of (Some e, cp3) \<Rightarrow> (Inl e, cp3) | (None, cp3) \<Rightarrow> (Inr None, cp3)))
               else case info_updated pin profile of
                 None \<Rightarrow> (Inr None, cp1)
               | Some profile1 \<Rightarrow>
                   (let cp2 = (if pi_Path pin = ''/info/avatar'' then invalidate A (''avatar:'' @ metaid) cp1 else cp1)
                    in case saveProfile A profile1 cp2 of
                         (Some e, cp3) \<Rightarrow> (Inl e, cp3)
                       | (None, cp3) \<Rightarrow> (Inr None, invalidate A (''profile:'' @ metaid) cp3))))"

definition user_HandleMempoolPin :: "('l, 's) user_env \<Rightarrow> PinInscription \<Rightarrow> ('l, 's) CacheProvider \<Rightarrow> (string + unit NotifyEvent option) \<times> ('l, 's) CacheProvider" where
  "user_HandleMempoolPin A pin cp = (Inr None, cp)"

subsection \<open>References to avatars\<close>

definition ui_trim_prefix :: "string \<Rightarrow> string \<Rightarrow> string" where
  "ui_trim_prefix s p = (if HasPrefix s p then drop (length p) s else s)"

definition content_url :: "('l, 's) user_env \<Rightarrow> string \<Rightarrow> string \<Rightarrow> string \<Rightarrow> bool" where
  "content_url A host p asset = (case ui_url A (TrimSpace asset) of None \<Rightarrow> False | Some (h, path) \<Rightarrow> ToLower (ui_U A) h = host \<and> HasPrefix path p)"

definition isLegacyManAPIContentURL :: "('l, 's) user_env \<Rightarrow> string \<Rightarrow> bool" where
  "isLegacyManAPIContentURL A asset = content_url A ''manapi.metaid.io'' ''/content/'' asset"

definition isFileIndexerContentURL :: "('l, 's) user_env \<Rightarrow> string \<Rightarrow> bool" where
  "isFileIndexerContentURL A asset = content_url A ''file.metaid.io'' ''/metafile-indexer/content/'' asset"

text \<open>The last part of a path without outer slashes.\<close>

definition path_end :: "string \<Rightarrow> string" where
  "path_end path = rev (takeWhile (\<lambda>c. c \<noteq> CHR ''/'') (rev (Trim CHR ''/'' path)))"

definition user_avatarIDFromReference :: "('l, 's) user_env \<Rightarrow> string \<Rightarrow> string" where
  "user_avatarIDFromReference A avatar0 =
     (let avatar = TrimSpace avatar0; lower = ToLower (ui_U A) avatar
      in if avatar = '''' \<or> avatar = ''/content/'' then ''''
         else if HasPrefix avatar ''/content/'' then Trim CHR ''/'' (ui_trim_prefix avatar ''/content/'')
         else if HasPrefix lower ''metafile://'' then Trim CHR ''/'' (ui_trim_prefix avatar ''metafile://'')
         else if HasPrefix lower ''metafile:'' then Trim CHR ''/'' (ui_trim_prefix avatar ''metafile:'')
         else if isLegacyManAPIContentURL A avatar \<or> isFileIndexerContentURL A avatar then
           (case ui_url A avatar of None \<Rightarrow> '''' | Some (h, path) \<Rightarrow> TrimSpace (path_end path))
         else '''')"

definition isContentBackedAvatarReference :: "('l, 's) user_env \<Rightarrow> string \<Rightarrow> bool" where
  "isContentBackedAvatarReference A avatar0 =
     (let avatar = TrimSpace avatar0
      in HasPrefix avatar ''/content/'' \<or> HasPrefix (ToLower (ui_U A) avatar) ''metafile:'' \<or> isLegacyManAPIContentURL A avatar \<or> isFileIndexerContentURL A avatar)"

definition normaliseAvatarReference :: "('l, 's) user_env \<Rightarrow> string \<Rightarrow> string \<Rightarrow> string \<times> string" where
  "normaliseAvatarReference A avatar0 avatarID0 =
     (let avatar = TrimSpace avatar0; i0 = TrimSpace avatarID0; avatarID = (if i0 = '''' then user_avatarIDFromReference A avatar else i0)
      in if avatarID = '''' then (avatar, '''')
         else if avatar = '''' \<or> avatar = ''/content/'' \<or> isContentBackedAvatarReference A avatar then (''/content/'' @ avatarID, avatarID)
         else (avatar, avatarID))"

definition weak_avatar :: "('l, 's) user_env \<Rightarrow> string \<Rightarrow> bool" where
  "weak_avatar A avatar \<longleftrightarrow> avatar = '''' \<or> avatar = ''/content/'' \<or> isLegacyManAPIContentURL A avatar"

definition shouldUseRemoteAvatar :: "('l, 's) user_env \<Rightarrow> string \<Rightarrow> string \<Rightarrow> string \<Rightarrow> string \<Rightarrow> bool" where
  "shouldUseRemoteAvatar A dstAvatar0 dstID0 srcAvatar0 srcID0 =
     (let dstAvatar = TrimSpace dstAvatar0; dstID = TrimSpace dstID0; srcAvatar = TrimSpace srcAvatar0; srcID = TrimSpace srcID0
      in if srcAvatar = '''' \<and> srcID = '''' then False
         else if weak_avatar A dstAvatar then True
         else srcID \<noteq> '''' \<and> dstID \<noteq> '''' \<and> \<not> EqualFold (ui_U A) srcID dstID)"

definition avatarNeedsRemoteCompletion :: "('l, 's) user_env \<Rightarrow> UserProfile \<Rightarrow> bool" where
  "avatarNeedsRemoteCompletion A profile = weak_avatar A (TrimSpace (up_Avatar profile))"

definition fillAvatarFields :: "('l, 's) user_env \<Rightarrow> UserProfile \<Rightarrow> UserProfile \<Rightarrow> UserProfile" where
  "fillAvatarFields A out remote =
     (let (srcAvatar, srcID) = normaliseAvatarReference A (up_Avatar remote) (up_AvatarId remote)
      in if srcAvatar = '''' \<and> srcID = '''' then out
         else
           (let dstAvatar = TrimSpace (up_Avatar out); dstID = first_non_empty [up_AvatarId out, user_avatarIDFromReference A dstAvatar]
            in if shouldUseRemoteAvatar A dstAvatar dstID srcAvatar srcID
               then out\<lparr>up_Avatar := (if srcAvatar \<noteq> '''' then srcAvatar else up_Avatar out), up_AvatarId := (if srcID \<noteq> '''' then srcID else up_AvatarId out)\<rparr>
               else if TrimSpace (up_AvatarId out) = '''' \<and> dstID \<noteq> '''' then out\<lparr>up_AvatarId := dstID\<rparr> else out))"

subsection \<open>Completion from a remote service\<close>

definition shouldFillString :: "string \<Rightarrow> string \<Rightarrow> bool" where
  "shouldFillString dst0 src0 =
     (let dst = TrimSpace dst0; src = TrimSpace src0 in if src = '''' then False else dst = '''' \<or> dst = ''/content/'')"

definition fillString :: "string \<Rightarrow> string \<Rightarrow> string" where
  "fillString dst src = (if shouldFillString dst src then src else dst)"

definition overrideString :: "string \<Rightarrow> string \<Rightarrow> string" where
  "overrideString dst src = (if TrimSpace src \<noteq> '''' then src else dst)"

definition mergeUserProfiles :: "('l, 's) user_env \<Rightarrow> UserProfile option \<Rightarrow> UserProfile \<Rightarrow> UserProfile" where
  "mergeUserProfiles A local remote =
     (case local of
        None \<Rightarrow> remote
      | Some l \<Rightarrow>
          (let o1 = l\<lparr>up_MetaID := overrideString (up_MetaID l) (up_MetaID remote), up_GlobalMetaID := overrideString (up_GlobalMetaID l) (up_GlobalMetaID remote),
                 up_Address := overrideString (up_Address l) (up_Address remote), up_Name := fillString (up_Name l) (up_Name remote),
                 up_NameId := fillString (up_NameId l) (up_NameId remote)\<rparr>;
               o2 = fillAvatarFields A o1 remote
           in o2\<lparr>up_NftAvatar := fillString (up_NftAvatar o2) (up_NftAvatar remote), up_Bio := fillString (up_Bio o2) (up_Bio remote),
                up_BioId := fillString (up_BioId o2) (up_BioId remote), up_Background := fillString (up_Background o2) (up_Background remote),
                up_ChatPublicKey := fillString (up_ChatPublicKey o2) (up_ChatPublicKey remote),
                up_ChatPublicKeyId := fillString (up_ChatPublicKeyId o2) (up_ChatPublicKeyId remote), up_ChainName := fillString (up_ChainName o2) (up_ChainName remote)\<rparr>))"

definition profileNeedsRemoteCompletion :: "('l, 's) user_env \<Rightarrow> UserProfile option \<Rightarrow> bool" where
  "profileNeedsRemoteCompletion A profile =
     (case profile of
        None \<Rightarrow> True
      | Some p \<Rightarrow> TrimSpace (up_ChatPublicKey p) = '''' \<or> TrimSpace (up_GlobalMetaID p) = '''' \<or> TrimSpace (up_MetaID p) = '''' \<or> TrimSpace (up_Address p) = ''''
          \<or> avatarNeedsRemoteCompletion A p)"

definition shouldFetchRemote :: "('l, 's) user_env \<Rightarrow> remote_service option \<Rightarrow> UserProfile option \<Rightarrow> bool" where
  "shouldFetchRemote A remote local =
     (if Option.is_none remote \<or> ui_mode A = ''local-only'' then False
      else if ui_mode A = ''remote-only'' then True
      else if \<not> ui_fallback A then False
      else profileNeedsRemoteCompletion A local)"

definition known_kind :: "string \<Rightarrow> bool" where
  "known_kind k \<longleftrightarrow> k = ''metaid'' \<or> k = ''address'' \<or> k = ''globalmetaid''"

fun fetch_loop ::
    "('l, 's) user_env \<Rightarrow> remote_service \<Rightarrow> string list \<Rightarrow> UserProfile option \<Rightarrow> remoteProfileQuery list \<Rightarrow> string + UserProfile option" where
  "fetch_loop A R seen merged [] = Inr merged"
| "fetch_loop A R seen merged (q0 # qs) =
     (let q = q0\<lparr>rq_value := TrimSpace (rq_value q0)\<rparr>; key = rq_kind q @ '':'' @ rq_value q
      in if rq_value q = '''' \<or> key \<in> set seen then fetch_loop A R seen merged qs
         else if \<not> known_kind (rq_kind q) then fetch_loop A R (key # seen) merged qs
         else case R q of
           Inl e \<Rightarrow> Inl e
         | Inr None \<Rightarrow> fetch_loop A R (key # seen) merged qs
         | Inr (Some p) \<Rightarrow>
             (let m = mergeUserProfiles A merged p
              in if \<not> profileNeedsRemoteCompletion A (Some m) then Inr (Some m) else fetch_loop A R (key # seen) (Some m) qs))"

definition fetchRemoteProfile :: "('l, 's) user_env \<Rightarrow> remote_service \<Rightarrow> remoteProfileQuery list \<Rightarrow> string + UserProfile option" where
  "fetchRemoteProfile A R queries = fetch_loop A R [] None queries"

definition persistMergedProfile :: "('l, 's) user_env \<Rightarrow> string \<Rightarrow> UserProfile \<Rightarrow> ('l, 's) CacheProvider \<Rightarrow> string option \<times> ('l, 's) CacheProvider" where
  "persistMergedProfile A aliasKey0 profile cp =
     (let last_part = (\<lambda>cp. (None, if up_MetaID profile \<noteq> '''' then invalidate A (''profile:'' @ up_MetaID profile) cp else cp))
      in case saveProfile A profile cp of
           (Some e, cp1) \<Rightarrow> (Some e, cp1)
         | (None, cp1) \<Rightarrow>
             (let aliasKey = TrimSpace aliasKey0
              in if aliasKey \<noteq> '''' \<and> aliasKey \<noteq> up_MetaID profile then
                   (case saveProfileAtKey A aliasKey profile cp1 of
                      (Some e, cp2) \<Rightarrow> (Some e, cp2)
                    | (None, cp2) \<Rightarrow> last_part (invalidate A (''profile:'' @ aliasKey) cp2))
                 else last_part cp1))"

definition completeProfile ::
    "('l, 's) user_env \<Rightarrow> remote_service option \<Rightarrow> UserProfile option \<Rightarrow> remoteProfileQuery list \<Rightarrow> string \<Rightarrow> ('l, 's) CacheProvider
      \<Rightarrow> (string + UserProfile option) \<times> ('l, 's) CacheProvider" where
  "completeProfile A remote local queries aliasKey cp =
     (if \<not> shouldFetchRemote A remote local then (Inr local, cp)
      else case remote of
        None \<Rightarrow> (Inr local, cp)
      | Some R \<Rightarrow>
          (case fetchRemoteProfile A R queries of
             Inl e \<Rightarrow> (Inr local, cp)
           | Inr None \<Rightarrow> (Inr local, cp)
           | Inr (Some r) \<Rightarrow>
               (let merged = mergeUserProfiles A local r
                in case persistMergedProfile A aliasKey merged cp of (Some e, cp1) \<Rightarrow> (Inl e, cp1) | (None, cp1) \<Rightarrow> (Inr (Some merged), cp1))))"

definition metaid_queries :: "string \<Rightarrow> remoteProfileQuery list" where
  "metaid_queries metaid = [\<lparr>rq_kind = ''metaid'', rq_value = metaid\<rparr>, \<lparr>rq_kind = ''address'', rq_value = metaid\<rparr>]"

definition lookupByMetaId ::
    "('l, 's) user_env \<Rightarrow> remote_service option \<Rightarrow> string \<Rightarrow> ('l, 's) CacheProvider \<Rightarrow> (string + UserProfile option) \<times> ('l, 's) CacheProvider" where
  "lookupByMetaId A remote metaid cp =
     (case getProfile A metaid cp of
        (Inl e, cp1) \<Rightarrow> (Inl e, cp1)
      | (Inr profile, cp1) \<Rightarrow> completeProfile A remote profile (metaid_queries metaid) metaid cp1)"

definition lookupByAddress ::
    "('l, 's) user_env \<Rightarrow> remote_service option \<Rightarrow> string \<Rightarrow> ('l, 's) CacheProvider \<Rightarrow> (string + UserProfile option) \<times> ('l, 's) CacheProvider" where
  "lookupByAddress A remote address cp =
     (case findProfileByAddress A address cp of
        (Inl e, cp1) \<Rightarrow> (Inl e, cp1)
      | (Inr profile, cp1) \<Rightarrow> completeProfile A remote profile [\<lparr>rq_kind = ''address'', rq_value = address\<rparr>] '''' cp1)"

definition lookupByGlobalMetaId ::
    "('l, 's) user_env \<Rightarrow> remote_service option \<Rightarrow> string \<Rightarrow> ('l, 's) CacheProvider \<Rightarrow> (string + UserProfile option) \<times> ('l, 's) CacheProvider" where
  "lookupByGlobalMetaId A remote globalMetaId cp =
     (case findProfileByGlobalMetaId A globalMetaId cp of
        (Inl e, cp1) \<Rightarrow> (Inl e, cp1)
      | (Inr profile, cp1) \<Rightarrow>
          completeProfile A remote profile
            [\<lparr>rq_kind = ''globalmetaid'', rq_value = globalMetaId\<rparr>, \<lparr>rq_kind = ''address'', rq_value = globalMetaId\<rparr>, \<lparr>rq_kind = ''metaid'', rq_value = globalMetaId\<rparr>]
            globalMetaId cp1)"

subsection \<open>Handlers\<close>

definition profile_answer :: "(string + UserProfile option) \<times> ('l, 's) CacheProvider \<Rightarrow> UserProfile api_answer \<times> ('l, 's) CacheProvider" where
  "profile_answer r = (case r of (Inr (Some p), cp) \<Rightarrow> (Answer 1 p, cp) | (_, cp) \<Rightarrow> (RespErr 40400 ''user not found'', cp))"

definition handleAddressInfo :: "('l, 's) user_env \<Rightarrow> remote_service option \<Rightarrow> string \<Rightarrow> ('l, 's) CacheProvider \<Rightarrow> UserProfile api_answer \<times> ('l, 's) CacheProvider" where
  "handleAddressInfo A remote address cp =
     (if address = '''' then (RespErr 40000 ''address is required'', cp) else profile_answer (lookupByAddress A remote address cp))"

definition handleGlobalMetaIdInfo :: "('l, 's) user_env \<Rightarrow> remote_service option \<Rightarrow> string \<Rightarrow> ('l, 's) CacheProvider \<Rightarrow> UserProfile api_answer \<times> ('l, 's) CacheProvider" where
  "handleGlobalMetaIdInfo A remote globalMetaId cp =
     (if globalMetaId = '''' then (RespErr 40000 ''globalMetaId is required'', cp) else profile_answer (lookupByGlobalMetaId A remote globalMetaId cp))"

text \<open>Storing an answer in the cache; errors are ignored.\<close>

definition cache_profile :: "('l, 's) user_env \<Rightarrow> string \<Rightarrow> UserProfile \<Rightarrow> ('l, 's) CacheProvider \<Rightarrow> ('l, 's) CacheProvider" where
  "cache_profile A key p cp = (case cd_Marshal (ui_codec A) p of Inl e \<Rightarrow> cp | Inr raw \<Rightarrow> snd (Cache_Set (ui_C A) user_ns key raw cp))"

definition metaid_miss :: "('l, 's) user_env \<Rightarrow> remote_service option \<Rightarrow> string \<Rightarrow> ('l, 's) CacheProvider \<Rightarrow> UserProfile api_answer \<times> ('l, 's) CacheProvider" where
  "metaid_miss A remote metaid cp =
     (case lookupByMetaId A remote metaid cp of
        (Inr (Some p), cp1) \<Rightarrow> (Answer 1 p, cache_profile A (''profile:'' @ metaid) p cp1)
      | (_, cp1) \<Rightarrow> (RespErr 40400 ''user not found'', cp1))"

definition handleMetaIdInfo :: "('l, 's) user_env \<Rightarrow> remote_service option \<Rightarrow> string \<Rightarrow> ('l, 's) CacheProvider \<Rightarrow> UserProfile api_answer \<times> ('l, 's) CacheProvider" where
  "handleMetaIdInfo A remote metaid cp =
     (if metaid = '''' then (RespErr 40000 ''metaid is required'', cp)
      else case Cache_Get (ui_C A) user_ns (''profile:'' @ metaid) cp of
        (None, cp1) \<Rightarrow> metaid_miss A remote metaid cp1
      | (Some val, cp1) \<Rightarrow>
          (case cd_Unmarshal (ui_codec A) val of
             None \<Rightarrow> metaid_miss A remote metaid cp1
           | Some p \<Rightarrow>
               (case completeProfile A remote (Some p) (metaid_queries metaid) metaid cp1 of
                  (Inr (Some completed), cp2) \<Rightarrow> (Answer 1 completed, cache_profile A (''profile:'' @ metaid) completed cp2)
                | (_, cp2) \<Rightarrow> metaid_miss A remote metaid cp2)))"

subsection \<open>The remote service over HTTP\<close>

record remoteProfilePayload =
  rp_GlobalMetaID :: string
  rp_MetaID :: string
  rp_Address :: string
  rp_Name :: string
  rp_NameId :: string
  rp_Avatar :: string
  rp_AvatarId :: string
  rp_NftAvatar :: string
  rp_Bio :: bytes
  rp_BioId :: string
  rp_Background :: string
  rp_ChatPublicKey :: string
  rp_ChatPublicKeyId :: string
  rp_ChainName :: string

record profile_client =
  pl_baseURL :: string
  pl_PathEscape :: "string \<Rightarrow> string"
  pl_Do :: "string \<Rightarrow> string + (int \<times> bytes)"
  pl_envelope :: "bytes \<Rightarrow> (int \<times> remoteProfilePayload) option"
  pl_string :: "bytes \<Rightarrow> string option"
  pl_Compact :: "bytes \<Rightarrow> bytes option"

definition rawJSONToString :: "profile_client \<Rightarrow> bytes \<Rightarrow> string" where
  "rawJSONToString l raw0 =
     (let raw = TrimSpace raw0
      in if raw = [] \<or> raw = ''null'' then ''''
         else case pl_string l raw of Some s \<Rightarrow> s | None \<Rightarrow> (case pl_Compact l raw of Some c \<Rightarrow> c | None \<Rightarrow> raw))"

definition toUserProfile :: "('l, 's) user_env \<Rightarrow> profile_client \<Rightarrow> remoteProfilePayload \<Rightarrow> UserProfile option" where
  "toUserProfile A l p =
     (if rp_MetaID p = '''' \<and> rp_GlobalMetaID p = '''' \<and> rp_Address p = '''' then None
      else
        (let (avatar, avatarID) = normaliseAvatarReference A (rp_Avatar p) (rp_AvatarId p)
         in Some (no_profile\<lparr>up_GlobalMetaID := rp_GlobalMetaID p, up_MetaID := rp_MetaID p, up_Address := rp_Address p, up_Name := rp_Name p, up_NameId := rp_NameId p,
              up_Avatar := avatar, up_AvatarId := avatarID, up_NftAvatar := rp_NftAvatar p, up_Bio := rawJSONToString l (rp_Bio p), up_BioId := rp_BioId p,
              up_Background := rp_Background p, up_ChatPublicKey := rp_ChatPublicKey p, up_ChatPublicKeyId := rp_ChatPublicKeyId p, up_ChainName := rp_ChainName p\<rparr>)))"

definition http_lookup :: "('l, 's) user_env \<Rightarrow> profile_client \<Rightarrow> remote_service" where
  "http_lookup A l q =
     (if pl_baseURL l = '''' \<or> TrimSpace (rq_value q) = '''' then Inr None
      else case pl_Do l (pl_baseURL l @ ''/info/'' @ rq_kind q @ ''/'' @ pl_PathEscape l (TrimSpace (rq_value q))) of
        Inl e \<Rightarrow> Inl e
      | Inr (status, raw) \<Rightarrow>
          (if status = 404 then Inr None
           else if status < 200 \<or> 300 \<le> status then Inl (''remote profile '' @ rq_kind q @ '' returned HTTP '' @ Itoa status)
           else case pl_envelope l raw of
             None \<Rightarrow> Inl ''decode error''
           | Some (c, dat) \<Rightarrow> if c \<noteq> 1 then Inr None else Inr (toUserProfile A l dat)))"

definition normaliseProfileMode :: "unicode \<Rightarrow> string \<Rightarrow> string" where
  "normaliseProfileMode U mode =
     (let m = ToLower U (TrimSpace mode) in if m = ''remote-only'' \<or> m = ''local-only'' \<or> m = ''local-first'' then m else ''local-first'')"

definition parseBoolEnvDefault :: "unicode \<Rightarrow> string \<Rightarrow> bool \<Rightarrow> bool" where
  "parseBoolEnvDefault U raw fallback =
     (let r = ToLower U (TrimSpace raw)
      in if r = '''' then fallback
         else if r \<in> set [''1'', ''true'', ''t'', ''yes'', ''y'', ''on''] then True
         else if r \<in> set [''0'', ''false'', ''f'', ''no'', ''n'', ''off''] then False
         else fallback)"

text \<open>The settings of the environment; the result is the module's settings and the base URL of the remote service, if there is one.\<close>

definition configureRemoteProfileLookupFromEnv :: "('l, 's) user_env \<Rightarrow> (string \<Rightarrow> string) \<Rightarrow> ('l, 's) user_env \<times> string option" where
  "configureRemoteProfileLookupFromEnv A getenv =
     (let A1 = A\<lparr>ui_mode := normaliseProfileMode (ui_U A) (getenv ''METASO_P2P_PROFILE_MODE''),
                 ui_fallback := parseBoolEnvDefault (ui_U A) (getenv ''METASO_P2P_PROFILE_ALLOW_REMOTE_FALLBACK'') True\<rparr>;
          baseURL = TrimSpace (getenv ''METASO_P2P_PROFILE_REMOTE_BASE_URL'')
      in if baseURL = '''' \<or> ui_mode A1 = ''local-only'' then (A1, None) else (A1, Some (TrimRight CHR ''/'' (TrimSpace baseURL))))"

subsection \<open>Backfill\<close>

definition user_backfill_paths :: "string list" where
  "user_backfill_paths = [''/info/role'', ''/info/soul'', ''/info/goal'', ''/info/chatSkills'', ''/info/LLM'', ''/info/homepage'']"

definition user_normaliseBackfillPaths :: "string list \<Rightarrow> string list" where
  "user_normaliseBackfillPaths paths = (if paths = [] then user_backfill_paths else filter (\<lambda>p. p \<in> set user_backfill_paths) (map TrimSpace paths))"

definition user_toAggregatorPin :: "json_lib \<Rightarrow> manapiPin \<Rightarrow> PinInscription" where
  "user_toAggregatorPin J p =
     (let body = content_UnmarshalJSON J (mp_ContentBody p); summary = TrimSpace (mp_ContentSummary p)
      in \<lparr>pi_Id = TrimSpace (mp_ID p), pi_Number = 0, pi_Path = TrimSpace (mp_Path p), pi_OriginalPath = TrimSpace (mp_OriginalPath p),
          pi_Operation = TrimSpace (mp_Operation p), pi_ContentBody = (if TrimSpace body = [] \<and> summary \<noteq> '''' then summary else body),
          pi_ContentSummary = summary, pi_ContentType = TrimSpace (mp_ContentType p), pi_Creator = '''', pi_CreateAddress = TrimSpace (mp_CreateAddress p),
          pi_CreateMetaId = TrimSpace (mp_CreateMetaId p), pi_MetaId = TrimSpace (mp_MetaId p), pi_GlobalMetaId = TrimSpace (mp_GlobalMetaId p),
          pi_Address = TrimSpace (mp_Address p), pi_ChainName = TrimSpace (mp_ChainName p), pi_GenesisTransaction = '''', pi_GenesisHeight = mp_GenesisHeight p,
          pi_Timestamp = mp_Timestamp p, pi_Output = '''', pi_IsTransfered = False, pi_OriginalId = TrimSpace (mp_OriginalId p), pi_Host = ''''\<rparr>)"

definition user_backfill_pin :: "('l, 's) user_env \<Rightarrow> json_lib \<Rightarrow> manapiPin \<Rightarrow> ('l, 's) CacheProvider \<Rightarrow> string option \<times> ('l, 's) CacheProvider" where
  "user_backfill_pin A J pin cp =
     (case user_HandleBlockPin A (user_toAggregatorPin J pin) cp of (Inl e, cp1) \<Rightarrow> (Some e, cp1) | (Inr ev, cp1) \<Rightarrow> (None, cp1))"

definition user_Backfill ::
    "('l, 's) user_env \<Rightarrow> manapi_client option \<Rightarrow> string list \<Rightarrow> (int \<times> int) option \<Rightarrow> int \<Rightarrow> ('l, 's) CacheProvider \<Rightarrow> (string option \<times> ('l, 's) CacheProvider) option" where
  "user_Backfill A client paths since pageSize cp =
     (case client of
        None \<Rightarrow> Some (Some ''userinfo backfill client is required'', cp)
      | Some c \<Rightarrow>
          (let size = (if pageSize \<le> 0 then 100 else pageSize)
           in backfill_paths (\<lambda>path cursor. ListPath c path cursor size) (user_backfill_pin A (mc_J c)) since size (user_normaliseBackfillPaths paths) cp))"

end
