(* ===== verification/UserProfiles.thy ===== *)
theory UserProfiles
  imports UserInfo
begin

text \<open>
  Properties of \<open>UserInfo\<close>. The locale \<open>user_store\<close> is the module on a reliable store with a coherent cache. After any block pins the stored profile of a
  user is the one the pins describe: for every field the value of the last pin about it, for the identity the first value given. Lookups through the
  indexes find a profile exactly when one is stored. The cache shows the newest profile after an \<open>/info\<close> pin, but not after an init pin.
\<close>

subsection \<open>What the pins say\<close>

definition info_paths :: "string list" where
  "info_paths = [''/info/name'', ''/info/avatar'', ''/info/nft-avatar'', ''/info/bio'', ''/info/role'', ''/info/soul'', ''/info/goal'', ''/info/chatSkills'',
     ''/info/LLM'', ''/info/homepage'', ''/info/background'', ''/info/chatpubkey'']"

definition about_user :: "string \<Rightarrow> PinInscription \<Rightarrow> bool" where
  "about_user u pin \<longleftrightarrow> pin_author pin = u \<and> pi_Path pin \<in> set (''/'' # info_paths)"

definition last_with :: "string \<Rightarrow> (PinInscription \<Rightarrow> string) \<Rightarrow> PinInscription list \<Rightarrow> string" where
  "last_with path f ps = (let l = filter (\<lambda>p. pi_Path p = path) ps in if l = [] then '''' else f (List.last l))"

fun first_of :: "(PinInscription \<Rightarrow> string) \<Rightarrow> PinInscription list \<Rightarrow> string" where
  "first_of f [] = ''''"
| "first_of f (p # ps) = (if f p \<noteq> '''' then f p else first_of f ps)"

definition pin_global :: "('l, 's) user_env \<Rightarrow> PinInscription \<Rightarrow> string" where
  "pin_global A pin =
     (let g = TrimSpace (pi_GlobalMetaId pin)
      in if g \<noteq> '''' then g else if pin_address pin \<noteq> '''' then EncodeGlobalMetaId (ui_U A) (ui_B A) (pin_address pin) (pi_ChainName pin) else '''')"

definition content_of :: "PinInscription \<Rightarrow> string" where
  "content_of pin = ''/content/'' @ pi_Id pin"

definition described :: "('l, 's) user_env \<Rightarrow> string \<Rightarrow> PinInscription list \<Rightarrow> UserProfile" where
  "described A u ps =
     \<lparr>up_GlobalMetaID = first_of (pin_global A) ps, up_MetaID = u, up_Address = first_of pin_address ps,
      up_Name = last_with ''/info/name'' pi_ContentBody ps, up_NameId = last_with ''/info/name'' pi_Id ps,
      up_Avatar = last_with ''/info/avatar'' content_of ps, up_AvatarId = last_with ''/info/avatar'' pi_Id ps, up_NftAvatar = last_with ''/info/nft-avatar'' content_of ps,
      up_Bio = last_with ''/info/bio'' pi_ContentBody ps, up_BioId = last_with ''/info/bio'' pi_Id ps,
      up_Role = last_with ''/info/role'' pi_ContentBody ps, up_RoleId = last_with ''/info/role'' pi_Id ps,
      up_Soul = last_with ''/info/soul'' pi_ContentBody ps, up_SoulId = last_with ''/info/soul'' pi_Id ps,
      up_Goal = last_with ''/info/goal'' pi_ContentBody ps, up_GoalId = last_with ''/info/goal'' pi_Id ps,
      up_ChatSkills = last_with ''/info/chatSkills'' pi_ContentBody ps, up_ChatSkillsId = last_with ''/info/chatSkills'' pi_Id ps,
      up_LLM = last_with ''/info/LLM'' pi_ContentBody ps, up_LLMId = last_with ''/info/LLM'' pi_Id ps,
      up_Homepage = last_with ''/info/homepage'' pi_ContentBody ps, up_HomepageId = last_with ''/info/homepage'' pi_Id ps,
      up_Background = last_with ''/info/background'' content_of ps, up_BackgroundId = last_with ''/info/background'' pi_Id ps,
      up_ChatPublicKey = last_with ''/info/chatpubkey'' pi_ContentBody ps, up_ChatPublicKeyId = last_with ''/info/chatpubkey'' pi_Id ps,
      up_ChainName = first_of pi_ChainName ps\<rparr>"

text \<open>What one pin saves.\<close>

definition pin_saves :: "('l, 's) user_env \<Rightarrow> PinInscription \<Rightarrow> UserProfile option \<Rightarrow> UserProfile option" where
  "pin_saves A pin old =
     (let p = identified A pin (case old of None \<Rightarrow> no_profile\<lparr>up_MetaID := pin_author pin, up_ChainName := pi_ChainName pin\<rparr> | Some p \<Rightarrow> p)
      in if pi_Path pin = ''/'' then Some (initialised A pin p) else info_updated pin p)"

lemma last_with_snoc [simp]: "last_with path f (ps @ [p]) = (if pi_Path p = path then f p else last_with path f ps)"
  by (simp add: last_with_def Let_def)

lemma last_with_Nil [simp]: "last_with path f [] = ''''"
  by (simp add: last_with_def)

lemma first_of_snoc [simp]: "first_of f (ps @ [p]) = (if first_of f ps = '''' then f p else first_of f ps)"
  by (induction ps) auto

lemma described_Nil: "described A u [] = no_profile\<lparr>up_MetaID := u\<rparr>"
  by (simp add: described_def no_profile_def)

lemma identified_eq:
  "identified A pin p = p\<lparr>up_GlobalMetaID := (if up_GlobalMetaID p = '''' then pin_global A pin else up_GlobalMetaID p),
     up_Address := (if up_Address p = '''' then pin_address pin else up_Address p), up_ChainName := (if up_ChainName p = '''' then pi_ChainName pin else up_ChainName p)\<rparr>"
proof -
  have f: "(if a = '''' \<and> b \<noteq> '''' then b else a) = (if a = '''' then b else a)" for a b :: string by simp
  have g: "(if a = '''' then (if TrimSpace (pi_GlobalMetaId pin) \<noteq> '''' then TrimSpace (pi_GlobalMetaId pin)
      else if pin_address pin \<noteq> '''' then EncodeGlobalMetaId (ui_U A) (ui_B A) (pin_address pin) (pi_ChainName pin) else a) else a) = (if a = '''' then pin_global A pin else a)" for a
    by (simp add: pin_global_def Let_def)
  show ?thesis unfolding identified_def Let_def f g by simp
qed

lemma initialised_identified: "initialised A pin (identified A pin p) = identified A pin p"
proof -
  let ?p = "identified A pin p"
  have a: "(if up_Address ?p = '''' \<and> pin_address pin \<noteq> '''' then pin_address pin else up_Address ?p) = up_Address ?p" by (simp add: identified_eq)
  have g: "(if up_GlobalMetaID ?p = '''' \<and> pin_address pin \<noteq> '''' then EncodeGlobalMetaId (ui_U A) (ui_B A) (pin_address pin) (pi_ChainName pin) else up_GlobalMetaID ?p)
      = up_GlobalMetaID ?p" by (simp add: identified_eq pin_global_def Let_def)
  show ?thesis unfolding initialised_def Let_def a g by simp
qed

lemma new_identified: "identified A pin (no_profile\<lparr>up_MetaID := u, up_ChainName := pi_ChainName pin\<rparr>) = identified A pin (no_profile\<lparr>up_MetaID := u\<rparr>)"
  by (simp add: identified_eq no_profile_def)

lemma info_updated_MetaID: "info_updated pin p = Some p' \<Longrightarrow> up_MetaID p' = up_MetaID p"
  by (auto simp: info_updated_def Let_def split: if_splits)

lemma info_updated_iff: "pi_Path pin \<in> set info_paths \<longleftrightarrow> (\<exists>p'. info_updated pin p = Some p')"
  by (simp add: info_paths_def info_updated_def Let_def)

lemma described_init:
  "pi_Path pin = ''/'' \<Longrightarrow> identified A pin (described A u ps) = described A u (ps @ [pin])"
  by (simp add: identified_eq described_def)

lemma described_info:
  "pi_Path pin = ''/info/name'' \<Longrightarrow> info_updated pin (identified A pin (described A u ps)) = Some (described A u (ps @ [pin]))"
  "pi_Path pin = ''/info/avatar'' \<Longrightarrow> info_updated pin (identified A pin (described A u ps)) = Some (described A u (ps @ [pin]))"
  "pi_Path pin = ''/info/nft-avatar'' \<Longrightarrow> info_updated pin (identified A pin (described A u ps)) = Some (described A u (ps @ [pin]))"
  "pi_Path pin = ''/info/bio'' \<Longrightarrow> info_updated pin (identified A pin (described A u ps)) = Some (described A u (ps @ [pin]))"
  "pi_Path pin = ''/info/role'' \<Longrightarrow> info_updated pin (identified A pin (described A u ps)) = Some (described A u (ps @ [pin]))"
  "pi_Path pin = ''/info/soul'' \<Longrightarrow> info_updated pin (identified A pin (described A u ps)) = Some (described A u (ps @ [pin]))"
  "pi_Path pin = ''/info/goal'' \<Longrightarrow> info_updated pin (identified A pin (described A u ps)) = Some (described A u (ps @ [pin]))"
  "pi_Path pin = ''/info/chatSkills'' \<Longrightarrow> info_updated pin (identified A pin (described A u ps)) = Some (described A u (ps @ [pin]))"
  "pi_Path pin = ''/info/LLM'' \<Longrightarrow> info_updated pin (identified A pin (described A u ps)) = Some (described A u (ps @ [pin]))"
  "pi_Path pin = ''/info/homepage'' \<Longrightarrow> info_updated pin (identified A pin (described A u ps)) = Some (described A u (ps @ [pin]))"
  "pi_Path pin = ''/info/background'' \<Longrightarrow> info_updated pin (identified A pin (described A u ps)) = Some (described A u (ps @ [pin]))"
  "pi_Path pin = ''/info/chatpubkey'' \<Longrightarrow> info_updated pin (identified A pin (described A u ps)) = Some (described A u (ps @ [pin]))"
  by (simp_all add: info_updated_def identified_eq described_def content_of_def Let_def)

lemma described_snoc:
  assumes "pi_Path pin \<in> set (''/'' # info_paths)"
  shows "(if pi_Path pin = ''/'' then Some (identified A pin (described A u ps)) else info_updated pin (identified A pin (described A u ps))) = Some (described A u (ps @ [pin]))"
proof (cases "pi_Path pin = ''/''")
  case False
  then have "pi_Path pin \<in> set info_paths" using assms by simp
  then have "info_updated pin (identified A pin (described A u ps)) = Some (described A u (ps @ [pin]))"
    unfolding info_paths_def list.set insert_iff empty_iff by (elim disjE FalseE) (erule described_info)+
  then show ?thesis using False by simp
qed (simp add: described_init)

lemma pin_saves_described:
  assumes "about_user u pin"
  shows "pin_saves A pin (if ps = [] then None else Some (described A u ps)) = Some (described A u (ps @ [pin]))"
proof -
  have a: "pin_author pin = u" "pi_Path pin \<in> set (''/'' # info_paths)" using assms by (auto simp: about_user_def)
  show ?thesis using described_snoc [OF a(2), of A u ps] by (cases "ps = []") (auto simp: pin_saves_def initialised_identified new_identified a(1) described_Nil Let_def)
qed

lemma pin_saves_none: "pin_author pin = u \<Longrightarrow> \<not> about_user u pin \<Longrightarrow> pin_saves A pin old = None"
  using info_updated_iff [of pin] by (auto simp: pin_saves_def about_user_def Let_def)

lemma pin_saves_MetaID: "pin_saves A pin old = Some p \<Longrightarrow> \<forall>q. old = Some q \<longrightarrow> up_MetaID q = pin_author pin \<Longrightarrow> up_MetaID p = pin_author pin"
  by (auto simp: pin_saves_def initialised_identified Let_def dest!: info_updated_MetaID split: if_splits option.splits) (simp_all add: identified_eq)

subsection \<open>The module on a reliable store\<close>

lemma profile_keys [simp]: "profileKey m \<noteq> metaidKey x" "profileKey m \<noteq> globalMetaIdKey U x" "profileKey m \<noteq> addressKey U x" "profileKey m = profileKey m' \<longleftrightarrow> m = m'"
  by (simp_all add: profileKey_def metaidKey_def globalMetaIdKey_def addressKey_def)

locale user_store = two_level L view K loc content inv opened dbp C names
  for L :: "'l lru_api" and view and K :: "'s kv_api" and loc content inv opened dbp C names +
  fixes A :: "('l, 's) user_env"
  assumes uenv: "ui_C A = C"
    and codec: "\<exists>raw. cd_Marshal (ui_codec A) p = Inr raw \<and> cd_Unmarshal (ui_codec A) raw = Some p"
    and user_name: "user_ns \<in> names"
    and caches_apart: "n \<in> names \<Longrightarrow> loc (cache_ns n) \<noteq> loc user_ns"
begin

abbreviation udb :: "('l, 's) CacheProvider \<Rightarrow> bytes \<Rightarrow> bytes option" where "udb cp \<equiv> content (snd cp) (loc user_ns)"

definition profile_of :: "('l, 's) CacheProvider \<Rightarrow> string \<Rightarrow> UserProfile option" where
  "profile_of cp m = Option.bind (udb cp (profileKey m)) (cd_Unmarshal (ui_codec A))"

text \<open>The cache is coherent, the handle of the module exists, and all stored profiles decode.\<close>

definition users_ok :: "('l, 's) CacheProvider \<Rightarrow> bool" where
  "users_ok cp \<longleftrightarrow> coherent cp \<and> gm_get (fst cp) user_ns \<noteq> None \<and> (\<forall>m raw. udb cp (profileKey m) = Some raw \<longrightarrow> cd_Unmarshal (ui_codec A) raw \<noteq> None)"

lemma users_inv: "users_ok cp \<Longrightarrow> inv (snd cp)"
  by (simp add: users_ok_def coherent_def)

lemma users_same: "users_ok cp \<Longrightarrow> inv s' \<Longrightarrow> content s' = content (snd cp) \<Longrightarrow> users_ok (fst cp, s')"
  by (simp add: users_ok_def coherent_def)

lemma ui_Get_ok:
  assumes "users_ok cp"
  obtains cp' where "ui_Get A k cp = (case udb cp k of None \<Rightarrow> Inl ErrNotFound | Some v \<Rightarrow> Inr v, cp')" and "users_ok cp'" and "content (snd cp') = content (snd cp)"
    and "fst cp' = fst cp" and "\<forall>ns. opened (snd cp) ns \<longrightarrow> opened (snd cp') ns"
proof -
  obtain s' where g: "kv_Get K user_ns k (snd cp) = (case udb cp k of None \<Rightarrow> Inl ErrNotFound | Some v \<Rightarrow> Inr v, s')" "inv s'" "content s' = content (snd cp)"
    by (rule Get_eq [OF users_inv [OF assms]])
  have "\<forall>ns. opened (snd cp) ns \<longrightarrow> opened s' ns" using get_opens [OF users_inv [OF assms], of user_ns k] g(1) by simp
  then show thesis using g users_same [OF assms, of s'] that [of "(fst cp, s')"] by (simp add: ui_Get_def uenv env)
qed

text \<open>A write to the database of the module leaves the caches as they are.\<close>

definition writes :: "('l, 's) CacheProvider \<Rightarrow> (bytes \<Rightarrow> bytes option) \<Rightarrow> ('l, 's) CacheProvider \<Rightarrow> bool" where
  "writes cp db' cp' \<longleftrightarrow> users_ok cp' \<and> fst cp' = fst cp \<and> content (snd cp') = (content (snd cp))(loc user_ns := db')
     \<and> (\<forall>ns. opened (snd cp) ns \<longrightarrow> opened (snd cp') ns)"

lemma writes_trans: "writes cp d cp1 \<Longrightarrow> writes cp1 d' cp2 \<Longrightarrow> writes cp d' cp2"
  by (simp add: writes_def)

lemma writes_refl: "users_ok cp \<Longrightarrow> writes cp (udb cp) cp"
  by (simp add: writes_def)

lemma writes_l2: "writes cp d cp' \<Longrightarrow> l2 cp' user_ns = l2 cp user_ns"
  using caches_apart [OF user_name] by (simp add: writes_def)

lemma writes_udb: "writes cp d cp' \<Longrightarrow> udb cp' = d"
  by (simp add: writes_def)

lemma ui_Set_ok:
  assumes ok: "users_ok cp" and dec: "\<forall>m. k = profileKey m \<longrightarrow> cd_Unmarshal (ui_codec A) v \<noteq> None"
  obtains cp' where "ui_Set A k v cp = (None, cp')" and "writes cp ((udb cp)(k \<mapsto> v)) cp'"
proof -
  obtain s' where s': "kv_Set K user_ns k v (snd cp) = (None, s')" "inv s'" "content s' = (content (snd cp))(loc user_ns := (udb cp)(k \<mapsto> v))"
    by (rule Set_eq [OF users_inv [OF ok]])
  have "coherent (fst cp, s')" unfolding coherent_def
  proof (intro conjI allI impI)
    fix n ns assume ns: "gm_get (fst (fst cp, s')) n = Some ns"
    then have c: "n \<in> names" "nc_l2Prefix ns = cache_ns n" "view (nc_l1 ns) \<subseteq>\<^sub>m content (snd cp) (loc (cache_ns n))" using ok by (auto simp: users_ok_def coherent_def)
    show "n \<in> names" "nc_l2Prefix ns = cache_ns n" by (rule c(1), rule c(2))
    show "view (nc_l1 ns) \<subseteq>\<^sub>m content (snd (fst cp, s')) (loc (cache_ns n))" using c(3) caches_apart [OF c(1)] s'(3) by simp
  qed (use s'(2) in simp)
  then have "users_ok (fst cp, s')" using ok dec s'(3) by (auto simp: users_ok_def)
  moreover have "opened s' ns" if "opened (snd cp) ns" for ns using that set_opens [OF users_inv [OF ok], of user_ns k v ns] s'(1) by simp
  ultimately show thesis using that [of "(fst cp, s')"] s'(1,3) by (simp add: ui_Set_def uenv env writes_def)
qed

lemma getProfile_ok:
  assumes "users_ok cp"
  obtains cp' where "getProfile A m cp = (Inr (profile_of cp m), cp')" and "users_ok cp'" and "content (snd cp') = content (snd cp)" and "fst cp' = fst cp"
    and "\<forall>ns. opened (snd cp) ns \<longrightarrow> opened (snd cp') ns"
proof -
  obtain cp' where g: "ui_Get A (profileKey m) cp = (case udb cp (profileKey m) of None \<Rightarrow> Inl ErrNotFound | Some v \<Rightarrow> Inr v, cp')"
    "users_ok cp'" "content (snd cp') = content (snd cp)" "fst cp' = fst cp" "\<forall>ns. opened (snd cp) ns \<longrightarrow> opened (snd cp') ns" by (rule ui_Get_ok [OF assms])
  have "cd_Unmarshal (ui_codec A) raw \<noteq> None" if "udb cp (profileKey m) = Some raw" for raw using assms that by (auto simp: users_ok_def)
  then show thesis using g that [of cp'] by (cases "udb cp (profileKey m)") (auto simp: getProfile_def profile_of_def)
qed

lemma set_index_ok:
  assumes ok: "users_ok cp" and key: "key = globalMetaIdKey \<or> key = addressKey"
  obtains d cp' where "set_index A key v t cp = (None, cp')" and "writes cp d cp'" and "\<forall>m. d (profileKey m) = udb cp (profileKey m)"
proof (cases "TrimSpace v = ''''")
  case True
  then show thesis using that [OF _ writes_refl [OF ok]] by (simp add: set_index_def)
next
  case False
  have n: "\<forall>m. key (ui_U A) (TrimSpace v) = profileKey m \<longrightarrow> cd_Unmarshal (ui_codec A) t \<noteq> None"
    using key profile_keys(2,3) by (metis (no_types))
  obtain cp' where w: "ui_Set A (key (ui_U A) (TrimSpace v)) t cp = (None, cp')" "writes cp ((udb cp)(key (ui_U A) (TrimSpace v) \<mapsto> t)) cp'" by (rule ui_Set_ok [OF ok n])
  have "\<forall>m. ((udb cp)(key (ui_U A) (TrimSpace v) \<mapsto> t)) (profileKey m) = udb cp (profileKey m)" using key profile_keys(2,3) by (auto simp: fun_upd_apply)
  then show thesis using that [OF _ w(2)] w(1) False by (simp add: set_index_def)
qed

lemma saveProfile_ok:
  assumes ok: "users_ok cp" and m: "up_MetaID p = m" "m \<noteq> ''''" "TrimSpace m = m"
  obtains d cp' where "saveProfile A p cp = (None, cp')" and "writes cp d cp'" and "profile_of cp' = (profile_of cp)(m \<mapsto> p)"
proof -
  obtain raw where raw: "cd_Marshal (ui_codec A) p = Inr raw" "cd_Unmarshal (ui_codec A) raw = Some p" using codec by blast
  obtain cp1 where 1: "ui_Set A (profileKey m) raw cp = (None, cp1)" "writes cp ((udb cp)(profileKey m \<mapsto> raw)) cp1" by (rule ui_Set_ok [OF ok]) (use raw(2) in auto)
  have ok1: "users_ok cp1" using 1(2) by (simp add: writes_def)
  obtain d2 cp2 where 2: "set_index A globalMetaIdKey (up_GlobalMetaID p) m cp1 = (None, cp2)" "writes cp1 d2 cp2" "\<forall>m. d2 (profileKey m) = udb cp1 (profileKey m)"
    by (rule set_index_ok [OF ok1, of globalMetaIdKey]) simp
  have ok2: "users_ok cp2" using 2(2) by (simp add: writes_def)
  obtain d3 cp3 where 3: "set_index A addressKey (up_Address p) m cp2 = (None, cp3)" "writes cp2 d3 cp3" "\<forall>m. d3 (profileKey m) = udb cp2 (profileKey m)"
    by (rule set_index_ok [OF ok2, of addressKey]) simp
  have w: "writes cp d3 cp3" by (rule writes_trans [OF writes_trans [OF 1(2) 2(2)] 3(2)])
  have "d3 (profileKey x) = ((udb cp)(profileKey m \<mapsto> raw)) (profileKey x)" for x
    using 3(3) 2(3) writes_udb [OF 1(2)] writes_udb [OF 2(2)] by simp
  then have "profile_of cp3 = (profile_of cp)(m \<mapsto> p)" using raw(2) writes_udb [OF w] by (auto simp: profile_of_def fun_eq_iff)
  moreover have "saveProfile A p cp = (None, cp3)" using m raw(1) 1(1) 2(1) 3(1) by (simp add: saveProfile_def saveProfileAtKey_def Let_def)
  ultimately show thesis using that w by blast
qed

lemma invalidate_ok:
  assumes "users_ok cp"
  shows "users_ok (invalidate A p cp) \<and> udb (invalidate A p cp) = udb cp
    \<and> (opened (snd cp) (cache_ns user_ns) \<longrightarrow> l2 (invalidate A p cp) user_ns = l2 cp user_ns |` {k. \<not> prefix p k} \<and> opened (snd (invalidate A p cp)) (cache_ns user_ns))"
proof -
  obtain ns where ns: "gm_get (fst cp) user_ns = Some ns" and co: "coherent cp" using assms by (auto simp: users_ok_def)
  have inv: "inv (snd cp)" by (rule users_inv [OF assms])
  obtain cp' where c: "Cache_InvalidateByPrefix C user_ns p cp = (None, cp')" "coherent cp'"
    "opened (snd cp) (cache_ns user_ns) \<longrightarrow> content (snd cp') = (content (snd cp))(loc (cache_ns user_ns) := l2 cp user_ns |` {k. \<not> prefix p k})"
    "\<forall>n. gm_get (fst cp') n = None \<longleftrightarrow> gm_get (fst cp) n = None"
    by (rule Invalidate_cached [OF co ns])
  have l: "l2_ns user_ns (fst cp) = cache_ns user_ns" using co ns l2_name [of "fst cp" "snd cp"] by simp
  have "udb cp' = udb cp"
  proof (cases "opened (snd cp) (cache_ns user_ns)")
    case False
    then show ?thesis using c(1) dbp_closed [OF inv False, of p] l by (auto simp: Cache_InvalidateByPrefix_def env Let_def split_def)
  qed (use c(3) caches_apart [OF user_name] in simp)
  then have "users_ok cp'" using assms c(2,4) by (auto simp: users_ok_def)
  moreover have "opened (snd cp') (cache_ns user_ns)" if o: "opened (snd cp) (cache_ns user_ns)"
    using c(1) dbp_opened [OF inv o, of p] o l by (auto simp: Cache_InvalidateByPrefix_def env Let_def split_def)
  ultimately show ?thesis using c(1,3) \<open>udb cp' = udb cp\<close> by (simp add: invalidate_def uenv)
qed

end

context user_store
begin

definition authored :: "('l, 's) CacheProvider \<Rightarrow> bool" where
  "authored cp \<longleftrightarrow> (\<forall>m p. profile_of cp m = Some p \<longrightarrow> up_MetaID p = m)"

lemma handle_ok:
  assumes ok: "users_ok cp" "authored cp" and m: "TrimSpace (pin_author pin) = pin_author pin"
  obtains cp' where "user_HandleBlockPin A pin cp = (Inr None, cp')" and "users_ok cp'" and "authored cp'"
    and "profile_of cp' = (if pin_author pin = '''' then profile_of cp
       else case pin_saves A pin (profile_of cp (pin_author pin)) of None \<Rightarrow> profile_of cp | Some p \<Rightarrow> (profile_of cp)(pin_author pin \<mapsto> p))"
    and "pi_Path pin = ''/'' \<longrightarrow> l2 cp' user_ns = l2 cp user_ns"
    and "pi_Path pin \<in> set info_paths \<and> pin_author pin \<noteq> '''' \<and> opened (snd cp) (cache_ns user_ns) \<longrightarrow> l2 cp' user_ns (''profile:'' @ pin_author pin) = None"
proof (cases "pin_author pin = ''''")
  case True
  then show thesis using that [of cp] ok by (simp add: user_HandleBlockPin_def)
next
  case False
  let ?m = "pin_author pin" and ?old = "profile_of cp (pin_author pin)"
  let ?p = "identified A pin (case ?old of None \<Rightarrow> no_profile\<lparr>up_MetaID := ?m, up_ChainName := pi_ChainName pin\<rparr> | Some p \<Rightarrow> p)"
  obtain cp1 where g: "getProfile A ?m cp = (Inr ?old, cp1)" "users_ok cp1" "content (snd cp1) = content (snd cp)" "fst cp1 = fst cp"
    "\<forall>ns. opened (snd cp) ns \<longrightarrow> opened (snd cp1) ns" by (rule getProfile_ok [OF ok(1)])
  have same: "profile_of cp1 = profile_of cp" using g(3) by (simp add: profile_of_def fun_eq_iff)
  have id: "\<forall>q. pin_saves A pin ?old = Some q \<longrightarrow> up_MetaID q = ?m" using pin_saves_MetaID [of A pin ?old] ok(2) by (auto simp: authored_def)
  have au: "authored c" if "profile_of c = (profile_of cp)(?m \<mapsto> q)" "up_MetaID q = ?m" for c q using that ok(2) by (auto simp: authored_def)
  show thesis
  proof (cases "pi_Path pin = ''/''")
    case True
    then have s: "pin_saves A pin ?old = Some (initialised A pin ?p)" by (simp add: pin_saves_def)
    obtain d cp2 where 2: "saveProfile A (initialised A pin ?p) cp1 = (None, cp2)" "writes cp1 d cp2" "profile_of cp2 = (profile_of cp1)(?m \<mapsto> initialised A pin ?p)"
      by (rule saveProfile_ok [OF g(2) _ False m, of "initialised A pin ?p"]) (use id s in auto)
    have ok2: "users_ok cp2" using 2(2) by (simp add: writes_def)
    obtain cp3 where 3: "ui_Set A (metaidKey ?m) (pin_address pin) cp2 = (None, cp3)" "writes cp2 ((udb cp2)(metaidKey ?m \<mapsto> pin_address pin)) cp3"
      by (rule ui_Set_ok [OF ok2, of "metaidKey ?m"]) (metis profile_keys(1))
    have p3: "profile_of cp3 = (profile_of cp)(?m \<mapsto> initialised A pin ?p)"
      using writes_udb [OF 3(2)] 2(3) same profile_keys(1) [symmetric] by (simp add: profile_of_def fun_eq_iff)
    have r: "user_HandleBlockPin A pin cp = (Inr None, cp3)"
      using False True g(1) 2(1) 3(1) by (simp add: user_HandleBlockPin_def no_err_def Let_def)
    show thesis by (rule that [OF r]) (use 3(2) p3 s False au [OF p3] id True writes_l2 [OF 2(2)] writes_l2 [OF 3(2)] g(3) in \<open>auto simp: writes_def info_paths_def\<close>)
  next
    case no_init: False
    show thesis
    proof (cases "info_updated pin ?p")
      case None
      then have r: "user_HandleBlockPin A pin cp = (Inr None, cp1)" using False no_init g(1) by (simp add: user_HandleBlockPin_def no_err_def Let_def)
      show thesis by (rule that [OF r]) (use g(2) same ok(2) None no_init info_updated_iff [of pin ?p] in \<open>auto simp: pin_saves_def authored_def Let_def\<close>)
    next
      case (Some q)
      then have s: "pin_saves A pin ?old = Some q" using no_init by (simp add: pin_saves_def)
      define cp2 where "cp2 = (if pi_Path pin = ''/info/avatar'' then invalidate A (''avatar:'' @ ?m) cp1 else cp1)"
      have 2: "users_ok cp2" "udb cp2 = udb cp1" using g(2) invalidate_ok [OF g(2), of "''avatar:'' @ ?m"] by (auto simp: cp2_def)
      obtain d cp3 where 3: "saveProfile A q cp2 = (None, cp3)" "writes cp2 d cp3" "profile_of cp3 = (profile_of cp2)(?m \<mapsto> q)"
        by (rule saveProfile_ok [OF 2(1) _ False m, of q]) (use id s in auto)
      have ok3: "users_ok cp3" using 3(2) by (simp add: writes_def)
      let ?cp4 = "invalidate A (''profile:'' @ ?m) cp3"
      have p2: "profile_of cp2 = profile_of cp" using 2(2) same by (simp add: profile_of_def fun_eq_iff)
      have p4: "profile_of ?cp4 = (profile_of cp)(?m \<mapsto> q)" using invalidate_ok [OF ok3] 3(3) p2 by (simp add: profile_of_def fun_eq_iff)
      have l4: "l2 ?cp4 user_ns (''profile:'' @ ?m) = None" if o: "opened (snd cp) (cache_ns user_ns)"
      proof -
        have "opened (snd cp2) (cache_ns user_ns)" using g(5) o invalidate_ok [OF g(2), of "''avatar:'' @ ?m"] by (auto simp: cp2_def)
        then have "opened (snd cp3) (cache_ns user_ns)" using 3(2) by (simp add: writes_def)
        then show ?thesis using invalidate_ok [OF ok3, of "''profile:'' @ ?m"] by (simp add: restrict_map_def)
      qed
      have r: "user_HandleBlockPin A pin cp = (Inr None, ?cp4)"
        using False no_init g(1) Some 3(1) by (simp add: user_HandleBlockPin_def no_err_def Let_def cp2_def [symmetric])
      show thesis by (rule that [OF r]) (use invalidate_ok [OF ok3] p4 s False au [OF p4] id l4 no_init in auto)
    qed
  qed
qed

lemma run_ok:
  assumes "users_ok cp" and "\<forall>m. profile_of cp m = None" and "\<forall>pin \<in> set pins. TrimSpace (pin_author pin) = pin_author pin"
  defines "cp' \<equiv> foldl (\<lambda>cp pin. snd (user_HandleBlockPin A pin cp)) cp pins"
  shows "users_ok cp' \<and> authored cp' \<and> (\<forall>u. u \<noteq> '''' \<longrightarrow> profile_of cp' u = (let ps = filter (about_user u) pins in if ps = [] then None else Some (described A u ps)))"
  unfolding cp'_def using assms(3)
proof (induction pins rule: rev_induct)
  case Nil
  then show ?case using assms(1,2) by (simp add: authored_def)
next
  case (snoc pin pins)
  let ?cp = "foldl (\<lambda>cp pin. snd (user_HandleBlockPin A pin cp)) cp pins"
  have ih: "users_ok ?cp" "authored ?cp" "\<And>u. u \<noteq> '''' \<Longrightarrow> profile_of ?cp u = (if filter (about_user u) pins = [] then None else Some (described A u (filter (about_user u) pins)))"
    using snoc by (auto simp: Let_def)
  have t: "TrimSpace (pin_author pin) = pin_author pin" using snoc.prems by simp
  obtain cp' where c: "user_HandleBlockPin A pin ?cp = (Inr None, cp')" "users_ok cp'" "authored cp'"
    "profile_of cp' = (if pin_author pin = '''' then profile_of ?cp
       else case pin_saves A pin (profile_of ?cp (pin_author pin)) of None \<Rightarrow> profile_of ?cp | Some p \<Rightarrow> (profile_of ?cp)(pin_author pin \<mapsto> p))"
    by (rule handle_ok [OF ih(1,2) t]) blast
  have "profile_of cp' u = (if filter (about_user u) (pins @ [pin]) = [] then None else Some (described A u (filter (about_user u) (pins @ [pin]))))" if u: "u \<noteq> ''''" for u
  proof (cases "about_user u pin")
    case True
    then have a: "pin_author pin = u" by (simp add: about_user_def)
    have "pin_saves A pin (profile_of ?cp u) = Some (described A u (filter (about_user u) pins @ [pin]))" unfolding ih(3) [OF u] by (rule pin_saves_described [OF True])
    then have "profile_of cp' u = Some (described A u (filter (about_user u) pins @ [pin]))" unfolding c(4) a using u by simp
    then show ?thesis using True by simp
  next
    case False
    then have "pin_author pin \<noteq> u \<or> pin_saves A pin (profile_of ?cp u) = None" using pin_saves_none [OF _ False] by (cases "pin_author pin = u") simp_all
    then have "profile_of cp' u = profile_of ?cp u" using c(4) by (auto split: option.split)
    then show ?thesis using False ih(3) [OF u] by simp
  qed
  then show ?case using c(1-3) by (simp add: Let_def)
qed

end

subsection \<open>Lookups\<close>

context user_store
begin

lemma scan_ok:
  assumes "users_ok cp"
  obtains r cp' where "defaultScanProfiles A match cp = (Inr r, cp')"
    and "case r of None \<Rightarrow> \<forall>m p. profile_of cp m = Some p \<longrightarrow> \<not> match p | Some p \<Rightarrow> match p \<and> (\<exists>m. profile_of cp m = Some p)"
proof -
  obtain kvs s' where k: "kv_Scan K user_ns (profileKey '''') (snd cp) = (Inr kvs, s')" "inv s'" "content s' = content (snd cp)"
      "sorted_wrt (<) (map fst kvs)" "set kvs = {(k, v). udb cp k = Some v \<and> prefix (profileKey '''') k}"
    by (rule Scan_eq [OF users_inv [OF assms]])
  let ?ps = "decoded (cd_Unmarshal (ui_codec A)) kvs"
  have pre: "prefix (profileKey '''') k \<longleftrightarrow> (\<exists>m. k = profileKey m)" for k by (auto simp: profileKey_def prefix_def)
  have mem: "p \<in> set ?ps \<longleftrightarrow> (\<exists>m. profile_of cp m = Some p)" for p
  proof -
    have "p \<in> set ?ps \<longleftrightarrow> (\<exists>k v. (k, v) \<in> set kvs \<and> cd_Unmarshal (ui_codec A) v = Some p)" by (simp add: decoded_mem Bex_def split_paired_Ex)
    also have "\<dots> \<longleftrightarrow> (\<exists>m. profile_of cp m = Some p)" unfolding k(5) by (auto simp: pre profile_of_def bind_eq_Some_conv)
    finally show ?thesis .
  qed
  show thesis
  proof (rule that)
    show "defaultScanProfiles A match cp = (Inr (find match (rev ?ps)), (fst cp, s'))" using k(1) by (simp add: defaultScanProfiles_def uenv env)
    show "case find match (rev ?ps) of None \<Rightarrow> \<forall>m p. profile_of cp m = Some p \<longrightarrow> \<not> match p | Some p \<Rightarrow> match p \<and> (\<exists>m. profile_of cp m = Some p)"
    proof (cases "find match (rev ?ps)")
      case None
      then have "\<not> (\<exists>x. x \<in> set (rev ?ps) \<and> match x)" by (simp only: find_None_iff not_False_eq_True)
      then show ?thesis using None mem by auto
    next
      case (Some p)
      then obtain i where "i < length (rev ?ps)" "match (rev ?ps ! i)" "p = rev ?ps ! i" unfolding find_Some_iff by blast
      then have "match p" "p \<in> set (rev ?ps)" using nth_mem by blast+
      then show ?thesis using Some mem by auto
    qed
  qed
qed

lemma find_ok:
  assumes ok: "users_ok cp"
  obtains r cp' where "find_indexed A key f v cp = (Inr r, cp')"
    and "case r of None \<Rightarrow> \<forall>m p. profile_of cp m = Some p \<longrightarrow> \<not> EqualFold (ui_U A) (TrimSpace (f p)) (TrimSpace v)
       | Some p \<Rightarrow> EqualFold (ui_U A) (TrimSpace (f p)) (TrimSpace v) \<and> (\<exists>m. profile_of cp m = Some p)"
proof -
  let ?match = "\<lambda>p. EqualFold (ui_U A) (TrimSpace (f p)) (TrimSpace v)"
  obtain cp1 where g: "ui_Get A (key (ui_U A) (TrimSpace v)) cp = (case udb cp (key (ui_U A) (TrimSpace v)) of None \<Rightarrow> Inl ErrNotFound | Some v \<Rightarrow> Inr v, cp1)"
    "users_ok cp1" "content (snd cp1) = content (snd cp)" by (rule ui_Get_ok [OF ok])
  have same: "profile_of c = profile_of cp" if "content (snd c) = content (snd cp)" for c using that by (simp add: profile_of_def fun_eq_iff)
  show thesis
  proof (cases "udb cp (key (ui_U A) (TrimSpace v)) = None \<or> udb cp (key (ui_U A) (TrimSpace v)) = Some []")
    case True
    obtain r cp' where r: "defaultScanProfiles A ?match cp1 = (Inr r, cp')"
      "case r of None \<Rightarrow> \<forall>m p. profile_of cp1 m = Some p \<longrightarrow> \<not> ?match p | Some p \<Rightarrow> ?match p \<and> (\<exists>m. profile_of cp1 m = Some p)" by (rule scan_ok [OF g(2)])
    have "find_indexed A key f v cp = (Inr r, cp')" using True g(1) r(1) by (auto simp: find_indexed_def Let_def)
    then show thesis by (rule that) (use r(2) in \<open>simp only: same [OF g(3)]\<close>)
  next
    case False
    then obtain raw where raw: "udb cp (key (ui_U A) (TrimSpace v)) = Some raw" "raw \<noteq> []" by auto
    obtain cp2 where 2: "getProfile A raw cp1 = (Inr (profile_of cp1 raw), cp2)" "users_ok cp2" "content (snd cp2) = content (snd cp1)"
      by (rule getProfile_ok [OF g(2)])
    obtain r cp' where r: "defaultScanProfiles A ?match cp2 = (Inr r, cp')"
      "case r of None \<Rightarrow> \<forall>m p. profile_of cp2 m = Some p \<longrightarrow> \<not> ?match p | Some p \<Rightarrow> ?match p \<and> (\<exists>m. profile_of cp2 m = Some p)" by (rule scan_ok [OF 2(2)])
    have p1: "profile_of cp1 = profile_of cp" "profile_of cp2 = profile_of cp" by (rule same [OF g(3)], rule same [OF trans [OF 2(3) g(3)]])
    show thesis
    proof (cases "\<exists>p. profile_of cp raw = Some p \<and> ?match p")
      case True
      then obtain p where p: "profile_of cp raw = Some p" "?match p" by blast
      have "find_indexed A key f v cp = (Inr (Some p), cp2)" using raw g(1) 2(1) p p1(1) by (simp add: find_indexed_def Let_def)
      then show thesis using that p by auto
    next
      case no: False
      have "find_indexed A key f v cp = (Inr r, cp')"
        using raw g(1) 2(1) no p1(1) r(1) by (cases "profile_of cp raw") (auto simp: find_indexed_def Let_def)
      then show thesis by (rule that) (use r(2) in \<open>simp only: p1(2)\<close>)
    qed
  qed
qed

end

subsection \<open>The cache of profiles\<close>

context user_store
begin

lemma cache_profile_ok:
  assumes "users_ok cp"
  obtains raw where "cd_Unmarshal (ui_codec A) raw = Some p" and "users_ok (cache_profile A key p cp)" and "udb (cache_profile A key p cp) = udb cp"
    and "l2 (cache_profile A key p cp) user_ns key = Some raw" and "opened (snd (cache_profile A key p cp)) (cache_ns user_ns)"
proof -
  obtain ns where ns: "gm_get (fst cp) user_ns = Some ns" and co: "coherent cp" using assms by (auto simp: users_ok_def)
  obtain raw where raw: "cd_Marshal (ui_codec A) p = Inr raw" "cd_Unmarshal (ui_codec A) raw = Some p" using codec by blast
  obtain cp' where c: "Cache_Set C user_ns key raw cp = (None, cp')" "coherent cp'"
    "content (snd cp') = (content (snd cp))(loc (cache_ns user_ns) := (l2 cp user_ns)(key \<mapsto> raw))" "\<forall>n. gm_get (fst cp') n = None \<longleftrightarrow> gm_get (fst cp) n = None"
    by (rule Set_cached [OF co ns])
  have e: "cache_profile A key p cp = cp'" using raw(1) c(1) by (simp add: cache_profile_def uenv)
  have u: "udb cp' = udb cp" using c(3) caches_apart [OF user_name] by simp
  then have ok: "users_ok cp'" using assms c(2,4) by (simp add: users_ok_def)
  have l: "l2_ns user_ns (fst cp) = cache_ns user_ns" using co ns l2_name [of "fst cp" "snd cp"] by simp
  have "opened (snd cp') (cache_ns user_ns)"
    using c(1) set_opens [OF users_inv [OF assms], of "cache_ns user_ns" key raw "cache_ns user_ns"] l by (auto simp: Cache_Set_def env Let_def split_def)
  then show thesis using that raw(2) ok u c(3) by (simp add: e)
qed

text \<open>Without a remote service the handler shows the cached profile if there is one, and caches what it shows.\<close>

lemma info_ok:
  assumes ok: "users_ok cp" and m: "m \<noteq> ''''" and dec: "\<forall>raw. l2 cp user_ns (''profile:'' @ m) = Some raw \<longrightarrow> cd_Unmarshal (ui_codec A) raw \<noteq> None"
  defines "shown \<equiv> (case Option.bind (l2 cp user_ns (''profile:'' @ m)) (cd_Unmarshal (ui_codec A)) of Some p \<Rightarrow> Some p | None \<Rightarrow> profile_of cp m)"
  shows "(case shown of None \<Rightarrow> fst (handleMetaIdInfo A None m cp) = Failure 40400 ''user not found''
      | Some p \<Rightarrow> fst (handleMetaIdInfo A None m cp) = Answer 1 p
          \<and> (\<exists>raw. l2 (snd (handleMetaIdInfo A None m cp)) user_ns (''profile:'' @ m) = Some raw \<and> cd_Unmarshal (ui_codec A) raw = Some p)
          \<and> opened (snd (snd (handleMetaIdInfo A None m cp))) (cache_ns user_ns))
    \<and> users_ok (snd (handleMetaIdInfo A None m cp)) \<and> udb (snd (handleMetaIdInfo A None m cp)) = udb cp"
proof -
  let ?key = "''profile:'' @ m"
  obtain ns where ns: "gm_get (fst cp) user_ns = Some ns" and co: "coherent cp" using ok by (auto simp: users_ok_def)
  obtain cp1 where g: "Cache_Get C user_ns ?key cp = (l2 cp user_ns ?key, cp1)" "coherent cp1" "content (snd cp1) = content (snd cp)"
    "\<forall>n. gm_get (fst cp1) n = None \<longleftrightarrow> gm_get (fst cp) n = None" by (rule Get_cached [OF co ns])
  have ok1: "users_ok cp1" using ok g(2-4) by (simp add: users_ok_def)
  have complete: "completeProfile A None x qs al c = (Inr x, c)" for x qs al c by (simp add: completeProfile_def shouldFetchRemote_def)
  show ?thesis
  proof (cases "l2 cp user_ns ?key")
    case (Some raw)
    then obtain p where p: "cd_Unmarshal (ui_codec A) raw = Some p" using dec by blast
    have h: "handleMetaIdInfo A None m cp = (Answer 1 p, cache_profile A ?key p cp1)" using m Some p g(1) by (simp add: handleMetaIdInfo_def uenv complete)
    have s: "shown = Some p" using Some p by (simp add: shown_def)
    obtain raw' where "cd_Unmarshal (ui_codec A) raw' = Some p" "users_ok (cache_profile A ?key p cp1)" "udb (cache_profile A ?key p cp1) = udb cp1"
      "l2 (cache_profile A ?key p cp1) user_ns ?key = Some raw'" "opened (snd (cache_profile A ?key p cp1)) (cache_ns user_ns)"
      by (rule cache_profile_ok [OF ok1, of p ?key])
    then show ?thesis using h s g(3) by simp
  next
    case None
    obtain cp2 where g2: "getProfile A m cp1 = (Inr (profile_of cp1 m), cp2)" "users_ok cp2" "content (snd cp2) = content (snd cp1)"
      by (rule getProfile_ok [OF ok1])
    have s: "shown = profile_of cp m" using None by (simp add: shown_def)
    have p1: "profile_of cp1 m = profile_of cp m" using g(3) by (simp add: profile_of_def)
    show ?thesis
    proof (cases "profile_of cp m")
      case None': None
      have "handleMetaIdInfo A None m cp = (Failure 40400 ''user not found'', cp2)"
        using m None None' g(1) g2(1) p1 by (simp add: handleMetaIdInfo_def metaid_miss_def lookupByMetaId_def uenv complete RespErr_def)
      then show ?thesis using s None' g2(2,3) g(3) by simp
    next
      case (Some p)
      have h: "handleMetaIdInfo A None m cp = (Answer 1 p, cache_profile A ?key p cp2)"
        using m None Some g(1) g2(1) p1 by (simp add: handleMetaIdInfo_def metaid_miss_def lookupByMetaId_def uenv complete)
      obtain raw' where "cd_Unmarshal (ui_codec A) raw' = Some p" "users_ok (cache_profile A ?key p cp2)" "udb (cache_profile A ?key p cp2) = udb cp2"
        "l2 (cache_profile A ?key p cp2) user_ns ?key = Some raw'" "opened (snd (cache_profile A ?key p cp2)) (cache_ns user_ns)"
        by (rule cache_profile_ok [OF g2(2), of p ?key])
      then show ?thesis using h s Some g(3) g2(3) by simp
    qed
  qed
qed

end

subsection \<open>The module on the memory store\<close>

definition profile_fields :: "UserProfile \<Rightarrow> string list" where
  "profile_fields p = [up_GlobalMetaID p, up_MetaID p, up_Address p, up_Name p, up_NameId p, up_Avatar p, up_AvatarId p, up_NftAvatar p, up_Bio p, up_BioId p, up_Role p,
     up_RoleId p, up_Soul p, up_SoulId p, up_Goal p, up_GoalId p, up_ChatSkills p, up_ChatSkillsId p, up_LLM p, up_LLMId p, up_Homepage p, up_HomepageId p, up_Background p,
     up_BackgroundId p, up_ChatPublicKey p, up_ChatPublicKeyId p, up_ChainName p]"

definition profile_from :: "string list \<Rightarrow> UserProfile" where
  "profile_from f = \<lparr>up_GlobalMetaID = f ! 0, up_MetaID = f ! 1, up_Address = f ! 2, up_Name = f ! 3, up_NameId = f ! 4, up_Avatar = f ! 5, up_AvatarId = f ! 6, up_NftAvatar = f ! 7,
     up_Bio = f ! 8, up_BioId = f ! 9, up_Role = f ! 10, up_RoleId = f ! 11, up_Soul = f ! 12, up_SoulId = f ! 13, up_Goal = f ! 14, up_GoalId = f ! 15, up_ChatSkills = f ! 16,
     up_ChatSkillsId = f ! 17, up_LLM = f ! 18, up_LLMId = f ! 19, up_Homepage = f ! 20, up_HomepageId = f ! 21, up_Background = f ! 22, up_BackgroundId = f ! 23,
     up_ChatPublicKey = f ! 24, up_ChatPublicKeyId = f ! 25, up_ChainName = f ! 26\<rparr>"

lemma profile_from_fields: "profile_from (profile_fields p) = p"
  by (simp add: profile_from_def profile_fields_def)

definition demo_profile_codec :: "UserProfile codec" where
  "demo_profile_codec = \<lparr>cd_Marshal = (\<lambda>p. Inr (concat (map put_str (profile_fields p)))), cd_Unmarshal = (\<lambda>raw. Some (profile_from (get_strs 27 raw)))\<rparr>"

lemma demo_profile_roundtrip: "\<exists>raw. cd_Marshal demo_profile_codec p = Inr raw \<and> cd_Unmarshal demo_profile_codec raw = Some p"
proof -
  have "length (profile_fields p) = 27" by (simp add: profile_fields_def)
  then show ?thesis using get_strs_put [of "profile_fields p"] by (simp add: demo_profile_codec_def profile_from_fields)
qed

definition demo_users :: "((string, bytes) gomap, (mem_world, string) store_state) user_env" where
  "demo_users = \<lparr>ui_U = plain_unicode, ui_B = plain_base58, ui_C = demo_cache, ui_codec = demo_profile_codec, ui_url = (\<lambda>s. None), ui_mode = ''local-first'', ui_fallback = True\<rparr>"

interpretation demo_users: user_store map_lru gm_get "PebbleStore_kv mem_pebble" "filepath_Join ''data''" "\<lambda>st. mem_disk (snd st)"
  "store_inv (\<lambda>h. h) (\<lambda>w h. True) ''data''" "\<lambda>st ns. PebbleStore_GetDB ns st \<noteq> None" "PebbleStore_DeleteByPrefix mem_pebble" demo_cache "{''userinfo''}" demo_users
proof (intro user_store.intro demo_cache.two_level_axioms user_store_axioms.intro)
  fix n :: string assume "n \<in> {''userinfo''}"
  moreover have "filepath_Join ''data'' (cache_ns ''userinfo'') \<noteq> filepath_Join ''data'' user_ns" by code_simp
  ultimately show "filepath_Join ''data'' (cache_ns n) \<noteq> filepath_Join ''data'' user_ns" by simp
qed (simp_all add: demo_users_def demo_profile_roundtrip user_ns_def)

definition demo_users_state :: "((string, bytes) gomap, (mem_world, string) store_state) CacheProvider" where
  "demo_users_state = user_Init demo_users (CacheProvider_New (NewPebbleStore ''data'', \<lambda>_. []))"

lemma demo_users_ok: "demo_users.users_ok demo_users_state" "demo_users.profile_of demo_users_state m = None"
proof -
  let ?s = "(NewPebbleStore ''data'', \<lambda>_. []) :: (mem_world, string) store_state"
  have e: "demo_users_state = CacheProvider_Namespace demo_cache ''userinfo'' 5000 600000000000 (CacheProvider_New ?s)"
    by (simp add: demo_users_state_def user_Init_def demo_users_def user_ns_def)
  have s: "snd demo_users_state = ?s" by (simp add: e CacheProvider_Namespace_def CacheProvider_New_def)
  have "demo_cache.coherent demo_users_state" unfolding e by (intro demo_cache.coherent_namespace demo_cache.coherent_new mem.inv_new) simp
  moreover have "gm_get (fst demo_users_state) user_ns \<noteq> None" by (simp add: e CacheProvider_Namespace_def CacheProvider_New_def user_ns_def gm_get_def)
  ultimately show "demo_users.users_ok demo_users_state" by (simp add: demo_users.users_ok_def s mem_disk_def)
  show "demo_users.profile_of demo_users_state m = None" by (simp add: demo_users.profile_of_def s mem_disk_def)
qed

definition demo_info :: "string \<Rightarrow> string \<Rightarrow> string \<Rightarrow> PinInscription" where
  "demo_info i path body =
     \<lparr>pi_Id = i, pi_Number = 0, pi_Path = path, pi_OriginalPath = '''', pi_Operation = ''create'', pi_ContentBody = body, pi_ContentSummary = '''',
      pi_ContentType = ''text/plain'', pi_Creator = '''', pi_CreateAddress = '''', pi_CreateMetaId = '''', pi_MetaId = ''alice'', pi_GlobalMetaId = '''',
      pi_Address = (if path = ''/'' then ''addr'' else ''''), pi_ChainName = ''mvc'', pi_GenesisTransaction = '''', pi_GenesisHeight = 1, pi_Timestamp = 5, pi_Output = '''',
      pi_IsTransfered = False, pi_OriginalId = '''', pi_Host = ''''\<rparr>"

lemma demo_info_author: "TrimSpace (pin_author (demo_info i path body)) = pin_author (demo_info i path body)" "pin_author (demo_info i path body) = ''alice''"
proof -
  have "TrimSpace ''alice'' = ''alice''" by code_simp
  then show "TrimSpace (pin_author (demo_info i path body)) = pin_author (demo_info i path body)" "pin_author (demo_info i path body) = ''alice''"
    by (simp_all add: pin_author_def demo_info_def)
qed

lemma demo_info_sel: "pi_Path (demo_info i path body) = path" "pi_Id (demo_info i path body) = i" "pi_ContentBody (demo_info i path body) = body"
  "pi_ChainName (demo_info i path body) = ''mvc''" "pin_address (demo_info i path body) = (if path = ''/'' then ''addr'' else '''')"
  "path \<noteq> ''/'' \<Longrightarrow> pin_global demo_users (demo_info i path body) = ''''"
proof -
  have "TrimSpace '''' = ''''" by code_simp
  then show "path \<noteq> ''/'' \<Longrightarrow> pin_global demo_users (demo_info i path body) = ''''" by (simp add: pin_global_def pin_address_def demo_info_def)
qed (simp_all add: demo_info_def pin_address_def)

subsection \<open>Properties\<close>



definition found_exactly :: "('l, 's) user_env \<Rightarrow> (UserProfile \<Rightarrow> string) \<Rightarrow> string \<Rightarrow> ('l, 's) CacheProvider \<Rightarrow> UserProfile option \<Rightarrow> bool" where
  "found_exactly A f v cp r \<longleftrightarrow>
     (case r of
        None \<Rightarrow> \<forall>m p. fst (getProfile A m cp) = Inr (Some p) \<longrightarrow> \<not> EqualFold (ui_U A) (TrimSpace (f p)) (TrimSpace v)
      | Some p \<Rightarrow> EqualFold (ui_U A) (TrimSpace (f p)) (TrimSpace v) \<and> (\<exists>m. fst (getProfile A m cp) = Inr (Some p)))"

text \<open>C24: a lookup by address or by global identity finds a profile exactly when one with that value is stored, up to case and outer spaces; an index
  entry that is stale or missing never hides a profile and never gives a wrong one.\<close>

theorem user_lookup_exact:
  assumes store: "user_store L view K loc content ok opened dbp C names A" and cp: "user_store.users_ok view loc content ok names A cp"
  shows "(\<exists>r. fst (findProfileByAddress A v cp) = Inr r \<and> found_exactly A up_Address v cp r)
    \<and> (\<exists>r. fst (findProfileByGlobalMetaId A v cp) = Inr r \<and> found_exactly A up_GlobalMetaID v cp r)"
proof -
  have get: "fst (getProfile A m cp) = Inr (user_store.profile_of loc content A cp m)" for m
    by (rule user_store.getProfile_ok [OF store cp, of m]) simp
  have "\<exists>r. fst (find_indexed A key f v cp) = Inr r \<and> found_exactly A f v cp r" for key f
  proof -
    obtain r cp' where "find_indexed A key f v cp = (Inr r, cp')"
      "case r of None \<Rightarrow> \<forall>m p. user_store.profile_of loc content A cp m = Some p \<longrightarrow> \<not> EqualFold (ui_U A) (TrimSpace (f p)) (TrimSpace v)
       | Some p \<Rightarrow> EqualFold (ui_U A) (TrimSpace (f p)) (TrimSpace v) \<and> (\<exists>m. user_store.profile_of loc content A cp m = Some p)"
      by (rule user_store.find_ok [OF store cp])
    then show ?thesis by (cases r) (auto simp: found_exactly_def get)
  qed
  then show ?thesis unfolding findProfileByAddress_def findProfileByGlobalMetaId_def by blast
qed

theorem user_lookup_exact_witness:
  "fst (findProfileByAddress demo_users ''x'' demo_users_state) = Inr None \<and> fst (findProfileByGlobalMetaId demo_users ''x'' demo_users_state) = Inr None"
proof -
  have get: "fst (getProfile demo_users m demo_users_state) = Inr None" for m
    using demo_users.getProfile_ok [OF demo_users_ok(1)] demo_users_ok(2) by (metis fst_conv)
  show ?thesis using user_lookup_exact [OF demo_users.user_store_axioms demo_users_ok(1), of "''x''"] by (auto simp: get found_exactly_def split: option.splits)
qed

lemma pin_saves_some:
  assumes "pi_Path pin \<in> set (''/'' # info_paths)"
  shows "\<exists>q. pin_saves A pin old = Some q"
proof (cases "pi_Path pin = ''/''")
  case False
  then have "pi_Path pin \<in> set info_paths" using assms by simp
  from info_updated_iff [THEN iffD1, OF this] show ?thesis using False unfolding pin_saves_def Let_def by simp
qed (simp add: pin_saves_def)

context user_store
begin

lemma query_then_pin:
  assumes ok: "users_ok cp" "authored cp" and u: "u \<noteq> ''''" "TrimSpace u = u"
    and dec: "\<forall>raw. l2 cp user_ns (''profile:'' @ u) = Some raw \<longrightarrow> cd_Unmarshal (ui_codec A) raw \<noteq> None"
    and shown: "handleMetaIdInfo A None u cp = (Answer 1 p, cp1)" and pin: "pin_author pin = u" "pi_Path pin \<in> set (''/'' # info_paths)"
    and cp2: "cp2 = snd (user_HandleBlockPin A pin cp1)"
  obtains q where "pin_saves A pin (profile_of cp1 u) = Some q" and "users_ok cp2" and "profile_of cp2 u = Some q"
    and "fst (handleMetaIdInfo A None u cp2) = Answer 1 (if pi_Path pin = ''/'' then p else q)" and "users_ok cp1"
proof -
  let ?key = "''profile:'' @ u"
  define sh where "sh = (case Option.bind (l2 cp user_ns ?key) (cd_Unmarshal (ui_codec A)) of Some p \<Rightarrow> Some p | None \<Rightarrow> profile_of cp u)"
  note i = info_ok [OF ok(1) u(1) dec, folded sh_def, unfolded shown fst_conv snd_conv]
  have "sh = Some p" using i by (cases sh) auto
  then obtain raw where c: "l2 cp1 user_ns ?key = Some raw" "cd_Unmarshal (ui_codec A) raw = Some p" "opened (snd cp1) (cache_ns user_ns)" using i by auto
  have ok1: "users_ok cp1" "udb cp1 = udb cp" using i by blast+
  have au1: "authored cp1" using ok(2) ok1(2) by (simp add: authored_def profile_of_def)
  have t: "TrimSpace (pin_author pin) = pin_author pin" using pin(1) u(2) by simp
  obtain cp' where h: "user_HandleBlockPin A pin cp1 = (Inr None, cp')" "users_ok cp'" "authored cp'"
    "profile_of cp' = (if pin_author pin = '''' then profile_of cp1
       else case pin_saves A pin (profile_of cp1 (pin_author pin)) of None \<Rightarrow> profile_of cp1 | Some p \<Rightarrow> (profile_of cp1)(pin_author pin \<mapsto> p))"
    "pi_Path pin = ''/'' \<longrightarrow> l2 cp' user_ns = l2 cp1 user_ns"
    "pi_Path pin \<in> set info_paths \<and> pin_author pin \<noteq> '''' \<and> opened (snd cp1) (cache_ns user_ns) \<longrightarrow> l2 cp' user_ns (''profile:'' @ pin_author pin) = None"
    by (rule handle_ok [OF ok1(1) au1 t])
  have e: "cp2 = cp'" using h(1) cp2 by simp
  obtain q where q: "pin_saves A pin (profile_of cp1 u) = Some q" using pin_saves_some [OF pin(2)] by blast
  have p2: "profile_of cp2 u = Some q" unfolding e h(4) pin(1) using q u(1) by simp
  have cached: "l2 cp2 user_ns ?key = (if pi_Path pin = ''/'' then Some raw else None)" unfolding e using h(5,6) pin u(1) c(1,3) by auto
  have dec2: "\<forall>raw. l2 cp2 user_ns ?key = Some raw \<longrightarrow> cd_Unmarshal (ui_codec A) raw \<noteq> None" unfolding cached using c(2) by (simp split: if_split)
  have ok2: "users_ok cp2" using h(2) by (simp add: e)
  have "fst (handleMetaIdInfo A None u cp2) = Answer 1 (if pi_Path pin = ''/'' then p else q)"
    using info_ok [OF ok2 u(1) dec2] unfolding cached by (cases "pi_Path pin = ''/''") (simp_all add: c(2) p2)
  then show thesis using that q ok2 p2 ok1(1) by blast
qed

end


text \<open>C27: an init pin is not seen: once the profile of a user was shown, the answer after an init pin of that user is the old profile, although the store has
  the new one. (The init pin does not invalidate the cache, and the persistent level of the cache has no expiry.)\<close>

theorem user_init_stale:
  assumes store: "user_store L view K loc content ok opened dbp C names A"
    and cp: "user_store.users_ok view loc content ok names A cp" "user_store.authored loc content A cp"
    and dec: "\<forall>raw. content (snd cp) (loc (cache_ns user_ns)) (''profile:'' @ u) = Some raw \<longrightarrow> cd_Unmarshal (ui_codec A) raw \<noteq> None"
    and u: "u \<noteq> ''''" "TrimSpace u = u" and shown: "handleMetaIdInfo A None u cp = (Answer 1 p, cp1)"
    and pin: "pin_author pin = u" "pi_Path pin = ''/''" and cp2: "cp2 = snd (user_HandleBlockPin A pin cp1)"
  shows "fst (handleMetaIdInfo A None u cp2) = Answer 1 p
    \<and> (\<exists>old q. fst (getProfile A u cp1) = Inr old \<and> pin_saves A pin old = Some q \<and> fst (getProfile A u cp2) = Inr (Some q))"
proof -
  have get: "fst (getProfile A m c) = Inr (user_store.profile_of loc content A c m)" if c: "user_store.users_ok view loc content ok names A c" for m c
    by (rule user_store.getProfile_ok [OF store c, of m]) simp
  have path: "pi_Path pin \<in> set (''/'' # info_paths)" using pin(2) by simp
  obtain q where "pin_saves A pin (user_store.profile_of loc content A cp1 u) = Some q" "user_store.users_ok view loc content ok names A cp2"
    "user_store.profile_of loc content A cp2 u = Some q" "fst (handleMetaIdInfo A None u cp2) = Answer 1 (if pi_Path pin = ''/'' then p else q)"
    "user_store.users_ok view loc content ok names A cp1"
    by (rule user_store.query_then_pin [OF store cp u dec shown pin(1) path cp2])
  then show ?thesis using get pin(2) by auto
qed

definition demo_first :: PinInscription where
  "demo_first = (demo_info ''a'' ''/'' '''')\<lparr>pi_Address := ''''\<rparr>"

definition demo_named :: "((string, bytes) gomap, (mem_world, string) store_state) CacheProvider" where
  "demo_named = snd (user_HandleBlockPin demo_users demo_first demo_users_state)"

definition demo_alice :: UserProfile where
  "demo_alice = no_profile\<lparr>up_MetaID := ''alice'', up_ChainName := ''mvc''\<rparr>"

lemma demo_first_author: "TrimSpace (pin_author demo_first) = pin_author demo_first" "pin_author demo_first = ''alice''" "pi_Path demo_first = ''/''"
  using demo_info_author [of "''a''" "''/''" "''''"] by (simp_all add: demo_first_def pin_author_def demo_info_def)

lemma demo_named_ok: "demo_users.users_ok demo_named" "demo_users.authored demo_named" "demo_users.profile_of demo_named ''alice'' = Some demo_alice"
  "mem_disk (snd (snd demo_named)) (filepath_Join ''data'' (cache_ns user_ns)) k = None"
proof -
  have t: "TrimSpace '''' = ''''" by code_simp
  have a: "about_user ''alice'' demo_first" by (simp add: about_user_def demo_first_author)
  have d: "described demo_users ''alice'' [demo_first] = demo_alice"
    by (simp add: described_def demo_alice_def no_profile_def last_with_def demo_first_def demo_info_sel pin_global_def pin_address_def) (simp add: demo_info_def t)
  have run: "foldl (\<lambda>cp pin. snd (user_HandleBlockPin demo_users pin cp)) demo_users_state [demo_first] = demo_named" by (simp add: demo_named_def)
  have "\<forall>m. demo_users.profile_of demo_users_state m = None" using demo_users_ok(2) by blast
  note r = demo_users.run_ok [OF demo_users_ok(1) this, of "[demo_first]", unfolded run]
  show "demo_users.users_ok demo_named" "demo_users.authored demo_named" using r demo_first_author(1) by simp_all
  show "demo_users.profile_of demo_named ''alice'' = Some demo_alice" using r demo_first_author(1) a d by simp
  have au: "demo_users.authored demo_users_state" using demo_users_ok(2) by (simp add: demo_users.authored_def)
  have s: "snd demo_users_state = (NewPebbleStore ''data'', \<lambda>_. [])"
    by (simp add: demo_users_state_def user_Init_def demo_users_def CacheProvider_Namespace_def CacheProvider_New_def)
  have "mem_disk (snd (snd demo_named)) (filepath_Join ''data'' (cache_ns user_ns)) = mem_disk (snd (snd demo_users_state)) (filepath_Join ''data'' (cache_ns user_ns))"
    by (rule demo_users.handle_ok [OF demo_users_ok(1) au demo_first_author(1)]) (simp add: demo_named_def demo_first_author(3))
  then show "mem_disk (snd (snd demo_named)) (filepath_Join ''data'' (cache_ns user_ns)) k = None" by (simp add: s mem_disk_def)
qed

lemma demo_shown: "handleMetaIdInfo demo_users None ''alice'' demo_named = (Answer 1 demo_alice, snd (handleMetaIdInfo demo_users None ''alice'' demo_named))"
proof -
  have "fst (handleMetaIdInfo demo_users None ''alice'' demo_named) = Answer 1 demo_alice"
    using demo_users.info_ok [OF demo_named_ok(1), of "''alice''"] by (simp add: demo_named_ok(3,4))
  then show ?thesis by (metis prod.collapse)
qed

lemma demo_not_cached: "\<forall>raw. mem_disk (snd (snd demo_named)) (filepath_Join ''data'' (cache_ns user_ns)) (''profile:'' @ ''alice'') = Some raw
    \<longrightarrow> cd_Unmarshal (ui_codec demo_users) raw \<noteq> None"
  using demo_named_ok(4) by simp


theorem user_init_stale_witness:
  "fst (handleMetaIdInfo demo_users None ''alice'' (snd (user_HandleBlockPin demo_users (demo_info ''b'' ''/'' '''') (snd (handleMetaIdInfo demo_users None ''alice'' demo_named)))))
      = Answer 1 demo_alice
    \<and> (\<exists>old q. fst (getProfile demo_users ''alice'' (snd (handleMetaIdInfo demo_users None ''alice'' demo_named))) = Inr old
      \<and> pin_saves demo_users (demo_info ''b'' ''/'' '''') old = Some q
      \<and> fst (getProfile demo_users ''alice'' (snd (user_HandleBlockPin demo_users (demo_info ''b'' ''/'' '''') (snd (handleMetaIdInfo demo_users None ''alice'' demo_named))))) = Inr (Some q))"
  by (rule user_init_stale [OF demo_users.user_store_axioms demo_named_ok(1,2) demo_not_cached _ _ demo_shown _ _ refl])
    (use demo_info_author(1) [of "''b''" "''/''" "''''"] in \<open>simp_all add: demo_info_author(2) demo_info_sel\<close>)

end
