(* ===== verification/SkillService.thy ===== *)
theory SkillService
  imports PubIndex UserInfo
begin

text \<open>
  Skill services, \<open>internal/aggregator/skillservice\<close>: services that users offer, with create, modify and revoke pins (\<open>process.go\<close>), ratings of services
  with one running aggregate per service (\<open>rating.go\<close>), the profile of the provider (\<open>provider.go\<close>, \<open>userinfo_adapter.go\<close>), and the storage of both with
  several indexes (\<open>db.go\<close>). Lists, details and handlers are in \<open>SkillList\<close>.

  The lookup of profiles is an argument of the operations, since its answers change; \<open>encoding/json\<close> is a codec of each stored type and a decoder of each
  payload; \<open>float64\<close> is a record of its operations.
\<close>

subsection \<open>Data\<close>

definition PathSkillService :: string where "PathSkillService = ''/protocols/skill-service''"

definition PathSkillServiceRate :: string where "PathSkillServiceRate = ''/protocols/skill-service-rate''"

definition skill_ns :: string where "skill_ns = ''skillservice''"

definition rate_ns :: string where "rate_ns = ''skillservice_rate''"

record ServiceContentSummary =
  ss_ServiceName :: string
  ss_DisplayName :: string
  ss_Description :: string
  ss_ServiceIcon :: string
  ss_ProviderMetaBot :: string
  ss_ProviderSkill :: string
  ss_Price :: string
  ss_Currency :: string
  ss_PaymentChain :: string
  ss_SettlementKind :: string
  ss_MRC20Ticker :: string
  ss_MRC20Id :: string
  ss_OutputType :: string
  ss_PaymentAddress :: string
  ss_Disabled :: bool

record RatingContentSummary =
  rt_ServiceID :: string
  rt_ServicePaidTx :: string
  rt_Rate :: int
  rt_Comment :: string

record ServiceRecord =
  sv_SourceServicePinId :: string
  sv_CurrentPinId :: string
  sv_ChainName :: string
  sv_ProviderMetaId :: string
  sv_ProviderGlobalMetaId :: string
  sv_ProviderAddress :: string
  sv_ServiceName :: string
  sv_DisplayName :: string
  sv_Description :: string
  sv_ServiceIcon :: string
  sv_ProviderMetaBot :: string
  sv_ProviderSkill :: string
  sv_Price :: string
  sv_Currency :: string
  sv_PaymentChain :: string
  sv_SettlementKind :: string
  sv_MRC20Ticker :: string
  sv_MRC20Id :: string
  sv_OutputType :: string
  sv_PaymentAddress :: string
  sv_Status :: int
  sv_Operation :: string
  sv_Disabled :: bool
  sv_CreatedAt :: int
  sv_UpdatedAt :: int

definition IsVisibleDefault :: "ServiceRecord \<Rightarrow> bool" where
  "IsVisibleDefault r =
     (if sv_Operation r = ''revoke'' then False
      else if sv_Disabled r then False
      else if sv_Status r \<noteq> 0 \<and> sv_Status r \<noteq> 1 then False
      else True)"

record RatingPin =
  rpin_PinId :: string
  rpin_ChainName :: string
  rpin_RaterMetaId :: string
  rpin_RaterGlobalMetaId :: string
  rpin_RaterAddress :: string
  rpin_ServiceID :: string
  rpin_SourceServicePinId :: string
  rpin_ServicePaidTx :: string
  rpin_Rate :: int
  rpin_Comment :: string
  rpin_Timestamp :: int

record RatingAggregate =
  ra_ChainName :: string
  ra_SourceServicePinId :: string
  ra_Sum :: int
  ra_Count :: int

record 'f float_lib =
  fl_of_int :: "int \<Rightarrow> 'f"
  fl_add :: "'f \<Rightarrow> 'f \<Rightarrow> 'f"
  fl_mult :: "'f \<Rightarrow> 'f \<Rightarrow> 'f"
  fl_div :: "'f \<Rightarrow> 'f \<Rightarrow> 'f"
  fl_eq :: "'f \<Rightarrow> 'f \<Rightarrow> bool"
  fl_less :: "'f \<Rightarrow> 'f \<Rightarrow> bool"
  fl_Parse :: "string \<Rightarrow> 'f option"

record ('s, 'f) skill_env =
  sk_U :: unicode
  sk_K :: "'s kv_api"
  sk_codec :: "ServiceRecord codec"
  sk_pins :: "RatingPin codec"
  sk_aggs :: "RatingAggregate codec"
  sk_summary :: "bytes \<Rightarrow> ServiceContentSummary option"
  sk_rate :: "bytes \<Rightarrow> RatingContentSummary option"
  sk_F :: "'f float_lib"
  sk_url :: "string \<Rightarrow> (string \<times> string) option"
  sk_cursor :: "bytes \<Rightarrow> int option"
  sk_asset :: "string option"

subsection \<open>The profile of the provider\<close>

record skill_ProfileSnapshot =
  sn_MetaId :: string
  sn_GlobalMetaId :: string
  sn_Address :: string
  sn_Name :: string
  sn_Avatar :: string
  sn_AvatarId :: string
  sn_ChatPublicKey :: string

definition no_snapshot :: skill_ProfileSnapshot where
  "no_snapshot = \<lparr>sn_MetaId = '''', sn_GlobalMetaId = '''', sn_Address = '''', sn_Name = '''', sn_Avatar = '''', sn_AvatarId = '''', sn_ChatPublicKey = ''''\<rparr>"

record skill_ProfileLookup =
  pl_ByMetaId :: "string \<Rightarrow> string + skill_ProfileSnapshot option"
  pl_ByGlobalMetaId :: "string \<Rightarrow> string + skill_ProfileSnapshot option"
  pl_ByAddress :: "string \<Rightarrow> string + skill_ProfileSnapshot option"

text \<open>The first of the lookups that finds a profile; blank values are not looked up.\<close>

fun skill_first_profile :: "((string \<Rightarrow> string + skill_ProfileSnapshot option) \<times> string) list \<Rightarrow> skill_ProfileSnapshot" where
  "skill_first_profile [] = no_snapshot"
| "skill_first_profile ((f, v0) # rest) =
     (let v = TrimSpace v0
      in if v = '''' then skill_first_profile rest else case f v of Inr (Some p) \<Rightarrow> p | _ \<Rightarrow> skill_first_profile rest)"

definition ResolveProvider :: "skill_ProfileLookup option \<Rightarrow> ServiceRecord \<Rightarrow> skill_ProfileSnapshot" where
  "ResolveProvider L rec =
     (case L of
        None \<Rightarrow> no_snapshot
      | Some l \<Rightarrow> skill_first_profile [(pl_ByMetaId l, sv_ProviderMetaId rec), (pl_ByGlobalMetaId l, sv_ProviderGlobalMetaId rec), (pl_ByAddress l, sv_ProviderAddress rec)])"

definition snapshotFromUserInfo :: "UserProfile \<Rightarrow> skill_ProfileSnapshot" where
  "snapshotFromUserInfo p =
     \<lparr>sn_MetaId = up_MetaID p, sn_GlobalMetaId = up_GlobalMetaID p, sn_Address = up_Address p, sn_Name = up_Name p, sn_Avatar = up_Avatar p, sn_AvatarId = up_AvatarId p,
      sn_ChatPublicKey = up_ChatPublicKey p\<rparr>"

definition adapted :: "(string + UserProfile option) \<times> ('l, 's) CacheProvider \<Rightarrow> string + skill_ProfileSnapshot option" where
  "adapted r = (case fst r of Inl e \<Rightarrow> Inl e | Inr p \<Rightarrow> Inr (map_option snapshotFromUserInfo p))"

text \<open>The lookup through the user info module in the state \<open>cp\<close>; what a remote completion writes there is not visible here.\<close>

definition NewUserInfoLookupAdapter :: "('l, 's) user_env \<Rightarrow> remote_service option \<Rightarrow> ('l, 's) CacheProvider \<Rightarrow> skill_ProfileLookup" where
  "NewUserInfoLookupAdapter A remote cp =
     \<lparr>pl_ByMetaId = (\<lambda>m. adapted (lookupByMetaId A remote m cp)), pl_ByGlobalMetaId = (\<lambda>g. adapted (lookupByGlobalMetaId A remote g cp)),
      pl_ByAddress = (\<lambda>a. adapted (lookupByAddress A remote a cp))\<rparr>"

subsection \<open>Keys\<close>

definition serviceKey :: "string \<Rightarrow> string \<Rightarrow> bytes" where
  "serviceKey chainName sourcePinId = ''service:'' @ chainName @ '':'' @ sourcePinId"

definition skill_pinToSourceKey :: "string \<Rightarrow> string \<Rightarrow> bytes" where
  "skill_pinToSourceKey chainName pinId = ''pin_to_source:'' @ chainName @ '':'' @ pinId"

definition providerIndexKey :: "string \<Rightarrow> string \<Rightarrow> string \<Rightarrow> bytes" where
  "providerIndexKey chainName providerMetaId sourcePinId = ''service_by_provider:'' @ chainName @ '':'' @ providerMetaId @ '':'' @ sourcePinId"

definition providerIndexPrefix :: "string \<Rightarrow> string \<Rightarrow> bytes" where
  "providerIndexPrefix chainName providerMetaId =
     (if chainName = '''' then ''service_by_provider:'' else ''service_by_provider:'' @ chainName @ '':'' @ providerMetaId @ '':'')"

definition homepageProviderMetaIndexKey :: "string \<Rightarrow> int \<Rightarrow> string \<Rightarrow> string \<Rightarrow> bytes" where
  "homepageProviderMetaIndexKey providerMetaId updatedAt chainName sourcePinId =
     ''service_by_provider_meta:'' @ providerMetaId @ '':'' @ invertedTimestamp updatedAt @ '':'' @ chainName @ '':'' @ sourcePinId"

definition homepageProviderMetaIndexPrefix :: "string \<Rightarrow> bytes" where
  "homepageProviderMetaIndexPrefix providerMetaId = ''service_by_provider_meta:'' @ providerMetaId @ '':''"

definition providerGlobalIndexKey :: "string \<Rightarrow> int \<Rightarrow> string \<Rightarrow> string \<Rightarrow> bytes" where
  "providerGlobalIndexKey g updatedAt chainName sourcePinId =
     ''service_by_provider_global:'' @ g @ '':'' @ invertedTimestamp updatedAt @ '':'' @ chainName @ '':'' @ sourcePinId"

definition providerGlobalIndexPrefix :: "string \<Rightarrow> bytes" where
  "providerGlobalIndexPrefix g = ''service_by_provider_global:'' @ g @ '':''"

definition providerGlobalChainIndexKey :: "string \<Rightarrow> string \<Rightarrow> int \<Rightarrow> string \<Rightarrow> bytes" where
  "providerGlobalChainIndexKey g chainName updatedAt sourcePinId =
     ''service_by_provider_global_chain:'' @ g @ '':'' @ chainName @ '':'' @ invertedTimestamp updatedAt @ '':'' @ sourcePinId"

definition providerGlobalChainIndexPrefix :: "string \<Rightarrow> string \<Rightarrow> bytes" where
  "providerGlobalChainIndexPrefix g chainName = ''service_by_provider_global_chain:'' @ g @ '':'' @ chainName @ '':''"

definition updatedIndexKey :: "string \<Rightarrow> int \<Rightarrow> string \<Rightarrow> bytes" where
  "updatedIndexKey chainName updatedAt sourcePinId = ''service_by_updated:'' @ chainName @ '':'' @ invertedTimestamp updatedAt @ '':'' @ sourcePinId"

definition ratingPinKey :: "string \<Rightarrow> string \<Rightarrow> bytes" where
  "ratingPinKey chainName ratingPinId = ''rating_pin:'' @ chainName @ '':'' @ ratingPinId"

definition ratingAggKey :: "string \<Rightarrow> string \<Rightarrow> bytes" where
  "ratingAggKey chainName sourceServicePinId = ''rating_agg:'' @ chainName @ '':'' @ sourceServicePinId"

subsection \<open>Storage of services\<close>

definition loadService :: "('s, 'f) skill_env \<Rightarrow> string \<Rightarrow> string \<Rightarrow> 's \<Rightarrow> (string + ServiceRecord option) \<times> 's" where
  "loadService A chainName sourcePinId s =
     (if chainName = '''' \<or> sourcePinId = '''' then (Inl ''loadService: chainName and sourcePinId required'', s)
      else case kv_Get (sk_K A) skill_ns (serviceKey chainName sourcePinId) s of
        (Inl e, s1) \<Rightarrow> (Inr None, s1)
      | (Inr raw, s1) \<Rightarrow> (case cd_Unmarshal (sk_codec A) raw of None \<Rightarrow> (Inl ''loadService: corrupt record'', s1) | Some rec \<Rightarrow> (Inr (Some rec), s1)))"

definition loadServiceByAnyPinId :: "('s, 'f) skill_env \<Rightarrow> string \<Rightarrow> string \<Rightarrow> 's \<Rightarrow> (string + ServiceRecord option) \<times> 's" where
  "loadServiceByAnyPinId A chainName anyPinId s =
     (if chainName = '''' \<or> anyPinId = '''' then (Inr None, s)
      else case kv_Get (sk_K A) skill_ns (skill_pinToSourceKey chainName anyPinId) s of
        (Inl e, s1) \<Rightarrow> loadService A chainName anyPinId s1
      | (Inr mapped, s1) \<Rightarrow> loadService A chainName mapped s1)"

fun unique_loop :: "unicode \<Rightarrow> string list \<Rightarrow> string list \<Rightarrow> string list" where
  "unique_loop U seen [] = []"
| "unique_loop U seen (v # vs) =
     (let value = TrimSpace v; key = ToLower U value
      in if value = '''' then unique_loop U seen vs
         else if key \<in> set seen then unique_loop U seen vs
         else value # unique_loop U (key # seen) vs)"

definition uniqueNonEmptyStrings :: "unicode \<Rightarrow> string list \<Rightarrow> string list" where
  "uniqueNonEmptyStrings U values = unique_loop U [] values"

definition homepageProviderGlobalMetaIds :: "('s, 'f) skill_env \<Rightarrow> skill_ProfileLookup option \<Rightarrow> ServiceRecord \<Rightarrow> string list" where
  "homepageProviderGlobalMetaIds A L rec = uniqueNonEmptyStrings (sk_U A) [sv_ProviderGlobalMetaId rec, sn_GlobalMetaId (ResolveProvider L rec)]"

text \<open>The index keys of a record, in the order in which they are written.\<close>

definition provider_keys :: "ServiceRecord \<Rightarrow> bytes list" where
  "provider_keys rec =
     (if sv_ProviderMetaId rec \<noteq> '''' then
        [providerIndexKey (sv_ChainName rec) (sv_ProviderMetaId rec) (sv_SourceServicePinId rec),
         homepageProviderMetaIndexKey (sv_ProviderMetaId rec) (sv_UpdatedAt rec) (sv_ChainName rec) (sv_SourceServicePinId rec)]
      else [])"

definition global_keys :: "('s, 'f) skill_env \<Rightarrow> skill_ProfileLookup option \<Rightarrow> ServiceRecord \<Rightarrow> bytes list" where
  "global_keys A L rec =
     concat (map (\<lambda>g. [providerGlobalIndexKey g (sv_UpdatedAt rec) (sv_ChainName rec) (sv_SourceServicePinId rec),
                       providerGlobalChainIndexKey g (sv_ChainName rec) (sv_UpdatedAt rec) (sv_SourceServicePinId rec)]) (homepageProviderGlobalMetaIds A L rec))"

definition updated_keys :: "ServiceRecord \<Rightarrow> bytes list" where
  "updated_keys rec = (if 0 < sv_UpdatedAt rec then [updatedIndexKey (sv_ChainName rec) (sv_UpdatedAt rec) (sv_SourceServicePinId rec)] else [])"

fun set_markers :: "('s, 'f) skill_env \<Rightarrow> bytes list \<Rightarrow> 's \<Rightarrow> string option \<times> 's" where
  "set_markers A [] s = (None, s)"
| "set_markers A (k # ks) s = (case kv_Set (sk_K A) skill_ns k [] s of (Some e, s1) \<Rightarrow> (Some ''storage error'', s1) | (None, s1) \<Rightarrow> set_markers A ks s1)"

definition delete_markers :: "('s, 'f) skill_env \<Rightarrow> bytes list \<Rightarrow> 's \<Rightarrow> 's" where
  "delete_markers A ks s = foldl (\<lambda>s k. snd (kv_Delete (sk_K A) skill_ns k s)) s ks"

definition saveService :: "('s, 'f) skill_env \<Rightarrow> skill_ProfileLookup option \<Rightarrow> ServiceRecord \<Rightarrow> ServiceRecord option \<Rightarrow> 's \<Rightarrow> string option \<times> 's" where
  "saveService A L rec previous s =
     (if sv_ChainName rec = '''' \<or> sv_SourceServicePinId rec = '''' then (Some ''saveService: missing chainName or sourceServicePinId'', s)
      else
        (let s1 = (case previous of
                     None \<Rightarrow> s
                   | Some p \<Rightarrow> delete_markers A (provider_keys p @ (if sv_UpdatedAt p \<noteq> sv_UpdatedAt rec then updated_keys p else []) @ global_keys A L p) s)
         in case save_json (sk_K A) skill_ns (sk_codec A) (serviceKey (sv_ChainName rec) (sv_SourceServicePinId rec)) rec s1 of
              (Some e, s2) \<Rightarrow> (Some e, s2)
            | (None, s2) \<Rightarrow> set_markers A (provider_keys rec @ global_keys A L rec @ updated_keys rec) s2))"

definition skill_mapPinToSource :: "('s, 'f) skill_env \<Rightarrow> string \<Rightarrow> string \<Rightarrow> string \<Rightarrow> 's \<Rightarrow> string option \<times> 's" where
  "skill_mapPinToSource A chainName anyPinId sourcePinId s =
     (if chainName = '''' \<or> anyPinId = '''' \<or> sourcePinId = '''' \<or> anyPinId = sourcePinId then (None, s)
      else case kv_Set (sk_K A) skill_ns (skill_pinToSourceKey chainName anyPinId) sourcePinId s of (None, s1) \<Rightarrow> (None, s1) | (Some e, s1) \<Rightarrow> (Some ''storage error'', s1))"

definition listServicesByChain :: "('s, 'f) skill_env \<Rightarrow> string \<Rightarrow> 's \<Rightarrow> (string + ServiceRecord list) \<times> 's" where
  "listServicesByChain A chainName s =
     (case kv_Scan (sk_K A) skill_ns (''service:'' @ chainName @ '':'') s of
        (Inl e, s1) \<Rightarrow> (Inl ''storage error'', s1)
      | (Inr kvs, s1) \<Rightarrow> (Inr (decoded (cd_Unmarshal (sk_codec A)) kvs), s1))"

definition listAllServices :: "('s, 'f) skill_env \<Rightarrow> 's \<Rightarrow> (string + ServiceRecord list) \<times> 's" where
  "listAllServices A s =
     (case kv_Scan (sk_K A) skill_ns ''service:'' s of
        (Inl e, s1) \<Rightarrow> (Inl ''storage error'', s1)
      | (Inr kvs, s1) \<Rightarrow> (Inr (decoded (cd_Unmarshal (sk_codec A)) kvs), s1))"

definition parseServiceID :: "string \<Rightarrow> (string \<times> string) option" where
  "parseServiceID key = (if \<not> HasPrefix key ''service:'' then None else split_colon (drop 8 key))"

subsection \<open>Service pins\<close>

fun skill_firstNonEmpty :: "string list \<Rightarrow> string" where
  "skill_firstNonEmpty [] = ''''"
| "skill_firstNonEmpty (v # vs) = (if TrimSpace v \<noteq> '''' then v else skill_firstNonEmpty vs)"

definition skill_protocolPathFromPinPath :: "unicode \<Rightarrow> string \<Rightarrow> string" where
  "skill_protocolPathFromPinPath U path =
     (let base = ToLower U (TrimRight CHR ''/'' (TrimSpace path))
      in case Index base ''@'' of Some (Suc n) \<Rightarrow> take (Suc n) base | _ \<Rightarrow> base)"

definition isVersionOperation :: "unicode \<Rightarrow> string \<Rightarrow> bool" where
  "isVersionOperation U operation \<longleftrightarrow> ToLower U (TrimSpace operation) = ''modify'' \<or> ToLower U (TrimSpace operation) = ''revoke''"

definition resolveTargetPinId :: "PinInscription \<Rightarrow> string option" where
  "resolveTargetPinId pin =
     (let c1 = pinTargetFromPath (pi_Path pin); o1 = TrimSpace (pi_OriginalId pin); c2 = (if HasPrefix o1 ''@'' then drop 1 o1 else o1)
      in if c1 \<noteq> '''' \<and> c1 \<noteq> pi_Id pin then Some c1 else if c2 \<noteq> '''' \<and> c2 \<noteq> pi_Id pin then Some c2 else None)"

definition isCurrentVersionTarget :: "ServiceRecord \<Rightarrow> string \<Rightarrow> bool" where
  "isCurrentVersionTarget rec targetPinId \<longleftrightarrow> targetPinId = sv_CurrentPinId rec"

definition decodeServiceSummary :: "('s, 'f) skill_env \<Rightarrow> PinInscription \<Rightarrow> ServiceContentSummary option" where
  "decodeServiceSummary A pin =
     (if pi_ContentBody pin = [] then None
      else case sk_summary A (pi_ContentBody pin) of
        None \<Rightarrow> None
      | Some m \<Rightarrow> (if TrimSpace (ss_ServiceName m) = '''' \<and> TrimSpace (ss_DisplayName m) = '''' then None else Some m))"

definition statusFromPin :: "PinInscription \<Rightarrow> int" where "statusFromPin pin = 0"

definition newServiceRecord :: "('s, 'f) skill_env \<Rightarrow> PinInscription \<Rightarrow> ServiceContentSummary \<Rightarrow> string \<Rightarrow> ServiceRecord" where
  "newServiceRecord A pin summary sourcePinId =
     \<lparr>sv_SourceServicePinId = sourcePinId, sv_CurrentPinId = pi_Id pin, sv_ChainName = pi_ChainName pin,
      sv_ProviderMetaId = skill_firstNonEmpty [pi_MetaId pin, pi_CreateMetaId pin], sv_ProviderGlobalMetaId = pi_GlobalMetaId pin,
      sv_ProviderAddress = skill_firstNonEmpty [pi_Address pin, pi_CreateAddress pin],
      sv_ServiceName = ss_ServiceName summary, sv_DisplayName = ss_DisplayName summary, sv_Description = ss_Description summary,
      sv_ServiceIcon = ss_ServiceIcon summary, sv_ProviderMetaBot = ss_ProviderMetaBot summary, sv_ProviderSkill = ss_ProviderSkill summary,
      sv_Price = ss_Price summary, sv_Currency = ss_Currency summary, sv_PaymentChain = ss_PaymentChain summary, sv_SettlementKind = ss_SettlementKind summary,
      sv_MRC20Ticker = ss_MRC20Ticker summary, sv_MRC20Id = ss_MRC20Id summary, sv_OutputType = ss_OutputType summary, sv_PaymentAddress = ss_PaymentAddress summary,
      sv_Status = statusFromPin pin, sv_Operation = ToLower (sk_U A) (TrimSpace (pi_Operation pin)), sv_Disabled = ss_Disabled summary,
      sv_CreatedAt = pi_Timestamp pin, sv_UpdatedAt = pi_Timestamp pin\<rparr>"

definition processServiceCreate :: "('s, 'f) skill_env \<Rightarrow> skill_ProfileLookup option \<Rightarrow> PinInscription \<Rightarrow> 's \<Rightarrow> string option \<times> 's" where
  "processServiceCreate A L pin s =
     (case decodeServiceSummary A pin of
        None \<Rightarrow> (None, s)
      | Some summary \<Rightarrow>
          (case loadService A (pi_ChainName pin) (pi_Id pin) s of
             (Inl e, s1) \<Rightarrow> (Some e, s1)
           | (Inr (Some existing), s1) \<Rightarrow> (None, s1)
           | (Inr None, s1) \<Rightarrow> saveService A L (newServiceRecord A pin summary (pi_Id pin)) None s1))"

text \<open>The record after a modify pin.\<close>

definition service_modified :: "('s, 'f) skill_env \<Rightarrow> PinInscription \<Rightarrow> ServiceContentSummary \<Rightarrow> ServiceRecord \<Rightarrow> ServiceRecord" where
  "service_modified A pin summary previous =
     (let u = newServiceRecord A pin summary (sv_SourceServicePinId previous);
          u1 = u\<lparr>sv_CreatedAt := sv_CreatedAt previous,
                 sv_ProviderMetaId := (if sv_ProviderMetaId u = '''' then sv_ProviderMetaId previous else sv_ProviderMetaId u),
                 sv_ProviderGlobalMetaId := (if sv_ProviderGlobalMetaId u = '''' then sv_ProviderGlobalMetaId previous else sv_ProviderGlobalMetaId u),
                 sv_ProviderAddress := (if sv_ProviderAddress u = '''' then sv_ProviderAddress previous else sv_ProviderAddress u)\<rparr>
      in if sv_Operation previous = ''revoke'' then u1\<lparr>sv_Operation := ''revoke''\<rparr> else u1)"

definition service_revoked :: "PinInscription \<Rightarrow> ServiceRecord \<Rightarrow> ServiceRecord" where
  "service_revoked pin previous =
     previous\<lparr>sv_Operation := ''revoke'', sv_CurrentPinId := pi_Id pin, sv_UpdatedAt := (if 0 < pi_Timestamp pin then pi_Timestamp pin else sv_UpdatedAt previous)\<rparr>"

text \<open>What modify and revoke share: the current version the pin names is replaced by its update, unless there is none.\<close>

definition update_service ::
    "('s, 'f) skill_env \<Rightarrow> skill_ProfileLookup option \<Rightarrow> PinInscription \<Rightarrow> (ServiceRecord \<Rightarrow> ServiceRecord option) \<Rightarrow> 's \<Rightarrow> string option \<times> 's" where
  "update_service A L pin update s =
     (case resolveTargetPinId pin of
        None \<Rightarrow> (None, s)
      | Some targetPinId \<Rightarrow>
          (case loadServiceByAnyPinId A (pi_ChainName pin) targetPinId s of
             (Inl e, s1) \<Rightarrow> (Some e, s1)
           | (Inr None, s1) \<Rightarrow> (None, s1)
           | (Inr (Some previous), s1) \<Rightarrow>
               (if \<not> isCurrentVersionTarget previous targetPinId then (None, s1)
                else case update previous of
                  None \<Rightarrow> (None, s1)
                | Some updated \<Rightarrow>
                    (case saveService A L updated (Some previous) s1 of
                       (Some e, s2) \<Rightarrow> (Some e, s2)
                     | (None, s2) \<Rightarrow> skill_mapPinToSource A (pi_ChainName pin) (pi_Id pin) (sv_SourceServicePinId previous) s2))))"

definition processServiceModify :: "('s, 'f) skill_env \<Rightarrow> skill_ProfileLookup option \<Rightarrow> PinInscription \<Rightarrow> 's \<Rightarrow> string option \<times> 's" where
  "processServiceModify A L pin s =
     update_service A L pin (\<lambda>previous. map_option (\<lambda>summary. service_modified A pin summary previous) (decodeServiceSummary A pin)) s"

definition processServiceRevoke :: "('s, 'f) skill_env \<Rightarrow> skill_ProfileLookup option \<Rightarrow> PinInscription \<Rightarrow> 's \<Rightarrow> string option \<times> 's" where
  "processServiceRevoke A L pin s = update_service A L pin (\<lambda>previous. Some (service_revoked pin previous)) s"

definition processServicePin :: "('s, 'f) skill_env \<Rightarrow> skill_ProfileLookup option \<Rightarrow> PinInscription \<Rightarrow> 's \<Rightarrow> string option \<times> 's" where
  "processServicePin A L pin s =
     (if pi_ChainName pin = '''' \<or> pi_Id pin = '''' then (None, s)
      else
        (let op = ToLower (sk_U A) (TrimSpace (pi_Operation pin))
         in if op = ''create'' then processServiceCreate A L pin s
            else if op = ''modify'' then processServiceModify A L pin s
            else if op = ''revoke'' then processServiceRevoke A L pin s
            else (None, s)))"

definition processTargetedServicePin :: "('s, 'f) skill_env \<Rightarrow> skill_ProfileLookup option \<Rightarrow> PinInscription \<Rightarrow> 's \<Rightarrow> string option \<times> 's" where
  "processTargetedServicePin A L pin s =
     (let targetPinId = pinTargetFromPath (pi_Path pin)
      in if targetPinId = '''' \<or> pi_ChainName pin = '''' then (None, s)
         else case loadServiceByAnyPinId A (pi_ChainName pin) targetPinId s of
           (Inl e, s1) \<Rightarrow> (Some e, s1)
         | (Inr None, s1) \<Rightarrow> (None, s1)
         | (Inr (Some rec), s1) \<Rightarrow> processServicePin A L pin s1)"

subsection \<open>Ratings\<close>

definition decodeRatingSummary :: "('s, 'f) skill_env \<Rightarrow> PinInscription \<Rightarrow> RatingContentSummary option" where
  "decodeRatingSummary A pin =
     (if pi_ContentBody pin = [] then None
      else case sk_rate A (pi_ContentBody pin) of
        None \<Rightarrow> None
      | Some m \<Rightarrow> (if rt_Rate m < 1 \<or> 5 < rt_Rate m then None else if TrimSpace (rt_ServiceID m) = '''' then None else Some m))"

definition newRatingPin :: "PinInscription \<Rightarrow> RatingContentSummary \<Rightarrow> string \<Rightarrow> RatingPin" where
  "newRatingPin pin summary normalisedSource =
     \<lparr>rpin_PinId = pi_Id pin, rpin_ChainName = pi_ChainName pin, rpin_RaterMetaId = skill_firstNonEmpty [pi_MetaId pin, pi_CreateMetaId pin],
      rpin_RaterGlobalMetaId = pi_GlobalMetaId pin, rpin_RaterAddress = skill_firstNonEmpty [pi_Address pin, pi_CreateAddress pin], rpin_ServiceID = rt_ServiceID summary,
      rpin_SourceServicePinId = normalisedSource, rpin_ServicePaidTx = rt_ServicePaidTx summary, rpin_Rate = rt_Rate summary, rpin_Comment = rt_Comment summary,
      rpin_Timestamp = pi_Timestamp pin\<rparr>"

definition loadRatingPin :: "('s, 'f) skill_env \<Rightarrow> string \<Rightarrow> string \<Rightarrow> 's \<Rightarrow> (string + RatingPin option) \<times> 's" where
  "loadRatingPin A chainName ratingPinId s =
     (if chainName = '''' \<or> ratingPinId = '''' then (Inl ''loadRatingPin: chainName and ratingPinId required'', s)
      else case kv_Get (sk_K A) rate_ns (ratingPinKey chainName ratingPinId) s of
        (Inl e, s1) \<Rightarrow> (Inr None, s1)
      | (Inr raw, s1) \<Rightarrow> (case cd_Unmarshal (sk_pins A) raw of None \<Rightarrow> (Inl ''loadRatingPin: corrupt entry'', s1) | Some rp \<Rightarrow> (Inr (Some rp), s1)))"

definition saveRatingPin :: "('s, 'f) skill_env \<Rightarrow> RatingPin \<Rightarrow> 's \<Rightarrow> string option \<times> 's" where
  "saveRatingPin A rp s =
     (if rpin_ChainName rp = '''' \<or> rpin_PinId rp = '''' then (Some ''saveRatingPin: missing identity'', s)
      else save_json (sk_K A) rate_ns (sk_pins A) (ratingPinKey (rpin_ChainName rp) (rpin_PinId rp)) rp s)"

definition LoadRatingAggregate :: "('s, 'f) skill_env \<Rightarrow> string \<Rightarrow> string \<Rightarrow> 's \<Rightarrow> (string + RatingAggregate option) \<times> 's" where
  "LoadRatingAggregate A chainName sourceServicePinId s =
     (if chainName = '''' \<or> sourceServicePinId = '''' then (Inr None, s)
      else case kv_Get (sk_K A) rate_ns (ratingAggKey chainName sourceServicePinId) s of
        (Inl e, s1) \<Rightarrow> (Inr None, s1)
      | (Inr raw, s1) \<Rightarrow> (case cd_Unmarshal (sk_aggs A) raw of None \<Rightarrow> (Inl ''LoadRatingAggregate: corrupt entry'', s1) | Some agg \<Rightarrow> (Inr (Some agg), s1)))"

definition bumpRatingAggregate :: "('s, 'f) skill_env \<Rightarrow> string \<Rightarrow> string \<Rightarrow> int \<Rightarrow> 's \<Rightarrow> string option \<times> 's" where
  "bumpRatingAggregate A chainName sourcePinId rate s =
     (case LoadRatingAggregate A chainName sourcePinId s of
        (Inl e, s1) \<Rightarrow> (Some e, s1)
      | (Inr found, s1) \<Rightarrow>
          (let agg = (case found of None \<Rightarrow> \<lparr>ra_ChainName = chainName, ra_SourceServicePinId = sourcePinId, ra_Sum = 0, ra_Count = 0\<rparr> | Some a \<Rightarrow> a)
           in save_json (sk_K A) rate_ns (sk_aggs A) (ratingAggKey chainName sourcePinId)
                (agg\<lparr>ra_Sum := wrap64 (ra_Sum agg + rate), ra_Count := wrap64 (ra_Count agg + 1)\<rparr>) s1))"

definition processRatingPin :: "('s, 'f) skill_env \<Rightarrow> PinInscription \<Rightarrow> 's \<Rightarrow> string option \<times> 's" where
  "processRatingPin A pin s =
     (if pi_Id pin = '''' \<or> pi_ChainName pin = '''' then (None, s)
      else case decodeRatingSummary A pin of
        None \<Rightarrow> (None, s)
      | Some summary \<Rightarrow>
          (case no_err (loadRatingPin A (pi_ChainName pin) (pi_Id pin) s) of
             (Some existing, s1) \<Rightarrow> (None, s1)
           | (None, s1) \<Rightarrow>
               (case loadServiceByAnyPinId A (pi_ChainName pin) (rt_ServiceID summary) s1 of
                  (Inl e, s2) \<Rightarrow> (Some e, s2)
                | (Inr found, s2) \<Rightarrow>
                    (let sourcePinId =
                           (case found of
                              None \<Rightarrow> ''''
                            | Some rec \<Rightarrow> if sv_ChainName rec \<noteq> '''' \<and> sv_ChainName rec \<noteq> pi_ChainName pin then '''' else sv_SourceServicePinId rec)
                     in case saveRatingPin A (newRatingPin pin summary sourcePinId) s2 of
                          (Some e, s3) \<Rightarrow> (Some e, s3)
                        | (None, s3) \<Rightarrow>
                            (if sourcePinId = '''' then (None, s3) else bumpRatingAggregate A (pi_ChainName pin) sourcePinId (rt_Rate summary) s3)))))"

subsection \<open>Dispatch\<close>

definition skill_processPin :: "('s, 'f) skill_env \<Rightarrow> skill_ProfileLookup option \<Rightarrow> PinInscription \<Rightarrow> 's \<Rightarrow> string option \<times> 's" where
  "skill_processPin A L pin s =
     (if pi_Path pin = '''' then (None, s)
      else
        (let base = skill_protocolPathFromPinPath (sk_U A) (pi_Path pin)
         in if base = PathSkillService then processServicePin A L pin s
            else if base = PathSkillServiceRate then processRatingPin A pin s
            else if isVersionOperation (sk_U A) (pi_Operation pin) then processTargetedServicePin A L pin s
            else (None, s)))"

definition skill_HandleBlockPin :: "('s, 'f) skill_env \<Rightarrow> skill_ProfileLookup option \<Rightarrow> PinInscription \<Rightarrow> 's \<Rightarrow> (string + unit NotifyEvent option) \<times> 's" where
  "skill_HandleBlockPin A L pin s = (case skill_processPin A L pin s of (Some e, s1) \<Rightarrow> (Inl e, s1) | (None, s1) \<Rightarrow> (Inr None, s1))"

definition skill_HandleMempoolPin :: "('s, 'f) skill_env \<Rightarrow> skill_ProfileLookup option \<Rightarrow> PinInscription \<Rightarrow> 's \<Rightarrow> (string + unit NotifyEvent option) \<times> 's" where
  "skill_HandleMempoolPin A L pin s = (case skill_processPin A L pin s of (Some e, s1) \<Rightarrow> (Inl e, s1) | (None, s1) \<Rightarrow> (Inr None, s1))"

end
