(* ===== verification/SkillChain.thy ===== *)
theory SkillChain
  imports SkillService
begin

text \<open>
  What \<open>SkillService\<close> does over a run of pins. A service is a chain of versions: the specification \<open>version_step\<close> says what one pin does to one service, and
  the stored record of every service is the fold of it over the pins. The aggregate of the ratings of a service is the sum and number of its stored rating
  pins. The locale \<open>skill_store\<close> is the module on a reliable store that deletes.
\<close>

subsection \<open>Keys\<close>

lemma service_key_eq [simp]: "colon_free a \<Longrightarrow> colon_free b \<Longrightarrow> serviceKey a x = serviceKey b y \<longleftrightarrow> a = b \<and> x = y"
  using colon_parts [of a b x y] by (simp add: serviceKey_def)

lemma source_key_eq [simp]: "colon_free a \<Longrightarrow> colon_free b \<Longrightarrow> skill_pinToSourceKey a x = skill_pinToSourceKey b y \<longleftrightarrow> a = b \<and> x = y"
  using colon_parts [of a b x y] by (simp add: skill_pinToSourceKey_def)

lemma rating_key_eq [simp]: "colon_free a \<Longrightarrow> colon_free b \<Longrightarrow> ratingPinKey a x = ratingPinKey b y \<longleftrightarrow> a = b \<and> x = y"
  using colon_parts [of a b x y] by (simp add: ratingPinKey_def)

lemma agg_key_eq [simp]: "colon_free a \<Longrightarrow> colon_free b \<Longrightarrow> ratingAggKey a x = ratingAggKey b y \<longleftrightarrow> a = b \<and> x = y"
  using colon_parts [of a b x y] by (simp add: ratingAggKey_def)

lemma skill_keys_apart [simp]:
  "serviceKey a x \<noteq> skill_pinToSourceKey b y" "skill_pinToSourceKey b y \<noteq> serviceKey a x" "ratingPinKey a x \<noteq> ratingAggKey b y" "ratingAggKey b y \<noteq> ratingPinKey a x"
  "prefix ''rating_pin:'' (ratingPinKey a x)" "\<not> prefix ''rating_pin:'' (ratingAggKey a x)"
  by (simp_all add: serviceKey_def skill_pinToSourceKey_def ratingPinKey_def ratingAggKey_def)

lemma marker_keys:
  assumes "k \<in> set (provider_keys r) \<union> set (global_keys A L r) \<union> set (updated_keys r)"
  shows "prefix ''service_'' k"
  using assms
  by (auto simp: provider_keys_def global_keys_def updated_keys_def providerIndexKey_def homepageProviderMetaIndexKey_def providerGlobalIndexKey_def
      providerGlobalChainIndexKey_def updatedIndexKey_def split: if_splits)

lemma marker_apart: "\<not> prefix ''service_'' (serviceKey a x)" "\<not> prefix ''service_'' (skill_pinToSourceKey a x)"
  by (simp_all add: serviceKey_def skill_pinToSourceKey_def)

subsection \<open>What the databases hold\<close>

definition service_at :: "ServiceRecord codec \<Rightarrow> (bytes \<Rightarrow> bytes option) \<Rightarrow> string \<Rightarrow> string \<Rightarrow> ServiceRecord option" where
  "service_at C c ch src = Option.bind (c (serviceKey ch src)) (cd_Unmarshal C)"

text \<open>Every record is stored under its own key, and pins are mapped to non-empty names.\<close>

definition services_ok :: "ServiceRecord codec \<Rightarrow> (bytes \<Rightarrow> bytes option) \<Rightarrow> bool" where
  "services_ok C c \<longleftrightarrow> (\<forall>k raw. c k = Some raw \<and> prefix ''service:'' k
      \<longrightarrow> (\<exists>r. cd_Unmarshal C raw = Some r \<and> k = serviceKey (sv_ChainName r) (sv_SourceServicePinId r) \<and> colon_free (sv_ChainName r)
             \<and> sv_ChainName r \<noteq> '''' \<and> sv_SourceServicePinId r \<noteq> ''''))
    \<and> (\<forall>ch i src. colon_free ch \<and> c (skill_pinToSourceKey ch i) = Some src \<longrightarrow> src \<noteq> '''')"

lemma service_found:
  assumes "services_ok C c" and "colon_free ch" and "c (serviceKey ch src) = Some raw"
  shows "\<exists>r. cd_Unmarshal C raw = Some r \<and> sv_ChainName r = ch \<and> sv_SourceServicePinId r = src \<and> ch \<noteq> '''' \<and> src \<noteq> ''''"
proof -
  have "prefix ''service:'' (serviceKey ch src)" by (simp add: serviceKey_def)
  then obtain r where r: "cd_Unmarshal C raw = Some r" "serviceKey ch src = serviceKey (sv_ChainName r) (sv_SourceServicePinId r)" "colon_free (sv_ChainName r)"
    "sv_ChainName r \<noteq> ''''" "sv_SourceServicePinId r \<noteq> ''''" using assms(1,3) unfolding services_ok_def by blast
  have "ch = sv_ChainName r \<and> src = sv_SourceServicePinId r" using r(2) service_key_eq [OF assms(2) r(3)] by blast
  then show ?thesis using r by auto
qed

definition ratings :: "RatingPin codec \<Rightarrow> (bytes \<Rightarrow> bytes option) \<Rightarrow> RatingPin list" where
  "ratings C c = decoded (cd_Unmarshal C) (entries_under c ''rating_pin:'')"

text \<open>The aggregate that the ratings of a service should have.\<close>

definition aggregate_of :: "string \<Rightarrow> string \<Rightarrow> RatingPin list \<Rightarrow> RatingAggregate option" where
  "aggregate_of ch src rs =
     (let xs = filter (\<lambda>r. rpin_ChainName r = ch \<and> rpin_SourceServicePinId r = src) rs
      in if xs = [] then None
         else Some \<lparr>ra_ChainName = ch, ra_SourceServicePinId = src, ra_Sum = wrap64 (sum_list (map rpin_Rate xs)), ra_Count = wrap64 (int (length xs))\<rparr>)"

definition read_aggregate :: "RatingAggregate codec \<Rightarrow> (bytes \<Rightarrow> bytes option) \<Rightarrow> string \<Rightarrow> string \<Rightarrow> string + RatingAggregate option" where
  "read_aggregate C c ch src =
     (case c (ratingAggKey ch src) of
        None \<Rightarrow> Inr None
      | Some raw \<Rightarrow> (case cd_Unmarshal C raw of None \<Rightarrow> Inl ''LoadRatingAggregate: corrupt entry'' | Some a \<Rightarrow> Inr (Some a)))"

definition ratings_ok :: "RatingPin codec \<Rightarrow> RatingAggregate codec \<Rightarrow> (bytes \<Rightarrow> bytes option) \<Rightarrow> bool" where
  "ratings_ok P C c \<longleftrightarrow> (\<forall>k raw. c k = Some raw \<and> prefix ''rating_pin:'' k
      \<longrightarrow> (\<exists>r. cd_Unmarshal P raw = Some r \<and> k = ratingPinKey (rpin_ChainName r) (rpin_PinId r)))
    \<and> (\<forall>ch src. colon_free ch \<and> src \<noteq> '''' \<longrightarrow> read_aggregate C c ch src = Inr (aggregate_of ch src (ratings P c)))"

lemma services_ok_empty: "services_ok C Map.empty"
  by (simp add: services_ok_def)

lemma ratings_ok_empty: "ratings_ok P C Map.empty"
  by (simp add: ratings_ok_def ratings_def entries_under_def read_aggregate_def aggregate_of_def decoded_def List.map_filter_simps)

lemma entries_add:
  assumes fin: "finite {k. c k \<noteq> None \<and> prefix p k}" and new: "c k = None" and pk: "prefix p k" and u: "u v = Some m"
  shows "mset (decoded u (entries_under (c(k \<mapsto> v)) p)) = add_mset m (mset (decoded u (entries_under c p)))"
proof -
  let ?F = "{k. c k \<noteq> None \<and> prefix p k}"
  have F: "{k'. (c(k \<mapsto> v)) k' \<noteq> None \<and> prefix p k'} = insert k ?F" and k: "k \<notin> ?F" using pk new by auto
  have e: "entries_under (c(k \<mapsto> v)) p = map (\<lambda>k'. (k', the ((c(k \<mapsto> v)) k'))) (insort k (sorted_list_of_set ?F))"
    unfolding entries_under_def F using sorted_list_of_set_insert [OF fin, of k] k by simp
  have d: "decoded u (map g ks) = List.map_filter (\<lambda>k. u (snd (g k))) ks" for g and ks :: "bytes list"
    by (induction ks) (auto simp: decoded_def List.map_filter_simps split: option.split)
  have mf: "mset (List.map_filter f xs) = mset (List.map_filter f ys)" if "mset xs = mset ys" for f :: "bytes \<Rightarrow> 'a option" and xs ys
    unfolding List.map_filter_def mset_map mset_filter that ..
  have "mset (decoded u (entries_under (c(k \<mapsto> v)) p)) = mset (List.map_filter (\<lambda>k'. u (the ((c(k \<mapsto> v)) k'))) (k # sorted_list_of_set ?F))"
    unfolding e d snd_conv by (rule mf) (simp add: mset_insort)
  also have "List.map_filter (\<lambda>k'. u (the ((c(k \<mapsto> v)) k'))) (k # sorted_list_of_set ?F) = m # List.map_filter (\<lambda>k'. u (the (c k'))) (sorted_list_of_set ?F)"
  proof -
    have "List.map_filter (\<lambda>k'. u (the ((c(k \<mapsto> v)) k'))) ks = List.map_filter (\<lambda>k'. u (the (c k'))) ks" if "k \<notin> set ks" for ks
      using that by (induction ks) (auto simp: List.map_filter_simps split: option.split)
    then show ?thesis using fin k u by (simp add: List.map_filter_simps)
  qed
  finally show ?thesis by (simp add: entries_under_def d)
qed

lemma entries_other: "\<not> prefix p k \<Longrightarrow> entries_under (c(k \<mapsto> v)) p = entries_under c p"
proof -
  assume k: "\<not> prefix p k"
  then have "{k'. (c(k \<mapsto> v)) k' \<noteq> None \<and> prefix p k'} = {k'. c k' \<noteq> None \<and> prefix p k'}" by auto
  moreover have "k' \<noteq> k" if "k' \<in> {k'. c k' \<noteq> None \<and> prefix p k'}" for k' using that k by auto
  ultimately show ?thesis unfolding entries_under_def
    by (cases "finite {k'. c k' \<noteq> None \<and> prefix p k'}") auto
qed

lemma wrap64_add: "wrap64 (wrap64 x + y) = wrap64 (x + y)"
proof -
  have "take_bit 64 (wrap64 x + y) = take_bit 64 (x + y)"
    using take_bit_add [of 64 "wrap64 x" y] take_bit_add [of 64 x y] by (simp add: wrap64_def take_bit_signed_take_bit)
  then show ?thesis unfolding wrap64_def signed_take_bit_eq_iff_take_bit_eq by simp
qed

lemma aggregate_add:
  assumes "mset rs' = add_mset r (mset rs)"
  shows "aggregate_of ch src rs' =
    (if rpin_ChainName r = ch \<and> rpin_SourceServicePinId r = src
     then Some (let a = (case aggregate_of ch src rs of None \<Rightarrow> \<lparr>ra_ChainName = ch, ra_SourceServicePinId = src, ra_Sum = 0, ra_Count = 0\<rparr> | Some a \<Rightarrow> a)
                in a\<lparr>ra_Sum := wrap64 (ra_Sum a + rpin_Rate r), ra_Count := wrap64 (ra_Count a + 1)\<rparr>)
     else aggregate_of ch src rs)"
proof -
  let ?m = "\<lambda>r. rpin_ChainName r = ch \<and> rpin_SourceServicePinId r = src"
  have f: "mset (filter ?m rs') = (if ?m r then add_mset r (mset (filter ?m rs)) else mset (filter ?m rs))" by (simp add: assms)
  have s: "sum_list (map rpin_Rate (filter ?m rs')) = (if ?m r then rpin_Rate r else 0) + sum_list (map rpin_Rate (filter ?m rs))"
    using arg_cong [OF f, of "\<lambda>M. sum_mset (image_mset rpin_Rate M)"] by (simp add: sum_mset_sum_list [symmetric] split: if_splits)
  have l: "length (filter ?m rs') = (if ?m r then 1 else 0) + length (filter ?m rs)" 
    using mset_eq_length [of "filter ?m rs'" "if ?m r then r # filter ?m rs else filter ?m rs"] f by (simp split: if_splits)
  have n: "filter ?m rs' = [] \<longleftrightarrow> \<not> ?m r \<and> filter ?m rs = []" unfolding length_0_conv [symmetric] l by simp
  have w: "wrap64 (wrap64 x + y) = wrap64 (y + x)" for x y by (metis wrap64_add add.commute)
  have w1: "wrap64 (1 + int n) = wrap64 (int n + 1)" for n by (simp add: add.commute)
  show ?thesis
  proof (cases "?m r")
    case True
    then show ?thesis unfolding aggregate_of_def Let_def s l n by (simp add: w w1)
  next
    case False
    then show ?thesis unfolding aggregate_of_def Let_def s l n by (simp only: if_False simp_thms) simp
  qed
qed


subsection \<open>One pin\<close>

text \<open>The source a pin belongs to, and the record that a pin writes.\<close>

definition owner :: "(bytes \<Rightarrow> bytes option) \<Rightarrow> string \<Rightarrow> string \<Rightarrow> string" where
  "owner c ch i = (case c (skill_pinToSourceKey ch i) of None \<Rightarrow> i | Some src \<Rightarrow> src)"

definition service_op :: "('s, 'f) skill_env \<Rightarrow> PinInscription \<Rightarrow> string" where
  "service_op A pin = ToLower (sk_U A) (TrimSpace (pi_Operation pin))"

text \<open>Whether a pin is about services: by its path, or a later version of any path that names a target.\<close>

definition about_services :: "('s, 'f) skill_env \<Rightarrow> PinInscription \<Rightarrow> bool" where
  "about_services A pin \<longleftrightarrow> pi_ChainName pin \<noteq> '''' \<and> pi_Id pin \<noteq> '''' \<and> pi_Path pin \<noteq> ''''
     \<and> (let base = skill_protocolPathFromPinPath (sk_U A) (pi_Path pin)
        in base = PathSkillService \<or> base \<noteq> PathSkillServiceRate \<and> isVersionOperation (sk_U A) (pi_Operation pin) \<and> pinTargetFromPath (pi_Path pin) \<noteq> '''')"

definition next_version :: "('s, 'f) skill_env \<Rightarrow> PinInscription \<Rightarrow> ServiceRecord \<Rightarrow> ServiceRecord option" where
  "next_version A pin p =
     (if service_op A pin = ''modify'' then map_option (\<lambda>m. service_modified A pin m p) (decodeServiceSummary A pin)
      else if service_op A pin = ''revoke'' then Some (service_revoked pin p) else None)"

definition first_version :: "('s, 'f) skill_env \<Rightarrow> PinInscription \<Rightarrow> ServiceRecord option" where
  "first_version A pin = (if service_op A pin = ''create'' then map_option (\<lambda>m. newServiceRecord A pin m (pi_Id pin)) (decodeServiceSummary A pin) else None)"

definition replaced :: "('s, 'f) skill_env \<Rightarrow> (bytes \<Rightarrow> bytes option) \<Rightarrow> PinInscription \<Rightarrow> (ServiceRecord \<Rightarrow> ServiceRecord option) \<Rightarrow> ServiceRecord option" where
  "replaced A c pin upd =
     (case resolveTargetPinId pin of
        None \<Rightarrow> None
      | Some t \<Rightarrow> (case service_at (sk_codec A) c (pi_ChainName pin) (owner c (pi_ChainName pin) t) of None \<Rightarrow> None | Some p \<Rightarrow> if sv_CurrentPinId p = t then upd p else None))"

definition written :: "('s, 'f) skill_env \<Rightarrow> (bytes \<Rightarrow> bytes option) \<Rightarrow> PinInscription \<Rightarrow> ServiceRecord option" where
  "written A c pin =
     (if \<not> about_services A pin then None
      else if service_op A pin = ''create'' then (if service_at (sk_codec A) c (pi_ChainName pin) (pi_Id pin) = None then first_version A pin else None)
      else replaced A c pin (next_version A pin))"

text \<open>The two databases after a record has been written for a pin.\<close>

definition wrote :: "ServiceRecord codec \<Rightarrow> string \<Rightarrow> ServiceRecord option \<Rightarrow> (bytes \<Rightarrow> bytes option) \<Rightarrow> (bytes \<Rightarrow> bytes option) \<Rightarrow> bool" where
  "wrote C i w c c' \<longleftrightarrow> (\<forall>ch x. colon_free ch \<longrightarrow>
     service_at C c' ch x = (case w of Some u \<Rightarrow> if ch = sv_ChainName u \<and> x = sv_SourceServicePinId u then Some u else service_at C c ch x | None \<Rightarrow> service_at C c ch x)
     \<and> c' (skill_pinToSourceKey ch x) =
         (case w of Some u \<Rightarrow> if ch = sv_ChainName u \<and> x = i \<and> x \<noteq> sv_SourceServicePinId u then Some (sv_SourceServicePinId u) else c (skill_pinToSourceKey ch x)
          | None \<Rightarrow> c (skill_pinToSourceKey ch x)))"

lemma version_keys:
  "sv_ChainName (service_revoked pin p) = sv_ChainName p" "sv_SourceServicePinId (service_revoked pin p) = sv_SourceServicePinId p"
  "sv_ChainName (service_modified A pin m p) = pi_ChainName pin" "sv_SourceServicePinId (service_modified A pin m p) = sv_SourceServicePinId p"
  "sv_CurrentPinId (service_revoked pin p) = pi_Id pin" "sv_CurrentPinId (service_modified A pin m p) = pi_Id pin"
  by (simp_all add: service_revoked_def service_modified_def newServiceRecord_def Let_def)

locale skill_store = kv_deleting K loc content inv opened dbp
  for K :: "'s kv_api" and loc content inv opened dbp +
  fixes A :: "('s, 'f) skill_env"
  assumes env: "sk_K A = K" and apart: "loc skill_ns \<noteq> loc rate_ns"
    and codec: "\<exists>raw. cd_Marshal (sk_codec A) r = Inr raw \<and> cd_Unmarshal (sk_codec A) raw = Some r"
    and pin_codec: "\<exists>raw. cd_Marshal (sk_pins A) rp = Inr raw \<and> cd_Unmarshal (sk_pins A) raw = Some rp"
    and agg_codec: "\<exists>raw. cd_Marshal (sk_aggs A) a = Inr raw \<and> cd_Unmarshal (sk_aggs A) raw = Some a"
begin

abbreviation db :: "'s \<Rightarrow> bytes \<Rightarrow> bytes option" where "db s \<equiv> content s (loc skill_ns)"

abbreviation rdb :: "'s \<Rightarrow> bytes \<Rightarrow> bytes option" where "rdb s \<equiv> content s (loc rate_ns)"

definition skills_ok :: "'s \<Rightarrow> bool" where
  "skills_ok s \<longleftrightarrow> inv s \<and> services_ok (sk_codec A) (db s) \<and> ratings_ok (sk_pins A) (sk_aggs A) (rdb s)"

lemma skills_ok_same: "skills_ok s \<Longrightarrow> inv s' \<Longrightarrow> content s' = content s \<Longrightarrow> skills_ok s'"
  by (simp add: skills_ok_def)

lemma set_db:
  assumes "inv s"
  obtains s' where "kv_Set K skill_ns k v s = (None, s')" and "inv s'" and "db s' = (db s)(k \<mapsto> v)" and "rdb s' = rdb s"
proof -
  obtain s' where "kv_Set K skill_ns k v s = (None, s')" "inv s'" "content s' = (content s)(loc skill_ns := (db s)(k \<mapsto> v))" by (rule Set_eq [OF assms])
  then show thesis using that apart by simp
qed

lemma set_markers_db:
  assumes "inv s" and "\<forall>k \<in> set ks. prefix ''service_'' k"
  shows "\<exists>s'. set_markers A ks s = (None, s') \<and> inv s' \<and> rdb s' = rdb s \<and> (\<forall>k. \<not> prefix ''service_'' k \<longrightarrow> db s' k = db s k)"
  using assms
proof (induction ks arbitrary: s)
  case (Cons k ks)
  obtain s1 where s1: "kv_Set K skill_ns k [] s = (None, s1)" "inv s1" "db s1 = (db s)(k \<mapsto> [])" "rdb s1 = rdb s" by (rule set_db [OF Cons.prems(1)])
  obtain s' where "set_markers A ks s1 = (None, s')" "inv s'" "rdb s' = rdb s1" "\<forall>k. \<not> prefix ''service_'' k \<longrightarrow> db s' k = db s1 k"
    using Cons.IH [OF s1(2)] Cons.prems(2) by auto
  then show ?case using s1 Cons.prems(2) by (auto simp: env)
qed simp

lemma delete_markers_db:
  assumes "inv s" and "\<forall>k \<in> set ks. prefix ''service_'' k"
  shows "inv (delete_markers A ks s) \<and> rdb (delete_markers A ks s) = rdb s \<and> (\<forall>k. \<not> prefix ''service_'' k \<longrightarrow> db (delete_markers A ks s) k = db s k)"
  using assms
proof (induction ks arbitrary: s)
  case (Cons k ks)
  obtain s1 where s1: "kv_Delete K skill_ns k s = (None, s1)" "inv s1"
    "content s1 = (content s)(loc skill_ns := (db s)(k := None)) \<or> \<not> opened s skill_ns \<and> content s1 = content s"
    by (rule Delete_any [OF Cons.prems(1)])
  have 1: "rdb s1 = rdb s" "\<forall>k'. \<not> prefix ''service_'' k' \<longrightarrow> db s1 k' = db s k'" using s1(3) apart Cons.prems(2) by auto
  have "delete_markers A (k # ks) s = delete_markers A ks s1" using s1(1) by (simp add: delete_markers_def env)
  then show ?case using Cons.IH [OF s1(2)] Cons.prems(2) 1 by simp
qed (simp add: delete_markers_def)

lemma saveService_db:
  assumes "inv s" and "sv_ChainName rec \<noteq> ''''" and "sv_SourceServicePinId rec \<noteq> ''''"
  obtains s' raw where "saveService A L rec previous s = (None, s')" and "inv s'" and "rdb s' = rdb s" and "cd_Unmarshal (sk_codec A) raw = Some rec"
    and "\<forall>k. \<not> prefix ''service_'' k \<longrightarrow> db s' k = ((db s)(serviceKey (sv_ChainName rec) (sv_SourceServicePinId rec) \<mapsto> raw)) k"
proof -
  obtain raw where raw: "cd_Marshal (sk_codec A) rec = Inr raw" "cd_Unmarshal (sk_codec A) raw = Some rec" using codec by blast
  define s1 where "s1 = (case previous of None \<Rightarrow> s
    | Some p \<Rightarrow> delete_markers A (provider_keys p @ (if sv_UpdatedAt p \<noteq> sv_UpdatedAt rec then updated_keys p else []) @ global_keys A L p) s)"
  have m: "\<forall>k \<in> set (provider_keys r @ ys @ zs). prefix ''service_'' k"
    if "set ys \<union> set zs \<subseteq> set (global_keys A L r) \<union> set (updated_keys r)" for r ys zs
    using that marker_keys [of _ r A L] by auto
  have 1: "inv s1" "rdb s1 = rdb s" "\<forall>k. \<not> prefix ''service_'' k \<longrightarrow> db s1 k = db s k"
  proof -
    have "inv s1 \<and> rdb s1 = rdb s \<and> (\<forall>k. \<not> prefix ''service_'' k \<longrightarrow> db s1 k = db s k)"
    proof (cases previous)
      case (Some p)
      let ?u = "if sv_UpdatedAt p \<noteq> sv_UpdatedAt rec then updated_keys p else []"
      have "\<forall>k \<in> set (provider_keys p @ ?u @ global_keys A L p). prefix ''service_'' k" by (rule m) auto
      from delete_markers_db [OF assms(1) this] show ?thesis by (simp add: s1_def Some)
    qed (simp add: s1_def assms(1))
    then show "inv s1" "rdb s1 = rdb s" "\<forall>k. \<not> prefix ''service_'' k \<longrightarrow> db s1 k = db s k" by blast+
  qed
  obtain s2 where 2: "kv_Set K skill_ns (serviceKey (sv_ChainName rec) (sv_SourceServicePinId rec)) raw s1 = (None, s2)" "inv s2"
    "db s2 = (db s1)(serviceKey (sv_ChainName rec) (sv_SourceServicePinId rec) \<mapsto> raw)" "rdb s2 = rdb s1" by (rule set_db [OF 1(1)])
  have m3: "\<forall>k \<in> set (provider_keys rec @ global_keys A L rec @ updated_keys rec). prefix ''service_'' k" by (rule m) auto
  obtain s3 where 3: "set_markers A (provider_keys rec @ global_keys A L rec @ updated_keys rec) s2 = (None, s3)" "inv s3" "rdb s3 = rdb s2"
    "\<forall>k. \<not> prefix ''service_'' k \<longrightarrow> db s3 k = db s2 k" using set_markers_db [OF 2(2) m3] by blast
  have e: "saveService A L rec previous s = (None, s3)"
    using assms(2,3) raw(1) 2(1) 3(1) by (simp add: saveService_def s1_def [symmetric] save_json_def env)
  show thesis by (rule that [OF e 3(2) _ raw(2)]) (use 1 2 3 in auto)
qed

lemma load_db:
  assumes "skills_ok s" and "colon_free ch" "ch \<noteq> ''''" "src \<noteq> ''''"
  obtains s' where "loadService A ch src s = (Inr (service_at (sk_codec A) (db s) ch src), s')" and "inv s'" and "content s' = content s"
proof -
  have i: "inv s" using assms(1) by (simp add: skills_ok_def)
  obtain s' where s': "kv_Get K skill_ns (serviceKey ch src) s = (case db s (serviceKey ch src) of None \<Rightarrow> Inl ErrNotFound | Some v \<Rightarrow> Inr v, s')" "inv s'" "content s' = content s"
    by (rule Get_eq [OF i])
  have "cd_Unmarshal (sk_codec A) raw \<noteq> None" if "db s (serviceKey ch src) = Some raw" for raw
    using service_found [of "sk_codec A" "db s" ch src raw] that assms(1,2) by (auto simp: skills_ok_def)
  then have "loadService A ch src s = (Inr (service_at (sk_codec A) (db s) ch src), s')"
    using s'(1) assms(3,4) by (auto simp: loadService_def env service_at_def split: option.splits)
  then show thesis using that s' by blast
qed

lemma load_any_db:
  assumes ok: "skills_ok s" and "colon_free ch" "ch \<noteq> ''''" "i \<noteq> ''''"
  obtains s' where "loadServiceByAnyPinId A ch i s = (Inr (service_at (sk_codec A) (db s) ch (owner (db s) ch i)), s')" and "inv s'" and "content s' = content s"
proof -
  have inv: "inv s" using assms(1) by (simp add: skills_ok_def)
  obtain s1 where s1: "kv_Get K skill_ns (skill_pinToSourceKey ch i) s = (case db s (skill_pinToSourceKey ch i) of None \<Rightarrow> Inl ErrNotFound | Some v \<Rightarrow> Inr v, s1)" "inv s1" "content s1 = content s"
    by (rule Get_eq [OF inv])
  have "owner (db s) ch i \<noteq> ''''" using ok assms(2,4) by (auto simp: owner_def skills_ok_def services_ok_def split: option.splits)
  then obtain s2 where "loadService A ch (owner (db s) ch i) s1 = (Inr (service_at (sk_codec A) (db s1) ch (owner (db s) ch i)), s2)" "inv s2" "content s2 = content s1"
    by (rule load_db [OF skills_ok_same [OF ok s1(2,3)] assms(2,3)])
  then show thesis using that s1 assms(3,4) by (auto simp: loadServiceByAnyPinId_def env owner_def split: option.splits)
qed

end


context skill_store
begin

text \<open>Saving a record and remembering the pin it comes from.\<close>

lemma save_wrote:
  assumes ok: "skills_ok s" and ch: "colon_free (sv_ChainName rec)" "sv_ChainName rec \<noteq> ''''" and src: "sv_SourceServicePinId rec \<noteq> ''''" and i: "i \<noteq> ''''"
  obtains s1 s' where "saveService A L rec previous s = (None, s1)" and "skill_mapPinToSource A (sv_ChainName rec) i (sv_SourceServicePinId rec) s1 = (None, s')"
    and "skills_ok s'" and "wrote (sk_codec A) i (Some rec) (db s) (db s')" and "rdb s' = rdb s"
proof -
  let ?ch = "sv_ChainName rec" and ?src = "sv_SourceServicePinId rec"
  have inv: "inv s" and sok: "services_ok (sk_codec A) (db s)" using ok by (auto simp: skills_ok_def)
  obtain s1 raw where s1: "saveService A L rec previous s = (None, s1)" "inv s1" "rdb s1 = rdb s" "cd_Unmarshal (sk_codec A) raw = Some rec"
    "\<forall>k. \<not> prefix ''service_'' k \<longrightarrow> db s1 k = ((db s)(serviceKey ?ch ?src \<mapsto> raw)) k" by (rule saveService_db [OF inv ch(2) src])
  obtain s' where s': "skill_mapPinToSource A ?ch i ?src s1 = (None, s')" "inv s'" "rdb s' = rdb s1"
    "db s' = (if i = ?src then db s1 else (db s1)(skill_pinToSourceKey ?ch i \<mapsto> ?src))"
  proof (cases "i = ?src")
    case True
    then show thesis using that [of s1] s1(2) by (simp add: skill_mapPinToSource_def)
  next
    case False
    obtain s' where "kv_Set K skill_ns (skill_pinToSourceKey ?ch i) ?src s1 = (None, s')" "inv s'" "db s' = (db s1)(skill_pinToSourceKey ?ch i \<mapsto> ?src)" "rdb s' = rdb s1"
      by (rule set_db [OF s1(2)])
    then show thesis using that [of s'] False ch(2) src i by (simp add: skill_mapPinToSource_def env)
  qed
  have sk: "db s' (serviceKey ch x) = (if ch = ?ch \<and> x = ?src then Some raw else db s (serviceKey ch x))" if "colon_free ch" for ch x
    using s'(4) s1(5) [rule_format, OF marker_apart(1) [of ch x]] that ch(1) by auto
  have pk: "db s' (skill_pinToSourceKey ch x) = (if ch = ?ch \<and> x = i \<and> x \<noteq> ?src then Some ?src else db s (skill_pinToSourceKey ch x))" if "colon_free ch" for ch x
    using s'(4) s1(5) [rule_format, OF marker_apart(2) [of ch x]] that ch(1) by auto
  have w: "wrote (sk_codec A) i (Some rec) (db s) (db s')"
    unfolding wrote_def service_at_def by (simp add: sk pk s1(4))
  have so: "services_ok (sk_codec A) (db s')"
    unfolding services_ok_def
  proof (intro conjI allI impI)
    fix k raw'
    assume a: "db s' k = Some raw' \<and> prefix ''service:'' k"
    have np: "\<not> prefix ''service_'' k" "k \<noteq> skill_pinToSourceKey x y" for x y using a by (auto simp: prefix_def skill_pinToSourceKey_def)
    have k: "db s' k = (if k = serviceKey ?ch ?src then Some raw else db s k)" using s'(4) s1(5) [rule_format, OF np(1)] np(2) by (auto split: if_splits)
    show "\<exists>r. cd_Unmarshal (sk_codec A) raw' = Some r \<and> k = serviceKey (sv_ChainName r) (sv_SourceServicePinId r) \<and> colon_free (sv_ChainName r)
        \<and> sv_ChainName r \<noteq> '''' \<and> sv_SourceServicePinId r \<noteq> ''''"
    proof (cases "k = serviceKey ?ch ?src")
      case True
      then show ?thesis using a k s1(4) ch src by simp
    next
      case False
      then have "db s k = Some raw'" using a k by simp
      then show ?thesis using a sok unfolding services_ok_def by blast
    qed
  next
    fix ch x y
    assume a: "colon_free ch \<and> db s' (skill_pinToSourceKey ch x) = Some y"
    then have "y = ?src \<or> db s (skill_pinToSourceKey ch x) = Some y" using pk [of ch x] by (auto split: if_splits)
    moreover have "db s (skill_pinToSourceKey ch x) = Some y \<Longrightarrow> y \<noteq> ''''" using a sok unfolding services_ok_def by blast
    ultimately show "y \<noteq> ''''" using src by (elim disjE) simp_all
  qed
  have "skills_ok s'" using ok so s'(2,3) s1(3) by (simp add: skills_ok_def)
  then show thesis using that [OF s1(1) s'(1) _ w] s'(3) s1(3) by simp
qed

lemma nothing_wrote: "content s' = content s \<Longrightarrow> wrote (sk_codec A) i None (db s) (db s')"
  by (simp add: wrote_def)

lemma create_effect:
  assumes ok: "skills_ok s" and ch: "colon_free (pi_ChainName pin)" "pi_ChainName pin \<noteq> ''''" and i: "pi_Id pin \<noteq> ''''" and op: "service_op A pin = ''create''"
  shows "\<exists>s'. processServiceCreate A L pin s = (None, s') \<and> skills_ok s' \<and> rdb s' = rdb s
    \<and> wrote (sk_codec A) (pi_Id pin) (if service_at (sk_codec A) (db s) (pi_ChainName pin) (pi_Id pin) = None then first_version A pin else None) (db s) (db s')"
proof (cases "decodeServiceSummary A pin")
  case None
  then show ?thesis using ok by (simp add: processServiceCreate_def first_version_def op nothing_wrote)
next
  case (Some m)
  obtain s1 where s1: "loadService A (pi_ChainName pin) (pi_Id pin) s = (Inr (service_at (sk_codec A) (db s) (pi_ChainName pin) (pi_Id pin)), s1)" "inv s1" "content s1 = content s"
    by (rule load_db [OF ok ch i])
  have ok1: "skills_ok s1" by (rule skills_ok_same [OF ok s1(2,3)])
  let ?r = "newServiceRecord A pin m (pi_Id pin)"
  have r: "sv_ChainName ?r = pi_ChainName pin" "sv_SourceServicePinId ?r = pi_Id pin" by (simp_all add: newServiceRecord_def)
  show ?thesis
  proof (cases "service_at (sk_codec A) (db s) (pi_ChainName pin) (pi_Id pin)")
    case None
    obtain s2 s' where s2: "saveService A L ?r None s1 = (None, s2)" "skill_mapPinToSource A (sv_ChainName ?r) (pi_Id pin) (sv_SourceServicePinId ?r) s2 = (None, s')"
      "skills_ok s'" "wrote (sk_codec A) (pi_Id pin) (Some ?r) (db s1) (db s')" "rdb s' = rdb s1"
      by (rule save_wrote [OF ok1, of ?r "pi_Id pin"]) (use ch i r in auto)
    have "s' = s2" using s2(2) r(2) by (simp add: skill_mapPinToSource_def)
    then show ?thesis using None Some s1 s2 op by (auto simp: processServiceCreate_def first_version_def)
  next
    case (Some r)
    then show ?thesis using \<open>decodeServiceSummary A pin = Some m\<close> s1 ok1 nothing_wrote [OF s1(3)] by (auto simp: processServiceCreate_def)
  qed
qed

lemma update_effect:
  assumes ok: "skills_ok s" and ch: "colon_free (pi_ChainName pin)" "pi_ChainName pin \<noteq> ''''" and i: "pi_Id pin \<noteq> ''''"
    and upd: "\<And>p u. upd p = Some u \<Longrightarrow> sv_ChainName p = pi_ChainName pin \<Longrightarrow> sv_ChainName u = sv_ChainName p \<and> sv_SourceServicePinId u = sv_SourceServicePinId p"
  shows "\<exists>s'. update_service A L pin upd s = (None, s') \<and> skills_ok s' \<and> rdb s' = rdb s \<and> wrote (sk_codec A) (pi_Id pin) (replaced A (db s) pin upd) (db s) (db s')"
proof (cases "resolveTargetPinId pin")
  case None
  then show ?thesis using ok by (simp add: update_service_def replaced_def nothing_wrote)
next
  case t: (Some t)
  have "t \<noteq> ''''" using t by (auto simp: resolveTargetPinId_def Let_def split: if_splits)
  then obtain s1 where s1: "loadServiceByAnyPinId A (pi_ChainName pin) t s
      = (Inr (service_at (sk_codec A) (db s) (pi_ChainName pin) (owner (db s) (pi_ChainName pin) t)), s1)" "inv s1" "content s1 = content s"
    by (rule load_any_db [OF ok ch])
  have ok1: "skills_ok s1" by (rule skills_ok_same [OF ok s1(2,3)])
  show ?thesis
  proof (cases "replaced A (db s) pin upd")
    case None
    have "update_service A L pin upd s = (None, s1)"
    proof (cases "service_at (sk_codec A) (db s) (pi_ChainName pin) (owner (db s) (pi_ChainName pin) t)")
      case None
      then show ?thesis using t s1(1) by (simp add: update_service_def)
    next
      case (Some p)
      then have "sv_CurrentPinId p \<noteq> t \<or> upd p = None" using None t by (auto simp: replaced_def)
      then show ?thesis using t s1(1) Some by (auto simp: update_service_def isCurrentVersionTarget_def)
    qed
    then show ?thesis using ok1 nothing_wrote [OF s1(3)] s1(3) None by simp
  next
    case (Some u)
    then obtain p where p: "service_at (sk_codec A) (db s) (pi_ChainName pin) (owner (db s) (pi_ChainName pin) t) = Some p" "sv_CurrentPinId p = t" "upd p = Some u"
      using t by (auto simp: replaced_def split: option.splits if_splits)
    obtain raw where "db s (serviceKey (pi_ChainName pin) (owner (db s) (pi_ChainName pin) t)) = Some raw" "cd_Unmarshal (sk_codec A) raw = Some p"
      using p(1) by (auto simp: service_at_def bind_eq_Some_conv)
    then have pk: "sv_ChainName p = pi_ChainName pin" "sv_SourceServicePinId p \<noteq> ''''" using service_found [of "sk_codec A" "db s" "pi_ChainName pin" "owner (db s) (pi_ChainName pin) t" raw] ok ch(1) by (auto simp: skills_ok_def)
    have u: "sv_ChainName u = pi_ChainName pin" "sv_SourceServicePinId u = sv_SourceServicePinId p" using upd [OF p(3) pk(1)] pk(1) by simp_all
    obtain s2 s' where s2: "saveService A L u (Some p) s1 = (None, s2)" "skill_mapPinToSource A (sv_ChainName u) (pi_Id pin) (sv_SourceServicePinId u) s2 = (None, s')"
      "skills_ok s'" "wrote (sk_codec A) (pi_Id pin) (Some u) (db s1) (db s')" "rdb s' = rdb s1"
      by (rule save_wrote [OF ok1, of u "pi_Id pin"]) (use ch i u pk in auto)
    have "update_service A L pin upd s = (None, s')"
      using t s1(1) p s2(1,2) u by (simp add: update_service_def isCurrentVersionTarget_def)
    then show ?thesis using s2 s1(3) Some by simp
  qed
qed

lemma service_effect:
  assumes ok: "skills_ok s" and ch: "colon_free (pi_ChainName pin)" "pi_ChainName pin \<noteq> ''''" and i: "pi_Id pin \<noteq> ''''"
  shows "\<exists>s'. processServicePin A L pin s = (None, s') \<and> skills_ok s' \<and> rdb s' = rdb s
    \<and> wrote (sk_codec A) (pi_Id pin) (if service_op A pin = ''create'' then (if service_at (sk_codec A) (db s) (pi_ChainName pin) (pi_Id pin) = None then first_version A pin else None)
        else replaced A (db s) pin (next_version A pin)) (db s) (db s')"
proof -
  note op = service_op_def [symmetric, of A pin]
  consider "service_op A pin = ''create''" | "service_op A pin = ''modify''" | "service_op A pin = ''revoke''"
    | "service_op A pin \<notin> {''create'', ''modify'', ''revoke''}" by blast
  then show ?thesis
  proof cases
    case 1
    with create_effect [OF ok ch i 1, of L] show ?thesis using ch(2) i by (simp add: processServicePin_def op)
  next
    case 2
    have e: "next_version A pin = (\<lambda>p. map_option (\<lambda>m. service_modified A pin m p) (decodeServiceSummary A pin))" using 2 by (simp add: next_version_def fun_eq_iff)
    have "\<exists>s'. update_service A L pin (next_version A pin) s = (None, s') \<and> skills_ok s' \<and> rdb s' = rdb s \<and> wrote (sk_codec A) (pi_Id pin) (replaced A (db s) pin (next_version A pin)) (db s) (db s')"
      by (rule update_effect [OF ok ch i]) (auto simp: e version_keys)
    then show ?thesis using 2 ch(2) i by (simp add: processServicePin_def op processServiceModify_def e)
  next
    case 3
    have e: "next_version A pin = (\<lambda>p. Some (service_revoked pin p))" using 3 by (simp add: next_version_def fun_eq_iff)
    have "\<exists>s'. update_service A L pin (next_version A pin) s = (None, s') \<and> skills_ok s' \<and> rdb s' = rdb s \<and> wrote (sk_codec A) (pi_Id pin) (replaced A (db s) pin (next_version A pin)) (db s) (db s')"
      by (rule update_effect [OF ok ch i]) (auto simp: e version_keys)
    then show ?thesis using 3 ch(2) i by (simp add: processServicePin_def op processServiceRevoke_def e)
  next
    case 4
    have "replaced A (db s) pin (next_version A pin) = None" using 4 by (auto simp: replaced_def next_version_def split: option.splits)
    then show ?thesis using 4 ok ch(2) i nothing_wrote [of s s] by (simp add: processServicePin_def op)
  qed
qed

end


subsection \<open>Ratings\<close>

context skill_store
begin

lemma set_rate:
  assumes "inv s"
  obtains s' where "kv_Set K rate_ns k v s = (None, s')" and "inv s'" and "rdb s' = (rdb s)(k \<mapsto> v)" and "db s' = db s"
proof -
  obtain s' where "kv_Set K rate_ns k v s = (None, s')" "inv s'" "content s' = (content s)(loc rate_ns := (rdb s)(k \<mapsto> v))" by (rule Set_eq [OF assms])
  then show thesis using that apart by simp
qed

lemma finite_rates: "inv s \<Longrightarrow> finite {k. rdb s k \<noteq> None \<and> prefix p k}"
proof -
  assume "inv s"
  then obtain kvs s' where "set kvs = {(k, v). rdb s k = Some v \<and> prefix p k}" by (rule Scan_eq [of s rate_ns p]) blast
  then have "{k. rdb s k \<noteq> None \<and> prefix p k} = fst ` set kvs" by force
  then show ?thesis by simp
qed

lemma load_aggregate_db:
  assumes ok: "skills_ok s" and "colon_free ch" "ch \<noteq> ''''" "src \<noteq> ''''"
  obtains s' where "LoadRatingAggregate A ch src s = (Inr (aggregate_of ch src (ratings (sk_pins A) (rdb s))), s')" and "inv s'" and "content s' = content s"
proof -
  have i: "inv s" using ok by (simp add: skills_ok_def)
  obtain s' where s': "kv_Get K rate_ns (ratingAggKey ch src) s = (case rdb s (ratingAggKey ch src) of None \<Rightarrow> Inl ErrNotFound | Some v \<Rightarrow> Inr v, s')" "inv s'" "content s' = content s"
    by (rule Get_eq [OF i])
  have "LoadRatingAggregate A ch src s = (read_aggregate (sk_aggs A) (rdb s) ch src, s')"
    using s'(1) assms(3,4) by (auto simp: LoadRatingAggregate_def read_aggregate_def env split: option.splits)
  moreover have "read_aggregate (sk_aggs A) (rdb s) ch src = Inr (aggregate_of ch src (ratings (sk_pins A) (rdb s)))"
    using ok assms(2,4) unfolding skills_ok_def ratings_ok_def by blast
  ultimately show thesis using that s' by simp
qed

text \<open>A new rating pin with its source, and the new aggregate if there is one.\<close>

lemma rating_stored:
  assumes ok: "skills_ok s" and r: "colon_free (rpin_ChainName r)" "rpin_ChainName r \<noteq> ''''" "rpin_PinId r \<noteq> ''''"
    and new: "rdb s (ratingPinKey (rpin_ChainName r) (rpin_PinId r)) = None"
  shows "\<exists>s1 s'. saveRatingPin A r s = (None, s1)
    \<and> (if rpin_SourceServicePinId r = '''' then (None, s1) else bumpRatingAggregate A (rpin_ChainName r) (rpin_SourceServicePinId r) (rpin_Rate r) s1) = (None, s')
    \<and> skills_ok s' \<and> db s' = db s \<and> mset (ratings (sk_pins A) (rdb s')) = add_mset r (mset (ratings (sk_pins A) (rdb s)))"
proof -
  let ?ch = "rpin_ChainName r" and ?src = "rpin_SourceServicePinId r" and ?P = "sk_pins A" and ?G = "sk_aggs A"
  let ?k = "ratingPinKey ?ch (rpin_PinId r)"
  have i: "inv s" and ro: "ratings_ok ?P ?G (rdb s)" using ok by (auto simp: skills_ok_def)
  obtain raw where raw: "cd_Marshal ?P r = Inr raw" "cd_Unmarshal ?P raw = Some r" using pin_codec by blast
  obtain s1 where s1: "kv_Set K rate_ns ?k raw s = (None, s1)" "inv s1" "rdb s1 = (rdb s)(?k \<mapsto> raw)" "db s1 = db s" by (rule set_rate [OF i])
  have save: "saveRatingPin A r s = (None, s1)" using r(2,3) raw(1) s1(1) by (simp add: saveRatingPin_def save_json_def env)
  have m1: "mset (ratings ?P (rdb s1)) = add_mset r (mset (ratings ?P (rdb s)))"
    unfolding ratings_def s1(3) by (rule entries_add [OF finite_rates [OF i] new]) (simp_all add: raw(2))
  have dec1: "\<exists>r. cd_Unmarshal ?P raw' = Some r \<and> k = ratingPinKey (rpin_ChainName r) (rpin_PinId r)" if "rdb s1 k = Some raw'" "prefix ''rating_pin:'' k" for k raw'
    using that ro raw(2) s1(3) by (auto simp: ratings_ok_def split: if_splits)
  have agg1: "read_aggregate ?G (rdb s1) ch x = Inr (aggregate_of ch x (ratings ?P (rdb s)))" if "colon_free ch" "x \<noteq> ''''" for ch x
    using that ro s1(3) by (simp add: ratings_ok_def read_aggregate_def)
  note add = aggregate_add [OF m1]
  show ?thesis
  proof (cases "?src = ''''")
    case True
    have "ratings_ok ?P ?G (rdb s1)" unfolding ratings_ok_def using dec1 agg1 add True by auto
    then show ?thesis using save m1 True ok s1 by (auto simp: skills_ok_def)
  next
    case False
    let ?old = "case aggregate_of ?ch ?src (ratings ?P (rdb s)) of None \<Rightarrow> \<lparr>ra_ChainName = ?ch, ra_SourceServicePinId = ?src, ra_Sum = 0, ra_Count = 0\<rparr> | Some a \<Rightarrow> a"
    let ?new = "?old\<lparr>ra_Sum := wrap64 (ra_Sum ?old + rpin_Rate r), ra_Count := wrap64 (ra_Count ?old + 1)\<rparr>"
    obtain s2 where s2: "kv_Get K rate_ns (ratingAggKey ?ch ?src) s1 = (case rdb s1 (ratingAggKey ?ch ?src) of None \<Rightarrow> Inl ErrNotFound | Some v \<Rightarrow> Inr v, s2)" "inv s2" "content s2 = content s1"
      by (rule Get_eq [OF s1(2)])
    have l: "LoadRatingAggregate A ?ch ?src s1 = (Inr (aggregate_of ?ch ?src (ratings ?P (rdb s))), s2)"
      using s2(1) r(2) False agg1 [OF r(1) False] by (auto simp: LoadRatingAggregate_def read_aggregate_def env split: option.splits)
    obtain raw2 where raw2: "cd_Marshal ?G ?new = Inr raw2" "cd_Unmarshal ?G raw2 = Some ?new" using agg_codec by blast
    obtain s3 where s3: "kv_Set K rate_ns (ratingAggKey ?ch ?src) raw2 s2 = (None, s3)" "inv s3" "rdb s3 = (rdb s2)(ratingAggKey ?ch ?src \<mapsto> raw2)" "db s3 = db s2"
      by (rule set_rate [OF s2(2)])
    have bump: "bumpRatingAggregate A ?ch ?src (rpin_Rate r) s1 = (None, s3)"
      using l raw2(1) s3(1) by (simp add: bumpRatingAggregate_def Let_def save_json_def env)
    have r3: "ratings ?P (rdb s3) = ratings ?P (rdb s1)" using s3(3) s2(3) by (simp add: ratings_def entries_other)
    have "read_aggregate ?G (rdb s3) ch x = Inr (aggregate_of ch x (ratings ?P (rdb s1)))" if "colon_free ch" "x \<noteq> ''''" for ch x
    proof (cases "ch = ?ch \<and> x = ?src")
      case True
      then show ?thesis using s3(3) raw2(2) add [of ?ch ?src] by (simp add: read_aggregate_def Let_def)
    next
      case False
      then have "rdb s3 (ratingAggKey ch x) = rdb s1 (ratingAggKey ch x)" using s3(3) s2(3) that(1) r(1) by auto
      then show ?thesis using agg1 [OF that] add [of ch x] False by (auto simp: read_aggregate_def)
    qed
    moreover have "\<exists>r. cd_Unmarshal ?P raw' = Some r \<and> k = ratingPinKey (rpin_ChainName r) (rpin_PinId r)" if "rdb s3 k = Some raw'" "prefix ''rating_pin:'' k" for k raw'
      using that dec1 [of k raw'] s3(3) s2(3) by (auto split: if_splits)
    ultimately have "ratings_ok ?P ?G (rdb s3)" unfolding ratings_ok_def r3 by blast
    then show ?thesis using save bump m1 False r3 ok s1(4) s2(3) s3(2,4) by (auto simp: skills_ok_def)
  qed
qed

lemma rating_effect:
  assumes ok: "skills_ok s" and ch: "colon_free (pi_ChainName pin)"
  shows "\<exists>s'. processRatingPin A pin s = (None, s') \<and> skills_ok s' \<and> db s' = db s"
proof (cases "pi_Id pin = '''' \<or> pi_ChainName pin = '''' \<or> decodeRatingSummary A pin = None")
  case True
  then show ?thesis using ok by (auto simp: processRatingPin_def)
next
  case False
  then obtain m where m: "decodeRatingSummary A pin = Some m" and ne: "pi_Id pin \<noteq> ''''" "pi_ChainName pin \<noteq> ''''" by auto
  let ?k = "ratingPinKey (pi_ChainName pin) (pi_Id pin)"
  have i: "inv s" and ro: "ratings_ok (sk_pins A) (sk_aggs A) (rdb s)" using ok by (auto simp: skills_ok_def)
  obtain s1 where s1: "kv_Get K rate_ns ?k s = (case rdb s ?k of None \<Rightarrow> Inl ErrNotFound | Some v \<Rightarrow> Inr v, s1)" "inv s1" "content s1 = content s" by (rule Get_eq [OF i])
  have ok1: "skills_ok s1" by (rule skills_ok_same [OF ok s1(2,3)])
  show ?thesis
  proof (cases "rdb s ?k")
    case (Some raw)
    then obtain rp where "cd_Unmarshal (sk_pins A) raw = Some rp" using ro skill_keys_apart(5) unfolding ratings_ok_def by blast
    then have "processRatingPin A pin s = (None, s1)" using Some s1(1) ne m by (simp add: processRatingPin_def loadRatingPin_def env no_err_def)
    then show ?thesis using ok1 s1(3) by simp
  next
    case None
    then have l: "no_err (loadRatingPin A (pi_ChainName pin) (pi_Id pin) s) = (None, s1)" using s1(1) ne by (simp add: loadRatingPin_def env no_err_def)
    have "rt_ServiceID m \<noteq> ''''" using m by (auto simp: decodeRatingSummary_def split: if_splits option.splits)
    then obtain s2 where s2: "loadServiceByAnyPinId A (pi_ChainName pin) (rt_ServiceID m) s1
        = (Inr (service_at (sk_codec A) (db s1) (pi_ChainName pin) (owner (db s1) (pi_ChainName pin) (rt_ServiceID m))), s2)" "inv s2" "content s2 = content s1"
      by (rule load_any_db [OF ok1 ch ne(2)])
    have ok2: "skills_ok s2" by (rule skills_ok_same [OF ok1 s2(2,3)])
    define src where "src = (case service_at (sk_codec A) (db s1) (pi_ChainName pin) (owner (db s1) (pi_ChainName pin) (rt_ServiceID m)) of
        None \<Rightarrow> '''' | Some rec \<Rightarrow> if sv_ChainName rec \<noteq> '''' \<and> sv_ChainName rec \<noteq> pi_ChainName pin then '''' else sv_SourceServicePinId rec)"
    let ?r = "newRatingPin pin m src"
    have r: "rpin_ChainName ?r = pi_ChainName pin" "rpin_PinId ?r = pi_Id pin" "rpin_SourceServicePinId ?r = src" "rpin_Rate ?r = rt_Rate m" by (simp_all add: newRatingPin_def)
    have new: "rdb s2 ?k = None" using None s1(3) s2(3) by simp
    obtain s3 s' where s3: "saveRatingPin A ?r s2 = (None, s3)" "(if src = '''' then (None, s3) else bumpRatingAggregate A (pi_ChainName pin) src (rt_Rate m) s3) = (None, s')"
      "skills_ok s'" "db s' = db s2"
      using rating_stored [OF ok2, of ?r, unfolded r, OF ch ne(2,1) new] by blast
    have "processRatingPin A pin s = (None, s')"
      using ne m l s2(1) s3(1,2) by (simp add: processRatingPin_def src_def [symmetric])
    then show ?thesis using s3(3,4) s1(3) s2(3) by simp
  qed
qed

end


context skill_store
begin

lemma target_of_path:
  assumes "pinTargetFromPath (pi_Path pin) \<noteq> ''''" and "pinTargetFromPath (pi_Path pin) \<noteq> pi_Id pin"
  shows "resolveTargetPinId pin = Some (pinTargetFromPath (pi_Path pin))"
  using assms by (simp add: resolveTargetPinId_def Let_def)

lemma step_effect:
  assumes ok: "skills_ok s" and ch: "colon_free (pi_ChainName pin)" and self: "pinTargetFromPath (pi_Path pin) \<noteq> pi_Id pin"
  shows "\<exists>s'. skill_processPin A L pin s = (None, s') \<and> skills_ok s' \<and> wrote (sk_codec A) (pi_Id pin) (written A (db s) pin) (db s) (db s')"
proof -
  let ?base = "skill_protocolPathFromPinPath (sk_U A) (pi_Path pin)" and ?t = "pinTargetFromPath (pi_Path pin)"
  have rate: "PathSkillServiceRate \<noteq> PathSkillService" by (simp add: PathSkillService_def PathSkillServiceRate_def)
  have same: "wrote (sk_codec A) (pi_Id pin) None (db s) (db s')" if "db s' = db s" for s' using that by (simp add: wrote_def)
  note serv = service_effect [OF _ ch]
  consider (direct) "about_services A pin" "?base = PathSkillService"
    | (targeted) "about_services A pin" "?base \<noteq> PathSkillService" "?base \<noteq> PathSkillServiceRate" "isVersionOperation (sk_U A) (pi_Operation pin)" "?t \<noteq> ''''"
    | (rating) "\<not> about_services A pin" "pi_Path pin \<noteq> ''''" "?base = PathSkillServiceRate"
    | (other) "\<not> about_services A pin" "pi_Path pin = '''' \<or> ?base \<noteq> PathSkillServiceRate" using rate by (auto simp: about_services_def Let_def)
  then show ?thesis
  proof cases
    case direct
    then have ne: "pi_ChainName pin \<noteq> ''''" "pi_Id pin \<noteq> ''''" "pi_Path pin \<noteq> ''''" by (auto simp: about_services_def)
    show ?thesis using serv [OF ok ne(1,2), of L] direct ne by (auto simp: skill_processPin_def written_def Let_def)
  next
    case targeted
    then have ne: "pi_ChainName pin \<noteq> ''''" "pi_Id pin \<noteq> ''''" "pi_Path pin \<noteq> ''''" by (auto simp: about_services_def)
    have op: "service_op A pin \<noteq> ''create''" using targeted(4) by (auto simp: isVersionOperation_def service_op_def)
    obtain s1 where s1: "loadServiceByAnyPinId A (pi_ChainName pin) ?t s
        = (Inr (service_at (sk_codec A) (db s) (pi_ChainName pin) (owner (db s) (pi_ChainName pin) ?t)), s1)" "inv s1" "content s1 = content s"
      by (rule load_any_db [OF ok ch ne(1) targeted(5)])
    have ok1: "skills_ok s1" by (rule skills_ok_same [OF ok s1(2,3)])
    have w: "written A (db s) pin = replaced A (db s) pin (next_version A pin)" using targeted(1) op by (simp add: written_def)
    have e: "skill_processPin A L pin s = processTargetedServicePin A L pin s" using targeted ne(3) by (simp add: skill_processPin_def Let_def)
    show ?thesis
    proof (cases "service_at (sk_codec A) (db s) (pi_ChainName pin) (owner (db s) (pi_ChainName pin) ?t)")
      case None
      then have "replaced A (db s) pin (next_version A pin) = None" using target_of_path [OF targeted(5) self] by (simp add: replaced_def)
      then show ?thesis using None s1 ok1 same [of s1] targeted(5) ne w e by (simp add: processTargetedServicePin_def Let_def)
    next
      case (Some r)
      then show ?thesis using serv [OF ok1 ne(1,2), of L] s1 targeted(5) ne w e op by (auto simp: processTargetedServicePin_def Let_def)
    qed
  next
    case rating
    then show ?thesis using rating_effect [OF ok ch] same rate by (auto simp: skill_processPin_def written_def Let_def)
  next
    case other
    then have w: "written A (db s) pin = None" by (simp add: written_def)
    have "\<exists>s'. skill_processPin A L pin s = (None, s') \<and> skills_ok s' \<and> db s' = db s"
    proof (cases "pi_Path pin = '''' \<or> ?base = PathSkillService \<or> \<not> isVersionOperation (sk_U A) (pi_Operation pin) \<or> ?t = '''' \<or> pi_ChainName pin = ''''")
      case True
      then show ?thesis using other ok by (auto simp: skill_processPin_def about_services_def Let_def processServicePin_def processTargetedServicePin_def)
    next
      case False
      then have ne: "pi_ChainName pin \<noteq> ''''" "?t \<noteq> ''''" "pi_Id pin = ''''" using other by (auto simp: about_services_def Let_def)
      obtain s1 where s1: "loadServiceByAnyPinId A (pi_ChainName pin) ?t s
          = (Inr (service_at (sk_codec A) (db s) (pi_ChainName pin) (owner (db s) (pi_ChainName pin) ?t)), s1)" "inv s1" "content s1 = content s"
        by (rule load_any_db [OF ok ch ne(1,2)])
      have ok1: "skills_ok s1" by (rule skills_ok_same [OF ok s1(2,3)])
      show ?thesis using False other s1 ok1 ne
        by (auto simp: skill_processPin_def Let_def processServicePin_def processTargetedServicePin_def split: option.split)
    qed
    then show ?thesis using same w by auto
  qed
qed

end

subsection \<open>The versions of a service\<close>

text \<open>What one pin does to the service of chain \<open>ch\<close> with source \<open>src\<close>.\<close>

definition version_step :: "('s, 'f) skill_env \<Rightarrow> string \<Rightarrow> string \<Rightarrow> ServiceRecord option \<Rightarrow> PinInscription \<Rightarrow> ServiceRecord option" where
  "version_step A ch src r pin =
     (if \<not> about_services A pin \<or> pi_ChainName pin \<noteq> ch then r
      else case r of
        None \<Rightarrow> if pi_Id pin = src then first_version A pin else None
      | Some p \<Rightarrow> if resolveTargetPinId pin = Some (sv_CurrentPinId p) then (case next_version A pin p of None \<Rightarrow> Some p | Some u \<Rightarrow> Some u) else Some p)"

text \<open>Pins that can be told apart: what is delivered again under the same name has the same operation and target.\<close>

definition consistent :: "('s, 'f) skill_env \<Rightarrow> PinInscription set \<Rightarrow> bool" where
  "consistent A P \<longleftrightarrow> (\<forall>p \<in> P. \<forall>q \<in> P. pi_ChainName p = pi_ChainName q \<and> pi_Id p = pi_Id q
     \<longrightarrow> service_op A p = service_op A q \<and> resolveTargetPinId p = resolveTargetPinId q)"

lemma consistent_less: "consistent A Q \<Longrightarrow> P \<subseteq> Q \<Longrightarrow> consistent A P"
  unfolding consistent_def by blast

text \<open>The invariant: the current version of every service leads to it, sources come from create pins, and the pins that are mapped to a source are later
  versions whose target belongs to the same source.\<close>

definition sources_ok :: "('s, 'f) skill_env \<Rightarrow> (bytes \<Rightarrow> bytes option) \<Rightarrow> PinInscription set \<Rightarrow> bool" where
  "sources_ok A c P \<longleftrightarrow> (\<forall>ch. colon_free ch \<longrightarrow>
     (\<forall>src r. service_at (sk_codec A) c ch src = Some r \<longrightarrow> owner c ch (sv_CurrentPinId r) = src \<and> c (skill_pinToSourceKey ch src) = None
        \<and> (\<exists>q \<in> P. pi_ChainName q = ch \<and> pi_Id q = src \<and> service_op A q = ''create''))
     \<and> (\<forall>i src. c (skill_pinToSourceKey ch i) = Some src \<longrightarrow> service_at (sk_codec A) c ch src \<noteq> None
        \<and> (\<exists>q \<in> P. \<exists>t. pi_ChainName q = ch \<and> pi_Id q = i \<and> service_op A q \<noteq> ''create'' \<and> resolveTargetPinId q = Some t \<and> owner c ch t = src)))"

lemma sources_ok_empty: "sources_ok A Map.empty {}"
  by (simp add: sources_ok_def service_at_def)


lemma version_created:
  assumes so: "sources_ok A c P" and con: "consistent A (insert pin P)" and ch: "colon_free (pi_ChainName pin)"
    and about: "about_services A pin" and op: "service_op A pin = ''create''"
    and new: "service_at (sk_codec A) c (pi_ChainName pin) (pi_Id pin) = None" and u: "first_version A pin = Some u"
    and w: "wrote (sk_codec A) (pi_Id pin) (Some u) c c'"
  shows "sources_ok A c' (insert pin P) \<and> (\<forall>ch src. colon_free ch \<longrightarrow> service_at (sk_codec A) c' ch src = version_step A ch src (service_at (sk_codec A) c ch src) pin)"
proof -
  let ?C = "sk_codec A"
  have k: "sv_ChainName u = pi_ChainName pin" "sv_SourceServicePinId u = pi_Id pin" "sv_CurrentPinId u = pi_Id pin"
    using u op by (auto simp: first_version_def newServiceRecord_def)
  have s': "service_at ?C c' ch x = (if ch = pi_ChainName pin \<and> x = pi_Id pin then Some u else service_at ?C c ch x)"
    and p': "c' (skill_pinToSourceKey ch x) = c (skill_pinToSourceKey ch x)" if "colon_free ch" for ch x
    using w that k by (auto simp: wrote_def)
  have o': "owner c' ch x = owner c ch x" if "colon_free ch" for ch x using p' [OF that] by (simp add: owner_def)
  have nm: "c (skill_pinToSourceKey (pi_ChainName pin) (pi_Id pin)) = None"
  proof (rule ccontr)
    assume "c (skill_pinToSourceKey (pi_ChainName pin) (pi_Id pin)) \<noteq> None"
    then obtain q where "q \<in> P" "pi_ChainName q = pi_ChainName pin" "pi_Id q = pi_Id pin" "service_op A q \<noteq> ''create''"
      using so ch unfolding sources_ok_def by blast
    then show False using con op unfolding consistent_def by (metis insert_iff)
  qed
  have "sources_ok A c' (insert pin P)"
    unfolding sources_ok_def
  proof (intro allI impI conjI)
    fix ch src r
    assume c: "colon_free ch" and r: "service_at ?C c' ch src = Some r"
    have "owner c ch (sv_CurrentPinId r) = src \<and> c (skill_pinToSourceKey ch src) = None \<and> (\<exists>q \<in> insert pin P. pi_ChainName q = ch \<and> pi_Id q = src \<and> service_op A q = ''create'')"
    proof (cases "ch = pi_ChainName pin \<and> src = pi_Id pin")
      case True
      then have "r = u" using r s' [OF c, of src] by simp
      then show ?thesis using True nm k op by (simp add: owner_def)
    next
      case False
      then have "service_at ?C c ch src = Some r" using r s' [OF c, of src, unfolded if_not_P [OF False]] by simp
      then show ?thesis using so c unfolding sources_ok_def by blast
    qed
    then show "owner c' ch (sv_CurrentPinId r) = src" "c' (skill_pinToSourceKey ch src) = None"
      "\<exists>q \<in> insert pin P. pi_ChainName q = ch \<and> pi_Id q = src \<and> service_op A q = ''create''" using o' [OF c] p' [OF c] by simp_all
  next
    fix ch i src
    assume c: "colon_free ch" and m: "c' (skill_pinToSourceKey ch i) = Some src"
    then have old: "service_at ?C c ch src \<noteq> None" "\<exists>q \<in> P. \<exists>t. pi_ChainName q = ch \<and> pi_Id q = i \<and> service_op A q \<noteq> ''create'' \<and> resolveTargetPinId q = Some t \<and> owner c ch t = src"
      using so p' [OF c] unfolding sources_ok_def by metis+
    show "service_at ?C c' ch src \<noteq> None" using old(1) s' [OF c, of src] by auto
    show "\<exists>q \<in> insert pin P. \<exists>t. pi_ChainName q = ch \<and> pi_Id q = i \<and> service_op A q \<noteq> ''create'' \<and> resolveTargetPinId q = Some t \<and> owner c' ch t = src"
      using old(2) unfolding o' [OF c] by blast
  qed
  moreover have "service_at ?C c' ch src = version_step A ch src (service_at ?C c ch src) pin" if "colon_free ch" for ch src
    using s' [OF that, of src] about op new u by (auto simp: version_step_def next_version_def split: option.split)
  ultimately show ?thesis by blast
qed

lemma version_replaced:
  assumes so: "sources_ok A c P" and con: "consistent A (insert pin P)" and ch: "colon_free (pi_ChainName pin)"
    and about: "about_services A pin" and op: "service_op A pin \<noteq> ''create''" and t: "resolveTargetPinId pin = Some t"
    and p: "service_at (sk_codec A) c (pi_ChainName pin) src0 = Some p" "sv_CurrentPinId p = t" and src0: "owner c (pi_ChainName pin) t = src0"
    and u: "next_version A pin p = Some u" and k: "sv_ChainName u = pi_ChainName pin" "sv_SourceServicePinId u = src0" "sv_CurrentPinId u = pi_Id pin"
    and w: "wrote (sk_codec A) (pi_Id pin) (Some u) c c'"
  shows "sources_ok A c' (insert pin P) \<and> (\<forall>ch src. colon_free ch \<longrightarrow> service_at (sk_codec A) c' ch src = version_step A ch src (service_at (sk_codec A) c ch src) pin)"
proof -
  let ?C = "sk_codec A" and ?ch = "pi_ChainName pin" and ?i = "pi_Id pin"
  have same: "service_op A q = service_op A pin \<and> resolveTargetPinId q = Some t" if "q \<in> P" "pi_ChainName q = ?ch" "pi_Id q = ?i" for q
    using con that t unfolding consistent_def by (metis insert_iff)
  have no_i: "service_at ?C c ?ch ?i = None"
  proof (rule ccontr)
    assume "service_at ?C c ?ch ?i \<noteq> None"
    then obtain q where "q \<in> P" "pi_ChainName q = ?ch" "pi_Id q = ?i" "service_op A q = ''create''" using so ch unfolding sources_ok_def by blast
    then show False using same op by simp
  qed
  then have i0: "?i \<noteq> src0" using p(1) by auto
  have old_i: "src = src0" if mi: "c (skill_pinToSourceKey ?ch ?i) = Some src" for src
  proof -
    obtain q t' where "q \<in> P" "pi_ChainName q = ?ch" "pi_Id q = ?i" "resolveTargetPinId q = Some t'" "owner c ?ch t' = src"
      using so ch mi unfolding sources_ok_def by blast
    then show ?thesis using same [of q] src0 by simp
  qed
  have s': "service_at ?C c' ch x = (if ch = ?ch \<and> x = src0 then Some u else service_at ?C c ch x)"
    and p': "c' (skill_pinToSourceKey ch x) = (if ch = ?ch \<and> x = ?i then Some src0 else c (skill_pinToSourceKey ch x))" if "colon_free ch" for ch x
    using w that k i0 by (auto simp: wrote_def)
  have o': "owner c' ch x = (if ch = ?ch \<and> x = ?i then src0 else owner c ch x)" if "colon_free ch" for ch x using p' [OF that] by (simp add: owner_def)
  have old: "owner c ch (sv_CurrentPinId r) = src" "c (skill_pinToSourceKey ch src) = None" "\<exists>q \<in> P. pi_ChainName q = ch \<and> pi_Id q = src \<and> service_op A q = ''create''"
    if "colon_free ch" "service_at ?C c ch src = Some r" for ch src r using so that unfolding sources_ok_def by blast+
  have "sources_ok A c' (insert pin P)"
    unfolding sources_ok_def
  proof (intro allI impI conjI)
    fix ch src r
    assume c: "colon_free ch" and r: "service_at ?C c' ch src = Some r"
    have "owner c' ch (sv_CurrentPinId r) = src \<and> c' (skill_pinToSourceKey ch src) = None \<and> (\<exists>q \<in> insert pin P. pi_ChainName q = ch \<and> pi_Id q = src \<and> service_op A q = ''create'')"
    proof (cases "ch = ?ch \<and> src = src0")
      case True
      then have "r = u" using r s' [OF c, of src] by simp
      then show ?thesis using True k(3) o' [OF ch, of ?i] p' [OF ch, of src0] i0 old [OF ch p(1)] by auto
    next
      case False
      then have r0: "service_at ?C c ch src = Some r" using r s' [OF c, of src, unfolded if_not_P [OF False]] by simp
      have "\<not> (ch = ?ch \<and> src = ?i)" using r0 no_i by auto
      moreover have "\<not> (ch = ?ch \<and> sv_CurrentPinId r = ?i)"
      proof
        assume a: "ch = ?ch \<and> sv_CurrentPinId r = ?i"
        then have "owner c ?ch ?i = src" using old(1) [OF c r0] by simp
        then show False using a r0 no_i old_i [of src] False by (auto simp: owner_def split: option.splits)
      qed
      ultimately show ?thesis using old [OF c r0] o' [OF c, of "sv_CurrentPinId r"] p' [OF c, of src] by auto
    qed
    then show "owner c' ch (sv_CurrentPinId r) = src" "c' (skill_pinToSourceKey ch src) = None"
      "\<exists>q \<in> insert pin P. pi_ChainName q = ch \<and> pi_Id q = src \<and> service_op A q = ''create''" by blast+
  next
    fix ch i src
    assume c: "colon_free ch" and m: "c' (skill_pinToSourceKey ch i) = Some src"
    have "service_at ?C c ch src \<noteq> None \<and> (\<exists>q \<in> insert pin P. \<exists>t. pi_ChainName q = ch \<and> pi_Id q = i \<and> service_op A q \<noteq> ''create'' \<and> resolveTargetPinId q = Some t \<and> owner c' ch t = src)"
    proof (cases "ch = ?ch \<and> i = ?i")
      case True
      have "t \<noteq> ?i" using t by (auto simp: resolveTargetPinId_def Let_def split: if_splits)
      then have "owner c' ?ch t = src0" using o' [OF ch, of t] src0 by simp
      then show ?thesis using True m p' [OF c, of i] p(1) op t by auto
    next
      case False
      then have m0: "c (skill_pinToSourceKey ch i) = Some src" using m p' [OF c, of i, unfolded if_not_P [OF False]] by simp
      then obtain q t' where q: "q \<in> P" "pi_ChainName q = ch" "pi_Id q = i" "service_op A q \<noteq> ''create''" "resolveTargetPinId q = Some t'" "owner c ch t' = src"
        and ne: "service_at ?C c ch src \<noteq> None" using so c unfolding sources_ok_def by blast
      have "owner c' ch t' = src"
      proof (cases "ch = ?ch \<and> t' = ?i")
        case True
        then show ?thesis using q(6) ne no_i old_i [of src] o' [OF c, of t'] by (auto simp: owner_def split: option.splits)
      next
        case False
        then show ?thesis using q(6) o' [OF c, of t', unfolded if_not_P [OF False]] by simp
      qed
      then show ?thesis using q ne by blast
    qed
    then show "service_at ?C c' ch src \<noteq> None"
      "\<exists>q \<in> insert pin P. \<exists>t. pi_ChainName q = ch \<and> pi_Id q = i \<and> service_op A q \<noteq> ''create'' \<and> resolveTargetPinId q = Some t \<and> owner c' ch t = src"
      using s' [OF c, of src] by (simp_all split: if_splits)
  qed
  moreover have "service_at ?C c' ch src = version_step A ch src (service_at ?C c ch src) pin" if c: "colon_free ch" for ch src
  proof (cases "ch = ?ch \<and> src = src0")
    case True
    then show ?thesis using s' [OF c, of src] p t u about by (simp add: version_step_def)
  next
    case False
    have "sv_CurrentPinId r \<noteq> t" if "service_at ?C c ch src = Some r" "ch = ?ch" for r using old(1) [OF c that(1)] that(2) src0 False by auto
    then show ?thesis using s' [OF c, of src, unfolded if_not_P [OF False]] t op by (auto simp: version_step_def first_version_def split: option.split)
  qed
  ultimately show ?thesis by blast
qed


subsection \<open>Runs\<close>

text \<open>One delivery: a pin with the profiles of the moment and the flag of the mempool.\<close>

definition skill_step :: "('s, 'f) skill_env \<Rightarrow> 's \<Rightarrow> skill_ProfileLookup option \<times> PinInscription \<times> bool \<Rightarrow> 's" where
  "skill_step A s d = (let (L, pin, mempool) = d in snd ((if mempool then skill_HandleMempoolPin else skill_HandleBlockPin) A L pin s))"

text \<open>A pin whose chain can stand in keys, and that does not name itself as its target.\<close>

definition skill_pin_ok :: "PinInscription \<Rightarrow> bool" where
  "skill_pin_ok pin \<longleftrightarrow> colon_free (pi_ChainName pin) \<and> pinTargetFromPath (pi_Path pin) \<noteq> pi_Id pin"

definition pin_of :: "skill_ProfileLookup option \<times> PinInscription \<times> bool \<Rightarrow> PinInscription" where
  "pin_of d = fst (snd d)"

lemma sources_ok_more: "sources_ok A c P \<Longrightarrow> P \<subseteq> Q \<Longrightarrow> sources_ok A c Q"
  unfolding sources_ok_def by (meson subset_iff)

lemma sources_ok_same:
  assumes so: "sources_ok A c P" and s: "\<forall>ch x. colon_free ch \<longrightarrow> service_at (sk_codec A) c' ch x = service_at (sk_codec A) c ch x \<and> c' (skill_pinToSourceKey ch x) = c (skill_pinToSourceKey ch x)"
  shows "sources_ok A c' P"
proof -
  have "owner c' ch x = owner c ch x" if "colon_free ch" for ch x using s that by (simp add: owner_def)
  then show ?thesis using so s unfolding sources_ok_def by simp
qed

context skill_store
begin

lemma skill_step_eq: "skill_step A s d = snd (skill_processPin A (fst d) (pin_of d) s)"
  by (cases d) (auto simp: skill_step_def skill_HandleMempoolPin_def skill_HandleBlockPin_def pin_of_def split: prod.split option.split)

lemma version_effect:
  assumes ok: "skills_ok s" and so: "sources_ok A (db s) P" and con: "consistent A (insert pin P)" and pin: "skill_pin_ok pin"
  shows "\<exists>s'. skill_processPin A L pin s = (None, s') \<and> skills_ok s' \<and> sources_ok A (db s') (insert pin P)
    \<and> (\<forall>ch src. colon_free ch \<longrightarrow> service_at (sk_codec A) (db s') ch src = version_step A ch src (service_at (sk_codec A) (db s) ch src) pin)"
proof -
  let ?C = "sk_codec A" and ?ch = "pi_ChainName pin"
  have ch: "colon_free ?ch" using pin by (simp add: skill_pin_ok_def)
  obtain s' where s': "skill_processPin A L pin s = (None, s')" "skills_ok s'" "wrote ?C (pi_Id pin) (written A (db s) pin) (db s) (db s')"
    using step_effect [OF ok ch] pin by (auto simp: skill_pin_ok_def)
  have cur: "owner (db s) ch (sv_CurrentPinId r) = src" if "colon_free ch" "service_at ?C (db s) ch src = Some r" for ch src r
    using so that unfolding sources_ok_def by blast
  have key: "sv_ChainName r = ch \<and> sv_SourceServicePinId r = src" if "colon_free ch" "service_at ?C (db s) ch src = Some r" for ch src r
    using that ok service_found [of "sk_codec A" "db s" ch src] by (fastforce simp: skills_ok_def service_at_def bind_eq_Some_conv)
  have "sources_ok A (db s') (insert pin P) \<and> (\<forall>ch src. colon_free ch \<longrightarrow> service_at ?C (db s') ch src = version_step A ch src (service_at ?C (db s) ch src) pin)"
  proof (cases "written A (db s) pin")
    case None
    have same: "\<forall>ch x. colon_free ch \<longrightarrow> service_at ?C (db s') ch x = service_at ?C (db s) ch x \<and> db s' (skill_pinToSourceKey ch x) = db s (skill_pinToSourceKey ch x)"
      using s'(3) None by (simp add: wrote_def)
    have "version_step A ch src (service_at ?C (db s) ch src) pin = service_at ?C (db s) ch src" if c: "colon_free ch" for ch src
    proof (cases "service_at ?C (db s) ch src")
      case r: None
      then show ?thesis using None by (auto simp: version_step_def written_def first_version_def split: if_splits)
    next
      case (Some p)
      have "next_version A pin p = None" if a: "about_services A pin" "ch = ?ch" "resolveTargetPinId pin = Some (sv_CurrentPinId p)"
      proof (cases "service_op A pin = ''create''")
        case False
        then show ?thesis using None a cur [OF c Some] Some by (auto simp: written_def replaced_def split: if_splits)
      qed (simp add: next_version_def)
      then show ?thesis using Some by (auto simp: version_step_def)
    qed
    then show ?thesis using same sources_ok_more [OF sources_ok_same [OF so same] subset_insertI] by simp
  next
    case (Some u)
    then have about: "about_services A pin" by (auto simp: written_def split: if_splits)
    show ?thesis
    proof (cases "service_op A pin = ''create''")
      case True
      then show ?thesis using Some about s'(3) version_created [OF so con ch about True] by (auto simp: written_def split: if_splits)
    next
      case False
      obtain t p where t: "resolveTargetPinId pin = Some t" and p: "service_at ?C (db s) ?ch (owner (db s) ?ch t) = Some p" "sv_CurrentPinId p = t" "next_version A pin p = Some u"
        using Some False about by (auto simp: written_def replaced_def split: option.splits if_splits)
      have k: "sv_ChainName u = ?ch" "sv_SourceServicePinId u = owner (db s) ?ch t" "sv_CurrentPinId u = pi_Id pin"
        using p(3) key [OF ch p(1)] by (auto simp: next_version_def version_keys split: if_splits)
      show ?thesis by (rule version_replaced [OF so con ch about False t p(1,2) refl p(3) k]) (use s'(3) Some in simp)
    qed
  qed
  then show ?thesis using s'(1,2) by blast
qed

lemma run_versions:
  assumes ok: "skills_ok s" and e: "db s = Map.empty" and pins: "\<forall>d \<in> set ds. skill_pin_ok (pin_of d)" and con: "consistent A (pin_of ` set ds)"
  shows "skills_ok (foldl (skill_step A) s ds) \<and> sources_ok A (db (foldl (skill_step A) s ds)) (pin_of ` set ds)
    \<and> (\<forall>ch src. colon_free ch \<longrightarrow> service_at (sk_codec A) (db (foldl (skill_step A) s ds)) ch src = foldl (version_step A ch src) None (map pin_of ds))"
  using pins con
proof (induction ds rule: rev_induct)
  case Nil
  then show ?case using ok sources_ok_empty by (simp add: e service_at_def)
next
  case (snoc d ds)
  let ?s = "foldl (skill_step A) s ds"
  have "consistent A (pin_of ` set ds)" by (rule consistent_less [OF snoc.prems(2)]) auto
  then have IH: "skills_ok ?s" "sources_ok A (db ?s) (pin_of ` set ds)"
    "\<forall>ch src. colon_free ch \<longrightarrow> service_at (sk_codec A) (db ?s) ch src = foldl (version_step A ch src) None (map pin_of ds)"
    using snoc.IH snoc.prems(1) by auto
  have "consistent A (insert (pin_of d) (pin_of ` set ds))" "skill_pin_ok (pin_of d)" using snoc.prems by simp_all
  from version_effect [OF IH(1,2) this, of "fst d"] show ?case using IH(3) skill_step_eq [of ?s d] by auto
qed

end


lemma version_revoked:
  "sv_Operation r = ''revoke'' \<Longrightarrow> \<exists>r'. version_step A ch src (Some r) pin = Some r' \<and> sv_Operation r' = ''revoke'' \<and> sv_CreatedAt r' = sv_CreatedAt r"
  by (auto simp: version_step_def next_version_def service_revoked_def service_modified_def Let_def split: option.split)

lemma versions_revoked:
  "sv_Operation r = ''revoke'' \<Longrightarrow> \<exists>r'. foldl (version_step A ch src) (Some r) pins = Some r' \<and> sv_Operation r' = ''revoke'' \<and> sv_CreatedAt r' = sv_CreatedAt r"
proof (induction pins arbitrary: r)
  case (Cons pin pins)
  obtain r1 where "version_step A ch src (Some r) pin = Some r1" "sv_Operation r1 = ''revoke''" "sv_CreatedAt r1 = sv_CreatedAt r"
    using version_revoked [OF Cons.prems] by metis
  then show ?case using Cons.IH [of r1] by simp
qed simp

lemma decoded_keys:
  assumes "\<forall>k raw. c k = Some raw \<and> prefix p k \<longrightarrow> (\<exists>r. u raw = Some r \<and> k = key r)" and fin: "finite {k. c k \<noteq> None \<and> prefix p k}"
  shows "distinct (map key (decoded u (entries_under c p)))"
proof -
  have "map key (decoded u kvs) = map fst kvs" if "\<forall>kv \<in> set kvs. \<exists>r. u (snd kv) = Some r \<and> fst kv = key r" for kvs
    using that by (induction kvs) (auto simp: decoded_def List.map_filter_simps)
  moreover have "\<forall>kv \<in> set (entries_under c p). \<exists>r. u (snd kv) = Some r \<and> fst kv = key r"
  proof
    fix kv
    assume "kv \<in> set (entries_under c p)"
    then obtain raw where "kv = (fst kv, raw)" "c (fst kv) = Some raw" "prefix p (fst kv)" using fin by (auto simp: entries_under_def)
    then show "\<exists>r. u (snd kv) = Some r \<and> fst kv = key r" using assms(1) by (metis snd_conv)
  qed
  moreover have "distinct (map fst (entries_under c p))" by (simp add: entries_under_def comp_def)
  ultimately show ?thesis by simp
qed

lemma ratings_distinct:
  assumes "ratings_ok P C c" and fin: "finite {k. c k \<noteq> None \<and> prefix ''rating_pin:'' k}"
  shows "distinct (map (\<lambda>r. (rpin_ChainName r, rpin_PinId r)) (ratings P c))"
proof -
  have "distinct (map (\<lambda>r. ratingPinKey (rpin_ChainName r) (rpin_PinId r)) (ratings P c))"
    unfolding ratings_def by (rule decoded_keys [OF _ fin]) (use assms(1) in \<open>auto simp: ratings_ok_def\<close>)
  then have "distinct (map (\<lambda>(a, b). ratingPinKey a b) (map (\<lambda>r. (rpin_ChainName r, rpin_PinId r)) (ratings P c)))" by (simp add: comp_def)
  then show ?thesis unfolding distinct_map by blast
qed

subsection \<open>The module on the memory store\<close>

definition int_text :: "int \<Rightarrow> string" where
  "int_text i = replicate (nat i) CHR ''+'' @ replicate (nat (- i)) CHR ''-''"

definition text_int :: "string \<Rightarrow> int" where
  "text_int t = int (length (filter (\<lambda>c. c = CHR ''+'') t)) - int (length (filter (\<lambda>c. c = CHR ''-'') t))"

lemma text_int_text [simp]: "text_int (int_text i) = i"
  by (simp add: text_int_def int_text_def)

definition service_fields :: "ServiceRecord \<Rightarrow> string list" where
  "service_fields r = [sv_SourceServicePinId r, sv_CurrentPinId r, sv_ChainName r, sv_ProviderMetaId r, sv_ProviderGlobalMetaId r, sv_ProviderAddress r, sv_ServiceName r,
     sv_DisplayName r, sv_Description r, sv_ServiceIcon r, sv_ProviderMetaBot r, sv_ProviderSkill r, sv_Price r, sv_Currency r, sv_PaymentChain r, sv_SettlementKind r,
     sv_MRC20Ticker r, sv_MRC20Id r, sv_OutputType r, sv_PaymentAddress r, int_text (sv_Status r), sv_Operation r, flag (sv_Disabled r), int_text (sv_CreatedAt r),
     int_text (sv_UpdatedAt r)]"

definition service_from :: "string list \<Rightarrow> ServiceRecord" where
  "service_from f = \<lparr>sv_SourceServicePinId = f ! 0, sv_CurrentPinId = f ! 1, sv_ChainName = f ! 2, sv_ProviderMetaId = f ! 3, sv_ProviderGlobalMetaId = f ! 4,
     sv_ProviderAddress = f ! 5, sv_ServiceName = f ! 6, sv_DisplayName = f ! 7, sv_Description = f ! 8, sv_ServiceIcon = f ! 9, sv_ProviderMetaBot = f ! 10,
     sv_ProviderSkill = f ! 11, sv_Price = f ! 12, sv_Currency = f ! 13, sv_PaymentChain = f ! 14, sv_SettlementKind = f ! 15, sv_MRC20Ticker = f ! 16, sv_MRC20Id = f ! 17,
     sv_OutputType = f ! 18, sv_PaymentAddress = f ! 19, sv_Status = text_int (f ! 20), sv_Operation = f ! 21, sv_Disabled = (f ! 22 \<noteq> ''''), sv_CreatedAt = text_int (f ! 23),
     sv_UpdatedAt = text_int (f ! 24)\<rparr>"

definition rating_fields :: "RatingPin \<Rightarrow> string list" where
  "rating_fields r = [rpin_PinId r, rpin_ChainName r, rpin_RaterMetaId r, rpin_RaterGlobalMetaId r, rpin_RaterAddress r, rpin_ServiceID r, rpin_SourceServicePinId r,
     rpin_ServicePaidTx r, int_text (rpin_Rate r), rpin_Comment r, int_text (rpin_Timestamp r)]"

definition rating_from :: "string list \<Rightarrow> RatingPin" where
  "rating_from f = \<lparr>rpin_PinId = f ! 0, rpin_ChainName = f ! 1, rpin_RaterMetaId = f ! 2, rpin_RaterGlobalMetaId = f ! 3, rpin_RaterAddress = f ! 4, rpin_ServiceID = f ! 5,
     rpin_SourceServicePinId = f ! 6, rpin_ServicePaidTx = f ! 7, rpin_Rate = text_int (f ! 8), rpin_Comment = f ! 9, rpin_Timestamp = text_int (f ! 10)\<rparr>"

definition agg_fields :: "RatingAggregate \<Rightarrow> string list" where
  "agg_fields a = [ra_ChainName a, ra_SourceServicePinId a, int_text (ra_Sum a), int_text (ra_Count a)]"

definition agg_from :: "string list \<Rightarrow> RatingAggregate" where
  "agg_from f = \<lparr>ra_ChainName = f ! 0, ra_SourceServicePinId = f ! 1, ra_Sum = text_int (f ! 2), ra_Count = text_int (f ! 3)\<rparr>"

text \<open>A codec from a list of fields.\<close>

definition list_codec :: "('m \<Rightarrow> string list) \<Rightarrow> nat \<Rightarrow> (string list \<Rightarrow> 'm) \<Rightarrow> 'm codec" where
  "list_codec fs n from = \<lparr>cd_Marshal = (\<lambda>m. Inr (concat (map put_str (fs m)))), cd_Unmarshal = (\<lambda>raw. Some (from (get_strs n raw)))\<rparr>"

lemma list_codec_roundtrip:
  assumes "length (fs m) = n" and "from (fs m) = m"
  shows "\<exists>raw. cd_Marshal (list_codec fs n from) m = Inr raw \<and> cd_Unmarshal (list_codec fs n from) raw = Some m"
  using get_strs_put [of "fs m"] assms by (simp add: list_codec_def)

definition demo_floats :: "int float_lib" where
  "demo_floats = \<lparr>fl_of_int = (\<lambda>i. i), fl_add = (+), fl_mult = (*), fl_div = (div), fl_eq = (=), fl_less = (<), fl_Parse = Atoi\<rparr>"

text \<open>Payloads of the example: the body of a service pin is its name, that of a rating pin the rated service, with rate 5.\<close>

definition demo_summary_of :: "string \<Rightarrow> ServiceContentSummary" where
  "demo_summary_of b = \<lparr>ss_ServiceName = b, ss_DisplayName = '''', ss_Description = '''', ss_ServiceIcon = '''', ss_ProviderMetaBot = '''', ss_ProviderSkill = '''',
     ss_Price = '''', ss_Currency = '''', ss_PaymentChain = '''', ss_SettlementKind = '''', ss_MRC20Ticker = '''', ss_MRC20Id = '''', ss_OutputType = '''',
     ss_PaymentAddress = '''', ss_Disabled = False\<rparr>"

definition demo_skills :: "((mem_world, string) store_state, int) skill_env" where
  "demo_skills = \<lparr>sk_U = plain_unicode, sk_K = PebbleStore_kv mem_pebble, sk_codec = list_codec service_fields 25 service_from,
     sk_pins = list_codec rating_fields 11 rating_from, sk_aggs = list_codec agg_fields 4 agg_from,
     sk_summary = (\<lambda>b. Some (demo_summary_of b)),
     sk_rate = (\<lambda>b. Some \<lparr>rt_ServiceID = b, rt_ServicePaidTx = '''', rt_Rate = 5, rt_Comment = ''''\<rparr>),
     sk_F = demo_floats, sk_url = (\<lambda>u. None), sk_cursor = (\<lambda>b. Atoi (takeWhile (\<lambda>c. c \<noteq> CHR ''}'') (drop 5 b))), sk_asset = None\<rparr>"

interpretation demo_skills: skill_store "PebbleStore_kv mem_pebble" "filepath_Join ''data''" "\<lambda>st. mem_disk (snd st)"
  "store_inv (\<lambda>h. h) (\<lambda>w h. True) ''data''" "\<lambda>st ns. PebbleStore_GetDB ns st \<noteq> None" "PebbleStore_DeleteByPrefix mem_pebble" demo_skills
proof (intro skill_store.intro memd.kvd.kv_deleting_axioms skill_store_axioms.intro)
  show "filepath_Join ''data'' skill_ns \<noteq> filepath_Join ''data'' rate_ns" by code_simp
  fix r rp a
  show "\<exists>raw. cd_Marshal (sk_codec demo_skills) r = Inr raw \<and> cd_Unmarshal (sk_codec demo_skills) raw = Some r"
    using list_codec_roundtrip [of service_fields r 25 service_from] by (simp add: demo_skills_def service_fields_def service_from_def)
  show "\<exists>raw. cd_Marshal (sk_pins demo_skills) rp = Inr raw \<and> cd_Unmarshal (sk_pins demo_skills) raw = Some rp"
    using list_codec_roundtrip [of rating_fields rp 11 rating_from] by (simp add: demo_skills_def rating_fields_def rating_from_def)
  show "\<exists>raw. cd_Marshal (sk_aggs demo_skills) a = Inr raw \<and> cd_Unmarshal (sk_aggs demo_skills) raw = Some a"
    using list_codec_roundtrip [of agg_fields a 4 agg_from] by (simp add: demo_skills_def agg_fields_def agg_from_def)
qed (simp add: demo_skills_def)

definition demo_skill_state :: "(mem_world, string) store_state" where
  "demo_skill_state = (NewPebbleStore ''data'', \<lambda>_. [])"

lemma demo_skills_empty: "mem_disk (snd demo_skill_state) d = Map.empty"
  by (simp add: demo_skill_state_def mem_disk_def)

lemma demo_skills_ok: "demo_skills.skills_ok demo_skill_state"
  unfolding demo_skills.skills_ok_def demo_skills_empty by (simp add: services_ok_empty ratings_ok_empty demo_skill_state_def mem.inv_new)

definition demo_service :: "string \<Rightarrow> string \<Rightarrow> string \<Rightarrow> string \<Rightarrow> PinInscription" where
  "demo_service i op path body =
     \<lparr>pi_Id = i, pi_Number = 0, pi_Path = path, pi_OriginalPath = '''', pi_Operation = op, pi_ContentBody = body, pi_ContentSummary = '''',
      pi_ContentType = ''text/plain'', pi_Creator = '''', pi_CreateAddress = '''', pi_CreateMetaId = '''', pi_MetaId = ''alice'', pi_GlobalMetaId = '''',
      pi_Address = '''', pi_ChainName = ''mvc'', pi_GenesisTransaction = '''', pi_GenesisHeight = 1, pi_Timestamp = 5, pi_Output = '''',
      pi_IsTransfered = False, pi_OriginalId = '''', pi_Host = ''''\<rparr>"

lemma demo_service_sel: "pi_Id (demo_service i op path body) = i" "pi_Path (demo_service i op path body) = path" "pi_Operation (demo_service i op path body) = op"
  "pi_ContentBody (demo_service i op path body) = body" "pi_ChainName (demo_service i op path body) = ''mvc''" "pi_OriginalId (demo_service i op path body) = ''''"
  "pi_Timestamp (demo_service i op path body) = 5"
  by (simp_all add: demo_service_def)

definition demo_deliveries :: "(skill_ProfileLookup option \<times> PinInscription \<times> bool) list" where
  "demo_deliveries = [(None, demo_service ''ai0'' ''create'' ''/protocols/skill-service'' ''paint'', True), (None, demo_service ''bi0'' ''modify'' ''/protocols/skill-service@ai0'' ''draw'', False),
     (None, demo_service ''ci0'' ''create'' ''/protocols/skill-service-rate'' ''bi0'', True), (None, demo_service ''ci0'' ''create'' ''/protocols/skill-service-rate'' ''bi0'', False),
     (None, demo_service ''di0'' ''revoke'' ''@bi0'' '''', False)]"

lemma demo_deliveries_ok: "\<forall>d \<in> set demo_deliveries. skill_pin_ok (pin_of d)" "consistent demo_skills (pin_of ` set demo_deliveries)"
proof -
  have t: "pinTargetFromPath ''/protocols/skill-service'' = ''''" "pinTargetFromPath ''/protocols/skill-service@ai0'' = ''ai0''"
    "pinTargetFromPath ''/protocols/skill-service-rate'' = ''''" "pinTargetFromPath ''@bi0'' = ''bi0''" by code_simp+
  show "\<forall>d \<in> set demo_deliveries. skill_pin_ok (pin_of d)" by (simp add: demo_deliveries_def demo_service_def skill_pin_ok_def pin_of_def t colon_free_def)
  show "consistent demo_skills (pin_of ` set demo_deliveries)" by (simp add: consistent_def demo_deliveries_def demo_service_def pin_of_def)
qed


subsection \<open>Properties\<close>


lemma demo_texts:
  "skill_protocolPathFromPinPath plain_unicode ''/protocols/skill-service'' = PathSkillService" "skill_protocolPathFromPinPath plain_unicode ''/protocols/skill-service@ai0'' = PathSkillService"
  "skill_protocolPathFromPinPath plain_unicode ''/protocols/skill-service-rate'' = PathSkillServiceRate" "skill_protocolPathFromPinPath plain_unicode ''@bi0'' = ''@bi0''"
  "ToLower plain_unicode (TrimSpace ''create'') = ''create''" "ToLower plain_unicode (TrimSpace ''modify'') = ''modify''" "ToLower plain_unicode (TrimSpace ''revoke'') = ''revoke''"
  "TrimSpace ''paint'' = ''paint''" "TrimSpace ''draw'' = ''draw''" "TrimSpace '''' = ''''" "TrimSpace ''alice'' = ''alice''"
  by code_simp+

definition demo_drawing :: ServiceRecord where
  "demo_drawing = newServiceRecord demo_skills (demo_service ''di0'' ''revoke'' '''' '''') (demo_summary_of ''draw'') ''ai0''"

lemma demo_drawing_sel: "sv_Operation demo_drawing = ''revoke''" "sv_CreatedAt demo_drawing = 5"
  by (simp_all add: demo_drawing_def newServiceRecord_def demo_service_def demo_skills_def demo_texts)

lemma demo_versions: "foldl (version_step demo_skills ''mvc'' ''ai0'') None (map pin_of demo_deliveries) = Some demo_drawing"
proof -
  let ?v = "version_step demo_skills ''mvc'' ''ai0''"
  have paths: "PathSkillService \<noteq> PathSkillServiceRate" "''@bi0'' \<noteq> PathSkillService" "''@bi0'' \<noteq> PathSkillServiceRate" by (simp_all add: PathSkillService_def PathSkillServiceRate_def)
  have U: "sk_U demo_skills = plain_unicode" by (simp add: demo_skills_def)
  have t: "pinTargetFromPath ''/protocols/skill-service'' = ''''" "pinTargetFromPath ''/protocols/skill-service@ai0'' = ''ai0''" "pinTargetFromPath ''@bi0'' = ''bi0''" by code_simp+
  have dec: "decodeServiceSummary demo_skills (demo_service i op p b) = Some (demo_summary_of b)" if "b = ''paint'' \<or> b = ''draw''" for i op p b
    using that by (auto simp: decodeServiceSummary_def demo_service_sel demo_skills_def demo_texts demo_summary_of_def)
  note defs = version_step_def about_services_def service_op_def first_version_def next_version_def resolveTargetPinId_def Let_def U demo_texts t isVersionOperation_def paths demo_service_sel dec
  note sels = demo_service_def newServiceRecord_def statusFromPin_def
  let ?r1 = "newServiceRecord demo_skills (demo_service ''ai0'' ''create'' '''' '''') (demo_summary_of ''paint'') ''ai0''"
  let ?r2 = "newServiceRecord demo_skills (demo_service ''bi0'' ''modify'' '''' '''') (demo_summary_of ''draw'') ''ai0''"
  have 1: "?v None (demo_service ''ai0'' ''create'' ''/protocols/skill-service'' ''paint'') = Some ?r1"
    by (simp add: defs) (simp add: sels U demo_texts)
  have 2: "?v (Some ?r1) (demo_service ''bi0'' ''modify'' ''/protocols/skill-service@ai0'' ''draw'') = Some ?r2"
    by (simp add: defs service_modified_def) (simp add: sels U demo_texts)
  have 3: "?v r (demo_service ''ci0'' ''create'' ''/protocols/skill-service-rate'' ''bi0'') = r" for r by (simp add: defs paths(1) [symmetric])
  have 4: "?v (Some ?r2) (demo_service ''di0'' ''revoke'' ''@bi0'' '''') = Some demo_drawing"
    by (simp add: defs service_revoked_def sels demo_drawing_def)
  show ?thesis by (simp add: demo_deliveries_def pin_of_def 1 2 3 4)
qed


text \<open>C29: a revoked service stays revoked: whatever pins follow, its record keeps the operation \<open>revoke\<close>, so it is never shown by default again, and its time of
  creation.\<close>

theorem revoked_service_hidden:
  fixes A :: "('s, 'f) skill_env"
  assumes store: "skill_store K loc content ok opened dbp A" and s: "skill_store.skills_ok loc content ok A s" "content s (loc skill_ns) = Map.empty"
    and pins: "\<forall>d \<in> set (ds @ ds'). skill_pin_ok (pin_of d)" "consistent A (pin_of ` set (ds @ ds'))" and s1: "s1 = foldl (skill_step A) s ds" and s2: "s2 = foldl (skill_step A) s1 ds'"
    and ch: "colon_free ch" "ch \<noteq> ''''" "src \<noteq> ''''" and r: "fst (loadService A ch src s1) = Inr (Some r)" "sv_Operation r = ''revoke''"
  shows "\<exists>r'. fst (loadService A ch src s2) = Inr (Some r') \<and> \<not> IsVisibleDefault r' \<and> sv_CreatedAt r' = sv_CreatedAt r"
proof -
  have load: "fst (loadService A ch src (foldl (skill_step A) s xs)) = Inr (foldl (version_step A ch src) None (map pin_of xs))"
    if p: "\<forall>d \<in> set xs. skill_pin_ok (pin_of d)" "consistent A (pin_of ` set xs)" for xs
  proof -
    note v = skill_store.run_versions [OF store s p]
    obtain st where "loadService A ch src (foldl (skill_step A) s xs) = (Inr (service_at (sk_codec A) (content (foldl (skill_step A) s xs) (loc skill_ns)) ch src), st)"
      by (rule skill_store.load_db [OF store _ ch, of "foldl (skill_step A) s xs"]) (use v in blast)
    then show ?thesis using v ch(1) by simp
  qed
  have "consistent A (pin_of ` set ds)" by (rule consistent_less [OF pins(2)]) auto
  then have 1: "foldl (version_step A ch src) None (map pin_of ds) = Some r" using load [of ds] pins(1) r(1) s1 by simp
  have 2: "fst (loadService A ch src s2) = Inr (foldl (version_step A ch src) (Some r) (map pin_of ds'))" using load [OF pins] 1 by (simp add: s1 s2)
  obtain r' where "foldl (version_step A ch src) (Some r) (map pin_of ds') = Some r'" "sv_Operation r' = ''revoke''" "sv_CreatedAt r' = sv_CreatedAt r"
    using versions_revoked [OF r(2)] by blast
  then show ?thesis using 2 by (simp add: IsVisibleDefault_def)
qed

theorem revoked_service_hidden_witness:
  "\<exists>r'. fst (loadService demo_skills ''mvc'' ''ai0'' (foldl (skill_step demo_skills) (foldl (skill_step demo_skills) demo_skill_state demo_deliveries)
      [(None, demo_service ''ei0'' ''modify'' ''/protocols/skill-service@di0'' ''sing'', False)])) = Inr (Some r') \<and> \<not> IsVisibleDefault r' \<and> sv_CreatedAt r' = 5"
proof -
  let ?more = "[(None, demo_service ''ei0'' ''modify'' ''/protocols/skill-service@di0'' ''sing'', False)] :: (skill_ProfileLookup option \<times> PinInscription \<times> bool) list"
  have t: "pinTargetFromPath ''/protocols/skill-service@di0'' = ''di0''" by code_simp
  have p: "\<forall>d \<in> set (demo_deliveries @ ?more). skill_pin_ok (pin_of d)"
    using demo_deliveries_ok(1) by (simp add: skill_pin_ok_def pin_of_def demo_service_def t colon_free_def)
  have c: "consistent demo_skills (pin_of ` set (demo_deliveries @ ?more))" by (simp add: consistent_def demo_deliveries_def demo_service_def pin_of_def)
  have l: "fst (loadService demo_skills ''mvc'' ''ai0'' (foldl (skill_step demo_skills) demo_skill_state demo_deliveries)) = Inr (Some demo_drawing)"
  proof -
    note v = demo_skills.run_versions [OF demo_skills_ok demo_skills_empty demo_deliveries_ok]
    obtain st where "loadService demo_skills ''mvc'' ''ai0'' (foldl (skill_step demo_skills) demo_skill_state demo_deliveries)
      = (Inr (service_at (sk_codec demo_skills) (mem_disk (snd (foldl (skill_step demo_skills) demo_skill_state demo_deliveries)) (filepath_Join ''data'' skill_ns)) ''mvc'' ''ai0''), st)"
      by (rule demo_skills.load_db [of "foldl (skill_step demo_skills) demo_skill_state demo_deliveries" "''mvc''" "''ai0''"]) (use v in \<open>auto simp: colon_free_def\<close>)
    then show ?thesis using v demo_versions by (simp add: colon_free_def)
  qed
  show ?thesis
    using revoked_service_hidden [OF demo_skills.skill_store_axioms demo_skills_ok demo_skills_empty p c refl refl _ _ _ l demo_drawing_sel(1)] demo_drawing_sel(2) by (simp add: colon_free_def)
qed




end
