(* ===== verification/SkillList.thy ===== *)
theory SkillList
  imports SkillChain
begin

text \<open>
  What \<open>internal/aggregator/skillservice\<close> shows: references to assets (\<open>asset.go\<close>), payment data (\<open>payment.go\<close>), the list with its filters, orders and cursors and
  the services of a provider's homepage (\<open>list.go\<close>), details (\<open>detail.go\<close>) and the handlers (\<open>api.go\<close>).

  \<open>sort.SliceStable\<close> is insertion from the left: an element moves left while it is less than its neighbour. For blocks of up to twenty elements this is what
  it does, and merging the blocks gives the same list whenever the comparison comes from a total preorder, strict or not.
\<close>

subsection \<open>Assets\<close>

definition skill_content_url :: "('s, 'f) skill_env \<Rightarrow> string \<Rightarrow> string \<Rightarrow> string \<Rightarrow> bool" where
  "skill_content_url A host p asset = (case sk_url A (TrimSpace asset) of None \<Rightarrow> False | Some (h, path) \<Rightarrow> EqualFold (sk_U A) h host \<and> HasPrefix path p)"

definition skill_isLegacyManAPIContentURL :: "('s, 'f) skill_env \<Rightarrow> string \<Rightarrow> bool" where
  "skill_isLegacyManAPIContentURL A asset = skill_content_url A ''manapi.metaid.io'' ''/content/'' asset"

definition skill_isFileIndexerContentURL :: "('s, 'f) skill_env \<Rightarrow> string \<Rightarrow> bool" where
  "skill_isFileIndexerContentURL A asset = skill_content_url A ''file.metaid.io'' ''/metafile-indexer/content/'' asset"

definition assetIDFromContentURL :: "('s, 'f) skill_env \<Rightarrow> string \<Rightarrow> string" where
  "assetIDFromContentURL A asset = (case sk_url A (TrimSpace asset) of None \<Rightarrow> '''' | Some (h, path) \<Rightarrow> TrimSpace (path_end path))"

definition NewAssetResolver :: "string \<Rightarrow> string" where
  "NewAssetResolver baseURL = TrimRight CHR ''/'' (TrimSpace baseURL)"

definition joinID :: "string \<Rightarrow> string \<Rightarrow> string" where
  "joinID baseURL id0 = (let i = TrimLeft CHR ''/'' (TrimSpace id0) in if i = '''' then '''' else if baseURL = '''' then i else baseURL @ ''/'' @ i)"

definition asset_Resolve :: "('s, 'f) skill_env \<Rightarrow> string \<Rightarrow> string \<Rightarrow> string" where
  "asset_Resolve A baseURL asset0 =
     (let asset = TrimSpace asset0; lower = ToLower (sk_U A) asset
      in if asset = '''' then ''''
         else if skill_isLegacyManAPIContentURL A asset \<or> skill_isFileIndexerContentURL A asset then joinID baseURL (assetIDFromContentURL A asset)
         else if HasPrefix lower ''http://'' \<or> HasPrefix lower ''https://'' then asset
         else if HasPrefix lower ''metafile://'' then joinID baseURL (drop 11 asset)
         else if HasPrefix lower ''metafile:'' then joinID baseURL (drop 9 asset)
         else if HasPrefix asset ''/content/'' then joinID baseURL (drop 9 asset)
         else joinID baseURL asset)"

definition ResolveAsset :: "('s, 'f) skill_env \<Rightarrow> string \<Rightarrow> string" where
  "ResolveAsset A asset = (case sk_asset A of None \<Rightarrow> asset | Some baseURL \<Rightarrow> asset_Resolve A baseURL asset)"

subsection \<open>Payment\<close>

record paymentMetadata =
  pm_currency :: string
  pm_settlementKind :: string
  pm_paymentChain :: string
  pm_paymentAddress :: string
  pm_mrc20Ticker :: "string option"
  pm_mrc20Id :: "string option"

definition normaliseDisplayCurrency :: "unicode \<Rightarrow> string \<Rightarrow> string" where
  "normaliseDisplayCurrency U v = (let currency = ToUpper U (TrimSpace v) in if currency = ''MVC'' \<or> currency = ''MICROVISIONCHAIN'' then ''SPACE'' else currency)"

definition normaliseSettlementKind :: "unicode \<Rightarrow> string \<Rightarrow> string \<Rightarrow> string \<Rightarrow> string \<Rightarrow> string" where
  "normaliseSettlementKind U v currency mrc20Ticker mrc20Id =
     (let raw = ToLower U (TrimSpace v)
      in if raw = ''mrc20'' \<or> HasSuffix currency ''-MRC20'' \<or> currency = ''MRC20'' \<or> TrimSpace mrc20Ticker \<noteq> '''' \<or> TrimSpace mrc20Id \<noteq> '''' then ''mrc20''
         else if raw = ''fiat'' then ''fiat'' else ''native'')"

definition defaultPaymentChain :: "unicode \<Rightarrow> string \<Rightarrow> string \<Rightarrow> string" where
  "defaultPaymentChain U settlementKind currency =
     (if settlementKind = ''mrc20'' then ''btc''
      else if settlementKind = ''fiat'' then ''''
      else
        (let c = ToUpper U (TrimSpace currency)
         in if c = ''BTC'' then ''btc'' else if c = ''DOGE'' then ''doge'' else if c = ''OPCAT'' then ''opcat''
            else if c = ''SPACE'' \<or> c = ''MVC'' \<or> c = ''MICROVISIONCHAIN'' then ''mvc'' else ''''))"

definition isPositivePrice :: "('s, 'f) skill_env \<Rightarrow> string \<Rightarrow> bool" where
  "isPositivePrice A v = (case fl_Parse (sk_F A) (TrimSpace v) of None \<Rightarrow> False | Some price \<Rightarrow> fl_less (sk_F A) (fl_of_int (sk_F A) 0) price)"

definition normalisePaymentMetadata :: "('s, 'f) skill_env \<Rightarrow> ServiceRecord \<Rightarrow> paymentMetadata" where
  "normalisePaymentMetadata A rec =
     (let U = sk_U A; currency = normaliseDisplayCurrency U (sv_Currency rec);
          settlementKind = normaliseSettlementKind U (sv_SettlementKind rec) currency (sv_MRC20Ticker rec) (sv_MRC20Id rec);
          chain = ToLower U (TrimSpace (sv_PaymentChain rec)); address = TrimSpace (sv_PaymentAddress rec)
      in \<lparr>pm_currency = currency, pm_settlementKind = settlementKind,
          pm_paymentChain = (if chain = '''' then defaultPaymentChain U settlementKind currency else chain),
          pm_paymentAddress = (if address = '''' \<and> settlementKind = ''native'' \<and> isPositivePrice A (sv_Price rec) then TrimSpace (sv_ProviderAddress rec) else address),
          pm_mrc20Ticker = (if sv_MRC20Ticker rec \<noteq> '''' then Some (sv_MRC20Ticker rec) else None),
          pm_mrc20Id = (if sv_MRC20Id rec \<noteq> '''' then Some (sv_MRC20Id rec) else None)\<rparr>)"

subsection \<open>Items of a list\<close>

record skill_ListParams =
  kp_Size :: int
  kp_Cursor :: string
  kp_Keyword :: string
  kp_Currency :: string
  kp_ChainName :: string
  kp_OutputType :: string
  kp_ProviderGlobalMetaId :: string
  kp_SortBy :: string
  kp_Order :: string
  kp_IncludeInactive :: bool

record 'f ServiceListItem =
  li_Id :: string
  li_CurrentPinId :: string
  li_SourceServicePinId :: string
  li_ServiceName :: string
  li_DisplayName :: string
  li_Description :: string
  li_ServiceIcon :: string
  li_ProviderSkill :: string
  li_OutputType :: string
  li_Price :: string
  li_Currency :: string
  li_SettlementKind :: string
  li_PaymentChain :: string
  li_MRC20Ticker :: "string option"
  li_MRC20Id :: "string option"
  li_PaymentAddress :: string
  li_ProviderMetaId :: string
  li_ProviderGlobalMetaId :: string
  li_ProviderAddress :: string
  li_ProviderName :: string
  li_ProviderAvatar :: string
  li_ProviderAvatarId :: string
  li_ProviderChatPubkey :: string
  li_RatingAvg :: 'f
  li_RatingCount :: int
  li_Status :: int
  li_Operation :: string
  li_Disabled :: bool
  li_ChainName :: string
  li_CreatedAt :: int
  li_UpdatedAt :: int

record 'f skill_ListResult =
  ks_List :: "'f ServiceListItem list"
  ks_NextCursor :: string
  ks_Total :: "int option"
  ks_AggregatedAt :: int
  ks_SchemaVersion :: string

record expandedRecord =
  ex_rec :: ServiceRecord
  ex_profile :: skill_ProfileSnapshot
  ex_rating :: "RatingAggregate option"

definition Average :: "'f float_lib \<Rightarrow> RatingAggregate option \<Rightarrow> 'f" where
  "Average F agg = (case agg of None \<Rightarrow> fl_of_int F 0 | Some a \<Rightarrow> if ra_Count a = 0 then fl_of_int F 0 else fl_div F (fl_of_int F (ra_Sum a)) (fl_of_int F (ra_Count a)))"

definition ratingCount :: "RatingAggregate option \<Rightarrow> int" where
  "ratingCount agg = (case agg of None \<Rightarrow> 0 | Some a \<Rightarrow> ra_Count a)"

definition toListItem :: "('s, 'f) skill_env \<Rightarrow> expandedRecord \<Rightarrow> 'f ServiceListItem" where
  "toListItem A e =
     (let rec = ex_rec e; payment = normalisePaymentMetadata A rec; profile = ex_profile e
      in \<lparr>li_Id = sv_CurrentPinId rec, li_CurrentPinId = sv_CurrentPinId rec, li_SourceServicePinId = sv_SourceServicePinId rec, li_ServiceName = sv_ServiceName rec,
          li_DisplayName = sv_DisplayName rec, li_Description = sv_Description rec, li_ServiceIcon = ResolveAsset A (sv_ServiceIcon rec), li_ProviderSkill = sv_ProviderSkill rec,
          li_OutputType = sv_OutputType rec, li_Price = sv_Price rec, li_Currency = pm_currency payment, li_SettlementKind = pm_settlementKind payment,
          li_PaymentChain = pm_paymentChain payment, li_MRC20Ticker = pm_mrc20Ticker payment, li_MRC20Id = pm_mrc20Id payment, li_PaymentAddress = pm_paymentAddress payment,
          li_ProviderMetaId = skill_firstNonEmpty [sn_MetaId profile, sv_ProviderMetaId rec],
          li_ProviderGlobalMetaId = skill_firstNonEmpty [sn_GlobalMetaId profile, sv_ProviderGlobalMetaId rec],
          li_ProviderAddress = skill_firstNonEmpty [sn_Address profile, sv_ProviderAddress rec], li_ProviderName = sn_Name profile,
          li_ProviderAvatar = ResolveAsset A (sn_Avatar profile), li_ProviderAvatarId = sn_AvatarId profile, li_ProviderChatPubkey = sn_ChatPublicKey profile,
          li_RatingAvg = Average (sk_F A) (ex_rating e), li_RatingCount = ratingCount (ex_rating e), li_Status = sv_Status rec, li_Operation = sv_Operation rec,
          li_Disabled = sv_Disabled rec, li_ChainName = sv_ChainName rec, li_CreatedAt = sv_CreatedAt rec, li_UpdatedAt = sv_UpdatedAt rec\<rparr>)"

subsection \<open>Parameters and filters\<close>

definition clampSize :: "int \<Rightarrow> int" where
  "clampSize sz = (if sz \<le> 0 then 20 else if 100 < sz then 100 else sz)"

definition normaliseSortBy :: "unicode \<Rightarrow> string \<Rightarrow> string" where
  "normaliseSortBy U sortBy = (let t = ToLower U (TrimSpace sortBy) in if t \<in> {''rating'', ''updated'', ''price''} then t else ''rating'')"

definition normaliseOrder :: "unicode \<Rightarrow> string \<Rightarrow> string" where
  "normaliseOrder U order = (if ToLower U (TrimSpace order) = ''asc'' then ''asc'' else ''desc'')"

definition skill_normaliseListParams :: "unicode \<Rightarrow> skill_ListParams \<Rightarrow> skill_ListParams" where
  "skill_normaliseListParams U p =
     p\<lparr>kp_Size := clampSize (kp_Size p), kp_SortBy := normaliseSortBy U (kp_SortBy p), kp_Order := normaliseOrder U (kp_Order p),
       kp_ChainName := ToLower U (TrimSpace (kp_ChainName p)), kp_Currency := ToUpper U (TrimSpace (kp_Currency p)),
       kp_OutputType := ToLower U (TrimSpace (kp_OutputType p)), kp_ProviderGlobalMetaId := TrimSpace (kp_ProviderGlobalMetaId p), kp_Keyword := TrimSpace (kp_Keyword p)\<rparr>"

definition matchesCurrencyFilter :: "unicode \<Rightarrow> ServiceRecord \<Rightarrow> string \<Rightarrow> bool" where
  "matchesCurrencyFilter U rec want =
     (if want = '''' then True
      else (let rc = ToUpper U (TrimSpace (sv_Currency rec)) in if want = ''SPACE'' \<and> rc = ''MVC'' then True else rc = want))"

definition matchesOutputTypeFilter :: "unicode \<Rightarrow> ServiceRecord \<Rightarrow> string \<Rightarrow> bool" where
  "matchesOutputTypeFilter U rec want = (if want = '''' then True else EqualFold U (sv_OutputType rec) want)"

definition matchesProviderFilter :: "unicode \<Rightarrow> expandedRecord \<Rightarrow> string \<Rightarrow> bool" where
  "matchesProviderFilter U e want =
     (if want = '''' then True
      else list_ex (\<lambda>candidate. EqualFold U candidate want)
        [sn_GlobalMetaId (ex_profile e), sv_ProviderGlobalMetaId (ex_rec e), sn_MetaId (ex_profile e), sv_ProviderMetaId (ex_rec e), sn_Address (ex_profile e), sv_ProviderAddress (ex_rec e)])"

definition matchesKeywordFilter :: "unicode \<Rightarrow> expandedRecord \<Rightarrow> string \<Rightarrow> bool" where
  "matchesKeywordFilter U e kw =
     (if kw = '''' then True
      else list_ex (\<lambda>h. h \<noteq> '''' \<and> Contains (ToLower U h) (ToLower U kw))
        [sv_DisplayName (ex_rec e), sv_ServiceName (ex_rec e), sv_Description (ex_rec e), sv_ProviderSkill (ex_rec e), sn_Name (ex_profile e)])"

subsection \<open>Order\<close>

definition smoothedScore :: "'f float_lib \<Rightarrow> RatingAggregate option \<Rightarrow> 'f" where
  "smoothedScore F agg =
     (let (cnt, avg) = (case agg of Some a \<Rightarrow> if 0 < ra_Count a then (fl_of_int F (ra_Count a), Average F agg) else (fl_of_int F 0, fl_of_int F 0) | None \<Rightarrow> (fl_of_int F 0, fl_of_int F 0))
      in fl_div F (fl_add F (fl_mult F avg cnt) (fl_of_int F 20)) (fl_add F cnt (fl_of_int F 5)))"

definition parsePriceForSort :: "'f float_lib \<Rightarrow> string \<Rightarrow> 'f" where
  "parsePriceForSort F price =
     (if price = '''' then fl_of_int F 0 else case fl_Parse F (TrimSpace price) of None \<Rightarrow> fl_of_int F 0 | Some f \<Rightarrow> f)"

definition less_by :: "'f float_lib \<Rightarrow> string \<Rightarrow> expandedRecord \<Rightarrow> expandedRecord \<Rightarrow> bool" where
  "less_by F sortBy a b =
     (if sortBy = ''updated'' then sv_UpdatedAt (ex_rec a) < sv_UpdatedAt (ex_rec b)
      else if sortBy = ''price'' then fl_less F (parsePriceForSort F (sv_Price (ex_rec a))) (parsePriceForSort F (sv_Price (ex_rec b)))
      else
        (let si = smoothedScore F (ex_rating a); sj = smoothedScore F (ex_rating b)
         in if fl_eq F si sj then
              (if ratingCount (ex_rating a) = ratingCount (ex_rating b) then sv_UpdatedAt (ex_rec a) < sv_UpdatedAt (ex_rec b)
               else ratingCount (ex_rating a) < ratingCount (ex_rating b))
            else fl_less F si sj))"

definition insert_left :: "('a \<Rightarrow> 'a \<Rightarrow> bool) \<Rightarrow> 'a list \<Rightarrow> 'a \<Rightarrow> 'a list" where
  "insert_left lt xs x = rev (dropWhile (lt x) (rev xs)) @ x # rev (takeWhile (lt x) (rev xs))"

definition SliceStable :: "('a \<Rightarrow> 'a \<Rightarrow> bool) \<Rightarrow> 'a list \<Rightarrow> 'a list" where
  "SliceStable lt xs = foldl (insert_left lt) [] xs"

definition sortExpanded :: "'f float_lib \<Rightarrow> string \<Rightarrow> string \<Rightarrow> expandedRecord list \<Rightarrow> expandedRecord list" where
  "sortExpanded F sortBy order items = SliceStable (\<lambda>a b. if order = ''asc'' then less_by F sortBy a b else \<not> less_by F sortBy a b) items"

subsection \<open>Cursors\<close>

definition b64_RawURLEncodeToString :: "bytes \<Rightarrow> string" where
  "b64_RawURLEncodeToString raw =
     map (\<lambda>c. if c = CHR ''+'' then CHR ''-'' else if c = CHR ''/'' then CHR ''_'' else c) (filter (\<lambda>c. c \<noteq> CHR ''='') (b64_EncodeToString raw))"

definition cursor_json :: "int \<Rightarrow> bytes" where
  "cursor_json offset = CHR ''{'' # CHR 0x22 # CHR ''o'' # CHR 0x22 # CHR '':'' # Itoa offset @ ''}''"

definition encodeListCursor :: "int \<Rightarrow> string" where
  "encodeListCursor offset = b64_RawURLEncodeToString (cursor_json offset)"

definition decodeListCursor :: "('s, 'f) skill_env \<Rightarrow> string \<Rightarrow> int option" where
  "decodeListCursor A cursor = (if cursor = '''' then Some 0 else case b64_RawURLDecodeString cursor of None \<Rightarrow> None | Some raw \<Rightarrow> sk_cursor A raw)"

subsection \<open>The list\<close>

fun expand_records ::
    "('s, 'f) skill_env \<Rightarrow> skill_ProfileLookup option \<Rightarrow> skill_ListParams \<Rightarrow> ServiceRecord list \<Rightarrow> 's \<Rightarrow> expandedRecord list \<times> 's" where
  "expand_records A L p [] s = ([], s)"
| "expand_records A L p (rec # recs) s =
     (let snap = ResolveProvider L rec; (agg, s1) = no_err (LoadRatingAggregate A (sv_ChainName rec) (sv_SourceServicePinId rec) s);
          e = \<lparr>ex_rec = rec, ex_profile = snap, ex_rating = agg\<rparr>; (rest, s2) = expand_records A L p recs s1
      in (if \<not> matchesProviderFilter (sk_U A) e (kp_ProviderGlobalMetaId p) then rest
          else if \<not> matchesKeywordFilter (sk_U A) e (kp_Keyword p) then rest else e # rest, s2))"

definition record_filter :: "('s, 'f) skill_env \<Rightarrow> skill_ListParams \<Rightarrow> ServiceRecord \<Rightarrow> bool" where
  "record_filter A p rec \<longleftrightarrow> (kp_IncludeInactive p \<or> IsVisibleDefault rec) \<and> matchesCurrencyFilter (sk_U A) rec (kp_Currency p)
     \<and> matchesOutputTypeFilter (sk_U A) rec (kp_OutputType p)"

text \<open>One page of the sorted records.\<close>

definition list_page :: "('s, 'f) skill_env \<Rightarrow> int \<Rightarrow> skill_ListParams \<Rightarrow> expandedRecord list \<Rightarrow> string + 'f skill_ListResult" where
  "list_page A now p expanded =
     (case decodeListCursor A (kp_Cursor p) of
        None \<Rightarrow> Inl ''invalid cursor''
      | Some start0 \<Rightarrow>
          (let n = int (length expanded);
               start = (if start0 < 0 \<or> n \<le> start0 then (if kp_Cursor p \<noteq> '''' then n else 0) else start0);
               end0 = start + kp_Size p; end1 = (if n < end0 then n else end0)
           in Inr \<lparr>ks_List = map (toListItem A) (take (nat (end1 - start)) (drop (nat start) expanded)),
                   ks_NextCursor = (if end1 < n then encodeListCursor end1 else ''''), ks_Total = None, ks_AggregatedAt = now, ks_SchemaVersion = ''botHubSkillService.v1''\<rparr>))"

definition skill_List :: "('s, 'f) skill_env \<Rightarrow> skill_ProfileLookup option \<Rightarrow> int \<Rightarrow> skill_ListParams \<Rightarrow> 's \<Rightarrow> (string + 'f skill_ListResult) \<times> 's" where
  "skill_List A L now p0 s =
     (let p = skill_normaliseListParams (sk_U A) p0
      in case (if kp_ChainName p \<noteq> '''' then listServicesByChain A (kp_ChainName p) s else listAllServices A s) of
           (Inl e, s1) \<Rightarrow> (Inl e, s1)
         | (Inr records, s1) \<Rightarrow>
             (let (expanded, s2) = expand_records A L p (filter (record_filter A p) records) s1
              in (list_page A now p (sortExpanded (sk_F A) (kp_SortBy p) (kp_Order p) expanded), s2)))"

subsection \<open>The services of a provider's homepage\<close>

record HomepageListParams =
  hp_ProviderGlobalMetaId :: string
  hp_ChainName :: string
  hp_Size :: int
  hp_IncludeInactive :: bool

record 'f HomepageListResult =
  hl_List :: "'f ServiceListItem list"
  hl_HasMore :: bool

record homepageProviderCandidate =
  hc_invertedUpdatedAt :: string
  hc_chainName :: string
  hc_sourcePinId :: string

definition normaliseHomepageListParams :: "unicode \<Rightarrow> HomepageListParams \<Rightarrow> HomepageListParams" where
  "normaliseHomepageListParams U p =
     p\<lparr>hp_Size := clampSize (hp_Size p), hp_ProviderGlobalMetaId := TrimSpace (hp_ProviderGlobalMetaId p), hp_ChainName := ToLower U (TrimSpace (hp_ChainName p))\<rparr>"

definition parseProviderGlobalIndexKey :: "string \<Rightarrow> string \<Rightarrow> homepageProviderCandidate option" where
  "parseProviderGlobalIndexKey key p =
     (case split_colon (ui_trim_prefix key p) of
        None \<Rightarrow> None
      | Some (t, r) \<Rightarrow>
          (case split_colon r of
             None \<Rightarrow> None
           | Some (ch, src) \<Rightarrow> if t = '''' \<or> ch = '''' \<or> src = '''' then None else Some \<lparr>hc_invertedUpdatedAt = t, hc_chainName = ch, hc_sourcePinId = src\<rparr>))"

definition parseProviderGlobalChainIndexKey :: "string \<Rightarrow> string \<Rightarrow> string \<Rightarrow> homepageProviderCandidate option" where
  "parseProviderGlobalChainIndexKey key p chainName =
     (case split_colon (ui_trim_prefix key p) of
        None \<Rightarrow> None
      | Some (t, src) \<Rightarrow> if t = '''' \<or> src = '''' then None else Some \<lparr>hc_invertedUpdatedAt = t, hc_chainName = chainName, hc_sourcePinId = src\<rparr>)"

definition parseProviderIndexKey :: "string \<Rightarrow> string \<Rightarrow> string \<Rightarrow> homepageProviderCandidate option" where
  "parseProviderIndexKey key p chainName =
     (let rest = ui_trim_prefix key p in if rest = '''' then None else Some \<lparr>hc_invertedUpdatedAt = '''', hc_chainName = chainName, hc_sourcePinId = rest\<rparr>)"

definition parseHomepageProviderMetaIndexKey :: "string \<Rightarrow> string \<Rightarrow> homepageProviderCandidate option" where
  "parseHomepageProviderMetaIndexKey key p = parseProviderGlobalIndexKey key p"

definition matchesHomepageProviderGlobalMetaId :: "unicode \<Rightarrow> ServiceRecord \<Rightarrow> skill_ProfileSnapshot \<Rightarrow> string \<Rightarrow> bool" where
  "matchesHomepageProviderGlobalMetaId U rec profile want =
     (if want = '''' then True else EqualFold U (sv_ProviderGlobalMetaId rec) want \<or> EqualFold U (sn_GlobalMetaId profile) want)"

definition matchesHomepageProviderCandidate :: "unicode \<Rightarrow> ServiceRecord \<Rightarrow> skill_ProfileSnapshot \<Rightarrow> HomepageListParams \<Rightarrow> homepageProviderCandidate \<Rightarrow> bool" where
  "matchesHomepageProviderCandidate U rec profile p c =
     (if \<not> EqualFold U (sv_ChainName rec) (hc_chainName c) then False
      else if sv_SourceServicePinId rec \<noteq> hc_sourcePinId c then False
      else if hc_invertedUpdatedAt c \<noteq> invertedTimestamp (sv_UpdatedAt rec) then False
      else if \<not> matchesHomepageProviderGlobalMetaId U rec profile (hp_ProviderGlobalMetaId p) then False
      else if hp_ChainName p \<noteq> '''' \<and> \<not> EqualFold U (sv_ChainName rec) (hp_ChainName p) then False
      else True)"

definition matchesLateHomepageProviderAliasCandidate :: "unicode \<Rightarrow> ServiceRecord \<Rightarrow> skill_ProfileSnapshot \<Rightarrow> HomepageListParams \<Rightarrow> homepageProviderCandidate \<Rightarrow> bool" where
  "matchesLateHomepageProviderAliasCandidate U rec profile p c =
     (if \<not> EqualFold U (sv_ChainName rec) (hc_chainName c) then False
      else if sv_SourceServicePinId rec \<noteq> hc_sourcePinId c then False
      else if hc_invertedUpdatedAt c \<noteq> '''' \<and> hc_invertedUpdatedAt c \<noteq> invertedTimestamp (sv_UpdatedAt rec) then False
      else if \<not> EqualFold U (sv_ProviderMetaId rec) (TrimSpace (sn_MetaId profile)) then False
      else if \<not> matchesHomepageProviderGlobalMetaId U rec profile (hp_ProviderGlobalMetaId p) then False
      else if hp_ChainName p \<noteq> '''' \<and> \<not> EqualFold U (sv_ChainName rec) (hp_ChainName p) then False
      else True)"

definition homepageProviderRecordKey :: "unicode \<Rightarrow> ServiceRecord \<Rightarrow> string" where
  "homepageProviderRecordKey U rec = ToLower U (sv_ChainName rec) @ CHR 0x00 # sv_SourceServicePinId rec"

type_synonym homepage_records = "(string, expandedRecord) gomap"

definition addHomepageProviderGlobalCandidate ::
    "('s, 'f) skill_env \<Rightarrow> skill_ProfileLookup option \<Rightarrow> HomepageListParams \<Rightarrow> homepageProviderCandidate \<Rightarrow> homepage_records \<times> 's \<Rightarrow> homepage_records \<times> 's" where
  "addHomepageProviderGlobalCandidate A L p c st =
     (case no_err (loadService A (hc_chainName c) (hc_sourcePinId c) (snd st)) of
        (None, s1) \<Rightarrow> (fst st, s1)
      | (Some rec, s1) \<Rightarrow>
          (let profile = ResolveProvider L rec
           in if \<not> matchesHomepageProviderCandidate (sk_U A) rec profile p c then (fst st, s1)
              else if \<not> hp_IncludeInactive p \<and> \<not> IsVisibleDefault rec then (fst st, s1)
              else (let (rating, s2) = no_err (LoadRatingAggregate A (sv_ChainName rec) (sv_SourceServicePinId rec) s1)
                    in (gm_set (fst st) (homepageProviderRecordKey (sk_U A) rec) \<lparr>ex_rec = rec, ex_profile = profile, ex_rating = rating\<rparr>, s2))))"

definition backfillHomepageProviderGlobalIndex :: "('s, 'f) skill_env \<Rightarrow> string \<Rightarrow> ServiceRecord \<Rightarrow> 's \<Rightarrow> 's" where
  "backfillHomepageProviderGlobalIndex A g rec s =
     (if g = '''' \<or> sv_UpdatedAt rec \<le> 0 then s
      else
        (let s1 = snd (kv_Set (sk_K A) skill_ns (providerGlobalIndexKey g (sv_UpdatedAt rec) (sv_ChainName rec) (sv_SourceServicePinId rec)) [] s)
         in snd (kv_Set (sk_K A) skill_ns (providerGlobalChainIndexKey g (sv_ChainName rec) (sv_UpdatedAt rec) (sv_SourceServicePinId rec)) [] s1)))"

definition addLateHomepageProviderAliasCandidate ::
    "('s, 'f) skill_env \<Rightarrow> HomepageListParams \<Rightarrow> skill_ProfileSnapshot \<Rightarrow> homepageProviderCandidate \<Rightarrow> homepage_records \<times> 's \<Rightarrow> homepage_records \<times> 's" where
  "addLateHomepageProviderAliasCandidate A p profile c st =
     (case no_err (loadService A (hc_chainName c) (hc_sourcePinId c) (snd st)) of
        (None, s1) \<Rightarrow> (fst st, s1)
      | (Some rec, s1) \<Rightarrow>
          (if \<not> matchesLateHomepageProviderAliasCandidate (sk_U A) rec profile p c then (fst st, s1)
           else if \<not> hp_IncludeInactive p \<and> \<not> IsVisibleDefault rec then (fst st, s1)
           else (let (rating, s2) = no_err (LoadRatingAggregate A (sv_ChainName rec) (sv_SourceServicePinId rec) s1)
                 in (gm_set (fst st) (homepageProviderRecordKey (sk_U A) rec) \<lparr>ex_rec = rec, ex_profile = profile, ex_rating = rating\<rparr>,
                     backfillHomepageProviderGlobalIndex A (hp_ProviderGlobalMetaId p) rec s2))))"

text \<open>A scan visits the candidates that the keys of its entries parse to; the visitors here never stop it.\<close>

definition scan_candidates ::
    "('s, 'f) skill_env \<Rightarrow> bytes \<Rightarrow> (string \<Rightarrow> homepageProviderCandidate option) \<Rightarrow> (homepageProviderCandidate \<Rightarrow> homepage_records \<times> 's \<Rightarrow> homepage_records \<times> 's)
      \<Rightarrow> homepage_records \<times> 's \<Rightarrow> (string + homepage_records) \<times> 's" where
  "scan_candidates A p parse visit st =
     (case kv_Scan (sk_K A) skill_ns p (snd st) of
        (Inl e, s1) \<Rightarrow> (Inl ''storage error'', s1)
      | (Inr kvs, s1) \<Rightarrow> (let st1 = foldl (\<lambda>st c. visit c st) (fst st, s1) (List.map_filter (\<lambda>kv. parse (fst kv)) kvs) in (Inr (fst st1), snd st1)))"

definition scanHomepageProviderCandidates ::
    "('s, 'f) skill_env \<Rightarrow> HomepageListParams \<Rightarrow> (homepageProviderCandidate \<Rightarrow> homepage_records \<times> 's \<Rightarrow> homepage_records \<times> 's)
      \<Rightarrow> homepage_records \<times> 's \<Rightarrow> (string + homepage_records) \<times> 's" where
  "scanHomepageProviderCandidates A p visit st =
     (if hp_ChainName p \<noteq> '''' then
        (let pre = providerGlobalChainIndexPrefix (hp_ProviderGlobalMetaId p) (hp_ChainName p)
         in scan_candidates A pre (\<lambda>key. parseProviderGlobalChainIndexKey key pre (hp_ChainName p)) visit st)
      else
        (let pre = providerGlobalIndexPrefix (hp_ProviderGlobalMetaId p)
         in scan_candidates A pre (\<lambda>key. parseProviderGlobalIndexKey key pre) visit st))"

definition scanLateHomepageProviderAliasCandidates ::
    "('s, 'f) skill_env \<Rightarrow> HomepageListParams \<Rightarrow> skill_ProfileSnapshot \<Rightarrow> (homepageProviderCandidate \<Rightarrow> homepage_records \<times> 's \<Rightarrow> homepage_records \<times> 's)
      \<Rightarrow> homepage_records \<times> 's \<Rightarrow> (string + homepage_records) \<times> 's" where
  "scanLateHomepageProviderAliasCandidates A p profile visit st =
     (let providerMetaId = TrimSpace (sn_MetaId profile)
      in if providerMetaId = '''' then (Inr (fst st), snd st)
         else if hp_ChainName p \<noteq> '''' then
           (let pre = providerIndexPrefix (hp_ChainName p) providerMetaId in scan_candidates A pre (\<lambda>key. parseProviderIndexKey key pre (hp_ChainName p)) visit st)
         else
           (let pre = homepageProviderMetaIndexPrefix providerMetaId in scan_candidates A pre (\<lambda>key. parseHomepageProviderMetaIndexKey key pre) visit st))"

definition lookupHomepageProviderGlobalProfile :: "skill_ProfileLookup option \<Rightarrow> string \<Rightarrow> skill_ProfileSnapshot option" where
  "lookupHomepageProviderGlobalProfile L g =
     (case L of
        None \<Rightarrow> None
      | Some l \<Rightarrow>
          (if g = '''' then None
           else case pl_ByGlobalMetaId l g of Inr (Some profile) \<Rightarrow> (if TrimSpace (sn_MetaId profile) = '''' then None else Some profile) | _ \<Rightarrow> None))"

definition homepage_less :: "expandedRecord \<Rightarrow> expandedRecord \<Rightarrow> bool" where
  "homepage_less a b =
     (if sv_UpdatedAt (ex_rec a) \<noteq> sv_UpdatedAt (ex_rec b) then sv_UpdatedAt (ex_rec b) < sv_UpdatedAt (ex_rec a)
      else if sv_ChainName (ex_rec a) \<noteq> sv_ChainName (ex_rec b) then sv_ChainName (ex_rec a) < sv_ChainName (ex_rec b)
      else sv_SourceServicePinId (ex_rec a) < sv_SourceServicePinId (ex_rec b))"

definition pageHomepageProviderRecords :: "homepage_records \<Rightarrow> int \<Rightarrow> expandedRecord list \<times> bool" where
  "pageHomepageProviderRecords records sz =
     (let items = SliceStable homepage_less (map snd records) in if int (length items) \<le> sz then (items, False) else (take (nat sz) items, True))"

definition ListHomepageByProvider :: "('s, 'f) skill_env \<Rightarrow> skill_ProfileLookup option \<Rightarrow> HomepageListParams \<Rightarrow> 's \<Rightarrow> (string + 'f HomepageListResult) \<times> 's" where
  "ListHomepageByProvider A L p0 s =
     (let p = normaliseHomepageListParams (sk_U A) p0
      in if hp_ProviderGlobalMetaId p = '''' then (Inr \<lparr>hl_List = [], hl_HasMore = False\<rparr>, s)
         else case scanHomepageProviderCandidates A p (addHomepageProviderGlobalCandidate A L p) ([], s) of
           (Inl e, s1) \<Rightarrow> (Inl e, s1)
         | (Inr records, s1) \<Rightarrow>
             (case (case lookupHomepageProviderGlobalProfile L (hp_ProviderGlobalMetaId p) of
                      None \<Rightarrow> (Inr records, s1)
                    | Some profile \<Rightarrow> scanLateHomepageProviderAliasCandidates A p profile (addLateHomepageProviderAliasCandidate A p profile) (records, s1)) of
                (Inl e, s2) \<Rightarrow> (Inl e, s2)
              | (Inr records1, s2) \<Rightarrow>
                  (let (page, hasMore) = pageHomepageProviderRecords records1 (hp_Size p)
                   in (Inr \<lparr>hl_List = map (toListItem A) page, hl_HasMore = hasMore\<rparr>, s2))))"

subsection \<open>Details\<close>

record ServiceDetail =
  sd_Id :: string
  sd_CurrentPinId :: string
  sd_SourceServicePinId :: string
  sd_ServiceName :: string
  sd_DisplayName :: string
  sd_Description :: string
  sd_ServiceIcon :: string
  sd_ProviderSkill :: string
  sd_OutputType :: string
  sd_Price :: string
  sd_Currency :: string
  sd_SettlementKind :: string
  sd_PaymentChain :: string
  sd_MRC20Ticker :: "string option"
  sd_MRC20Id :: "string option"
  sd_PaymentAddress :: string
  sd_Status :: int
  sd_Operation :: string
  sd_Disabled :: bool
  sd_ChainName :: string
  sd_CreatedAt :: int
  sd_UpdatedAt :: int

record DetailProvider =
  dp_MetaId :: string
  dp_GlobalMetaId :: string
  dp_Address :: string
  dp_Name :: string
  dp_Avatar :: string
  dp_AvatarId :: string
  dp_ChatPubkey :: "string option"

record DetailResult =
  dr_Service :: ServiceDetail
  dr_Provider :: DetailProvider
  dr_AggregatedAt :: int
  dr_SchemaVersion :: string

datatype detail_error = ErrInvalidIDType | ErrAmbiguousLookup | ErrOther string

definition normaliseIDType :: "unicode \<Rightarrow> string \<Rightarrow> string" where
  "normaliseIDType U idType =
     (let t = ToLower U (TrimSpace idType)
      in if t = '''' \<or> t = ''auto'' then ''auto'' else if t = ''currentpinid'' then ''currentPinId'' else if t = ''sourceservicepinid'' then ''sourceServicePinId'' else ''invalid'')"

definition recordMatchesID :: "ServiceRecord \<Rightarrow> string \<Rightarrow> string \<Rightarrow> bool" where
  "recordMatchesID rec serviceID idType =
     (if idType = ''sourceServicePinId'' then sv_SourceServicePinId rec = serviceID
      else if idType = ''currentPinId'' then sv_CurrentPinId rec = serviceID
      else sv_SourceServicePinId rec = serviceID \<or> sv_CurrentPinId rec = serviceID)"

definition findServiceOnChain :: "('s, 'f) skill_env \<Rightarrow> string \<Rightarrow> string \<Rightarrow> string \<Rightarrow> 's \<Rightarrow> (string + ServiceRecord option) \<times> 's" where
  "findServiceOnChain A chainName serviceID idType s =
     (if idType = ''sourceServicePinId'' then loadService A chainName serviceID s
      else if idType = ''currentPinId'' then loadServiceByAnyPinId A chainName serviceID s
      else case loadService A chainName serviceID s of
        (Inl e, s1) \<Rightarrow> (Inl e, s1)
      | (Inr (Some rec), s1) \<Rightarrow> (Inr (Some rec), s1)
      | (Inr None, s1) \<Rightarrow> loadServiceByAnyPinId A chainName serviceID s1)"

definition other_error :: "(string + 'm) \<times> 's \<Rightarrow> (detail_error + 'm) \<times> 's" where
  "other_error r = (case r of (Inl e, s) \<Rightarrow> (Inl (ErrOther e), s) | (Inr v, s) \<Rightarrow> (Inr v, s))"

definition FindService :: "('s, 'f) skill_env \<Rightarrow> string \<Rightarrow> string \<Rightarrow> string \<Rightarrow> 's \<Rightarrow> (detail_error + ServiceRecord option) \<times> 's" where
  "FindService A serviceID0 chainName0 idType0 s =
     (let serviceID = TrimSpace serviceID0; chainName = ToLower (sk_U A) (TrimSpace chainName0); idType = normaliseIDType (sk_U A) idType0
      in if serviceID = '''' then (Inr None, s)
         else if chainName \<noteq> '''' then other_error (findServiceOnChain A chainName serviceID idType s)
         else case other_error (listAllServices A s) of
           (Inl e, s1) \<Rightarrow> (Inl e, s1)
         | (Inr records, s1) \<Rightarrow>
             (case filter (\<lambda>rec. recordMatchesID rec serviceID idType) records of
                [] \<Rightarrow> (Inr None, s1)
              | [rec] \<Rightarrow> (Inr (Some rec), s1)
              | _ \<Rightarrow> (Inl ErrAmbiguousLookup, s1)))"

definition toServiceDetail :: "('s, 'f) skill_env \<Rightarrow> ServiceRecord \<Rightarrow> ServiceDetail" where
  "toServiceDetail A rec =
     (let payment = normalisePaymentMetadata A rec
      in \<lparr>sd_Id = sv_CurrentPinId rec, sd_CurrentPinId = sv_CurrentPinId rec, sd_SourceServicePinId = sv_SourceServicePinId rec, sd_ServiceName = sv_ServiceName rec,
          sd_DisplayName = sv_DisplayName rec, sd_Description = sv_Description rec, sd_ServiceIcon = ResolveAsset A (sv_ServiceIcon rec), sd_ProviderSkill = sv_ProviderSkill rec,
          sd_OutputType = sv_OutputType rec, sd_Price = sv_Price rec, sd_Currency = pm_currency payment, sd_SettlementKind = pm_settlementKind payment,
          sd_PaymentChain = pm_paymentChain payment, sd_MRC20Ticker = pm_mrc20Ticker payment, sd_MRC20Id = pm_mrc20Id payment, sd_PaymentAddress = pm_paymentAddress payment,
          sd_Status = sv_Status rec, sd_Operation = sv_Operation rec, sd_Disabled = sv_Disabled rec, sd_ChainName = sv_ChainName rec, sd_CreatedAt = sv_CreatedAt rec,
          sd_UpdatedAt = sv_UpdatedAt rec\<rparr>)"

definition toDetailProvider :: "('s, 'f) skill_env \<Rightarrow> ServiceRecord \<Rightarrow> skill_ProfileSnapshot \<Rightarrow> DetailProvider" where
  "toDetailProvider A rec profile =
     \<lparr>dp_MetaId = skill_firstNonEmpty [sn_MetaId profile, sv_ProviderMetaId rec], dp_GlobalMetaId = skill_firstNonEmpty [sn_GlobalMetaId profile, sv_ProviderGlobalMetaId rec],
      dp_Address = skill_firstNonEmpty [sn_Address profile, sv_ProviderAddress rec], dp_Name = sn_Name profile, dp_Avatar = ResolveAsset A (sn_Avatar profile),
      dp_AvatarId = sn_AvatarId profile,
      dp_ChatPubkey = (let pk = TrimSpace (sn_ChatPublicKey profile) in if pk \<noteq> '''' then Some pk else None)\<rparr>"

definition Detail :: "('s, 'f) skill_env \<Rightarrow> skill_ProfileLookup option \<Rightarrow> int \<Rightarrow> string \<Rightarrow> string \<Rightarrow> string \<Rightarrow> 's \<Rightarrow> (detail_error + DetailResult option) \<times> 's" where
  "Detail A L now serviceID chainName idType0 s =
     (let idType = normaliseIDType (sk_U A) idType0
      in if idType = ''invalid'' then (Inl ErrInvalidIDType, s)
         else case FindService A serviceID chainName idType s of
           (Inl e, s1) \<Rightarrow> (Inl e, s1)
         | (Inr None, s1) \<Rightarrow> (Inr None, s1)
         | (Inr (Some rec), s1) \<Rightarrow>
             (Inr (Some \<lparr>dr_Service = toServiceDetail A rec, dr_Provider = toDetailProvider A rec (ResolveProvider L rec), dr_AggregatedAt = now,
                         dr_SchemaVersion = ''botHubSkillServiceDetail.v1''\<rparr>), s1))"

definition detailErr :: "detail_error \<Rightarrow> string" where
  "detailErr e = (case e of ErrInvalidIDType \<Rightarrow> ''invalid idType'' | ErrAmbiguousLookup \<Rightarrow> ''ambiguous serviceId: ambiguous serviceId'' | ErrOther m \<Rightarrow> ''aggregation unavailable'')"

subsection \<open>Handlers\<close>

definition parseListParams :: "(string \<Rightarrow> string option) \<Rightarrow> string + skill_ListParams" where
  "parseListParams query =
     (let q = (\<lambda>name. DefaultQuery '''' (query name)); sz = (if q ''size'' = '''' then Some 0 else case Atoi (q ''size'') of None \<Rightarrow> None | Some n \<Rightarrow> if n < 0 then None else Some n);
          t = TrimSpace (q ''includeInactive'');
          inactive = (if q ''includeInactive'' = '''' then Some False else if t \<in> {''1'', ''true'', ''TRUE'', ''yes''} then Some True
                      else if t \<in> {''0'', ''false'', ''FALSE'', ''no'', ''''} then Some False else None)
      in case sz of
           None \<Rightarrow> Inl ''invalid size''
         | Some n \<Rightarrow>
             (case inactive of
                None \<Rightarrow> Inl ''invalid includeInactive''
              | Some b \<Rightarrow>
                  Inr \<lparr>kp_Size = n, kp_Cursor = q ''cursor'', kp_Keyword = q ''keyword'', kp_Currency = q ''currency'', kp_ChainName = q ''chainName'',
                       kp_OutputType = q ''outputType'', kp_ProviderGlobalMetaId = q ''providerGlobalMetaId'', kp_SortBy = q ''sortBy'', kp_Order = q ''order'',
                       kp_IncludeInactive = b\<rparr>))"

definition handleList :: "('s, 'f) skill_env \<Rightarrow> skill_ProfileLookup option \<Rightarrow> int \<Rightarrow> (string \<Rightarrow> string option) \<Rightarrow> 's \<Rightarrow> 'f skill_ListResult api_answer \<times> 's" where
  "handleList A L now query s =
     (case parseListParams query of
        Inl e \<Rightarrow> (RespErr 40000 e, s)
      | Inr p \<Rightarrow>
          (case skill_List A L now p s of
             (Inl e, s1) \<Rightarrow> (if Contains e ''invalid cursor'' then RespErr 40000 ''invalid cursor'' else RespErr 50000 ''aggregation unavailable'', s1)
           | (Inr result, s1) \<Rightarrow> (RespSuccess result, s1)))"

definition handleDetail :: "('s, 'f) skill_env \<Rightarrow> skill_ProfileLookup option \<Rightarrow> int \<Rightarrow> string \<Rightarrow> (string \<Rightarrow> string option) \<Rightarrow> 's \<Rightarrow> DetailResult api_answer \<times> 's" where
  "handleDetail A L now serviceID0 query s =
     (let serviceID = TrimSpace serviceID0
      in if serviceID = '''' then (RespErr 40000 ''serviceId required'', s)
         else case Detail A L now serviceID (DefaultQuery '''' (query ''chainName'')) (DefaultQuery '''' (query ''idType'')) s of
           (Inl ErrInvalidIDType, s1) \<Rightarrow> (RespErr 40000 (detailErr ErrInvalidIDType), s1)
         | (Inl ErrAmbiguousLookup, s1) \<Rightarrow> (RespErr 40000 ''ambiguous serviceId'', s1)
         | (Inl (ErrOther e), s1) \<Rightarrow> (RespErr 50000 (detailErr (ErrOther e)), s1)
         | (Inr None, s1) \<Rightarrow> (RespErr 40400 ''service not found'', s1)
         | (Inr (Some result), s1) \<Rightarrow> (RespSuccess result, s1))"


subsection \<open>Cursors round-trip\<close>

lemma b64_shape:
  "\<exists>body. b64_EncodeToString s = body @ replicate ((4 - length body mod 4) mod 4) CHR ''='' \<and> (\<forall>c \<in> set body. b64_value c \<noteq> None)"
proof (induction s rule: b64_EncodeToString.induct)
  case (2 a)
  have r2: "replicate 2 c = [c, c]" for c :: char by (simp add: numeral_2_eq_2)
  have a: "code a div 4 < 64" "16 * (code a mod 4) < 64" using b64_group(4,5) [of "code a" 0 0] code_lt_256 [of a] by simp_all
  show ?case
    by (rule exI [of _ "[b64_char (code a div 4), b64_char (16 * (code a mod 4))]"])
      (simp add: b64_value_char a r2)
next
  case (3 a b)
  note g = b64_group(4,5,6) [of "code a" "code b" 0]
  show ?case
    by (rule exI [of _ "[b64_char (code a div 4), b64_char (16 * (code a mod 4) + code b div 16), b64_char (4 * (code b mod 16))]"])
      (use g code_lt_256 in \<open>simp add: b64_value_char\<close>)
next
  case (4 a b c s)
  then obtain body where body: "b64_EncodeToString s = body @ replicate ((4 - length body mod 4) mod 4) CHR ''=''" "\<forall>c \<in> set body. b64_value c \<noteq> None" by blast
  note g = b64_group(4,5,6,7) [of "code a" "code b" "code c"]
  show ?case
    by (rule exI [of _ "b64_char (code a div 4) # b64_char (16 * (code a mod 4) + code b div 16) # b64_char (4 * (code b mod 16) + code c div 64) # b64_char (code c mod 64) # body"])
      (use g body code_lt_256 in \<open>simp add: b64_value_char\<close>)
qed simp

lemma b64_raw_url_roundtrip: "b64_RawURLDecodeString (b64_RawURLEncodeToString raw) = Some raw"
proof -
  obtain body where body: "b64_EncodeToString raw = body @ replicate ((4 - length body mod 4) mod 4) CHR ''=''" "\<forall>c \<in> set body. b64_value c \<noteq> None"
    using b64_shape by blast
  have no: "c \<noteq> CHR ''=''" "c \<noteq> CHR ''-''" "c \<noteq> CHR ''_''" "c \<noteq> CHR 0x0A" "c \<noteq> CHR 0x0D" if "c \<in> set body" for c
    using body(2) that by (auto simp: b64_value_def code_def)
  let ?f = "\<lambda>c. if c = CHR ''+'' then CHR ''-'' else if c = CHR ''/'' then CHR ''_'' else c"
  have e: "b64_RawURLEncodeToString raw = map ?f body"
  proof -
    have "filter (\<lambda>c. c \<noteq> CHR ''='') body = body" using no by simp
    then show ?thesis by (simp add: b64_RawURLEncodeToString_def body(1))
  qed
  have "b64_from_url (map ?f body) = Some body"
    using no by (auto simp: b64_from_url_def comp_def split: if_splits intro!: map_idI)
  moreover have "b64_RawDecodeString body = Some raw"
  proof -
    have "filter (\<lambda>c. c \<noteq> CHR 0x0A \<and> c \<noteq> CHR 0x0D) body = body" using no by simp
    then show ?thesis using no(1) body(1) b64_decode_encode [of raw] by (auto simp: b64_RawDecodeString_def Let_def)
  qed
  ultimately show ?thesis by (simp add: e b64_RawURLDecodeString_def)
qed

lemma cursor_nonempty: "encodeListCursor n \<noteq> ''''"
proof
  assume "encodeListCursor n = ''''"
  then have "b64_RawURLDecodeString '''' = Some (cursor_json n)" using b64_raw_url_roundtrip [of "cursor_json n"] by (simp add: encodeListCursor_def)
  moreover have "b64_RawURLDecodeString '''' = Some ''''" by code_simp
  ultimately show False by (simp add: cursor_json_def)
qed

lemma cursor_decoded: "sk_cursor A (cursor_json n) = Some n \<Longrightarrow> decodeListCursor A (encodeListCursor n) = Some n"
  using cursor_nonempty by (simp add: decodeListCursor_def encodeListCursor_def b64_raw_url_roundtrip)

subsection \<open>Sorting\<close>

lemma mset_insert_left: "mset (insert_left lt xs x) = add_mset x (mset xs)"
proof -
  have "mset (takeWhile (lt x) (rev xs)) + mset (dropWhile (lt x) (rev xs)) = mset xs" by (metis mset_append mset_rev takeWhile_dropWhile_id)
  then show ?thesis by (simp add: insert_left_def add.commute)
qed

lemma mset_SliceStable [simp]: "mset (SliceStable lt xs) = mset xs"
proof -
  have "mset (foldl (insert_left lt) ys xs) = mset ys + mset xs" for ys by (induction xs arbitrary: ys) (auto simp: mset_insert_left)
  then show ?thesis by (simp add: SliceStable_def)
qed

lemma mset_sortExpanded [simp]: "mset (sortExpanded F sortBy order xs) = mset xs"
  by (simp add: sortExpanded_def)

text \<open>With a comparison that is a total preorder \<open>le\<close> or its strict part, in one direction, the result is sorted.\<close>

lemma insert_left_sorted:
  assumes "sorted_wrt le xs" and total: "\<And>a b. lt a b \<Longrightarrow> le a b" "\<And>a b. \<not> lt a b \<Longrightarrow> le b a" and trans: "\<And>a b c. le a b \<Longrightarrow> le b c \<Longrightarrow> le a c"
  shows "sorted_wrt le (insert_left lt xs x)"
proof -
  define l where "l = rev (dropWhile (lt x) (rev xs))"
  define r where "r = rev (takeWhile (lt x) (rev xs))"
  have xs: "xs = l @ r" unfolding l_def r_def by (metis rev_append rev_rev_ident takeWhile_dropWhile_id)
  have r: "le x y" if "y \<in> set r" for y using that total(1) by (auto simp: r_def dest: set_takeWhileD)
  have l: "le y x" if "y \<in> set l" for y
  proof -
    have "dropWhile (lt x) (rev xs) \<noteq> []" using that unfolding l_def by (metis empty_iff empty_set rev.simps(1))
    then have last: "\<not> lt x (last l)" "l \<noteq> []" using hd_dropWhile [of "lt x" "rev xs"] by (auto simp: l_def last_rev)
    have "y = last l \<or> le y (last l)"
      using that assms(1) last(2) unfolding xs by (cases l rule: rev_cases) (auto simp: sorted_wrt_append)
    then show ?thesis using total(2) [OF last(1)] trans by blast
  qed
  have i: "insert_left lt xs x = l @ x # r" by (simp add: insert_left_def l_def r_def)
  show ?thesis using assms(1) [unfolded xs] r l unfolding i by (auto simp: sorted_wrt_append)
qed

lemma SliceStable_sorted:
  assumes "\<And>a b. lt a b \<Longrightarrow> le a b" "\<And>a b. \<not> lt a b \<Longrightarrow> le b a" "\<And>a b c. le a b \<Longrightarrow> le b c \<Longrightarrow> le a c"
  shows "sorted_wrt le (SliceStable lt xs)"
proof -
  have "sorted_wrt le (foldl (insert_left lt) ys xs)" if "sorted_wrt le ys" for ys
    using that
  proof (induction xs arbitrary: ys)
    case (Cons x xs)
    have "sorted_wrt le (insert_left lt ys x)" by (rule insert_left_sorted [OF Cons.prems assms])
    then show ?case using Cons.IH by simp
  qed simp
  then show ?thesis by (simp add: SliceStable_def)
qed

lemma updated_sorted:
  "sorted_wrt (\<lambda>a b. if order = ''asc'' then sv_UpdatedAt (ex_rec a) \<le> sv_UpdatedAt (ex_rec b) else sv_UpdatedAt (ex_rec b) \<le> sv_UpdatedAt (ex_rec a))
     (sortExpanded F ''updated'' order xs)"
  unfolding sortExpanded_def by (rule SliceStable_sorted) (auto simp: less_by_def split: if_splits)


subsection \<open>Following the cursors\<close>

text \<open>A client that asks for page after page until there is no next cursor.\<close>

fun follow_list :: "(string \<Rightarrow> 's \<Rightarrow> (string + 'f skill_ListResult) \<times> 's) \<Rightarrow> nat \<Rightarrow> string \<Rightarrow> 's \<Rightarrow> 'f ServiceListItem list option" where
  "follow_list ask 0 cursor s = None"
| "follow_list ask (Suc n) cursor s =
     (case ask cursor s of
        (Inl e, s1) \<Rightarrow> None
      | (Inr r, s1) \<Rightarrow> if ks_NextCursor r = '''' then Some (ks_List r) else map_option ((@) (ks_List r)) (follow_list ask n (ks_NextCursor r) s1))"

lemma page_at:
  assumes c: "\<forall>n. 0 \<le> n \<and> n < int (length xs) \<longrightarrow> sk_cursor A (cursor_json n) = Some n" and sz: "0 < kp_Size p"
    and k: "k < length xs \<or> k = 0" "kp_Cursor p = (if k = 0 then '''' else encodeListCursor (int k))"
  shows "list_page A now p xs = Inr \<lparr>ks_List = map (toListItem A) (take (nat (kp_Size p)) (drop k xs)),
    ks_NextCursor = (if k + nat (kp_Size p) < length xs then encodeListCursor (int (k + nat (kp_Size p))) else ''''), ks_Total = None, ks_AggregatedAt = now,
    ks_SchemaVersion = ''botHubSkillService.v1''\<rparr>"
proof -
  have "decodeListCursor A (kp_Cursor p) = Some (int k)" using k cursor_decoded [of A "int k"] c by (auto simp: decodeListCursor_def)
  moreover have "(if int k < 0 \<or> int (length xs) \<le> int k then (if kp_Cursor p \<noteq> '''' then int (length xs) else 0) else int k) = int k" using k by auto
  ultimately have e: "list_page A now p xs = (let n = int (length xs); end0 = int k + kp_Size p; end1 = (if n < end0 then n else end0)
    in Inr \<lparr>ks_List = map (toListItem A) (take (nat (end1 - int k)) (drop k xs)), ks_NextCursor = (if end1 < n then encodeListCursor end1 else ''''), ks_Total = None,
         ks_AggregatedAt = now, ks_SchemaVersion = ''botHubSkillService.v1''\<rparr>)"
    unfolding list_page_def by (simp add: Let_def)
  obtain z where z: "kp_Size p = int z" using sz by (metis pos_int_cases)
  show ?thesis
  proof (cases "k + z < length xs")
    case True
    then have "\<not> int (length xs) < int k + int z" "int k + int z < int (length xs)" by linarith+
    then show ?thesis using True by (simp add: e Let_def z)
  next
    case False
    have "nat (int (length xs) - int k) = length xs - k" by linarith
    moreover have "length xs \<le> k + z" using False by simp
    ultimately show ?thesis using False by (auto simp: e Let_def z)
  qed
qed

lemma follow_complete:
  assumes c: "\<forall>n. 0 \<le> n \<and> n < int (length xs) \<longrightarrow> sk_cursor A (cursor_json n) = Some n" and sz: "0 < kp_Size p"
    and ask: "\<And>cursor s. I s \<Longrightarrow> fst (ask cursor s) = list_page A now (p\<lparr>kp_Cursor := cursor\<rparr>) xs \<and> I (snd (ask cursor s))"
    and s: "I s" and k: "k < length xs \<or> k = 0" and n: "length xs - k < n"
  shows "follow_list ask n (if k = 0 then '''' else encodeListCursor (int k)) s = Some (map (toListItem A) (drop k xs))"
  using s k n
proof (induction n arbitrary: k s)
  case (Suc n)
  let ?z = "nat (kp_Size p)" and ?c = "if k = 0 then '''' else encodeListCursor (int k)"
  obtain s1 where a: "ask ?c s = (list_page A now (p\<lparr>kp_Cursor := ?c\<rparr>) xs, s1)" "I s1" using ask [OF Suc.prems(1), of ?c] by (cases "ask ?c s") auto
  note pg = page_at [OF c, where p = "p\<lparr>kp_Cursor := ?c\<rparr>" and k = k and now = now]
  show ?case
  proof (cases "k + ?z < length xs")
    case True
    have "follow_list ask n (encodeListCursor (int (k + ?z))) s1 = Some (map (toListItem A) (drop (k + ?z) xs))"
      using Suc.IH [OF a(2), of "k + ?z"] True Suc.prems(3) sz by auto
    moreover have "take ?z (drop k xs) @ drop (k + ?z) xs = drop k xs" by (metis append_take_drop_id drop_drop add.commute)
    ultimately show ?thesis using pg sz Suc.prems(2) a(1) True cursor_nonempty by (simp add: map_append [symmetric] del: map_append)
  next
    case False
    then show ?thesis using pg sz Suc.prems(2) a(1) by simp
  qed
qed simp

text \<open>A record with what is shown with it, and whether a query asks for it.\<close>

definition shown :: "('s, 'f) skill_env \<Rightarrow> skill_ProfileLookup option \<Rightarrow> (bytes \<Rightarrow> bytes option) \<Rightarrow> ServiceRecord \<Rightarrow> expandedRecord" where
  "shown A L rates r = \<lparr>ex_rec = r, ex_profile = ResolveProvider L r, ex_rating = aggregate_of (sv_ChainName r) (sv_SourceServicePinId r) (ratings (sk_pins A) rates)\<rparr>"

definition asked :: "('s, 'f) skill_env \<Rightarrow> skill_ProfileLookup option \<Rightarrow> (bytes \<Rightarrow> bytes option) \<Rightarrow> skill_ListParams \<Rightarrow> ServiceRecord \<Rightarrow> bool" where
  "asked A L rates p r \<longleftrightarrow> record_filter A p r \<and> (kp_ChainName p = '''' \<or> sv_ChainName r = kp_ChainName p)
     \<and> matchesProviderFilter (sk_U A) (shown A L rates r) (kp_ProviderGlobalMetaId p) \<and> matchesKeywordFilter (sk_U A) (shown A L rates r) (kp_Keyword p)"

definition stored_services :: "ServiceRecord codec \<Rightarrow> (bytes \<Rightarrow> bytes option) \<Rightarrow> ServiceRecord set" where
  "stored_services C c = {r. \<exists>ch src. colon_free ch \<and> service_at C c ch src = Some r}"

definition services_under :: "ServiceRecord codec \<Rightarrow> (bytes \<Rightarrow> bytes option) \<Rightarrow> string \<Rightarrow> ServiceRecord list" where
  "services_under C c ch = decoded (cd_Unmarshal C) (entries_under c (if ch \<noteq> '''' then ''service:'' @ ch @ '':'' else ''service:''))"

definition listed :: "('s, 'f) skill_env \<Rightarrow> skill_ProfileLookup option \<Rightarrow> (bytes \<Rightarrow> bytes option) \<Rightarrow> (bytes \<Rightarrow> bytes option) \<Rightarrow> skill_ListParams \<Rightarrow> expandedRecord list" where
  "listed A L c rates p = map (shown A L rates) (filter (asked A L rates p) (services_under (sk_codec A) c (kp_ChainName p)))"

context skill_store
begin

lemma expand_db:
  assumes "skills_ok s" and "\<forall>r \<in> set recs. colon_free (sv_ChainName r) \<and> sv_ChainName r \<noteq> '''' \<and> sv_SourceServicePinId r \<noteq> ''''"
  shows "\<exists>s'. expand_records A L p recs s = (filter (\<lambda>e. matchesProviderFilter (sk_U A) e (kp_ProviderGlobalMetaId p) \<and> matchesKeywordFilter (sk_U A) e (kp_Keyword p))
      (map (shown A L (rdb s)) recs), s') \<and> skills_ok s' \<and> content s' = content s"
  using assms
proof (induction recs arbitrary: s)
  case (Cons r recs)
  then have r: "colon_free (sv_ChainName r)" "sv_ChainName r \<noteq> ''''" "sv_SourceServicePinId r \<noteq> ''''" by auto
  obtain s1 where s1: "LoadRatingAggregate A (sv_ChainName r) (sv_SourceServicePinId r) s
      = (Inr (aggregate_of (sv_ChainName r) (sv_SourceServicePinId r) (ratings (sk_pins A) (rdb s))), s1)" "inv s1" "content s1 = content s"
    by (rule load_aggregate_db [OF Cons.prems(1) r])
  have ok1: "skills_ok s1" by (rule skills_ok_same [OF Cons.prems(1) s1(2,3)])
  obtain s2 where "expand_records A L p recs s1 = (filter (\<lambda>e. matchesProviderFilter (sk_U A) e (kp_ProviderGlobalMetaId p) \<and> matchesKeywordFilter (sk_U A) e (kp_Keyword p))
      (map (shown A L (rdb s1)) recs), s2)" "skills_ok s2" "content s2 = content s1" using Cons.IH [OF ok1] Cons.prems(2) by auto
  then show ?case using s1 by (simp add: no_err_def shown_def [symmetric] Let_def)
qed simp

lemma list_db:
  assumes ok: "skills_ok s" and ch: "colon_free ch"
  obtains recs s' where "(if ch \<noteq> '''' then listServicesByChain A ch s else listAllServices A s) = (Inr recs, s')" and "skills_ok s'" and "content s' = content s"
    and "recs = services_under (sk_codec A) (db s) ch"
    and "set recs = {r \<in> stored_services (sk_codec A) (db s). ch = '''' \<or> sv_ChainName r = ch}" and "distinct (map (\<lambda>r. (sv_ChainName r, sv_SourceServicePinId r)) recs)"
    and "\<forall>r \<in> set recs. colon_free (sv_ChainName r) \<and> sv_ChainName r \<noteq> '''' \<and> sv_SourceServicePinId r \<noteq> ''''"
proof -
  let ?C = "sk_codec A" and ?u = "cd_Unmarshal (sk_codec A)"
  let ?p = "if ch \<noteq> '''' then ''service:'' @ ch @ '':'' else ''service:''"
  have i: "inv s" and so: "services_ok ?C (db s)" using ok by (auto simp: skills_ok_def)
  obtain s' where s': "kv_Scan K skill_ns ?p s = (Inr (entries_under (db s) ?p), s')" "inv s'" "content s' = content s" by (rule scan_entries [OF i])
  define recs where recs0: "recs = services_under ?C (db s) ch"
  have recs_def: "recs = decoded ?u (entries_under (db s) ?p)" by (simp add: recs0 services_under_def)
  have e: "(if ch \<noteq> '''' then listServicesByChain A ch s else listAllServices A s) = (Inr recs, s')"
    using s'(1) by (simp add: listServicesByChain_def listAllServices_def env recs_def split: if_splits)
  have p0: "prefix ''service:'' k" if "prefix ?p k" for k by (rule prefix_order.trans [OF _ that]) simp
  have key: "\<exists>r. ?u raw = Some r \<and> k = serviceKey (sv_ChainName r) (sv_SourceServicePinId r) \<and> colon_free (sv_ChainName r) \<and> sv_ChainName r \<noteq> '''' \<and> sv_SourceServicePinId r \<noteq> ''''"
    if "db s k = Some raw" "prefix ''service:'' k" for k raw using so that unfolding services_ok_def by blast
  have mem: "r \<in> set recs \<longleftrightarrow> (\<exists>k raw. db s k = Some raw \<and> prefix ?p k \<and> ?u raw = Some r)" for r
    unfolding recs_def by (rule entries_decoded [OF i])
  have ok_r: "colon_free (sv_ChainName r) \<and> sv_ChainName r \<noteq> '''' \<and> sv_SourceServicePinId r \<noteq> '''' \<and> service_at ?C (db s) (sv_ChainName r) (sv_SourceServicePinId r) = Some r
      \<and> prefix ?p (serviceKey (sv_ChainName r) (sv_SourceServicePinId r))" if r: "r \<in> set recs" for r
  proof -
    obtain k raw where k: "db s k = Some raw" "prefix ?p k" "?u raw = Some r" using r mem by blast
    then show ?thesis using key [OF k(1) p0 [OF k(2)]] by (auto simp: service_at_def)
  qed
  have pre: "prefix ?p (serviceKey c x) \<longleftrightarrow> ch = '''' \<or> c = ch" if "colon_free c" for c x
    using sep_prefix [of "CHR '':''" ch c "[]" x] that ch by (auto simp: serviceKey_def colon_free_def)
  have in_recs: "r \<in> set recs" if st: "r \<in> stored_services ?C (db s)" "ch = '''' \<or> sv_ChainName r = ch" for r
  proof -
    obtain c x raw where c: "colon_free c" "db s (serviceKey c x) = Some raw" "?u raw = Some r" using st(1) by (auto simp: stored_services_def service_at_def bind_eq_Some_conv)
    have "sv_ChainName r = c" using service_found [OF so c(1,2)] c(3) by auto
    then have "prefix ?p (serviceKey c x)" using pre [OF c(1), of x] st(2) by blast
    then show ?thesis using mem c(2,3) by blast
  qed
  have out_recs: "r \<in> stored_services ?C (db s) \<and> (ch = '''' \<or> sv_ChainName r = ch)" if r: "r \<in> set recs" for r
  proof -
    have "r \<in> stored_services ?C (db s)" unfolding stored_services_def using ok_r [OF r] by blast
    moreover have "ch = '''' \<or> sv_ChainName r = ch" using ok_r [OF r] pre by blast
    ultimately show ?thesis by blast
  qed
  have "set recs = {r \<in> stored_services ?C (db s). ch = '''' \<or> sv_ChainName r = ch}" using in_recs out_recs by blast
  moreover have "distinct (map (\<lambda>r. (sv_ChainName r, sv_SourceServicePinId r)) recs)"
  proof -
    have "{k. db s k \<noteq> None \<and> prefix ?p k} \<subseteq> fst ` set (entries_under (db s) ?p)"
    proof
      fix k assume k: "k \<in> {k. db s k \<noteq> None \<and> prefix ?p k}"
      then obtain raw where "db s k = Some raw" by blast
      then have "(k, raw) \<in> set (entries_under (db s) ?p)" using entries_mem [OF i, of "(k, raw)" skill_ns ?p] k by simp
      then show "k \<in> fst ` set (entries_under (db s) ?p)" by force
    qed
    then have fin: "finite {k. db s k \<noteq> None \<and> prefix ?p k}" by (rule finite_subset) simp
    have "distinct (map (\<lambda>r. serviceKey (sv_ChainName r) (sv_SourceServicePinId r)) recs)"
      unfolding recs_def by (rule decoded_keys [OF _ fin]) (use key p0 in blast)
    then have "distinct (map (\<lambda>(a, b). serviceKey a b) (map (\<lambda>r. (sv_ChainName r, sv_SourceServicePinId r)) recs))" by (simp add: comp_def)
    then show ?thesis unfolding distinct_map by blast
  qed
  ultimately show thesis using that [OF e skills_ok_same [OF ok s'(2,3)] s'(3) recs0] ok_r by blast
qed

lemma skill_list_db:
  assumes ok: "skills_ok s" and p: "p = skill_normaliseListParams (sk_U A) p0" and ch: "colon_free (kp_ChainName p)"
  shows "ex_rec ` set (listed A L (db s) (rdb s) p) = {r \<in> stored_services (sk_codec A) (db s). asked A L (rdb s) p r}"
    and "distinct (map (\<lambda>e. (sv_ChainName (ex_rec e), sv_SourceServicePinId (ex_rec e))) (listed A L (db s) (rdb s) p))"
    and "\<exists>s'. skill_List A L now p0 s = (list_page A now p (sortExpanded (sk_F A) (kp_SortBy p) (kp_Order p) (listed A L (db s) (rdb s) p)), s') \<and> skills_ok s' \<and> content s' = content s"
proof -
  obtain recs s1 where r: "(if kp_ChainName p \<noteq> '''' then listServicesByChain A (kp_ChainName p) s else listAllServices A s) = (Inr recs, s1)" "skills_ok s1" "content s1 = content s"
    and recs: "recs = services_under (sk_codec A) (db s) (kp_ChainName p)"
      "set recs = {r \<in> stored_services (sk_codec A) (db s). kp_ChainName p = '''' \<or> sv_ChainName r = kp_ChainName p}"
      "distinct (map (\<lambda>r. (sv_ChainName r, sv_SourceServicePinId r)) recs)"
    and ne: "\<forall>r \<in> set recs. colon_free (sv_ChainName r) \<and> sv_ChainName r \<noteq> '''' \<and> sv_SourceServicePinId r \<noteq> ''''" by (rule list_db [OF ok ch])
  let ?m = "\<lambda>e. matchesProviderFilter (sk_U A) e (kp_ProviderGlobalMetaId p) \<and> matchesKeywordFilter (sk_U A) e (kp_Keyword p)"
  let ?xs = "listed A L (db s) (rdb s) p"
  have xs: "?xs = map (shown A L (rdb s)) (filter (asked A L (rdb s) p) recs)" by (simp add: listed_def recs(1))
  have rec: "ex_rec (shown A L c x) = x" for c x by (simp add: shown_def)
  show "ex_rec ` set ?xs = {r \<in> stored_services (sk_codec A) (db s). asked A L (rdb s) p r}" using recs(2) by (auto simp: xs image_image rec asked_def)
  have "map (\<lambda>e. (sv_ChainName (ex_rec e), sv_SourceServicePinId (ex_rec e))) ?xs = map (\<lambda>r. (sv_ChainName r, sv_SourceServicePinId r)) (filter (asked A L (rdb s) p) recs)"
    by (simp add: xs rec)
  then show "distinct (map (\<lambda>e. (sv_ChainName (ex_rec e), sv_SourceServicePinId (ex_rec e))) ?xs)" using recs(3) by (simp add: distinct_map_filter)
  obtain s2 where s2: "expand_records A L p (filter (record_filter A p) recs) s1 = (filter ?m (map (shown A L (rdb s1)) (filter (record_filter A p) recs)), s2)" "skills_ok s2" "content s2 = content s1"
    using expand_db [OF r(2), of "filter (record_filter A p) recs" L p] ne by auto
  have "filter (asked A L (rdb s) p) recs = filter (\<lambda>x. record_filter A p x \<and> ?m (shown A L (rdb s) x)) recs"
    by (rule filter_cong) (use recs(2) in \<open>auto simp: asked_def\<close>)
  then have "filter ?m (map (shown A L (rdb s1)) (filter (record_filter A p) recs)) = ?xs"
    using r(3) by (simp add: xs filter_map comp_def conj_commute)
  then show "\<exists>s'. skill_List A L now p0 s = (list_page A now p (sortExpanded (sk_F A) (kp_SortBy p) (kp_Order p) ?xs), s') \<and> skills_ok s' \<and> content s' = content s"
    using r s2 by (simp add: skill_List_def p [symmetric])
qed

lemma stored_finite:
  assumes ok: "skills_ok s"
  shows "finite (stored_services (sk_codec A) (db s))"
proof -
  have "colon_free ''''" by (simp add: colon_free_def)
  from list_db [OF ok this] obtain recs where "set recs = stored_services (sk_codec A) (db s)" by auto
  then show ?thesis by (metis List.finite_set)
qed

end


lemma demo_cursor:
  assumes "0 \<le> n" and "int64_ok n"
  shows "sk_cursor demo_skills (cursor_json n) = Some n"
proof -
  let ?d = "dec_digits (nat n)"
  have dig: "\<forall>c \<in> set ?d. is_digit c" using dec_digits_digit by blast
  have ne: "?d \<noteq> []" by (rule dec_digits_nonempty)
  then have h: "hd ?d \<noteq> CHR ''-''" "hd ?d \<noteq> CHR ''+''" using dig hd_in_set [OF ne] by (force simp: is_digit_def code_def)+
  have b: "\<forall>c \<in> set ?d. c \<noteq> CHR ''}''" using dig by (auto simp: is_digit_def code_def)
  have e: "Itoa n = ?d" using assms(1) by (simp add: Itoa_def)
  have "takeWhile (\<lambda>c. c \<noteq> CHR ''}'') (Itoa n @ ''}'') = Itoa n" unfolding e using b by (simp add: takeWhile_append2)
  moreover have "Atoi (Itoa n) = Some n" using assms ne h dig by (simp add: e Atoi_def Let_def digits_val_dec_digits list_all_iff)
  ultimately show ?thesis by (simp add: demo_skills_def cursor_json_def)
qed

definition demo_list_params :: skill_ListParams where
  "demo_list_params = \<lparr>kp_Size = 1, kp_Cursor = '''', kp_Keyword = '''', kp_Currency = '''', kp_ChainName = '' MVC'', kp_OutputType = '''',
     kp_ProviderGlobalMetaId = '''', kp_SortBy = ''updated'', kp_Order = ''desc'', kp_IncludeInactive = True\<rparr>"

definition demo_creates :: "(skill_ProfileLookup option \<times> PinInscription \<times> bool) list" where
  "demo_creates = [(None, demo_service ''ai0'' ''create'' ''/protocols/skill-service'' ''paint'', True), (None, demo_service ''bi0'' ''create'' ''/protocols/skill-service'' ''draw'', False)]"

definition demo_created :: "string \<Rightarrow> string \<Rightarrow> ServiceRecord" where
  "demo_created i b = newServiceRecord demo_skills (demo_service i ''create'' ''/protocols/skill-service'' b) (demo_summary_of b) i"

lemma demo_versions_created:
  "foldl (version_step demo_skills ch src) None (map pin_of demo_creates)
    = (if ch = ''mvc'' \<and> src = ''ai0'' then Some (demo_created ''ai0'' ''paint'') else if ch = ''mvc'' \<and> src = ''bi0'' then Some (demo_created ''bi0'' ''draw'') else None)"
proof -
  have U: "sk_U demo_skills = plain_unicode" by (simp add: demo_skills_def)
  have dec: "decodeServiceSummary demo_skills (demo_service i op p b) = Some (demo_summary_of b)" if "b = ''paint'' \<or> b = ''draw''" for i op p b
    using that by (auto simp: decodeServiceSummary_def demo_service_sel demo_skills_def demo_texts demo_summary_of_def)
  have a: "about_services demo_skills (demo_service i ''create'' ''/protocols/skill-service'' b) \<longleftrightarrow> i \<noteq> ''''" for i b
    by (simp add: about_services_def demo_service_sel U demo_texts)
  have f: "first_version demo_skills (demo_service i ''create'' ''/protocols/skill-service'' b) = Some (demo_created i b)" if "b = ''paint'' \<or> b = ''draw''" for i b
    using dec [OF that] by (simp add: first_version_def service_op_def demo_service_sel U demo_texts demo_created_def)
  have t: "resolveTargetPinId (demo_service i ''create'' ''/protocols/skill-service'' b) = None" for i b
  proof -
    have "pinTargetFromPath ''/protocols/skill-service'' = ''''" "TrimSpace '''' = ''''" by code_simp+
    then show ?thesis by (simp add: resolveTargetPinId_def demo_service_sel HasPrefix_def)
  qed
  show ?thesis by (auto simp: demo_creates_def pin_of_def version_step_def a f t demo_service_sel)
qed

lemma demo_creates_ok: "\<forall>d \<in> set demo_creates. skill_pin_ok (pin_of d)" "consistent demo_skills (pin_of ` set demo_creates)"
proof -
  have t: "pinTargetFromPath ''/protocols/skill-service'' = ''''" by code_simp
  show "\<forall>d \<in> set demo_creates. skill_pin_ok (pin_of d)" by (simp add: demo_creates_def demo_service_def skill_pin_ok_def pin_of_def t colon_free_def)
  show "consistent demo_skills (pin_of ` set demo_creates)" by (simp add: consistent_def demo_creates_def demo_service_def pin_of_def)
qed

text \<open>C31: following the cursors of a service listing from its first page ends, after at most one request more than there are services to list, with the items
  of exactly the stored services that the query asks for, each once, in the order of the sort, whatever the page size; the requests leave the stored records as
  they are.\<close>

theorem skill_pages_complete:
  fixes A :: "('s, 'f) skill_env"
  assumes store: "skill_store K loc content ok opened dbp A" and s: "skill_store.skills_ok loc content ok A s" and p: "p = skill_normaliseListParams (sk_U A) p0"
    and ch: "colon_free (kp_ChainName p)" and c: "\<forall>n. 0 \<le> n \<and> int64_ok n \<longrightarrow> sk_cursor A (cursor_json n) = Some n"
    and few: "int64_ok (int (card (stored_services (sk_codec A) (content s (loc skill_ns)))))"
  shows "\<exists>exps. ex_rec ` set exps = {r \<in> stored_services (sk_codec A) (content s (loc skill_ns)). asked A L (content s (loc rate_ns)) p r}
    \<and> distinct (map (\<lambda>e. (sv_ChainName (ex_rec e), sv_SourceServicePinId (ex_rec e))) exps)
    \<and> follow_list (\<lambda>cursor. skill_List A L now (p0\<lparr>kp_Cursor := cursor\<rparr>)) (Suc (length exps)) '''' s = Some (map (toListItem A) (sortExpanded (sk_F A) (kp_SortBy p) (kp_Order p) exps))"
proof -
  let ?c = "content s (loc skill_ns)" and ?r = "content s (loc rate_ns)"
  let ?xs = "listed A L ?c ?r p" and ?ask = "\<lambda>cursor. skill_List A L now (p0\<lparr>kp_Cursor := cursor\<rparr>)"
  let ?ys = "sortExpanded (sk_F A) (kp_SortBy p) (kp_Order p) ?xs" and ?I = "\<lambda>t. skill_store.skills_ok loc content ok A t \<and> content t = content s"
  note l = skill_store.skill_list_db(1,2) [OF store s p ch, where L = L]
  have ask: "fst (?ask cursor t) = list_page A now (p\<lparr>kp_Cursor := cursor\<rparr>) ?ys \<and> ?I (snd (?ask cursor t))" if t: "?I t" for cursor t
  proof -
    have n: "p\<lparr>kp_Cursor := cursor\<rparr> = skill_normaliseListParams (sk_U A) (p0\<lparr>kp_Cursor := cursor\<rparr>)" by (simp add: p skill_normaliseListParams_def)
    have "listed A L ?c ?r (p\<lparr>kp_Cursor := cursor\<rparr>) = ?xs" by (simp add: listed_def asked_def [abs_def] record_filter_def [abs_def])
    then show ?thesis using skill_store.skill_list_db(3) [OF store conjunct1 [OF t] n, where L = L and now = now] ch t by auto
  qed
  have len: "length ?ys = length ?xs" by (metis mset_sortExpanded size_mset)
  have fin: "finite (stored_services (sk_codec A) ?c)" by (rule skill_store.stored_finite [OF store s])
  have "distinct (map ex_rec ?xs)" using l(2) by (auto simp: distinct_map inj_on_def)
  then have "length ?xs = card (ex_rec ` set ?xs)" using distinct_card [of "map ex_rec ?xs"] by simp
  then have "length ?xs \<le> card (stored_services (sk_codec A) ?c)" unfolding l(1) using card_mono [OF fin] by simp
  then have "\<forall>n. 0 \<le> n \<and> n < int (length ?ys) \<longrightarrow> sk_cursor A (cursor_json n) = Some n" using c few by (auto simp: len int64_ok_def)
  moreover have "0 < kp_Size p" by (simp add: p skill_normaliseListParams_def clampSize_def)
  ultimately have "follow_list ?ask (Suc (length ?xs)) (if (0::nat) = 0 then '''' else encodeListCursor (int 0)) s = Some (map (toListItem A) (drop 0 ?ys))"
    by (rule follow_complete [where I = ?I, OF _ _ ask]) (auto simp: len s)
  then show ?thesis using l(1,2) by (intro exI [of _ ?xs]) simp
qed

theorem skill_pages_complete_witness:
  "\<exists>exps. ex_rec ` set exps = {demo_created ''ai0'' ''paint'', demo_created ''bi0'' ''draw''}
    \<and> follow_list (\<lambda>cursor. skill_List demo_skills None 9 (demo_list_params\<lparr>kp_Cursor := cursor\<rparr>)) (Suc (length exps)) ''''
        (foldl (skill_step demo_skills) demo_skill_state demo_creates) = Some (map (toListItem demo_skills) (sortExpanded demo_floats ''updated'' ''desc'' exps))"
proof -
  let ?s = "foldl (skill_step demo_skills) demo_skill_state demo_creates"
  let ?c = "mem_disk (snd ?s) (filepath_Join ''data'' skill_ns)" and ?r = "mem_disk (snd ?s) (filepath_Join ''data'' rate_ns)"
  let ?p = "skill_normaliseListParams plain_unicode demo_list_params"
  note v = demo_skills.run_versions [OF demo_skills_ok demo_skills_empty demo_creates_ok]
  have st: "stored_services (sk_codec demo_skills) ?c = {demo_created ''ai0'' ''paint'', demo_created ''bi0'' ''draw''}" (is "_ = ?two")
  proof -
    have at: "service_at (sk_codec demo_skills) ?c ch src = (if ch = ''mvc'' \<and> src = ''ai0'' then Some (demo_created ''ai0'' ''paint'')
      else if ch = ''mvc'' \<and> src = ''bi0'' then Some (demo_created ''bi0'' ''draw'') else None)" if "colon_free ch" for ch src
      using v that by (simp add: demo_versions_created)
    have m: "colon_free ''mvc''" by (simp add: colon_free_def)
    show ?thesis
    proof (rule set_eqI)
      fix r
      have "r \<in> ?two" if "colon_free ch" "service_at (sk_codec demo_skills) ?c ch src = Some r" for ch src using at [OF that(1), of src] that(2) by (simp split: if_splits)
      moreover have "\<exists>ch src. colon_free ch \<and> service_at (sk_codec demo_skills) ?c ch src = Some r" if "r \<in> ?two"
        using that at [OF m, of "''ai0''"] at [OF m, of "''bi0''"] m by auto
      ultimately show "r \<in> stored_services (sk_codec demo_skills) ?c \<longleftrightarrow> r \<in> ?two" unfolding stored_services_def by blast
    qed
  qed
  have ps: "?p = demo_list_params\<lparr>kp_ChainName := ''mvc''\<rparr>" by code_simp
  have U: "sk_U demo_skills = plain_unicode" "sk_F demo_skills = demo_floats" by (simp_all add: demo_skills_def)
  have "asked demo_skills None ?r (demo_list_params\<lparr>kp_ChainName := ''mvc''\<rparr>) r" if "r \<in> ?two" for r
    using that by (auto simp: asked_def record_filter_def matchesCurrencyFilter_def matchesOutputTypeFilter_def matchesProviderFilter_def matchesKeywordFilter_def demo_list_params_def
        demo_created_def newServiceRecord_def demo_service_sel)
  then have "{r \<in> ?two. asked demo_skills None ?r ?p r} = ?two" unfolding ps by blast
  moreover have "int64_ok (int (card ?two))" by (simp add: int64_ok_def card_insert_if)
  moreover have "kp_SortBy ?p = ''updated''" "kp_Order ?p = ''desc''" "colon_free (kp_ChainName ?p)" unfolding ps by (simp_all add: demo_list_params_def colon_free_def)
  ultimately show ?thesis
    using skill_pages_complete [OF demo_skills.skill_store_axioms conjunct1 [OF v] refl, of demo_list_params None 9] demo_cursor st unfolding U by auto
qed

end
