(* ===== verification/Spec2Isabelle.thy ===== *)
theory Spec2Isabelle
  imports Converter SocketServer FedPuller FedRegistry Indexer PrivateChat GroupApi ChainPins BlockList PubBackfill UserProfiles SkillList
begin

text \<open>
  Verification of \<open>metaso-p2p\<close>, a Go service that indexes MetaID pins from several blockchains, keeps chat and
  profile data derived from them in a local key-value store, pushes new messages to connected clients over socket.io,
  and shares presence (who is online where) with other nodes of a federation.

  \<^bold>\<open>Parts and how they interact.\<close> Chain adapters give the indexing engine pins; the engine hands every pin to every registered
  aggregator; an aggregator stores what it derives through the namespaced store and returns notify events; the socket server
  routes the events to the sockets of the recipients and tracks connections. The federation publishes a signed snapshot of the local
  connections, announces the node in a registry transaction, discovers other nodes through registry pins, pulls their snapshots
  and merges them with the local connections into the global presence list, which the presence endpoints of the
  socket server answer from. Identities are ID addresses.

  \<^bold>\<open>Theories.\<close>
  \<^item> \<open>Prelude\<close>, \<open>GoStrings\<close>, \<open>Base64\<close>, \<open>Sha256\<close>: the language and its standard library as far as the sources use them: 64-bit
    arithmetic, maps with an iteration order, string functions, decimal text, base64 (with its round trip), SHA-256.
  \<^item> \<open>IdAddress\<close>, \<open>IdAddress_Codec\<close> (\<open>pkg/idaddress/idaddress.go\<close>): the ID address codec. Decoding inverts encoding; every
    substitution of one data character is detected; what non-ASCII input does.
  \<^item> \<open>Converter\<close> (\<open>pkg/idaddress/converter.go\<close>): Bech32, Base58Check and the conversions from and to chain addresses, with round
    trips. The digits of \<open>btcutil/base58\<close> are a parameter.
  \<^item> \<open>Storage\<close> (\<open>internal/storage/pebble.go\<close>): the namespaced store over a parameter for Pebble and the file system. The locale
    \<open>pebble_db\<close> states Pebble's documented behaviour; \<open>kv_store\<close> and \<open>kv_reliable\<close> are the interface of the clients, derived from
    it by \<open>sublocale\<close>; \<open>mem\<close> interprets all of them with an in-memory database. Scans and deletions by prefix are exact, written values
    survive closing.
  \<^item> \<open>Presence\<close> (\<open>internal/presence/types.go\<close>): shared types, page arithmetic, the locale \<open>global_reader\<close>.
  \<^item> \<open>SocketManager\<close> (\<open>internal/socket/manager.go\<close>, connection handling of \<open>server.go\<close>): connections with the manager's mutex.
    No sequence of connects, pings, disconnects and cleanup ticks blocks or exceeds the device limits; which connection is evicted; why
    \<open>DisconnectAll\<close> hangs.
  \<^item> \<open>FedStore\<close>, \<open>FedCrypto\<close>, \<open>FedDiscovery\<close>, \<open>FedPuller\<close>, \<open>FedRegistry\<close> (\<open>internal/federation\<close>): the peer and snapshot store with the
    merge of observations (equal to its specification, independent of order, only live sources; it interprets \<open>global_reader\<close>), snapshot
    signatures, a discovery round against its specification, pulling with validation and backoff, and the registry transaction
    and publisher. Signature schemes, JSON and the transaction library are parameters.
  \<^item> \<open>ChainRaw\<close>, \<open>ChainPins\<close> (\<open>internal/chain\<close>): the byte formats the chain adapters parse themselves (raw MVC transactions, Dogecoin blocks with
    merged-mining data) and the pins the four indexers find in a transaction, a block or a mempool list. Parsing inverts the formats; a registry
    transaction built by \<open>FedRegistry\<close> is found as exactly one pin. Wire decoding and script tokenizing of \<open>btcd\<close> are the record \<open>wire_lib\<close>.
  \<^item> \<open>Aggregators\<close> (\<open>internal/aggregator/aggregator.go\<close>, \<open>internal/api/response.go\<close>): pins, events, the routing of pins.
  \<^item> \<open>SocketServer\<close> (\<open>internal/socket/server.go\<close>, \<open>presence.go\<close>, \<open>profile.go\<close>): who receives an event, and the presence endpoints as
    clients of \<open>global_reader\<close>.
  \<^item> \<open>Indexer\<close> (\<open>internal/indexer/engine.go\<close>): block scanning with persisted heights and mempool polling, as a client of
    \<open>kv_reliable\<close>.
  \<^item> \<open>ChatPages\<close>: what the chat modules share: cursors, pages, message indexes, and the locale \<open>paged_list\<close> with the client that follows
    the cursors of a list.
  \<^item> \<open>PrivateChat\<close> (\<open>internal/aggregator/privatechat\<close>): pins to stored messages, conversation lists, cursors, as a client of \<open>kv_reliable\<close>.
    After any run a conversation lists exactly what was sent in it; following the cursors gives all of it.
  \<^item> \<open>GroupStore\<close>, \<open>GroupChat\<close> (\<open>internal/aggregator/groupchat\<close>): groups, members, roles, channels, join records and messages. The locale
    \<open>group_store\<close> is the module on a reliable store; after any run of pins the membership of a user is what the pins say.
  \<^item> \<open>GroupApi\<close> (\<open>api.go\<close> and the queries of \<open>db_chat.go\<close> in the same directory): searches, the unified list of sessions, and the HTTP handlers. The substring
    search is what it is meant to be; the session list shows every session once with its newest message.
  \<^item> \<open>StoreDelete\<close>, \<open>Cache\<close> (\<open>internal/cache/cache.go\<close>): deletion as the store does it, in the locale \<open>kv_deleting\<close>, and the two-level cache over it. The
    memory level, an LRU of a library, never shows anything but the persistent level, whatever it evicts.
  \<^item> \<open>BlockList\<close> (\<open>internal/aggregator/notify\<close>): the lists of blocked chats and their handlers; after any requests a list holds what they say.
  \<^item> \<open>PubContent\<close>, \<open>PubIndex\<close> (\<open>internal/aggregator/publishedcontent\<close>): published content with one index per identity of the publisher. Every pin
    keeps records and indexes consistent, so lists by publisher are exact.
  \<^item> \<open>Manapi\<close>, \<open>PubBackfill\<close> (\<open>backfill.go\<close> of \<open>publishedcontent\<close> and \<open>userinfo\<close>): the client that lists old pins of a public indexer page by page. A backfill
    from a server that lists its pins in pages ends and has processed every pin it should.
  \<^item> \<open>UserInfo\<close>, \<open>UserProfiles\<close> (\<open>internal/aggregator/userinfo\<close>): profiles from \<open>/info\<close> pins, their indexes, the completion from a remote service and the handlers
    with their cache. The locale \<open>user_store\<close> is the module over the caches and the store; after any pins a profile is what the pins say, lookups are exact, and
    what the cache shows after a pin is known.
  \<^item> \<open>SkillService\<close>, \<open>SkillChain\<close>, \<open>SkillList\<close> (\<open>internal/aggregator/skillservice\<close>): services with their version chains, index entries and ratings, and what is shown of
    them: lists with filters, orders and cursors, the homepage list of a provider, details. The locale \<open>skill_store\<close> is the module over the store; after any pins a
    service is the fold of the version rule, a revoked one stays hidden, the rating aggregates are exact, and the pages of a list give every service asked for once.
  \<^item> This theory: the path of a private message from a pin to the sockets of the recipient.

  \<^bold>\<open>Modelling.\<close> A struct is a record with the source's field names after a prefix, a function or method keeps its name. State is
  passed explicitly; errors are values of a sum or option type; a panic is \<open>None\<close>. The mutex of the connection manager is part of the
  state, so that blocking is a result. Clock readings, HTTP exchanges and answers of chain nodes are arguments. Goroutines with
  tickers repeat a function of the model; the properties are about any sequence of such steps.

  \<^bold>\<open>Bounds and fuel.\<close> Go's \<open>int\<close> and \<open>int64\<close> are integers with \<open>wrap64\<close> where the code can leave the range; statements that need
  the absence of overflow say so, and lemmas show what overflow does where it can happen. The fee loop has the 20 attempts of the source. Fuel is only in
  \<open>follow_pages\<close> and \<open>follow_list\<close>, clients of the message and the service list; one more step than there are entries is shown to be enough. The loop over the pages
  of a remote indexer, \<open>backfill_path\<close>, is a \<open>partial_function\<close>, and shown to return for a server whose cursors end.

  \<^bold>\<open>Not modelled.\<close> The RPC clients of the chain adapters, the HTTP router and configuration, the wallet client, the socket.io server object
  and the entry points, which are input and output; the bot homepage module, which assembles pages from the answers of the modules here and keeps no state
  of its own. \<open>Service\<close> of the federation only starts and stops the parts.
\<close>

subsection \<open>From a pin to the sockets of the recipient\<close>

lemma add_targets_id:
  assumes "\<forall>t \<in> set ts. TrimSpace t = t \<and> t \<noteq> ''''" and "distinct (map (ToLower U) ts)"
  shows "foldl (\<lambda>st i. add_target U i st) ([], []) ts = (ts, map (ToLower U) ts)"
  using assms
proof (induction ts rule: rev_induct)
  case (snoc t ts)
  then have "foldl (\<lambda>st i. add_target U i st) ([], []) ts = (ts, map (ToLower U) ts)" by auto
  moreover have "ToLower U t \<notin> ToLower U ` set ts" "TrimSpace t = t" "t \<noteq> ''''" using snoc.prems by auto
  ultimately show ?case by (simp add: add_target_def)
qed simp

text \<open>The aliases of an identity are trimmed, not blank and distinct up to case, so the socket server keeps them all.\<close>

lemma aliases_ok:
  "(\<forall>t \<in> set (identityAliases U L i). TrimSpace t = t \<and> t \<noteq> '''') \<and> distinct (map (ToLower U) (identityAliases U L i))
   \<and> (TrimSpace i \<noteq> '''' \<longrightarrow> identityAliases U L i \<noteq> [])"
proof (cases "TrimSpace i = ''''")
  case True
  then show ?thesis by (simp add: identityAliases_def)
next
  case False
  define ids where "ids = TrimSpace i # (case L of None \<Rightarrow> []
      | Some L \<Rightarrow> profile_ids (il_ByMetaId L (TrimSpace i)) @ profile_ids (il_ByGlobalMetaId L (TrimSpace i)) @ profile_ids (il_ByAddress L (TrimSpace i)))"
  define st where "st = foldl (\<lambda>st i. add_target U i st) ([], []) ids"
  have ok: "targets_ok U ids st" unfolding st_def by (rule targets_ok_fold)
  have e: "identityAliases U L i = fst st" using False by (simp add: identityAliases_def Let_def ids_def st_def)
  have "TrimSpace t = t \<and> t \<noteq> ''''" if "t \<in> set (fst st)" for t
  proof -
    have "t \<in> TrimSpace ` set ids" "t \<noteq> ''''" using ok that by (auto simp: targets_ok_def)
    then show ?thesis by auto
  qed
  moreover have "distinct (map (ToLower U) (fst st))" using ok unfolding targets_ok_def by metis
  moreover have "fst st \<noteq> []" using targets_ok_empty [OF ok] False by (auto simp: ids_def)
  ultimately show ?thesis unfolding e by blast
qed

lemma alias_targets:
  assumes "ne_TargetIds e = identityAliases U L i" and "TrimSpace i \<noteq> ''''"
  shows "notifyEventTargetIds U e = identityAliases U L i"
  using aliases_ok [of U L i] add_targets_id [of "identityAliases U L i" U] assms by (simp add: notifyEventTargetIds_def Let_def)

lemma route_private_set:
  assumes "ne_Type e = ''WS_SERVER_NOTIFY_PRIVATE_CHAT''"
  shows "set (Server_routeNotifyEvent U ns (Some e))
    = {(sock, \<lparr>pe_M = ne_Type e, pe_C = 0, pe_D = ne_Payload e\<rparr>) |sock query t.
         (sock, query) \<in> set (ns_sockets ns) \<and> t \<in> set (notifyEventTargetIds U e) \<and> query_first query ''metaid'' = Some t}"
  using assms by (auto simp: Server_routeNotifyEvent_def Server_SendToUser_def Let_def image_iff)



end
